(* ===== verification/Prelude.thy ===== *)
theory Prelude
  imports Main "HOL-Library.Word"
begin

text \<open>
  Shared vocabulary of the development.

  \<^item> Names of the machine types the crates use. \<open>u8\<close>, \<open>u64\<close> are words of that width; \<open>Word\<close> is
    the 256-bit integer \<open>U256\<close>; an \<open>Address\<close> is a 160-bit and a \<open>Hash\<close> a 256-bit value. A \<open>usize\<close> that
    counts or indexes elements of a vector in memory is a \<open>nat\<close>: it cannot exceed the address space.
  \<^item> A fallible Rust function returns a \<open>result\<close>: \<open>Inl (Err e)\<close> for \<open>Err(e)\<close>, \<open>Inl (Panic m)\<close> for a panic
    (\<open>panic!\<close>, \<open>unwrap\<close>, \<open>expect\<close>, \<open>assert!\<close>, an index out of range, integer overflow), \<open>Inr x\<close> for
    \<open>Ok(x)\<close> or a plain return.
  \<^item> Arithmetic on fixed-width integers that can overflow is the checked arithmetic of a build with
    overflow checks: \<open>u64_add\<close>, \<open>u64_sub\<close>, \<open>u64_mul\<close> and the operators of \<open>U256\<close> (which check in every build).
  \<^item> Conversion between words and byte strings, with the round trips the bytecode theories need.
\<close>

named_theorems res_simps \<open>rewriting of results: bind, checks, lookups\<close>
named_theorems op_defs \<open>definitions of the operations of a component\<close>
named_theorems inv_intros \<open>preservation of the invariants, one rule per operation\<close>

type_synonym u8 = "8 word"
type_synonym u32 = "32 word"
type_synonym u64 = "64 word"
type_synonym Word = "256 word"
type_synonym Address = "160 word"
type_synonym Hash = "256 word"
type_synonym usize = nat

section \<open>Results\<close>

datatype 'e failure = Err 'e | Panic string

type_synonym ('a, 'e) result = "'e failure + 'a"

definition bindE :: "'e + 'a \<Rightarrow> ('a \<Rightarrow> 'e + 'b) \<Rightarrow> 'e + 'b" where
  "bindE m f = (case m of Inl e \<Rightarrow> Inl e | Inr x \<Rightarrow> f x)"

definition ensure :: "bool \<Rightarrow> 'e \<Rightarrow> 'e + unit" where
  "ensure b e = (if b then Inr () else Inl e)"

definition ok_or :: "'a option \<Rightarrow> 'e \<Rightarrow> 'e + 'a" where
  "ok_or x e = (case x of None \<Rightarrow> Inl e | Some y \<Rightarrow> Inr y)"

definition map_err :: "('d \<Rightarrow> 'e) \<Rightarrow> ('a, 'd) result \<Rightarrow> ('a, 'e) result" where
  "map_err f m = (case m of Inl (Err e) \<Rightarrow> Inl (Err (f e)) | Inl (Panic s) \<Rightarrow> Inl (Panic s) | Inr x \<Rightarrow> Inr x)"

text \<open>A \<open>for\<close> loop whose body threads a state and may leave with an error.\<close>

fun foldE :: "('a \<Rightarrow> 's \<Rightarrow> 'e + 's) \<Rightarrow> 'a list \<Rightarrow> 's \<Rightarrow> 'e + 's" where
  "foldE f [] s = Inr s"
| "foldE f (x # xs) s = bindE (f x s) (foldE f xs)"

text \<open>A loop over a vector that replaces each element, or leaves with an error.\<close>

fun mapE :: "('a \<Rightarrow> 'e + 'b) \<Rightarrow> 'a list \<Rightarrow> 'e + 'b list" where
  "mapE f [] = Inr []"
| "mapE f (x # xs) = bindE (f x) (\<lambda>y. bindE (mapE f xs) (\<lambda>ys. Inr (y # ys)))"

definition nth_opt :: "'a list \<Rightarrow> nat \<Rightarrow> 'a option" where
  "nth_opt xs i = (if i < length xs then Some (xs ! i) else None)"

text \<open>\<open>last_mut\<close>: replace the last element of a vector.\<close>

definition map_last :: "('a \<Rightarrow> 'a) \<Rightarrow> 'a list \<Rightarrow> 'a list" where
  "map_last f xs = (if xs = [] then [] else butlast xs @ [f (last xs)])"

section \<open>Checked arithmetic\<close>

definition u64_add :: "u64 \<Rightarrow> u64 \<Rightarrow> (u64, 'e) result" where
  "u64_add a b = (if unat a + unat b < 2 ^ 64 then Inr (a + b) else Inl (Panic ''attempt to add with overflow''))"

definition u64_sub :: "u64 \<Rightarrow> u64 \<Rightarrow> (u64, 'e) result" where
  "u64_sub a b = (if b \<le> a then Inr (a - b) else Inl (Panic ''attempt to subtract with overflow''))"

definition u64_mul :: "u64 \<Rightarrow> u64 \<Rightarrow> (u64, 'e) result" where
  "u64_mul a b = (if unat a * unat b < 2 ^ 64 then Inr (a * b) else Inl (Panic ''attempt to multiply with overflow''))"

definition u256_add :: "Word \<Rightarrow> Word \<Rightarrow> (Word, 'e) result" where
  "u256_add a b = (if unat a + unat b < 2 ^ 256 then Inr (a + b) else Inl (Panic ''arithmetic operation overflow''))"

definition u256_sub :: "Word \<Rightarrow> Word \<Rightarrow> (Word, 'e) result" where
  "u256_sub a b = (if b \<le> a then Inr (a - b) else Inl (Panic ''arithmetic operation overflow''))"

definition u256_mul :: "Word \<Rightarrow> Word \<Rightarrow> (Word, 'e) result" where
  "u256_mul a b = (if unat a * unat b < 2 ^ 256 then Inr (a * b) else Inl (Panic ''arithmetic operation overflow''))"

text \<open>\<open>U256::as_u64\<close> and \<open>as_usize\<close> panic when the value does not fit; \<open>low_u64\<close> truncates.\<close>

definition u256_as_u64 :: "Word \<Rightarrow> (u64, 'e) result" where
  "u256_as_u64 w = (if unat w < 2 ^ 64 then Inr (ucast w) else Inl (Panic ''Integer overflow when casting to u64''))"

definition u256_as_usize :: "Word \<Rightarrow> (usize, 'e) result" where
  "u256_as_usize w = (if unat w < 2 ^ 64 then Inr (unat w) else Inl (Panic ''Integer overflow when casting to usize''))"

definition low_u64 :: "Word \<Rightarrow> u64" where
  "low_u64 w = ucast w"

definition word_of_bool :: "bool \<Rightarrow> Word" where
  "word_of_bool b = (if b then 1 else 0)"

section \<open>Words as byte strings\<close>

definition le_bytes :: "nat \<Rightarrow> nat \<Rightarrow> u8 list" where
  "le_bytes n x = map (\<lambda>i. of_nat (x div 256 ^ i)) [0..<n]"

definition be_bytes :: "nat \<Rightarrow> nat \<Rightarrow> u8 list" where
  "be_bytes n x = rev (le_bytes n x)"

definition nat_of_be :: "u8 list \<Rightarrow> nat" where
  "nat_of_be bs = foldl (\<lambda>acc b. acc * 256 + unat b) 0 bs"

fun nat_of_le :: "u8 list \<Rightarrow> nat" where
  "nat_of_le [] = 0"
| "nat_of_le (b # bs) = unat b + 256 * nat_of_le bs"

section \<open>Lemmas on results\<close>

lemma bindE_Inr [simp, res_simps]: "bindE (Inr x) f = f x"
  by (simp add: bindE_def)

lemma bindE_Inl [simp, res_simps]: "bindE (Inl e) f = Inl e"
  by (simp add: bindE_def)

lemma bindE_cong [fundef_cong]:
  "m = m' \<Longrightarrow> (\<And>x. m' = Inr x \<Longrightarrow> f x = f' x) \<Longrightarrow> bindE m f = bindE m' f'"
  by (cases m') simp_all

lemma bindE_eq_Inr [simp]: "bindE m f = Inr y \<longleftrightarrow> (\<exists>x. m = Inr x \<and> f x = Inr y)"
  by (cases m) auto

lemma bindE_eq_InrE [elim!]:
  assumes "bindE m f = Inr y"
  obtains x where "m = Inr x" and "f x = Inr y"
  using assms by auto

lemma bindE_assoc: "bindE (bindE m f) g = bindE m (\<lambda>x. bindE (f x) g)"
  by (cases m) auto

lemma ensure_eq_Inr [simp]: "ensure b e = Inr u \<longleftrightarrow> b"
  by (simp add: ensure_def)

lemma ensure_True [simp, res_simps]: "ensure True e = Inr ()"
  by (simp add: ensure_def)

lemma ensure_False [simp, res_simps]: "ensure False e = Inl e"
  by (simp add: ensure_def)

lemma ok_or_simps [simp, res_simps]: "ok_or None e = Inl e" "ok_or (Some x) e = Inr x"
  by (simp_all add: ok_or_def)

lemma ok_or_eq_Inr [simp]: "ok_or m e = Inr x \<longleftrightarrow> m = Some x"
  by (cases m) auto

lemma map_err_eq_Inr [simp]: "map_err f m = Inr x \<longleftrightarrow> m = Inr x"
  by (auto simp: map_err_def split: sum.splits failure.splits)

lemma map_err_Inr [simp, res_simps]: "map_err f (Inr x) = Inr x"
  by (simp add: map_err_def)

lemma map_err_Err [simp, res_simps]: "map_err f (Inl (Err e)) = Inl (Err (f e))"
  by (simp add: map_err_def)

lemma mapE_InrD: "mapE f xs = Inr ys \<Longrightarrow> list_all2 (\<lambda>x y. f x = Inr y) xs ys"
  by (induction xs arbitrary: ys) auto

lemma mapE_Inr_iff: "mapE f xs = Inr ys \<longleftrightarrow> list_all2 (\<lambda>x y. f x = Inr y) xs ys"
proof
  show "list_all2 (\<lambda>x y. f x = Inr y) xs ys \<Longrightarrow> mapE f xs = Inr ys"
    by (induction rule: list_all2_induct) auto
qed (rule mapE_InrD)

lemma foldE_keeps:
  assumes "foldE f ys s = Inr s'" and "\<And>y s t. f y s = Inr t \<Longrightarrow> g t = g s"
  shows "g s' = g s"
  using assms by (induction ys arbitrary: s) fastforce+

lemma foldE_append: "foldE f (xs @ ys) s = bindE (foldE f xs s) (foldE f ys)"
  by (induction xs arbitrary: s) (auto simp: bindE_assoc intro: arg_cong2 [where f = bindE])

lemma foldE_invariant:
  assumes "foldE f xs s = Inr t" and "P s"
    and "\<And>x s t. x \<in> set xs \<Longrightarrow> P s \<Longrightarrow> f x s = Inr t \<Longrightarrow> P t"
  shows "P t"
  using assms
proof (induction xs arbitrary: s)
  case Nil
  then show ?case by simp
next
  case (Cons x xs)
  from Cons.prems(1) obtain u where u: "f x s = Inr u" "foldE f xs u = Inr t"
    by auto
  have "P u"
    using Cons.prems(3) [OF _ Cons.prems(2) u(1)] by simp
  then show ?case
    using Cons.IH [OF u(2)] Cons.prems(3) by (metis list.set_intros(2))
qed

lemma nth_opt_eq_Some [simp]: "nth_opt xs i = Some x \<longleftrightarrow> i < length xs \<and> xs ! i = x"
  by (auto simp: nth_opt_def)

lemma nth_opt_append_left: "i < length xs \<Longrightarrow> nth_opt (xs @ ys) i = nth_opt xs i"
  by (simp add: nth_opt_def nth_append)

lemma nth_opt_snoc [simp]: "nth_opt (xs @ [x]) (length xs) = Some x"
  by (simp add: nth_opt_def)

lemma length_map_last [simp]: "length (map_last f xs) = length xs"
  by (simp add: map_last_def)

lemma map_last_snoc [simp]: "map_last f (xs @ [x]) = xs @ [f x]"
  by (simp add: map_last_def)

lemma map_last_eq_Nil [simp]: "map_last f xs = [] \<longleftrightarrow> xs = []"
  by (simp add: map_last_def)

lemma last_map_last [simp]: "xs \<noteq> [] \<Longrightarrow> last (map_last f xs) = f (last xs)"
  by (simp add: map_last_def)

lemma butlast_map_last [simp]: "butlast (map_last f xs) = butlast xs"
  by (simp add: map_last_def)

section \<open>Lemmas on checked arithmetic\<close>

lemma u64_add_InrD: "u64_add a b = Inr c \<Longrightarrow> unat c = unat a + unat b"
  by (auto simp: u64_add_def unat_word_ariths split: if_splits)

lemma u64_sub_InrD: "u64_sub a b = Inr c \<Longrightarrow> b \<le> a \<and> unat c = unat a - unat b"
  by (auto simp: u64_sub_def unat_sub split: if_splits)

lemma u64_mul_InrD: "u64_mul a b = Inr c \<Longrightarrow> unat c = unat a * unat b"
  by (auto simp: u64_mul_def unat_word_ariths split: if_splits)

lemma u256_add_InrD: "u256_add a b = Inr c \<Longrightarrow> unat c = unat a + unat b"
  by (auto simp: u256_add_def unat_word_ariths split: if_splits)

lemma u256_sub_InrD: "u256_sub a b = Inr c \<Longrightarrow> b \<le> a \<and> unat c = unat a - unat b"
  by (auto simp: u256_sub_def unat_sub split: if_splits)

section \<open>Lemmas on byte strings\<close>

lemma length_le_bytes [simp]: "length (le_bytes n x) = n"
  by (simp add: le_bytes_def)

lemma length_be_bytes [simp]: "length (be_bytes n x) = n"
  by (simp add: be_bytes_def)

lemma le_bytes_Suc: "le_bytes (Suc n) x = of_nat x # le_bytes n (x div 256)"
  unfolding le_bytes_def
  by (simp add: upt_conv_Cons map_Suc_upt [symmetric] div_mult2_eq del: upt_Suc map_Suc_upt)

lemma unat_u8_less: "unat (b :: u8) < 256"
proof -
  have "unat b < 2 ^ LENGTH(8)" by (rule unsigned_less)
  then show ?thesis by simp
qed

lemma unat_of_nat_u8 [simp]: "unat (of_nat x :: u8) = x mod 256"
  by (simp add: unat_of_nat)

lemma nat_of_le_le_bytes: "nat_of_le (le_bytes n x) = x mod 256 ^ n"
proof (induction n arbitrary: x)
  case 0
  then show ?case by (simp add: le_bytes_def)
next
  case (Suc n)
  have "x mod 256 ^ Suc n = 256 * (x div 256 mod 256 ^ n) + x mod 256"
    by (simp add: mod_mult2_eq)
  then show ?case by (simp add: le_bytes_Suc Suc.IH)
qed

lemma nat_of_be_snoc: "nat_of_be (bs @ [b]) = nat_of_be bs * 256 + unat b"
  by (simp add: nat_of_be_def)

lemma nat_of_be_rev: "nat_of_be (rev bs) = nat_of_le bs"
  by (induction bs) (simp_all add: nat_of_be_snoc nat_of_be_def [of "[]"])

lemma nat_of_be_be_bytes: "nat_of_be (be_bytes n x) = x mod 256 ^ n"
  by (simp add: be_bytes_def nat_of_be_rev nat_of_le_le_bytes)

lemma nat_of_le_bound: "nat_of_le bs < 256 ^ length bs"
proof (induction bs)
  case Nil
  then show ?case by simp
next
  case (Cons b bs)
  have "unat b < 256"
    by (rule unat_u8_less)
  with Cons show ?case by simp
qed

lemma nat_of_be_bound: "nat_of_be bs < 256 ^ length bs"
  using nat_of_le_bound [of "rev bs"] nat_of_be_rev [of "rev bs"] by simp

lemma le_bytes_nat_of_le: "le_bytes (length bs) (nat_of_le bs) = bs"
proof (induction bs)
  case Nil
  then show ?case by (simp add: le_bytes_def)
next
  case (Cons b bs)
  have b: "unat b < 256"
    by (rule unat_u8_less)
  have "unat (of_nat (unat b + 256 * nat_of_le bs) :: u8) = unat b"
    using b by (simp only: unat_of_nat_u8) simp
  then have "(of_nat (unat b + 256 * nat_of_le bs) :: u8) = b"
    by (simp only: word_unat_eq_iff)
  moreover have "(unat b + 256 * nat_of_le bs) div 256 = nat_of_le bs"
    using b by simp
  ultimately show ?case using Cons by (simp add: le_bytes_Suc)
qed

lemma be_bytes_nat_of_be: "be_bytes (length bs) (nat_of_be bs) = bs"
  using le_bytes_nat_of_le [of "rev bs"] nat_of_be_rev [of "rev bs"] by (simp add: be_bytes_def)

end
