(* ===== verification/Opcode_Ids.thy ===== *)
theory Opcode_Ids
  imports Prelude
begin

text \<open>
  \<^verbatim>\<open>eth-types/src/evm_types.rs\<close> (gas constants) and \<^verbatim>\<open>eth-types/src/evm_types/opcode_ids.rs\<close>
  (the opcode enumeration and its tables).

  The enum \<open>OpcodeId\<close> has 144 variants. Its variants keep their names here and are grouped into
  eight enumerations, following the sections of the source, that \<open>OpcodeId\<close> wraps:
  \<open>OpcodeId::ADD\<close> is \<open>Arith ADD\<close>, \<open>OpcodeId::PUSH1\<close> is \<open>Push PUSH1\<close>. \<open>INVALID(b)\<close> carries its byte.
  The tables \<open>as_u8\<close>, \<open>constant_gas_cost\<close> and \<open>stack_ptr_range\<close> are the three matches of the source,
  \<open>from_u8_table\<close> and \<open>from_str_table\<close> the two matches that read an opcode.
\<close>

section \<open>Errors of the eth-types crate\<close>

text \<open>
  \<open>SerdeError\<close> and \<open>Signature\<close> wrap errors of other crates that no modelled function returns.
\<close>

datatype eth_error =
    TracingError string
  | IncompleteBlock
  | InvalidOpcodeIdByte u8
  | OpcodeParsing string
  | MemAddressParsing
  | StackAddressParsing
  | InvalidOpConversion
  | InvalidStackPointer
  | InvalidMemoryPointer
  | InvalidStorageKey
  | WordToMemAddr

section \<open>Gas costs\<close>

definition GasCost_ZERO :: u64 where
  "GasCost_ZERO = 0"

definition GasCost_ONE :: u64 where
  "GasCost_ONE = 1"

definition GasCost_QUICK :: u64 where
  "GasCost_QUICK = 2"

definition GasCost_FASTEST :: u64 where
  "GasCost_FASTEST = 3"

definition GasCost_FAST :: u64 where
  "GasCost_FAST = 5"

definition GasCost_MID :: u64 where
  "GasCost_MID = 8"

definition GasCost_SLOW :: u64 where
  "GasCost_SLOW = 10"

definition GasCost_EXT :: u64 where
  "GasCost_EXT = 20"

definition GasCost_SHA3 :: u64 where
  "GasCost_SHA3 = 30"

definition GasCost_SELFDESTRUCT :: u64 where
  "GasCost_SELFDESTRUCT = 5000"

definition GasCost_CREATE :: u64 where
  "GasCost_CREATE = 32000"

definition GasCost_COPY :: u64 where
  "GasCost_COPY = 3"

definition GasCost_COPY_SHA3 :: u64 where
  "GasCost_COPY_SHA3 = 6"

definition GasCost_WARM_ACCESS :: u64 where
  "GasCost_WARM_ACCESS = 100"

definition GasCost_COLD_SLOAD :: u64 where
  "GasCost_COLD_SLOAD = 2100"

definition GasCost_COLD_ACCOUNT_ACCESS :: u64 where
  "GasCost_COLD_ACCOUNT_ACCESS = 2600"

definition GasCost_SSTORE_SENTRY :: u64 where
  "GasCost_SSTORE_SENTRY = 2300"

definition GasCost_SSTORE_SET :: u64 where
  "GasCost_SSTORE_SET = 20000"

definition GasCost_SSTORE_RESET :: u64 where
  "GasCost_SSTORE_RESET = 2900"

definition GasCost_SSTORE_CLEARS_SCHEDULE :: u64 where
  "GasCost_SSTORE_CLEARS_SCHEDULE = 4800"

definition GasCost_TX :: u64 where
  "GasCost_TX = 21000"

definition GasCost_CREATION_TX :: u64 where
  "GasCost_CREATION_TX = 53000"

definition GasCost_CALL_WITH_VALUE :: u64 where
  "GasCost_CALL_WITH_VALUE = 9000"

definition GasCost_NEW_ACCOUNT :: u64 where
  "GasCost_NEW_ACCOUNT = 25000"

definition GasCost_CODE_DEPOSIT_BYTE_COST :: u64 where
  "GasCost_CODE_DEPOSIT_BYTE_COST = 200"

definition GasCost_MEMORY_EXPANSION_QUAD_DENOMINATOR :: u64 where
  "GasCost_MEMORY_EXPANSION_QUAD_DENOMINATOR = 512"

definition GasCost_MEMORY_EXPANSION_LINEAR_COEFF :: u64 where
  "GasCost_MEMORY_EXPANSION_LINEAR_COEFF = 3"

definition GasCost_LOG :: u64 where
  "GasCost_LOG = 375"

definition GasCost_EXP_BYTE_TIMES :: u64 where
  "GasCost_EXP_BYTE_TIMES = 50"

lemmas gas_cost_defs =
  GasCost_ZERO_def
  GasCost_ONE_def
  GasCost_QUICK_def
  GasCost_FASTEST_def
  GasCost_FAST_def
  GasCost_MID_def
  GasCost_SLOW_def
  GasCost_EXT_def
  GasCost_SHA3_def
  GasCost_SELFDESTRUCT_def
  GasCost_CREATE_def
  GasCost_COPY_def
  GasCost_COPY_SHA3_def
  GasCost_WARM_ACCESS_def
  GasCost_COLD_SLOAD_def
  GasCost_COLD_ACCOUNT_ACCESS_def
  GasCost_SSTORE_SENTRY_def
  GasCost_SSTORE_SET_def
  GasCost_SSTORE_RESET_def
  GasCost_SSTORE_CLEARS_SCHEDULE_def
  GasCost_TX_def
  GasCost_CREATION_TX_def
  GasCost_CALL_WITH_VALUE_def
  GasCost_NEW_ACCOUNT_def
  GasCost_CODE_DEPOSIT_BYTE_COST_def
  GasCost_MEMORY_EXPANSION_QUAD_DENOMINATOR_def
  GasCost_MEMORY_EXPANSION_LINEAR_COEFF_def
  GasCost_LOG_def
  GasCost_EXP_BYTE_TIMES_def

section \<open>The opcodes\<close>

datatype ArithOp =
    STOP | ADD | MUL | SUB | DIV | SDIV | MOD | SMOD | ADDMOD | MULMOD | EXP | SIGNEXTEND | LT | GT | SLT |
    SGT | EQ | ISZERO | AND | OR | XOR | NOT | BYTE | SHL | SHR | SAR

datatype FlowOp =
    CALLDATALOAD | CALLDATASIZE | CALLDATACOPY | CODESIZE | CODECOPY | POP | MLOAD | MSTORE | MSTORE8 |
    JUMP | JUMPI | PC | MSIZE | JUMPDEST

datatype PushOp =
    PUSH0 | PUSH1 | PUSH2 | PUSH3 | PUSH4 | PUSH5 | PUSH6 | PUSH7 | PUSH8 | PUSH9 | PUSH10 | PUSH11 |
    PUSH12 | PUSH13 | PUSH14 | PUSH15 | PUSH16 | PUSH17 | PUSH18 | PUSH19 | PUSH20 | PUSH21 | PUSH22 |
    PUSH23 | PUSH24 | PUSH25 | PUSH26 | PUSH27 | PUSH28 | PUSH29 | PUSH30 | PUSH31 | PUSH32

datatype DupOp =
    DUP1 | DUP2 | DUP3 | DUP4 | DUP5 | DUP6 | DUP7 | DUP8 | DUP9 | DUP10 | DUP11 | DUP12 | DUP13 | DUP14 |
    DUP15 | DUP16

datatype SwapOp =
    SWAP1 | SWAP2 | SWAP3 | SWAP4 | SWAP5 | SWAP6 | SWAP7 | SWAP8 | SWAP9 | SWAP10 | SWAP11 | SWAP12 |
    SWAP13 | SWAP14 | SWAP15 | SWAP16

datatype SysOp =
    RETURN | REVERT | CREATE | CREATE2 | CALL | CALLCODE | DELEGATECALL | STATICCALL | SELFDESTRUCT

datatype ExtOp =
    SHA3 | ADDRESS | BALANCE | ORIGIN | CALLER | CALLVALUE | GASPRICE | EXTCODESIZE | EXTCODECOPY |
    EXTCODEHASH | RETURNDATASIZE | RETURNDATACOPY | BLOCKHASH | COINBASE | TIMESTAMP | NUMBER |
    DIFFICULTY | GASLIMIT | CHAINID | SELFBALANCE | BASEFEE | SLOAD | SSTORE | GAS

datatype LogOp =
    LOG0 | LOG1 | LOG2 | LOG3 | LOG4

datatype OpcodeId =
    Arith ArithOp
  | Flow FlowOp
  | Push PushOp
  | Dup DupOp
  | Swap SwapOp
  | Sys SysOp
  | Ext ExtOp
  | Log LogOp
  | INVALID u8

definition as_u8 :: "OpcodeId \<Rightarrow> u8" where
  "as_u8 op = (case op of
      Arith o' \<Rightarrow> (case o' of
          STOP \<Rightarrow> 0x00 | ADD \<Rightarrow> 0x01 | MUL \<Rightarrow> 0x02
          | SUB \<Rightarrow> 0x03 | DIV \<Rightarrow> 0x04 | SDIV \<Rightarrow> 0x05
          | MOD \<Rightarrow> 0x06 | SMOD \<Rightarrow> 0x07 | ADDMOD \<Rightarrow> 0x08
          | MULMOD \<Rightarrow> 0x09 | EXP \<Rightarrow> 0x0a | SIGNEXTEND \<Rightarrow> 0x0b
          | LT \<Rightarrow> 0x10 | GT \<Rightarrow> 0x11 | SLT \<Rightarrow> 0x12
          | SGT \<Rightarrow> 0x13 | EQ \<Rightarrow> 0x14 | ISZERO \<Rightarrow> 0x15
          | AND \<Rightarrow> 0x16 | OR \<Rightarrow> 0x17 | XOR \<Rightarrow> 0x18
          | NOT \<Rightarrow> 0x19 | BYTE \<Rightarrow> 0x1a | SHL \<Rightarrow> 0x1b
          | SHR \<Rightarrow> 0x1c | SAR \<Rightarrow> 0x1d)
    | Flow o' \<Rightarrow> (case o' of
          CALLDATALOAD \<Rightarrow> 0x35 | CALLDATASIZE \<Rightarrow> 0x36
          | CALLDATACOPY \<Rightarrow> 0x37 | CODESIZE \<Rightarrow> 0x38
          | CODECOPY \<Rightarrow> 0x39 | POP \<Rightarrow> 0x50 | MLOAD \<Rightarrow> 0x51
          | MSTORE \<Rightarrow> 0x52 | MSTORE8 \<Rightarrow> 0x53 | JUMP \<Rightarrow> 0x56
          | JUMPI \<Rightarrow> 0x57 | PC \<Rightarrow> 0x58 | MSIZE \<Rightarrow> 0x59
          | JUMPDEST \<Rightarrow> 0x5b)
    | Push o' \<Rightarrow> (case o' of
          PUSH0 \<Rightarrow> 0x5f | PUSH1 \<Rightarrow> 0x60 | PUSH2 \<Rightarrow> 0x61
          | PUSH3 \<Rightarrow> 0x62 | PUSH4 \<Rightarrow> 0x63 | PUSH5 \<Rightarrow> 0x64
          | PUSH6 \<Rightarrow> 0x65 | PUSH7 \<Rightarrow> 0x66 | PUSH8 \<Rightarrow> 0x67
          | PUSH9 \<Rightarrow> 0x68 | PUSH10 \<Rightarrow> 0x69 | PUSH11 \<Rightarrow> 0x6a
          | PUSH12 \<Rightarrow> 0x6b | PUSH13 \<Rightarrow> 0x6c | PUSH14 \<Rightarrow> 0x6d
          | PUSH15 \<Rightarrow> 0x6e | PUSH16 \<Rightarrow> 0x6f | PUSH17 \<Rightarrow> 0x70
          | PUSH18 \<Rightarrow> 0x71 | PUSH19 \<Rightarrow> 0x72 | PUSH20 \<Rightarrow> 0x73
          | PUSH21 \<Rightarrow> 0x74 | PUSH22 \<Rightarrow> 0x75 | PUSH23 \<Rightarrow> 0x76
          | PUSH24 \<Rightarrow> 0x77 | PUSH25 \<Rightarrow> 0x78 | PUSH26 \<Rightarrow> 0x79
          | PUSH27 \<Rightarrow> 0x7a | PUSH28 \<Rightarrow> 0x7b | PUSH29 \<Rightarrow> 0x7c
          | PUSH30 \<Rightarrow> 0x7d | PUSH31 \<Rightarrow> 0x7e | PUSH32 \<Rightarrow> 0x7f)
    | Dup o' \<Rightarrow> (case o' of
          DUP1 \<Rightarrow> 0x80 | DUP2 \<Rightarrow> 0x81 | DUP3 \<Rightarrow> 0x82
          | DUP4 \<Rightarrow> 0x83 | DUP5 \<Rightarrow> 0x84 | DUP6 \<Rightarrow> 0x85
          | DUP7 \<Rightarrow> 0x86 | DUP8 \<Rightarrow> 0x87 | DUP9 \<Rightarrow> 0x88
          | DUP10 \<Rightarrow> 0x89 | DUP11 \<Rightarrow> 0x8a | DUP12 \<Rightarrow> 0x8b
          | DUP13 \<Rightarrow> 0x8c | DUP14 \<Rightarrow> 0x8d | DUP15 \<Rightarrow> 0x8e
          | DUP16 \<Rightarrow> 0x8f)
    | Swap o' \<Rightarrow> (case o' of
          SWAP1 \<Rightarrow> 0x90 | SWAP2 \<Rightarrow> 0x91 | SWAP3 \<Rightarrow> 0x92
          | SWAP4 \<Rightarrow> 0x93 | SWAP5 \<Rightarrow> 0x94 | SWAP6 \<Rightarrow> 0x95
          | SWAP7 \<Rightarrow> 0x96 | SWAP8 \<Rightarrow> 0x97 | SWAP9 \<Rightarrow> 0x98
          | SWAP10 \<Rightarrow> 0x99 | SWAP11 \<Rightarrow> 0x9a | SWAP12 \<Rightarrow> 0x9b
          | SWAP13 \<Rightarrow> 0x9c | SWAP14 \<Rightarrow> 0x9d | SWAP15 \<Rightarrow> 0x9e
          | SWAP16 \<Rightarrow> 0x9f)
    | Sys o' \<Rightarrow> (case o' of
          RETURN \<Rightarrow> 0xf3 | REVERT \<Rightarrow> 0xfd | CREATE \<Rightarrow> 0xf0
          | CREATE2 \<Rightarrow> 0xf5 | CALL \<Rightarrow> 0xf1 | CALLCODE \<Rightarrow> 0xf2
          | DELEGATECALL \<Rightarrow> 0xf4 | STATICCALL \<Rightarrow> 0xfa
          | SELFDESTRUCT \<Rightarrow> 0xff)
    | Ext o' \<Rightarrow> (case o' of
          SHA3 \<Rightarrow> 0x20 | ADDRESS \<Rightarrow> 0x30 | BALANCE \<Rightarrow> 0x31
          | ORIGIN \<Rightarrow> 0x32 | CALLER \<Rightarrow> 0x33 | CALLVALUE \<Rightarrow> 0x34
          | GASPRICE \<Rightarrow> 0x3a | EXTCODESIZE \<Rightarrow> 0x3b
          | EXTCODECOPY \<Rightarrow> 0x3c | EXTCODEHASH \<Rightarrow> 0x3f
          | RETURNDATASIZE \<Rightarrow> 0x3d | RETURNDATACOPY \<Rightarrow> 0x3e
          | BLOCKHASH \<Rightarrow> 0x40 | COINBASE \<Rightarrow> 0x41
          | TIMESTAMP \<Rightarrow> 0x42 | NUMBER \<Rightarrow> 0x43
          | DIFFICULTY \<Rightarrow> 0x44 | GASLIMIT \<Rightarrow> 0x45
          | CHAINID \<Rightarrow> 0x46 | SELFBALANCE \<Rightarrow> 0x47
          | BASEFEE \<Rightarrow> 0x48 | SLOAD \<Rightarrow> 0x54 | SSTORE \<Rightarrow> 0x55
          | GAS \<Rightarrow> 0x5a)
    | Log o' \<Rightarrow> (case o' of
          LOG0 \<Rightarrow> 0xa0 | LOG1 \<Rightarrow> 0xa1 | LOG2 \<Rightarrow> 0xa2
          | LOG3 \<Rightarrow> 0xa3 | LOG4 \<Rightarrow> 0xa4)
    | INVALID b \<Rightarrow> b)"

definition as_u64 :: "OpcodeId \<Rightarrow> u64" where
  "as_u64 op = ucast (as_u8 op)"

definition constant_gas_cost :: "OpcodeId \<Rightarrow> u64" where
  "constant_gas_cost op = (case op of
      Arith o' \<Rightarrow> (case o' of
          STOP \<Rightarrow> GasCost_ZERO | ADD \<Rightarrow> GasCost_FASTEST
          | MUL \<Rightarrow> GasCost_FAST | SUB \<Rightarrow> GasCost_FASTEST
          | DIV \<Rightarrow> GasCost_FAST | SDIV \<Rightarrow> GasCost_FAST
          | MOD \<Rightarrow> GasCost_FAST | SMOD \<Rightarrow> GasCost_FAST
          | ADDMOD \<Rightarrow> GasCost_MID | MULMOD \<Rightarrow> GasCost_MID
          | EXP \<Rightarrow> GasCost_SLOW | SIGNEXTEND \<Rightarrow> GasCost_FAST
          | LT \<Rightarrow> GasCost_FASTEST | GT \<Rightarrow> GasCost_FASTEST
          | SLT \<Rightarrow> GasCost_FASTEST | SGT \<Rightarrow> GasCost_FASTEST
          | EQ \<Rightarrow> GasCost_FASTEST | ISZERO \<Rightarrow> GasCost_FASTEST
          | AND \<Rightarrow> GasCost_FASTEST | OR \<Rightarrow> GasCost_FASTEST
          | XOR \<Rightarrow> GasCost_FASTEST | NOT \<Rightarrow> GasCost_FASTEST
          | BYTE \<Rightarrow> GasCost_FASTEST | SHL \<Rightarrow> GasCost_FASTEST
          | SHR \<Rightarrow> GasCost_FASTEST | SAR \<Rightarrow> GasCost_FASTEST)
    | Flow o' \<Rightarrow> (case o' of
          CALLDATALOAD \<Rightarrow> GasCost_FASTEST | CALLDATASIZE \<Rightarrow> GasCost_QUICK
          | CALLDATACOPY \<Rightarrow> GasCost_FASTEST | CODESIZE \<Rightarrow> GasCost_QUICK
          | CODECOPY \<Rightarrow> GasCost_FASTEST | POP \<Rightarrow> GasCost_QUICK
          | MLOAD \<Rightarrow> GasCost_FASTEST | MSTORE \<Rightarrow> GasCost_FASTEST
          | MSTORE8 \<Rightarrow> GasCost_FASTEST | JUMP \<Rightarrow> GasCost_MID
          | JUMPI \<Rightarrow> GasCost_SLOW | PC \<Rightarrow> GasCost_QUICK
          | MSIZE \<Rightarrow> GasCost_QUICK | JUMPDEST \<Rightarrow> GasCost_ONE)
    | Push o' \<Rightarrow> (case o' of
          PUSH0 \<Rightarrow> GasCost_QUICK | PUSH1 \<Rightarrow> GasCost_FASTEST
          | PUSH2 \<Rightarrow> GasCost_FASTEST | PUSH3 \<Rightarrow> GasCost_FASTEST
          | PUSH4 \<Rightarrow> GasCost_FASTEST | PUSH5 \<Rightarrow> GasCost_FASTEST
          | PUSH6 \<Rightarrow> GasCost_FASTEST | PUSH7 \<Rightarrow> GasCost_FASTEST
          | PUSH8 \<Rightarrow> GasCost_FASTEST | PUSH9 \<Rightarrow> GasCost_FASTEST
          | PUSH10 \<Rightarrow> GasCost_FASTEST | PUSH11 \<Rightarrow> GasCost_FASTEST
          | PUSH12 \<Rightarrow> GasCost_FASTEST | PUSH13 \<Rightarrow> GasCost_FASTEST
          | PUSH14 \<Rightarrow> GasCost_FASTEST | PUSH15 \<Rightarrow> GasCost_FASTEST
          | PUSH16 \<Rightarrow> GasCost_FASTEST | PUSH17 \<Rightarrow> GasCost_FASTEST
          | PUSH18 \<Rightarrow> GasCost_FASTEST | PUSH19 \<Rightarrow> GasCost_FASTEST
          | PUSH20 \<Rightarrow> GasCost_FASTEST | PUSH21 \<Rightarrow> GasCost_FASTEST
          | PUSH22 \<Rightarrow> GasCost_FASTEST | PUSH23 \<Rightarrow> GasCost_FASTEST
          | PUSH24 \<Rightarrow> GasCost_FASTEST | PUSH25 \<Rightarrow> GasCost_FASTEST
          | PUSH26 \<Rightarrow> GasCost_FASTEST | PUSH27 \<Rightarrow> GasCost_FASTEST
          | PUSH28 \<Rightarrow> GasCost_FASTEST | PUSH29 \<Rightarrow> GasCost_FASTEST
          | PUSH30 \<Rightarrow> GasCost_FASTEST | PUSH31 \<Rightarrow> GasCost_FASTEST
          | PUSH32 \<Rightarrow> GasCost_FASTEST)
    | Dup o' \<Rightarrow> (case o' of
          DUP1 \<Rightarrow> GasCost_FASTEST | DUP2 \<Rightarrow> GasCost_FASTEST
          | DUP3 \<Rightarrow> GasCost_FASTEST | DUP4 \<Rightarrow> GasCost_FASTEST
          | DUP5 \<Rightarrow> GasCost_FASTEST | DUP6 \<Rightarrow> GasCost_FASTEST
          | DUP7 \<Rightarrow> GasCost_FASTEST | DUP8 \<Rightarrow> GasCost_FASTEST
          | DUP9 \<Rightarrow> GasCost_FASTEST | DUP10 \<Rightarrow> GasCost_FASTEST
          | DUP11 \<Rightarrow> GasCost_FASTEST | DUP12 \<Rightarrow> GasCost_FASTEST
          | DUP13 \<Rightarrow> GasCost_FASTEST | DUP14 \<Rightarrow> GasCost_FASTEST
          | DUP15 \<Rightarrow> GasCost_FASTEST | DUP16 \<Rightarrow> GasCost_FASTEST)
    | Swap o' \<Rightarrow> (case o' of
          SWAP1 \<Rightarrow> GasCost_FASTEST | SWAP2 \<Rightarrow> GasCost_FASTEST
          | SWAP3 \<Rightarrow> GasCost_FASTEST | SWAP4 \<Rightarrow> GasCost_FASTEST
          | SWAP5 \<Rightarrow> GasCost_FASTEST | SWAP6 \<Rightarrow> GasCost_FASTEST
          | SWAP7 \<Rightarrow> GasCost_FASTEST | SWAP8 \<Rightarrow> GasCost_FASTEST
          | SWAP9 \<Rightarrow> GasCost_FASTEST | SWAP10 \<Rightarrow> GasCost_FASTEST
          | SWAP11 \<Rightarrow> GasCost_FASTEST | SWAP12 \<Rightarrow> GasCost_FASTEST
          | SWAP13 \<Rightarrow> GasCost_FASTEST | SWAP14 \<Rightarrow> GasCost_FASTEST
          | SWAP15 \<Rightarrow> GasCost_FASTEST | SWAP16 \<Rightarrow> GasCost_FASTEST)
    | Sys o' \<Rightarrow> (case o' of
          RETURN \<Rightarrow> GasCost_ZERO | REVERT \<Rightarrow> GasCost_ZERO
          | CREATE \<Rightarrow> GasCost_CREATE | CREATE2 \<Rightarrow> GasCost_CREATE
          | CALL \<Rightarrow> GasCost_WARM_ACCESS | CALLCODE \<Rightarrow> GasCost_WARM_ACCESS
          | DELEGATECALL \<Rightarrow> GasCost_WARM_ACCESS
          | STATICCALL \<Rightarrow> GasCost_WARM_ACCESS
          | SELFDESTRUCT \<Rightarrow> GasCost_SELFDESTRUCT)
    | Ext o' \<Rightarrow> (case o' of
          SHA3 \<Rightarrow> GasCost_SHA3 | ADDRESS \<Rightarrow> GasCost_QUICK
          | BALANCE \<Rightarrow> GasCost_WARM_ACCESS | ORIGIN \<Rightarrow> GasCost_QUICK
          | CALLER \<Rightarrow> GasCost_QUICK | CALLVALUE \<Rightarrow> GasCost_QUICK
          | GASPRICE \<Rightarrow> GasCost_QUICK | EXTCODESIZE \<Rightarrow> GasCost_WARM_ACCESS
          | EXTCODECOPY \<Rightarrow> GasCost_WARM_ACCESS
          | EXTCODEHASH \<Rightarrow> GasCost_WARM_ACCESS
          | RETURNDATASIZE \<Rightarrow> GasCost_QUICK
          | RETURNDATACOPY \<Rightarrow> GasCost_FASTEST | BLOCKHASH \<Rightarrow> GasCost_EXT
          | COINBASE \<Rightarrow> GasCost_QUICK | TIMESTAMP \<Rightarrow> GasCost_QUICK
          | NUMBER \<Rightarrow> GasCost_QUICK | DIFFICULTY \<Rightarrow> GasCost_QUICK
          | GASLIMIT \<Rightarrow> GasCost_QUICK | CHAINID \<Rightarrow> GasCost_QUICK
          | SELFBALANCE \<Rightarrow> GasCost_FAST | BASEFEE \<Rightarrow> GasCost_QUICK
          | SLOAD \<Rightarrow> GasCost_ZERO | SSTORE \<Rightarrow> GasCost_ZERO
          | GAS \<Rightarrow> GasCost_QUICK)
    | Log o' \<Rightarrow> (case o' of
          LOG0 \<Rightarrow> GasCost_ZERO | LOG1 \<Rightarrow> GasCost_ZERO
          | LOG2 \<Rightarrow> GasCost_ZERO | LOG3 \<Rightarrow> GasCost_ZERO
          | LOG4 \<Rightarrow> GasCost_ZERO)
    | INVALID b \<Rightarrow> GasCost_ZERO)"

definition stack_ptr_range :: "OpcodeId \<Rightarrow> nat \<times> nat" where
  "stack_ptr_range op = (case op of
      Arith o' \<Rightarrow> (case o' of
          STOP \<Rightarrow> (0, 1024) | ADD \<Rightarrow> (0, 1022)
          | MUL \<Rightarrow> (0, 1022) | SUB \<Rightarrow> (0, 1022)
          | DIV \<Rightarrow> (0, 1022) | SDIV \<Rightarrow> (0, 1022)
          | MOD \<Rightarrow> (0, 1022) | SMOD \<Rightarrow> (0, 1022)
          | ADDMOD \<Rightarrow> (0, 1021) | MULMOD \<Rightarrow> (0, 1021)
          | EXP \<Rightarrow> (0, 1022) | SIGNEXTEND \<Rightarrow> (0, 1022)
          | LT \<Rightarrow> (0, 1022) | GT \<Rightarrow> (0, 1022)
          | SLT \<Rightarrow> (0, 1022) | SGT \<Rightarrow> (0, 1022)
          | EQ \<Rightarrow> (0, 1022) | ISZERO \<Rightarrow> (0, 1023)
          | AND \<Rightarrow> (0, 1022) | OR \<Rightarrow> (0, 1022)
          | XOR \<Rightarrow> (0, 1022) | NOT \<Rightarrow> (0, 1023)
          | BYTE \<Rightarrow> (0, 1022) | SHL \<Rightarrow> (0, 1022)
          | SHR \<Rightarrow> (0, 1022) | SAR \<Rightarrow> (0, 1022))
    | Flow o' \<Rightarrow> (case o' of
          CALLDATALOAD \<Rightarrow> (0, 1023) | CALLDATASIZE \<Rightarrow> (1, 1024)
          | CALLDATACOPY \<Rightarrow> (0, 1021) | CODESIZE \<Rightarrow> (1, 1024)
          | CODECOPY \<Rightarrow> (0, 1021) | POP \<Rightarrow> (0, 1023)
          | MLOAD \<Rightarrow> (0, 1023) | MSTORE \<Rightarrow> (0, 1022)
          | MSTORE8 \<Rightarrow> (0, 1022) | JUMP \<Rightarrow> (0, 1023)
          | JUMPI \<Rightarrow> (0, 1022) | PC \<Rightarrow> (1, 1024)
          | MSIZE \<Rightarrow> (1, 1024) | JUMPDEST \<Rightarrow> (0, 1024))
    | Push o' \<Rightarrow> (case o' of
          PUSH0 \<Rightarrow> (1, 1024) | PUSH1 \<Rightarrow> (1, 1024)
          | PUSH2 \<Rightarrow> (1, 1024) | PUSH3 \<Rightarrow> (1, 1024)
          | PUSH4 \<Rightarrow> (1, 1024) | PUSH5 \<Rightarrow> (1, 1024)
          | PUSH6 \<Rightarrow> (1, 1024) | PUSH7 \<Rightarrow> (1, 1024)
          | PUSH8 \<Rightarrow> (1, 1024) | PUSH9 \<Rightarrow> (1, 1024)
          | PUSH10 \<Rightarrow> (1, 1024) | PUSH11 \<Rightarrow> (1, 1024)
          | PUSH12 \<Rightarrow> (1, 1024) | PUSH13 \<Rightarrow> (1, 1024)
          | PUSH14 \<Rightarrow> (1, 1024) | PUSH15 \<Rightarrow> (1, 1024)
          | PUSH16 \<Rightarrow> (1, 1024) | PUSH17 \<Rightarrow> (1, 1024)
          | PUSH18 \<Rightarrow> (1, 1024) | PUSH19 \<Rightarrow> (1, 1024)
          | PUSH20 \<Rightarrow> (1, 1024) | PUSH21 \<Rightarrow> (1, 1024)
          | PUSH22 \<Rightarrow> (1, 1024) | PUSH23 \<Rightarrow> (1, 1024)
          | PUSH24 \<Rightarrow> (1, 1024) | PUSH25 \<Rightarrow> (1, 1024)
          | PUSH26 \<Rightarrow> (1, 1024) | PUSH27 \<Rightarrow> (1, 1024)
          | PUSH28 \<Rightarrow> (1, 1024) | PUSH29 \<Rightarrow> (1, 1024)
          | PUSH30 \<Rightarrow> (1, 1024) | PUSH31 \<Rightarrow> (1, 1024)
          | PUSH32 \<Rightarrow> (1, 1024))
    | Dup o' \<Rightarrow> (case o' of
          DUP1 \<Rightarrow> (1, 1023) | DUP2 \<Rightarrow> (1, 1022)
          | DUP3 \<Rightarrow> (1, 1021) | DUP4 \<Rightarrow> (1, 1020)
          | DUP5 \<Rightarrow> (1, 1019) | DUP6 \<Rightarrow> (1, 1018)
          | DUP7 \<Rightarrow> (1, 1017) | DUP8 \<Rightarrow> (1, 1016)
          | DUP9 \<Rightarrow> (1, 1015) | DUP10 \<Rightarrow> (1, 1014)
          | DUP11 \<Rightarrow> (1, 1013) | DUP12 \<Rightarrow> (1, 1012)
          | DUP13 \<Rightarrow> (1, 1011) | DUP14 \<Rightarrow> (1, 1010)
          | DUP15 \<Rightarrow> (1, 1009) | DUP16 \<Rightarrow> (1, 1008))
    | Swap o' \<Rightarrow> (case o' of
          SWAP1 \<Rightarrow> (0, 1022) | SWAP2 \<Rightarrow> (0, 1021)
          | SWAP3 \<Rightarrow> (0, 1020) | SWAP4 \<Rightarrow> (0, 1019)
          | SWAP5 \<Rightarrow> (0, 1018) | SWAP6 \<Rightarrow> (0, 1017)
          | SWAP7 \<Rightarrow> (0, 1016) | SWAP8 \<Rightarrow> (0, 1015)
          | SWAP9 \<Rightarrow> (0, 1014) | SWAP10 \<Rightarrow> (0, 1013)
          | SWAP11 \<Rightarrow> (0, 1012) | SWAP12 \<Rightarrow> (0, 1011)
          | SWAP13 \<Rightarrow> (0, 1010) | SWAP14 \<Rightarrow> (0, 1009)
          | SWAP15 \<Rightarrow> (0, 1008) | SWAP16 \<Rightarrow> (0, 1007))
    | Sys o' \<Rightarrow> (case o' of
          RETURN \<Rightarrow> (0, 1022) | REVERT \<Rightarrow> (0, 1022)
          | CREATE \<Rightarrow> (0, 1021) | CREATE2 \<Rightarrow> (0, 1020)
          | CALL \<Rightarrow> (0, 1017) | CALLCODE \<Rightarrow> (0, 1017)
          | DELEGATECALL \<Rightarrow> (0, 1018) | STATICCALL \<Rightarrow> (0, 1018)
          | SELFDESTRUCT \<Rightarrow> (0, 1023))
    | Ext o' \<Rightarrow> (case o' of
          SHA3 \<Rightarrow> (0, 1022) | ADDRESS \<Rightarrow> (1, 1024)
          | BALANCE \<Rightarrow> (0, 1023) | ORIGIN \<Rightarrow> (1, 1024)
          | CALLER \<Rightarrow> (1, 1024) | CALLVALUE \<Rightarrow> (1, 1024)
          | GASPRICE \<Rightarrow> (1, 1024) | EXTCODESIZE \<Rightarrow> (0, 1023)
          | EXTCODECOPY \<Rightarrow> (0, 1020) | EXTCODEHASH \<Rightarrow> (0, 1023)
          | RETURNDATASIZE \<Rightarrow> (1, 1024) | RETURNDATACOPY \<Rightarrow> (0, 1021)
          | BLOCKHASH \<Rightarrow> (0, 1023) | COINBASE \<Rightarrow> (1, 1024)
          | TIMESTAMP \<Rightarrow> (1, 1024) | NUMBER \<Rightarrow> (1, 1024)
          | DIFFICULTY \<Rightarrow> (1, 1024) | GASLIMIT \<Rightarrow> (1, 1024)
          | CHAINID \<Rightarrow> (1, 1024) | SELFBALANCE \<Rightarrow> (1, 1024)
          | BASEFEE \<Rightarrow> (1, 1024) | SLOAD \<Rightarrow> (0, 1023)
          | SSTORE \<Rightarrow> (0, 1022) | GAS \<Rightarrow> (1, 1024))
    | Log o' \<Rightarrow> (case o' of
          LOG0 \<Rightarrow> (0, 1022) | LOG1 \<Rightarrow> (0, 1021)
          | LOG2 \<Rightarrow> (0, 1020) | LOG3 \<Rightarrow> (0, 1019)
          | LOG4 \<Rightarrow> (0, 1018))
    | INVALID b \<Rightarrow> (0, 0))"

text \<open>The pointers below the minimum, then those above the maximum, up to and including 1024.\<close>

definition invalid_stack_ptrs :: "OpcodeId \<Rightarrow> nat list" where
  "invalid_stack_ptrs op =
     (let (min_stack_ptr, max_stack_ptr) = stack_ptr_range op
      in [0..<min_stack_ptr] @ [max_stack_ptr + 1..<1024 + 1])"

section \<open>Classification of opcodes\<close>

definition is_push :: "OpcodeId \<Rightarrow> bool" where
  "is_push op \<longleftrightarrow> as_u8 (Push PUSH0) \<le> as_u8 op \<and> as_u8 op \<le> as_u8 (Push PUSH32)"

definition is_push_with_data :: "OpcodeId \<Rightarrow> bool" where
  "is_push_with_data op \<longleftrightarrow> as_u8 (Push PUSH1) \<le> as_u8 op \<and> as_u8 op \<le> as_u8 (Push PUSH32)"

definition is_dup :: "OpcodeId \<Rightarrow> bool" where
  "is_dup op \<longleftrightarrow> as_u8 (Dup DUP1) \<le> as_u8 op \<and> as_u8 op \<le> as_u8 (Dup DUP16)"

definition is_swap :: "OpcodeId \<Rightarrow> bool" where
  "is_swap op \<longleftrightarrow> as_u8 (Swap SWAP1) \<le> as_u8 op \<and> as_u8 op \<le> as_u8 (Swap SWAP16)"

definition is_log :: "OpcodeId \<Rightarrow> bool" where
  "is_log op \<longleftrightarrow> as_u8 (Log LOG0) \<le> as_u8 op \<and> as_u8 op \<le> as_u8 (Log LOG4)"

definition is_call :: "OpcodeId \<Rightarrow> bool" where
  "is_call op \<longleftrightarrow> op \<in> {Sys CREATE, Sys CALL, Sys CALLCODE, Sys DELEGATECALL, Sys STATICCALL}"

definition is_create_op :: "OpcodeId \<Rightarrow> bool" where
  "is_create_op op \<longleftrightarrow> op \<in> {Sys CREATE, Sys CREATE2}"

definition is_call_or_create :: "OpcodeId \<Rightarrow> bool" where
  "is_call_or_create op \<longleftrightarrow> is_call op \<or> is_create_op op"

definition has_memory_access :: "OpcodeId \<Rightarrow> bool" where
  "has_memory_access op \<longleftrightarrow>
     op \<in> {Flow MLOAD, Flow MSTORE, Flow MSTORE8, Flow CALLDATACOPY, Ext RETURNDATACOPY,
           Flow CODECOPY, Ext EXTCODECOPY}"

section \<open>Reading an opcode\<close>

definition from_u8_table :: "(u8 \<times> OpcodeId) list" where
  "from_u8_table = [
      (0x00, Arith STOP), (0x01, Arith ADD), (0x02, Arith MUL), (0x03, Arith SUB),
      (0x04, Arith DIV), (0x05, Arith SDIV), (0x06, Arith MOD), (0x07, Arith SMOD),
      (0x08, Arith ADDMOD), (0x09, Arith MULMOD), (0x0a, Arith EXP), (0x0b, Arith SIGNEXTEND),
      (0x10, Arith LT), (0x11, Arith GT), (0x12, Arith SLT), (0x13, Arith SGT),
      (0x14, Arith EQ), (0x15, Arith ISZERO), (0x16, Arith AND), (0x17, Arith OR),
      (0x18, Arith XOR), (0x19, Arith NOT), (0x1a, Arith BYTE), (0x35, Flow CALLDATALOAD),
      (0x36, Flow CALLDATASIZE), (0x37, Flow CALLDATACOPY), (0x38, Flow CODESIZE),
      (0x39, Flow CODECOPY), (0x1b, Arith SHL), (0x1c, Arith SHR), (0x1d, Arith SAR),
      (0x50, Flow POP), (0x51, Flow MLOAD), (0x52, Flow MSTORE), (0x53, Flow MSTORE8),
      (0x56, Flow JUMP), (0x57, Flow JUMPI), (0x58, Flow PC), (0x59, Flow MSIZE),
      (0x5b, Flow JUMPDEST), (0x5f, Push PUSH0), (0x60, Push PUSH1), (0x61, Push PUSH2),
      (0x62, Push PUSH3), (0x63, Push PUSH4), (0x64, Push PUSH5), (0x65, Push PUSH6),
      (0x66, Push PUSH7), (0x67, Push PUSH8), (0x68, Push PUSH9), (0x69, Push PUSH10),
      (0x6a, Push PUSH11), (0x6b, Push PUSH12), (0x6c, Push PUSH13), (0x6d, Push PUSH14),
      (0x6e, Push PUSH15), (0x6f, Push PUSH16), (0x70, Push PUSH17), (0x71, Push PUSH18),
      (0x72, Push PUSH19), (0x73, Push PUSH20), (0x74, Push PUSH21), (0x75, Push PUSH22),
      (0x76, Push PUSH23), (0x77, Push PUSH24), (0x78, Push PUSH25), (0x79, Push PUSH26),
      (0x7a, Push PUSH27), (0x7b, Push PUSH28), (0x7c, Push PUSH29), (0x7d, Push PUSH30),
      (0x7e, Push PUSH31), (0x7f, Push PUSH32), (0x80, Dup DUP1), (0x81, Dup DUP2),
      (0x82, Dup DUP3), (0x83, Dup DUP4), (0x84, Dup DUP5), (0x85, Dup DUP6), (0x86, Dup DUP7),
      (0x87, Dup DUP8), (0x88, Dup DUP9), (0x89, Dup DUP10), (0x8a, Dup DUP11),
      (0x8b, Dup DUP12), (0x8c, Dup DUP13), (0x8d, Dup DUP14), (0x8e, Dup DUP15),
      (0x8f, Dup DUP16), (0x90, Swap SWAP1), (0x91, Swap SWAP2), (0x92, Swap SWAP3),
      (0x93, Swap SWAP4), (0x94, Swap SWAP5), (0x95, Swap SWAP6), (0x96, Swap SWAP7),
      (0x97, Swap SWAP8), (0x98, Swap SWAP9), (0x99, Swap SWAP10), (0x9a, Swap SWAP11),
      (0x9b, Swap SWAP12), (0x9c, Swap SWAP13), (0x9d, Swap SWAP14), (0x9e, Swap SWAP15),
      (0x9f, Swap SWAP16), (0xf3, Sys RETURN), (0xfd, Sys REVERT), (0xfe, INVALID 0xfe),
      (0x20, Ext SHA3), (0x30, Ext ADDRESS), (0x31, Ext BALANCE), (0x32, Ext ORIGIN),
      (0x33, Ext CALLER), (0x34, Ext CALLVALUE), (0x3a, Ext GASPRICE), (0x3b, Ext EXTCODESIZE),
      (0x3c, Ext EXTCODECOPY), (0x3f, Ext EXTCODEHASH), (0x3d, Ext RETURNDATASIZE),
      (0x3e, Ext RETURNDATACOPY), (0x40, Ext BLOCKHASH), (0x41, Ext COINBASE),
      (0x42, Ext TIMESTAMP), (0x43, Ext NUMBER), (0x44, Ext DIFFICULTY), (0x45, Ext GASLIMIT),
      (0x46, Ext CHAINID), (0x47, Ext SELFBALANCE), (0x48, Ext BASEFEE), (0x54, Ext SLOAD),
      (0x55, Ext SSTORE), (0x5a, Ext GAS), (0xa0, Log LOG0), (0xa1, Log LOG1), (0xa2, Log LOG2),
      (0xa3, Log LOG3), (0xa4, Log LOG4), (0xf0, Sys CREATE), (0xf5, Sys CREATE2),
      (0xf1, Sys CALL), (0xf2, Sys CALLCODE), (0xf4, Sys DELEGATECALL), (0xfa, Sys STATICCALL),
      (0xff, Sys SELFDESTRUCT)]"

definition from_u8 :: "u8 \<Rightarrow> OpcodeId" where
  "from_u8 value = (case map_of from_u8_table value of Some op \<Rightarrow> op | None \<Rightarrow> INVALID value)"

definition push_n :: "u8 \<Rightarrow> (OpcodeId, eth_error) result" where
  "push_n n =
     (let s = (if unat (as_u8 (Push PUSH0)) + unat n < 256 then as_u8 (Push PUSH0) + n else 0);
          op = from_u8 s
      in if is_push op then Inr op else Inl (Err InvalidOpConversion))"

definition postfix :: "OpcodeId \<Rightarrow> u8 option" where
  "postfix op =
     (if is_push op then Some (as_u8 op - as_u8 (Push PUSH0))
      else if is_dup op then Some (as_u8 op - as_u8 (Dup DUP1) + 1)
      else if is_swap op then Some (as_u8 op - as_u8 (Swap SWAP1) + 1)
      else if is_log op then Some (as_u8 op - as_u8 (Log LOG0))
      else None)"

definition data_len :: "OpcodeId \<Rightarrow> usize" where
  "data_len op = (if is_push_with_data op then unat (as_u8 op - as_u8 (Push PUSH0)) else 0)"

definition is_INVALID :: "OpcodeId \<Rightarrow> bool" where
  "is_INVALID op = (case op of INVALID b \<Rightarrow> True | _ \<Rightarrow> False)"

definition valid_opcodes :: "OpcodeId list" where
  "valid_opcodes =
     foldl (\<lambda>acc val. if \<not> is_INVALID (from_u8 (of_nat val)) then acc @ [from_u8 (of_nat val)] else acc)
       [] [0..<256]"

definition invalid_opcodes :: "OpcodeId list" where
  "invalid_opcodes =
     foldl (\<lambda>acc val. if is_INVALID (from_u8 (of_nat val)) then acc @ [INVALID (of_nat val)] else acc)
       [] [0..<256]"

definition from_str_table :: "(string \<times> OpcodeId) list" where
  "from_str_table = [
      (''STOP'', Arith STOP), (''ADD'', Arith ADD), (''MUL'', Arith MUL), (''SUB'', Arith SUB),
      (''DIV'', Arith DIV), (''SDIV'', Arith SDIV), (''MOD'', Arith MOD),
      (''SMOD'', Arith SMOD), (''ADDMOD'', Arith ADDMOD), (''MULMOD'', Arith MULMOD),
      (''EXP'', Arith EXP), (''SIGNEXTEND'', Arith SIGNEXTEND), (''LT'', Arith LT),
      (''GT'', Arith GT), (''SLT'', Arith SLT), (''SGT'', Arith SGT), (''EQ'', Arith EQ),
      (''ISZERO'', Arith ISZERO), (''AND'', Arith AND), (''OR'', Arith OR),
      (''XOR'', Arith XOR), (''NOT'', Arith NOT), (''BYTE'', Arith BYTE),
      (''CALLDATALOAD'', Flow CALLDATALOAD), (''CALLDATASIZE'', Flow CALLDATASIZE),
      (''CALLDATACOPY'', Flow CALLDATACOPY), (''CODESIZE'', Flow CODESIZE),
      (''CODECOPY'', Flow CODECOPY), (''SHL'', Arith SHL), (''SHR'', Arith SHR),
      (''SAR'', Arith SAR), (''POP'', Flow POP), (''MLOAD'', Flow MLOAD),
      (''MSTORE'', Flow MSTORE), (''MSTORE8'', Flow MSTORE8), (''JUMP'', Flow JUMP),
      (''JUMPI'', Flow JUMPI), (''PC'', Flow PC), (''MSIZE'', Flow MSIZE),
      (''JUMPDEST'', Flow JUMPDEST), (''PUSH0'', Push PUSH0), (''PUSH1'', Push PUSH1),
      (''PUSH2'', Push PUSH2), (''PUSH3'', Push PUSH3), (''PUSH4'', Push PUSH4),
      (''PUSH5'', Push PUSH5), (''PUSH6'', Push PUSH6), (''PUSH7'', Push PUSH7),
      (''PUSH8'', Push PUSH8), (''PUSH9'', Push PUSH9), (''PUSH10'', Push PUSH10),
      (''PUSH11'', Push PUSH11), (''PUSH12'', Push PUSH12), (''PUSH13'', Push PUSH13),
      (''PUSH14'', Push PUSH14), (''PUSH15'', Push PUSH15), (''PUSH16'', Push PUSH16),
      (''PUSH17'', Push PUSH17), (''PUSH18'', Push PUSH18), (''PUSH19'', Push PUSH19),
      (''PUSH20'', Push PUSH20), (''PUSH21'', Push PUSH21), (''PUSH22'', Push PUSH22),
      (''PUSH23'', Push PUSH23), (''PUSH24'', Push PUSH24), (''PUSH25'', Push PUSH25),
      (''PUSH26'', Push PUSH26), (''PUSH27'', Push PUSH27), (''PUSH28'', Push PUSH28),
      (''PUSH29'', Push PUSH29), (''PUSH30'', Push PUSH30), (''PUSH31'', Push PUSH31),
      (''PUSH32'', Push PUSH32), (''DUP1'', Dup DUP1), (''DUP2'', Dup DUP2),
      (''DUP3'', Dup DUP3), (''DUP4'', Dup DUP4), (''DUP5'', Dup DUP5), (''DUP6'', Dup DUP6),
      (''DUP7'', Dup DUP7), (''DUP8'', Dup DUP8), (''DUP9'', Dup DUP9), (''DUP10'', Dup DUP10),
      (''DUP11'', Dup DUP11), (''DUP12'', Dup DUP12), (''DUP13'', Dup DUP13),
      (''DUP14'', Dup DUP14), (''DUP15'', Dup DUP15), (''DUP16'', Dup DUP16),
      (''SWAP1'', Swap SWAP1), (''SWAP2'', Swap SWAP2), (''SWAP3'', Swap SWAP3),
      (''SWAP4'', Swap SWAP4), (''SWAP5'', Swap SWAP5), (''SWAP6'', Swap SWAP6),
      (''SWAP7'', Swap SWAP7), (''SWAP8'', Swap SWAP8), (''SWAP9'', Swap SWAP9),
      (''SWAP10'', Swap SWAP10), (''SWAP11'', Swap SWAP11), (''SWAP12'', Swap SWAP12),
      (''SWAP13'', Swap SWAP13), (''SWAP14'', Swap SWAP14), (''SWAP15'', Swap SWAP15),
      (''SWAP16'', Swap SWAP16), (''RETURN'', Sys RETURN), (''REVERT'', Sys REVERT),
      (''INVALID'', INVALID 0xfe), (''SHA3'', Ext SHA3), (''KECCAK256'', Ext SHA3),
      (''ADDRESS'', Ext ADDRESS), (''BALANCE'', Ext BALANCE),
      (''SELFBALANCE'', Ext SELFBALANCE), (''ORIGIN'', Ext ORIGIN), (''CALLER'', Ext CALLER),
      (''CALLVALUE'', Ext CALLVALUE), (''GASPRICE'', Ext GASPRICE),
      (''EXTCODESIZE'', Ext EXTCODESIZE), (''EXTCODECOPY'', Ext EXTCODECOPY),
      (''EXTCODEHASH'', Ext EXTCODEHASH), (''RETURNDATASIZE'', Ext RETURNDATASIZE),
      (''RETURNDATACOPY'', Ext RETURNDATACOPY), (''BLOCKHASH'', Ext BLOCKHASH),
      (''COINBASE'', Ext COINBASE), (''TIMESTAMP'', Ext TIMESTAMP), (''NUMBER'', Ext NUMBER),
      (''DIFFICULTY'', Ext DIFFICULTY), (''GASLIMIT'', Ext GASLIMIT), (''SLOAD'', Ext SLOAD),
      (''SSTORE'', Ext SSTORE), (''GAS'', Ext GAS), (''LOG0'', Log LOG0), (''LOG1'', Log LOG1),
      (''LOG2'', Log LOG2), (''LOG3'', Log LOG3), (''LOG4'', Log LOG4),
      (''CREATE'', Sys CREATE), (''CREATE2'', Sys CREATE2), (''CALL'', Sys CALL),
      (''CALLCODE'', Sys CALLCODE), (''DELEGATECALL'', Sys DELEGATECALL),
      (''STATICCALL'', Sys STATICCALL), (''SELFDESTRUCT'', Sys SELFDESTRUCT),
      (''CHAINID'', Ext CHAINID), (''BASEFEE'', Ext BASEFEE)]"

text \<open>
  The fallback of \<open>from_str\<close>: the leftmost match of the regular expression
  \<^verbatim>\<open>opcode 0x([[:xdigit:]]{1,2}) not defined\<close>, two digits preferred to one.
\<close>

definition hex_digit :: "char \<Rightarrow> nat option" where
  "hex_digit c =
     (let n = (of_char c :: nat)
      in if 48 \<le> n \<and> n \<le> 57 then Some (n - 48)
         else if 65 \<le> n \<and> n \<le> 70 then Some (n - 55)
         else if 97 \<le> n \<and> n \<le> 102 then Some (n - 87)
         else None)"

definition strip_prefix :: "string \<Rightarrow> string \<Rightarrow> string option" where
  "strip_prefix p s = (if take (length p) s = p then Some (drop (length p) s) else None)"

definition match_hex :: "string \<Rightarrow> u8 option" where
  "match_hex s =
     (case s of
        c # d # rest \<Rightarrow>
          (case (hex_digit c, hex_digit d) of
             (Some x, Some y) \<Rightarrow>
               (if strip_prefix '' not defined'' rest \<noteq> None then Some (of_nat (16 * x + y)) else None)
           | (Some x, None) \<Rightarrow>
               (if strip_prefix '' not defined'' (d # rest) \<noteq> None then Some (of_nat x) else None)
           | _ \<Rightarrow> None)
      | _ \<Rightarrow> None)"

fun undefined_opcode :: "string \<Rightarrow> u8 option" where
  "undefined_opcode [] = None"
| "undefined_opcode (c # s) =
     (case Option.bind (strip_prefix ''opcode 0x'' (c # s)) match_hex of
        Some b \<Rightarrow> Some b
      | None \<Rightarrow> undefined_opcode s)"

definition from_str :: "string \<Rightarrow> (OpcodeId, eth_error) result" where
  "from_str s =
     (case map_of from_str_table s of
        Some op \<Rightarrow> Inr op
      | None \<Rightarrow>
          (case undefined_opcode s of
             Some b \<Rightarrow> Inr (INVALID b)
           | None \<Rightarrow> Inl (Err (OpcodeParsing s))))"

text \<open>
  \<open>Display\<close> prints an opcode with its derived \<open>Debug\<close> text, the name of the variant. The derived text
  of \<open>INVALID(b)\<close> also shows the byte in decimal; only the names without argument are modelled.
\<close>

definition opcode_name :: "OpcodeId \<Rightarrow> string option" where
  "opcode_name op = (case op of
      Arith o' \<Rightarrow> (case o' of
          STOP \<Rightarrow> Some ''STOP'' | ADD \<Rightarrow> Some ''ADD''
          | MUL \<Rightarrow> Some ''MUL'' | SUB \<Rightarrow> Some ''SUB''
          | DIV \<Rightarrow> Some ''DIV'' | SDIV \<Rightarrow> Some ''SDIV''
          | MOD \<Rightarrow> Some ''MOD'' | SMOD \<Rightarrow> Some ''SMOD''
          | ADDMOD \<Rightarrow> Some ''ADDMOD'' | MULMOD \<Rightarrow> Some ''MULMOD''
          | EXP \<Rightarrow> Some ''EXP'' | SIGNEXTEND \<Rightarrow> Some ''SIGNEXTEND''
          | LT \<Rightarrow> Some ''LT'' | GT \<Rightarrow> Some ''GT''
          | SLT \<Rightarrow> Some ''SLT'' | SGT \<Rightarrow> Some ''SGT''
          | EQ \<Rightarrow> Some ''EQ'' | ISZERO \<Rightarrow> Some ''ISZERO''
          | AND \<Rightarrow> Some ''AND'' | OR \<Rightarrow> Some ''OR''
          | XOR \<Rightarrow> Some ''XOR'' | NOT \<Rightarrow> Some ''NOT''
          | BYTE \<Rightarrow> Some ''BYTE'' | SHL \<Rightarrow> Some ''SHL''
          | SHR \<Rightarrow> Some ''SHR'' | SAR \<Rightarrow> Some ''SAR'')
    | Flow o' \<Rightarrow> (case o' of
          CALLDATALOAD \<Rightarrow> Some ''CALLDATALOAD''
          | CALLDATASIZE \<Rightarrow> Some ''CALLDATASIZE''
          | CALLDATACOPY \<Rightarrow> Some ''CALLDATACOPY''
          | CODESIZE \<Rightarrow> Some ''CODESIZE'' | CODECOPY \<Rightarrow> Some ''CODECOPY''
          | POP \<Rightarrow> Some ''POP'' | MLOAD \<Rightarrow> Some ''MLOAD''
          | MSTORE \<Rightarrow> Some ''MSTORE'' | MSTORE8 \<Rightarrow> Some ''MSTORE8''
          | JUMP \<Rightarrow> Some ''JUMP'' | JUMPI \<Rightarrow> Some ''JUMPI''
          | PC \<Rightarrow> Some ''PC'' | MSIZE \<Rightarrow> Some ''MSIZE''
          | JUMPDEST \<Rightarrow> Some ''JUMPDEST'')
    | Push o' \<Rightarrow> (case o' of
          PUSH0 \<Rightarrow> Some ''PUSH0'' | PUSH1 \<Rightarrow> Some ''PUSH1''
          | PUSH2 \<Rightarrow> Some ''PUSH2'' | PUSH3 \<Rightarrow> Some ''PUSH3''
          | PUSH4 \<Rightarrow> Some ''PUSH4'' | PUSH5 \<Rightarrow> Some ''PUSH5''
          | PUSH6 \<Rightarrow> Some ''PUSH6'' | PUSH7 \<Rightarrow> Some ''PUSH7''
          | PUSH8 \<Rightarrow> Some ''PUSH8'' | PUSH9 \<Rightarrow> Some ''PUSH9''
          | PUSH10 \<Rightarrow> Some ''PUSH10'' | PUSH11 \<Rightarrow> Some ''PUSH11''
          | PUSH12 \<Rightarrow> Some ''PUSH12'' | PUSH13 \<Rightarrow> Some ''PUSH13''
          | PUSH14 \<Rightarrow> Some ''PUSH14'' | PUSH15 \<Rightarrow> Some ''PUSH15''
          | PUSH16 \<Rightarrow> Some ''PUSH16'' | PUSH17 \<Rightarrow> Some ''PUSH17''
          | PUSH18 \<Rightarrow> Some ''PUSH18'' | PUSH19 \<Rightarrow> Some ''PUSH19''
          | PUSH20 \<Rightarrow> Some ''PUSH20'' | PUSH21 \<Rightarrow> Some ''PUSH21''
          | PUSH22 \<Rightarrow> Some ''PUSH22'' | PUSH23 \<Rightarrow> Some ''PUSH23''
          | PUSH24 \<Rightarrow> Some ''PUSH24'' | PUSH25 \<Rightarrow> Some ''PUSH25''
          | PUSH26 \<Rightarrow> Some ''PUSH26'' | PUSH27 \<Rightarrow> Some ''PUSH27''
          | PUSH28 \<Rightarrow> Some ''PUSH28'' | PUSH29 \<Rightarrow> Some ''PUSH29''
          | PUSH30 \<Rightarrow> Some ''PUSH30'' | PUSH31 \<Rightarrow> Some ''PUSH31''
          | PUSH32 \<Rightarrow> Some ''PUSH32'')
    | Dup o' \<Rightarrow> (case o' of
          DUP1 \<Rightarrow> Some ''DUP1'' | DUP2 \<Rightarrow> Some ''DUP2''
          | DUP3 \<Rightarrow> Some ''DUP3'' | DUP4 \<Rightarrow> Some ''DUP4''
          | DUP5 \<Rightarrow> Some ''DUP5'' | DUP6 \<Rightarrow> Some ''DUP6''
          | DUP7 \<Rightarrow> Some ''DUP7'' | DUP8 \<Rightarrow> Some ''DUP8''
          | DUP9 \<Rightarrow> Some ''DUP9'' | DUP10 \<Rightarrow> Some ''DUP10''
          | DUP11 \<Rightarrow> Some ''DUP11'' | DUP12 \<Rightarrow> Some ''DUP12''
          | DUP13 \<Rightarrow> Some ''DUP13'' | DUP14 \<Rightarrow> Some ''DUP14''
          | DUP15 \<Rightarrow> Some ''DUP15'' | DUP16 \<Rightarrow> Some ''DUP16'')
    | Swap o' \<Rightarrow> (case o' of
          SWAP1 \<Rightarrow> Some ''SWAP1'' | SWAP2 \<Rightarrow> Some ''SWAP2''
          | SWAP3 \<Rightarrow> Some ''SWAP3'' | SWAP4 \<Rightarrow> Some ''SWAP4''
          | SWAP5 \<Rightarrow> Some ''SWAP5'' | SWAP6 \<Rightarrow> Some ''SWAP6''
          | SWAP7 \<Rightarrow> Some ''SWAP7'' | SWAP8 \<Rightarrow> Some ''SWAP8''
          | SWAP9 \<Rightarrow> Some ''SWAP9'' | SWAP10 \<Rightarrow> Some ''SWAP10''
          | SWAP11 \<Rightarrow> Some ''SWAP11'' | SWAP12 \<Rightarrow> Some ''SWAP12''
          | SWAP13 \<Rightarrow> Some ''SWAP13'' | SWAP14 \<Rightarrow> Some ''SWAP14''
          | SWAP15 \<Rightarrow> Some ''SWAP15'' | SWAP16 \<Rightarrow> Some ''SWAP16'')
    | Sys o' \<Rightarrow> (case o' of
          RETURN \<Rightarrow> Some ''RETURN'' | REVERT \<Rightarrow> Some ''REVERT''
          | CREATE \<Rightarrow> Some ''CREATE'' | CREATE2 \<Rightarrow> Some ''CREATE2''
          | CALL \<Rightarrow> Some ''CALL'' | CALLCODE \<Rightarrow> Some ''CALLCODE''
          | DELEGATECALL \<Rightarrow> Some ''DELEGATECALL''
          | STATICCALL \<Rightarrow> Some ''STATICCALL''
          | SELFDESTRUCT \<Rightarrow> Some ''SELFDESTRUCT'')
    | Ext o' \<Rightarrow> (case o' of
          SHA3 \<Rightarrow> Some ''SHA3'' | ADDRESS \<Rightarrow> Some ''ADDRESS''
          | BALANCE \<Rightarrow> Some ''BALANCE'' | ORIGIN \<Rightarrow> Some ''ORIGIN''
          | CALLER \<Rightarrow> Some ''CALLER'' | CALLVALUE \<Rightarrow> Some ''CALLVALUE''
          | GASPRICE \<Rightarrow> Some ''GASPRICE''
          | EXTCODESIZE \<Rightarrow> Some ''EXTCODESIZE''
          | EXTCODECOPY \<Rightarrow> Some ''EXTCODECOPY''
          | EXTCODEHASH \<Rightarrow> Some ''EXTCODEHASH''
          | RETURNDATASIZE \<Rightarrow> Some ''RETURNDATASIZE''
          | RETURNDATACOPY \<Rightarrow> Some ''RETURNDATACOPY''
          | BLOCKHASH \<Rightarrow> Some ''BLOCKHASH''
          | COINBASE \<Rightarrow> Some ''COINBASE''
          | TIMESTAMP \<Rightarrow> Some ''TIMESTAMP'' | NUMBER \<Rightarrow> Some ''NUMBER''
          | DIFFICULTY \<Rightarrow> Some ''DIFFICULTY''
          | GASLIMIT \<Rightarrow> Some ''GASLIMIT'' | CHAINID \<Rightarrow> Some ''CHAINID''
          | SELFBALANCE \<Rightarrow> Some ''SELFBALANCE''
          | BASEFEE \<Rightarrow> Some ''BASEFEE'' | SLOAD \<Rightarrow> Some ''SLOAD''
          | SSTORE \<Rightarrow> Some ''SSTORE'' | GAS \<Rightarrow> Some ''GAS'')
    | Log o' \<Rightarrow> (case o' of
          LOG0 \<Rightarrow> Some ''LOG0'' | LOG1 \<Rightarrow> Some ''LOG1''
          | LOG2 \<Rightarrow> Some ''LOG2'' | LOG3 \<Rightarrow> Some ''LOG3''
          | LOG4 \<Rightarrow> Some ''LOG4'')
    | INVALID b \<Rightarrow> None)"

section \<open>Properties of the tables\<close>

lemma from_u8_table_sound: "list_all (\<lambda>(b, op). as_u8 op = b) from_u8_table"
  by (simp add: from_u8_table_def as_u8_def)

lemma from_u8_table_distinct: "distinct (map fst from_u8_table)"
proof -
  have "distinct (map (\<lambda>p. unat (fst p)) from_u8_table)"
    by (simp add: from_u8_table_def)
  then have "distinct (map unat (map fst from_u8_table))"
    by (simp add: comp_def)
  then show ?thesis by (simp only: distinct_map)
qed

lemma opcodes_listed:
  "Arith a \<in> set (map snd from_u8_table)" "Flow f \<in> set (map snd from_u8_table)"
  "Push p \<in> set (map snd from_u8_table)" "Dup d \<in> set (map snd from_u8_table)"
  "Swap w \<in> set (map snd from_u8_table)" "Sys y \<in> set (map snd from_u8_table)"
  "Ext e \<in> set (map snd from_u8_table)" "Log l \<in> set (map snd from_u8_table)"
  by ((cases a, simp_all add: from_u8_table_def)[], (cases f, simp_all add: from_u8_table_def)[],
      (cases p, simp_all add: from_u8_table_def)[], (cases d, simp_all add: from_u8_table_def)[],
      (cases w, simp_all add: from_u8_table_def)[], (cases y, simp_all add: from_u8_table_def)[],
      (cases e, simp_all add: from_u8_table_def)[], (cases l, simp_all add: from_u8_table_def)[])

lemma from_u8_table_complete:
  assumes "\<not> is_INVALID op"
  shows "(as_u8 op, op) \<in> set from_u8_table"
proof -
  have "op \<in> set (map snd from_u8_table)"
    using assms opcodes_listed by (cases op) (simp_all add: is_INVALID_def)
  then obtain b where "(b, op) \<in> set from_u8_table" by auto
  moreover from this have "as_u8 op = b"
    using from_u8_table_sound by (auto simp: list_all_iff)
  ultimately show ?thesis by simp
qed

lemma as_u8_from_u8 [simp]: "as_u8 (from_u8 b) = b"
proof (cases "map_of from_u8_table b")
  case None
  then show ?thesis by (simp add: from_u8_def as_u8_def)
next
  case (Some op)
  then have "(b, op) \<in> set from_u8_table" by (rule map_of_SomeD)
  with from_u8_table_sound have "as_u8 op = b" by (auto simp: list_all_iff)
  with Some show ?thesis by (simp add: from_u8_def)
qed

lemma from_u8_as_u8 [simp]: "\<not> is_INVALID op \<Longrightarrow> from_u8 (as_u8 op) = op"
  using from_u8_table_complete [of op] from_u8_table_distinct
  by (simp add: from_u8_def)

lemma as_u8_inject: "\<not> is_INVALID op \<Longrightarrow> \<not> is_INVALID op' \<Longrightarrow> as_u8 op = as_u8 op' \<Longrightarrow> op = op'"
  by (metis from_u8_as_u8)

lemma as_u8_push_bounds [simp]: "as_u8 (Push PUSH0) = 0x5f" "as_u8 (Push PUSH1) = 0x60" "as_u8 (Push PUSH32) = 0x7f"
  by (simp_all add: as_u8_def)

lemma is_push_from_u8: "is_push (from_u8 b) \<longleftrightarrow> 0x5f \<le> b \<and> b \<le> 0x7f"
  by (simp add: is_push_def)

lemma is_push_with_data_from_u8: "is_push_with_data (from_u8 b) \<longleftrightarrow> 0x60 \<le> b \<and> b \<le> 0x7f"
  by (simp add: is_push_with_data_def)

lemma data_len_bound: "data_len op \<le> 32"
proof (cases "is_push_with_data op")
  case True
  then have "as_u8 op - 0x5f \<le> 32"
    by (simp add: is_push_with_data_def) unat_arith
  then have "unat (as_u8 op - 0x5f) \<le> unat (32 :: u8)"
    by (simp only: word_le_nat_alt)
  with True show ?thesis by (simp add: data_len_def)
qed (simp add: data_len_def)

lemma opcode_name_INVALID: "opcode_name op = None \<longleftrightarrow> is_INVALID op"
  by (cases op) (auto simp: opcode_name_def is_INVALID_def
      split: ArithOp.split FlowOp.split PushOp.split DupOp.split SwapOp.split SysOp.split
        ExtOp.split LogOp.split)

text \<open>Names are told apart by the number their characters spell.\<close>

definition name_key :: "string \<Rightarrow> nat" where
  "name_key s = foldl (\<lambda>a c. a * 256 + of_char c) 0 s"

lemma from_str_table_distinct: "distinct (map fst from_str_table)"
proof -
  have "distinct (map (\<lambda>p. name_key (fst p)) from_str_table)"
    by (simp add: from_str_table_def name_key_def)
  then have "distinct (map name_key (map fst from_str_table))"
    by (simp add: comp_def)
  then show ?thesis by (simp only: distinct_map)
qed

lemma from_str_table_sound:
  "list_all (\<lambda>(s, op). is_INVALID op \<or> s = ''KECCAK256'' \<or> opcode_name op = Some s) from_str_table"
  by (simp add: from_str_table_def opcode_name_def is_INVALID_def)

lemma opcodes_named:
  "Arith a \<in> set (map snd from_str_table)" "Flow f \<in> set (map snd from_str_table)"
  "Push p \<in> set (map snd from_str_table)" "Dup d \<in> set (map snd from_str_table)"
  "Swap w \<in> set (map snd from_str_table)" "Sys y \<in> set (map snd from_str_table)"
  "Ext e \<in> set (map snd from_str_table)" "Log l \<in> set (map snd from_str_table)"
  by ((cases a, simp_all add: from_str_table_def)[], (cases f, simp_all add: from_str_table_def)[],
      (cases p, simp_all add: from_str_table_def)[], (cases d, simp_all add: from_str_table_def)[],
      (cases w, simp_all add: from_str_table_def)[], (cases y, simp_all add: from_str_table_def)[],
      (cases e, simp_all add: from_str_table_def)[], (cases l, simp_all add: from_str_table_def)[])

lemma sha3_names: "(''KECCAK256'', Ext SHA3) \<in> set from_str_table" "(''SHA3'', Ext SHA3) \<in> set from_str_table"
  by (simp_all add: from_str_table_def)

lemma from_str_table_complete:
  assumes "opcode_name op = Some s"
  shows "map_of from_str_table s = Some op"
proof -
  have ninv: "\<not> is_INVALID op"
    using assms opcode_name_INVALID [of op] by simp
  then have "op \<in> set (map snd from_str_table)"
    using opcodes_named by (cases op) (simp_all add: is_INVALID_def)
  then obtain s' where s': "(s', op) \<in> set from_str_table" by auto
  have "(s, op) \<in> set from_str_table"
  proof (cases "s' = ''KECCAK256''")
    case True
    then have "op = Ext SHA3"
      using s' sha3_names(1) from_str_table_distinct by (metis map_of_is_SomeI option.inject)
    moreover from this have "s = ''SHA3''"
      using assms by (simp add: opcode_name_def)
    ultimately show ?thesis using sha3_names(2) by simp
  next
    case False
    then have "opcode_name op = Some s'"
      using s' ninv from_str_table_sound by (auto simp: list_all_iff)
    with s' assms show ?thesis by simp
  qed
  then show ?thesis using from_str_table_distinct by simp
qed

section \<open>Stack pointers\<close>

lemma stack_ptr_range_bounds:
  "\<not> is_INVALID op \<Longrightarrow> fst (stack_ptr_range op) \<le> 1 \<and> 1007 \<le> snd (stack_ptr_range op)"
  "snd (stack_ptr_range op) \<le> 1024"
  by (cases op; simp add: stack_ptr_range_def is_INVALID_def
      split: ArithOp.split FlowOp.split PushOp.split DupOp.split SwapOp.split SysOp.split
        ExtOp.split LogOp.split)+

lemma set_invalid_stack_ptrs:
  "sp \<in> set (invalid_stack_ptrs op) \<longleftrightarrow>
     sp < fst (stack_ptr_range op) \<or> (snd (stack_ptr_range op) < sp \<and> sp \<le> 1024)"
  by (cases "stack_ptr_range op") (auto simp: invalid_stack_ptrs_def)

section \<open>The main facts about opcodes\<close>

text \<open>
  C38: reading the byte of an opcode gives the opcode back and writing the opcode of a byte gives the
  byte back, so the two tables \<open>From<u8>\<close> and \<open>as_u8\<close> are inverse to each other on every valid opcode, and
  the parser \<open>from_str\<close> reads the printed name of every valid opcode.
\<close>

theorem opcode_roundtrip:
  "as_u8 (from_u8 b) = b \<and>
   (\<not> is_INVALID op \<longrightarrow> from_u8 (as_u8 op) = op \<and> (\<exists>s. opcode_name op = Some s \<and> from_str s = Inr op))"
proof (intro conjI impI)
  assume ninv: "\<not> is_INVALID op"
  then show "from_u8 (as_u8 op) = op" by simp
  from ninv obtain s where "opcode_name op = Some s"
    using opcode_name_INVALID [of op] by auto
  then show "\<exists>s. opcode_name op = Some s \<and> from_str s = Inr op"
    by (auto simp: from_str_def dest: from_str_table_complete)
qed simp

theorem opcode_roundtrip_witness:
  "\<not> is_INVALID (Arith ADD) \<and> from_u8 (as_u8 (Arith ADD)) = Arith ADD \<and>
   from_str ''ADD'' = Inr (Arith ADD)"
proof -
  have h: "\<not> is_INVALID (Arith ADD)" by (simp add: is_INVALID_def)
  moreover have "opcode_name (Arith ADD) = Some ''ADD''" by (simp add: opcode_name_def)
  ultimately show ?thesis using opcode_roundtrip [of 0 "Arith ADD"] by auto
qed

lemma push_bytes:
  "map (\<lambda>p. as_u8 (Push p))
    [PUSH0, PUSH1, PUSH2, PUSH3, PUSH4, PUSH5, PUSH6, PUSH7, PUSH8, PUSH9, PUSH10, PUSH11,
     PUSH12, PUSH13, PUSH14, PUSH15, PUSH16, PUSH17, PUSH18, PUSH19, PUSH20, PUSH21, PUSH22,
     PUSH23, PUSH24, PUSH25, PUSH26, PUSH27, PUSH28, PUSH29, PUSH30, PUSH31, PUSH32] =
   map (\<lambda>k. 0x5f + of_nat k) [0..<33]"
  by (simp add: as_u8_def upt_rec)

lemma from_u8_push_valid:
  assumes "n \<le> 32"
  shows "\<not> is_INVALID (from_u8 (0x5f + n))"
proof -
  have "unat n < 33"
    using assms by (simp add: word_le_nat_alt)
  then have "0x5f + n \<in> set (map (\<lambda>k. 0x5f + of_nat k) [0..<33])"
    by (auto intro!: image_eqI [where x = "unat n"])
  then obtain p where "0x5f + n = as_u8 (Push p)"
    unfolding push_bytes [symmetric] by (auto simp del: as_u8_push_bounds)
  then show ?thesis by (simp add: is_INVALID_def)
qed

lemma push_byte:
  "n \<le> 32 \<Longrightarrow> unat (0x5f + n :: u8) = 95 + unat n"
  "95 + unat n < 256 \<Longrightarrow> unat (0x5f + n :: u8) = 95 + unat n"
  by (simp_all add: unat_word_ariths word_le_nat_alt)

lemma push_n_eq:
  "push_n n = (if n \<le> 32 then Inr (from_u8 (0x5f + n)) else Inl (Err InvalidOpConversion))"
  using push_byte [of n]
  by (auto simp: push_n_def is_push_from_u8 word_le_nat_alt)

text \<open>
  \<open>push_n\<close> succeeds exactly for \<open>n \<le> 32\<close>, and then returns the valid opcode whose postfix and immediate data
  length are \<open>n\<close>; every other argument is the error \<open>InvalidOpConversion\<close>.
\<close>

theorem push_n_spec:
  "if n \<le> 32
   then \<exists>op. push_n n = Inr op \<and> \<not> is_INVALID op \<and> postfix op = Some n \<and> data_len op = unat n
   else push_n n = Inl (Err InvalidOpConversion)"
proof (cases "n \<le> 32")
  case True
  then have u: "unat (0x5f + n :: u8) = 95 + unat n" by (rule push_byte)
  then have "is_push (from_u8 (0x5f + n))" and "is_push_with_data (from_u8 (0x5f + n)) \<longleftrightarrow> 0 < unat n"
    using True by (auto simp: is_push_from_u8 is_push_with_data_from_u8 word_le_nat_alt)
  then have "postfix (from_u8 (0x5f + n)) = Some n" and "data_len (from_u8 (0x5f + n)) = unat n"
    by (auto simp: postfix_def data_len_def)
  with True show ?thesis by (simp add: push_n_eq from_u8_push_valid)
qed (simp add: push_n_eq)

end
