(* ===== verification/Evm_Types.thy ===== *)
theory Evm_Types
  imports Opcode_Ids
begin

text \<open>
  The EVM stack, the EVM memory and the gas arithmetic of the eth-types crate:
  \<^verbatim>\<open>evm_types/stack.rs\<close>, \<^verbatim>\<open>evm_types/memory.rs\<close>, \<^verbatim>\<open>evm_types/storage.rs\<close>, \<^verbatim>\<open>evm_types/gas_utils.rs\<close> and the
  constants of \<^verbatim>\<open>evm_types.rs\<close>.

  A \<open>Stack\<close> is the vector of its words, the top of the stack last; a \<open>Memory\<close> is the vector of its
  bytes. Addresses are the \<open>usize\<close> they wrap. Sums of offsets and lengths that come from a
  transaction are checked against the width of \<open>usize\<close> (64 bits).
\<close>

section \<open>Constants\<close>

definition INVALID_INIT_CODE_FIRST_BYTE :: u8 where
  "INVALID_INIT_CODE_FIRST_BYTE = 0xef"

definition MAX_REFUND_QUOTIENT_OF_GAS_USED :: usize where
  "MAX_REFUND_QUOTIENT_OF_GAS_USED = 5"

definition INIT_CODE_WORD_GAS :: u64 where
  "INIT_CODE_WORD_GAS = 2"

definition GAS_STIPEND_CALL_WITH_VALUE :: u64 where
  "GAS_STIPEND_CALL_WITH_VALUE = 2300"

definition MAX_EXPANDED_MEMORY_ADDRESS :: u64 where
  "MAX_EXPANDED_MEMORY_ADDRESS = 0x1FFFFFFFE0"

section \<open>Stack\<close>

type_synonym Stack = "Word list"
type_synonym StackAddress = usize

definition stack_pointer :: "Stack \<Rightarrow> (StackAddress, 'e) result" where
  "stack_pointer s =
     (if length s \<le> 1024 then Inr (1024 - length s) else Inl (Panic ''attempt to subtract with overflow''))"

definition last_filled :: "Stack \<Rightarrow> (StackAddress, 'e) result" where
  "last_filled s =
     (if length s \<le> 1024 then Inr (1024 - length s) else Inl (Panic ''attempt to subtract with overflow''))"

definition nth_last_filled :: "Stack \<Rightarrow> usize \<Rightarrow> (StackAddress, 'e) result" where
  "nth_last_filled s n =
     (if length s \<le> 1024 then Inr (1024 - length s + n)
      else Inl (Panic ''attempt to subtract with overflow''))"

definition stack_last :: "Stack \<Rightarrow> (Word, eth_error) result" where
  "stack_last s = (if s = [] then Inl (Err InvalidStackPointer) else Inr (last s))"

definition nth_last :: "Stack \<Rightarrow> usize \<Rightarrow> (Word, eth_error) result" where
  "nth_last s n =
     (if length s < n + 1 then Inl (Err InvalidStackPointer)
      else ok_or (nth_opt s (length s - (n + 1))) (Err InvalidStackPointer))"

section \<open>Memory\<close>

type_synonym Memory = "u8 list"
type_synonym MemoryAddress = usize

definition usize_add :: "usize \<Rightarrow> usize \<Rightarrow> (usize, 'e) result" where
  "usize_add a b = (if a + b < 2 ^ 64 then Inr (a + b) else Inl (Panic ''attempt to add with overflow''))"

definition usize_sub :: "usize \<Rightarrow> usize \<Rightarrow> (usize, 'e) result" where
  "usize_sub a b = (if b \<le> a then Inr (a - b) else Inl (Panic ''attempt to subtract with overflow''))"

definition memory_address_to_le_bytes :: "MemoryAddress \<Rightarrow> u8 list" where
  "memory_address_to_le_bytes a = le_bytes 8 a @ replicate 24 0"

definition memory_address_to_be_bytes :: "MemoryAddress \<Rightarrow> u8 list" where
  "memory_address_to_be_bytes a = replicate 24 0 @ be_bytes 8 a"

definition memory_address_from_le_bytes :: "u8 list \<Rightarrow> (MemoryAddress, eth_error) result" where
  "memory_address_from_le_bytes bytes =
     (if 8 < length bytes then Inl (Err InvalidMemoryPointer)
      else if length bytes < 8 then Inl (Panic ''range end index 8 out of range for slice'')
      else Inr (nat_of_le bytes))"

definition memory_address_from_be_bytes :: "u8 list \<Rightarrow> (MemoryAddress, eth_error) result" where
  "memory_address_from_be_bytes bytes =
     (if 8 < length bytes then Inl (Err InvalidMemoryPointer)
      else if length bytes < 8 then Inl (Panic ''range end index 8 out of range for slice'')
      else Inr (nat_of_be bytes))"

definition memory_address_try_from :: "Word \<Rightarrow> (MemoryAddress, eth_error) result" where
  "memory_address_try_from word =
     (if 2 ^ 64 \<le> unat word then Inl (Err WordToMemAddr) else u256_as_usize word)"

definition memory_new :: Memory where
  "memory_new = []"

definition memory_from_words :: "Word list \<Rightarrow> Memory" where
  "memory_from_words vec = concat (map (\<lambda>word. be_bytes 32 (unat word)) vec)"

definition read_chunk :: "Memory \<Rightarrow> MemoryAddress \<Rightarrow> MemoryAddress \<Rightarrow> u8 list" where
  "read_chunk mem offset len =
     (let chunk = (if length mem < offset then [] else drop offset mem)
      in if length chunk < len then chunk @ replicate (len - length chunk) 0 else take len chunk)"

definition read_word :: "Memory \<Rightarrow> MemoryAddress \<Rightarrow> Word" where
  "read_word mem addr = of_nat (nat_of_be (read_chunk mem addr 32))"

definition word_size :: "Memory \<Rightarrow> usize" where
  "word_size mem = length mem div 32"

definition extend_at_least :: "usize \<Rightarrow> Memory \<Rightarrow> (Memory, 'e) result" where
  "extend_at_least minimal_length mem =
     bindE (usize_add minimal_length 31) (\<lambda>n.
       let memory_size = n div 32 * 32
       in Inr (if length mem < memory_size then mem @ replicate (memory_size - length mem) 0 else mem))"

text \<open>The destination slice: cleared, then overwritten by the part of the data that exists.\<close>

definition copy_slice :: "usize \<Rightarrow> usize \<Rightarrow> u8 list \<Rightarrow> u8 list" where
  "copy_slice len data_starts data =
     (let dst_slice = replicate len 0;
          actual_length = min len (length data - data_starts)
      in if actual_length \<noteq> 0
         then take actual_length (drop data_starts data) @ drop actual_length dst_slice
         else dst_slice)"

text \<open>\<open>u64::try_from(w).unwrap_or(u64::MAX)\<close>.\<close>

definition u64_or_max :: "Word \<Rightarrow> usize" where
  "u64_or_max w = (if unat w < 2 ^ 64 then unat w else 2 ^ 64 - 1)"

definition copy_from :: "Word \<Rightarrow> Word \<Rightarrow> Word \<Rightarrow> u8 list \<Rightarrow> Memory \<Rightarrow> (Memory, 'e) result" where
  "copy_from dst_offset src_offset len data mem =
     bindE (u256_as_usize len) (\<lambda>len.
       if len = 0 then Inr mem
       else
         bindE (u256_as_u64 dst_offset) (\<lambda>dst_offset.
           let src_offset = u64_or_max src_offset
           in bindE (usize_add (unat dst_offset) len) (\<lambda>minimal_length.
                bindE (extend_at_least minimal_length mem) (\<lambda>mem.
                  let mem_starts = unat dst_offset;
                      mem_ends = mem_starts + len
                  in Inr (take mem_starts mem @ copy_slice len src_offset data @ drop mem_ends mem)))))"

section \<open>Storage\<close>

type_synonym Storage = "Word \<rightharpoonup> Word"

definition storage_get_or_err :: "Storage \<Rightarrow> Word \<Rightarrow> (Word, eth_error) result" where
  "storage_get_or_err st key = ok_or (st key) (Err InvalidStorageKey)"

section \<open>Gas\<close>

definition memory_expansion_gas_cost :: "u64 \<Rightarrow> u64 \<Rightarrow> (u64, 'e) result" where
  "memory_expansion_gas_cost curr_memory_word_size next_memory_word_size =
     (if next_memory_word_size = curr_memory_word_size then Inr 0
      else
        bindE (u64_sub next_memory_word_size curr_memory_word_size) (\<lambda>diff.
        bindE (u64_mul GasCost_MEMORY_EXPANSION_LINEAR_COEFF diff) (\<lambda>linear.
        bindE (u64_mul next_memory_word_size next_memory_word_size) (\<lambda>next_sq.
        bindE (u64_add linear (next_sq div GasCost_MEMORY_EXPANSION_QUAD_DENOMINATOR)) (\<lambda>s.
        bindE (u64_mul curr_memory_word_size curr_memory_word_size) (\<lambda>curr_sq.
        u64_sub s (curr_sq div GasCost_MEMORY_EXPANSION_QUAD_DENOMINATOR)))))))"

definition memory_copier_gas_cost :: "u64 \<Rightarrow> u64 \<Rightarrow> u64 \<Rightarrow> (u64, 'e) result" where
  "memory_copier_gas_cost curr_memory_word_size next_memory_word_size num_copy_bytes =
     bindE (u64_add num_copy_bytes 31) (\<lambda>n.
       let num_words = n div 32
       in bindE (u64_mul num_words GasCost_COPY) (\<lambda>copy.
            bindE (if 0 < num_words
                   then memory_expansion_gas_cost curr_memory_word_size next_memory_word_size
                   else Inr 0) (\<lambda>expansion.
              u64_add copy expansion)))"

definition eip150_gas :: "u64 \<Rightarrow> Word \<Rightarrow> (u64, 'e) result" where
  "eip150_gas gas_left gas_specified =
     bindE (u64_sub gas_left (gas_left div 64)) (\<lambda>capped_gas.
       if unat gas_specified < 2 ^ 64 \<and> low_u64 gas_specified < capped_gas
       then Inr (low_u64 gas_specified)
       else Inr capped_gas)"

section \<open>Lemmas on the stack\<close>

lemma nth_last_eq_Inr [simp]:
  "nth_last s n = Inr w \<longleftrightarrow> n < length s \<and> w = s ! (length s - Suc n)"
  by (auto simp: nth_last_def)

lemma nth_last_push [simp]:
  "nth_last (s @ [w]) 0 = Inr w"
  "nth_last (s @ [w]) (Suc n) = nth_last s n"
  by (auto simp: nth_last_def nth_opt_def nth_append)

lemma stack_last_nth_last: "stack_last s = nth_last s 0"
  by (cases s rule: rev_cases) (auto simp: stack_last_def nth_last_def)

section \<open>Lemmas on memory\<close>

lemma usize_add_eq_Inr [simp]: "usize_add a b = Inr c \<longleftrightarrow> c = a + b \<and> a + b < 2 ^ 64"
  by (auto simp: usize_add_def)

lemma length_read_chunk [simp]: "length (read_chunk mem offset len) = len"
  by (simp add: read_chunk_def Let_def)

lemma nth_read_chunk:
  "i < len \<Longrightarrow> read_chunk mem offset len ! i = (if offset + i < length mem then mem ! (offset + i) else 0)"
  by (auto simp: read_chunk_def Let_def nth_append not_less)

lemma extend_at_least_eq_Inr:
  "extend_at_least m mem = Inr mem' \<longleftrightarrow>
     m + 31 < 2 ^ 64 \<and> mem' = mem @ replicate ((m + 31) div 32 * 32 - length mem) 0"
  by (auto simp: extend_at_least_def Let_def)

lemma extend_at_least_length:
  "extend_at_least m mem = Inr mem' \<Longrightarrow>
     m \<le> length mem' \<and> length mem' = max (length mem) ((m + 31) div 32 * 32)"
  by (auto simp: extend_at_least_eq_Inr)

lemma extend_at_least_aligned:
  assumes "32 dvd length mem" and "extend_at_least m mem = Inr mem'"
  shows "32 dvd length mem'"
  using extend_at_least_length [OF assms(2)] assms(1) by (simp add: max_def)

lemma extend_at_least_nth:
  "extend_at_least m mem = Inr mem' \<Longrightarrow> i < length mem' \<Longrightarrow>
     mem' ! i = (if i < length mem then mem ! i else 0)"
  by (auto simp: extend_at_least_eq_Inr nth_append)

text \<open>What \<open>copy_from\<close> writes, once the arguments are in range.\<close>

definition copy_bytes :: "nat \<Rightarrow> nat \<Rightarrow> nat \<Rightarrow> u8 list \<Rightarrow> u8 list \<Rightarrow> u8 list" where
  "copy_bytes dst src len data mem =
     take dst mem @ map (\<lambda>i. if src + i < length data then data ! (src + i) else 0) [0..<len]
       @ drop (dst + len) mem"

lemma copy_slice_eq:
  "copy_slice len src data = map (\<lambda>i. if src + i < length data then data ! (src + i) else 0) [0..<len]"
  by (rule nth_equalityI) (auto simp: copy_slice_def Let_def nth_append min_def split: if_splits)

lemma copy_from_eq_Inr:
  assumes "copy_from dst src len data mem = (Inr mem' :: (Memory, 'e) result)" and "len \<noteq> 0"
  obtains memx where "extend_at_least (unat dst + unat len) mem = (Inr memx :: (Memory, 'e) result)"
    and "unat dst < 2 ^ 64"
    and "mem' = copy_bytes (unat dst) (u64_or_max src) (unat len) data memx"
proof -
  have len: "unat len \<noteq> 0"
    using assms(2) by (simp add: unat_eq_0)
  from assms(1) have l: "unat len < 2 ^ 64"
    by (auto simp: copy_from_def u256_as_usize_def split: if_splits)
  from assms(1) l len have d: "unat dst < 2 ^ 64"
    by (auto simp: copy_from_def u256_as_usize_def u256_as_u64_def split: if_splits)
  have ud: "unat (ucast dst :: u64) = unat dst"
    using d by (simp add: unsigned_ucast_eq take_bit_nat_eq_self)
  from assms(1) l len d ud obtain memx where
    "extend_at_least (unat dst + unat len) mem = (Inr memx :: (Memory, 'e) result)"
    and "mem' = copy_bytes (unat dst) (u64_or_max src) (unat len) data memx"
    unfolding copy_from_def u256_as_usize_def u256_as_u64_def copy_bytes_def copy_slice_eq Let_def
    by auto
  with d show ?thesis using that by blast
qed

lemma replicate_2: "replicate 2 x = [x, x]"
  by (simp add: numeral_2_eq_2)

lemma nth_copy_bytes:
  assumes "dst + len \<le> length mem" and "i < length mem"
  shows "copy_bytes dst src len data mem ! i =
    (if dst \<le> i \<and> i < dst + len
     then (if src + (i - dst) < length data then data ! (src + (i - dst)) else 0)
     else mem ! i)"
  using assms by (auto simp: copy_bytes_def nth_append min_def)

lemma length_copy_bytes:
  "dst + len \<le> length mem \<Longrightarrow> length (copy_bytes dst src len data mem) = length mem"
  by (auto simp: copy_bytes_def min_def)

section \<open>Lemmas on gas\<close>

lemma u64_addE:
  assumes "unat a + unat b < 2 ^ 64"
  obtains c where "u64_add a b = Inr c" and "unat c = unat a + unat b"
  using assms by (simp add: u64_add_def unat_word_ariths)

lemma u64_mulE:
  assumes "unat a * unat b < 2 ^ 64"
  obtains c where "u64_mul a b = Inr c" and "unat c = unat a * unat b"
  using assms by (simp add: u64_mul_def unat_word_ariths)

lemma u64_subE:
  assumes "unat b \<le> unat a"
  obtains c where "u64_sub a b = Inr c" and "unat c = unat a - unat b"
  using assms by (simp add: u64_sub_def unat_sub word_le_nat_alt)

lemma square_less_64: "(n :: nat) < 2 ^ 32 \<Longrightarrow> n * n < 2 ^ 64"
  using mult_strict_mono [of n "2 ^ 32" n "2 ^ 32"] by simp

lemma memory_expansion_gas_cost_ok:
  assumes "cs \<le> ns" and "unat ns < 2 ^ 32"
  shows "\<exists>g. memory_expansion_gas_cost cs ns = (Inr g :: (u64, 'e) result) \<and>
    unat g = 3 * (unat ns - unat cs) + unat ns * unat ns div 512 - unat cs * unat cs div 512"
proof (cases "ns = cs")
  case True
  then show ?thesis by (simp add: memory_expansion_gas_cost_def)
next
  case False
  have le: "unat cs \<le> unat ns" using assms(1) by (simp add: word_le_nat_alt)
  obtain d where d: "u64_sub ns cs = (Inr d :: (u64, 'e) result)" "unat d = unat ns - unat cs"
    using le by (rule u64_subE)
  obtain l where l: "u64_mul 3 d = (Inr l :: (u64, 'e) result)" "unat l = 3 * (unat ns - unat cs)"
  proof -
    have "unat (3 :: u64) * unat d < 2 ^ 64" using d(2) assms(2) by simp
    then show thesis by (rule u64_mulE) (use that d(2) in simp)
  qed
  have nn: "unat ns * unat ns < 2 ^ 64" using assms(2) by (rule square_less_64)
  have cc: "unat cs * unat cs \<le> unat ns * unat ns" using le by (simp add: mult_le_mono)
  obtain n where n: "u64_mul ns ns = (Inr n :: (u64, 'e) result)" "unat n = unat ns * unat ns"
    using nn by (rule u64_mulE)
  obtain c where c: "u64_mul cs cs = (Inr c :: (u64, 'e) result)" "unat c = unat cs * unat cs"
    using le_less_trans [OF cc nn] by (rule u64_mulE)
  have q: "unat (n div 512) = unat ns * unat ns div 512" "unat (c div 512) = unat cs * unat cs div 512"
    by (simp_all add: unat_div n(2) c(2))
  have "unat ns * unat ns div 512 < 2 ^ 55" using nn by simp
  then have "unat l + unat (n div 512) < 2 ^ 64"
    using l(2) q(1) assms(2) by simp
  then obtain s where s: "u64_add l (n div 512) = (Inr s :: (u64, 'e) result)" "unat s = unat l + unat (n div 512)"
    by (rule u64_addE)
  have "unat (c div 512) \<le> unat s"
    using div_le_mono [OF cc, of 512] q s(2) by simp
  then obtain g where g: "u64_sub s (c div 512) = (Inr g :: (u64, 'e) result)" "unat g = unat s - unat (c div 512)"
    by (rule u64_subE)
  from False show ?thesis
    by (simp add: memory_expansion_gas_cost_def gas_cost_defs d(1) l n(1) c(1) s g q)
qed

section \<open>The main facts about memory and gas\<close>

text \<open>
  C31: copying data into memory (\<open>CALLDATACOPY\<close>, \<open>CODECOPY\<close> and their kin). When \<open>copy_from\<close> returns, the bytes
  from \<open>dst_offset\<close> on are the source bytes from \<open>src_offset\<close> on, zero where the source has ended; every other
  byte of memory is unchanged; memory has grown, with zeros, to the next multiple of 32 that holds the
  copied range, and never shrinks. With \<open>len = 0\<close> nothing changes, whatever the offsets.
\<close>

theorem copy_from_spec:
  assumes "copy_from dst src len data mem = (Inr mem' :: (Memory, 'e) result)"
  shows "if len = 0 then mem' = mem
    else length mem' = max (length mem) ((unat dst + unat len + 31) div 32 * 32) \<and>
      (\<forall>i < length mem'. mem' ! i =
         (if unat dst \<le> i \<and> i < unat dst + unat len
          then (let j = u64_or_max src + (i - unat dst)
                in if j < length data then data ! j else 0)
          else if i < length mem then mem ! i else 0))"
proof (cases "len = 0")
  case True
  then show ?thesis using assms by (auto simp: copy_from_def u256_as_usize_def)
next
  case False
  with assms obtain memx where x: "extend_at_least (unat dst + unat len) mem = (Inr memx :: (Memory, 'e) result)"
    and m: "mem' = copy_bytes (unat dst) (u64_or_max src) (unat len) data memx"
    by (elim copy_from_eq_Inr)
  have le: "unat dst + unat len \<le> length memx"
    using extend_at_least_length [OF x] by simp
  then have "length mem' = length memx"
    unfolding m by (rule length_copy_bytes)
  with False show ?thesis
    using extend_at_least_length [OF x] le
    by (auto simp: m nth_copy_bytes extend_at_least_nth [OF x] Let_def)
qed

theorem copy_from_spec_witness:
  "copy_from 2 1 3 [5, 6, 7] [] = (Inr ([0, 0, 6, 7, 0] @ replicate 27 0) :: (Memory, unit) result) \<and>
   length ([0, 0, 6, 7, 0] @ replicate 27 (0 :: u8)) = max 0 ((2 + 3 + 31) div 32 * 32)"
proof -
  have h: "copy_from 2 1 3 [5, 6, 7] [] = (Inr ([0, 0, 6, 7, 0] @ replicate 27 0) :: (Memory, unit) result)"
    by (simp add: copy_from_def u256_as_usize_def u256_as_u64_def extend_at_least_def usize_add_def
        copy_slice_def u64_or_max_def drop_Cons' replicate_2)
  show ?thesis using h copy_from_spec [OF h] by simp
qed

text \<open>
  \<open>read_chunk\<close> always returns \<open>len\<close> bytes: those of memory from \<open>offset\<close> on, padded with zeros beyond its end.
\<close>

theorem read_chunk_spec:
  "read_chunk mem offset len =
     map (\<lambda>i. if offset + i < length mem then mem ! (offset + i) else 0) [0..<len]"
  by (rule nth_equalityI) (simp_all add: nth_read_chunk)

text \<open>
  C32: the gas of a memory expansion. For word counts up to \<open>2^32 - 1\<close>, the limit the constant
  \<open>MAX_EXPANDED_MEMORY_ADDRESS\<close> stands for, no intermediate product or sum overflows 64 bits and the result is the
  difference of the quadratic cost function at the two sizes; with one word more the square overflows.
\<close>

theorem memory_expansion_gas_cost_spec:
  "(\<forall>cs ns. cs \<le> ns \<and> unat ns * 32 \<le> unat MAX_EXPANDED_MEMORY_ADDRESS \<longrightarrow>
     (\<exists>g. memory_expansion_gas_cost cs ns = Inr g \<and>
        unat g = 3 * (unat ns - unat cs) + unat ns * unat ns div 512 - unat cs * unat cs div 512)) \<and>
   memory_expansion_gas_cost 0 (MAX_EXPANDED_MEMORY_ADDRESS div 32 + 1) =
     Inl (Panic ''attempt to multiply with overflow'')"
proof (intro conjI allI impI)
  fix cs ns :: u64
  assume h: "cs \<le> ns \<and> unat ns * 32 \<le> unat MAX_EXPANDED_MEMORY_ADDRESS"
  then have "unat ns < 2 ^ 32" by (simp add: MAX_EXPANDED_MEMORY_ADDRESS_def)
  with h show "\<exists>g. memory_expansion_gas_cost cs ns = Inr g \<and>
        unat g = 3 * (unat ns - unat cs) + unat ns * unat ns div 512 - unat cs * unat cs div 512"
    by (blast intro: memory_expansion_gas_cost_ok)
next
  show "memory_expansion_gas_cost 0 (MAX_EXPANDED_MEMORY_ADDRESS div 32 + 1) =
     Inl (Panic ''attempt to multiply with overflow'')"
    by (simp add: memory_expansion_gas_cost_def MAX_EXPANDED_MEMORY_ADDRESS_def gas_cost_defs u64_sub_def
        u64_mul_def)
qed

theorem memory_expansion_gas_cost_spec_witness:
  "(1 :: u64) \<le> 40 \<and> unat (40 :: u64) * 32 \<le> unat MAX_EXPANDED_MEMORY_ADDRESS \<and>
   (\<exists>g. memory_expansion_gas_cost 1 40 = (Inr g :: (u64, unit) result) \<and> unat g = 120)"
proof -
  have h: "(1 :: u64) \<le> 40 \<and> unat (40 :: u64) * 32 \<le> unat MAX_EXPANDED_MEMORY_ADDRESS"
    by (simp add: MAX_EXPANDED_MEMORY_ADDRESS_def)
  then have "\<exists>g. memory_expansion_gas_cost 1 40 = (Inr g :: (u64, unit) result) \<and>
      unat g = 3 * (unat (40 :: u64) - unat (1 :: u64)) + unat (40 :: u64) * unat (40 :: u64) div 512
        - unat (1 :: u64) * unat (1 :: u64) div 512"
    using memory_expansion_gas_cost_spec [where ?'a = unit] by blast
  with h show ?thesis by simp
qed

text \<open>
  EIP-150. The gas passed to a callee never panics and is the smaller of the specified gas and all but one
  64th of the gas left.
\<close>

theorem eip150_gas_spec:
  "\<exists>g. eip150_gas gas_left gas_specified = Inr g \<and>
     unat g = min (unat gas_specified) (unat gas_left - unat gas_left div 64)"
proof -
  have q: "unat (gas_left div 64) = unat gas_left div 64" by (simp add: unat_div)
  then have le: "unat (gas_left div 64) \<le> unat gas_left" by simp
  let ?c = "gas_left - gas_left div 64"
  have c: "u64_sub gas_left (gas_left div 64) = Inr ?c" "unat ?c = unat gas_left - unat gas_left div 64"
    using le q by (simp_all add: u64_sub_def unat_sub word_le_nat_alt)
  have l: "unat gas_specified < 2 ^ 64 \<Longrightarrow> unat (low_u64 gas_specified) = unat gas_specified"
    by (simp add: low_u64_def unsigned_ucast_eq take_bit_nat_eq_self)
  have "unat ?c < 2 ^ LENGTH(64)" by (rule unsigned_less)
  then have "unat ?c < 2 ^ 64" by simp
  then show ?thesis
    using l by (auto simp: eip150_gas_def c word_less_nat_alt min_def)
qed

end
