(* ===== verification/Bytecode.thy ===== *)
theory Bytecode
  imports Evm_Types
begin

text \<open>
  The bytecode container and assembler of \<^verbatim>\<open>eth-types/src/bytecode.rs\<close>: elements tagged as opcode or
  push data, the writing operations, markers, the reader \<open>From<Vec<u8>>\<close> and the iterator over opcodes.

  A hash map of markers is the association list of its entries (keys distinct, in the order an
  iteration meets them). \<open>debug_assert!\<close> is the panic of a debug build. Parsing and printing of a
  256-bit decimal are third-party code: parameters of \<open>owd_from_str\<close> and \<open>owd_to_string\<close>.
\<close>

section \<open>Data\<close>

datatype bytecode_error = InvalidAsmError string

record BytecodeElement =
  be_value :: u8
  be_is_code :: bool

record Bytecode =
  bc_code :: "BytecodeElement list"
  bc_num_opcodes :: usize
  bc_markers :: "(string \<times> usize) list"

datatype OpcodeWithData = Opcode OpcodeId | PushWithData u8 Word

section \<open>Operations\<close>

definition bytecode_default :: Bytecode where
  "bytecode_default = \<lparr>bc_code = [], bc_num_opcodes = 0, bc_markers = []\<rparr>"

definition from_raw_unchecked :: "u8 list \<Rightarrow> Bytecode" where
  "from_raw_unchecked input =
     \<lparr>bc_code = map (\<lambda>b. \<lparr>be_value = b, be_is_code = True\<rparr>) input, bc_num_opcodes = 0, bc_markers = []\<rparr>"

definition code_bytes :: "Bytecode \<Rightarrow> u8 list" where
  "code_bytes bc = map be_value (bc_code bc)"

definition code_vec :: "Bytecode \<Rightarrow> (u8 \<times> bool) list" where
  "code_vec bc = map (\<lambda>b. (be_value b, be_is_code b)) (bc_code bc)"

definition codesize :: "Bytecode \<Rightarrow> usize" where
  "codesize bc = length (bc_code bc)"

definition bytecode_hash :: "(u8 list \<Rightarrow> Hash) \<Rightarrow> Bytecode \<Rightarrow> Word" where
  "bytecode_hash keccak256 bc = keccak256 (code_bytes bc)"

definition bytecode_get :: "Bytecode \<Rightarrow> usize \<Rightarrow> (u8 \<times> bool) option" where
  "bytecode_get bc index = map_option (\<lambda>elem. (be_value elem, be_is_code elem)) (nth_opt (bc_code bc) index)"

definition get_byte :: "Bytecode \<Rightarrow> usize \<Rightarrow> u8 option" where
  "get_byte bc index = map_option be_value (nth_opt (bc_code bc) index)"

definition bc_write :: "u8 \<Rightarrow> bool \<Rightarrow> Bytecode \<Rightarrow> Bytecode" where
  "bc_write v is_code bc = bc\<lparr>bc_code := bc_code bc @ [\<lparr>be_value = v, be_is_code = is_code\<rparr>]\<rparr>"

definition write_op_internal :: "u8 \<Rightarrow> Bytecode \<Rightarrow> Bytecode" where
  "write_op_internal op bc = bc_write op True (bc\<lparr>bc_num_opcodes := bc_num_opcodes bc + 1\<rparr>)"

definition write_op :: "OpcodeId \<Rightarrow> Bytecode \<Rightarrow> Bytecode" where
  "write_op op bc = write_op_internal (as_u8 op) bc"

definition insert_marker :: "string \<Rightarrow> usize \<Rightarrow> Bytecode \<Rightarrow> (Bytecode, 'e) result" where
  "insert_marker marker pos bc =
     (if marker \<in> fst ` set (bc_markers bc) then Inl (Panic ''marker already used'')
      else Inr (bc\<lparr>bc_markers := bc_markers bc @ [(marker, pos)]\<rparr>))"

definition add_marker :: "string \<Rightarrow> Bytecode \<Rightarrow> (Bytecode, 'e) result" where
  "add_marker marker bc = insert_marker marker (bc_num_opcodes bc) bc"

definition get_pos :: "string \<Rightarrow> Bytecode \<Rightarrow> (usize, 'e) result" where
  "get_pos marker bc = ok_or (map_of (bc_markers bc) marker) (Panic ''marker not found'')"

definition bc_append :: "Bytecode \<Rightarrow> Bytecode \<Rightarrow> (Bytecode, 'e) result" where
  "bc_append other bc =
     bindE (foldE (\<lambda>(key, val) bc. insert_marker key (bc_num_opcodes bc + val) bc) (bc_markers other)
              (bc\<lparr>bc_code := bc_code bc @ bc_code other\<rparr>)) (\<lambda>bc.
       Inr (bc\<lparr>bc_num_opcodes := bc_num_opcodes bc + bc_num_opcodes other\<rparr>))"

text \<open>\<open>push\<close>: the opcode, then the \<open>n\<close> low bytes of the value, most significant first.\<close>

definition bc_push :: "u8 \<Rightarrow> Word \<Rightarrow> Bytecode \<Rightarrow> (Bytecode, eth_error) result" where
  "bc_push n v bc =
     (if \<not> n \<le> 32 then Inl (Panic ''invalid push'')
      else
        bindE (case push_n n of Inr op \<Rightarrow> Inr op | Inl _ \<Rightarrow> Inl (Panic ''valid push size'')) (\<lambda>op.
          let bc = write_op op bc;
              bytes = le_bytes 32 (unat v);
              bc = fold (\<lambda>i bc. bc_write (bytes ! (unat n - 1 - i)) False bc) [0..<unat n] bc
          in if list_all (\<lambda>b. b = 0) (drop (unat n) bytes) then Inr bc
             else Inl (Panic ''value too big for PUSH'')))"

definition append_op :: "OpcodeWithData \<Rightarrow> Bytecode \<Rightarrow> (Bytecode, eth_error) result" where
  "append_op op bc = (case op of
       Opcode opcode \<Rightarrow> Inr (write_op opcode bc)
     | PushWithData n word \<Rightarrow> bc_push n word bc)"

definition owd_opcode :: "OpcodeWithData \<Rightarrow> (OpcodeId, 'e) result" where
  "owd_opcode op = (case op of
       Opcode op \<Rightarrow> Inr op
     | PushWithData n _ \<Rightarrow> (case push_n n of Inr op \<Rightarrow> Inr op | Inl _ \<Rightarrow> Inl (Panic ''valid push size'')))"

definition op_jumpdest :: "Bytecode \<Rightarrow> Bytecode \<times> usize" where
  "op_jumpdest bc = (let bc = write_op (Flow JUMPDEST) bc in (bc, length (bc_code bc)))"

text \<open>
  The methods \<open>op_add\<close>, \<open>op_mstore\<close>, ... which the macro \<open>impl_other_opcodes\<close> generates: the arguments pushed with
  \<open>PUSH32\<close>, the last one first, then the opcode.
\<close>

definition op_with_args :: "OpcodeId \<Rightarrow> Word list \<Rightarrow> Bytecode \<Rightarrow> (Bytecode, eth_error) result" where
  "op_with_args op args bc = bindE (foldE (bc_push 32) (rev args) bc) (\<lambda>bc. Inr (write_op op bc))"

definition op_mstore :: "Word \<Rightarrow> Word \<Rightarrow> Bytecode \<Rightarrow> (Bytecode, eth_error) result" where
  "op_mstore offset v = op_with_args (Flow MSTORE) [offset, v]"

definition setup_state :: "Bytecode \<Rightarrow> (Bytecode, eth_error) result" where
  "setup_state bc =
     bindE (bc_push 1 0x80 bytecode_default) (\<lambda>other.
     bindE (bc_push 1 0x40 other) (\<lambda>other.
       bc_append (write_op (Flow MSTORE) other) bc))"

function chunks :: "nat \<Rightarrow> 'a list \<Rightarrow> 'a list list" where
  "chunks n xs = (if xs = [] \<or> n = 0 then [] else take n xs # chunks n (drop n xs))"
  by pat_completeness auto

termination by (relation "measure (\<lambda>(n, xs). length xs)") auto

definition store_code_to_mem :: "Bytecode \<Rightarrow> Bytecode \<Rightarrow> (Bytecode, eth_error) result" where
  "store_code_to_mem other bc =
     (let len = codesize other;
          code = code_bytes other @ replicate (32 - len mod 32) 0
      in foldE (\<lambda>(index, word) bc. op_mstore (of_nat (index * 32)) (of_nat (nat_of_be word)) bc)
           (enumerate 0 (chunks 32 code)) bc)"

section \<open>The iterator\<close>

text \<open>\<open>BytecodeIterator::next\<close> on the remaining elements; reading push data past the end is an \<open>unwrap\<close> on \<open>None\<close>.\<close>

definition bytecode_next ::
  "BytecodeElement list \<Rightarrow> (OpcodeWithData \<times> BytecodeElement list, 'e) result option" where
  "bytecode_next it = (case it of
       [] \<Rightarrow> None
     | byte # it \<Rightarrow>
         Some (let op = from_u8 (be_value byte); n = data_len op
               in if 0 < n then
                    if \<not> is_push_with_data op then Inl (Panic ''assertion failed'')
                    else if length it < n then Inl (Panic ''called Option::unwrap() on a None value'')
                    else Inr (PushWithData (of_nat n) (of_nat (nat_of_be (map be_value (take n it)))), drop n it)
                  else Inr (Opcode op, it)))"

lemma bytecode_next_length:
  "bytecode_next it = Some (Inr (op, it')) \<Longrightarrow> length it' < length it"
  by (auto simp: bytecode_next_def Let_def split: list.splits if_splits)

function bytecode_collect :: "BytecodeElement list \<Rightarrow> (OpcodeWithData list, 'e) result" where
  "bytecode_collect it = (case bytecode_next it of
       None \<Rightarrow> Inr []
     | Some r \<Rightarrow> bindE r (\<lambda>(op, it'). bindE (bytecode_collect it') (\<lambda>ops. Inr (op # ops))))"
  by pat_completeness auto

termination
  by (relation "measure length") (auto dest: bytecode_next_length)

declare bytecode_collect.simps [simp del]

definition bytecode_iter :: "Bytecode \<Rightarrow> (OpcodeWithData list, 'e) result" where
  "bytecode_iter bc = bytecode_collect (bc_code bc)"

section \<open>Reading raw bytes\<close>

fun write_data :: "nat \<Rightarrow> u8 list \<Rightarrow> Bytecode \<Rightarrow> Bytecode \<times> u8 list" where
  "write_data 0 input bc = (bc, input)"
| "write_data (Suc n) [] bc = (bc, [])"
| "write_data (Suc n) (v # input) bc = write_data n input (bc_write v False bc)"

lemma write_data_eq:
  "write_data n input bc = (fold (\<lambda>v. bc_write v False) (take n input) bc, drop n input)"
  by (induction n input bc rule: write_data.induct) simp_all

function from_bytes_loop :: "u8 list \<Rightarrow> Bytecode \<Rightarrow> Bytecode" where
  "from_bytes_loop [] bc = bc"
| "from_bytes_loop (byte # input) bc =
     (let op = from_u8 byte; bc = write_op op bc
      in if is_push_with_data op
         then let (bc, input) = write_data (case postfix op of Some n \<Rightarrow> unat n | None \<Rightarrow> 0) input bc
              in from_bytes_loop input bc
         else from_bytes_loop input bc)"
  by pat_completeness auto

termination
  by (relation "measure (\<lambda>(input, bc). length input)") (auto simp: write_data_eq)

definition from_bytes :: "u8 list \<Rightarrow> Bytecode" where
  "from_bytes input = from_bytes_loop input bytecode_default"


section \<open>What the reader produces\<close>

text \<open>The elements of a raw byte string: each opcode takes its push data, as far as there is any.\<close>

function scan :: "u8 list \<Rightarrow> BytecodeElement list" where
  "scan [] = []"
| "scan (b # input) =
     \<lparr>be_value = b, be_is_code = True\<rparr>
       # map (\<lambda>v. \<lparr>be_value = v, be_is_code = False\<rparr>) (take (data_len (from_u8 b)) input)
       @ scan (drop (data_len (from_u8 b)) input)"
  by pat_completeness auto

termination by (relation "measure length") auto

lemma fold_write_data:
  "fold (\<lambda>v. bc_write v False) vs bc =
     bc\<lparr>bc_code := bc_code bc @ map (\<lambda>v. \<lparr>be_value = v, be_is_code = False\<rparr>) vs\<rparr>"
  by (induction vs arbitrary: bc) (simp_all add: bc_write_def)

lemma write_op_eq:
  "write_op op bc =
     bc\<lparr>bc_code := bc_code bc @ [\<lparr>be_value = as_u8 op, be_is_code = True\<rparr>], bc_num_opcodes := bc_num_opcodes bc + 1\<rparr>"
  by (simp add: write_op_def write_op_internal_def bc_write_def)

lemma postfix_push_with_data:
  "is_push_with_data (from_u8 b) \<Longrightarrow> postfix (from_u8 b) = Some (b - 0x5f)"
  by (auto simp: postfix_def is_push_from_u8 is_push_with_data_from_u8 word_le_nat_alt)

lemma from_bytes_loop_scan:
  "from_bytes_loop input bc =
     bc\<lparr>bc_code := bc_code bc @ scan input,
        bc_num_opcodes := bc_num_opcodes bc + length (filter be_is_code (scan input))\<rparr>"
proof (induction input arbitrary: bc rule: scan.induct)
  case 1
  then show ?case by simp
next
  case (2 b input)
  show ?case
  proof (cases "is_push_with_data (from_u8 b)")
    case True
    then have n: "data_len (from_u8 b) = unat (b - 0x5f)" by (simp add: data_len_def)
    from True show ?thesis
      by (simp add: 2 [unfolded n] n Let_def write_data_eq postfix_push_with_data fold_write_data write_op_eq
          filter_map comp_def)
  next
    case False
    then have "data_len (from_u8 b) = 0" by (simp add: data_len_def)
    then show ?thesis using False 2 by (simp add: Let_def write_op_eq)
  qed
qed

lemma from_bytes_scan:
  "from_bytes input = \<lparr>bc_code = scan input, bc_num_opcodes = length (filter be_is_code (scan input)), bc_markers = []\<rparr>"
  by (simp add: from_bytes_def from_bytes_loop_scan bytecode_default_def)

lemma scan_bytes [simp]: "map be_value (scan input) = input"
  by (induction input rule: scan.induct) (simp_all add: comp_def)

lemma length_scan [simp]: "length (scan input) = length input"
  by (metis length_map scan_bytes)

lemma scan_is_code:
  "i < length input \<Longrightarrow>
     be_is_code (scan input ! i) \<longleftrightarrow>
       (\<forall>j < i. be_is_code (scan input ! j) \<longrightarrow> j + data_len (from_u8 (input ! j)) < i)"
proof (induction input arbitrary: i rule: scan.induct)
  case 1
  then show ?case by simp
next
  case (2 b input)
  let ?n = "data_len (from_u8 b)"
  let ?f = "\<lambda>i. be_is_code (scan (b # input) ! i)"
  have data: "\<not> ?f (Suc k)" if "k < ?n" "k < length input" for k
    using that by (simp add: nth_append)
  have rest: "scan (b # input) ! Suc (?n + k) = scan (drop ?n input) ! k" if "?n + k < length input" for k
    using that by (simp add: nth_append)
  show ?case
  proof (cases i)
    case 0
    then show ?thesis by simp
  next
    case (Suc k)
    show ?thesis
    proof (cases "k < ?n")
      case True
      then have "\<not> ?f i" using data Suc 2(2) by simp
      moreover have "0 < i \<and> ?f 0 \<and> \<not> 0 + ?n < i" using True Suc by simp
      ultimately show ?thesis by auto
    next
      case False
      then obtain m where m: "k = ?n + m" using le_Suc_ex not_less by blast
      have len: "?n + m < length input" using m Suc 2(2) by simp
      have "?f i \<longleftrightarrow> (\<forall>j < m. be_is_code (scan (drop ?n input) ! j) \<longrightarrow>
          j + data_len (from_u8 (drop ?n input ! j)) < m)"
        using 2(1) [of m] len m Suc rest [of m] by (simp del: scan.simps)
      also have "\<dots> \<longleftrightarrow> (\<forall>j < m. ?f (Suc (?n + j)) \<longrightarrow>
          Suc (?n + j) + data_len (from_u8 ((b # input) ! Suc (?n + j))) < i)"
        using len m Suc rest by (auto simp del: scan.simps)
      also have "\<dots> \<longleftrightarrow> (\<forall>j < i. ?f j \<longrightarrow> j + data_len (from_u8 ((b # input) ! j)) < i)" (is "?L = ?R")
      proof
        assume L: ?L
        show ?R
        proof (intro allI impI)
          fix j assume j: "j < i" "?f j"
          consider "j = 0" | l where "j = Suc l" "l < ?n" | l where "j = Suc (?n + l)"
            by (metis le_Suc_ex not_less not0_implies_Suc)
          then show "j + data_len (from_u8 ((b # input) ! j)) < i"
          proof cases
            case 1 then show ?thesis using m Suc by simp
          next
            case 2 then show ?thesis using data [of l] j len by simp
          next
            case 3 then show ?thesis using L j m Suc by auto
          qed
        qed
      next
        assume R: ?R
        show ?L
        proof (intro allI impI)
          fix j assume "j < m" "?f (Suc (?n + j))"
          then show "Suc (?n + j) + data_len (from_u8 ((b # input) ! Suc (?n + j))) < i"
            using m Suc by (intro R [rule_format]) simp_all
        qed
      qed
      finally show ?thesis .
    qed
  qed
qed

lemma scan_not_data:
  "i < length input \<Longrightarrow>
     be_is_code (scan input ! i) \<longleftrightarrow>
       \<not> (\<exists>j < i. be_is_code (scan input ! j) \<and> i \<le> j + data_len (from_u8 (input ! j)))"
  by (subst scan_is_code) (auto simp: not_le)

section \<open>What the writers produce\<close>

definition owd_bytes :: "OpcodeWithData \<Rightarrow> u8 list" where
  "owd_bytes op = (case op of
       Opcode op \<Rightarrow> [as_u8 op]
     | PushWithData n w \<Rightarrow> (0x5f + n) # be_bytes (unat n) (unat w))"

text \<open>The assembler entries that stand for themselves: an opcode the byte table knows, without data, or a push whose value fits.\<close>

definition valid_owd :: "OpcodeWithData \<Rightarrow> bool" where
  "valid_owd op = (case op of
       Opcode op \<Rightarrow> from_u8 (as_u8 op) = op \<and> \<not> is_push_with_data op
     | PushWithData n w \<Rightarrow> 0 < n \<and> n \<le> 32 \<and> unat w < 256 ^ unat n)"

lemma le_bytes_zero_tail:
  assumes "n \<le> m" and "x < 256 ^ m"
  shows "list_all (\<lambda>b. b = 0) (drop n (le_bytes m x)) \<longleftrightarrow> x < 256 ^ n"
  using assms
proof (induction n arbitrary: m x)
  case 0
  have "x = 0" if "\<forall>b \<in> set (le_bytes m x). b = 0"
  proof -
    from that have z: "le_bytes m x = replicate m 0"
      by (metis length_le_bytes replicate_eqI)
    have "nat_of_le (replicate m 0) = 0" for m
      by (induction m) simp_all
    then show ?thesis using nat_of_le_le_bytes [of m x] z 0 by simp
  qed
  moreover have "\<forall>b \<in> set (le_bytes m 0). b = 0" by (simp add: le_bytes_def)
  ultimately show ?case by (auto simp: list_all_iff)
next
  case (Suc n)
  then obtain k where k: "m = Suc k" by (cases m) auto
  have "x div 256 < 256 ^ k" using Suc.prems k by (simp add: less_mult_imp_div_less mult.commute)
  with Suc k have "list_all (\<lambda>b. b = 0) (drop n (le_bytes k (x div 256))) \<longleftrightarrow> x div 256 < 256 ^ n" by simp
  also have "\<dots> \<longleftrightarrow> x < 256 ^ Suc n" by (simp add: div_less_iff_less_mult mult.commute)
  finally show ?case by (simp add: k le_bytes_Suc)
qed

lemma unat_word_bound: "unat (w :: Word) < 256 ^ 32"
  using unsigned_less [of w] by simp

lemma bc_push_bytes:
  assumes "k \<le> 32"
  shows "fold (\<lambda>i. bc_write (le_bytes 32 x ! (k - Suc i)) False) [0..<k] bc =
    bc\<lparr>bc_code := bc_code bc @ map (\<lambda>v. \<lparr>be_value = v, be_is_code = False\<rparr>) (be_bytes k x)\<rparr>"
proof -
  have "be_bytes k x = map (\<lambda>i. le_bytes 32 x ! (k - Suc i)) [0..<k]"
    using assms by (intro nth_equalityI) (simp_all add: be_bytes_def rev_nth le_bytes_def)
  then show ?thesis
    unfolding fold_write_data [symmetric] by (simp add: fold_map comp_def)
qed

lemma bc_push_eq:
  "bc_push n v bc =
     (if \<not> n \<le> 32 then Inl (Panic ''invalid push'')
      else if unat v < 256 ^ unat n
      then Inr (bc\<lparr>bc_code := bc_code bc @ \<lparr>be_value = 0x5f + n, be_is_code = True\<rparr>
                     # map (\<lambda>v. \<lparr>be_value = v, be_is_code = False\<rparr>) (be_bytes (unat n) (unat v)),
                   bc_num_opcodes := bc_num_opcodes bc + 1\<rparr>)
      else Inl (Panic ''value too big for PUSH''))"
  using le_bytes_zero_tail [of "unat n" 32 "unat v"] unat_word_bound [of v]
  by (auto simp: bc_push_def Let_def push_n_eq bc_push_bytes write_op_eq word_le_nat_alt)

lemma data_len_push: "0 < n \<Longrightarrow> n \<le> 32 \<Longrightarrow> data_len (from_u8 (0x5f + n)) = unat n"
  using push_byte(1) [of n]
  by (simp add: data_len_def is_push_with_data_from_u8 word_le_nat_alt word_less_nat_alt)

lemma valid_owd_bytes:
  assumes "valid_owd op"
  obtains b bs where "owd_bytes op = b # bs" and "data_len (from_u8 b) = length bs"
proof (cases op)
  case (Opcode o')
  with assms show ?thesis using that by (simp add: valid_owd_def owd_bytes_def data_len_def)
next
  case (PushWithData n w)
  with assms show ?thesis using that by (simp add: valid_owd_def owd_bytes_def data_len_push)
qed

lemma append_op_valid:
  assumes "valid_owd op"
  shows "append_op op bc =
    Inr (bc\<lparr>bc_code := bc_code bc @ scan (owd_bytes op), bc_num_opcodes := bc_num_opcodes bc + 1\<rparr>)"
proof (cases op)
  case (Opcode o')
  with assms have "data_len (from_u8 (as_u8 o')) = 0" by (simp add: valid_owd_def data_len_def)
  then show ?thesis by (simp add: Opcode append_op_def owd_bytes_def write_op_eq)
next
  case (PushWithData n w)
  with assms show ?thesis
    by (simp add: valid_owd_def append_op_def owd_bytes_def bc_push_eq data_len_push)
qed

lemma scan_owd_append:
  "valid_owd op \<Longrightarrow> scan (owd_bytes op @ rest) = scan (owd_bytes op) @ scan rest"
  by (auto elim: valid_owd_bytes)

lemma count_owd:
  "valid_owd op \<Longrightarrow> length (filter be_is_code (scan (owd_bytes op))) = 1"
  by (auto elim!: valid_owd_bytes simp: filter_map comp_def)

lemma count_owds:
  "list_all valid_owd ops \<Longrightarrow> length (filter be_is_code (scan (concat (map owd_bytes ops)))) = length ops"
  by (induction ops) (simp_all add: scan_owd_append count_owd)

lemma append_ops_valid:
  "list_all valid_owd ops \<Longrightarrow> foldE append_op ops bc =
     Inr (bc\<lparr>bc_code := bc_code bc @ scan (concat (map owd_bytes ops)), bc_num_opcodes := bc_num_opcodes bc + length ops\<rparr>)"
  by (induction ops arbitrary: bc) (simp_all add: append_op_valid scan_owd_append)

lemma bytecode_collect_Nil [simp]: "bytecode_collect [] = Inr []"
  by (simp add: bytecode_collect.simps [of "[]"] bytecode_next_def)

lemma bytecode_collect_Cons:
  "bytecode_collect (\<lparr>be_value = b, be_is_code = c\<rparr> # it) =
     (let n = data_len (from_u8 b)
      in if n = 0 then bindE (bytecode_collect it) (\<lambda>ops. Inr (Opcode (from_u8 b) # ops))
         else if length it < n then Inl (Panic ''called Option::unwrap() on a None value'')
         else bindE (bytecode_collect (drop n it)) (\<lambda>ops.
                Inr (PushWithData (of_nat n) (of_nat (nat_of_be (map be_value (take n it)))) # ops)))"
  by (subst bytecode_collect.simps) (auto simp: bytecode_next_def Let_def data_len_def)

lemma bytecode_collect_scan_Cons:
  "bytecode_collect (scan (b # input)) =
     (let n = data_len (from_u8 b)
      in if n = 0 then bindE (bytecode_collect (scan input)) (\<lambda>ops. Inr (Opcode (from_u8 b) # ops))
         else if length input < n then Inl (Panic ''called Option::unwrap() on a None value'')
         else bindE (bytecode_collect (scan (drop n input))) (\<lambda>ops.
                Inr (PushWithData (of_nat n) (of_nat (nat_of_be (take n input))) # ops)))"
  by (simp add: bytecode_collect_Cons Let_def comp_def)

lemma bytecode_collect_owd:
  assumes "valid_owd op"
  shows "bytecode_collect (scan (owd_bytes op @ rest)) =
    bindE (bytecode_collect (scan rest)) (\<lambda>ops. Inr (op # ops))"
proof (cases op)
  case (Opcode o')
  with assms show ?thesis
    by (simp add: owd_bytes_def valid_owd_def data_len_def bytecode_collect_scan_Cons del: scan.simps)
next
  case (PushWithData n w)
  with assms have n: "0 < unat n" "n \<le> 32" "unat w < 256 ^ unat n"
    by (simp_all add: valid_owd_def word_less_nat_alt)
  then show ?thesis
    by (simp add: PushWithData owd_bytes_def bytecode_collect_scan_Cons data_len_push word_less_nat_alt nat_of_be_be_bytes del: scan.simps)
qed

lemma bytecode_collect_ops:
  "list_all valid_owd ops \<Longrightarrow> bytecode_collect (scan (concat (map owd_bytes ops))) = Inr ops"
  by (induction ops) (simp_all add: bytecode_collect_owd)

lemma unat_of_nat_le_32 [simp]: "n \<le> 32 \<Longrightarrow> unat (of_nat n :: u8) = n"
  by simp

lemma owd_bytes_push:
  assumes "is_push_with_data (from_u8 b)" and "length bytes = data_len (from_u8 b)"
  shows "owd_bytes (PushWithData (of_nat (length bytes)) (of_nat (nat_of_be bytes))) = b # bytes"
    and "valid_owd (PushWithData (of_nat (length bytes)) (of_nat (nat_of_be bytes)))"
proof -
  from assms have b: "0x60 \<le> b" "b \<le> 0x7f" and len: "length bytes = unat (b - 0x5f)"
    by (simp_all add: data_len_def is_push_with_data_from_u8)
  then have un: "unat (b - 0x5f) = unat b - 0x5f"
    by (simp add: unat_sub word_le_nat_alt)
  then have l32: "0 < length bytes" "length bytes \<le> 32"
    using b len by (simp_all add: word_le_nat_alt)
  have "nat_of_be bytes < 256 ^ length bytes" by (rule nat_of_be_bound)
  also have "\<dots> \<le> 256 ^ 32" using l32 by (simp add: power_increasing del: power_numeral)
  finally have w: "unat (of_nat (nat_of_be bytes) :: Word) = nat_of_be bytes"
    by (simp add: unat_of_nat)
  show "owd_bytes (PushWithData (of_nat (length bytes)) (of_nat (nat_of_be bytes))) = b # bytes"
    using w l32 len be_bytes_nat_of_be [of bytes] by (simp add: owd_bytes_def)
  show "valid_owd (PushWithData (of_nat (length bytes)) (of_nat (nat_of_be bytes)))"
    using w l32 nat_of_be_bound [of bytes]
    by (simp add: valid_owd_def word_le_nat_alt word_less_nat_alt)
qed

lemma bytecode_collect_valid:
  "bytecode_collect (scan input) = (Inr ops :: (OpcodeWithData list, 'e) result) \<Longrightarrow>
     list_all valid_owd ops \<and> concat (map owd_bytes ops) = input"
proof (induction input arbitrary: ops rule: scan.induct)
  case 1
  then show ?case by simp
next
  case (2 b input)
  let ?n = "data_len (from_u8 b)"
  show ?case
  proof (cases "?n = 0")
    case True
    then have "\<not> is_push_with_data (from_u8 b)"
      by (auto simp: data_len_def is_push_with_data_from_u8 unat_eq_0)
    with True 2 show ?thesis
      by (auto simp: bytecode_collect_scan_Cons valid_owd_def owd_bytes_def simp del: scan.simps)
  next
    case False
    then have p: "is_push_with_data (from_u8 b)" by (auto simp: data_len_def split: if_splits)
    from False 2(2) have len: "length (take ?n input) = ?n"
      by (auto simp: bytecode_collect_scan_Cons Let_def not_less simp del: scan.simps split: if_splits)
    from False 2(2) obtain ops' where o:
      "bytecode_collect (scan (drop ?n input)) = (Inr ops' :: (OpcodeWithData list, 'e) result)"
      "ops = PushWithData (of_nat ?n) (of_nat (nat_of_be (take ?n input))) # ops'"
      by (auto simp: bytecode_collect_scan_Cons Let_def simp del: scan.simps split: if_splits)
    show ?thesis
      using 2(1) [OF o(1)] owd_bytes_push [OF p len] o(2) len by simp
  qed
qed

section \<open>Printing and parsing an assembler entry\<close>

text \<open>
  \<open>str::strip_prefix\<close> is \<open>strip_prefix\<close>; \<open>splitn(3, ['(', ')'])\<close> cuts at the first two parentheses;
  \<open>str::parse::<u8>\<close> takes an optional plus sign and at least one decimal digit.
\<close>

definition is_paren :: "char \<Rightarrow> bool" where
  "is_paren c = (c = CHR ''('' \<or> c = CHR '')'')"

fun splitn :: "nat \<Rightarrow> string \<Rightarrow> string list" where
  "splitn 0 s = []"
| "splitn (Suc 0) s = [s]"
| "splitn (Suc (Suc n)) s =
     (case dropWhile (\<lambda>c. \<not> is_paren c) s of
        [] \<Rightarrow> [s]
      | _ # rest \<Rightarrow> takeWhile (\<lambda>c. \<not> is_paren c) s # splitn (Suc n) rest)"

definition dec_digit :: "char \<Rightarrow> nat option" where
  "dec_digit c = (if 48 \<le> (of_char c :: nat) \<and> of_char c \<le> (57 :: nat) then Some (of_char c - 48) else None)"

fun parse_digits :: "nat \<Rightarrow> string \<Rightarrow> u8 option" where
  "parse_digits acc [] = Some (of_nat acc)"
| "parse_digits acc (c # s) =
     (case dec_digit c of
        None \<Rightarrow> None
      | Some d \<Rightarrow> if acc * 10 + d < 256 then parse_digits (acc * 10 + d) s else None)"

definition parse_u8 :: "string \<Rightarrow> u8 option" where
  "parse_u8 s =
     (let digits = (case s of c # s' \<Rightarrow> if c = CHR ''+'' then s' else s | [] \<Rightarrow> [])
      in if digits = [] then None else parse_digits 0 digits)"

definition owd_from_str ::
  "(string \<Rightarrow> nat \<Rightarrow> Word option) \<Rightarrow> string \<Rightarrow> (OpcodeWithData, bytecode_error) result" where
  "owd_from_str from_str_radix op =
     (let err = Inl (Err (InvalidAsmError op));
          opcode = (case from_str op of Inr opcode \<Rightarrow> Inr (Opcode opcode) | Inl (Panic m) \<Rightarrow> Inl (Panic m) | Inl _ \<Rightarrow> err)
      in case strip_prefix ''PUSH'' op of
           None \<Rightarrow> opcode
         | Some push \<Rightarrow>
             let n_value = splitn 3 push
             in case parse_u8 (n_value ! 0) of
                  None \<Rightarrow> err
                | Some n \<Rightarrow>
                    if 32 < n then err
                    else if 0 < n then
                      if length n_value \<le> 1 then Inl (Panic ''index out of bounds'')
                      else
                        case (if take 2 (n_value ! 1) = ''0x'' then from_str_radix (drop 2 (n_value ! 1)) 16
                              else from_str_radix (n_value ! 1) 10) of
                          None \<Rightarrow> err
                        | Some v \<Rightarrow> Inr (PushWithData n v)
                    else opcode)"

text \<open>The decimal text of a \<open>u8\<close>, and the text of an entry; the derived text of \<open>INVALID(b)\<close> shows the byte.\<close>

definition digit_char :: "nat \<Rightarrow> char" where
  "digit_char d = char_of (48 + d)"

definition u8_to_string :: "u8 \<Rightarrow> string" where
  "u8_to_string n = (let k = unat n in
     (if 100 \<le> k then [digit_char (k div 100)] else []) @
     (if 10 \<le> k then [digit_char (k div 10 mod 10)] else []) @ [digit_char (k mod 10)])"

definition opcode_debug :: "OpcodeId \<Rightarrow> string" where
  "opcode_debug op = (case op of
       INVALID b \<Rightarrow> ''INVALID('' @ u8_to_string b @ '')''
     | _ \<Rightarrow> (case opcode_name op of Some name \<Rightarrow> name | None \<Rightarrow> []))"

definition owd_to_string :: "(Word \<Rightarrow> string) \<Rightarrow> OpcodeWithData \<Rightarrow> string" where
  "owd_to_string display op = (case op of
       Opcode opcode \<Rightarrow> opcode_debug opcode
     | PushWithData n word \<Rightarrow> ''PUSH'' @ u8_to_string n @ ''('' @ display word @ '')'')"

lemma opcode_debug_name: "opcode_name op = Some s \<Longrightarrow> opcode_debug op = s"
  using opcode_name_INVALID [of op] by (cases op) (simp_all add: opcode_debug_def is_INVALID_def)

lemma of_char_digit_char: "d < 10 \<Longrightarrow> (of_char (digit_char d) :: nat) = 48 + d"
  by (simp add: digit_char_def)

lemma dec_digit_char [simp]: "d < 10 \<Longrightarrow> dec_digit (digit_char d) = Some d"
  by (simp add: dec_digit_def of_char_digit_char)

lemma dec_digit_not_paren: "dec_digit c = Some d \<Longrightarrow> \<not> is_paren c"
  by (auto simp: dec_digit_def is_paren_def)

lemma digit_char_not_plus: "d < 10 \<Longrightarrow> digit_char d \<noteq> CHR ''+''"
  using of_char_digit_char [of d] by auto

lemma parse_u8_to_string: "parse_u8 (u8_to_string n) = Some n"
proof -
  have n: "unat n < 256" by (rule unat_u8_less)
  consider "unat n < 10" | "10 \<le> unat n" "unat n < 100" | "100 \<le> unat n" by linarith
  then show ?thesis
  proof cases
    case 1
    then show ?thesis by (simp add: u8_to_string_def parse_u8_def Let_def digit_char_not_plus)
  next
    case 2
    then have "unat n div 10 mod 10 = unat n div 10" "unat n div 10 < 10" by simp_all
    with 2 show ?thesis by (simp add: u8_to_string_def parse_u8_def Let_def digit_char_not_plus)
  next
    case 3
    have d: "unat n div 100 < 10" "unat n div 10 mod 10 < 10" "unat n mod 10 < 10" using n by simp_all
    have hi: "unat n div 100 * 10 + unat n div 10 mod 10 = unat n div 10"
      using div_mult_mod_eq [of "unat n div 10" 10] by (simp add: div_mult2_eq [symmetric])
    have lo: "unat n div 10 * 10 + unat n mod 10 = unat n" by (rule div_mult_mod_eq)
    have "parse_digits 0 ([digit_char (unat n div 100)] @ [digit_char (unat n div 10 mod 10)] @ [digit_char (unat n mod 10)]) = Some n"
      using n d lo by (simp add: hi)
    then have "parse_digits 0 (u8_to_string n) = Some n" using 3 by (simp add: u8_to_string_def Let_def)
    then show ?thesis using 3 d by (simp add: parse_u8_def u8_to_string_def Let_def digit_char_not_plus)
  qed
qed

lemma digits_u8_to_string: "list_all (\<lambda>c. dec_digit c \<noteq> None) (u8_to_string n)"
proof -
  have "unat n div 100 < 10" using unat_u8_less [of n] by simp
  then show ?thesis by (simp add: u8_to_string_def Let_def)
qed

lemma splitn_digits:
  assumes "list_all (\<lambda>c. dec_digit c \<noteq> None) ds"
  shows "splitn (Suc (Suc n)) (ds @ c # rest) =
    (if is_paren c then ds # splitn (Suc n) rest else splitn (Suc (Suc n)) (ds @ c # rest))"
proof -
  have "\<forall>c \<in> set ds. \<not> is_paren c"
    using assms by (auto simp: list_all_iff dest: dec_digit_not_paren)
  then have "dropWhile (\<lambda>c. \<not> is_paren c) (ds @ c # rest) = c # rest"
    "takeWhile (\<lambda>c. \<not> is_paren c) (ds @ c # rest) = ds" if "is_paren c"
    using that by (simp_all add: dropWhile_append2 takeWhile_append2)
  then show ?thesis by simp
qed

lemma splitn_push:
  assumes "list_all (\<lambda>c. dec_digit c \<noteq> None) ds" and "list_all (\<lambda>c. dec_digit c \<noteq> None) vs"
  shows "splitn 3 (ds @ ''('' @ vs @ '')'') = [ds, vs, []]"
  using splitn_digits [OF assms(1), of 1 "CHR ''(''" "vs @ '')''"] splitn_digits [OF assms(2), of 0 "CHR '')''" "[]"]
  by (simp add: is_paren_def numeral_3_eq_3)

lemma push_names_table:
  "list_all (\<lambda>(s, op). is_push_with_data op \<or> strip_prefix ''PUSH'' s = None \<or> s = ''PUSH0'') from_str_table"
  by (simp add: from_str_table_def strip_prefix_def is_push_with_data_def as_u8_def)

lemma push_names:
  assumes "opcode_name op = Some s" and "\<not> is_push_with_data op"
  shows "strip_prefix ''PUSH'' s = None \<or> s = ''PUSH0''"
  using map_of_SomeD [OF from_str_table_complete [OF assms(1)]] push_names_table assms(2)
  by (auto simp: list_all_iff)

text \<open>No opcode is read from a text with a closing parenthesis, unless it is the report of an undefined opcode, which has a small \<open>o\<close>.\<close>

lemma undefined_opcode_none: "CHR ''o'' \<notin> set s \<Longrightarrow> undefined_opcode s = None"
  by (induction s rule: undefined_opcode.induct) (auto simp: strip_prefix_def)

lemma from_str_paren:
  assumes "CHR '')'' \<in> set s" and "CHR ''o'' \<notin> set s"
  shows "from_str s = Inl (Err (OpcodeParsing s))"
proof -
  have "list_all (\<lambda>(n, _). CHR '')'' \<notin> set n) from_str_table" by (simp add: from_str_table_def)
  then have "map_of from_str_table s = None" using assms(1) by (auto simp: map_of_eq_None_iff list_all_iff)
  then show ?thesis using undefined_opcode_none [OF assms(2)] by (simp add: from_str_def)
qed

lemma digits_no_letter: "list_all (\<lambda>c. dec_digit c \<noteq> None) ds \<Longrightarrow> CHR ''o'' \<notin> set ds"
  by (auto simp: list_all_iff dec_digit_def)

text \<open>The name of a push opcode without its value makes the parser read past the pieces of the text.\<close>

lemma plain_push_panics:
  assumes "is_push_with_data op" and "\<not> is_INVALID op"
  shows "owd_from_str from_str_radix (opcode_debug op) = Inl (Panic ''index out of bounds'')"
proof -
  have "\<exists>p. op = Push p" using assms by (cases op) (auto simp: is_push_with_data_def is_INVALID_def as_u8_def word_le_nat_alt split: ArithOp.splits FlowOp.splits DupOp.splits
      SwapOp.splits SysOp.splits ExtOp.splits LogOp.splits)
  then obtain p where p: "op = Push p" by blast
  show ?thesis
    using assms unfolding p
    by (cases p) (simp_all add: opcode_debug_def opcode_name_def owd_from_str_def strip_prefix_def Let_def is_paren_def numeral_3_eq_3
        parse_u8_def dec_digit_def is_push_with_data_def as_u8_def)
qed

section \<open>Properties of bytecode\<close>

text \<open>
  C35: reading a raw byte string keeps every byte, and marks a byte as an opcode exactly when no earlier
  opcode takes it as push data. Truncated push data at the end is accepted. Every element marked as an
  opcode is counted, and no marker is set.
\<close>

theorem from_bytes_spec:
  "code_bytes (from_bytes input) = input \<and>
   (let code = bc_code (from_bytes input)
    in (\<forall>i < length input. be_is_code (code ! i) \<longleftrightarrow>
          \<not> (\<exists>j < i. be_is_code (code ! j) \<and> i \<le> j + data_len (from_u8 (input ! j)))) \<and>
       bc_num_opcodes (from_bytes input) = length (filter be_is_code code)) \<and>
   bc_markers (from_bytes input) = []"
  using scan_not_data [of _ input] by (simp add: from_bytes_scan code_bytes_def Let_def)

theorem from_bytes_spec_witness:
  "(3 :: nat) < length [0x61, 0x60, 0x5b, 0x5b :: u8] \<and>
   (be_is_code (bc_code (from_bytes [0x61, 0x60, 0x5b, 0x5b]) ! 3) \<longleftrightarrow>
     \<not> (\<exists>j < 3. be_is_code (bc_code (from_bytes [0x61, 0x60, 0x5b, 0x5b]) ! j) \<and>
           3 \<le> j + data_len (from_u8 ([0x61, 0x60, 0x5b, 0x5b] ! j))))"
  using from_bytes_spec [of "[0x61, 0x60, 0x5b, 0x5b]"] by (simp add: Let_def)

text \<open>
  C33: assembling a list of entries (known opcodes without data, pushes of 1 to 32 bytes whose value fits)
  never fails; the bytes read back as the same bytecode, and the iterator returns the entries.
\<close>

theorem assemble_roundtrip:
  assumes "list_all valid_owd ops"
  shows "\<exists>bc. foldE append_op ops bytecode_default = Inr bc \<and>
    from_bytes (code_bytes bc) = bc \<and> bytecode_iter bc = Inr ops \<and> bc_num_opcodes bc = length ops"
proof -
  let ?input = "concat (map owd_bytes ops)"
  let ?bc = "\<lparr>bc_code = scan ?input, bc_num_opcodes = length ops, bc_markers = []\<rparr>"
  have "foldE append_op ops bytecode_default = Inr ?bc"
    using append_ops_valid [OF assms, of bytecode_default] by (simp add: bytecode_default_def)
  moreover have "from_bytes (code_bytes ?bc) = ?bc"
    by (simp add: code_bytes_def from_bytes_scan count_owds [OF assms])
  moreover have "bytecode_iter ?bc = Inr ops"
    using bytecode_collect_ops [OF assms] by (simp add: bytecode_iter_def)
  ultimately show ?thesis by (intro exI [of _ ?bc]) simp
qed

text \<open>The assembler entries of the test \<open>test_bytecode_roundtrip\<close>, abridged: \<open>PUSH0 PUSH8(0x123) MUL STOP\<close>.\<close>

theorem assemble_roundtrip_witness:
  "list_all valid_owd [Opcode (Push PUSH0), PushWithData 8 0x123, Opcode (Arith MUL), Opcode (Arith STOP)] \<and>
   (\<exists>bc. foldE append_op [Opcode (Push PUSH0), PushWithData 8 0x123, Opcode (Arith MUL), Opcode (Arith STOP)]
            bytecode_default = Inr bc \<and>
      from_bytes (code_bytes bc) = bc \<and> bc_num_opcodes bc = 4)"
proof -
  have h: "list_all valid_owd [Opcode (Push PUSH0), PushWithData 8 0x123, Opcode (Arith MUL), Opcode (Arith STOP)]"
    using from_u8_as_u8 [of "Push PUSH0"] from_u8_as_u8 [of "Arith MUL"] from_u8_as_u8 [of "Arith STOP"]
    by (simp add: valid_owd_def is_INVALID_def is_push_with_data_def as_u8_def)
  then show ?thesis using assemble_roundtrip [OF h] by auto
qed

text \<open>
  C34: the iterator over the elements of raw bytes succeeds exactly on the output of the assembler: it
  returns \<open>ops\<close> if and only if \<open>ops\<close> are valid entries that assemble to this bytecode. On truncated push
  data, which the reader accepts, it panics.
\<close>

theorem disassemble_roundtrip:
  "(bytecode_iter (from_bytes input) = (Inr ops :: (OpcodeWithData list, 'e) result) \<longleftrightarrow>
      list_all valid_owd ops \<and> foldE append_op ops bytecode_default = Inr (from_bytes input)) \<and>
   bytecode_iter (from_bytes [0x61, 0x01]) =
     (Inl (Panic ''called Option::unwrap() on a None value'') :: (OpcodeWithData list, 'e) result)"
proof (intro conjI iffI)
  assume "bytecode_iter (from_bytes input) = (Inr ops :: (OpcodeWithData list, 'e) result)"
  then have o: "list_all valid_owd ops" "concat (map owd_bytes ops) = input"
    using bytecode_collect_valid [where 'e = 'e, of input ops] by (simp_all add: bytecode_iter_def from_bytes_scan)
  then show "list_all valid_owd ops" "foldE append_op ops bytecode_default = Inr (from_bytes input)"
    using append_ops_valid [of ops bytecode_default] count_owds [of ops]
    by (simp_all add: bytecode_default_def from_bytes_scan)
next
  assume o: "list_all valid_owd ops \<and> foldE append_op ops bytecode_default = Inr (from_bytes input)"
  then have "scan (concat (map owd_bytes ops)) = scan input"
    using append_ops_valid [of ops bytecode_default] by (simp add: bytecode_default_def from_bytes_scan)
  then show "bytecode_iter (from_bytes input) = (Inr ops :: (OpcodeWithData list, 'e) result)"
    using o bytecode_collect_ops [of ops] by (simp add: bytecode_iter_def from_bytes_scan)
next
  have "data_len (from_u8 0x61) = 2" by (simp add: data_len_def is_push_with_data_from_u8)
  then show "bytecode_iter (from_bytes [0x61, 0x01]) =
     (Inl (Panic ''called Option::unwrap() on a None value'') :: (OpcodeWithData list, 'e) result)"
    by (simp add: bytecode_iter_def from_bytes_scan bytecode_collect_scan_Cons Let_def del: scan.simps)
qed

text \<open>
  C36: what the text of an assembler entry parses to, for every entry, given that the decimal printer and parser of 256-bit integers are inverse
  and print digits only. An opcode that is neither \<open>INVALID\<close> nor a push with data, and a push of 1 to 32 bytes with its value, parse back to themselves.
  The other entries do not: \<open>INVALID(b)\<close> and a push of a size out of range print a text that the parser rejects, and a push opcode without its
  value prints a text on which the parser panics.
\<close>

theorem owd_text_roundtrip:
  assumes decimal_inverse: "\<forall>w. from_str_radix (display w) 10 = Some w"
    and decimal_digits: "\<forall>w. list_all (\<lambda>c. dec_digit c \<noteq> None) (display w)"
  shows "owd_from_str from_str_radix (owd_to_string display op) = (case op of
      Opcode opcode \<Rightarrow> if is_INVALID opcode then Inl (Err (InvalidAsmError (owd_to_string display op)))
        else if is_push_with_data opcode then Inl (Panic ''index out of bounds'') else Inr op
    | PushWithData n w \<Rightarrow> if 0 < n \<and> n \<le> 32 then Inr op else Inl (Err (InvalidAsmError (owd_to_string display op))))"
proof (cases op)
  case (Opcode o')
  consider b where "o' = INVALID b" | "\<not> is_INVALID o'" "is_push_with_data o'" | "\<not> is_INVALID o'" "\<not> is_push_with_data o'"
    by (cases o') (auto simp: is_INVALID_def)
  then show ?thesis
  proof cases
    case (1 b)
    let ?s = "''INVALID('' @ u8_to_string b @ '')''"
    have "from_str ?s = Inl (Err (OpcodeParsing ?s))"
      using digits_no_letter [OF digits_u8_to_string, of b] by (intro from_str_paren) auto
    then show ?thesis
      by (simp add: Opcode 1 owd_to_string_def opcode_debug_def owd_from_str_def strip_prefix_def is_INVALID_def)
  next
    case 2
    then show ?thesis using plain_push_panics by (simp add: Opcode owd_to_string_def)
  next
    case 3
    then obtain s where s: "opcode_name o' = Some s" using opcode_name_INVALID [of o'] by auto
    then have f: "from_str s = Inr o'" by (simp add: from_str_def from_str_table_complete)
    have z: "parse_u8 ''0'' = Some 0" by (simp add: parse_u8_def dec_digit_def)
    have "splitn 3 ''0'' = [''0'']" by (simp add: numeral_3_eq_3 is_paren_def)
    then show ?thesis
      using push_names [OF s 3(2)] 3 f z opcode_debug_name [OF s]
      by (auto simp: Opcode owd_to_string_def owd_from_str_def Let_def strip_prefix_def [of _ "''PUSH0''"])
  qed
next
  case (PushWithData n w)
  have no_hex: "take 2 (display w) \<noteq> ''0x''"
  proof
    assume "take 2 (display w) = ''0x''"
    then have "CHR ''x'' \<in> set (display w)" by (metis in_set_takeD list.set_intros)
    then show False using decimal_digits by (force simp: list_all_iff dec_digit_def)
  qed
  let ?s = "''PUSH'' @ u8_to_string n @ ''('' @ display w @ '')''"
  have reject: "from_str ?s = Inl (Err (OpcodeParsing ?s))"
    using digits_no_letter [OF digits_u8_to_string, of n] digits_no_letter decimal_digits by (intro from_str_paren) auto
  have le: "n \<le> 32 \<longleftrightarrow> \<not> 32 < n" by (simp add: not_less)
  show ?thesis
    unfolding PushWithData OpcodeWithData.case le
    using no_hex decimal_inverse splitn_push [OF digits_u8_to_string, of "display w" n] decimal_digits reject
    by (simp add: owd_to_string_def owd_from_str_def Let_def strip_prefix_def parse_u8_to_string del: not_less)
qed

text \<open>Decimal printing and parsing of 256-bit integers, to instantiate the parameters.\<close>

fun dec_string :: "nat \<Rightarrow> string" where
  "dec_string n = (if n < 10 then [digit_char n] else dec_string (n div 10) @ [digit_char (n mod 10)])"

declare dec_string.simps [simp del]

definition dec_value :: "string \<Rightarrow> nat" where
  "dec_value s = foldl (\<lambda>a c. a * 10 + the (dec_digit c)) 0 s"

lemma dec_value_string: "dec_value (dec_string n) = n"
proof (induction n rule: dec_string.induct)
  case (1 n)
  have snoc: "dec_value (s @ [c]) = dec_value s * 10 + the (dec_digit c)" for s c
    by (simp add: dec_value_def)
  show ?case
    using 1 by (cases "n < 10") (simp_all add: dec_string.simps [of n] snoc, simp add: dec_value_def)
qed

lemma digits_dec_string: "list_all (\<lambda>c. dec_digit c \<noteq> None) (dec_string n)"
proof (induction n rule: dec_string.induct)
  case (1 n)
  then show ?case by (cases "n < 10") (simp_all add: dec_string.simps [of n])
qed

theorem owd_text_roundtrip_witness:
  "owd_from_str (\<lambda>s _. Some (of_nat (dec_value s))) (owd_to_string (\<lambda>w. dec_string (unat w)) (PushWithData 2 300)) = Inr (PushWithData 2 300)"
  using owd_text_roundtrip [of "\<lambda>s _. Some (of_nat (dec_value s))" "\<lambda>w. dec_string (unat w)" "PushWithData 2 300"]
  by (simp add: dec_value_string digits_dec_string del: not_None_eq)

end
