(* ===== verification/State_Db.thy ===== *)
theory State_Db
  imports Bytecode "HOL-Library.AList"
begin

text \<open>
  The in-memory state of the bus mapping, \<^verbatim>\<open>bus-mapping/src/state_db.rs\<close>: the code database, accounts and the
  state database with its transaction-scoped part.

  The hash function \<open>keccak256\<close> is third-party code: the parameter \<open>k\<close>. A hash map the code only looks up is a
  map; one the code iterates (\<open>dirty_storage\<close>, the code database) is an association list with distinct keys,
  in the order of the iteration; the set \<open>destructed_account\<close>, iterated too, is a list. A \<open>&mut\<close> to an entry is
  the entry together with the database in which it is present; writing through it is \<open>set_account\<close>.
\<close>

section \<open>Code database\<close>

type_synonym keccak = "u8 list \<Rightarrow> Hash"
type_synonym CodeDB = "(Hash \<times> u8 list) list"

definition code_hash_of :: "keccak \<Rightarrow> u8 list \<Rightarrow> Hash" where
  "code_hash_of k code = k code"

definition empty_code_hash :: "keccak \<Rightarrow> Hash" where
  "empty_code_hash k = code_hash_of k []"

definition codedb_insert :: "keccak \<Rightarrow> u8 list \<Rightarrow> CodeDB \<Rightarrow> Hash \<times> CodeDB" where
  "codedb_insert k code db = (let hash = code_hash_of k code in (hash, AList.update hash code db))"

definition num_rows_required_for_bytecode_table :: "CodeDB \<Rightarrow> usize" where
  "num_rows_required_for_bytecode_table db = sum_list (map (\<lambda>(_, bytecode). length bytecode + 1) db)"

definition get_from_h256 :: "CodeDB \<Rightarrow> Hash \<Rightarrow> Bytecode option" where
  "get_from_h256 db codehash = map_option from_bytes (map_of db codehash)"

definition get_from_u256 :: "CodeDB \<Rightarrow> Word \<Rightarrow> Bytecode option" where
  "get_from_u256 db codehash = get_from_h256 db codehash"

definition codedb_from :: "keccak \<Rightarrow> u8 list list \<Rightarrow> CodeDB" where
  "codedb_from k bytecodes = fold (\<lambda>bytecode db. AList.update (code_hash_of k bytecode) bytecode db) bytecodes []"

definition codedb_into_iter :: "CodeDB \<Rightarrow> Bytecode list" where
  "codedb_into_iter db = map (\<lambda>(_, bytecode). from_bytes bytecode) db"

section \<open>Accounts\<close>

record Account =
  nonce :: u64
  balance :: Word
  storage :: "Word \<rightharpoonup> Word"
  code_hash :: Hash

definition account_zero :: "keccak \<Rightarrow> Account" where
  "account_zero k = \<lparr>nonce = 0, balance = 0, storage = Map.empty, code_hash = empty_code_hash k\<rparr>"

definition is_empty :: "keccak \<Rightarrow> Account \<Rightarrow> bool" where
  "is_empty k acc \<longleftrightarrow> nonce acc = 0 \<and> balance acc = 0 \<and> code_hash acc = empty_code_hash k"

text \<open>\<open>geth_types::Account\<close>, and its conversion.\<close>

record GethAccount =
  ga_nonce :: Word
  ga_balance :: Word
  ga_code :: "u8 list"
  ga_storage :: "Word \<rightharpoonup> Word"

definition account_from :: "keccak \<Rightarrow> GethAccount \<Rightarrow> (Account, 'e) result" where
  "account_from k account =
     bindE (u256_as_u64 (ga_nonce account)) (\<lambda>n.
       Inr \<lparr>nonce = n, balance = ga_balance account, storage = ga_storage account,
            code_hash = code_hash_of k (ga_code account)\<rparr>)"

section \<open>State database\<close>

record StateDB =
  state :: "Address \<rightharpoonup> Account"
  access_list_account :: "Address set"
  access_list_account_storage :: "(Address \<times> Word) set"
  dirty_storage :: "((Address \<times> Word) \<times> Word) list"
  destructed_account :: "Address list"
  refund :: u64

definition sdb_new :: StateDB where
  "sdb_new = \<lparr>state = Map.empty, access_list_account = {}, access_list_account_storage = {},
     dirty_storage = [], destructed_account = [], refund = 0\<rparr>"

definition set_account :: "Address \<Rightarrow> Account \<Rightarrow> StateDB \<Rightarrow> StateDB" where
  "set_account addr acc sdb = sdb\<lparr>state := (state sdb)(addr \<mapsto> acc)\<rparr>"

definition get_account :: "keccak \<Rightarrow> StateDB \<Rightarrow> Address \<Rightarrow> bool \<times> Account" where
  "get_account k sdb addr = (case state sdb addr of Some acc \<Rightarrow> (True, acc) | None \<Rightarrow> (False, account_zero k))"

definition get_account_mut :: "keccak \<Rightarrow> Address \<Rightarrow> StateDB \<Rightarrow> bool \<times> Account \<times> StateDB" where
  "get_account_mut k addr sdb = (case state sdb addr of
       Some acc \<Rightarrow> (True, acc, sdb)
     | None \<Rightarrow> (False, account_zero k, set_account addr (account_zero k) sdb))"

definition get_committed_storage :: "keccak \<Rightarrow> StateDB \<Rightarrow> Address \<Rightarrow> Word \<Rightarrow> bool \<times> Word" where
  "get_committed_storage k sdb addr key =
     (let (_, acc) = get_account k sdb addr
      in case storage acc key of Some v \<Rightarrow> (True, v) | None \<Rightarrow> (False, 0))"

definition get_storage :: "keccak \<Rightarrow> StateDB \<Rightarrow> Address \<Rightarrow> Word \<Rightarrow> bool \<times> Word" where
  "get_storage k sdb addr key = (case map_of (dirty_storage sdb) (addr, key) of
       Some v \<Rightarrow> (True, v)
     | None \<Rightarrow> get_committed_storage k sdb addr key)"

text \<open>\<open>*get_storage_mut(addr, key).1 = value\<close>: the account and the key are created when missing.\<close>

definition get_storage_mut :: "keccak \<Rightarrow> Address \<Rightarrow> Word \<Rightarrow> StateDB \<Rightarrow> bool \<times> Word \<times> StateDB" where
  "get_storage_mut k addr key sdb =
     (let (_, acc, sdb) = get_account_mut k addr sdb
      in case storage acc key of
           Some v \<Rightarrow> (True, v, sdb)
         | None \<Rightarrow> (False, 0, set_account addr (acc\<lparr>storage := (storage acc)(key \<mapsto> 0)\<rparr>) sdb))"

definition write_storage_mut :: "keccak \<Rightarrow> Address \<Rightarrow> Word \<Rightarrow> Word \<Rightarrow> StateDB \<Rightarrow> StateDB" where
  "write_storage_mut k addr key v sdb =
     (let (_, _, sdb) = get_storage_mut k addr key sdb; (_, acc) = get_account k sdb addr
      in set_account addr (acc\<lparr>storage := (storage acc)(key \<mapsto> v)\<rparr>) sdb)"

definition set_storage :: "Address \<Rightarrow> Word \<Rightarrow> Word \<Rightarrow> StateDB \<Rightarrow> StateDB" where
  "set_storage addr key v sdb = sdb\<lparr>dirty_storage := AList.update (addr, key) v (dirty_storage sdb)\<rparr>"

definition get_nonce :: "keccak \<Rightarrow> StateDB \<Rightarrow> Address \<Rightarrow> u64" where
  "get_nonce k sdb addr = nonce (snd (get_account k sdb addr))"

definition get_balance :: "keccak \<Rightarrow> StateDB \<Rightarrow> Address \<Rightarrow> Word" where
  "get_balance k sdb addr = balance (snd (get_account k sdb addr))"

definition increase_nonce :: "keccak \<Rightarrow> Address \<Rightarrow> StateDB \<Rightarrow> (u64 \<times> StateDB, 'e) result" where
  "increase_nonce k addr sdb =
     (let (_, acc, sdb) = get_account_mut k addr sdb
      in bindE (u64_add (nonce acc) 1) (\<lambda>n. Inr (nonce acc, set_account addr (acc\<lparr>nonce := n\<rparr>) sdb)))"

definition check_account_in_access_list :: "StateDB \<Rightarrow> Address \<Rightarrow> bool" where
  "check_account_in_access_list sdb addr = (addr \<in> access_list_account sdb)"

definition add_account_to_access_list :: "Address \<Rightarrow> StateDB \<Rightarrow> bool \<times> StateDB" where
  "add_account_to_access_list addr sdb =
     (addr \<notin> access_list_account sdb, sdb\<lparr>access_list_account := insert addr (access_list_account sdb)\<rparr>)"

definition remove_account_from_access_list :: "Address \<Rightarrow> StateDB \<Rightarrow> (StateDB, 'e) result" where
  "remove_account_from_access_list addr sdb =
     (if addr \<in> access_list_account sdb
      then Inr (sdb\<lparr>access_list_account := access_list_account sdb - {addr}\<rparr>)
      else Inl (Panic ''assertion failed: exist''))"

definition check_account_storage_in_access_list :: "StateDB \<Rightarrow> Address \<times> Word \<Rightarrow> bool" where
  "check_account_storage_in_access_list sdb pair = (pair \<in> access_list_account_storage sdb)"

definition add_account_storage_to_access_list :: "Address \<times> Word \<Rightarrow> StateDB \<Rightarrow> bool \<times> StateDB" where
  "add_account_storage_to_access_list pair sdb =
     (pair \<notin> access_list_account_storage sdb,
      sdb\<lparr>access_list_account_storage := insert pair (access_list_account_storage sdb)\<rparr>)"

definition remove_account_storage_from_access_list :: "Address \<times> Word \<Rightarrow> StateDB \<Rightarrow> (StateDB, 'e) result" where
  "remove_account_storage_from_access_list pair sdb =
     (if pair \<in> access_list_account_storage sdb
      then Inr (sdb\<lparr>access_list_account_storage := access_list_account_storage sdb - {pair}\<rparr>)
      else Inl (Panic ''assertion failed: exist''))"

definition destruct_account :: "Address \<Rightarrow> StateDB \<Rightarrow> StateDB" where
  "destruct_account addr sdb = sdb\<lparr>destructed_account := List.insert addr (destructed_account sdb)\<rparr>"

definition set_refund :: "u64 \<Rightarrow> StateDB \<Rightarrow> StateDB" where
  "set_refund v sdb = sdb\<lparr>refund := v\<rparr>"

definition commit_tx :: "keccak \<Rightarrow> StateDB \<Rightarrow> StateDB" where
  "commit_tx k sdb =
     (let sdb = sdb\<lparr>access_list_account := {}, access_list_account_storage := {}\<rparr>;
          sdb = fold (\<lambda>((addr, key), v) sdb. write_storage_mut k addr key v sdb) (dirty_storage sdb) sdb;
          sdb = sdb\<lparr>dirty_storage := []\<rparr>;
          sdb = fold (\<lambda>addr sdb. let (_, _, sdb) = get_account_mut k addr sdb
                                 in set_account addr (account_zero k) sdb) (destructed_account sdb) sdb
      in sdb\<lparr>refund := 0\<rparr>)"

section \<open>Lemmas\<close>

lemma snd_get_account: "snd (get_account k sdb addr) = (case state sdb addr of Some acc \<Rightarrow> acc | None \<Rightarrow> account_zero k)"
  by (simp add: get_account_def split: option.split)

lemma get_account_set_account [simp]:
  "get_account k (set_account addr acc sdb) addr' = (if addr' = addr then (True, acc) else get_account k sdb addr')"
  by (simp add: get_account_def set_account_def)

lemma get_account_mut_eq:
  "get_account_mut k addr sdb =
     (let (found, acc) = get_account k sdb addr in (found, acc, if found then sdb else set_account addr acc sdb))"
  by (simp add: get_account_mut_def get_account_def split: option.split)

lemma set_account_absorb [simp]: "set_account addr acc (set_account addr acc' sdb) = set_account addr acc sdb"
  by (simp add: set_account_def)

lemma set_account_fields [simp]:
  "access_list_account (set_account addr acc sdb) = access_list_account sdb"
  "access_list_account_storage (set_account addr acc sdb) = access_list_account_storage sdb"
  "dirty_storage (set_account addr acc sdb) = dirty_storage sdb"
  "destructed_account (set_account addr acc sdb) = destructed_account sdb"
  "refund (set_account addr acc sdb) = refund sdb"
  "state (set_account addr acc sdb) = (state sdb)(addr \<mapsto> acc)"
  by (simp_all add: set_account_def)

lemma get_account_cong: "state sdb = state sdb' \<Longrightarrow> get_account k sdb addr = get_account k sdb' addr"
  by (simp add: get_account_def)

text \<open>Writing through the reference of \<open>get_storage_mut\<close> sets one storage slot and nothing else.\<close>

lemma write_storage_mut_eq:
  "write_storage_mut k addr key v sdb =
     (let acc = snd (get_account k sdb addr) in set_account addr (acc\<lparr>storage := (storage acc)(key \<mapsto> v)\<rparr>) sdb)"
  by (auto simp: write_storage_mut_def get_storage_mut_def get_account_mut_eq Let_def split: prod.splits option.splits
      intro: arg_cong)

definition commit_storage :: "keccak \<Rightarrow> ((Address \<times> Word) \<times> Word) list \<Rightarrow> StateDB \<Rightarrow> StateDB" where
  "commit_storage k ds sdb = fold (\<lambda>((addr, key), v) sdb. write_storage_mut k addr key v sdb) ds sdb"

definition reset_accounts :: "keccak \<Rightarrow> Address list \<Rightarrow> StateDB \<Rightarrow> StateDB" where
  "reset_accounts k as sdb =
     fold (\<lambda>addr sdb. let (_, _, sdb) = get_account_mut k addr sdb in set_account addr (account_zero k) sdb) as sdb"

lemma write_storage_mut_fields [simp]:
  "access_list_account (write_storage_mut k addr key v sdb) = access_list_account sdb"
  "access_list_account_storage (write_storage_mut k addr key v sdb) = access_list_account_storage sdb"
  "dirty_storage (write_storage_mut k addr key v sdb) = dirty_storage sdb"
  "destructed_account (write_storage_mut k addr key v sdb) = destructed_account sdb"
  "refund (write_storage_mut k addr key v sdb) = refund sdb"
  by (simp_all add: write_storage_mut_eq Let_def)

lemma commit_storage_fields [simp]:
  "access_list_account (commit_storage k ds sdb) = access_list_account sdb"
  "access_list_account_storage (commit_storage k ds sdb) = access_list_account_storage sdb"
  "dirty_storage (commit_storage k ds sdb) = dirty_storage sdb"
  "destructed_account (commit_storage k ds sdb) = destructed_account sdb"
  "refund (commit_storage k ds sdb) = refund sdb"
  unfolding commit_storage_def by (induction ds arbitrary: sdb) (simp_all split: prod.splits)

lemma reset_accounts_Cons: "reset_accounts k (a # as) sdb = reset_accounts k as (set_account a (account_zero k) sdb)"
  by (simp add: reset_accounts_def get_account_mut_eq Let_def split: prod.splits)

lemma reset_accounts_fields [simp]:
  "access_list_account (reset_accounts k as sdb) = access_list_account sdb"
  "access_list_account_storage (reset_accounts k as sdb) = access_list_account_storage sdb"
  "dirty_storage (reset_accounts k as sdb) = dirty_storage sdb"
  "destructed_account (reset_accounts k as sdb) = destructed_account sdb"
  "refund (reset_accounts k as sdb) = refund sdb"
  by (induction as arbitrary: sdb) (simp_all add: reset_accounts_Cons, simp_all add: reset_accounts_def)

lemma commit_tx_eq:
  "commit_tx k sdb =
     (reset_accounts k (destructed_account sdb)
        ((commit_storage k (dirty_storage sdb)
            (sdb\<lparr>access_list_account := {}, access_list_account_storage := {}\<rparr>))\<lparr>dirty_storage := []\<rparr>))\<lparr>refund := 0\<rparr>"
  by (simp add: commit_tx_def Let_def commit_storage_def [symmetric] reset_accounts_def)

lemma get_account_commit_storage:
  assumes "distinct (map fst ds)"
  shows "snd (get_account k (commit_storage k ds sdb) a) =
    (let acc = snd (get_account k sdb a) in acc\<lparr>storage := storage acc ++ (\<lambda>key. map_of ds (a, key))\<rparr>)"
  using assms
proof (induction ds arbitrary: sdb)
  case Nil
  then show ?case by (simp add: commit_storage_def Let_def Map.map_add_def)
next
  case (Cons d ds)
  obtain addr key v where d: "d = ((addr, key), v)" by (metis surj_pair)
  have n: "map_of ds (addr, key) = None"
    using Cons.prems d by (force simp: map_of_eq_None_iff)
  have e: "commit_storage k (d # ds) sdb = commit_storage k ds (write_storage_mut k addr key v sdb)"
    by (simp add: commit_storage_def d)
  show ?case
  proof (cases "a = addr")
    case True
    have "m(key \<mapsto> v) ++ (\<lambda>x. map_of ds (addr, x)) = m ++ (\<lambda>x. map_of (d # ds) (addr, x))" for m
      using n by (auto simp: d fun_eq_iff map_add_def split: option.splits)
    with Cons True show ?thesis
      by (simp add: e write_storage_mut_eq Let_def)
  next
    case False
    then have "(\<lambda>x. map_of (d # ds) (a, x)) = (\<lambda>x. map_of ds (a, x))" by (auto simp: d)
    with Cons False show ?thesis
      by (simp add: e write_storage_mut_eq Let_def)
  qed
qed

lemma get_account_reset_accounts:
  "snd (get_account k (reset_accounts k as sdb) a) = (if a \<in> set as then account_zero k else snd (get_account k sdb a))"
proof (induction as arbitrary: sdb)
  case (Cons b as)
  then show ?case by (simp add: reset_accounts_Cons)
qed (simp add: reset_accounts_def)

lemma get_account_commit_tx:
  assumes "distinct (map fst (dirty_storage sdb))"
  shows "snd (get_account k (commit_tx k sdb) a) =
    (if a \<in> set (destructed_account sdb) then account_zero k
     else let acc = snd (get_account k sdb a)
          in acc\<lparr>storage := storage acc ++ (\<lambda>key. map_of (dirty_storage sdb) (a, key))\<rparr>)"
proof -
  have "get_account k (commit_tx k sdb) a =
      get_account k (reset_accounts k (destructed_account sdb)
        ((commit_storage k (dirty_storage sdb)
            (sdb\<lparr>access_list_account := {}, access_list_account_storage := {}\<rparr>))\<lparr>dirty_storage := []\<rparr>)) a"
    by (rule get_account_cong) (simp add: commit_tx_eq)
  also have "snd \<dots> = (if a \<in> set (destructed_account sdb) then account_zero k
      else snd (get_account k (commit_storage k (dirty_storage sdb)
            (sdb\<lparr>access_list_account := {}, access_list_account_storage := {}\<rparr>)) a))"
    unfolding get_account_reset_accounts by (simp add: get_account_def)
  finally show ?thesis
    using get_account_commit_storage [OF assms, of k
        "sdb\<lparr>access_list_account := {}, access_list_account_storage := {}\<rparr>" a]
    by (simp add: get_account_def)
qed

lemma commit_tx_fields [simp]:
  "access_list_account (commit_tx k sdb) = {}"
  "access_list_account_storage (commit_tx k sdb) = {}"
  "dirty_storage (commit_tx k sdb) = []"
  "destructed_account (commit_tx k sdb) = destructed_account sdb"
  "refund (commit_tx k sdb) = 0"
  by (simp_all add: commit_tx_eq)

text \<open>The keys of the dirty storage stay distinct.\<close>

definition sdb_wf :: "StateDB \<Rightarrow> bool" where
  "sdb_wf sdb \<longleftrightarrow> distinct (map fst (dirty_storage sdb)) \<and> distinct (destructed_account sdb)"

lemma sdb_wf_intros [inv_intros]:
  "sdb_wf sdb_new"
  "sdb_wf sdb \<Longrightarrow> sdb_wf (set_account addr acc sdb)"
  "sdb_wf sdb \<Longrightarrow> sdb_wf (set_storage addr key v sdb)"
  "sdb_wf sdb \<Longrightarrow> sdb_wf (destruct_account addr sdb)"
  "sdb_wf sdb \<Longrightarrow> sdb_wf (set_refund r sdb)"
  "sdb_wf sdb \<Longrightarrow> sdb_wf (commit_tx k sdb)"
  by (simp_all add: sdb_wf_def sdb_new_def set_storage_def destruct_account_def set_refund_def distinct_update)

section \<open>Properties\<close>

text \<open>
  C28: what \<open>commit_tx\<close> does to a database that lists no dirty slot and no destructed account twice. Every storage slot of the committed state then holds the value the
  transaction saw last (zero for an account in \<open>destructed_account\<close>), nonce, balance and code hash are unchanged (reset for an account in
  \<open>destructed_account\<close>), the two access lists and the dirty storage are empty and the refund is zero. The list \<open>destructed_account\<close> is not
  cleared: it is kept as it was.
\<close>

theorem commit_tx_spec:
  assumes "sdb_wf sdb"
  shows "let sdb' = commit_tx k sdb in
    (\<forall>a key. snd (get_committed_storage k sdb' a key) =
       (if a \<in> set (destructed_account sdb) then 0 else snd (get_storage k sdb a key))) \<and>
    (\<forall>a. let acc = snd (get_account k sdb a); acc' = snd (get_account k sdb' a)
         in if a \<in> set (destructed_account sdb) then acc' = account_zero k
            else nonce acc' = nonce acc \<and> balance acc' = balance acc \<and> code_hash acc' = code_hash acc) \<and>
    get_storage k sdb' = get_committed_storage k sdb' \<and>
    access_list_account sdb' = {} \<and> access_list_account_storage sdb' = {} \<and> refund sdb' = 0 \<and>
    dirty_storage sdb' = [] \<and> destructed_account sdb' = destructed_account sdb"
proof -
  have d: "distinct (map fst (dirty_storage sdb))" using assms by (simp add: sdb_wf_def)
  have g: "snd (get_committed_storage k sdb a key) = (case storage (snd (get_account k sdb a)) key of Some v \<Rightarrow> v | None \<Rightarrow> 0)"
    for sdb a key
    by (simp add: get_committed_storage_def split: prod.split option.split)
  have "snd (get_committed_storage k (commit_tx k sdb) a key) =
       (if a \<in> set (destructed_account sdb) then 0 else snd (get_storage k sdb a key))" for a key
    by (simp add: g get_account_commit_tx [OF d] Let_def account_zero_def get_storage_def map_add_def split: option.split)
  moreover have "get_storage k (commit_tx k sdb) = get_committed_storage k (commit_tx k sdb)"
    by (simp add: get_storage_def fun_eq_iff)
  ultimately show ?thesis by (simp add: Let_def get_account_commit_tx [OF d])
qed

theorem commit_tx_spec_witness:
  "let sdb = set_storage 1 2 3 (set_refund 9 sdb_new); sdb' = commit_tx (\<lambda>_. 0) sdb
   in sdb_wf sdb \<and> snd (get_committed_storage (\<lambda>_. 0) sdb' 1 2) = 3 \<and> refund sdb' = 0"
proof -
  let ?sdb = "set_storage 1 2 3 (set_refund 9 sdb_new)"
  have h: "sdb_wf ?sdb" by (intro sdb_wf_intros)
  have "snd (get_storage (\<lambda>_. 0) ?sdb 1 2) = 3" "destructed_account ?sdb = []"
    by (simp_all add: get_storage_def set_storage_def set_refund_def sdb_new_def)
  then show ?thesis using h commit_tx_spec [OF h, of "\<lambda>_. 0"] by (simp add: Let_def)
qed

text \<open>
  C29: \<open>commit_tx\<close> keeps the set of destructed accounts, although its fields are documented to live for one
  transaction. So an account destructed in one transaction is reset again at the end of every later one:
  whatever nonce, balance or code it is given there is lost when that transaction commits.
\<close>

theorem commit_tx_resets_again:
  assumes "sdb_wf sdb" and "a \<in> set (destructed_account sdb)"
  shows "snd (get_account k (commit_tx k (set_account a acc (commit_tx k sdb))) a) = account_zero k"
proof -
  have "sdb_wf (set_account a acc (commit_tx k sdb))"
    using assms(1) by (intro sdb_wf_intros)
  then show ?thesis
    using assms(2) by (simp add: sdb_wf_def get_account_commit_tx)
qed

theorem commit_tx_resets_again_witness:
  "let sdb = destruct_account 7 sdb_new;
       acc = account_zero (\<lambda>_. 5)\<lparr>balance := 100\<rparr>
   in sdb_wf sdb \<and> 7 \<in> set (destructed_account sdb) \<and>
      balance (snd (get_account (\<lambda>_. 5) (commit_tx (\<lambda>_. 5) (set_account 7 acc (commit_tx (\<lambda>_. 5) sdb))) 7)) = 0"
proof -
  have h: "sdb_wf (destruct_account 7 sdb_new)" "7 \<in> set (destructed_account (destruct_account 7 sdb_new))"
    by (intro sdb_wf_intros) (simp add: destruct_account_def)
  show ?thesis
    using h commit_tx_resets_again [OF h, of "\<lambda>_. 5" "account_zero (\<lambda>_. 5)\<lparr>balance := 100\<rparr>"]
    by (simp add: Let_def account_zero_def)
qed

lemma distinct_codedb_from: "distinct (map fst (codedb_from k codes))"
  by (induction codes rule: rev_induct) (simp_all add: codedb_from_def distinct_update)

lemma map_of_codedb_from:
  assumes "inj_on k (set codes)"
  shows "map_of (codedb_from k codes) h = Some c \<longleftrightarrow> c \<in> set codes \<and> k c = h"
  using assms
proof (induction codes rule: rev_induct)
  case (snoc c' codes)
  then have "map_of (codedb_from k codes) h = Some c \<longleftrightarrow> c \<in> set codes \<and> k c = h"
    by (simp add: inj_on_def)
  with snoc.prems show ?case
    by (auto simp: codedb_from_def update_conv' code_hash_of_def inj_on_def)
qed (simp add: codedb_from_def)

lemma set_codedb_from:
  assumes "inj_on k (set codes)"
  shows "set (codedb_from k codes) = (\<lambda>c. (k c, c)) ` set codes"
proof -
  have "(h, c) \<in> set (codedb_from k codes) \<longleftrightarrow> c \<in> set codes \<and> k c = h" for h c
    using map_of_codedb_from [OF assms, of h c] distinct_codedb_from [of k codes] by simp
  then show ?thesis by (auto simp: image_iff)
qed

text \<open>
  C30: a code database built from byte strings without hash collision returns each of them, read as bytecode,
  under its hash and nothing else; iterating it gives exactly these bytecodes; and the bytecode table needs
  one row per byte and one for the length of each distinct code.
\<close>

theorem codedb_from_spec:
  assumes no_collision: "inj_on keccak256 (set codes)"
  shows "let db = codedb_from keccak256 codes in
    (\<forall>h. get_from_u256 db h = (if h \<in> keccak256 ` set codes
        then Some (from_bytes (inv_into (set codes) keccak256 h)) else None)) \<and>
    set (codedb_into_iter db) = from_bytes ` set codes \<and>
    num_rows_required_for_bytecode_table db = (\<Sum>code\<in>set codes. length code + 1)"
proof -
  let ?db = "codedb_from keccak256 codes"
  note m = map_of_codedb_from [OF no_collision]
  have "map_of ?db h = (if h \<in> keccak256 ` set codes then Some (inv_into (set codes) keccak256 h) else None)" for h
  proof (cases "h \<in> keccak256 ` set codes")
    case True
    then show ?thesis using m [of h "inv_into (set codes) keccak256 h"]
      by (simp add: inv_into_into f_inv_into_f)
  next
    case False
    then show ?thesis using m [of h] by (cases "map_of ?db h") (auto simp: image_iff, metis)
  qed
  moreover have "num_rows_required_for_bytecode_table ?db = (\<Sum>(h, code)\<in>set ?db. length code + 1)"
    using distinct_codedb_from [of keccak256 codes]
    by (simp add: num_rows_required_for_bytecode_table_def sum_list_distinct_conv_sum_set distinct_map)
  then have "num_rows_required_for_bytecode_table ?db = (\<Sum>code\<in>set codes. length code + 1)"
    by (simp add: set_codedb_from [OF no_collision] sum.reindex inj_on_def)
  moreover have "set (codedb_into_iter ?db) = from_bytes ` set codes"
    by (auto simp: codedb_into_iter_def set_codedb_from [OF no_collision] image_iff)
  ultimately show ?thesis by (simp add: get_from_u256_def get_from_h256_def)
qed

theorem codedb_from_spec_witness:
  "inj_on (\<lambda>bs. of_nat (length bs) :: Hash) (set [[], [0x60, 1 :: u8]]) \<and>
   num_rows_required_for_bytecode_table (codedb_from (\<lambda>bs. of_nat (length bs)) [[], [0x60, 1]]) = 4"
proof -
  have h: "inj_on (\<lambda>bs. of_nat (length bs) :: Hash) (set [[], [0x60, 1 :: u8]])"
    by (auto simp: inj_on_def)
  show ?thesis using h codedb_from_spec [OF h] by (simp add: Let_def)
qed

end
