(* ===== verification/Operation.thy ===== *)
theory Operation
  imports Evm_Types "HOL-Library.Product_Lexorder" "HOL-Library.Multiset"
begin

text \<open>
  The read-write operations of the bus mapping and the container that stores them:
  \<^verbatim>\<open>bus-mapping/src/operation.rs\<close>, \<^verbatim>\<open>bus-mapping/src/operation/container.rs\<close> and the \<open>OperationRef\<close> of
  \<^verbatim>\<open>bus-mapping/src/exec_trace.rs\<close>.

  Each operation kind is a record with the fields of its struct. A comparison \<open>cmp\<close> of tuples is the
  comparison of HOL pairs in lexicographic order. \<open>OperationContainer\<close> is a record of one vector per kind;
  \<open>insert_op_enum\<close> returns the reference and the new container. The locale \<open>rust_ord\<close> states what \<open>Ord\<close>
  promises and what a stable sort then returns; the locale \<open>op_log\<close> states the container as a log whose
  entries are found again under the reference their insertion returned.
\<close>

section \<open>Counters, markers and targets\<close>

datatype RW = READ | WRITE

definition is_read :: "RW \<Rightarrow> bool" where
  "is_read rw = (case rw of READ \<Rightarrow> True | _ \<Rightarrow> False)"

definition is_write :: "RW \<Rightarrow> bool" where
  "is_write rw = (case rw of WRITE \<Rightarrow> True | _ \<Rightarrow> False)"

type_synonym RWCounter = usize

definition rwc_new :: RWCounter where
  "rwc_new = 1"

definition rwc_inc_pre :: "RWCounter \<Rightarrow> RWCounter \<times> RWCounter" where
  "rwc_inc_pre c = (c, c + 1)"

datatype Target =
    TStart | TMemory | TStack | TStorage | TTxAccessListAccount | TTxAccessListAccountStorage
  | TTxRefund | TAccount | TCallContext | TTxReceipt | TTxLog

definition target_usize :: "Target \<Rightarrow> usize" where
  "target_usize t = (case t of
      TStart \<Rightarrow> 1 | TMemory \<Rightarrow> 2 | TStack \<Rightarrow> 3 | TStorage \<Rightarrow> 4 | TTxAccessListAccount \<Rightarrow> 5
    | TTxAccessListAccountStorage \<Rightarrow> 6 | TTxRefund \<Rightarrow> 7 | TAccount \<Rightarrow> 8 | TCallContext \<Rightarrow> 9
    | TTxReceipt \<Rightarrow> 10 | TTxLog \<Rightarrow> 11)"

definition is_reversible :: "Target \<Rightarrow> bool" where
  "is_reversible t = (case t of
      TTxAccessListAccount \<Rightarrow> True | TTxAccessListAccountStorage \<Rightarrow> True | TTxRefund \<Rightarrow> True
    | TAccount \<Rightarrow> True | TStorage \<Rightarrow> True | _ \<Rightarrow> False)"

section \<open>Operation kinds\<close>

record MemoryOp =
  mem_call_id :: usize
  mem_address :: MemoryAddress
  mem_value :: u8

record StackOp =
  stk_call_id :: usize
  stk_address :: StackAddress
  stk_value :: Word

record StorageOp =
  sto_address :: Address
  sto_key :: Word
  sto_value :: Word
  sto_value_prev :: Word
  sto_tx_id :: usize
  sto_committed_value :: Word

record TxAccessListAccountOp =
  ala_tx_id :: usize
  ala_address :: Address
  ala_is_warm :: bool
  ala_is_warm_prev :: bool

record TxAccessListAccountStorageOp =
  als_tx_id :: usize
  als_address :: Address
  als_key :: Word
  als_is_warm :: bool
  als_is_warm_prev :: bool

record TxRefundOp =
  rfd_tx_id :: usize
  rfd_value :: u64
  rfd_value_prev :: u64

datatype AccountField = AF_Nonce | AF_Balance | AF_CodeHash

record AccountOp =
  acc_address :: Address
  acc_field :: AccountField
  acc_value :: Word
  acc_value_prev :: Word

datatype CallContextField =
    CC_RwCounterEndOfReversion | CC_CallerId | CC_TxId | CC_Depth | CC_CallerAddress | CC_CalleeAddress
  | CC_CallDataOffset | CC_CallDataLength | CC_ReturnDataOffset | CC_ReturnDataLength | CC_Value
  | CC_IsSuccess | CC_IsPersistent | CC_IsStatic | CC_LastCalleeId | CC_LastCalleeReturnDataOffset
  | CC_LastCalleeReturnDataLength | CC_IsRoot | CC_IsCreate | CC_CodeHash | CC_ProgramCounter
  | CC_StackPointer | CC_GasLeft | CC_MemorySize | CC_ReversibleWriteCounter

record CallContextOp =
  cco_call_id :: usize
  cco_field :: CallContextField
  cco_value :: Word

datatype TxLogField = LF_Address | LF_Topic | LF_Data

record TxLogOp =
  log_tx_id :: usize
  log_log_id :: usize
  log_field :: TxLogField
  log_index :: usize
  log_value :: Word

datatype TxReceiptField = RF_PostStateOrStatus | RF_CumulativeGasUsed | RF_LogLength

record TxReceiptOp =
  rcp_tx_id :: usize
  rcp_field :: TxReceiptField
  rcp_value :: u64

type_synonym StartOp = unit

datatype OpEnum =
    OpStack StackOp
  | OpMemory MemoryOp
  | OpStorage StorageOp
  | OpTxAccessListAccount TxAccessListAccountOp
  | OpTxAccessListAccountStorage TxAccessListAccountStorageOp
  | OpTxRefund TxRefundOp
  | OpAccount AccountOp
  | OpCallContext CallContextOp
  | OpTxReceipt TxReceiptOp
  | OpTxLog TxLogOp
  | OpStart StartOp

definition op_target :: "OpEnum \<Rightarrow> Target" where
  "op_target op = (case op of
      OpStack _ \<Rightarrow> TStack | OpMemory _ \<Rightarrow> TMemory | OpStorage _ \<Rightarrow> TStorage
    | OpTxAccessListAccount _ \<Rightarrow> TTxAccessListAccount
    | OpTxAccessListAccountStorage _ \<Rightarrow> TTxAccessListAccountStorage
    | OpTxRefund _ \<Rightarrow> TTxRefund | OpAccount _ \<Rightarrow> TAccount | OpCallContext _ \<Rightarrow> TCallContext
    | OpTxReceipt _ \<Rightarrow> TTxReceipt | OpTxLog _ \<Rightarrow> TTxLog | OpStart _ \<Rightarrow> TStart)"

text \<open>\<open>Op::reverse\<close>: swap the value with the previous one; the other kinds are unreachable.\<close>

definition storage_op_reverse :: "StorageOp \<Rightarrow> StorageOp" where
  "storage_op_reverse op = op\<lparr>sto_value := sto_value_prev op, sto_value_prev := sto_value op\<rparr>"

definition access_list_account_op_reverse :: "TxAccessListAccountOp \<Rightarrow> TxAccessListAccountOp" where
  "access_list_account_op_reverse op = op\<lparr>ala_is_warm := ala_is_warm_prev op, ala_is_warm_prev := ala_is_warm op\<rparr>"

definition access_list_account_storage_op_reverse :: "TxAccessListAccountStorageOp \<Rightarrow> TxAccessListAccountStorageOp" where
  "access_list_account_storage_op_reverse op = op\<lparr>als_is_warm := als_is_warm_prev op, als_is_warm_prev := als_is_warm op\<rparr>"

definition tx_refund_op_reverse :: "TxRefundOp \<Rightarrow> TxRefundOp" where
  "tx_refund_op_reverse op = op\<lparr>rfd_value := rfd_value_prev op, rfd_value_prev := rfd_value op\<rparr>"

definition account_op_reverse :: "AccountOp \<Rightarrow> AccountOp" where
  "account_op_reverse op = op\<lparr>acc_value := acc_value_prev op, acc_value_prev := acc_value op\<rparr>"

definition op_reverse :: "OpEnum \<Rightarrow> (OpEnum, 'e) result" where
  "op_reverse op = (case op of
      OpStorage op \<Rightarrow> Inr (OpStorage (storage_op_reverse op))
    | OpTxAccessListAccount op \<Rightarrow>
        Inr (OpTxAccessListAccount (access_list_account_op_reverse op))
    | OpTxAccessListAccountStorage op \<Rightarrow>
        Inr (OpTxAccessListAccountStorage (access_list_account_storage_op_reverse op))
    | OpTxRefund op \<Rightarrow> Inr (OpTxRefund (tx_refund_op_reverse op))
    | OpAccount op \<Rightarrow> Inr (OpAccount (account_op_reverse op))
    | OpMemory _ \<Rightarrow> Inl (Panic ''MemoryOp can't be reverted'')
    | OpStack _ \<Rightarrow> Inl (Panic ''StackOp can't be reverted'')
    | OpCallContext _ \<Rightarrow> Inl (Panic ''CallContextOp can't be reverted'')
    | OpTxReceipt _ \<Rightarrow> Inl (Panic ''TxReceiptOp can't be reverted'')
    | OpTxLog _ \<Rightarrow> Inl (Panic ''TxLog can't be reverted'')
    | OpStart _ \<Rightarrow> Inl (Panic ''StartOp can't be reverted''))"

lemmas op_reverse_defs =
  op_reverse_def storage_op_reverse_def access_list_account_op_reverse_def
  access_list_account_storage_op_reverse_def tx_refund_op_reverse_def account_op_reverse_def

section \<open>Comparison\<close>

datatype Ordering = Less | Equal | Greater

text \<open>\<open>Ord::cmp\<close> of integers, derived enumerations and tuples of them.\<close>

definition ord_cmp :: "'a :: linorder \<Rightarrow> 'a \<Rightarrow> Ordering" where
  "ord_cmp a b = (if a < b then Less else if a = b then Equal else Greater)"

text \<open>The derived orders of the field enumerations: the order of their declaration.\<close>

definition account_field_index :: "AccountField \<Rightarrow> nat" where
  "account_field_index f = (case f of AF_Nonce \<Rightarrow> 0 | AF_Balance \<Rightarrow> 1 | AF_CodeHash \<Rightarrow> 2)"

definition tx_log_field_index :: "TxLogField \<Rightarrow> nat" where
  "tx_log_field_index f = (case f of LF_Address \<Rightarrow> 0 | LF_Topic \<Rightarrow> 1 | LF_Data \<Rightarrow> 2)"

definition tx_receipt_field_index :: "TxReceiptField \<Rightarrow> nat" where
  "tx_receipt_field_index f =
     (case f of RF_PostStateOrStatus \<Rightarrow> 0 | RF_CumulativeGasUsed \<Rightarrow> 1 | RF_LogLength \<Rightarrow> 2)"

definition call_context_field_index :: "CallContextField \<Rightarrow> nat" where
  "call_context_field_index f = (case f of
      CC_RwCounterEndOfReversion \<Rightarrow> 0 | CC_CallerId \<Rightarrow> 1 | CC_TxId \<Rightarrow> 2 | CC_Depth \<Rightarrow> 3 | CC_CallerAddress \<Rightarrow> 4
    | CC_CalleeAddress \<Rightarrow> 5 | CC_CallDataOffset \<Rightarrow> 6 | CC_CallDataLength \<Rightarrow> 7 | CC_ReturnDataOffset \<Rightarrow> 8
    | CC_ReturnDataLength \<Rightarrow> 9 | CC_Value \<Rightarrow> 10 | CC_IsSuccess \<Rightarrow> 11 | CC_IsPersistent \<Rightarrow> 12 | CC_IsStatic \<Rightarrow> 13
    | CC_LastCalleeId \<Rightarrow> 14 | CC_LastCalleeReturnDataOffset \<Rightarrow> 15 | CC_LastCalleeReturnDataLength \<Rightarrow> 16
    | CC_IsRoot \<Rightarrow> 17 | CC_IsCreate \<Rightarrow> 18 | CC_CodeHash \<Rightarrow> 19 | CC_ProgramCounter \<Rightarrow> 20 | CC_StackPointer \<Rightarrow> 21
    | CC_GasLeft \<Rightarrow> 22 | CC_MemorySize \<Rightarrow> 23 | CC_ReversibleWriteCounter \<Rightarrow> 24)"

lemma account_field_index_inject: "account_field_index a = account_field_index b \<longleftrightarrow> a = b"
  by (cases a; cases b) (simp_all add: account_field_index_def)

lemma tx_log_field_index_inject: "tx_log_field_index a = tx_log_field_index b \<longleftrightarrow> a = b"
  by (cases a; cases b) (simp_all add: tx_log_field_index_def)

lemma tx_receipt_field_index_inject: "tx_receipt_field_index a = tx_receipt_field_index b \<longleftrightarrow> a = b"
  by (cases a; cases b) (simp_all add: tx_receipt_field_index_def)

lemma call_context_field_index_inject: "call_context_field_index a = call_context_field_index b \<longleftrightarrow> a = b"
proof
  assume "call_context_field_index a = call_context_field_index b"
  then show "a = b"
    by (cases a) (simp_all add: call_context_field_index_def split: CallContextField.splits)
qed simp

instantiation AccountField :: linorder
begin

definition less_eq_AccountField :: "AccountField \<Rightarrow> AccountField \<Rightarrow> bool" where
  "less_eq_AccountField a b = (account_field_index a \<le> account_field_index b)"

definition less_AccountField :: "AccountField \<Rightarrow> AccountField \<Rightarrow> bool" where
  "less_AccountField a b = (account_field_index a < account_field_index b)"

instance
  by standard (auto simp: less_eq_AccountField_def less_AccountField_def account_field_index_inject)

end

instantiation TxLogField :: linorder
begin

definition less_eq_TxLogField :: "TxLogField \<Rightarrow> TxLogField \<Rightarrow> bool" where
  "less_eq_TxLogField a b = (tx_log_field_index a \<le> tx_log_field_index b)"

definition less_TxLogField :: "TxLogField \<Rightarrow> TxLogField \<Rightarrow> bool" where
  "less_TxLogField a b = (tx_log_field_index a < tx_log_field_index b)"

instance
  by standard (auto simp: less_eq_TxLogField_def less_TxLogField_def tx_log_field_index_inject)

end

instantiation TxReceiptField :: linorder
begin

definition less_eq_TxReceiptField :: "TxReceiptField \<Rightarrow> TxReceiptField \<Rightarrow> bool" where
  "less_eq_TxReceiptField a b = (tx_receipt_field_index a \<le> tx_receipt_field_index b)"

definition less_TxReceiptField :: "TxReceiptField \<Rightarrow> TxReceiptField \<Rightarrow> bool" where
  "less_TxReceiptField a b = (tx_receipt_field_index a < tx_receipt_field_index b)"

instance
  by standard (auto simp: less_eq_TxReceiptField_def less_TxReceiptField_def tx_receipt_field_index_inject)

end

instantiation CallContextField :: linorder
begin

definition less_eq_CallContextField :: "CallContextField \<Rightarrow> CallContextField \<Rightarrow> bool" where
  "less_eq_CallContextField a b = (call_context_field_index a \<le> call_context_field_index b)"

definition less_CallContextField :: "CallContextField \<Rightarrow> CallContextField \<Rightarrow> bool" where
  "less_CallContextField a b = (call_context_field_index a < call_context_field_index b)"

instance
  by standard (auto simp: less_eq_CallContextField_def less_CallContextField_def call_context_field_index_inject)

end

definition memory_op_cmp :: "MemoryOp \<Rightarrow> MemoryOp \<Rightarrow> Ordering" where
  "memory_op_cmp a b = ord_cmp (mem_call_id a, mem_address a) (mem_call_id b, mem_address b)"

definition stack_op_cmp :: "StackOp \<Rightarrow> StackOp \<Rightarrow> Ordering" where
  "stack_op_cmp a b = ord_cmp (stk_call_id a, stk_address a) (stk_call_id b, stk_address b)"

definition storage_op_cmp :: "StorageOp \<Rightarrow> StorageOp \<Rightarrow> Ordering" where
  "storage_op_cmp a b = ord_cmp (sto_address a, sto_key a) (sto_address b, sto_key b)"

definition access_list_account_op_cmp :: "TxAccessListAccountOp \<Rightarrow> TxAccessListAccountOp \<Rightarrow> Ordering" where
  "access_list_account_op_cmp a b = ord_cmp (ala_tx_id a, ala_address a) (ala_tx_id b, ala_address b)"

definition access_list_account_storage_op_cmp ::
  "TxAccessListAccountStorageOp \<Rightarrow> TxAccessListAccountStorageOp \<Rightarrow> Ordering" where
  "access_list_account_storage_op_cmp a b =
     ord_cmp (als_tx_id a, als_address a, als_key a) (als_tx_id b, als_address b, als_key b)"

definition tx_refund_op_cmp :: "TxRefundOp \<Rightarrow> TxRefundOp \<Rightarrow> Ordering" where
  "tx_refund_op_cmp a b = ord_cmp (rfd_tx_id a) (rfd_tx_id b)"

definition account_op_cmp :: "AccountOp \<Rightarrow> AccountOp \<Rightarrow> Ordering" where
  "account_op_cmp a b = ord_cmp (acc_address a, acc_field a) (acc_address b, acc_field b)"

definition call_context_op_cmp :: "CallContextOp \<Rightarrow> CallContextOp \<Rightarrow> Ordering" where
  "call_context_op_cmp a b = ord_cmp (cco_call_id a, cco_field a) (cco_call_id b, cco_field b)"

definition tx_log_op_cmp :: "TxLogOp \<Rightarrow> TxLogOp \<Rightarrow> Ordering" where
  "tx_log_op_cmp a b = ord_cmp (log_tx_id a, log_log_id a, log_field a) (log_tx_id b, log_log_id b, log_field b)"

definition tx_receipt_op_cmp :: "TxReceiptOp \<Rightarrow> TxReceiptOp \<Rightarrow> Ordering" where
  "tx_receipt_op_cmp a b = ord_cmp (rcp_tx_id a, rcp_field a) (rcp_tx_id b, rcp_field b)"

definition start_op_cmp :: "StartOp \<Rightarrow> StartOp \<Rightarrow> Ordering" where
  "start_op_cmp a b = Equal"

section \<open>Operations and the container\<close>

record 'T Operation =
  op_rwc :: RWCounter
  op_rw :: RW
  op_reversible :: bool
  op_op :: 'T

definition operation_new :: "RWCounter \<Rightarrow> RW \<Rightarrow> 'T \<Rightarrow> 'T Operation" where
  "operation_new rwc rw op = \<lparr>op_rwc = rwc, op_rw = rw, op_reversible = False, op_op = op\<rparr>"

definition operation_new_reversible :: "RWCounter \<Rightarrow> RW \<Rightarrow> 'T \<Rightarrow> 'T Operation" where
  "operation_new_reversible rwc rw op = \<lparr>op_rwc = rwc, op_rw = rw, op_reversible = True, op_op = op\<rparr>"

definition operation_cmp :: "('T \<Rightarrow> 'T \<Rightarrow> Ordering) \<Rightarrow> 'T Operation \<Rightarrow> 'T Operation \<Rightarrow> Ordering" where
  "operation_cmp cmp a b =
     (case cmp (op_op a) (op_op b) of Equal \<Rightarrow> ord_cmp (op_rwc a) (op_rwc b) | ord \<Rightarrow> ord)"

record OperationContainer =
  oc_memory :: "MemoryOp Operation list"
  oc_stack :: "StackOp Operation list"
  oc_storage :: "StorageOp Operation list"
  oc_tx_access_list_account :: "TxAccessListAccountOp Operation list"
  oc_tx_access_list_account_storage :: "TxAccessListAccountStorageOp Operation list"
  oc_tx_refund :: "TxRefundOp Operation list"
  oc_account :: "AccountOp Operation list"
  oc_call_context :: "CallContextOp Operation list"
  oc_tx_receipt :: "TxReceiptOp Operation list"
  oc_tx_log :: "TxLogOp Operation list"
  oc_start :: "StartOp Operation list"

type_synonym OperationRef = "Target \<times> usize"

definition container_new :: OperationContainer where
  "container_new = \<lparr>oc_memory = [], oc_stack = [], oc_storage = [], oc_tx_access_list_account = [],
     oc_tx_access_list_account_storage = [], oc_tx_refund = [], oc_account = [], oc_call_context = [],
     oc_tx_receipt = [], oc_tx_log = [], oc_start = []\<rparr>"

definition new_if_reversible :: "bool \<Rightarrow> RWCounter \<Rightarrow> RW \<Rightarrow> 'T \<Rightarrow> 'T Operation" where
  "new_if_reversible reversible rwc rw op =
     (if reversible then operation_new_reversible rwc rw op else operation_new rwc rw op)"

definition insert_op_enum ::
  "RWCounter \<Rightarrow> RW \<Rightarrow> bool \<Rightarrow> OpEnum \<Rightarrow> OperationContainer \<Rightarrow> OperationRef \<times> OperationContainer" where
  "insert_op_enum rwc rw reversible op_enum c = (case op_enum of
      OpMemory op \<Rightarrow>
        let c = c\<lparr>oc_memory := oc_memory c @ [operation_new rwc rw op]\<rparr>
        in ((TMemory, length (oc_memory c) - 1), c)
    | OpStack op \<Rightarrow>
        let c = c\<lparr>oc_stack := oc_stack c @ [operation_new rwc rw op]\<rparr>
        in ((TStack, length (oc_stack c) - 1), c)
    | OpStorage op \<Rightarrow>
        let c = c\<lparr>oc_storage := oc_storage c @ [new_if_reversible reversible rwc rw op]\<rparr>
        in ((TStorage, length (oc_storage c) - 1), c)
    | OpTxAccessListAccount op \<Rightarrow>
        let c = c\<lparr>oc_tx_access_list_account := oc_tx_access_list_account c @ [new_if_reversible reversible rwc rw op]\<rparr>
        in ((TTxAccessListAccount, length (oc_tx_access_list_account c) - 1), c)
    | OpTxAccessListAccountStorage op \<Rightarrow>
        let c = c\<lparr>oc_tx_access_list_account_storage :=
                    oc_tx_access_list_account_storage c @ [new_if_reversible reversible rwc rw op]\<rparr>
        in ((TTxAccessListAccountStorage, length (oc_tx_access_list_account_storage c) - 1), c)
    | OpTxRefund op \<Rightarrow>
        let c = c\<lparr>oc_tx_refund := oc_tx_refund c @ [new_if_reversible reversible rwc rw op]\<rparr>
        in ((TTxRefund, length (oc_tx_refund c) - 1), c)
    | OpAccount op \<Rightarrow>
        let c = c\<lparr>oc_account := oc_account c @ [new_if_reversible reversible rwc rw op]\<rparr>
        in ((TAccount, length (oc_account c) - 1), c)
    | OpCallContext op \<Rightarrow>
        let c = c\<lparr>oc_call_context := oc_call_context c @ [operation_new rwc rw op]\<rparr>
        in ((TCallContext, length (oc_call_context c) - 1), c)
    | OpTxReceipt op \<Rightarrow>
        let c = c\<lparr>oc_tx_receipt := oc_tx_receipt c @ [operation_new rwc rw op]\<rparr>
        in ((TTxReceipt, length (oc_tx_receipt c) - 1), c)
    | OpTxLog op \<Rightarrow>
        let c = c\<lparr>oc_tx_log := oc_tx_log c @ [operation_new rwc rw op]\<rparr>
        in ((TTxLog, length (oc_tx_log c) - 1), c)
    | OpStart op \<Rightarrow>
        let c = c\<lparr>oc_start := oc_start c @ [operation_new rwc rw op]\<rparr>
        in ((TStart, length (oc_start c) - 1), c))"

definition container_insert ::
  "('T \<Rightarrow> OpEnum) \<Rightarrow> 'T Operation \<Rightarrow> OperationContainer \<Rightarrow> OperationRef \<times> OperationContainer" where
  "container_insert into_enum op c =
     insert_op_enum (op_rwc op) (op_rw op) (op_reversible op) (into_enum (op_op op)) c"

text \<open>\<open>Itertools::sorted\<close>: a stable sort, here insertion from the right.\<close>

fun insort_cmp :: "('a \<Rightarrow> 'a \<Rightarrow> Ordering) \<Rightarrow> 'a \<Rightarrow> 'a list \<Rightarrow> 'a list" where
  "insort_cmp cmp x [] = [x]"
| "insort_cmp cmp x (y # ys) = (if cmp x y = Greater then y # insort_cmp cmp x ys else x # y # ys)"

definition sort_cmp :: "('a \<Rightarrow> 'a \<Rightarrow> Ordering) \<Rightarrow> 'a list \<Rightarrow> 'a list" where
  "sort_cmp cmp xs = foldr (insort_cmp cmp) xs []"

definition sorted_memory :: "OperationContainer \<Rightarrow> MemoryOp Operation list" where
  "sorted_memory c = sort_cmp (operation_cmp memory_op_cmp) (oc_memory c)"

definition sorted_stack :: "OperationContainer \<Rightarrow> StackOp Operation list" where
  "sorted_stack c = sort_cmp (operation_cmp stack_op_cmp) (oc_stack c)"

definition sorted_storage :: "OperationContainer \<Rightarrow> StorageOp Operation list" where
  "sorted_storage c = sort_cmp (operation_cmp storage_op_cmp) (oc_storage c)"

section \<open>The contract of \<open>Ord\<close>\<close>

locale rust_ord =
  fixes cmp :: "'a \<Rightarrow> 'a \<Rightarrow> Ordering"
  assumes cmp_flip: "cmp x y = Less \<longleftrightarrow> cmp y x = Greater"
    and cmp_trans: "cmp x y \<noteq> Greater \<Longrightarrow> cmp y z \<noteq> Greater \<Longrightarrow> cmp x z \<noteq> Greater"
begin

lemma cmp_refl: "cmp x x = Equal"
  using cmp_flip [of x x] by (cases "cmp x x") auto

lemma mset_insort: "mset (insort_cmp cmp x xs) = add_mset x (mset xs)"
  by (induction xs) auto

lemma mset_sort: "mset (sort_cmp cmp xs) = mset xs"
  by (induction xs) (simp_all add: sort_cmp_def mset_insort)

lemma set_insort: "set (insort_cmp cmp x xs) = insert x (set xs)"
  by (induction xs) auto

lemma sorted_insort:
  "sorted_wrt (\<lambda>x y. cmp x y \<noteq> Greater) xs \<Longrightarrow> sorted_wrt (\<lambda>x y. cmp x y \<noteq> Greater) (insort_cmp cmp x xs)"
proof (induction xs)
  case (Cons y ys)
  have "cmp y x \<noteq> Greater" if "cmp x y = Greater"
    using that cmp_flip [of y x] by auto
  with Cons show ?case
    by (auto simp: set_insort dest: cmp_trans [of x y])
qed simp

lemma sorted_sort: "sorted_wrt (\<lambda>x y. cmp x y \<noteq> Greater) (sort_cmp cmp xs)"
  by (induction xs) (simp_all add: sort_cmp_def sorted_insort)

text \<open>Stability: the elements equal to a given one keep their order.\<close>

lemma filter_insort:
  "filter (\<lambda>y. cmp k y = Equal) (insort_cmp cmp x xs) =
     (if cmp k x = Equal then x # filter (\<lambda>y. cmp k y = Equal) xs else filter (\<lambda>y. cmp k y = Equal) xs)"
proof (induction xs)
  case (Cons y ys)
  have "cmp k y \<noteq> Equal" if "cmp x y = Greater" "cmp k x = Equal"
  proof
    assume "cmp k y = Equal"
    moreover have "cmp x k \<noteq> Greater"
      using that(2) cmp_flip [of k x] by auto
    ultimately show False
      using cmp_trans [of x k y] that(1) by simp
  qed
  with Cons show ?case by auto
qed simp

lemma sort_stable: "filter (\<lambda>y. cmp k y = Equal) (sort_cmp cmp xs) = filter (\<lambda>y. cmp k y = Equal) xs"
  by (induction xs) (simp_all add: sort_cmp_def filter_insort)

end

lemma ord_cmp_Greater: "ord_cmp a b \<noteq> Greater \<longleftrightarrow> a \<le> b"
  by (auto simp: ord_cmp_def)

lemma rust_ord_key: "rust_ord (\<lambda>a b. ord_cmp (key a) (key b))"
  by unfold_locales (auto simp: ord_cmp_def split: if_splits)

text \<open>An \<open>Operation\<close> is compared by its inner operation, then by its counter.\<close>

lemma operation_cmp_key:
  assumes "\<And>a b. cmp a b = ord_cmp (key a) (key b)"
  shows "operation_cmp cmp a b = ord_cmp (key (op_op a), op_rwc a) (key (op_op b), op_rwc b)"
  by (auto simp: operation_cmp_def assms ord_cmp_def)

lemma sort_operation_key:
  assumes "\<And>a b. cmp a b = ord_cmp (key a) (key b)"
  shows "mset (sort_cmp (operation_cmp cmp) xs) = mset xs"
    and "sorted (map (\<lambda>o'. (key (op_op o'), op_rwc o')) (sort_cmp (operation_cmp cmp) xs))"
    and "filter (\<lambda>o'. operation_cmp cmp k o' = Equal) (sort_cmp (operation_cmp cmp) xs) =
      filter (\<lambda>o'. operation_cmp cmp k o' = Equal) xs"
proof -
  let ?cmp = "\<lambda>a b. ord_cmp (key (op_op a), op_rwc a) (key (op_op b), op_rwc b)"
  have e: "operation_cmp cmp = ?cmp" using operation_cmp_key [of cmp key] assms by blast
  have r: "rust_ord ?cmp" by (rule rust_ord_key)
  show "mset (sort_cmp (operation_cmp cmp) xs) = mset xs"
    unfolding e by (rule rust_ord.mset_sort [OF r])
  show "sorted (map (\<lambda>o'. (key (op_op o'), op_rwc o')) (sort_cmp (operation_cmp cmp) xs))"
    using rust_ord.sorted_sort [OF r, of xs] unfolding e sorted_map ord_cmp_Greater .
  show "filter (\<lambda>o'. operation_cmp cmp k o' = Equal) (sort_cmp (operation_cmp cmp) xs) =
      filter (\<lambda>o'. operation_cmp cmp k o' = Equal) xs"
    unfolding e by (rule rust_ord.sort_stable [OF r])
qed

interpretation memory_ord: rust_ord "operation_cmp memory_op_cmp"
  unfolding operation_cmp_key [OF memory_op_cmp_def, abs_def] by (rule rust_ord_key)

interpretation stack_ord: rust_ord "operation_cmp stack_op_cmp"
  unfolding operation_cmp_key [OF stack_op_cmp_def, abs_def] by (rule rust_ord_key)

interpretation storage_ord: rust_ord "operation_cmp storage_op_cmp"
  unfolding operation_cmp_key [OF storage_op_cmp_def, abs_def] by (rule rust_ord_key)

interpretation access_list_account_ord: rust_ord "operation_cmp access_list_account_op_cmp"
  unfolding operation_cmp_key [OF access_list_account_op_cmp_def, abs_def] by (rule rust_ord_key)

interpretation access_list_account_storage_ord: rust_ord "operation_cmp access_list_account_storage_op_cmp"
  unfolding operation_cmp_key [OF access_list_account_storage_op_cmp_def, abs_def] by (rule rust_ord_key)

interpretation tx_refund_ord: rust_ord "operation_cmp tx_refund_op_cmp"
  unfolding operation_cmp_key [OF tx_refund_op_cmp_def, abs_def] by (rule rust_ord_key)

interpretation account_ord: rust_ord "operation_cmp account_op_cmp"
  unfolding operation_cmp_key [OF account_op_cmp_def, abs_def] by (rule rust_ord_key)

interpretation call_context_ord: rust_ord "operation_cmp call_context_op_cmp"
  unfolding operation_cmp_key [OF call_context_op_cmp_def, abs_def] by (rule rust_ord_key)

interpretation tx_log_ord: rust_ord "operation_cmp tx_log_op_cmp"
  unfolding operation_cmp_key [OF tx_log_op_cmp_def, abs_def] by (rule rust_ord_key)

interpretation tx_receipt_ord: rust_ord "operation_cmp tx_receipt_op_cmp"
  unfolding operation_cmp_key [OF tx_receipt_op_cmp_def, abs_def] by (rule rust_ord_key)

section \<open>The container as a log\<close>

definition op_view :: "('T \<Rightarrow> OpEnum) \<Rightarrow> 'T Operation \<Rightarrow> OpEnum Operation" where
  "op_view into_enum op =
     \<lparr>op_rwc = op_rwc op, op_rw = op_rw op, op_reversible = op_reversible op, op_op = into_enum (op_op op)\<rparr>"

text \<open>The operation a reference points to, with the index check of the vector access.\<close>

definition container_get :: "OperationContainer \<Rightarrow> OperationRef \<Rightarrow> OpEnum Operation option" where
  "container_get c r = (case fst r of
      TMemory \<Rightarrow> map_option (op_view OpMemory) (nth_opt (oc_memory c) (snd r))
    | TStack \<Rightarrow> map_option (op_view OpStack) (nth_opt (oc_stack c) (snd r))
    | TStorage \<Rightarrow> map_option (op_view OpStorage) (nth_opt (oc_storage c) (snd r))
    | TTxAccessListAccount \<Rightarrow>
        map_option (op_view OpTxAccessListAccount) (nth_opt (oc_tx_access_list_account c) (snd r))
    | TTxAccessListAccountStorage \<Rightarrow>
        map_option (op_view OpTxAccessListAccountStorage) (nth_opt (oc_tx_access_list_account_storage c) (snd r))
    | TTxRefund \<Rightarrow> map_option (op_view OpTxRefund) (nth_opt (oc_tx_refund c) (snd r))
    | TAccount \<Rightarrow> map_option (op_view OpAccount) (nth_opt (oc_account c) (snd r))
    | TCallContext \<Rightarrow> map_option (op_view OpCallContext) (nth_opt (oc_call_context c) (snd r))
    | TTxReceipt \<Rightarrow> map_option (op_view OpTxReceipt) (nth_opt (oc_tx_receipt c) (snd r))
    | TTxLog \<Rightarrow> map_option (op_view OpTxLog) (nth_opt (oc_tx_log c) (snd r))
    | TStart \<Rightarrow> map_option (op_view OpStart) (nth_opt (oc_start c) (snd r)))"

text \<open>The counters of all operations of a container.\<close>

definition container_rwcs :: "OperationContainer \<Rightarrow> RWCounter list" where
  "container_rwcs c =
     map op_rwc (oc_memory c) @ map op_rwc (oc_stack c) @ map op_rwc (oc_storage c) @
     map op_rwc (oc_tx_access_list_account c) @ map op_rwc (oc_tx_access_list_account_storage c) @
     map op_rwc (oc_tx_refund c) @ map op_rwc (oc_account c) @ map op_rwc (oc_call_context c) @
     map op_rwc (oc_tx_receipt c) @ map op_rwc (oc_tx_log c) @ map op_rwc (oc_start c)"

text \<open>A sequence of insertions, with the references they return.\<close>

fun insert_all :: "('op \<Rightarrow> 'c \<Rightarrow> 'r \<times> 'c) \<Rightarrow> 'op list \<Rightarrow> 'c \<Rightarrow> 'r list \<times> 'c" where
  "insert_all ins [] c = ([], c)"
| "insert_all ins (op # ops) c =
     (let (r, c) = ins op c; (rs, c) = insert_all ins ops c in (r # rs, c))"

locale op_log =
  fixes ins :: "'op \<Rightarrow> 'c \<Rightarrow> 'r \<times> 'c"
    and get :: "'c \<Rightarrow> 'r \<Rightarrow> 'v option"
    and entry :: "'op \<Rightarrow> 'v"
  assumes get_inserted: "ins op c = (r, c') \<Longrightarrow> get c' r = Some (entry op)"
    and get_other: "ins op c = (r, c') \<Longrightarrow> r' \<noteq> r \<Longrightarrow> get c' r' = get c r'"
    and fresh_ref: "ins op c = (r, c') \<Longrightarrow> get c r = None"
begin

lemma get_kept: "ins op c = (r, c') \<Longrightarrow> get c r' = Some v \<Longrightarrow> get c' r' = Some v"
  by (cases "r' = r") (auto simp: get_other dest: fresh_ref)

lemma insert_all_kept:
  "insert_all ins ops c = (rs, c') \<Longrightarrow> get c r = Some v \<Longrightarrow> get c' r = Some v"
  by (induction ops arbitrary: c rs) (auto simp: Let_def split: prod.splits dest: get_kept)

lemma insert_all_fresh:
  "insert_all ins ops c = (rs, c') \<Longrightarrow> r \<in> set rs \<Longrightarrow> get c r = None"
proof (induction ops arbitrary: c rs)
  case (Cons op ops)
  obtain r0 c0 where i: "ins op c = (r0, c0)" by fastforce
  with Cons.prems(1) obtain rs0 where rs: "insert_all ins ops c0 = (rs0, c')" "rs = r0 # rs0"
    by (auto simp: Let_def split: prod.splits)
  show ?case
  proof (cases "r = r0")
    case False
    then have "get c0 r = None" using Cons.IH [OF rs(1)] Cons.prems(2) rs(2) by simp
    then show ?thesis using get_other [OF i False] by simp
  qed (use fresh_ref [OF i] in simp)
qed simp

lemma insert_all_log:
  assumes "insert_all ins ops c = (rs, c')"
  shows "distinct rs \<and> map (get c') rs = map (\<lambda>op. Some (entry op)) ops"
  using assms
proof (induction ops arbitrary: c rs)
  case (Cons op ops)
  obtain r0 c0 where i: "ins op c = (r0, c0)" by fastforce
  with Cons.prems obtain rs0 where rs: "insert_all ins ops c0 = (rs0, c')" "rs = r0 # rs0"
    by (auto simp: Let_def split: prod.splits)
  have "r0 \<notin> set rs0"
    using insert_all_fresh [OF rs(1)] get_inserted [OF i] by fastforce
  then show ?case
    using Cons.IH [OF rs(1)] insert_all_kept [OF rs(1) get_inserted [OF i]] rs(2) by simp
qed simp

end

type_synonym op_arg = "RWCounter \<times> RW \<times> bool \<times> OpEnum"

definition insert_arg :: "op_arg \<Rightarrow> OperationContainer \<Rightarrow> OperationRef \<times> OperationContainer" where
  "insert_arg a c = (case a of (rwc, rw, reversible, op) \<Rightarrow> insert_op_enum rwc rw reversible op c)"

definition op_entry :: "op_arg \<Rightarrow> OpEnum Operation" where
  "op_entry a = (case a of (rwc, rw, reversible, op) \<Rightarrow>
     \<lparr>op_rwc = rwc, op_rw = rw, op_reversible = reversible \<and> is_reversible (op_target op), op_op = op\<rparr>)"

lemmas container_defs =
  insert_op_enum_def container_get_def op_view_def operation_new_def operation_new_reversible_def
  new_if_reversible_def op_target_def is_reversible_def

lemma nth_opt_length [simp]: "nth_opt xs (length xs) = None"
  by (simp add: nth_opt_def)

lemma nth_opt_snoc_other: "i \<noteq> length xs \<Longrightarrow> nth_opt (xs @ [x]) i = nth_opt xs i"
  by (auto simp: nth_opt_def nth_append)

lemma insert_op_enum_ref:
  "insert_op_enum rwc rw reversible op c = (r, c') \<Longrightarrow> fst r = op_target op"
  by (cases op) (auto simp: insert_op_enum_def op_target_def Let_def)

lemma container_get_other:
  "(t, k) \<noteq> fst (insert_op_enum rwc rw reversible op c) \<Longrightarrow>
     container_get (snd (insert_op_enum rwc rw reversible op c)) (t, k) = container_get c (t, k)"
  by (cases op)
    (simp_all add: insert_op_enum_def Let_def container_get_def nth_opt_snoc_other split: Target.split)

interpretation container_log: op_log insert_arg container_get op_entry
proof
  fix op :: op_arg and c r c' r'
  obtain rwc rw reversible oe where a: "op = (rwc, rw, reversible, oe)"
    by (metis prod_cases4)
  assume "insert_arg op c = (r, c')"
  then have i: "insert_op_enum rwc rw reversible oe c = (r, c')"
    by (simp add: insert_arg_def a)
  show "container_get c' r = Some (op_entry op)"
    using i by (cases oe) (auto simp: container_defs op_entry_def a Let_def)
  show "container_get c r = None"
    using i by (cases oe) (auto simp: container_defs Let_def)
  show "container_get c' r' = container_get c r'" if "r' \<noteq> r"
    using container_get_other [of "fst r'" "snd r'" rwc rw reversible oe c] that i by simp
qed

lemma container_rwcs_insert:
  "insert_op_enum rwc rw reversible op c = (r, c') \<Longrightarrow>
     mset (container_rwcs c') = add_mset rwc (mset (container_rwcs c))"
  by (cases op) (auto simp: container_defs container_rwcs_def Let_def)

section \<open>Properties of the container\<close>

text \<open>
  C26: the container is a log. After any sequence of insertions into any container, the references returned
  are pairwise different, each finds the operation it was returned for (with its counter, read-write mark
  and, for a reversible target, its reversible flag), every operation that was there is still found under its
  reference, and the counters stored are the old ones and those inserted.
\<close>

theorem container_log_spec:
  assumes "insert_all insert_arg ops c = (rs, c')"
  shows "distinct rs \<and> map (container_get c') rs = map (\<lambda>op. Some (op_entry op)) ops \<and>
    (\<forall>r v. container_get c r = Some v \<longrightarrow> container_get c' r = Some v) \<and>
    mset (container_rwcs c') = mset (map fst ops) + mset (container_rwcs c)"
proof -
  have "mset (container_rwcs c') = mset (map fst ops) + mset (container_rwcs c)"
    using assms
  proof (induction ops arbitrary: c rs)
    case (Cons op ops)
    obtain r0 c0 where i: "insert_arg op c = (r0, c0)" by fastforce
    with Cons.prems obtain rs0 where "insert_all insert_arg ops c0 = (rs0, c')"
      by (auto simp: Let_def split: prod.splits)
    moreover have "mset (container_rwcs c0) = add_mset (fst op) (mset (container_rwcs c))"
      using i container_rwcs_insert by (cases op) (auto simp: insert_arg_def)
    ultimately show ?case using Cons.IH by simp
  qed simp
  then show ?thesis
    using container_log.insert_all_log [OF assms] container_log.insert_all_kept [OF assms] by auto
qed

theorem container_log_spec_witness:
  "insert_all insert_arg
     [(1, WRITE, True, OpStack \<lparr>stk_call_id = 1, stk_address = 1023, stk_value = 7\<rparr>),
      (2, WRITE, True, OpTxRefund \<lparr>rfd_tx_id = 1, rfd_value = 5, rfd_value_prev = 0\<rparr>)] container_new =
     ([(TStack, 0), (TTxRefund, 0)],
      container_new\<lparr>
        oc_stack := [\<lparr>op_rwc = 1, op_rw = WRITE, op_reversible = False,
                      op_op = \<lparr>stk_call_id = 1, stk_address = 1023, stk_value = 7\<rparr>\<rparr>],
        oc_tx_refund := [\<lparr>op_rwc = 2, op_rw = WRITE, op_reversible = True,
                      op_op = \<lparr>rfd_tx_id = 1, rfd_value = 5, rfd_value_prev = 0\<rparr>\<rparr>]\<rparr>) \<and>
   distinct [(TStack, 0 :: nat), (TTxRefund, 0)]"
proof -
  have h: "insert_all insert_arg
     [(1, WRITE, True, OpStack \<lparr>stk_call_id = 1, stk_address = 1023, stk_value = 7\<rparr>),
      (2, WRITE, True, OpTxRefund \<lparr>rfd_tx_id = 1, rfd_value = 5, rfd_value_prev = 0\<rparr>)] container_new =
     ([(TStack, 0), (TTxRefund, 0)],
      container_new\<lparr>
        oc_stack := [\<lparr>op_rwc = 1, op_rw = WRITE, op_reversible = False,
                      op_op = \<lparr>stk_call_id = 1, stk_address = 1023, stk_value = 7\<rparr>\<rparr>],
        oc_tx_refund := [\<lparr>op_rwc = 2, op_rw = WRITE, op_reversible = True,
                      op_op = \<lparr>rfd_tx_id = 1, rfd_value = 5, rfd_value_prev = 0\<rparr>\<rparr>]\<rparr>)"
    by (simp add: insert_arg_def container_defs container_new_def)
  show ?thesis using h container_log_spec [OF h] by blast
qed

text \<open>
  C27: \<open>sorted_memory\<close>, \<open>sorted_stack\<close> and \<open>sorted_storage\<close> return the operations of their vector, none lost or repeated,
  in the lexicographic order of their key and counter: call id and address for memory and stack, account
  address and key for storage. In each of the three, operations that agree on all of these keep their order.
\<close>

theorem sorted_ops_spec:
  "mset (sorted_memory c) = mset (oc_memory c) \<and>
   sorted (map (\<lambda>o'. ((mem_call_id (op_op o'), mem_address (op_op o')), op_rwc o')) (sorted_memory c)) \<and>
   mset (sorted_stack c) = mset (oc_stack c) \<and>
   sorted (map (\<lambda>o'. ((stk_call_id (op_op o'), stk_address (op_op o')), op_rwc o')) (sorted_stack c)) \<and>
   mset (sorted_storage c) = mset (oc_storage c) \<and>
   sorted (map (\<lambda>o'. ((sto_address (op_op o'), sto_key (op_op o')), op_rwc o')) (sorted_storage c)) \<and>
   filter (\<lambda>o'. operation_cmp memory_op_cmp k o' = Equal) (sorted_memory c) =
     filter (\<lambda>o'. operation_cmp memory_op_cmp k o' = Equal) (oc_memory c) \<and>
   filter (\<lambda>o'. operation_cmp stack_op_cmp k' o' = Equal) (sorted_stack c) =
     filter (\<lambda>o'. operation_cmp stack_op_cmp k' o' = Equal) (oc_stack c) \<and>
   filter (\<lambda>o'. operation_cmp storage_op_cmp k'' o' = Equal) (sorted_storage c) =
     filter (\<lambda>o'. operation_cmp storage_op_cmp k'' o' = Equal) (oc_storage c)"
  unfolding sorted_memory_def sorted_stack_def sorted_storage_def
  by (intro conjI memory_ord.mset_sort stack_ord.mset_sort storage_ord.mset_sort memory_ord.sort_stable
      stack_ord.sort_stable storage_ord.sort_stable sort_operation_key(2) memory_op_cmp_def stack_op_cmp_def storage_op_cmp_def)

end
