(* ===== verification/Exec_Types.thy ===== *)
theory Exec_Types
  imports State_Db Operation
begin

text \<open>
  The data the circuit input builder works on: the errors of \<^verbatim>\<open>bus-mapping/src/error.rs\<close>, the geth trace
  (\<^verbatim>\<open>eth-types/src/lib.rs\<close>), and the steps, calls, transactions and blocks of
  \<^verbatim>\<open>bus-mapping/src/circuit_input_builder/\<close> (\<^verbatim>\<open>execution.rs\<close>, \<^verbatim>\<open>call.rs\<close>, \<^verbatim>\<open>transaction.rs\<close>, \<^verbatim>\<open>block.rs\<close>).

  The call depth of a geth step, at most 1025, is a \<open>nat\<close>; so are identifiers and indices (\<open>usize\<close>). The
  payload of third-party errors (serde, JSON-RPC) is left out. \<open>get_contract_address\<close> is third-party code:
  a parameter.
\<close>

section \<open>Geth traces\<close>

record GethExecStep =
  gs_pc :: u64
  gs_op :: OpcodeId
  gs_gas :: u64
  gs_gas_cost :: u64
  gs_refund :: u64
  gs_depth :: nat
  gs_error :: "string option"
  gs_stack :: Stack
  gs_memory :: Memory
  gs_storage :: Storage

record GethExecTrace =
  gt_gas :: u64
  gt_failed :: bool
  gt_return_value :: string
  gt_struct_logs :: "GethExecStep list"

section \<open>Errors\<close>

datatype OogError =
    Oog_Constant | Oog_StaticMemoryExpansion | Oog_DynamicMemoryExpansion | Oog_MemoryCopy | Oog_AccountAccess
  | Oog_CodeStore | Oog_Log | Oog_Exp | Oog_Sha3 | Oog_SloadSstore | Oog_Call | Oog_Create | Oog_SelfDestruct

datatype InsufficientBalanceError = IB_Call | IB_Create | IB_Create2
datatype NonceUintOverflowError = NO_Create | NO_Create2
datatype DepthError = DE_Call | DE_Create | DE_Create2

datatype ExecError =
    InvalidOpcode
  | StackOverflow
  | StackUnderflow
  | OutOfGas OogError
  | WriteProtection
  | Depth DepthError
  | InsufficientBalance InsufficientBalanceError
  | ContractAddressCollision
  | InvalidCreationCode
  | InvalidJump
  | ReturnDataOutOfBounds
  | CodeStoreOutOfGas
  | MaxCodeSizeExceeded
  | NonceUintOverflow NonceUintOverflowError

datatype bm_error =
    SerdeError
  | JSONRpcError
  | OpcodeIdNotCallType
  | AccountNotFound Address
  | StorageKeyNotFound Address Word
  | AddressNotFound Address
  | CodeNotFound Hash
  | UnexpectedExecStepError string GethExecStep
  | InvalidGethExecTrace string
  | InvalidGethExecStep string GethExecStep
  | EthTypeError eth_error
  | ExecutionError ExecError
  | InternalError string

type_synonym 'a res = "('a, bm_error) result"

text \<open>The operator \<open>?\<close> on a result of the eth-types crate.\<close>

abbreviation eth_err :: "('a, eth_error) result \<Rightarrow> 'a res" where
  "eth_err m \<equiv> map_err EthTypeError m"

definition GETH_ERR_STACK_OVERFLOW :: string where
  "GETH_ERR_STACK_OVERFLOW = ''stack limit reached''"

definition GETH_ERR_STACK_UNDERFLOW :: string where
  "GETH_ERR_STACK_UNDERFLOW = ''stack underflow''"

definition GETH_ERR_OUT_OF_GAS :: string where
  "GETH_ERR_OUT_OF_GAS = ''out of gas''"

definition GETH_ERR_GAS_UINT_OVERFLOW :: string where
  "GETH_ERR_GAS_UINT_OVERFLOW = ''gas uint64 overflow''"

definition oog_error_from :: "OpcodeId \<Rightarrow> OogError" where
  "oog_error_from op =
     (if op \<in> {Flow MLOAD, Flow MSTORE, Flow MSTORE8} then Oog_StaticMemoryExpansion
      else if op \<in> {Sys RETURN, Sys REVERT} then Oog_DynamicMemoryExpansion
      else if op \<in> {Flow CALLDATACOPY, Flow CODECOPY, Ext EXTCODECOPY, Ext RETURNDATACOPY} then Oog_MemoryCopy
      else if op \<in> {Ext BALANCE, Ext EXTCODESIZE, Ext EXTCODEHASH} then Oog_AccountAccess
      else if op \<in> {Log LOG0, Log LOG1, Log LOG2, Log LOG3, Log LOG4} then Oog_Log
      else if op = Arith EXP then Oog_Exp
      else if op = Ext SHA3 then Oog_Sha3
      else if op \<in> {Sys CALL, Sys CALLCODE, Sys DELEGATECALL, Sys STATICCALL} then Oog_Call
      else if op \<in> {Ext SLOAD, Ext SSTORE} then Oog_SloadSstore
      else if op \<in> {Sys CREATE, Sys CREATE2} then Oog_Create
      else if op = Sys SELFDESTRUCT then Oog_SelfDestruct
      else Oog_Constant)"

text \<open>\<open>ExecError::try_from(step)\<close>: \<open>Inr None\<close> stands for \<open>Err(())\<close>, a step without an error.\<close>

definition exec_error_try_from :: "GethExecStep \<Rightarrow> ExecError option res" where
  "exec_error_try_from step = (case gs_error step of
       None \<Rightarrow> Inr None
     | Some error \<Rightarrow>
         if error = GETH_ERR_OUT_OF_GAS \<or> error = GETH_ERR_GAS_UINT_OVERFLOW
         then Inr (Some (OutOfGas (oog_error_from (gs_op step))))
         else if strip_prefix GETH_ERR_STACK_OVERFLOW error \<noteq> None then Inr (Some StackOverflow)
         else if strip_prefix GETH_ERR_STACK_UNDERFLOW error \<noteq> None then Inr (Some StackUnderflow)
         else Inl (Panic ''Unknown GethExecStep.error''))"

section \<open>Calls\<close>

datatype CallKind = CK_Call | CK_CallCode | CK_DelegateCall | CK_StaticCall | CK_Create | CK_Create2

definition call_kind_is_create :: "CallKind \<Rightarrow> bool" where
  "call_kind_is_create kind = (kind = CK_Create \<or> kind = CK_Create2)"

definition call_kind_try_from :: "OpcodeId \<Rightarrow> CallKind res" where
  "call_kind_try_from op =
     (if op = Sys CALL then Inr CK_Call
      else if op = Sys CALLCODE then Inr CK_CallCode
      else if op = Sys DELEGATECALL then Inr CK_DelegateCall
      else if op = Sys STATICCALL then Inr CK_StaticCall
      else if op = Sys CREATE then Inr CK_Create
      else if op = Sys CREATE2 then Inr CK_Create2
      else Inl (Err OpcodeIdNotCallType))"

datatype CodeSource = CS_Address Address | CS_Tx | CS_Memory

record Call =
  call_id :: usize
  caller_id :: usize
  last_callee_id :: usize
  kind :: CallKind
  is_static :: bool
  is_root :: bool
  is_persistent :: bool
  is_success :: bool
  rw_counter_end_of_reversion :: usize
  caller_address :: Address
  address :: Address
  code_source :: CodeSource
  cl_code_hash :: Hash
  depth :: usize
  cl_value :: Word
  call_data_offset :: u64
  call_data_length :: u64
  return_data_offset :: u64
  return_data_length :: u64
  last_callee_return_data_offset :: u64
  last_callee_return_data_length :: u64

text \<open>\<open>Call::default()\<close>.\<close>

definition call_default :: Call where
  "call_default = \<lparr>call_id = 0, caller_id = 0, last_callee_id = 0, kind = CK_Call, is_static = False,
     is_root = False, is_persistent = False, is_success = False, rw_counter_end_of_reversion = 0,
     caller_address = 0, address = 0, code_source = CS_Tx, cl_code_hash = 0, depth = 0, cl_value = 0,
     call_data_offset = 0, call_data_length = 0, return_data_offset = 0, return_data_length = 0,
     last_callee_return_data_offset = 0, last_callee_return_data_length = 0\<rparr>"

definition is_create :: "Call \<Rightarrow> bool" where
  "is_create call = call_kind_is_create (kind call)"

definition is_delegatecall :: "Call \<Rightarrow> bool" where
  "is_delegatecall call = (kind call = CK_DelegateCall)"

definition code_address :: "Call \<Rightarrow> Address option" where
  "code_address call =
     (if kind call = CK_Call \<or> kind call = CK_StaticCall then Some (address call)
      else if kind call = CK_CallCode \<or> kind call = CK_DelegateCall
      then (case code_source call of CS_Address a \<Rightarrow> Some a | _ \<Rightarrow> None)
      else None)"

record CallContext =
  cx_index :: usize
  cx_reversible_write_counter :: usize
  cx_call_data :: "u8 list"
  cx_memory :: Memory
  cx_return_data :: "u8 list"

definition cx_memory_word_size :: "CallContext \<Rightarrow> u64" where
  "cx_memory_word_size cx = of_nat (length (cx_memory cx)) div 32"

record ReversionGroup =
  rg_calls :: "(usize \<times> usize) list"
  rg_op_refs :: "(usize \<times> OperationRef) list"

section \<open>Execution steps\<close>

datatype ExecState = ES_Op OpcodeId | ES_BeginTx | ES_EndTx | ES_EndBlock

record ExecStep =
  es_exec_state :: ExecState
  es_pc :: u64
  es_stack_size :: usize
  es_memory_size :: usize
  es_gas_left :: u64
  es_gas_cost :: u64
  es_gas_refund :: u64
  es_call_index :: usize
  es_rwc :: RWCounter
  es_reversible_write_counter :: usize
  es_reversible_write_counter_delta :: usize
  es_log_id :: usize
  es_bus_mapping_instance :: "OperationRef list"
  es_copy_rw_counter_delta :: u64
  es_error :: "ExecError option"

text \<open>\<open>ExecStep::default()\<close>; the counter starts at one, the state is the opcode \<open>STOP\<close>.\<close>

definition exec_step_default :: ExecStep where
  "exec_step_default = \<lparr>es_exec_state = ES_Op (Arith STOP), es_pc = 0, es_stack_size = 0, es_memory_size = 0,
     es_gas_left = 0, es_gas_cost = 0, es_gas_refund = 0, es_call_index = 0, es_rwc = rwc_new,
     es_reversible_write_counter = 0, es_reversible_write_counter_delta = 0, es_log_id = 0,
     es_bus_mapping_instance = [], es_copy_rw_counter_delta = 0, es_error = None\<rparr>"

definition exec_step_new :: "GethExecStep \<Rightarrow> CallContext \<Rightarrow> RWCounter \<Rightarrow> usize \<Rightarrow> usize \<Rightarrow> ExecStep" where
  "exec_step_new step call_ctx rwc reversible_write_counter log_id =
     \<lparr>es_exec_state = ES_Op (gs_op step), es_pc = gs_pc step, es_stack_size = length (gs_stack step),
      es_memory_size = length (cx_memory call_ctx), es_gas_left = gs_gas step, es_gas_cost = gs_gas_cost step,
      es_gas_refund = gs_refund step, es_call_index = cx_index call_ctx, es_rwc = rwc,
      es_reversible_write_counter = reversible_write_counter, es_reversible_write_counter_delta = 0,
      es_log_id = log_id, es_bus_mapping_instance = [], es_copy_rw_counter_delta = 0, es_error = None\<rparr>"

definition oog_or_stack_error :: "ExecStep \<Rightarrow> bool" where
  "oog_or_stack_error step = (case es_error step of
       Some (OutOfGas _) \<Rightarrow> True | Some StackOverflow \<Rightarrow> True | Some StackUnderflow \<Rightarrow> True | _ \<Rightarrow> False)"

definition es_opcode :: "ExecStep \<Rightarrow> OpcodeId option" where
  "es_opcode step = (case es_exec_state step of ES_Op op \<Rightarrow> Some op | _ \<Rightarrow> None)"

definition rw_index :: "ExecStep \<Rightarrow> usize \<Rightarrow> OperationRef res" where
  "rw_index step index = ok_or (nth_opt (es_bus_mapping_instance step) index) (Panic ''index out of bounds'')"

definition rw_indices_len :: "ExecStep \<Rightarrow> usize" where
  "rw_indices_len step = length (es_bus_mapping_instance step)"

definition es_stack_pointer :: "ExecStep \<Rightarrow> u64 res" where
  "es_stack_pointer step = u64_sub 1024 (of_nat (es_stack_size step))"

definition es_memory_word_size :: "ExecStep \<Rightarrow> u64 res" where
  "es_memory_word_size step =
     (if es_memory_size step mod 32 = 0 then Inr (of_nat (es_memory_size step) div 32)
      else Inl (Panic ''assertion failed''))"

section \<open>Copy and exponentiation events\<close>

datatype CopyDataType = CDT_Padding | CDT_Bytecode | CDT_Memory | CDT_TxCalldata | CDT_TxLog | CDT_RlcAcc

datatype NumberOrHash = Number usize | HashId Hash

record CopyEvent =
  ce_src_addr :: u64
  ce_src_addr_end :: u64
  ce_src_type :: CopyDataType
  ce_src_id :: NumberOrHash
  ce_dst_addr :: u64
  ce_dst_type :: CopyDataType
  ce_dst_id :: NumberOrHash
  ce_log_id :: "u64 option"
  ce_rw_counter_start :: RWCounter
  ce_bytes :: "(u8 \<times> bool) list"

text \<open>
  The counters of a copy event are 64-bit numbers in the code; they count operations in memory and are
  natural numbers here. \<open>checked_sub(..).unwrap_or_default()\<close> is the subtraction of natural numbers.
\<close>

definition rw_counter_increase :: "CopyEvent \<Rightarrow> usize \<Rightarrow> nat res" where
  "rw_counter_increase ev step_index =
     bindE (case ce_src_type ev of
              CDT_Bytecode \<Rightarrow> Inr 0
            | CDT_TxCalldata \<Rightarrow> Inr 0
            | CDT_Memory \<Rightarrow> Inr (min ((step_index + 1) div 2) (unat (ce_src_addr_end ev) - unat (ce_src_addr ev)))
            | _ \<Rightarrow> Inl (Panic ''unreachable'')) (\<lambda>source_rw_increase.
     bindE (case ce_dst_type ev of
              CDT_RlcAcc \<Rightarrow> Inr 0
            | CDT_Bytecode \<Rightarrow> Inr 0
            | CDT_TxLog \<Rightarrow> Inr (step_index div 2)
            | CDT_Memory \<Rightarrow> Inr (step_index div 2)
            | _ \<Rightarrow> Inl (Panic ''unreachable'')) (\<lambda>destination_rw_increase.
     Inr (source_rw_increase + destination_rw_increase)))"

definition ce_rw_counter :: "CopyEvent \<Rightarrow> usize \<Rightarrow> nat res" where
  "ce_rw_counter ev step_index =
     bindE (rw_counter_increase ev step_index) (\<lambda>i. Inr (ce_rw_counter_start ev + i))"

definition rw_counter_increase_left :: "CopyEvent \<Rightarrow> usize \<Rightarrow> nat res" where
  "rw_counter_increase_left ev step_index =
     bindE (ce_rw_counter ev (length (ce_bytes ev) * 2)) (\<lambda>e.
     bindE (ce_rw_counter ev step_index) (\<lambda>c.
       if c \<le> e then Inr (e - c) else Inl (Panic ''attempt to subtract with overflow'')))"

definition rw_counter_delta :: "CopyEvent \<Rightarrow> nat res" where
  "rw_counter_delta ev = rw_counter_increase ev (length (ce_bytes ev) * 2)"

record ExpStep =
  xs_a :: Word
  xs_b :: Word
  xs_d :: Word

record ExpEvent =
  xe_identifier :: usize
  xe_base :: Word
  xe_exponent :: Word
  xe_exponentiation :: Word
  xe_steps :: "ExpStep list"

definition exp_event_default :: ExpEvent where
  "exp_event_default = \<lparr>xe_identifier = 0, xe_base = 2, xe_exponent = 2, xe_exponentiation = 4,
     xe_steps = [\<lparr>xs_a = 2, xs_b = 2, xs_d = 4\<rparr>]\<rparr>"

section \<open>Transactions\<close>

text \<open>
  The fields the code uses of the third-party \<open>Transaction\<close> and \<open>Block\<close>; the signature and the access list of
  a transaction are only carried along and left out.
\<close>

record EthTransaction =
  et_from :: Address
  et_to :: "Address option"
  et_nonce :: Word
  et_gas :: Word
  et_value :: Word
  et_gas_price :: "Word option"
  et_max_priority_fee_per_gas :: "Word option"
  et_max_fee_per_gas :: "Word option"
  et_input :: "u8 list"
  et_transaction_index :: "u64 option"

record EthBlock =
  eb_author :: "Address option"
  eb_number :: "u64 option"
  eb_gas_limit :: Word
  eb_timestamp :: Word
  eb_difficulty :: Word
  eb_base_fee_per_gas :: "Word option"
  eb_transactions :: "EthTransaction list"

record GethTransaction =
  gx_from :: Address
  gx_to :: "Address option"
  gx_nonce :: u64
  gx_gas_limit :: u64
  gx_value :: Word
  gx_gas_price :: Word
  gx_gas_tip_cap :: Word
  gx_gas_fee_cap :: Word
  gx_call_data :: "u8 list"

definition unwrap_or_default :: "Word option \<Rightarrow> Word" where
  "unwrap_or_default v = (case v of Some v \<Rightarrow> v | None \<Rightarrow> 0)"

definition geth_transaction_from :: "EthTransaction \<Rightarrow> GethTransaction res" where
  "geth_transaction_from tx =
     bindE (u256_as_u64 (et_nonce tx)) (\<lambda>nonce.
     bindE (u256_as_u64 (et_gas tx)) (\<lambda>gas.
     Inr \<lparr>gx_from = et_from tx, gx_to = et_to tx, gx_nonce = nonce, gx_gas_limit = gas, gx_value = et_value tx,
          gx_gas_price = unwrap_or_default (et_gas_price tx),
          gx_gas_tip_cap = unwrap_or_default (et_max_priority_fee_per_gas tx),
          gx_gas_fee_cap = unwrap_or_default (et_max_fee_per_gas tx), gx_call_data = et_input tx\<rparr>))"

definition geth_transaction_default :: GethTransaction where
  "geth_transaction_default = \<lparr>gx_from = 0, gx_to = None, gx_nonce = 0, gx_gas_limit = 0, gx_value = 0,
     gx_gas_price = 0, gx_gas_tip_cap = 0, gx_gas_fee_cap = 0, gx_call_data = []\<rparr>"

definition call_data_gas_cost :: "GethTransaction \<Rightarrow> u64 res" where
  "call_data_gas_cost tx = foldE (\<lambda>byte acc. u64_add acc (if byte = 0 then 4 else 16)) (gx_call_data tx) 0"

definition to_or_contract_addr :: "(Address \<Rightarrow> Word \<Rightarrow> Address) \<Rightarrow> GethTransaction \<Rightarrow> Address" where
  "to_or_contract_addr get_contract_address tx = (case gx_to tx of
       Some a \<Rightarrow> a
     | None \<Rightarrow> get_contract_address (gx_from tx) (ucast (gx_nonce tx)))"

definition tx_is_create :: "GethTransaction \<Rightarrow> bool" where
  "tx_is_create tx = (gx_to tx = None)"

record TransactionContext =
  tc_id :: usize
  tc_log_id :: usize
  tc_is_last_tx :: bool
  tc_calls :: "CallContext list"
  tc_call_is_success :: "bool list"
  tc_reversion_groups :: "ReversionGroup list"

definition tx_ctx_default :: TransactionContext where
  "tx_ctx_default = \<lparr>tc_id = 0, tc_log_id = 0, tc_is_last_tx = False, tc_calls = [],
     tc_call_is_success = [], tc_reversion_groups = []\<rparr>"

definition caller_ctx :: "TransactionContext \<Rightarrow> CallContext res" where
  "caller_ctx tc =
     (if length (tc_calls tc) < 2 then Inl (Err (InvalidGethExecTrace ''Call stack is empty but call is used''))
      else Inr (tc_calls tc ! (length (tc_calls tc) - 2)))"

definition call_ctx :: "TransactionContext \<Rightarrow> CallContext res" where
  "call_ctx tc =
     (if tc_calls tc = [] then Inl (Err (InvalidGethExecTrace ''Call stack is empty but call is used''))
      else Inr (last (tc_calls tc)))"

definition caller_index :: "TransactionContext \<Rightarrow> usize res" where
  "caller_index tc = bindE (caller_ctx tc) (\<lambda>call. Inr (cx_index call))"

definition call_index :: "TransactionContext \<Rightarrow> usize res" where
  "call_index tc = bindE (call_ctx tc) (\<lambda>call. Inr (cx_index call))"

text \<open>\<open>call_ctx_mut\<close> with the update made through it.\<close>

definition call_ctx_mut :: "(CallContext \<Rightarrow> CallContext) \<Rightarrow> TransactionContext \<Rightarrow> TransactionContext res" where
  "call_ctx_mut f tc =
     (if tc_calls tc = [] then Inl (Err (InvalidGethExecTrace ''Call stack is empty but call is used''))
      else Inr (tc\<lparr>tc_calls := map_last f (tc_calls tc)\<rparr>))"

definition push_call_ctx :: "usize \<Rightarrow> u8 list \<Rightarrow> TransactionContext \<Rightarrow> TransactionContext res" where
  "push_call_ctx call_idx call_data tc =
     bindE (ok_or (nth_opt (tc_call_is_success tc) call_idx) (Panic ''index out of bounds'')) (\<lambda>success.
     bindE (if \<not> success then
              Inr (tc\<lparr>tc_reversion_groups := tc_reversion_groups tc @ [\<lparr>rg_calls = [(call_idx, 0)], rg_op_refs = []\<rparr>]\<rparr>)
            else if tc_reversion_groups tc = [] then Inr tc
            else if tc_calls tc = [] then Inl (Panic ''calls should not be empty'')
            else
              let caller_ctx = last (tc_calls tc);
                  reversion_group = last (tc_reversion_groups tc)
              in case find (\<lambda>(call_idx, _). call_idx = cx_index caller_ctx) (rg_calls reversion_group) of
                   None \<Rightarrow> Inl (Panic ''calls should not be empty'')
                 | Some (_, caller_reversible_write_counter_offset) \<Rightarrow>
                     Inr (tc\<lparr>tc_reversion_groups := map_last (\<lambda>rg. rg\<lparr>rg_calls := rg_calls rg @
                            [(call_idx, cx_reversible_write_counter caller_ctx + caller_reversible_write_counter_offset)]\<rparr>)
                          (tc_reversion_groups tc)\<rparr>)) (\<lambda>tc.
     Inr (tc\<lparr>tc_calls := tc_calls tc @ [\<lparr>cx_index = call_idx, cx_reversible_write_counter = 0,
            cx_call_data = call_data, cx_memory = memory_new, cx_return_data = []\<rparr>]\<rparr>)))"

definition pop_call_ctx :: "TransactionContext \<Rightarrow> TransactionContext res" where
  "pop_call_ctx tc =
     (if tc_calls tc = [] then Inl (Panic ''calls should not be empty'')
      else
        let call = last (tc_calls tc); calls = butlast (tc_calls tc)
        in bindE (ok_or (nth_opt (tc_call_is_success tc) (cx_index call)) (Panic ''index out of bounds'')) (\<lambda>success.
             Inr (tc\<lparr>tc_calls :=
                    (if success
                     then map_last (\<lambda>caller. caller\<lparr>cx_reversible_write_counter :=
                            cx_reversible_write_counter caller + cx_reversible_write_counter call\<rparr>) calls
                     else calls)\<rparr>)))"

text \<open>
  \<open>TransactionContext::new\<close>. The loop over the trace keeps the map from the index of a call step to its result
  (a \<open>BTreeMap\<close>, read at the end in the order of the keys) and the stack of the open calls.
\<close>

definition call_success_step ::
  "GethExecStep list \<Rightarrow> usize \<times> GethExecStep \<Rightarrow> (usize \<times> bool) list \<times> usize list \<Rightarrow>
     ((usize \<times> bool) list \<times> usize list) res" where
  "call_success_step logs = (\<lambda>(index, geth_step) (call_is_success_map, call_indices).
     (case nth_opt logs (index + 1) of
        None \<Rightarrow> Inr (call_is_success_map, call_indices)
      | Some geth_next_step \<Rightarrow>
          if gs_depth geth_step + 1 = gs_depth geth_next_step then
            Inr (call_is_success_map, call_indices @ [index])
          else if gs_depth geth_step = 0 then Inl (Panic ''attempt to subtract with overflow'')
          else if gs_depth geth_step - 1 = gs_depth geth_next_step then
            bindE (eth_err (stack_last (gs_stack geth_next_step))) (\<lambda>top.
              if call_indices = [] then Inl (Panic ''called Option::unwrap() on a None value'')
              else Inr (AList.update (last call_indices) (top \<noteq> 0) call_is_success_map, butlast call_indices))
          else if (case call_kind_try_from (gs_op geth_step) of Inr _ \<Rightarrow> True | Inl _ \<Rightarrow> False) then
            bindE (eth_err (stack_last (gs_stack geth_next_step))) (\<lambda>top.
              Inr (AList.update index (top \<noteq> 0) call_is_success_map, call_indices))
          else Inr (call_is_success_map, call_indices)))"

definition collect_call_is_success :: "GethExecTrace \<Rightarrow> bool list res" where
  "collect_call_is_success geth_trace =
     bindE (foldE (call_success_step (gt_struct_logs geth_trace)) (enumerate 0 (gt_struct_logs geth_trace)) ([], []))
       (\<lambda>(m, _). Inr ((\<not> gt_failed geth_trace) # map snd (sort_key fst m)))"

definition tx_ctx_new :: "EthTransaction \<Rightarrow> GethExecTrace \<Rightarrow> bool \<Rightarrow> TransactionContext res" where
  "tx_ctx_new eth_tx geth_trace is_last_tx =
     bindE (collect_call_is_success geth_trace) (\<lambda>call_is_success.
     bindE (ok_or (et_transaction_index eth_tx) (Err (EthTypeError IncompleteBlock))) (\<lambda>index.
     push_call_ctx 0 (et_input eth_tx)
       \<lparr>tc_id = unat index + 1, tc_log_id = 0, tc_is_last_tx = is_last_tx, tc_calls = [],
        tc_call_is_success = call_is_success, tc_reversion_groups = []\<rparr>))"

record Transaction =
  tx_id :: u64
  tx_tx :: GethTransaction
  tx_calls :: "Call list"
  tx_steps :: "ExecStep list"

definition transaction_default :: Transaction where
  "transaction_default = \<lparr>tx_id = 0, tx_tx = geth_transaction_default, tx_calls = [], tx_steps = []\<rparr>"

definition transaction_new ::
  "keccak \<Rightarrow> (Address \<Rightarrow> Word \<Rightarrow> Address) \<Rightarrow> u64 \<Rightarrow> usize \<Rightarrow> StateDB \<Rightarrow> EthTransaction \<Rightarrow> bool \<Rightarrow> CodeDB \<Rightarrow>
     (Transaction \<times> CodeDB) res" where
  "transaction_new k get_contract_address new_id new_call_id sdb eth_tx success code_db =
     (if \<not> fst (get_account k sdb (et_from eth_tx)) then Inl (Err (AccountNotFound (et_from eth_tx)))
      else
        bindE (case et_to eth_tx of
                 Some to \<Rightarrow>
                   let (found, account) = get_account k sdb to
                   in if \<not> found then Inl (Err (AccountNotFound to))
                      else Inr (call_default\<lparr>call_id := new_call_id, kind := CK_Call, is_root := True, is_persistent := success,
                             is_success := success, caller_address := et_from eth_tx, address := to,
                             code_source := CS_Address to, cl_code_hash := code_hash account, depth := 1,
                             cl_value := et_value eth_tx, call_data_length := of_nat (length (et_input eth_tx))\<rparr>, code_db)
               | None \<Rightarrow>
                   let (hash, code_db) = codedb_insert k (et_input eth_tx) code_db
                   in Inr (call_default\<lparr>call_id := new_call_id, kind := CK_Create, is_root := True, is_persistent := success,
                             is_success := success, caller_address := et_from eth_tx,
                             address := get_contract_address (et_from eth_tx) (et_nonce eth_tx),
                             code_source := CS_Tx, cl_code_hash := hash, depth := 1,
                             cl_value := et_value eth_tx, call_data_length := 0\<rparr>, code_db)) (\<lambda>(call, code_db).
        bindE (geth_transaction_from eth_tx) (\<lambda>tx.
        Inr (\<lparr>tx_id = new_id, tx_tx = tx, tx_calls = [call], tx_steps = []\<rparr>, code_db))))"

definition last_step :: "Transaction \<Rightarrow> ExecStep res" where
  "last_step tx = (if tx_steps tx = [] then Inl (Panic ''there is no steps in tx'')
     else Inr (tx_steps tx ! (length (tx_steps tx) - 1)))"

definition padding_tx :: "usize \<Rightarrow> Transaction" where
  "padding_tx new_id = transaction_default\<lparr>tx_id := of_nat new_id\<rparr>"

section \<open>Blocks\<close>

record BlockContext =
  bx_rwc :: RWCounter
  bx_call_map :: "usize \<rightharpoonup> usize \<times> usize"
  bx_cumulative_gas_used :: u64

definition block_context_new :: BlockContext where
  "block_context_new = \<lparr>bx_rwc = rwc_new, bx_call_map = Map.empty, bx_cumulative_gas_used = 0\<rparr>"

record BlockSteps =
  bs_end_block_not_last :: ExecStep
  bs_end_block_last :: ExecStep

record Block =
  bk_chain_id :: Word
  bk_history_hashes :: "Word list"
  bk_coinbase :: Address
  bk_gas_limit :: u64
  bk_number :: Word
  bk_timestamp :: Word
  bk_difficulty :: Word
  bk_base_fee :: Word
  bk_prev_state_root :: Word
  bk_container :: OperationContainer
  bk_txs :: "Transaction list"
  bk_block_steps :: BlockSteps
  bk_copy_events :: "CopyEvent list"
  bk_sha3_inputs :: "u8 list list"
  bk_exp_events :: "ExpEvent list"
  bk_eth_block :: EthBlock

text \<open>
  \<open>Block::new\<close>. Without a base fee the build without the feature \<open>warn-unimplemented\<close> panics; with it, the
  argument \<open>warn_unimplemented\<close>, it goes on with zero.
\<close>

definition block_new :: "bool \<Rightarrow> Word \<Rightarrow> Word list \<Rightarrow> Word \<Rightarrow> EthBlock \<Rightarrow> Block res" where
  "block_new warn_unimplemented chain_id history_hashes prev_state_root eth_block =
     (if eb_base_fee_per_gas eth_block = None \<and> \<not> warn_unimplemented
      then Inl (Panic ''This does not look like a EIP-1559 block - base_fee_per_gas defaults to zero'')
      else
        bindE (ok_or (eb_author eth_block) (Err (EthTypeError IncompleteBlock))) (\<lambda>author.
        bindE (ok_or (eb_number eth_block) (Err (EthTypeError IncompleteBlock))) (\<lambda>number.
        Inr \<lparr>bk_chain_id = chain_id, bk_history_hashes = history_hashes, bk_coinbase = author,
             bk_gas_limit = low_u64 (eb_gas_limit eth_block), bk_number = ucast number,
             bk_timestamp = eb_timestamp eth_block, bk_difficulty = eb_difficulty eth_block,
             bk_base_fee = unwrap_or_default (eb_base_fee_per_gas eth_block),
             bk_prev_state_root = prev_state_root, bk_container = container_new, bk_txs = [],
             bk_block_steps = \<lparr>bs_end_block_not_last = exec_step_default\<lparr>es_exec_state := ES_EndBlock\<rparr>,
                               bs_end_block_last = exec_step_default\<lparr>es_exec_state := ES_EndBlock\<rparr>\<rparr>,
             bk_copy_events = [], bk_sha3_inputs = [], bk_exp_events = [], bk_eth_block = eth_block\<rparr>)))"

definition add_copy_event :: "CopyEvent \<Rightarrow> Block \<Rightarrow> Block" where
  "add_copy_event event block = block\<lparr>bk_copy_events := bk_copy_events block @ [event]\<rparr>"

definition add_exp_event :: "ExpEvent \<Rightarrow> Block \<Rightarrow> Block" where
  "add_exp_event event block = block\<lparr>bk_exp_events := bk_exp_events block @ [event]\<rparr>"

section \<open>Counters of a copy event\<close>
definition copy_src_ok :: "CopyEvent \<Rightarrow> bool" where
  "copy_src_ok ev \<longleftrightarrow> ce_src_type ev \<in> {CDT_Bytecode, CDT_TxCalldata, CDT_Memory}"

definition copy_dst_ok :: "CopyEvent \<Rightarrow> bool" where
  "copy_dst_ok ev \<longleftrightarrow> ce_dst_type ev \<in> {CDT_RlcAcc, CDT_Bytecode, CDT_TxLog, CDT_Memory}"

text \<open>Row \<open>i\<close> of a copy event, reading when even and writing when odd, has a read-write operation of its own.\<close>

definition copy_row_rw :: "CopyEvent \<Rightarrow> nat \<Rightarrow> bool" where
  "copy_row_rw ev i =
     (if even i then ce_src_type ev = CDT_Memory \<and> unat (ce_src_addr ev) + i div 2 < unat (ce_src_addr_end ev)
      else ce_dst_type ev = CDT_Memory \<or> ce_dst_type ev = CDT_TxLog)"

definition copy_rows_before :: "CopyEvent \<Rightarrow> nat \<Rightarrow> nat" where
  "copy_rows_before ev i = length (filter (copy_row_rw ev) [0..<i])"

lemma copy_rows_before_Suc: "copy_rows_before ev (Suc i) = copy_rows_before ev i + (if copy_row_rw ev i then 1 else 0)"
  by (simp add: copy_rows_before_def)

lemma copy_rows_before_mono: "i \<le> j \<Longrightarrow> copy_rows_before ev i \<le> copy_rows_before ev j"
  by (induction j) (auto simp: le_Suc_eq copy_rows_before_Suc)

lemma copy_rows_before_eq:
  "copy_rows_before ev i =
     (if ce_src_type ev = CDT_Memory then min ((i + 1) div 2) (unat (ce_src_addr_end ev) - unat (ce_src_addr ev)) else 0) +
     (if ce_dst_type ev = CDT_Memory \<or> ce_dst_type ev = CDT_TxLog then i div 2 else 0)"
proof (induction i)
  case 0
  then show ?case by (simp add: copy_rows_before_def)
next
  case (Suc i)
  show ?case
  proof (cases "even i")
    case True
    then obtain j where "i = 2 * j" by (elim evenE)
    with Suc show ?thesis by (auto simp: copy_rows_before_Suc copy_row_rw_def min_def)
  next
    case False
    then obtain j where "i = 2 * j + 1" by (elim oddE)
    with Suc show ?thesis by (auto simp: copy_rows_before_Suc copy_row_rw_def)
  qed
qed

lemma rw_counter_increase_eq:
  assumes "copy_src_ok ev" and "copy_dst_ok ev"
  shows "rw_counter_increase ev i = Inr (copy_rows_before ev i)"
  using assms
  by (auto simp: rw_counter_increase_def copy_rows_before_eq copy_src_ok_def copy_dst_ok_def)

text \<open>
  C25: the counters of a copy event. For every source and destination type a copy event is made with, the
  counter at a row is the start counter plus the number of earlier rows that have an operation of their own (an even
  row reads memory while the source address is below its end, an odd row writes memory or a log); the total
  and the counter left at a row are the corresponding numbers of rows, and no subtraction underflows.
\<close>

theorem copy_event_counters:
  assumes "copy_src_ok ev" and "copy_dst_ok ev"
  shows "ce_rw_counter ev i = Inr (ce_rw_counter_start ev + card {j. j < i \<and> copy_row_rw ev j}) \<and>
    rw_counter_delta ev = Inr (card {j. j < 2 * length (ce_bytes ev) \<and> copy_row_rw ev j}) \<and>
    (i \<le> 2 * length (ce_bytes ev) \<longrightarrow>
      rw_counter_increase_left ev i = Inr (card {j. i \<le> j \<and> j < 2 * length (ce_bytes ev) \<and> copy_row_rw ev j}))"
proof -
  have c: "copy_rows_before ev n = card {j. j < n \<and> copy_row_rw ev j}" for n
    by (auto simp: copy_rows_before_def length_filter_conv_card intro!: arg_cong [where f = card])
  have left: "copy_rows_before ev n - copy_rows_before ev i = card {j. i \<le> j \<and> j < n \<and> copy_row_rw ev j}" if "i \<le> n" for n
  proof -
    have "{j. j < n \<and> copy_row_rw ev j} - {j. j < i \<and> copy_row_rw ev j} = {j. i \<le> j \<and> j < n \<and> copy_row_rw ev j}"
      by auto
    then show ?thesis
      using that card_Diff_subset [of "{j. j < i \<and> copy_row_rw ev j}" "{j. j < n \<and> copy_row_rw ev j}"]
      by (fastforce simp: c)
  qed
  show ?thesis
    using left [of "2 * length (ce_bytes ev)"] copy_rows_before_mono [of i "2 * length (ce_bytes ev)" ev]
    by (auto simp: rw_counter_delta_def ce_rw_counter_def rw_counter_increase_left_def mult.commute
        rw_counter_increase_eq [OF assms] c)
qed

theorem copy_event_counters_witness:
  "let ev = \<lparr>ce_src_addr = 10, ce_src_addr_end = 12, ce_src_type = CDT_Memory, ce_src_id = Number 1, ce_dst_addr = 0,
        ce_dst_type = CDT_Memory, ce_dst_id = Number 2, ce_log_id = None, ce_rw_counter_start = 7,
        ce_bytes = [(1, False), (2, False), (0, False)]\<rparr>
   in copy_src_ok ev \<and> copy_dst_ok ev \<and> rw_counter_delta ev = Inr 5 \<and>
      ce_rw_counter ev 6 = Inr (7 + card {j. j < 6 \<and> copy_row_rw ev j})"
proof -
  let ?ev = "\<lparr>ce_src_addr = 10, ce_src_addr_end = 12, ce_src_type = CDT_Memory, ce_src_id = Number 1, ce_dst_addr = 0,
        ce_dst_type = CDT_Memory, ce_dst_id = Number 2, ce_log_id = None, ce_rw_counter_start = 7,
        ce_bytes = [(1, False), (2, False), (0, False)]\<rparr>"
  have h: "copy_src_ok ?ev" "copy_dst_ok ?ev" by (simp_all add: copy_src_ok_def copy_dst_ok_def)
  have "rw_counter_delta ?ev = Inr 5" by (simp add: rw_counter_delta_def rw_counter_increase_def)
  with h copy_event_counters [OF h, of 6] show ?thesis by (simp add: Let_def)
qed
end
