(* ===== verification/Input_State.thy ===== *)
theory Input_State
  imports Exec_Types
begin

text \<open>
  The operations on the state of the circuit input builder,
  \<^verbatim>\<open>bus-mapping/src/circuit_input_builder/input_state_ref.rs\<close>: pushing operations, the check of account operations
  against the state database, transfers, calls, reversion, returns, and the classification of step errors.

  \<open>CircuitInputState\<close> is the state a \<open>CircuitInputStateRef\<close> borrows. A method that takes a \<open>&mut ExecStep\<close> works on the
  pair of the step and the state. \<open>Externals\<close> holds the third-party functions the code calls (keccak256, the address of
  a created contract, the RLP encoding of an address and a nonce, the table of precompiled contracts) and the build
  feature \<open>warn-unimplemented\<close>. A method that returns an error returns no state: the caller gives the transaction up.
\<close>

datatype Precompile = Standard "u8 list \<Rightarrow> u64 \<Rightarrow> (u64 \<times> u8 list) option" | Custom

record Externals =
  x_keccak256 :: keccak
  x_get_contract_address :: "Address \<Rightarrow> Word \<Rightarrow> Address"
  x_get_create2_address :: "Address \<Rightarrow> u8 list \<Rightarrow> u8 list \<Rightarrow> Address"
  x_rlp_address_nonce :: "Address \<Rightarrow> Word \<Rightarrow> u8 list"
  x_precompiles :: "Address \<Rightarrow> Precompile option"
  x_warn_unimplemented :: bool

record CircuitInputState =
  cs_sdb :: StateDB
  cs_code_db :: CodeDB
  cs_block :: Block
  cs_block_ctx :: BlockContext
  cs_tx :: Transaction
  cs_tx_ctx :: TransactionContext

type_synonym step_state = "ExecStep \<times> CircuitInputState"

abbreviation cs_rwc :: "CircuitInputState \<Rightarrow> RWCounter" where
  "cs_rwc st \<equiv> bx_rwc (cs_block_ctx st)"

abbreviation cs_container :: "CircuitInputState \<Rightarrow> OperationContainer" where
  "cs_container st \<equiv> bk_container (cs_block st)"

section \<open>The current call\<close>

definition nth_call :: "CircuitInputState \<Rightarrow> usize \<Rightarrow> Call res" where
  "nth_call st i = ok_or (nth_opt (tx_calls (cs_tx st)) i) (Panic ''index out of bounds'')"

definition cur_call :: "CircuitInputState \<Rightarrow> Call res" where
  "cur_call st = bindE (call_index (cs_tx_ctx st)) (nth_call st)"

definition cur_caller :: "CircuitInputState \<Rightarrow> Call res" where
  "cur_caller st = bindE (caller_index (cs_tx_ctx st)) (nth_call st)"

definition caller_mut :: "(Call \<Rightarrow> Call) \<Rightarrow> CircuitInputState \<Rightarrow> CircuitInputState res" where
  "caller_mut f st =
     bindE (caller_index (cs_tx_ctx st)) (\<lambda>i.
     bindE (nth_call st i) (\<lambda>c.
       Inr (st\<lparr>cs_tx := (cs_tx st)\<lparr>tx_calls := (tx_calls (cs_tx st))[i := f c]\<rparr>\<rparr>)))"

definition caller_ctx_mut :: "(CallContext \<Rightarrow> CallContext) \<Rightarrow> CircuitInputState \<Rightarrow> CircuitInputState res" where
  "caller_ctx_mut f st =
     (let calls = tc_calls (cs_tx_ctx st)
      in if length calls < 2 then Inl (Err (InternalError ''caller id not found in call map''))
         else Inr (st\<lparr>cs_tx_ctx := (cs_tx_ctx st)\<lparr>tc_calls :=
                calls[length calls - 2 := f (calls ! (length calls - 2))]\<rparr>\<rparr>))"

definition st_code :: "CircuitInputState \<Rightarrow> Hash \<Rightarrow> u8 list res" where
  "st_code st hash = ok_or (map_option code_bytes (get_from_h256 (cs_code_db st) hash)) (Err (CodeNotFound hash))"

section \<open>New steps\<close>

definition new_step :: "CircuitInputState \<Rightarrow> GethExecStep \<Rightarrow> ExecStep res" where
  "new_step st geth_step =
     bindE (call_ctx (cs_tx_ctx st)) (\<lambda>cx.
       Inr (exec_step_new geth_step cx (cs_rwc st) (cx_reversible_write_counter cx) (tc_log_id (cs_tx_ctx st))))"

definition new_begin_tx_step :: "CircuitInputState \<Rightarrow> ExecStep" where
  "new_begin_tx_step st = exec_step_default\<lparr>es_exec_state := ES_BeginTx,
     es_gas_left := gx_gas_limit (tx_tx (cs_tx st)), es_rwc := cs_rwc st\<rparr>"

definition new_end_tx_step :: "Externals \<Rightarrow> CircuitInputState \<Rightarrow> ExecStep res" where
  "new_end_tx_step x st =
     (if tx_steps (cs_tx st) = [] then Inl (Panic ''steps should have at least one BeginTx step'')
      else
        let prev_step = last (tx_steps (cs_tx st))
        in bindE (if es_error prev_step = None then
                    bindE (u64_sub (es_gas_left prev_step) (es_gas_cost prev_step)) (\<lambda>gas_left.
                    bindE (nth_call st 0) (\<lambda>call.
                      if is_create call then
                        let hash = code_hash (snd (get_account (x_keccak256 x) (cs_sdb st) (address call)))
                        in bindE (case st_code st hash of Inr code \<Rightarrow> Inr code | Inl _ \<Rightarrow> Inl (Panic ''called Result::unwrap() on an Err value'')) (\<lambda>code.
                           bindE (u64_mul (of_nat (length code)) GasCost_CODE_DEPOSIT_BYTE_COST) (\<lambda>deposit_cost.
                             if deposit_cost \<le> gas_left then Inr (gas_left - deposit_cost)
                             else Inl (Panic ''gas left is not enough for deposit cost'')))
                      else Inr gas_left))
                  else Inr 0) (\<lambda>gas_left.
           Inr (exec_step_default\<lparr>es_exec_state := ES_EndTx, es_gas_left := gas_left, es_rwc := cs_rwc st,
                  es_reversible_write_counter :=
                    (if tc_calls (cs_tx_ctx st) = [] then 0
                     else cx_reversible_write_counter (last (tc_calls (cs_tx_ctx st)))),
                  es_log_id := tc_log_id (cs_tx_ctx st)\<rparr>)))"

section \<open>Checking and applying operations\<close>

definition check_update_sdb_account :: "keccak \<Rightarrow> RW \<Rightarrow> AccountOp \<Rightarrow> StateDB \<Rightarrow> StateDB res" where
  "check_update_sdb_account k rw op sdb =
     (let (_, account, sdb) = get_account_mut k (acc_address op) sdb
      in if rw = READ \<and> acc_value_prev op \<noteq> acc_value op
         then Inl (Panic ''RWTable Account field read where value_prev != value'')
         else if acc_field op = AF_CodeHash \<and> is_empty k account \<and> acc_value op = 0 then Inr sdb
         else
           let account_value_prev = (case acc_field op of
                   AF_Nonce \<Rightarrow> ucast (nonce account)
                 | AF_Balance \<Rightarrow> balance account
                 | AF_CodeHash \<Rightarrow> if is_empty k account then 0 else code_hash account)
           in if acc_value_prev op \<noteq> account_value_prev
              then Inl (Panic ''RWTable Account field lookup doesn't match account value'')
              else if acc_field op \<noteq> AF_CodeHash \<and>
                (rw = READ \<or> (acc_value_prev op = 0 \<and> acc_value op = 0)) \<and> is_empty k account
              then Inl (Panic ''RWTable Account field lookup to non-existing account'')
              else if rw = WRITE then
                (case acc_field op of
                   AF_Nonce \<Rightarrow> bindE (u256_as_u64 (acc_value op)) (\<lambda>n.
                                Inr (set_account (acc_address op) (account\<lparr>nonce := n\<rparr>) sdb))
                 | AF_Balance \<Rightarrow> Inr (set_account (acc_address op) (account\<lparr>balance := acc_value op\<rparr>) sdb)
                 | AF_CodeHash \<Rightarrow> Inr (set_account (acc_address op) (account\<lparr>code_hash := acc_value op\<rparr>) sdb))
              else Inr sdb)"

definition check_apply_op :: "keccak \<Rightarrow> OpEnum \<Rightarrow> StateDB \<Rightarrow> StateDB res" where
  "check_apply_op k op sdb = (case op of
      OpStorage op \<Rightarrow> Inr (set_storage (sto_address op) (sto_key op) (sto_value op) sdb)
    | OpTxAccessListAccount op \<Rightarrow>
        let sdb = (if \<not> ala_is_warm_prev op \<and> ala_is_warm op then snd (add_account_to_access_list (ala_address op) sdb) else sdb)
        in if ala_is_warm_prev op \<and> \<not> ala_is_warm op then remove_account_from_access_list (ala_address op) sdb else Inr sdb
    | OpTxAccessListAccountStorage op \<Rightarrow>
        let sdb = (if \<not> als_is_warm_prev op \<and> als_is_warm op
                   then snd (add_account_storage_to_access_list (als_address op, als_key op) sdb) else sdb)
        in if als_is_warm_prev op \<and> \<not> als_is_warm op
           then remove_account_storage_from_access_list (als_address op, als_key op) sdb else Inr sdb
    | OpAccount op \<Rightarrow> check_update_sdb_account k WRITE op sdb
    | OpTxRefund op \<Rightarrow> Inr (set_refund (rfd_value op) sdb)
    | _ \<Rightarrow> Inl (Panic ''internal error: entered unreachable code''))"

text \<open>Insert an operation under the next counter and note its reference in the step.\<close>

definition insert_next :: "RW \<Rightarrow> bool \<Rightarrow> OpEnum \<Rightarrow> CircuitInputState \<Rightarrow> OperationRef \<times> CircuitInputState" where
  "insert_next rw reversible op st =
     (let (pre, rwc) = rwc_inc_pre (cs_rwc st);
          (op_ref, container) = insert_op_enum pre rw reversible op (cs_container st)
      in (op_ref, st\<lparr>cs_block := (cs_block st)\<lparr>bk_container := container\<rparr>,
                    cs_block_ctx := (cs_block_ctx st)\<lparr>bx_rwc := rwc\<rparr>\<rparr>))"

definition note_ref :: "OperationRef \<Rightarrow> ExecStep \<Rightarrow> ExecStep" where
  "note_ref op_ref step = step\<lparr>es_bus_mapping_instance := es_bus_mapping_instance step @ [op_ref]\<rparr>"

definition push_op :: "Externals \<Rightarrow> RW \<Rightarrow> OpEnum \<Rightarrow> step_state \<Rightarrow> step_state res" where
  "push_op x rw op = (\<lambda>(step, st).
     bindE (case op of OpAccount op \<Rightarrow> check_update_sdb_account (x_keccak256 x) rw op (cs_sdb st) | _ \<Rightarrow> Inr (cs_sdb st)) (\<lambda>sdb.
       let (op_ref, st) = insert_next rw False op (st\<lparr>cs_sdb := sdb\<rparr>)
       in Inr (note_ref op_ref step, st)))"

definition push_op_reversible :: "Externals \<Rightarrow> OpEnum \<Rightarrow> step_state \<Rightarrow> step_state res" where
  "push_op_reversible x op = (\<lambda>(step, st).
     bindE (check_apply_op (x_keccak256 x) op (cs_sdb st)) (\<lambda>sdb.
       let (op_ref, st) = insert_next WRITE True op (st\<lparr>cs_sdb := sdb\<rparr>);
           step = note_ref op_ref step
       in bindE (call_ctx_mut (\<lambda>cx. cx\<lparr>cx_reversible_write_counter := cx_reversible_write_counter cx + 1\<rparr>)
                   (cs_tx_ctx st)) (\<lambda>tx_ctx.
            let st = st\<lparr>cs_tx_ctx := tx_ctx\<rparr>;
                step = step\<lparr>es_reversible_write_counter_delta := es_reversible_write_counter_delta step + 1\<rparr>
            in bindE (cur_call st) (\<lambda>call.
                 if is_persistent call then Inr (step, st)
                 else if tc_reversion_groups (cs_tx_ctx st) = []
                 then Inl (Panic ''reversion_groups should not be empty for non-persistent call'')
                 else Inr (step, st\<lparr>cs_tx_ctx := (cs_tx_ctx st)\<lparr>tc_reversion_groups :=
                        map_last (\<lambda>rg. rg\<lparr>rg_op_refs := rg_op_refs rg @ [(length (tx_steps (cs_tx st)), op_ref)]\<rparr>)
                          (tc_reversion_groups (cs_tx_ctx st))\<rparr>\<rparr>)))))"

definition call_context_read :: "Externals \<Rightarrow> usize \<Rightarrow> CallContextField \<Rightarrow> Word \<Rightarrow> step_state \<Rightarrow> step_state res" where
  "call_context_read x cid field v =
     push_op x READ (OpCallContext \<lparr>cco_call_id = cid, cco_field = field, cco_value = v\<rparr>)"

definition call_context_write :: "Externals \<Rightarrow> usize \<Rightarrow> CallContextField \<Rightarrow> Word \<Rightarrow> step_state \<Rightarrow> step_state res" where
  "call_context_write x cid field v =
     push_op x WRITE (OpCallContext \<lparr>cco_call_id = cid, cco_field = field, cco_value = v\<rparr>)"

definition memory_read :: "Externals \<Rightarrow> MemoryAddress \<Rightarrow> u8 \<Rightarrow> step_state \<Rightarrow> step_state res" where
  "memory_read x addr v ss =
     bindE (cur_call (snd ss)) (\<lambda>call.
       push_op x READ (OpMemory \<lparr>mem_call_id = call_id call, mem_address = addr, mem_value = v\<rparr>) ss)"

definition memory_write :: "Externals \<Rightarrow> MemoryAddress \<Rightarrow> u8 \<Rightarrow> step_state \<Rightarrow> step_state res" where
  "memory_write x addr v ss =
     bindE (cur_call (snd ss)) (\<lambda>call.
       push_op x WRITE (OpMemory \<lparr>mem_call_id = call_id call, mem_address = addr, mem_value = v\<rparr>) ss)"

definition stack_write :: "Externals \<Rightarrow> StackAddress \<Rightarrow> Word \<Rightarrow> step_state \<Rightarrow> step_state res" where
  "stack_write x addr v ss =
     bindE (cur_call (snd ss)) (\<lambda>call.
       push_op x WRITE (OpStack \<lparr>stk_call_id = call_id call, stk_address = addr, stk_value = v\<rparr>) ss)"

definition stack_read :: "Externals \<Rightarrow> StackAddress \<Rightarrow> Word \<Rightarrow> step_state \<Rightarrow> step_state res" where
  "stack_read x addr v ss =
     bindE (cur_call (snd ss)) (\<lambda>call.
       push_op x READ (OpStack \<lparr>stk_call_id = call_id call, stk_address = addr, stk_value = v\<rparr>) ss)"

definition account_read :: "Externals \<Rightarrow> Address \<Rightarrow> AccountField \<Rightarrow> Word \<Rightarrow> step_state \<Rightarrow> step_state res" where
  "account_read x addr field v =
     push_op x READ (OpAccount \<lparr>acc_address = addr, acc_field = field, acc_value = v, acc_value_prev = v\<rparr>)"

definition account_write ::
  "Externals \<Rightarrow> Address \<Rightarrow> AccountField \<Rightarrow> Word \<Rightarrow> Word \<Rightarrow> step_state \<Rightarrow> step_state res" where
  "account_write x addr field v v_prev =
     push_op x WRITE (OpAccount \<lparr>acc_address = addr, acc_field = field, acc_value = v, acc_value_prev = v_prev\<rparr>)"

definition tx_log_write ::
  "Externals \<Rightarrow> usize \<Rightarrow> usize \<Rightarrow> TxLogField \<Rightarrow> usize \<Rightarrow> Word \<Rightarrow> step_state \<Rightarrow> step_state res" where
  "tx_log_write x tid lid field index v =
     push_op x WRITE (OpTxLog \<lparr>log_tx_id = tid, log_log_id = lid, log_field = field, log_index = index, log_value = v\<rparr>)"

definition tx_receipt_read :: "Externals \<Rightarrow> usize \<Rightarrow> TxReceiptField \<Rightarrow> u64 \<Rightarrow> step_state \<Rightarrow> step_state res" where
  "tx_receipt_read x tid field v =
     push_op x READ (OpTxReceipt \<lparr>rcp_tx_id = tid, rcp_field = field, rcp_value = v\<rparr>)"

definition tx_receipt_write :: "Externals \<Rightarrow> usize \<Rightarrow> TxReceiptField \<Rightarrow> u64 \<Rightarrow> step_state \<Rightarrow> step_state res" where
  "tx_receipt_write x tid field v =
     push_op x WRITE (OpTxReceipt \<lparr>rcp_tx_id = tid, rcp_field = field, rcp_value = v\<rparr>)"

definition tx_accesslist_account_write ::
  "Externals \<Rightarrow> usize \<Rightarrow> Address \<Rightarrow> bool \<Rightarrow> bool \<Rightarrow> step_state \<Rightarrow> step_state res" where
  "tx_accesslist_account_write x tid addr is_warm is_warm_prev =
     push_op x WRITE (OpTxAccessListAccount
       \<lparr>ala_tx_id = tid, ala_address = addr, ala_is_warm = is_warm, ala_is_warm_prev = is_warm_prev\<rparr>)"

definition tx_access_list_write :: "Externals \<Rightarrow> Address \<Rightarrow> step_state \<Rightarrow> step_state res" where
  "tx_access_list_write x addr ss =
     push_op_reversible x (OpTxAccessListAccount
       \<lparr>ala_tx_id = tc_id (cs_tx_ctx (snd ss)), ala_address = addr, ala_is_warm = True,
        ala_is_warm_prev = check_account_in_access_list (cs_sdb (snd ss)) addr\<rparr>) ss"

section \<open>Transfers\<close>

definition account_op :: "Address \<Rightarrow> AccountField \<Rightarrow> Word \<Rightarrow> Word \<Rightarrow> OpEnum" where
  "account_op addr field v v_prev =
     OpAccount \<lparr>acc_address = addr, acc_field = field, acc_value = v, acc_value_prev = v_prev\<rparr>"

definition transfer_with_fee ::
  "Externals \<Rightarrow> Address \<Rightarrow> Address \<Rightarrow> bool \<Rightarrow> bool \<Rightarrow> Word \<Rightarrow> Word option \<Rightarrow> step_state \<Rightarrow> step_state res" where
  "transfer_with_fee x sender receiver receiver_exists must_create v fee ss =
     (let k = x_keccak256 x; (found, sender_account) = get_account k (cs_sdb (snd ss)) sender
      in if \<not> found then Inl (Err (AccountNotFound sender))
         else
           bindE (u256_add v (unwrap_or_default fee)) (\<lambda>total.
           if balance sender_account < total then Inl (Panic ''invalid amount balance'')
           else
             bindE (case fee of
                      None \<Rightarrow> Inr (balance sender_account, ss)
                    | Some fee \<Rightarrow>
                        bindE (u256_sub (balance sender_account) fee) (\<lambda>sender_balance.
                        bindE (push_op x WRITE (account_op sender AF_Balance sender_balance (balance sender_account)) ss) (\<lambda>ss.
                          Inr (sender_balance, ss)))) (\<lambda>(sender_balance_prev, ss).
             bindE (u256_sub sender_balance_prev v) (\<lambda>sender_balance.
             bindE (if (\<not> receiver_exists \<and> v \<noteq> 0) \<or> must_create
                    then push_op_reversible x (account_op receiver AF_CodeHash (empty_code_hash k) 0) ss
                    else Inr ss) (\<lambda>ss.
             if v = 0 then Inr ss
             else
               bindE (push_op_reversible x (account_op sender AF_Balance sender_balance sender_balance_prev) ss) (\<lambda>ss.
                 let receiver_balance_prev = balance (snd (get_account k (cs_sdb (snd ss)) receiver))
                 in bindE (u256_add receiver_balance_prev v) (\<lambda>receiver_balance.
                      push_op_reversible x (account_op receiver AF_Balance receiver_balance receiver_balance_prev) ss)))))))"

definition transfer ::
  "Externals \<Rightarrow> Address \<Rightarrow> Address \<Rightarrow> bool \<Rightarrow> bool \<Rightarrow> Word \<Rightarrow> step_state \<Rightarrow> step_state res" where
  "transfer x sender receiver receiver_exists must_create v =
     transfer_with_fee x sender receiver receiver_exists must_create v None"

definition transfer_to_irreversible ::
  "Externals \<Rightarrow> Address \<Rightarrow> bool \<Rightarrow> bool \<Rightarrow> Word \<Rightarrow> step_state \<Rightarrow> step_state res" where
  "transfer_to_irreversible x receiver receiver_exists must_create v ss =
     (let k = x_keccak256 x
      in bindE (if (\<not> receiver_exists \<and> v \<noteq> 0) \<or> must_create
                then account_write x receiver AF_CodeHash (empty_code_hash k) 0 ss
                else Inr ss) (\<lambda>ss.
         if v = 0 then Inr ss
         else
           let receiver_balance_prev = balance (snd (get_account k (cs_sdb (snd ss)) receiver))
           in bindE (u256_add receiver_balance_prev v) (\<lambda>receiver_balance.
                account_write x receiver AF_Balance receiver_balance receiver_balance_prev ss)))"

end
