(* ===== verification/Call_State.thy ===== *)
theory Call_State
  imports Input_State
begin

text \<open>
  Calls in the circuit input builder, the second half of
  \<^verbatim>\<open>bus-mapping/src/circuit_input_builder/input_state_ref.rs\<close>, with the two memory helpers of
  \<^verbatim>\<open>bus-mapping/src/circuit_input_builder.rs\<close>: entering a call, reverting its operations, returning to the caller,
  classifying the error of a step, and the steps of copies.
\<close>

section \<open>Entering a call\<close>

definition get_create_init_code :: "CallContext \<Rightarrow> GethExecStep \<Rightarrow> u8 list res" where
  "get_create_init_code cx step =
     bindE (eth_err (nth_last (gs_stack step) 1)) (\<lambda>offset.
     bindE (eth_err (nth_last (gs_stack step) 2)) (\<lambda>len.
     bindE (u256_as_usize len) (\<lambda>len.
       let offset = unat (low_u64 offset); mem_len = length (cx_memory cx)
       in if mem_len \<le> offset then Inr []
          else
            let offset_end = (if offset + len < 2 ^ 64 then offset + len else mem_len)
            in if mem_len < offset_end then Inl (Panic ''range end index out of range for slice'')
               else Inr (take (offset_end - offset) (drop offset (cx_memory cx))))))"

definition get_call_memory_offset_length :: "GethExecStep \<Rightarrow> usize \<Rightarrow> (u64 \<times> u64) res" where
  "get_call_memory_offset_length step n =
     bindE (eth_err (nth_last (gs_stack step) n)) (\<lambda>offset.
     bindE (eth_err (nth_last (gs_stack step) (n + 1))) (\<lambda>len.
       Inr (if len = 0 then (0, 0) else (low_u64 offset, low_u64 len))))"

definition push_call :: "Call \<Rightarrow> CircuitInputState \<Rightarrow> CircuitInputState res" where
  "push_call call st =
     bindE (case call_ctx (cs_tx_ctx st) of Inr cx \<Rightarrow> Inr cx | Inl _ \<Rightarrow> Inl (Panic ''current call not found'')) (\<lambda>current_call.
       let call_data = (if kind call \<in> {CK_Call, CK_CallCode, CK_DelegateCall, CK_StaticCall}
                        then read_chunk (cx_memory current_call) (unat (call_data_offset call)) (unat (call_data_length call))
                        else []);
           call_idx = length (tx_calls (cs_tx st))
       in bindE (push_call_ctx call_idx call_data (cs_tx_ctx st)) (\<lambda>tx_ctx.
            Inr (st\<lparr>cs_tx_ctx := tx_ctx,
                    cs_tx := (cs_tx st)\<lparr>tx_calls := tx_calls (cs_tx st) @ [call]\<rparr>,
                    cs_block_ctx := (cs_block_ctx st)\<lparr>bx_call_map :=
                      (bx_call_map (cs_block_ctx st))(call_id call \<mapsto> (length (bk_txs (cs_block st)), call_idx))\<rparr>\<rparr>)))"

definition create_address :: "Externals \<Rightarrow> CircuitInputState \<Rightarrow> Address res" where
  "create_address x st =
     bindE (cur_call st) (\<lambda>call.
       let sender = address call; (found, account) = get_account (x_keccak256 x) (cs_sdb st) sender
       in if \<not> found then Inl (Err (AccountNotFound sender))
          else Inr (x_get_contract_address x sender (ucast (nonce account))))"

definition create2_address :: "Externals \<Rightarrow> GethExecStep \<Rightarrow> CircuitInputState \<Rightarrow> Address res" where
  "create2_address x step st =
     bindE (eth_err (nth_last (gs_stack step) 3)) (\<lambda>salt.
     bindE (call_ctx (cs_tx_ctx st)) (\<lambda>cx.
     bindE (get_create_init_code cx step) (\<lambda>init_code.
     bindE (cur_call st) (\<lambda>call.
       Inr (x_get_create2_address x (address call) (be_bytes 32 (unat salt)) init_code)))))"

definition reversion_info_fields :: "Call \<Rightarrow> (CallContextField \<times> Word) list" where
  "reversion_info_fields call =
     [(CC_RwCounterEndOfReversion, of_nat (rw_counter_end_of_reversion call)),
      (CC_IsPersistent, word_of_bool (is_persistent call))]"

definition reversion_info_read :: "Externals \<Rightarrow> Call \<Rightarrow> step_state \<Rightarrow> step_state res" where
  "reversion_info_read x call ss =
     foldE (\<lambda>(field, v) ss. call_context_read x (call_id call) field v ss) (reversion_info_fields call) ss"

definition reversion_info_write :: "Externals \<Rightarrow> Call \<Rightarrow> step_state \<Rightarrow> step_state res" where
  "reversion_info_write x call ss =
     foldE (\<lambda>(field, v) ss. call_context_write x (call_id call) field v ss) (reversion_info_fields call) ss"

definition is_precompiled :: "Address \<Rightarrow> bool" where
  "is_precompiled addr = (let bytes = be_bytes 20 (unat addr)
     in take 19 bytes = replicate 19 0 \<and> 1 \<le> bytes ! 19 \<and> bytes ! 19 \<le> 9)"

definition to_address :: "Word \<Rightarrow> Address" where
  "to_address w = ucast w"

definition parse_call :: "Externals \<Rightarrow> GethExecStep \<Rightarrow> CircuitInputState \<Rightarrow> (Call \<times> CircuitInputState) res" where
  "parse_call x step st =
     bindE (ok_or (nth_opt (tc_call_is_success (cs_tx_ctx st)) (length (tx_calls (cs_tx st))))
              (Panic ''called Option::unwrap() on a None value'')) (\<lambda>success.
     bindE (call_kind_try_from (gs_op step)) (\<lambda>knd.
     bindE (cur_call st) (\<lambda>caller.
     bindE (call_ctx (cs_tx_ctx st)) (\<lambda>cx.
     bindE (case knd of
              CK_Call \<Rightarrow>
                bindE (eth_err (nth_last (gs_stack step) 1)) (\<lambda>a.
                bindE (eth_err (nth_last (gs_stack step) 2)) (\<lambda>v. Inr (address caller, to_address a, v)))
            | CK_CallCode \<Rightarrow>
                bindE (eth_err (nth_last (gs_stack step) 2)) (\<lambda>v. Inr (address caller, address caller, v))
            | CK_DelegateCall \<Rightarrow> Inr (caller_address caller, address caller, cl_value caller)
            | CK_StaticCall \<Rightarrow>
                bindE (eth_err (nth_last (gs_stack step) 1)) (\<lambda>a. Inr (address caller, to_address a, 0))
            | CK_Create \<Rightarrow>
                bindE (create_address x st) (\<lambda>a.
                bindE (eth_err (stack_last (gs_stack step))) (\<lambda>v. Inr (address caller, a, v)))
            | CK_Create2 \<Rightarrow>
                bindE (create2_address x step st) (\<lambda>a.
                bindE (eth_err (stack_last (gs_stack step))) (\<lambda>v. Inr (address caller, a, v)))) (\<lambda>(new_caller_address, addr, v).
     bindE (if call_kind_is_create knd then
              bindE (get_create_init_code cx step) (\<lambda>init_code.
                let (hash, code_db) = codedb_insert (x_keccak256 x) init_code (cs_code_db st)
                in Inr (CS_Memory, hash, code_db))
            else
              bindE (if knd = CK_CallCode \<or> knd = CK_DelegateCall
                     then bindE (eth_err (nth_last (gs_stack step) 1)) (\<lambda>a. Inr (to_address a))
                     else Inr addr) (\<lambda>code_addr.
                let (found, account) = get_account (x_keccak256 x) (cs_sdb st) code_addr
                in if \<not> found then Inl (Err (AccountNotFound code_addr))
                   else Inr (CS_Address code_addr, code_hash account, cs_code_db st))) (\<lambda>(source, hash, code_db).
     bindE (if knd = CK_Call \<or> knd = CK_CallCode then
              bindE (get_call_memory_offset_length step 3) (\<lambda>cd.
              bindE (get_call_memory_offset_length step 5) (\<lambda>rd. Inr (fst cd, snd cd, fst rd, snd rd)))
            else if knd = CK_DelegateCall \<or> knd = CK_StaticCall then
              bindE (get_call_memory_offset_length step 2) (\<lambda>cd.
              bindE (get_call_memory_offset_length step 4) (\<lambda>rd. Inr (fst cd, snd cd, fst rd, snd rd)))
            else Inr (0, 0, 0, 0)) (\<lambda>(cd_offset, cd_length, rd_offset, rd_length).
     Inr (\<lparr>call_id = cs_rwc st, caller_id = call_id caller, last_callee_id = 0, kind = knd,
           is_static = knd = CK_StaticCall \<or> is_static caller, is_root = False,
           is_persistent = is_persistent caller \<and> success, is_success = success,
           rw_counter_end_of_reversion = 0, caller_address = new_caller_address, address = addr,
           code_source = source, cl_code_hash = hash, depth = depth caller + 1, cl_value = v,
           call_data_offset = cd_offset, call_data_length = cd_length,
           return_data_offset = rd_offset, return_data_length = rd_length,
           last_callee_return_data_offset = 0, last_callee_return_data_length = 0\<rparr>,
          st\<lparr>cs_code_db := code_db\<rparr>))))))))"

section \<open>Reversion\<close>

definition rev_op_of :: "OpEnum Operation option \<Rightarrow> OpEnum option res" where
  "rev_op_of operation = (case operation of
       None \<Rightarrow> Inl (Panic ''index out of bounds'')
     | Some o' \<Rightarrow> if is_write (op_rw o') \<and> op_reversible o' then bindE (op_reverse (op_op o')) (\<lambda>r. Inr (Some r)) else Inr None)"

definition get_rev_op_by_ref :: "OperationContainer \<Rightarrow> OperationRef \<Rightarrow> OpEnum option res" where
  "get_rev_op_by_ref container op_ref =
     (if fst op_ref \<in> {TStorage, TTxAccessListAccount, TTxAccessListAccountStorage, TTxRefund, TAccount}
      then rev_op_of (container_get container op_ref)
      else Inr None)"

definition apply_reversion :: "Externals \<Rightarrow> usize \<times> OperationRef \<Rightarrow> CircuitInputState \<Rightarrow> CircuitInputState res" where
  "apply_reversion x = (\<lambda>(step_index, op_ref) st.
     bindE (get_rev_op_by_ref (cs_container st) op_ref) (\<lambda>rev. case rev of
       None \<Rightarrow> Inr st
     | Some op \<Rightarrow>
         bindE (check_apply_op (x_keccak256 x) op (cs_sdb st)) (\<lambda>sdb.
           let (rev_op_ref, st) = insert_next WRITE False op (st\<lparr>cs_sdb := sdb\<rparr>)
           in if step_index < length (tx_steps (cs_tx st))
              then Inr (st\<lparr>cs_tx := (cs_tx st)\<lparr>tx_steps := (tx_steps (cs_tx st))[step_index :=
                          note_ref rev_op_ref (tx_steps (cs_tx st) ! step_index)]\<rparr>\<rparr>)
              else Inl (Panic ''index out of bounds''))))"

definition set_end_of_reversion :: "usize \<Rightarrow> usize \<times> usize \<Rightarrow> CircuitInputState \<Rightarrow> CircuitInputState res" where
  "set_end_of_reversion rwc = (\<lambda>(call_idx, offset) st.
     if \<not> call_idx < length (tx_calls (cs_tx st)) then Inl (Panic ''index out of bounds'')
     else if rwc < offset then Inl (Panic ''attempt to subtract with overflow'')
     else Inr (st\<lparr>cs_tx := (cs_tx st)\<lparr>tx_calls := (tx_calls (cs_tx st))[call_idx :=
            (tx_calls (cs_tx st) ! call_idx)\<lparr>rw_counter_end_of_reversion := rwc - offset\<rparr>]\<rparr>\<rparr>))"

definition handle_reversion :: "Externals \<Rightarrow> CircuitInputState \<Rightarrow> CircuitInputState res" where
  "handle_reversion x st =
     (if tc_reversion_groups (cs_tx_ctx st) = []
      then Inl (Panic ''reversion_groups should not be empty for non-persistent call'')
      else
        let reversion_group = last (tc_reversion_groups (cs_tx_ctx st));
            st = st\<lparr>cs_tx_ctx := (cs_tx_ctx st)\<lparr>tc_reversion_groups := butlast (tc_reversion_groups (cs_tx_ctx st))\<rparr>\<rparr>
        in bindE (foldE (apply_reversion x) (rev (rg_op_refs reversion_group)) st) (\<lambda>st.
             if cs_rwc st < 1 then Inl (Panic ''attempt to subtract with overflow'')
             else foldE (set_end_of_reversion (cs_rwc st - 1)) (rg_calls reversion_group) st))"

section \<open>Returning to the caller\<close>

definition handle_restore_context ::
  "Externals \<Rightarrow> GethExecStep list \<Rightarrow> step_state \<Rightarrow> step_state res" where
  "handle_restore_context x steps ss =
     bindE (cur_call (snd ss)) (\<lambda>call.
     bindE (ok_or (nth_opt steps 0) (Err (InternalError ''invalid index 0''))) (\<lambda>geth_step.
     let revert_or_return_success =
           (gs_op geth_step = Sys REVERT \<or> gs_op geth_step = Sys RETURN) \<and> es_error (fst ss) = None;
         exception = \<not> revert_or_return_success \<and> \<not> is_success call
     in bindE (if exception then
                 bindE (call_context_read x (call_id call) CC_IsSuccess 0 ss)
                   (call_context_read x (call_id call) CC_RwCounterEndOfReversion (of_nat (rw_counter_end_of_reversion call)))
               else Inr ss) (\<lambda>ss.
        if exception \<and> is_root call then Inr ss
        else
          bindE (cur_caller (snd ss)) (\<lambda>caller.
          bindE (ok_or (nth_opt steps 1) (Err (InternalError ''invalid index 1''))) (\<lambda>geth_step_next.
          bindE (call_context_read x (call_id call) CC_CallerId (of_nat (call_id caller)) ss) (\<lambda>ss.
          bindE (if gs_op geth_step = Sys REVERT \<or> gs_op geth_step = Sys RETURN then
                   bindE (eth_err (nth_last (gs_stack geth_step) 0)) (\<lambda>offset.
                   bindE (eth_err (nth_last (gs_stack geth_step) 1)) (\<lambda>len.
                     Inr (if len = 0 then (0, 0) else (offset, len))))
                 else Inr (0, 0)) (\<lambda>(rd_offset, rd_length).
          bindE (if es_error (fst ss) \<noteq> None then Inr 0
                 else
                   let curr_memory_word_size = of_nat (es_memory_size (fst ss)) div 32
                   in bindE (if rd_length \<noteq> 0 then
                               bindE (u256_add rd_offset rd_length) (\<lambda>e.
                               bindE (u256_add e 31) (\<lambda>e.
                               bindE (u256_as_u64 e) (\<lambda>e. Inr (max (e div 32) curr_memory_word_size))))
                             else Inr curr_memory_word_size) (\<lambda>next_memory_word_size.
                      bindE (memory_expansion_gas_cost curr_memory_word_size next_memory_word_size) (\<lambda>expansion.
                      bindE (if is_create call \<and> is_success call then
                               bindE (u256_as_u64 rd_length) (u64_mul GasCost_CODE_DEPOSIT_BYTE_COST)
                             else Inr 0) (\<lambda>deposit.
                      bindE (u64_sub (gs_gas geth_step) expansion) (\<lambda>g. u64_sub g deposit))))) (\<lambda>gas_refund.
          bindE (if revert_or_return_success \<or> is_success call
                 then u64_sub (gs_gas geth_step_next) gas_refund
                 else Inr (gs_gas geth_step_next)) (\<lambda>caller_gas_left.
          bindE (stack_pointer (gs_stack geth_step_next)) (\<lambda>sp.
          bindE (caller_ctx (cs_tx_ctx (snd ss))) (\<lambda>cx.
          bindE (foldE (\<lambda>(field, v) ss. call_context_read x (call_id caller) field v ss)
                   [(CC_IsRoot, word_of_bool (is_root caller)),
                    (CC_IsCreate, word_of_bool (is_create caller)),
                    (CC_CodeHash, cl_code_hash caller),
                    (CC_ProgramCounter, ucast (gs_pc geth_step_next)),
                    (CC_StackPointer, of_nat sp),
                    (CC_GasLeft, ucast caller_gas_left),
                    (CC_MemorySize, of_nat (word_size (cx_memory cx))),
                    (CC_ReversibleWriteCounter, of_nat (cx_reversible_write_counter cx))] ss) (\<lambda>ss.
          let discard_return_data =
                is_create call \<and> gs_op geth_step = Sys RETURN \<or> es_error (fst ss) \<noteq> None
          in foldE (\<lambda>(field, v) ss. call_context_write x (call_id caller) field v ss)
               [(CC_LastCalleeId, of_nat (call_id call)),
                (CC_LastCalleeReturnDataOffset, if discard_return_data then 0 else rd_offset),
                (CC_LastCalleeReturnDataLength, if discard_return_data then 0 else rd_length)] ss))))))))))))"

definition return_data_of :: "GethExecStep \<Rightarrow> CircuitInputState \<Rightarrow> (u64 \<times> u64 \<times> CircuitInputState) res" where
  "return_data_of step st =
     bindE (cur_call st) (\<lambda>call.
       if is_root call then Inr (0, 0, st)
       else if gs_op step = Sys RETURN \<or> gs_op step = Sys REVERT then
         bindE (if gs_error step \<noteq> None \<or> (is_create call \<and> is_success call) then Inr (0, 0)
                else
                  bindE (eth_err (nth_last (gs_stack step) 0)) (\<lambda>o'.
                  bindE (u256_as_usize o') (\<lambda>offset.
                  bindE (eth_err (nth_last (gs_stack step) 1)) (\<lambda>l.
                  bindE (u256_as_usize l) (\<lambda>len. Inr (offset, len)))))) (\<lambda>(offset, len).
         bindE (call_ctx (cs_tx_ctx st)) (\<lambda>cx.
         bindE (if length (tc_calls (cs_tx_ctx st)) < 2 then Inl (Err (InternalError ''caller id not found in call map''))
                else if len \<noteq> 0 \<and> length (cx_memory cx) < offset + len
                then Inl (Panic ''range end index out of range for slice'')
                else caller_ctx_mut (\<lambda>c. c\<lparr>cx_return_data := take len (drop offset (cx_memory cx))\<rparr>) st) (\<lambda>st.
         Inr (of_nat offset, of_nat len, st))))
       else bindE (caller_ctx_mut (\<lambda>c. c\<lparr>cx_return_data := []\<rparr>) st) (\<lambda>st. Inr (0, 0, st)))"

definition store_created_code :: "Externals \<Rightarrow> GethExecStep \<Rightarrow> Call \<Rightarrow> CircuitInputState \<Rightarrow> CircuitInputState res" where
  "store_created_code x step call st =
     bindE (call_ctx (cs_tx_ctx st)) (\<lambda>cx.
     bindE (eth_err (nth_last (gs_stack step) 0)) (\<lambda>offset.
     bindE (eth_err (nth_last (gs_stack step) 1)) (\<lambda>len.
       let code = read_chunk (cx_memory cx) (unat (low_u64 offset)) (unat (low_u64 len));
           (hash, code_db) = codedb_insert (x_keccak256 x) code (cs_code_db st);
           (found, account, sdb) = get_account_mut (x_keccak256 x) (address call) (cs_sdb st)
       in if \<not> found then Inl (Err (AccountNotFound (address call)))
          else Inr (st\<lparr>cs_code_db := code_db,
                      cs_sdb := set_account (address call) (account\<lparr>code_hash := hash\<rparr>) sdb\<rparr>))))"

text \<open>What the caller, if there is one, learns of the call that ends.\<close>

definition return_to_caller :: "Call \<Rightarrow> bool \<Rightarrow> u64 \<Rightarrow> u64 \<Rightarrow> CircuitInputState \<Rightarrow> CircuitInputState res" where
  "return_to_caller call call_success_create rd_offset rd_length st =
     (if length (tc_calls (cs_tx_ctx st)) < 2 then Inr st
      else
        bindE (caller_mut (\<lambda>c. c\<lparr>last_callee_id := call_id call,
            last_callee_return_data_length := if call_success_create then 0 else rd_length,
            last_callee_return_data_offset := if call_success_create then 0 else rd_offset\<rparr>) st) (\<lambda>st.
        if call_success_create then caller_ctx_mut (\<lambda>c. c\<lparr>cx_return_data := []\<rparr>) st else Inr st))"

definition handle_return ::
  "Externals \<Rightarrow> GethExecStep list \<Rightarrow> bool \<Rightarrow> step_state \<Rightarrow> step_state res" where
  "handle_return x geth_steps need_restore ss =
     bindE (if need_restore then handle_restore_context x geth_steps ss else Inr ss) (\<lambda>(exec_step, st).
     bindE (ok_or (nth_opt geth_steps 0) (Panic ''index out of bounds'')) (\<lambda>step.
     bindE (return_data_of step st) (\<lambda>(rd_offset, rd_length, st).
     bindE (cur_call st) (\<lambda>call.
     bindE (call_ctx (cs_tx_ctx st)) (\<lambda>_.
     let call_success_create = is_create call \<and> is_success call \<and> gs_op step = Sys RETURN
     in bindE (if call_success_create then store_created_code x step call st else Inr st) (\<lambda>st.
        bindE (if \<not> is_success call then handle_reversion x st else Inr st) (\<lambda>st.
        bindE (return_to_caller call call_success_create rd_offset rd_length st) (\<lambda>st.
        bindE (pop_call_ctx (cs_tx_ctx st)) (\<lambda>tx_ctx.
        Inr (exec_step, st\<lparr>cs_tx_ctx := tx_ctx\<rparr>))))))))))"

section \<open>Errors of a step\<close>

definition call_ops :: "OpcodeId list" where
  "call_ops = [Sys CALL, Sys CALLCODE, Sys DELEGATECALL, Sys STATICCALL, Sys CREATE, Sys CREATE2]"

definition write_ops :: "OpcodeId list" where
  "write_ops = [Ext SSTORE, Sys CREATE, Sys CREATE2, Sys SELFDESTRUCT, Log LOG0, Log LOG1, Log LOG2, Log LOG3, Log LOG4]"

text \<open>A failed return to the caller by another opcode than \<open>RETURN\<close>, and by \<open>RETURN\<close>.\<close>

definition failure_without_return :: "Call \<Rightarrow> Word \<Rightarrow> GethExecStep \<Rightarrow> ExecError option res" where
  "failure_without_return call v step =
     (if gs_op step = Flow JUMP \<or> gs_op step = Flow JUMPI then Inr (Some InvalidJump)
      else if gs_op step = Ext RETURNDATACOPY then Inr (Some ReturnDataOutOfBounds)
      else if gs_op step \<in> set write_ops \<and> is_static call then Inr (Some WriteProtection)
      else if gs_op step = Sys CALL \<and> is_static call \<and> v \<noteq> 0 then Inr (Some WriteProtection)
      else if gs_op step = Sys REVERT then Inr None
      else Inl (Err (UnexpectedExecStepError ''call failure without return'' step)))"

definition failure_in_return :: "Call \<Rightarrow> CallContext \<Rightarrow> GethExecStep \<Rightarrow> ExecError option res" where
  "failure_in_return call cx step =
     (if \<not> is_create call then Inl (Err (UnexpectedExecStepError ''failure in RETURN'' step))
      else
        bindE (eth_err (nth_last (gs_stack step) 0)) (\<lambda>offset.
        bindE (eth_err (nth_last (gs_stack step) 1)) (\<lambda>len.
          if 0x6000 < len then Inr (Some MaxCodeSizeExceeded)
          else if 0 < len \<and> cx_memory cx \<noteq> [] \<and> nth_opt (cx_memory cx) (unat (low_u64 offset)) = Some 0xef
          then Inr (Some InvalidCreationCode)
          else
            bindE (u256_mul 200 len) (\<lambda>cost.
              if ucast (gs_gas step) < cost then Inr (Some CodeStoreOutOfGas)
              else Inl (Err (UnexpectedExecStepError ''failure in RETURN from {CREATE, CREATE2}'' step))))))"

definition call_not_executed :: "Externals \<Rightarrow> Word \<Rightarrow> GethExecStep \<Rightarrow> CircuitInputState \<Rightarrow> ExecError option res" where
  "call_not_executed x v step st =
     (if gs_depth step = 1025 then
        if gs_op step = Sys CALL \<or> gs_op step = Sys CALLCODE then Inr (Some (Depth DE_Call))
        else if gs_op step = Sys CREATE then Inr (Some (Depth DE_Create))
        else if gs_op step = Sys CREATE2 then Inr (Some (Depth DE_Create2))
        else Inl (Panic ''Depth error unexpected for opcode'')
      else
        bindE (cur_call st) (\<lambda>call.
          let sender = address call; (found, account) = get_account (x_keccak256 x) (cs_sdb st) sender
          in if \<not> found then Inl (Err (AccountNotFound sender))
             else if balance account < v then
               if gs_op step = Sys CALL \<or> gs_op step = Sys CALLCODE then Inr (Some (InsufficientBalance IB_Call))
               else if gs_op step = Sys CREATE then Inr (Some (InsufficientBalance IB_Create))
               else if gs_op step = Sys CREATE2 then Inr (Some (InsufficientBalance IB_Create2))
               else Inl (Panic ''insufficient balance error unexpected for opcode'')
             else if nonce account = - 1 then
               if gs_op step = Sys CREATE then Inr (Some (NonceUintOverflow NO_Create))
               else if gs_op step = Sys CREATE2 then Inr (Some (NonceUintOverflow NO_Create2))
               else Inl (Panic ''Nonce Uint overflow error unexpected for opcode'')
             else
               bindE (if gs_op step = Sys CREATE2 then
                        bindE (create2_address x step st) (\<lambda>addr.
                          Inr (fst (get_account (x_keccak256 x) (cs_sdb st) addr)))
                      else Inr False) (\<lambda>collision.
               if collision then Inr (Some ContractAddressCollision)
               else Inl (Err (UnexpectedExecStepError ''*CALL*/CREATE* code not executed'' step)))))"

definition get_step_err ::
  "Externals \<Rightarrow> GethExecStep \<Rightarrow> GethExecStep option \<Rightarrow> CircuitInputState \<Rightarrow> ExecError option res" where
  "get_step_err x step next_step st =
     bindE (exec_error_try_from step) (\<lambda>error.
     if error \<noteq> None then Inr error
     else if is_INVALID (gs_op step) then Inr (Some InvalidOpcode)
     else
       bindE (cur_call st) (\<lambda>call.
       if next_step = None \<and>
          (gs_op step \<in> {Arith STOP, Sys REVERT, Sys SELFDESTRUCT} \<or>
           (gs_op step = Sys RETURN \<and> (\<not> is_create call \<or> is_success call)))
       then Inr None
       else
         let next_depth = (case next_step of Some s \<Rightarrow> gs_depth s | None \<Rightarrow> 0);
             next_result = (case next_step of
                 Some s \<Rightarrow> (case stack_last (gs_stack s) of Inr w \<Rightarrow> w | Inl _ \<Rightarrow> 0) | None \<Rightarrow> 0)
         in bindE (call_ctx (cs_tx_ctx st)) (\<lambda>cx.
            bindE (if gs_op step = Sys CALL \<or> gs_op step = Sys CALLCODE then eth_err (nth_last (gs_stack step) 2)
                   else if gs_op step = Sys CREATE \<or> gs_op step = Sys CREATE2 then eth_err (nth_last (gs_stack step) 0)
                   else Inr 0) (\<lambda>v.
            if gs_depth step = next_depth + 1 \<and> next_result = 0 then
              if gs_op step \<noteq> Sys RETURN then failure_without_return call v step
              else failure_in_return call cx step
            else if gs_depth step = next_depth + 1 \<and> next_result \<noteq> 0 \<and>
              gs_op step \<notin> {Sys RETURN, Arith STOP, Sys SELFDESTRUCT}
            then Inl (Err (UnexpectedExecStepError ''success result without {RETURN, STOP, SELFDESTRUCT}'' step))
            else
              let next_pc = (case next_step of Some s \<Rightarrow> gs_pc s | None \<Rightarrow> 1)
              in if gs_op step \<in> set call_ops \<and> next_result = 0 \<and> next_pc \<noteq> 0
                 then call_not_executed x v step st
                 else Inr None))))"

section \<open>Memory and copies\<close>

definition call_expand_memory :: "usize \<Rightarrow> usize \<Rightarrow> usize \<Rightarrow> usize \<Rightarrow> CircuitInputState \<Rightarrow> CircuitInputState res" where
  "call_expand_memory args_offset args_length ret_offset ret_length st =
     bindE (call_ctx (cs_tx_ctx st)) (\<lambda>cx.
     bindE (if args_length \<noteq> 0 then usize_add args_offset args_length else Inr 0) (\<lambda>args_minimal.
     bindE (if ret_length \<noteq> 0 then usize_add ret_offset ret_length else Inr 0) (\<lambda>ret_minimal.
     if args_minimal \<noteq> 0 \<or> ret_minimal \<noteq> 0 then
       bindE (extend_at_least (max args_minimal ret_minimal) (cx_memory cx)) (\<lambda>mem.
       bindE (call_ctx_mut (\<lambda>cx. cx\<lparr>cx_memory := mem\<rparr>) (cs_tx_ctx st)) (\<lambda>tx_ctx.
         Inr (st\<lparr>cs_tx_ctx := tx_ctx\<rparr>)))
     else Inr st)))"

definition push_copy :: "CopyEvent \<Rightarrow> step_state \<Rightarrow> step_state res" where
  "push_copy event = (\<lambda>(step, st).
     bindE (rw_counter_delta event) (\<lambda>d.
       Inr (step\<lparr>es_copy_rw_counter_delta := of_nat d\<rparr>, st\<lparr>cs_block := add_copy_event event (cs_block st)\<rparr>)))"

definition push_exponentiation :: "ExpEvent \<Rightarrow> CircuitInputState \<Rightarrow> CircuitInputState" where
  "push_exponentiation event st = st\<lparr>cs_block := add_exp_event event (cs_block st)\<rparr>"

text \<open>\<open>src_addr.checked_add(idx).unwrap_or(src_addr_end)\<close>.\<close>

definition copy_src_addr :: "u64 \<Rightarrow> u64 \<Rightarrow> nat \<Rightarrow> nat" where
  "copy_src_addr src_addr src_addr_end idx =
     (if unat src_addr + idx < 2 ^ 64 then unat src_addr + idx else unat src_addr_end)"

definition gen_copy_steps_for_bytecode ::
  "Externals \<Rightarrow> Bytecode \<Rightarrow> u64 \<Rightarrow> u64 \<Rightarrow> u64 \<Rightarrow> u64 \<Rightarrow> step_state \<Rightarrow> ((u8 \<times> bool) list \<times> step_state) res" where
  "gen_copy_steps_for_bytecode x bytecode src_addr dst_addr src_addr_end bytes_left ss =
     foldE (\<lambda>idx (copy_steps, ss).
       let addr = copy_src_addr src_addr src_addr_end idx;
           step = (case bytecode_get bytecode addr of Some e \<Rightarrow> e | None \<Rightarrow> (0, False))
       in bindE (usize_add (unat dst_addr) idx) (\<lambda>dst.
          bindE (memory_write x dst (fst step) ss) (\<lambda>ss. Inr (copy_steps @ [step], ss))))
       [0..<unat bytes_left] ([], ss)"

definition gen_copy_steps_for_call_data ::
  "Externals \<Rightarrow> u64 \<Rightarrow> u64 \<Rightarrow> u64 \<Rightarrow> u64 \<Rightarrow> step_state \<Rightarrow> ((u8 \<times> bool) list \<times> step_state) res" where
  "gen_copy_steps_for_call_data x src_addr dst_addr src_addr_end bytes_left ss =
     foldE (\<lambda>idx (copy_steps, ss).
       let addr = copy_src_addr src_addr src_addr_end idx
       in bindE (if addr < unat src_addr_end then
                   bindE (call_ctx (cs_tx_ctx (snd ss))) (\<lambda>cx.
                   bindE (cur_call (snd ss)) (\<lambda>call.
                   if addr < unat (call_data_offset call) then Inl (Panic ''attempt to subtract with overflow'')
                   else
                     bindE (ok_or (nth_opt (cx_call_data cx) (addr - unat (call_data_offset call)))
                              (Panic ''index out of bounds'')) (\<lambda>byte.
                     bindE (if \<not> is_root call
                            then push_op x READ (OpMemory \<lparr>mem_call_id = caller_id call, mem_address = addr, mem_value = byte\<rparr>) ss
                            else Inr ss) (\<lambda>ss.
                     Inr (byte, ss)))))
                 else Inr (0, ss)) (\<lambda>(v, ss).
          bindE (usize_add (unat dst_addr) idx) (\<lambda>dst.
          bindE (memory_write x dst v ss) (\<lambda>ss. Inr (copy_steps @ [(v, False)], ss)))))
       [0..<unat bytes_left] ([], ss)"

end
