(* ===== verification/Observation.thy ===== *)
theory Observation
  imports Call_State
begin

text \<open>
  What the rest of the builder can observe of the state database, and the effect of reversible operations on it.

  \<open>observe\<close> abstracts a database to the accounts, storage values, access lists, destructed accounts and refund its
  queries return; whether an account is stored explicitly or defaults to the zero account is not observed.
  \<open>spec_apply_op\<close> is the specification of \<open>check_apply_op\<close> on observations, and \<open>op_matches\<close> says that the previous
  value an operation carries is the current one. The locale \<open>reversible_ops\<close> states that an operation is undone by
  its reverse and derives that a sequence is undone by the reverses in reverse order.
\<close>

section \<open>Observations\<close>

record Obs =
  ob_account :: "Address \<Rightarrow> Account"
  ob_storage :: "Address \<times> Word \<Rightarrow> Word"
  ob_accounts_warm :: "Address set"
  ob_slots_warm :: "(Address \<times> Word) set"
  ob_destructed :: "Address set"
  ob_refund :: u64

definition observe :: "keccak \<Rightarrow> StateDB \<Rightarrow> Obs" where
  "observe k sdb =
     \<lparr>ob_account = (\<lambda>a. snd (get_account k sdb a)),
      ob_storage = (\<lambda>(a, key). snd (get_storage k sdb a key)),
      ob_accounts_warm = access_list_account sdb,
      ob_slots_warm = access_list_account_storage sdb,
      ob_destructed = set (destructed_account sdb),
      ob_refund = refund sdb\<rparr>"

definition map_res :: "('a \<Rightarrow> 'b) \<Rightarrow> 'e + 'a \<Rightarrow> 'e + 'b" where
  "map_res f m = bindE m (\<lambda>x. Inr (f x))"

definition spec_account_value :: "keccak \<Rightarrow> AccountField \<Rightarrow> Account \<Rightarrow> Word" where
  "spec_account_value k field acc = (case field of
       AF_Nonce \<Rightarrow> ucast (nonce acc)
     | AF_Balance \<Rightarrow> balance acc
     | AF_CodeHash \<Rightarrow> if is_empty k acc then 0 else code_hash acc)"

definition spec_set_account_value :: "AccountField \<Rightarrow> Word \<Rightarrow> Account \<Rightarrow> Account res" where
  "spec_set_account_value field v acc = (case field of
       AF_Nonce \<Rightarrow> bindE (u256_as_u64 v) (\<lambda>n. Inr (acc\<lparr>nonce := n\<rparr>))
     | AF_Balance \<Rightarrow> Inr (acc\<lparr>balance := v\<rparr>)
     | AF_CodeHash \<Rightarrow> Inr (acc\<lparr>code_hash := v\<rparr>))"

text \<open>What an account operation does to the account it names.\<close>

definition spec_account_op :: "keccak \<Rightarrow> RW \<Rightarrow> AccountOp \<Rightarrow> Account \<Rightarrow> Account res" where
  "spec_account_op k rw op acc =
     (if rw = READ \<and> acc_value_prev op \<noteq> acc_value op
      then Inl (Panic ''RWTable Account field read where value_prev != value'')
      else if acc_field op = AF_CodeHash \<and> is_empty k acc \<and> acc_value op = 0 then Inr acc
      else if acc_value_prev op \<noteq> spec_account_value k (acc_field op) acc
      then Inl (Panic ''RWTable Account field lookup doesn't match account value'')
      else if acc_field op \<noteq> AF_CodeHash \<and> (rw = READ \<or> (acc_value_prev op = 0 \<and> acc_value op = 0)) \<and> is_empty k acc
      then Inl (Panic ''RWTable Account field lookup to non-existing account'')
      else if rw = WRITE then spec_set_account_value (acc_field op) (acc_value op) acc
      else Inr acc)"

definition spec_warm :: "bool \<Rightarrow> bool \<Rightarrow> 'a \<Rightarrow> 'a set \<Rightarrow> 'a set res" where
  "spec_warm is_warm_prev is_warm a s =
     (if is_warm_prev = is_warm then Inr s
      else if is_warm then Inr (insert a s)
      else if a \<in> s then Inr (s - {a})
      else Inl (Panic ''assertion failed: exist''))"

definition spec_apply_op :: "keccak \<Rightarrow> OpEnum \<Rightarrow> Obs \<Rightarrow> Obs res" where
  "spec_apply_op k op ob = (case op of
      OpStorage op \<Rightarrow> Inr (ob\<lparr>ob_storage := (ob_storage ob)((sto_address op, sto_key op) := sto_value op)\<rparr>)
    | OpTxAccessListAccount op \<Rightarrow>
        bindE (spec_warm (ala_is_warm_prev op) (ala_is_warm op) (ala_address op) (ob_accounts_warm ob)) (\<lambda>s.
          Inr (ob\<lparr>ob_accounts_warm := s\<rparr>))
    | OpTxAccessListAccountStorage op \<Rightarrow>
        bindE (spec_warm (als_is_warm_prev op) (als_is_warm op) (als_address op, als_key op) (ob_slots_warm ob)) (\<lambda>s.
          Inr (ob\<lparr>ob_slots_warm := s\<rparr>))
    | OpAccount op \<Rightarrow>
        bindE (spec_account_op k WRITE op (ob_account ob (acc_address op))) (\<lambda>acc.
          Inr (ob\<lparr>ob_account := (ob_account ob)(acc_address op := acc)\<rparr>))
    | OpTxRefund op \<Rightarrow> Inr (ob\<lparr>ob_refund := rfd_value op\<rparr>)
    | _ \<Rightarrow> Inl (Panic ''internal error: entered unreachable code''))"

section \<open>The operations refine their specification\<close>

lemma map_res_simps [simp]: "map_res f (Inr x) = Inr (f x)" "map_res f (Inl e) = Inl e"
  by (simp_all add: map_res_def)

lemma map_res_bindE: "map_res f (bindE m g) = bindE m (\<lambda>x. map_res f (g x))"
  by (cases m) simp_all

lemma snd_get_storage:
  "snd (get_storage k sdb a key) = (case map_of (dirty_storage sdb) (a, key) of
     Some v \<Rightarrow> v | None \<Rightarrow> (case storage (snd (get_account k sdb a)) key of Some v \<Rightarrow> v | None \<Rightarrow> 0))"
  by (simp add: get_storage_def get_committed_storage_def split: option.split prod.split)

text \<open>Writing an account without touching its committed storage.\<close>

lemma observe_set_account:
  assumes "storage acc = storage (snd (get_account k sdb a))"
  shows "observe k (set_account a acc sdb) = (observe k sdb)\<lparr>ob_account := (ob_account (observe k sdb))(a := acc)\<rparr>"
  using assms by (auto simp: observe_def snd_get_storage fun_eq_iff split: option.split)

lemma observe_get_account_mut:
  "observe k (snd (snd (get_account_mut k a sdb))) = observe k sdb"
proof -
  obtain found acc where g: "get_account k sdb a = (found, acc)" by fastforce
  have "observe k (set_account a acc sdb) = observe k sdb"
    using g by (subst observe_set_account) (auto simp: observe_def)
  then show ?thesis using g by (simp add: get_account_mut_eq)
qed

lemma get_account_get_account_mut:
  "snd (get_account k (snd (snd (get_account_mut k a sdb))) b) = snd (get_account k sdb b)"
  by (auto simp: get_account_mut_eq Let_def split: prod.splits)

lemma fst_snd_get_account_mut: "fst (snd (get_account_mut k a sdb)) = snd (get_account k sdb a)"
  by (simp add: get_account_mut_eq Let_def split: prod.splits)

lemma check_update_sdb_account_refines:
  "map_res (observe k) (check_update_sdb_account k rw op sdb) =
     bindE (spec_account_op k rw op (ob_account (observe k sdb) (acc_address op))) (\<lambda>acc.
       Inr ((observe k sdb)\<lparr>ob_account := (ob_account (observe k sdb))(acc_address op := acc)\<rparr>))"
proof -
  obtain f acc sdb1 where m: "get_account_mut k (acc_address op) sdb = (f, acc, sdb1)"
    by (metis prod_cases3)
  have acc: "acc = snd (get_account k sdb (acc_address op))"
    using fst_snd_get_account_mut [of k "acc_address op" sdb] m by simp
  have acc1: "acc = snd (get_account k sdb1 (acc_address op))"
    using get_account_get_account_mut [of k "acc_address op" sdb "acc_address op"] m acc by simp
  have o1: "observe k sdb1 = observe k sdb"
    using observe_get_account_mut [of k "acc_address op" sdb] m by simp
  have oa: "ob_account (observe k sdb) (acc_address op) = acc"
    by (simp add: observe_def acc)
  have upd: "observe k (set_account (acc_address op) acc' sdb1) =
      (observe k sdb)\<lparr>ob_account := (ob_account (observe k sdb))(acc_address op := acc')\<rparr>"
    if "storage acc' = storage acc" for acc'
    using observe_set_account [of acc' k sdb1 "acc_address op"] that acc1 o1 by simp
  have same: "observe k sdb = (observe k sdb)\<lparr>ob_account := (ob_account (observe k sdb))(acc_address op := acc)\<rparr>"
    using oa by (cases "observe k sdb") auto
  show ?thesis
    unfolding check_update_sdb_account_def spec_account_op_def spec_account_value_def spec_set_account_value_def m oa
    using o1 same
    by (auto simp: Let_def upd map_res_bindE bindE_assoc split: AccountField.splits)
qed

lemma observe_fields [simp]:
  "ob_account (observe k sdb) = (\<lambda>a. snd (get_account k sdb a))"
  "ob_storage (observe k sdb) (a, key) = snd (get_storage k sdb a key)"
  "ob_accounts_warm (observe k sdb) = access_list_account sdb"
  "ob_slots_warm (observe k sdb) = access_list_account_storage sdb"
  "ob_refund (observe k sdb) = refund sdb"
  by (simp_all add: observe_def)

lemma observe_set_storage:
  "observe k (set_storage a key v sdb) = (observe k sdb)\<lparr>ob_storage := (ob_storage (observe k sdb))((a, key) := v)\<rparr>"
  by (auto simp: observe_def set_storage_def snd_get_storage update_conv' get_account_def fun_eq_iff split: option.split)

lemma observe_access_list:
  "observe k (sdb\<lparr>access_list_account := s\<rparr>) = (observe k sdb)\<lparr>ob_accounts_warm := s\<rparr>"
  "observe k (sdb\<lparr>access_list_account_storage := t\<rparr>) = (observe k sdb)\<lparr>ob_slots_warm := t\<rparr>"
  "observe k (sdb\<lparr>refund := r\<rparr>) = (observe k sdb)\<lparr>ob_refund := r\<rparr>"
  by (auto simp: observe_def snd_get_storage get_account_def fun_eq_iff split: option.split)

lemma observe_same:
  "(observe k sdb)\<lparr>ob_accounts_warm := access_list_account sdb\<rparr> = observe k sdb"
  "(observe k sdb)\<lparr>ob_slots_warm := access_list_account_storage sdb\<rparr> = observe k sdb"
  by (simp_all add: observe_def)

lemma check_apply_op_refines:
  "map_res (observe k) (check_apply_op k op sdb) = spec_apply_op k op (observe k sdb)"
proof (cases op)
  case (OpAccount op)
  then show ?thesis
    using check_update_sdb_account_refines [of k WRITE op sdb] by (simp add: check_apply_op_def spec_apply_op_def)
qed (auto simp: check_apply_op_def spec_apply_op_def spec_warm_def observe_set_storage observe_access_list observe_same
    set_refund_def add_account_to_access_list_def remove_account_from_access_list_def
    add_account_storage_to_access_list_def remove_account_storage_from_access_list_def)

section \<open>Undoing operations\<close>

text \<open>A run: each operation fits the state it is applied to, and succeeds.\<close>

fun run_ops :: "('op \<Rightarrow> 's \<Rightarrow> 's res) \<Rightarrow> ('op \<Rightarrow> 's \<Rightarrow> bool) \<Rightarrow> 'op list \<Rightarrow> 's \<Rightarrow> 's \<Rightarrow> bool" where
  "run_ops app fits [] s t \<longleftrightarrow> t = s"
| "run_ops app fits (op # ops) s t \<longleftrightarrow> fits op s \<and> (\<exists>u. app op s = Inr u \<and> run_ops app fits ops u t)"

lemma run_ops_snoc:
  "run_ops app fits (ops @ [op]) s t \<longleftrightarrow> (\<exists>u. run_ops app fits ops s u \<and> fits op u \<and> app op u = Inr t)"
  by (induction ops arbitrary: s) auto

locale reversible_ops =
  fixes app :: "'op \<Rightarrow> 's \<Rightarrow> 's res"
    and revop :: "'op \<Rightarrow> 'op res"
    and fits :: "'op \<Rightarrow> 's \<Rightarrow> bool"
  assumes undo: "fits op s \<Longrightarrow> app op s = Inr t \<Longrightarrow> \<exists>r. revop op = Inr r \<and> app r t = Inr s"
begin

lemma undo_all:
  "run_ops app fits ops s t \<Longrightarrow>
     foldE (\<lambda>op s. bindE (revop op) (\<lambda>r. app r s)) (rev ops) t = Inr s"
proof (induction ops arbitrary: s)
  case (Cons op ops)
  then obtain u where u: "fits op s" "app op s = Inr u" "run_ops app fits ops u t" by auto
  from undo [OF u(1,2)] obtain r where "revop op = Inr r" "app r u = Inr s" by blast
  with Cons.IH [OF u(3)] show ?case by (simp add: foldE_append)
qed simp

end

text \<open>
  The previous value of an operation is the current value. The two extra conditions on a code hash: an empty
  account, whose code hash reads as zero, only gets the empty hash, and an account that is not empty does not become so.
\<close>

definition op_matches :: "keccak \<Rightarrow> OpEnum \<Rightarrow> Obs \<Rightarrow> bool" where
  "op_matches k op ob = (case op of
      OpStorage op \<Rightarrow> sto_value_prev op = ob_storage ob (sto_address op, sto_key op)
    | OpTxAccessListAccount op \<Rightarrow> ala_is_warm_prev op = (ala_address op \<in> ob_accounts_warm ob)
    | OpTxAccessListAccountStorage op \<Rightarrow> als_is_warm_prev op = ((als_address op, als_key op) \<in> ob_slots_warm ob)
    | OpTxRefund op \<Rightarrow> rfd_value_prev op = ob_refund ob
    | OpAccount op \<Rightarrow>
        let acc = ob_account ob (acc_address op)
        in acc_value_prev op = spec_account_value k (acc_field op) acc \<and>
           (acc_field op = AF_CodeHash \<longrightarrow>
              (if is_empty k acc then acc_value op = 0 \<or> acc_value op = empty_code_hash k
               else \<not> is_empty k (acc\<lparr>code_hash := acc_value op\<rparr>)))
    | _ \<Rightarrow> False)"

lemma unat_ucast_u64 [simp]: "unat (ucast (n :: u64) :: Word) = unat n"
proof -
  have "unat n < 2 ^ LENGTH(64)" by (rule unsigned_less)
  then show ?thesis by (simp add: unsigned_ucast_eq take_bit_nat_eq_self)
qed

lemma ucast_u64_eq_0 [simp]: "(ucast (n :: u64) :: Word) = 0 \<longleftrightarrow> n = 0"
  by (metis unat_ucast_u64 unat_0 unat_eq_zero)

lemma ucast_ucast_u64 [simp]: "(ucast (ucast (n :: u64) :: Word) :: u64) = n"
proof -
  have "unat n < 2 ^ LENGTH(64)" by (rule unsigned_less)
  then have "unat (ucast (ucast n :: Word) :: u64) = unat n"
    by (simp only: unsigned_ucast_eq [of "ucast n :: Word"] unat_ucast_u64 take_bit_nat_eq_self)
  then show ?thesis by (simp only: word_unat_eq_iff)
qed

lemma u256_as_u64_ucast [simp]: "u256_as_u64 (ucast (n :: u64)) = Inr n"
  using unsigned_less [of n] by (simp add: u256_as_u64_def)

lemma u256_as_u64_InrD: "u256_as_u64 v = Inr n \<Longrightarrow> v = ucast n"
  by (auto simp: u256_as_u64_def word_unat_eq_iff unsigned_ucast_eq take_bit_nat_eq_self split: if_splits)

lemma spec_account_op_undo:
  assumes "acc_value_prev op = spec_account_value k (acc_field op) acc"
    and "acc_field op = AF_CodeHash \<longrightarrow>
      (if is_empty k acc then acc_value op = 0 \<or> acc_value op = empty_code_hash k
       else \<not> is_empty k (acc\<lparr>code_hash := acc_value op\<rparr>))"
    and "spec_account_op k WRITE op acc = Inr acc'"
  shows "spec_account_op k WRITE (account_op_reverse op) acc' = Inr acc"
proof (cases "acc_field op")
  case AF_Nonce
  with assms(3) obtain n where n: "u256_as_u64 (acc_value op) = (Inr n :: u64 res)" "acc' = acc\<lparr>nonce := n\<rparr>"
    by (auto simp: spec_account_op_def spec_set_account_value_def split: if_splits)
  with AF_Nonce assms u256_as_u64_InrD [OF n(1)] show ?thesis
    by (auto simp: spec_account_op_def spec_account_value_def spec_set_account_value_def account_op_reverse_def
        is_empty_def split: if_splits)
next
  case AF_Balance
  with assms show ?thesis
    by (auto simp: spec_account_op_def spec_account_value_def spec_set_account_value_def account_op_reverse_def
        is_empty_def split: if_splits)
next
  case AF_CodeHash
  note spec = spec_account_op_def spec_account_value_def spec_set_account_value_def account_op_reverse_def
  show ?thesis
  proof (cases "is_empty k acc")
    case True
    then have "acc\<lparr>code_hash := empty_code_hash k\<rparr> = acc" by (simp add: is_empty_def)
    with True AF_CodeHash assms have "acc' = acc" "acc_value_prev op = 0"
      by (auto simp: spec split: if_splits)
    then show ?thesis using AF_CodeHash True by (simp add: spec)
  next
    case False
    with AF_CodeHash assms have "acc' = acc\<lparr>code_hash := acc_value op\<rparr>" "acc_value_prev op = code_hash acc" "\<not> is_empty k acc'"
      by (auto simp: spec split: if_splits)
    then show ?thesis using AF_CodeHash by (simp add: spec)
  qed
qed

lemma spec_warm_undo:
  "spec_warm p w a s = Inr s' \<Longrightarrow> p = (a \<in> s) \<Longrightarrow> spec_warm w p a s' = Inr s"
  by (auto simp: spec_warm_def split: if_splits)

lemma spec_apply_op_undo:
  assumes "op_matches k op s" and "spec_apply_op k op s = Inr t"
  shows "\<exists>r. op_reverse op = (Inr r :: OpEnum res) \<and> spec_apply_op k r t = Inr s"
proof (cases op)
  case (OpStorage op)
  with assms show ?thesis by (simp add: op_matches_def spec_apply_op_def op_reverse_defs) auto
next
  case (OpTxRefund op)
  with assms show ?thesis by (simp add: op_matches_def spec_apply_op_def op_reverse_defs) auto
next
  case (OpTxAccessListAccount op)
  with assms obtain w where w: "spec_warm (ala_is_warm_prev op) (ala_is_warm op) (ala_address op) (ob_accounts_warm s) = Inr w"
    "t = s\<lparr>ob_accounts_warm := w\<rparr>" "ala_is_warm_prev op = (ala_address op \<in> ob_accounts_warm s)"
    by (auto simp: op_matches_def spec_apply_op_def)
  have u: "spec_warm (ala_is_warm op) (ala_is_warm_prev op) (ala_address op) w = Inr (ob_accounts_warm s)"
    using w(1,3) by (rule spec_warm_undo)
  show ?thesis
    using w u OpTxAccessListAccount by (simp add: spec_apply_op_def op_reverse_defs)
next
  case (OpTxAccessListAccountStorage op)
  with assms obtain w where w:
    "spec_warm (als_is_warm_prev op) (als_is_warm op) (als_address op, als_key op) (ob_slots_warm s) = Inr w"
    "t = s\<lparr>ob_slots_warm := w\<rparr>" "als_is_warm_prev op = ((als_address op, als_key op) \<in> ob_slots_warm s)"
    by (auto simp: op_matches_def spec_apply_op_def)
  have u: "spec_warm (als_is_warm op) (als_is_warm_prev op) (als_address op, als_key op) w = Inr (ob_slots_warm s)"
    using w(1,3) by (rule spec_warm_undo)
  show ?thesis
    using w u OpTxAccessListAccountStorage by (simp add: spec_apply_op_def op_reverse_defs)
next
  case (OpAccount op)
  with assms obtain acc where acc: "spec_account_op k WRITE op (ob_account s (acc_address op)) = Inr acc"
    "t = s\<lparr>ob_account := (ob_account s)(acc_address op := acc)\<rparr>"
    by (auto simp: spec_apply_op_def)
  moreover have "acc_address (account_op_reverse op) = acc_address op" by (simp add: account_op_reverse_def)
  ultimately show ?thesis
    using assms(1) OpAccount spec_account_op_undo [of op k "ob_account s (acc_address op)" acc]
    by (simp add: op_matches_def Let_def op_reverse_def spec_apply_op_def)
qed (use assms(1) in \<open>simp_all add: op_matches_def\<close>)

interpretation sdb_ops: reversible_ops "spec_apply_op k" op_reverse "op_matches k" for k
  by unfold_locales (rule spec_apply_op_undo)

end
