(* ===== verification/Reversion.thy ===== *)
theory Reversion
  imports Observation
begin

text \<open>
  What \<open>handle_reversion\<close> does to the state of the builder: the operations of the last reversion group are undone,
  last one first, each under a counter of its own, and the calls of the group learn where their reversion ends.
\<close>

section \<open>Inserting under the next counter\<close>

lemma insert_next_spec:
  assumes "insert_next rw reversible op st = (r, st')"
  shows "cs_rwc st' = cs_rwc st + 1"
    and "container_get (cs_container st') r =
      Some \<lparr>op_rwc = cs_rwc st, op_rw = rw, op_reversible = reversible \<and> is_reversible (op_target op), op_op = op\<rparr>"
    and "container_get (cs_container st) r' = Some v \<Longrightarrow> container_get (cs_container st') r' = Some v"
    and "mset (container_rwcs (cs_container st')) = add_mset (cs_rwc st) (mset (container_rwcs (cs_container st)))"
    and "fst r = op_target op"
    and "cs_tx st' = cs_tx st" "cs_tx_ctx st' = cs_tx_ctx st" "cs_sdb st' = cs_sdb st" "cs_code_db st' = cs_code_db st"
proof -
  obtain c where i: "insert_op_enum (cs_rwc st) rw reversible op (cs_container st) = (r, c)"
    and st': "st' = st\<lparr>cs_block := (cs_block st)\<lparr>bk_container := c\<rparr>,
                    cs_block_ctx := (cs_block_ctx st)\<lparr>bx_rwc := cs_rwc st + 1\<rparr>\<rparr>"
    using assms by (auto simp: insert_next_def rwc_inc_pre_def Let_def split: prod.splits)
  have a: "insert_arg (cs_rwc st, rw, reversible, op) (cs_container st) = (r, c)"
    by (simp add: insert_arg_def i)
  show "cs_rwc st' = cs_rwc st + 1" "cs_tx st' = cs_tx st" "cs_tx_ctx st' = cs_tx_ctx st" "cs_sdb st' = cs_sdb st"
    "cs_code_db st' = cs_code_db st"
    by (simp_all add: st')
  show "container_get (cs_container st') r =
      Some \<lparr>op_rwc = cs_rwc st, op_rw = rw, op_reversible = reversible \<and> is_reversible (op_target op), op_op = op\<rparr>"
    using container_log.get_inserted [OF a] by (simp add: st' op_entry_def)
  show "container_get (cs_container st') r' = Some v" if "container_get (cs_container st) r' = Some v"
    using container_log.get_kept [OF a that] by (simp add: st')
  show "mset (container_rwcs (cs_container st')) = add_mset (cs_rwc st) (mset (container_rwcs (cs_container st)))"
    using container_rwcs_insert [OF i] by (simp add: st')
  show "fst r = op_target op"
    using insert_op_enum_ref [OF i] .
qed

section \<open>Undoing one operation\<close>

definition logged :: "OperationContainer \<Rightarrow> OperationRef \<Rightarrow> OpEnum \<Rightarrow> bool" where
  "logged c r op = (case container_get c r of
       None \<Rightarrow> False
     | Some o' \<Rightarrow> op_rw o' = WRITE \<and> op_reversible o' \<and> op_op o' = op \<and> fst r = op_target op \<and> is_reversible (op_target op))"

lemma get_rev_op_by_ref_logged:
  "logged c r op \<Longrightarrow> get_rev_op_by_ref c r = bindE (op_reverse op) (\<lambda>r. Inr (Some r))"
  by (auto simp: logged_def get_rev_op_by_ref_def rev_op_of_def is_write_def is_reversible_def
      split: option.splits Target.splits)

lemma op_reverse_target: "op_reverse op = Inr r \<Longrightarrow> op_target r = op_target op"
  by (auto simp: op_reverse_defs op_target_def split: OpEnum.splits)

lemma check_apply_op_spec:
  assumes "spec_apply_op k op (observe k sdb) = Inr u"
  shows "\<exists>sdb'. check_apply_op k op sdb = Inr sdb' \<and> observe k sdb' = u"
  using check_apply_op_refines [of k op sdb] assms by (cases "check_apply_op k op sdb") auto

lemma apply_reversion_step:
  assumes "logged (cs_container st) r op"
    and "op_matches (x_keccak256 x) op u" "spec_apply_op (x_keccak256 x) op u = Inr (observe (x_keccak256 x) (cs_sdb st))"
    and "i < length (tx_steps (cs_tx st))"
  shows "\<exists>st' r' rop. apply_reversion x (i, r) st = Inr st' \<and> op_reverse op = (Inr rop :: OpEnum res) \<and>
    observe (x_keccak256 x) (cs_sdb st') = u \<and> cs_rwc st' = cs_rwc st + 1 \<and>
    container_get (cs_container st') r' = Some \<lparr>op_rwc = cs_rwc st, op_rw = WRITE, op_reversible = False, op_op = rop\<rparr> \<and>
    (\<forall>r'' v. container_get (cs_container st) r'' = Some v \<longrightarrow> container_get (cs_container st') r'' = Some v) \<and>
    cs_tx st' = (cs_tx st)\<lparr>tx_steps := (tx_steps (cs_tx st))[i := note_ref r' (tx_steps (cs_tx st) ! i)]\<rparr> \<and>
    cs_tx_ctx st' = cs_tx_ctx st"
proof -
  let ?k = "x_keccak256 x"
  from spec_apply_op_undo [OF assms(2,3)] obtain rop where
    rop: "op_reverse op = (Inr rop :: OpEnum res)" "spec_apply_op ?k rop (observe ?k (cs_sdb st)) = Inr u" by blast
  from check_apply_op_spec [OF rop(2)] obtain sdb' where
    sdb': "check_apply_op ?k rop (cs_sdb st) = Inr sdb'" "observe ?k sdb' = u" by blast
  obtain r' st1 where n: "insert_next WRITE False rop (st\<lparr>cs_sdb := sdb'\<rparr>) = (r', st1)" by fastforce
  note s = insert_next_spec [OF n]
  let ?st = "st1\<lparr>cs_tx := (cs_tx st1)\<lparr>tx_steps := (tx_steps (cs_tx st1))[i := note_ref r' (tx_steps (cs_tx st1) ! i)]\<rparr>\<rparr>"
  have "apply_reversion x (i, r) st = Inr ?st"
    using sdb'(1) n s(6) assms(4) rop(1)
    by (simp add: apply_reversion_def get_rev_op_by_ref_logged [OF assms(1)])
  then show ?thesis
    using s sdb'(2) rop(1) by (intro exI [of _ ?st] exI [of _ r'] exI [of _ rop]) simp
qed

section \<open>Undoing a group\<close>

text \<open>The step \<open>i\<close> refers to the reverse of \<open>op\<close>, written under the counter \<open>c\<close>.\<close>

definition reverted_at :: "CircuitInputState \<Rightarrow> usize \<Rightarrow> RWCounter \<Rightarrow> OpEnum \<Rightarrow> bool" where
  "reverted_at st i c op = (case op_reverse op :: OpEnum res of
       Inl _ \<Rightarrow> False
     | Inr rop \<Rightarrow> list_ex (\<lambda>r. container_get (cs_container st) r =
         Some \<lparr>op_rwc = c, op_rw = WRITE, op_reversible = False, op_op = rop\<rparr>)
         (es_bus_mapping_instance (tx_steps (cs_tx st) ! i)))"

definition refs_logged :: "CircuitInputState \<Rightarrow> (usize \<times> OperationRef) list \<Rightarrow> OpEnum list \<Rightarrow> bool" where
  "refs_logged st refs ops =
     list_all2 (\<lambda>(i, r) op. logged (cs_container st) r op \<and> i < length (tx_steps (cs_tx st))) refs ops"

text \<open>A later state keeps the operations, and each step its references.\<close>

definition log_grows :: "CircuitInputState \<Rightarrow> CircuitInputState \<Rightarrow> bool" where
  "log_grows st st' \<longleftrightarrow>
     (\<forall>r v. container_get (cs_container st) r = Some v \<longrightarrow> container_get (cs_container st') r = Some v) \<and>
     length (tx_steps (cs_tx st')) = length (tx_steps (cs_tx st)) \<and>
     (\<forall>i < length (tx_steps (cs_tx st)). set (es_bus_mapping_instance (tx_steps (cs_tx st) ! i)) \<subseteq>
        set (es_bus_mapping_instance (tx_steps (cs_tx st') ! i)))"

lemma log_grows_refl: "log_grows st st"
  by (simp add: log_grows_def)

lemma log_growsD:
  assumes "log_grows st st'"
  shows "container_get (cs_container st) r = Some v \<Longrightarrow> container_get (cs_container st') r = Some v"
    and "length (tx_steps (cs_tx st')) = length (tx_steps (cs_tx st))"
    and "i < length (tx_steps (cs_tx st)) \<Longrightarrow> set (es_bus_mapping_instance (tx_steps (cs_tx st) ! i)) \<subseteq>
        set (es_bus_mapping_instance (tx_steps (cs_tx st') ! i))"
  using assms unfolding log_grows_def by blast+

lemma log_growsI:
  assumes "\<And>r v. container_get (cs_container st) r = Some v \<Longrightarrow> container_get (cs_container st') r = Some v"
    and "length (tx_steps (cs_tx st')) = length (tx_steps (cs_tx st))"
    and "\<And>i. i < length (tx_steps (cs_tx st)) \<Longrightarrow> set (es_bus_mapping_instance (tx_steps (cs_tx st) ! i)) \<subseteq>
        set (es_bus_mapping_instance (tx_steps (cs_tx st') ! i))"
  shows "log_grows st st'"
  unfolding log_grows_def using assms by blast

lemma log_grows_trans:
  assumes "log_grows st st'" and "log_grows st' st''"
  shows "log_grows st st''"
proof (rule log_growsI)
  fix i assume "i < length (tx_steps (cs_tx st))"
  then show "set (es_bus_mapping_instance (tx_steps (cs_tx st) ! i)) \<subseteq> set (es_bus_mapping_instance (tx_steps (cs_tx st'') ! i))"
    using log_growsD(3) [OF assms(1), of i] log_growsD(3) [OF assms(2), of i] log_growsD(2) [OF assms(1)] by auto
qed (use log_growsD [OF assms(1)] log_growsD [OF assms(2)] in simp_all)

lemma logged_grows:
  assumes "logged (cs_container st) r op" and "log_grows st st'"
  shows "logged (cs_container st') r op"
proof -
  from assms(1) obtain o' where o': "container_get (cs_container st) r = Some o'"
    by (cases "container_get (cs_container st) r") (auto simp: logged_def)
  then have "container_get (cs_container st') r = Some o'"
    by (rule log_growsD(1) [OF assms(2)])
  with o' assms(1) show ?thesis by (simp add: logged_def)
qed

lemma refs_logged_grows:
  assumes "refs_logged st refs ops" and "log_grows st st'"
  shows "refs_logged st' refs ops"
proof -
  have "length (tx_steps (cs_tx st')) = length (tx_steps (cs_tx st))"
    by (rule log_growsD(2) [OF assms(2)])
  then show ?thesis
    using assms(1) logged_grows [OF _ assms(2)] unfolding refs_logged_def
    by (auto elim!: list_all2_mono)
qed

lemma reverted_at_grows:
  assumes "reverted_at st i c op" and "log_grows st st'" and "i < length (tx_steps (cs_tx st))"
  shows "reverted_at st' i c op"
proof -
  from assms(1) obtain rop r where r: "op_reverse op = (Inr rop :: OpEnum res)"
    "r \<in> set (es_bus_mapping_instance (tx_steps (cs_tx st) ! i))"
    "container_get (cs_container st) r = Some \<lparr>op_rwc = c, op_rw = WRITE, op_reversible = False, op_op = rop\<rparr>"
    by (auto simp: reverted_at_def list_ex_iff split: sum.splits)
  have "r \<in> set (es_bus_mapping_instance (tx_steps (cs_tx st') ! i))"
    using r(2) log_growsD(3) [OF assms(2,3)] by blast
  moreover have "container_get (cs_container st') r = Some \<lparr>op_rwc = c, op_rw = WRITE, op_reversible = False, op_op = rop\<rparr>"
    using r(3) by (rule log_growsD(1) [OF assms(2)])
  ultimately show ?thesis using r(1) by (auto simp: reverted_at_def list_ex_iff)
qed

lemma refs_logged_snoc:
  "refs_logged st (refs @ [(i, r)]) (ops @ [op]) \<longleftrightarrow>
     refs_logged st refs ops \<and> logged (cs_container st) r op \<and> i < length (tx_steps (cs_tx st))"
  by (cases "length refs = length ops") (auto simp: refs_logged_def list_all2_append dest: list_all2_lengthD)

lemma apply_reversions:
  assumes "refs_logged st refs ops"
    and "run_ops (spec_apply_op (x_keccak256 x)) (op_matches (x_keccak256 x)) ops s0 (observe (x_keccak256 x) (cs_sdb st))"
  shows "\<exists>st'. foldE (apply_reversion x) (rev refs) st = Inr st' \<and>
    observe (x_keccak256 x) (cs_sdb st') = s0 \<and> cs_rwc st' = cs_rwc st + length ops \<and> log_grows st st' \<and>
    (\<forall>j < length ops. reverted_at st' (fst (refs ! j)) (cs_rwc st' - 1 - j) (ops ! j)) \<and>
    tx_calls (cs_tx st') = tx_calls (cs_tx st) \<and> cs_tx_ctx st' = cs_tx_ctx st"
  using assms
proof (induction refs arbitrary: ops st rule: rev_induct)
  case Nil
  then show ?case by (simp add: refs_logged_def log_grows_refl)
next
  case (snoc ir refs)
  let ?k = "x_keccak256 x"
  obtain i r where ir: "ir = (i, r)" by (cases ir)
  have len: "length ops = Suc (length refs)"
    using snoc.prems(1) by (simp add: refs_logged_def list_all2_lengthD [symmetric])
  then obtain ops' op where ops: "ops = ops' @ [op]" by (cases ops rule: rev_cases) auto
  have l: "refs_logged st refs ops'" "logged (cs_container st) r op" "i < length (tx_steps (cs_tx st))"
    using snoc.prems(1) by (simp_all add: ir ops refs_logged_snoc)
  from snoc.prems(2) obtain u where u: "run_ops (spec_apply_op ?k) (op_matches ?k) ops' s0 u" "op_matches ?k op u"
    "spec_apply_op ?k op u = Inr (observe ?k (cs_sdb st))"
    by (auto simp: ops run_ops_snoc)
  from apply_reversion_step [OF l(2) u(2,3) l(3)] obtain st1 r' rop where
    a: "apply_reversion x (i, r) st = Inr st1" "op_reverse op = (Inr rop :: OpEnum res)"
      "observe ?k (cs_sdb st1) = u" "cs_rwc st1 = cs_rwc st + 1"
      "container_get (cs_container st1) r' = Some \<lparr>op_rwc = cs_rwc st, op_rw = WRITE, op_reversible = False, op_op = rop\<rparr>"
      "\<forall>r'' v. container_get (cs_container st) r'' = Some v \<longrightarrow> container_get (cs_container st1) r'' = Some v"
      "cs_tx st1 = (cs_tx st)\<lparr>tx_steps := (tx_steps (cs_tx st))[i := note_ref r' (tx_steps (cs_tx st) ! i)]\<rparr>"
      "cs_tx_ctx st1 = cs_tx_ctx st" by blast
  have g1: "log_grows st st1"
  proof (rule log_growsI)
    show "container_get (cs_container st1) r'' = Some v" if "container_get (cs_container st) r'' = Some v" for r'' v
      using a(6) that by blast
  qed (use l(3) in \<open>auto simp: a(7) nth_list_update note_ref_def\<close>)
  have "reverted_at st1 i (cs_rwc st) op"
    using a(2,5,7) l(3) by (simp add: reverted_at_def note_ref_def)
  note at1 = this
  from snoc.IH [OF refs_logged_grows [OF l(1) g1]] u(1) a(3) obtain st' where
    st': "foldE (apply_reversion x) (rev refs) st1 = Inr st'" "observe ?k (cs_sdb st') = s0"
      "cs_rwc st' = cs_rwc st1 + length ops'" "log_grows st1 st'"
      "\<forall>j < length ops'. reverted_at st' (fst (refs ! j)) (cs_rwc st' - 1 - j) (ops' ! j)"
      "tx_calls (cs_tx st') = tx_calls (cs_tx st1)" "cs_tx_ctx st' = cs_tx_ctx st1" by blast
  have "reverted_at st' i (cs_rwc st) op"
    using at1 st'(4) l(3) a(7) by (auto intro: reverted_at_grows)
  moreover have "cs_rwc st' - 1 - length ops' = cs_rwc st" using st'(3) a(4) by simp
  ultimately have "\<forall>j < length ops. reverted_at st' (fst ((refs @ [ir]) ! j)) (cs_rwc st' - 1 - j) (ops ! j)"
    using st'(5) len by (auto simp: ops ir nth_append less_Suc_eq)
  then show ?case
    using a st' g1 log_grows_trans [OF g1 st'(4)] by (intro exI [of _ st']) (simp add: ir ops)
qed

lemma set_ends_of_reversion:
  assumes "distinct (map fst calls)" and "\<forall>(i, off) \<in> set calls. i < length (tx_calls (cs_tx st)) \<and> off \<le> rwc"
  shows "\<exists>cs. foldE (set_end_of_reversion rwc) calls st = Inr (st\<lparr>cs_tx := (cs_tx st)\<lparr>tx_calls := cs\<rparr>\<rparr>) \<and>
    length cs = length (tx_calls (cs_tx st)) \<and>
    (\<forall>i < length cs. cs ! i = (case map_of calls i of
       None \<Rightarrow> tx_calls (cs_tx st) ! i
     | Some off \<Rightarrow> (tx_calls (cs_tx st) ! i)\<lparr>rw_counter_end_of_reversion := rwc - off\<rparr>))"
  using assms
proof (induction calls arbitrary: st)
  case Nil
  then show ?case by (intro exI [of _ "tx_calls (cs_tx st)"]) simp
next
  case (Cons c calls)
  obtain i off where c: "c = (i, off)" by (cases c)
  let ?cs = "(tx_calls (cs_tx st))[i := (tx_calls (cs_tx st) ! i)\<lparr>rw_counter_end_of_reversion := rwc - off\<rparr>]"
  let ?st = "st\<lparr>cs_tx := (cs_tx st)\<lparr>tx_calls := ?cs\<rparr>\<rparr>"
  have i: "i < length (tx_calls (cs_tx st))" "off \<le> rwc" using Cons.prems(2) c by auto
  then have 1: "set_end_of_reversion rwc c st = Inr ?st" by (simp add: set_end_of_reversion_def c)
  have "distinct (map fst calls)"
    "\<forall>(i, off) \<in> set calls. i < length (tx_calls (cs_tx ?st)) \<and> off \<le> rwc"
    using Cons.prems by auto
  from Cons.IH [OF this] obtain cs where
    cs: "foldE (set_end_of_reversion rwc) calls ?st = Inr (?st\<lparr>cs_tx := (cs_tx ?st)\<lparr>tx_calls := cs\<rparr>\<rparr>)"
      "length cs = length (tx_calls (cs_tx ?st))"
      "\<forall>j < length cs. cs ! j = (case map_of calls j of
         None \<Rightarrow> tx_calls (cs_tx ?st) ! j
       | Some off \<Rightarrow> (tx_calls (cs_tx ?st) ! j)\<lparr>rw_counter_end_of_reversion := rwc - off\<rparr>)"
    by blast
  have n: "map_of calls i = None" using Cons.prems(1) c by (force simp: map_of_eq_None_iff)
  have "cs ! j = (case map_of (c # calls) j of
       None \<Rightarrow> tx_calls (cs_tx st) ! j
     | Some off \<Rightarrow> (tx_calls (cs_tx st) ! j)\<lparr>rw_counter_end_of_reversion := rwc - off\<rparr>)" if "j < length cs" for j
    using cs(3) that n i by (auto simp: c nth_list_update split: option.split)
  then show ?case using cs(1,2) 1 by (intro exI [of _ cs]) simp
qed

section \<open>Properties of reversion\<close>

text \<open>
  C22: an operation on observations is what \<open>check_apply_op\<close> does on the database: it fails with the same panic
  or both succeed with corresponding results, whether or not the accounts are stored explicitly.
\<close>

theorem check_apply_op_refinement:
  "map_res (observe k) (check_apply_op k op sdb) = spec_apply_op k op (observe k sdb)"
  by (rule check_apply_op_refines)

text \<open>
  C17: reversion restores the state. If the last reversion group refers to operations that were applied one after
  the other from the observation \<open>s0\<close> to the present one, each with the previous value it found, then \<open>handle_reversion\<close>
  succeeds, leaves the database in a state that is observed as \<open>s0\<close>, and drops the group. Every operation \<open>j\<close> of the
  group is written back under the counter \<open>j\<close> below the last one used, in the step it belongs to, and every call of the
  group gets as end of reversion the last counter used minus its offset in the group.
\<close>

theorem handle_reversion_restores:
  assumes group: "tc_reversion_groups (cs_tx_ctx st) = gs @ [g]"
    and log: "refs_logged st (rg_op_refs g) ops"
    and run: "run_ops (spec_apply_op (x_keccak256 x)) (op_matches (x_keccak256 x)) ops s0
      (observe (x_keccak256 x) (cs_sdb st))"
    and calls: "distinct (map fst (rg_calls g))"
      "\<forall>(i, off) \<in> set (rg_calls g). i < length (tx_calls (cs_tx st)) \<and> off \<le> length ops"
    and counter: "1 \<le> cs_rwc st"
  shows "\<exists>st'. handle_reversion x st = Inr st' \<and>
    observe (x_keccak256 x) (cs_sdb st') = s0 \<and>
    tc_reversion_groups (cs_tx_ctx st') = gs \<and>
    cs_rwc st' = cs_rwc st + length ops \<and>
    (\<forall>j < length ops. reverted_at st' (fst (rg_op_refs g ! j)) (cs_rwc st' - 1 - j) (ops ! j)) \<and>
    (\<forall>(i, off) \<in> set (rg_calls g). rw_counter_end_of_reversion (tx_calls (cs_tx st') ! i) = cs_rwc st' - 1 - off)"
proof -
  let ?st = "st\<lparr>cs_tx_ctx := (cs_tx_ctx st)\<lparr>tc_reversion_groups := gs\<rparr>\<rparr>"
  have "refs_logged ?st (rg_op_refs g) ops" using log by (simp add: refs_logged_def)
  with apply_reversions [of ?st "rg_op_refs g" ops x s0] run obtain st1 where
    a: "foldE (apply_reversion x) (rev (rg_op_refs g)) ?st = Inr st1" "observe (x_keccak256 x) (cs_sdb st1) = s0"
      "cs_rwc st1 = cs_rwc st + length ops"
      "\<forall>j < length ops. reverted_at st1 (fst (rg_op_refs g ! j)) (cs_rwc st1 - 1 - j) (ops ! j)"
      "tx_calls (cs_tx st1) = tx_calls (cs_tx st)" "tc_reversion_groups (cs_tx_ctx st1) = gs"
    by auto
  have "\<forall>(i, off) \<in> set (rg_calls g). i < length (tx_calls (cs_tx st1)) \<and> off \<le> cs_rwc st1 - 1"
    using calls(2) a(3,5) counter by auto
  from set_ends_of_reversion [OF calls(1) this] obtain cs where
    c: "foldE (set_end_of_reversion (cs_rwc st1 - 1)) (rg_calls g) st1 = Inr (st1\<lparr>cs_tx := (cs_tx st1)\<lparr>tx_calls := cs\<rparr>\<rparr>)"
      "length cs = length (tx_calls (cs_tx st1))"
      "\<forall>i < length cs. cs ! i = (case map_of (rg_calls g) i of
       None \<Rightarrow> tx_calls (cs_tx st1) ! i
     | Some off \<Rightarrow> (tx_calls (cs_tx st1) ! i)\<lparr>rw_counter_end_of_reversion := cs_rwc st1 - 1 - off\<rparr>)"
    by blast
  let ?st' = "st1\<lparr>cs_tx := (cs_tx st1)\<lparr>tx_calls := cs\<rparr>\<rparr>"
  have "handle_reversion x st = Inr ?st'"
    using a c(1) counter by (simp add: handle_reversion_def group)
  moreover have "rw_counter_end_of_reversion (cs ! i) = cs_rwc st1 - 1 - off" if "(i, off) \<in> set (rg_calls g)" for i off
    using c(2,3) calls a(5) that by fastforce
  moreover have "reverted_at ?st' i n op = reverted_at st1 i n op" for i n op
    by (simp add: reverted_at_def split: sum.split)
  ultimately show ?thesis using a by (intro exI [of _ ?st']) auto
qed

text \<open>A transaction whose only call fails after a single reversible write, of the refund from 0 to 7.\<close>

definition ex_ext :: Externals where
  "ex_ext = \<lparr>x_keccak256 = (\<lambda>_. 5), x_get_contract_address = (\<lambda>_ _. 0), x_get_create2_address = (\<lambda>_ _ _. 0),
     x_rlp_address_nonce = (\<lambda>_ _. []), x_precompiles = (\<lambda>_. None), x_warn_unimplemented = True\<rparr>"

definition ex_eth_block :: EthBlock where
  "ex_eth_block = \<lparr>eb_author = Some 1, eb_number = Some 1, eb_gas_limit = 0, eb_timestamp = 0, eb_difficulty = 0,
     eb_base_fee_per_gas = Some 0, eb_transactions = []\<rparr>"

definition ex_block :: Block where
  "ex_block = \<lparr>bk_chain_id = 1, bk_history_hashes = [], bk_coinbase = 1, bk_gas_limit = 0, bk_number = 1,
     bk_timestamp = 0, bk_difficulty = 0, bk_base_fee = 0, bk_prev_state_root = 0, bk_container = container_new,
     bk_txs = [], bk_block_steps = \<lparr>bs_end_block_not_last = exec_step_default, bs_end_block_last = exec_step_default\<rparr>,
     bk_copy_events = [], bk_sha3_inputs = [], bk_exp_events = [], bk_eth_block = ex_eth_block\<rparr>"

definition ex_refund_op :: TxRefundOp where
  "ex_refund_op = \<lparr>rfd_tx_id = 1, rfd_value = 7, rfd_value_prev = 0\<rparr>"

definition ex_state :: CircuitInputState where
  "ex_state =
     \<lparr>cs_sdb = set_refund 7 sdb_new, cs_code_db = [],
      cs_block = ex_block\<lparr>bk_container := container_new\<lparr>oc_tx_refund := [operation_new_reversible 1 WRITE ex_refund_op]\<rparr>\<rparr>,
      cs_block_ctx = block_context_new\<lparr>bx_rwc := 2\<rparr>,
      cs_tx = transaction_default\<lparr>tx_calls := [call_default], tx_steps := [exec_step_default]\<rparr>,
      cs_tx_ctx = tx_ctx_default\<lparr>tc_call_is_success := [False],
        tc_calls := [\<lparr>cx_index = 0, cx_reversible_write_counter = 1, cx_call_data = [], cx_memory = [], cx_return_data = []\<rparr>],
        tc_reversion_groups := [\<lparr>rg_calls = [(0, 0)], rg_op_refs = [(0, (TTxRefund, 0))]\<rparr>]\<rparr>\<rparr>"

theorem handle_reversion_restores_witness:
  "\<exists>st'. handle_reversion ex_ext ex_state = Inr st' \<and>
     observe (x_keccak256 ex_ext) (cs_sdb st') = observe (x_keccak256 ex_ext) sdb_new \<and>
     cs_rwc st' = 3 \<and> rw_counter_end_of_reversion (tx_calls (cs_tx st') ! 0) = 2"
proof -
  let ?g = "\<lparr>rg_calls = [(0, 0)], rg_op_refs = [(0, (TTxRefund, 0))]\<rparr>"
  have group: "tc_reversion_groups (cs_tx_ctx ex_state) = [] @ [?g]"
    by (simp add: ex_state_def)
  have log: "refs_logged ex_state (rg_op_refs ?g) [OpTxRefund ex_refund_op]"
    by (simp add: refs_logged_def logged_def ex_state_def container_get_def nth_opt_def op_view_def
        operation_new_reversible_def op_target_def is_reversible_def transaction_default_def)
  have run: "run_ops (spec_apply_op (x_keccak256 ex_ext)) (op_matches (x_keccak256 ex_ext)) [OpTxRefund ex_refund_op]
      (observe (x_keccak256 ex_ext) sdb_new) (observe (x_keccak256 ex_ext) (cs_sdb ex_state))"
    by (simp add: ex_state_def spec_apply_op_def op_matches_def ex_refund_op_def set_refund_def observe_access_list)
      (simp add: sdb_new_def)
  have calls: "distinct (map fst (rg_calls ?g))"
    "\<forall>(i, off) \<in> set (rg_calls ?g). i < length (tx_calls (cs_tx ex_state)) \<and> off \<le> length [OpTxRefund ex_refund_op]"
    and counter: "1 \<le> cs_rwc ex_state"
    by (simp_all add: ex_state_def)
  from handle_reversion_restores [OF group log run calls counter] obtain st' where
    "handle_reversion ex_ext ex_state = Inr st'"
    "observe (x_keccak256 ex_ext) (cs_sdb st') = observe (x_keccak256 ex_ext) sdb_new"
    "cs_rwc st' = cs_rwc ex_state + 1"
    "rw_counter_end_of_reversion (tx_calls (cs_tx st') ! 0) = cs_rwc st' - 1"
    by auto
  then show ?thesis by (auto simp: ex_state_def)
qed

end
