(* ===== verification/Call_Stack.thy ===== *)
theory Call_Stack
  imports Reversion
begin

text \<open>
  The builder as a state machine, and the invariants of its call stack.

  \<open>builder_step\<close> has one rule for each kind of operation an opcode handler makes on the state: pushing an operation,
  pushing a reversible one, entering a call, returning from one, and finishing a step. The invariant \<open>stack_ok\<close>
  says that the reversion groups follow the call stack: the offset of a call in its group plus its reversible
  writes is the offset of its callee, and for the innermost call the number of operations of the group.
\<close>

section \<open>Operations that only push\<close>

text \<open>Pushing operations on the call context.\<close>

definition pushes :: "Externals \<Rightarrow> step_state \<Rightarrow> step_state \<Rightarrow> bool" where
  "pushes x = (\<lambda>ss ss'. \<exists>rw op. op_target op = TCallContext \<and> push_op x rw op ss = Inr ss')\<^sup>*\<^sup>*"

lemma pushes_refl [simp, intro]: "pushes x ss ss"
  by (simp add: pushes_def)

lemma pushes_trans [trans]: "pushes x s t \<Longrightarrow> pushes x t u \<Longrightarrow> pushes x s u"
  by (auto simp: pushes_def)

lemma push_op_pushes: "push_op x rw op ss = Inr ss' \<Longrightarrow> op_target op = TCallContext \<Longrightarrow> pushes x ss ss'"
  by (auto simp: pushes_def)

lemma call_context_pushes:
  "call_context_read x cid field v ss = Inr ss' \<Longrightarrow> pushes x ss ss'"
  "call_context_write x cid field v ss = Inr ss' \<Longrightarrow> pushes x ss ss'"
  by (auto simp: call_context_read_def call_context_write_def op_target_def intro: push_op_pushes)

lemma foldE_pushes:
  assumes "foldE f ys ss = Inr ss'" and "\<And>y s t. y \<in> set ys \<Longrightarrow> f y s = Inr t \<Longrightarrow> pushes x s t"
  shows "pushes x ss ss'"
  using assms
proof (induction ys arbitrary: ss)
  case (Cons y ys)
  then obtain t where t: "f y ss = Inr t" "foldE f ys t = Inr ss'" by auto
  have "pushes x ss t" using Cons.prems(2) [OF _ t(1)] by simp
  also have "pushes x t ss'" by (rule Cons.IH [OF t(2)]) (rule Cons.prems(2), simp_all)
  finally show ?case .
qed simp

lemma foldE_call_context_pushes:
  "foldE (\<lambda>(field, v) ss. call_context_read x cid field v ss) fs ss = Inr ss' \<Longrightarrow> pushes x ss ss'"
  "foldE (\<lambda>(field, v) ss. call_context_write x cid field v ss) fs ss = Inr ss' \<Longrightarrow> pushes x ss ss'"
  by (erule foldE_pushes, auto dest: call_context_pushes)+

lemma restore_context_exception_pushes:
  assumes "(if b then bindE (call_context_read x i f v ss) (call_context_read x i f' v') else Inr ss) = Inr ss'"
  shows "pushes x ss ss'"
  using assms by (auto split: if_splits dest: call_context_pushes intro: pushes_trans)

lemma handle_restore_context_pushes:
  assumes "handle_restore_context x steps ss = Inr ss'"
  shows "pushes x ss ss'"
proof -
  note pushes = restore_context_exception_pushes call_context_pushes foldE_call_context_pushes
  show ?thesis
    using assms unfolding handle_restore_context_def Let_def
    apply (elim bindE_eq_InrE)
    apply (drule restore_context_exception_pushes)
    apply (split if_split_asm)
     apply simp
    apply (elim bindE_eq_InrE)
    apply (simp only: split: prod.splits)
    apply (elim bindE_eq_InrE)
    apply (blast intro: pushes_trans call_context_pushes foldE_call_context_pushes)
    done
qed

lemma push_opE:
  assumes "push_op x rw op (step, st) = Inr (step', st')"
  obtains sdb r where
    "(case op of OpAccount op \<Rightarrow> check_update_sdb_account (x_keccak256 x) rw op (cs_sdb st) | _ \<Rightarrow> Inr (cs_sdb st)) = Inr sdb"
    and "insert_next rw False op (st\<lparr>cs_sdb := sdb\<rparr>) = (r, st')" and "step' = note_ref r step"
proof -
  from assms obtain sdb where sdb:
    "(case op of OpAccount op \<Rightarrow> check_update_sdb_account (x_keccak256 x) rw op (cs_sdb st) | _ \<Rightarrow> Inr (cs_sdb st)) = Inr sdb"
    "(let (r, st) = insert_next rw False op (st\<lparr>cs_sdb := sdb\<rparr>) in Inr (note_ref r step, st) :: step_state res) = Inr (step', st')"
    by (auto simp: push_op_def)
  obtain r st1 where "insert_next rw False op (st\<lparr>cs_sdb := sdb\<rparr>) = (r, st1)" by (cases "insert_next rw False op (st\<lparr>cs_sdb := sdb\<rparr>)")
  with sdb that show thesis by simp
qed

lemma push_op_frame:
  assumes "push_op x rw op (step, st) = Inr (step', st')"
  shows "cs_tx st' = cs_tx st \<and> cs_tx_ctx st' = cs_tx_ctx st"
  using assms by (elim push_opE) (simp add: insert_next_spec)

lemma push_op_reversibleE:
  assumes "push_op_reversible x op (step, st) = Inr (step', st')"
  obtains sdb r st1 call where
    "check_apply_op (x_keccak256 x) op (cs_sdb st) = Inr sdb"
    and "insert_next WRITE True op (st\<lparr>cs_sdb := sdb\<rparr>) = (r, st1)"
    and "tc_calls (cs_tx_ctx st) \<noteq> []" and "cur_call st = Inr call"
    and "is_persistent call \<or> tc_reversion_groups (cs_tx_ctx st) \<noteq> []"
    and "step' = (note_ref r step)\<lparr>es_reversible_write_counter_delta := es_reversible_write_counter_delta step + 1\<rparr>"
    and "st' = st1\<lparr>cs_tx_ctx := (cs_tx_ctx st)\<lparr>
        tc_calls := map_last (\<lambda>cx. cx\<lparr>cx_reversible_write_counter := cx_reversible_write_counter cx + 1\<rparr>) (tc_calls (cs_tx_ctx st)),
        tc_reversion_groups := (if is_persistent call then tc_reversion_groups (cs_tx_ctx st)
          else map_last (\<lambda>rg. rg\<lparr>rg_op_refs := rg_op_refs rg @ [(length (tx_steps (cs_tx st)), r)]\<rparr>)
                 (tc_reversion_groups (cs_tx_ctx st)))\<rparr>\<rparr>"
proof -
  from assms obtain sdb where sdb: "check_apply_op (x_keccak256 x) op (cs_sdb st) = Inr sdb"
    by (auto simp: push_op_reversible_def)
  obtain r st1 where i: "insert_next WRITE True op (st\<lparr>cs_sdb := sdb\<rparr>) = (r, st1)"
    by (cases "insert_next WRITE True op (st\<lparr>cs_sdb := sdb\<rparr>)")
  have f: "cs_tx st1 = cs_tx st" "cs_tx_ctx st1 = cs_tx_ctx st"
    using insert_next_spec(6,7) [OF i] by simp_all
  let ?up = "\<lambda>cx. cx\<lparr>cx_reversible_write_counter := cx_reversible_write_counter cx + 1\<rparr>"
  let ?tc = "(cs_tx_ctx st)\<lparr>tc_calls := map_last ?up (tc_calls (cs_tx_ctx st))\<rparr>"
  let ?step = "(note_ref r step)\<lparr>es_reversible_write_counter_delta := es_reversible_write_counter_delta step + 1\<rparr>"
  have ne: "tc_calls (cs_tx_ctx st) \<noteq> []"
    using assms sdb i f by (auto simp: push_op_reversible_def call_ctx_mut_def)
  have call: "cur_call (st1\<lparr>cs_tx_ctx := ?tc\<rparr>) = cur_call st"
    using ne f by (simp add: cur_call_def call_index_def call_ctx_def nth_call_def)
  have "push_op_reversible x op (step, st) = bindE (cur_call st) (\<lambda>call.
      if is_persistent call then Inr (?step, st1\<lparr>cs_tx_ctx := ?tc\<rparr>)
      else if tc_reversion_groups (cs_tx_ctx st) = []
      then Inl (Panic ''reversion_groups should not be empty for non-persistent call'')
      else Inr (?step, st1\<lparr>cs_tx_ctx := ?tc\<lparr>tc_reversion_groups :=
        map_last (\<lambda>rg. rg\<lparr>rg_op_refs := rg_op_refs rg @ [(length (tx_steps (cs_tx st)), r)]\<rparr>)
          (tc_reversion_groups (cs_tx_ctx st))\<rparr>\<rparr>))"
    using sdb i f ne call by (simp add: push_op_reversible_def call_ctx_mut_def Let_def note_ref_def cong: if_cong)
  with assms obtain c where c: "cur_call st = Inr c"
    "(if is_persistent c then Inr (?step, st1\<lparr>cs_tx_ctx := ?tc\<rparr>)
      else if tc_reversion_groups (cs_tx_ctx st) = []
      then Inl (Panic ''reversion_groups should not be empty for non-persistent call'')
      else Inr (?step, st1\<lparr>cs_tx_ctx := ?tc\<lparr>tc_reversion_groups :=
        map_last (\<lambda>rg. rg\<lparr>rg_op_refs := rg_op_refs rg @ [(length (tx_steps (cs_tx st)), r)]\<rparr>)
          (tc_reversion_groups (cs_tx_ctx st))\<rparr>\<rparr>) :: step_state res) = Inr (step', st')" by auto
  show thesis
    by (rule that [OF sdb i ne c(1)]) (use c(2) in \<open>auto split: if_splits\<close>)
qed

lemma pushes_frame:
  "pushes x ss ss' \<Longrightarrow> cs_tx (snd ss') = cs_tx (snd ss) \<and> cs_tx_ctx (snd ss') = cs_tx_ctx (snd ss)"
  unfolding pushes_def
proof (induction rule: rtranclp_induct)
  case (step t u)
  then show ?case using push_op_frame [of x _ _ "fst t" "snd t" "fst u" "snd u"] by auto
qed simp

section \<open>The invariant\<close>

definition group_size :: "ReversionGroup list \<Rightarrow> nat" where
  "group_size gs = (case gs of [] \<Rightarrow> 0 | g # _ \<Rightarrow> length (rg_op_refs g))"

text \<open>Call contexts and groups with the innermost first; \<open>n\<close> is the number of writes of the group so far.\<close>

fun aligned :: "bool list \<Rightarrow> Call list \<Rightarrow> CallContext list \<Rightarrow> ReversionGroup list \<Rightarrow> nat \<Rightarrow> bool" where
  "aligned succ cls [] gs n \<longleftrightarrow> gs = []"
| "aligned succ cls (c # cs) [] n \<longleftrightarrow>
     succ ! cx_index c \<and> cx_index c < length cls \<and> is_persistent (cls ! cx_index c) \<and> aligned succ cls cs [] 0"
| "aligned succ cls (c # cs) (g # gs) n \<longleftrightarrow>
     cx_index c < length cls \<and> \<not> is_persistent (cls ! cx_index c) \<and>
     map_of (rg_calls g) (cx_index c) = Some (n - cx_reversible_write_counter c) \<and> cx_reversible_write_counter c \<le> n \<and>
     (if succ ! cx_index c then aligned succ cls cs (g # gs) (n - cx_reversible_write_counter c)
      else n = cx_reversible_write_counter c \<and> aligned succ cls cs gs (group_size gs))"

definition group_ok :: "Call list \<Rightarrow> ReversionGroup \<Rightarrow> bool" where
  "group_ok cls g \<longleftrightarrow> distinct (map fst (rg_calls g)) \<and>
     list_all (\<lambda>(i, off). i < length cls \<and> off \<le> length (rg_op_refs g)) (rg_calls g)"

definition stack_ok :: "CircuitInputState \<Rightarrow> bool" where
  "stack_ok st \<longleftrightarrow>
     (let tc = cs_tx_ctx st; cls = tx_calls (cs_tx st); gs = rev (tc_reversion_groups tc)
      in aligned (tc_call_is_success tc) cls (rev (tc_calls tc)) gs (group_size gs) \<and>
         list_all (group_ok cls) gs \<and>
         length cls \<le> length (tc_call_is_success tc) \<and>
         map is_success cls = take (length cls) (tc_call_is_success tc))"

text \<open>A call as \<open>parse_call\<close> makes it: successful as the trace says, and persistent if its caller is too.\<close>

definition call_fits :: "CircuitInputState \<Rightarrow> Call \<Rightarrow> bool" where
  "call_fits st call =
     (case (nth_opt (tc_call_is_success (cs_tx_ctx st)) (length (tx_calls (cs_tx st))), cur_call st) of
        (Some success, Inr caller) \<Rightarrow> is_success call = success \<and> is_persistent call = (is_persistent caller \<and> success)
      | _ \<Rightarrow> False)"

section \<open>The invariant is kept\<close>

lemma stack_ok_frame:
  "cs_tx st' = cs_tx st \<Longrightarrow> cs_tx_ctx st' = cs_tx_ctx st \<Longrightarrow> stack_ok st' = stack_ok st"
  by (simp add: stack_ok_def)

lemma aligned_calls_append:
  "aligned succ cls cs gs n \<Longrightarrow> aligned succ (cls @ [c]) cs gs n"
  by (induction succ cls cs gs n rule: aligned.induct) (auto simp: nth_append)

lemma aligned_ctx_update:
  assumes "cx_index c' = cx_index c" and "cx_reversible_write_counter c' = cx_reversible_write_counter c"
  shows "aligned succ cls (cs @ c' # ds) gs n = aligned succ cls (cs @ c # ds) gs n"
proof (induction succ cls cs gs n rule: aligned.induct)
  case (1 succ cls gs n)
  then show ?case using assms by (cases gs) simp_all
qed simp_all

lemma map_last_rev: "rev (map_last f xs) = (case rev xs of [] \<Rightarrow> [] | y # ys \<Rightarrow> f y # ys)"
  by (cases xs rule: rev_cases) simp_all

text \<open>A reversible write by the innermost call.\<close>

lemma aligned_write:
  assumes "aligned succ cls (c # cs) (g # gs) (length (rg_op_refs g))"
  shows "aligned succ cls (c\<lparr>cx_reversible_write_counter := cx_reversible_write_counter c + 1\<rparr> # cs)
    (g\<lparr>rg_op_refs := rg_op_refs g @ [r]\<rparr> # gs) (length (rg_op_refs g) + 1)"
proof -
  have g: "aligned succ cls cs (g\<lparr>rg_op_refs := rs\<rparr> # gs) n = aligned succ cls cs (g # gs) n" for rs n
    by (induction succ cls cs "g # gs" n rule: aligned.induct) auto
  from assms show ?thesis by (auto simp: g)
qed

lemma group_size_Cons [simp]: "group_size (g # gs) = length (rg_op_refs g)"
  by (simp add: group_size_def)

lemma group_size_Nil [simp]: "group_size [] = 0"
  by (simp add: group_size_def)

text \<open>The part of the state the invariant reads.\<close>

definition stack_key ::
  "CircuitInputState \<Rightarrow> (usize \<times> usize) list \<times> (bool \<times> bool) list \<times> ReversionGroup list \<times> bool list" where
  "stack_key st =
     (map (\<lambda>c. (cx_index c, cx_reversible_write_counter c)) (tc_calls (cs_tx_ctx st)),
      map (\<lambda>c. (is_persistent c, is_success c)) (tx_calls (cs_tx st)),
      tc_reversion_groups (cs_tx_ctx st), tc_call_is_success (cs_tx_ctx st))"

lemma aligned_cong:
  assumes "map (\<lambda>c. (cx_index c, cx_reversible_write_counter c)) cs' = map (\<lambda>c. (cx_index c, cx_reversible_write_counter c)) cs"
    and "map is_persistent cls' = map is_persistent cls"
  shows "aligned succ cls' cs' gs n = aligned succ cls cs gs n"
  using assms
proof (induction succ cls cs gs n arbitrary: cs' rule: aligned.induct)
  case (2 succ cls c cs n)
  have l: "length cls' = length cls" using 2(3) by (rule map_eq_imp_length_eq)
  then have "is_persistent (cls' ! i) = is_persistent (cls ! i)" if "i < length cls" for i
    using 2(3) that by (metis nth_map)
  with 2 l show ?case by (cases cs') auto
next
  case (3 succ cls c cs g gs n)
  have l: "length cls' = length cls" using 3(4) by (rule map_eq_imp_length_eq)
  then have p: "is_persistent (cls' ! i) = is_persistent (cls ! i)" if "i < length cls" for i
    using 3(4) that by (metis nth_map)
  obtain c' ds where c': "cs' = c' # ds" "cx_index c' = cx_index c"
    "cx_reversible_write_counter c' = cx_reversible_write_counter c"
    "map (\<lambda>c. (cx_index c, cx_reversible_write_counter c)) ds = map (\<lambda>c. (cx_index c, cx_reversible_write_counter c)) cs"
    using 3(3) by (cases cs') auto
  show ?case
    using 3(1) [OF _ c'(4) 3(4)] 3(2) [OF _ c'(4) 3(4)] l p by (auto simp: c'(1-3))
qed auto

lemma stack_ok_cong:
  assumes "stack_key st' = stack_key st"
  shows "stack_ok st' = stack_ok st"
proof -
  have k: "map (\<lambda>c. (cx_index c, cx_reversible_write_counter c)) (rev (tc_calls (cs_tx_ctx st'))) =
      map (\<lambda>c. (cx_index c, cx_reversible_write_counter c)) (rev (tc_calls (cs_tx_ctx st)))"
    and m: "map (\<lambda>c. (is_persistent c, is_success c)) (tx_calls (cs_tx st')) =
      map (\<lambda>c. (is_persistent c, is_success c)) (tx_calls (cs_tx st))"
    and g: "tc_reversion_groups (cs_tx_ctx st') = tc_reversion_groups (cs_tx_ctx st)"
      "tc_call_is_success (cs_tx_ctx st') = tc_call_is_success (cs_tx_ctx st)"
    using assms by (simp_all add: stack_key_def rev_map [symmetric])
  have p: "map is_persistent (tx_calls (cs_tx st')) = map is_persistent (tx_calls (cs_tx st))"
    and s: "map is_success (tx_calls (cs_tx st')) = map is_success (tx_calls (cs_tx st))"
    using arg_cong [OF m, of "map fst"] arg_cong [OF m, of "map snd"] by (simp_all add: comp_def)
  have l: "length (tx_calls (cs_tx st')) = length (tx_calls (cs_tx st))" using m by (rule map_eq_imp_length_eq)
  have "group_ok (tx_calls (cs_tx st')) = group_ok (tx_calls (cs_tx st))"
    by (auto simp: fun_eq_iff group_ok_def l)
  then show ?thesis
    unfolding stack_ok_def Let_def g aligned_cong [OF k p] s l by simp
qed

text \<open>The innermost call of an aligned stack.\<close>

lemma stack_ok_cur_call:
  assumes "stack_ok st" and "tc_calls (cs_tx_ctx st) = cs @ [c]"
  shows "cx_index c < length (tx_calls (cs_tx st))" and "cur_call st = Inr (tx_calls (cs_tx st) ! cx_index c)"
    and "is_success (tx_calls (cs_tx st) ! cx_index c) = tc_call_is_success (cs_tx_ctx st) ! cx_index c"
    and "is_persistent (tx_calls (cs_tx st) ! cx_index c) \<longleftrightarrow> tc_reversion_groups (cs_tx_ctx st) = []"
proof -
  let ?cls = "tx_calls (cs_tx st)" and ?tc = "cs_tx_ctx st"
  have a: "aligned (tc_call_is_success ?tc) ?cls (c # rev cs) (rev (tc_reversion_groups ?tc)) (group_size (rev (tc_reversion_groups ?tc)))"
    using assms by (simp add: stack_ok_def Let_def)
  then show i: "cx_index c < length ?cls"
    and "is_persistent (?cls ! cx_index c) \<longleftrightarrow> tc_reversion_groups ?tc = []"
    by (cases "rev (tc_reversion_groups ?tc)"; simp)+
  then show "cur_call st = Inr (?cls ! cx_index c)"
    by (simp add: cur_call_def call_index_def call_ctx_def nth_call_def assms(2) nth_opt_def)
  have "map is_success ?cls = take (length ?cls) (tc_call_is_success ?tc)"
    using assms(1) by (simp add: stack_ok_def Let_def)
  then show "is_success (?cls ! cx_index c) = tc_call_is_success ?tc ! cx_index c"
    using i by (metis nth_map nth_take)
qed

lemma push_op_reversible_stack_ok:
  assumes "stack_ok st" and "push_op_reversible x op (step, st) = Inr (step', st')"
  shows "stack_ok st'"
  using assms(2)
proof (rule push_op_reversibleE)
  fix sdb r st1 call
  assume i: "insert_next WRITE True op (st\<lparr>cs_sdb := sdb\<rparr>) = (r, st1)"
    and ne: "tc_calls (cs_tx_ctx st) \<noteq> []" and call: "cur_call st = Inr call"
    and st': "st' = st1\<lparr>cs_tx_ctx := (cs_tx_ctx st)\<lparr>
        tc_calls := map_last (\<lambda>cx. cx\<lparr>cx_reversible_write_counter := cx_reversible_write_counter cx + 1\<rparr>) (tc_calls (cs_tx_ctx st)),
        tc_reversion_groups := (if is_persistent call then tc_reversion_groups (cs_tx_ctx st)
          else map_last (\<lambda>rg. rg\<lparr>rg_op_refs := rg_op_refs rg @ [(length (tx_steps (cs_tx st)), r)]\<rparr>)
                 (tc_reversion_groups (cs_tx_ctx st)))\<rparr>\<rparr>"
  have f: "cs_tx st1 = cs_tx st" using insert_next_spec(6) [OF i] by simp
  obtain cs c where c: "tc_calls (cs_tx_ctx st) = cs @ [c]" using ne by (cases "tc_calls (cs_tx_ctx st)" rule: rev_cases) auto
  note cur = stack_ok_cur_call [OF assms(1) c]
  have p: "is_persistent call \<longleftrightarrow> tc_reversion_groups (cs_tx_ctx st) = []" using cur(2,4) call by simp
  have a: "aligned (tc_call_is_success (cs_tx_ctx st)) (tx_calls (cs_tx st)) (c # rev cs)
      (rev (tc_reversion_groups (cs_tx_ctx st))) (group_size (rev (tc_reversion_groups (cs_tx_ctx st))))"
    using assms(1) by (simp add: stack_ok_def Let_def c)
  show "stack_ok st'"
  proof (cases "tc_reversion_groups (cs_tx_ctx st)" rule: rev_cases)
    case Nil
    then show ?thesis using assms(1) a p by (simp add: stack_ok_def Let_def st' f c)
  next
    case (snoc gs g)
    from a have "aligned (tc_call_is_success (cs_tx_ctx st)) (tx_calls (cs_tx st)) (c # rev cs) (g # rev gs) (length (rg_op_refs g))"
      by (simp add: snoc)
    from aligned_write [OF this, of "(length (tx_steps (cs_tx st)), r)"] show ?thesis
      using assms(1) p by (auto simp: stack_ok_def Let_def st' f c snoc group_ok_def list_all_iff)
  qed
qed

lemma aligned_group_calls:
  assumes "aligned succ cls cs (g # gs) n"
  shows "aligned succ cls cs (g\<lparr>rg_calls := rg_calls g @ xs\<rparr> # gs) n"
  using assms by (induction succ cls cs "g # gs" n rule: aligned.induct) (auto simp: map_add_def split: option.splits)

lemma find_eq_map_of: "find (\<lambda>(j, _). j = i) xs = map_option (Pair i) (map_of xs i)"
  by (induction xs) auto

text \<open>The groups after a call is entered.\<close>

lemma aligned_enter:
  assumes "aligned succ cls (c # cs) gs (group_size gs)" and "list_all (group_ok cls) gs"
    and "succ ! length cls = is_success call" and "is_persistent call = (gs = [] \<and> is_success call)"
    and "cx_index c' = length cls" "cx_reversible_write_counter c' = 0"
  shows "\<not> is_success call \<Longrightarrow>
      aligned succ (cls @ [call]) (c' # c # cs) (\<lparr>rg_calls = [(length cls, 0)], rg_op_refs = []\<rparr> # gs) 0"
    and "is_success call \<Longrightarrow> gs = [] \<Longrightarrow> aligned succ (cls @ [call]) (c' # c # cs) [] 0"
    and "is_success call \<Longrightarrow> gs = g # gs' \<Longrightarrow> map_of (rg_calls g) (cx_index c) = Some off \<Longrightarrow>
      aligned succ (cls @ [call]) (c' # c # cs)
        (g\<lparr>rg_calls := rg_calls g @ [(length cls, cx_reversible_write_counter c + off)]\<rparr> # gs') (length (rg_op_refs g)) \<and>
      cx_reversible_write_counter c + off = length (rg_op_refs g)"
proof -
  note a = aligned_calls_append [OF assms(1), of call]
  show "aligned succ (cls @ [call]) (c' # c # cs) (\<lparr>rg_calls = [(length cls, 0)], rg_op_refs = []\<rparr> # gs) 0" if "\<not> is_success call"
    using assms(3-6) a that by simp
  show "aligned succ (cls @ [call]) (c' # c # cs) [] 0" if "is_success call" "gs = []"
    using assms(3-6) a that by simp
  assume p: "is_success call" "gs = g # gs'" "map_of (rg_calls g) (cx_index c) = Some off"
  have n: "cx_reversible_write_counter c + off = length (rg_op_refs g)" using assms(1) p by simp
  have "map_of (rg_calls g) (length cls) = None"
    using assms(2) p(2) by (auto simp: group_ok_def list_all_iff map_of_eq_None_iff)
  then show "aligned succ (cls @ [call]) (c' # c # cs)
        (g\<lparr>rg_calls := rg_calls g @ [(length cls, cx_reversible_write_counter c + off)]\<rparr> # gs') (length (rg_op_refs g)) \<and>
      cx_reversible_write_counter c + off = length (rg_op_refs g)"
    using aligned_group_calls [of succ "cls @ [call]" "c # cs" g gs' "length (rg_op_refs g)" "[(length cls, length (rg_op_refs g))]"]
      a assms(3-6) p n by (simp add: map_add_def)
qed

lemma group_ok_append: "group_ok cls g \<Longrightarrow> group_ok (cls @ [c]) g"
  by (auto simp: group_ok_def list_all_iff)

lemma push_call_ctxE:
  assumes "push_call_ctx i d tc = Inr tc'"
  obtains success cx where "nth_opt (tc_call_is_success tc) i = Some success"
    and "cx_index cx = i" "cx_reversible_write_counter cx = 0"
    and "tc_calls tc' = tc_calls tc @ [cx]" "tc_call_is_success tc' = tc_call_is_success tc"
    and "\<not> success \<Longrightarrow> tc_reversion_groups tc' = tc_reversion_groups tc @ [\<lparr>rg_calls = [(i, 0)], rg_op_refs = []\<rparr>]"
    and "success \<Longrightarrow> tc_reversion_groups tc = [] \<Longrightarrow> tc_reversion_groups tc' = []"
    and "\<And>gs g. success \<Longrightarrow> tc_reversion_groups tc = gs @ [g] \<Longrightarrow> \<exists>off. tc_calls tc \<noteq> [] \<and>
      map_of (rg_calls g) (cx_index (last (tc_calls tc))) = Some off \<and>
      tc_reversion_groups tc' =
        gs @ [g\<lparr>rg_calls := rg_calls g @ [(i, cx_reversible_write_counter (last (tc_calls tc)) + off)]\<rparr>]"
proof -
  from assms obtain success where s: "nth_opt (tc_call_is_success tc) i = Some success"
    by (auto simp: push_call_ctx_def ok_or_def split: option.splits)
  show thesis
    by (rule that [OF s, of "last (tc_calls tc')"])
      (use assms s in \<open>auto simp: push_call_ctx_def Let_def find_eq_map_of split: if_splits option.splits\<close>)
qed

lemma push_call_stack_ok:
  assumes "stack_ok st" and "call_fits st call" and "push_call call st = Inr st'"
  shows "stack_ok st'"
proof -
  let ?cls = "tx_calls (cs_tx st)" and ?tc = "cs_tx_ctx st"
  from assms(3) obtain d tc' where tc': "push_call_ctx (length ?cls) d ?tc = Inr tc'"
    and tx': "cs_tx st' = (cs_tx st)\<lparr>tx_calls := ?cls @ [call]\<rparr>" "cs_tx_ctx st' = tc'"
    by (auto simp: push_call_def Let_def)
  from assms(2) obtain caller where call: "nth_opt (tc_call_is_success ?tc) (length ?cls) = Some (is_success call)"
    "cur_call st = Inr caller" "is_persistent call = (is_persistent caller \<and> is_success call)"
    by (auto simp: call_fits_def split: option.splits sum.splits)
  have "tc_calls ?tc \<noteq> []" using call(2) by (auto simp: cur_call_def call_index_def call_ctx_def)
  then obtain cs c where c: "tc_calls ?tc = cs @ [c]" by (cases "tc_calls ?tc" rule: rev_cases) auto
  note cur = stack_ok_cur_call [OF assms(1) c]
  let ?gs = "rev (tc_reversion_groups ?tc)"
  have ok: "aligned (tc_call_is_success ?tc) ?cls (c # rev cs) ?gs (group_size ?gs)" "list_all (group_ok ?cls) ?gs"
    "map is_success ?cls = take (length ?cls) (tc_call_is_success ?tc)"
    using assms(1) by (simp_all add: stack_ok_def Let_def c)
  have s: "length ?cls < length (tc_call_is_success ?tc)" "tc_call_is_success ?tc ! length ?cls = is_success call"
    using call(1) by (auto simp: nth_opt_def split: if_splits)
  have p: "is_persistent call = (?gs = [] \<and> is_success call)" using cur call by auto
  have groups: "list_all (group_ok (?cls @ [call])) ?gs" using ok(2) by (auto simp: list_all_iff intro: group_ok_append)
  from tc' show ?thesis
  proof (rule push_call_ctxE)
    fix success cx
    assume e: "nth_opt (tc_call_is_success ?tc) (length ?cls) = Some success"
      "cx_index cx = length ?cls" "cx_reversible_write_counter cx = 0"
      "tc_calls tc' = tc_calls ?tc @ [cx]" "tc_call_is_success tc' = tc_call_is_success ?tc"
      and fail: "\<not> success \<Longrightarrow> tc_reversion_groups tc' = tc_reversion_groups ?tc @ [\<lparr>rg_calls = [(length ?cls, 0)], rg_op_refs = []\<rparr>]"
      and persistent: "success \<Longrightarrow> tc_reversion_groups ?tc = [] \<Longrightarrow> tc_reversion_groups tc' = []"
      and inner: "\<And>gs g. success \<Longrightarrow> tc_reversion_groups ?tc = gs @ [g] \<Longrightarrow> \<exists>off. tc_calls ?tc \<noteq> [] \<and>
        map_of (rg_calls g) (cx_index (last (tc_calls ?tc))) = Some off \<and>
        tc_reversion_groups tc' =
          gs @ [g\<lparr>rg_calls := rg_calls g @ [(length ?cls, cx_reversible_write_counter (last (tc_calls ?tc)) + off)]\<rparr>]"
    note enter = aligned_enter [OF ok(1,2) s(2) p e(2,3)]
    have "map is_success (?cls @ [call]) = take (Suc (length ?cls)) (tc_call_is_success ?tc)"
      using ok(3) s by (simp add: take_Suc_conv_app_nth)
    then have stack: "stack_ok st' \<longleftrightarrow> aligned (tc_call_is_success ?tc) (?cls @ [call]) (cx # c # rev cs)
        (rev (tc_reversion_groups tc')) (group_size (rev (tc_reversion_groups tc'))) \<and>
      list_all (group_ok (?cls @ [call])) (rev (tc_reversion_groups tc'))"
      using s(1) by (simp add: stack_ok_def Let_def tx' e c)
    show "stack_ok st'"
    proof (cases "is_success call")
      case False
      then show ?thesis using enter(1) groups fail e(1) call(1)
        by (simp add: stack group_ok_def del: aligned.simps)
    next
      case True
      show ?thesis
      proof (cases "tc_reversion_groups ?tc" rule: rev_cases)
        case Nil
        then show ?thesis using enter(2) True persistent e(1) call(1) by (simp add: stack del: aligned.simps)
      next
        case (snoc gs g)
        with inner True e(1) call(1) obtain off where off: "map_of (rg_calls g) (cx_index c) = Some off"
          "tc_reversion_groups tc' = gs @ [g\<lparr>rg_calls := rg_calls g @ [(length ?cls, cx_reversible_write_counter c + off)]\<rparr>]"
          by (auto simp: c)
        have "rev (tc_reversion_groups ?tc) = g # rev gs" by (simp add: snoc)
        note a = enter(3) [OF True this off(1)]
        have "group_ok (?cls @ [call]) (g\<lparr>rg_calls := rg_calls g @ [(length ?cls, cx_reversible_write_counter c + off)]\<rparr>)"
          using groups ok(2) a by (auto simp: snoc group_ok_def list_all_iff)
        then show ?thesis using conjunct1 [OF a] groups by (simp add: stack off(2) snoc del: aligned.simps)
      qed
    qed
  qed
qed

lemma parse_call_fits:
  assumes "parse_call x step st = Inr (call, st')"
  shows "call_fits st' call" and "cs_tx st' = cs_tx st" and "cs_tx_ctx st' = cs_tx_ctx st"
    and "rw_counter_end_of_reversion call = 0"
  using assms unfolding parse_call_def
  by (auto simp: call_fits_def cur_call_def nth_call_def ok_or_def split: option.splits prod.split_asm)

text \<open>What the parts of a return do to the stack.\<close>

lemma map_list_update_same:
  "(i < length xs \<Longrightarrow> f v = f (xs ! i)) \<Longrightarrow> map f (xs[i := v]) = map f xs"
  by (metis list_update_beyond list_update_id map_update not_less)

lemma caller_ctx_mut_key:
  assumes "caller_ctx_mut f st = Inr st'"
    and "\<And>c. cx_index (f c) = cx_index c" "\<And>c. cx_reversible_write_counter (f c) = cx_reversible_write_counter c"
  shows "stack_key st' = stack_key st"
  using assms by (auto simp: caller_ctx_mut_def stack_key_def Let_def map_list_update_same split: if_splits)

lemma caller_mut_key:
  assumes "caller_mut f st = Inr st'" and "\<And>c. is_persistent (f c) = is_persistent c" "\<And>c. is_success (f c) = is_success c"
  shows "stack_key st' = stack_key st"
  using assms by (auto simp: caller_mut_def stack_key_def nth_call_def ok_or_def nth_opt_def map_list_update_same split: if_splits)

lemma return_to_caller_key:
  "return_to_caller call created off len st = Inr st' \<Longrightarrow> stack_key st' = stack_key st"
  by (auto simp: return_to_caller_def split: if_splits dest!: caller_mut_key caller_ctx_mut_key)

lemma return_data_of_key:
  assumes "return_data_of step st = Inr (off, len, st')"
  shows "stack_key st' = stack_key st"
  using assms by (auto simp: return_data_of_def caller_ctx_mut_key split: if_splits)

lemma store_created_code_key:
  assumes "store_created_code x step call st = Inr st'"
  shows "stack_key st' = stack_key st"
  using assms by (auto simp: store_created_code_def stack_key_def Let_def split_beta split: if_splits)

lemma apply_reversion_key:
  assumes "apply_reversion x ir st = Inr st'"
  shows "stack_key st' = stack_key st"
  using assms
  by (auto simp: apply_reversion_def stack_key_def insert_next_def Let_def split_beta split: option.splits if_splits)

lemma set_end_of_reversion_key:
  assumes "set_end_of_reversion n c st = Inr st'"
  shows "stack_key st' = stack_key st"
  using assms by (auto simp: set_end_of_reversion_def stack_key_def map_list_update_same split: prod.split_asm if_splits)

lemma handle_reversion_key:
  assumes "handle_reversion x st = Inr st'"
  shows "stack_key st' = stack_key (st\<lparr>cs_tx_ctx := (cs_tx_ctx st)\<lparr>tc_reversion_groups := butlast (tc_reversion_groups (cs_tx_ctx st))\<rparr>\<rparr>)"
proof -
  let ?st = "st\<lparr>cs_tx_ctx := (cs_tx_ctx st)\<lparr>tc_reversion_groups := butlast (tc_reversion_groups (cs_tx_ctx st))\<rparr>\<rparr>"
  from assms obtain refs calls n st1 where
    1: "foldE (apply_reversion x) refs ?st = Inr st1" and 2: "foldE (set_end_of_reversion n) calls st1 = Inr st'"
    by (auto simp: handle_reversion_def Let_def split: if_splits)
  have "stack_key st1 = stack_key ?st" by (rule foldE_keeps [OF 1 apply_reversion_key])
  moreover have "stack_key st' = stack_key st1" by (rule foldE_keeps [OF 2 set_end_of_reversion_key])
  ultimately show ?thesis by simp
qed

lemma aligned_return:
  assumes "aligned succ cls (c # cs) gs (group_size gs)" and "succ ! cx_index c"
  shows "aligned succ cls (case cs of [] \<Rightarrow> [] | d # ds \<Rightarrow>
      d\<lparr>cx_reversible_write_counter := cx_reversible_write_counter d + cx_reversible_write_counter c\<rparr> # ds) gs (group_size gs)"
  using assms by (cases gs; cases cs) (auto simp: add.commute)

lemma aligned_fail:
  assumes "aligned succ cls (c # cs) gs (group_size gs)" and "\<not> succ ! cx_index c"
  shows "gs \<noteq> []" "aligned succ cls cs (tl gs) (group_size (tl gs))" 
  using assms by (cases gs; simp)+

lemma pop_call_ctx_return:
  assumes "stack_ok st" and "tc_calls (cs_tx_ctx st) = cs @ [c]" and "is_success (tx_calls (cs_tx st) ! cx_index c)"
    and "pop_call_ctx (cs_tx_ctx st) = Inr tc'"
  shows "stack_ok (st\<lparr>cs_tx_ctx := tc'\<rparr>)"
proof -
  have s: "tc_call_is_success (cs_tx_ctx st) ! cx_index c" using stack_ok_cur_call(3) [OF assms(1,2)] assms(3) by simp
  let ?up = "\<lambda>d. d\<lparr>cx_reversible_write_counter := cx_reversible_write_counter d + cx_reversible_write_counter c\<rparr>"
  have "tc' = (cs_tx_ctx st)\<lparr>tc_calls := map_last ?up cs\<rparr>"
    using assms(2,4) s by (auto simp: pop_call_ctx_def ok_or_def nth_opt_def Let_def split: if_splits)
  moreover have "aligned (tc_call_is_success (cs_tx_ctx st)) (tx_calls (cs_tx st)) (c # rev cs)
      (rev (tc_reversion_groups (cs_tx_ctx st))) (group_size (rev (tc_reversion_groups (cs_tx_ctx st))))"
    using assms(1,2) by (simp add: stack_ok_def Let_def)
  note aligned_return [OF this s]
  ultimately show ?thesis using assms(1) by (simp add: stack_ok_def Let_def map_last_rev)
qed

lemma pop_call_ctx_fail:
  assumes "stack_ok st" and "tc_calls (cs_tx_ctx st) = cs @ [c]" and "\<not> is_success (tx_calls (cs_tx st) ! cx_index c)"
    and "stack_key st1 = stack_key (st\<lparr>cs_tx_ctx := (cs_tx_ctx st)\<lparr>tc_reversion_groups := butlast (tc_reversion_groups (cs_tx_ctx st))\<rparr>\<rparr>)"
    and "pop_call_ctx (cs_tx_ctx st1) = Inr tc'"
  shows "stack_ok (st1\<lparr>cs_tx_ctx := tc'\<rparr>)"
proof -
  let ?tc = "cs_tx_ctx st"
  have s: "\<not> tc_call_is_success ?tc ! cx_index c" using stack_ok_cur_call(3) [OF assms(1,2)] assms(3) by simp
  have "aligned (tc_call_is_success ?tc) (tx_calls (cs_tx st)) (c # rev cs)
      (rev (tc_reversion_groups ?tc)) (group_size (rev (tc_reversion_groups ?tc)))"
    using assms(1,2) by (simp add: stack_ok_def Let_def)
  note a = aligned_fail [OF this s]
  let ?st = "st\<lparr>cs_tx_ctx := ?tc\<lparr>tc_reversion_groups := butlast (tc_reversion_groups ?tc), tc_calls := cs\<rparr>\<rparr>"
  have "stack_ok ?st"
    using assms(1) a by (cases "tc_reversion_groups ?tc" rule: rev_cases) (simp_all add: stack_ok_def Let_def)
  moreover have "stack_key (st1\<lparr>cs_tx_ctx := tc'\<rparr>) = stack_key ?st"
  proof -
    obtain cs1 c1 where c1: "tc_calls (cs_tx_ctx st1) = cs1 @ [c1]" "cx_index c1 = cx_index c"
      "map (\<lambda>c. (cx_index c, cx_reversible_write_counter c)) cs1 = map (\<lambda>c. (cx_index c, cx_reversible_write_counter c)) cs"
      using assms(2,4) by (cases "tc_calls (cs_tx_ctx st1)" rule: rev_cases) (auto simp: stack_key_def)
    have "tc_call_is_success (cs_tx_ctx st1) = tc_call_is_success ?tc" using assms(4) by (simp add: stack_key_def)
    then have "tc' = (cs_tx_ctx st1)\<lparr>tc_calls := cs1\<rparr>"
      using assms(5) s by (auto simp: pop_call_ctx_def ok_or_def nth_opt_def Let_def c1 split: if_splits)
    then show ?thesis using assms(4) by (simp add: stack_key_def c1(3))
  qed
  ultimately show ?thesis using stack_ok_cong by blast
qed

lemma cur_call_success:
  assumes "stack_key st' = stack_key st" and "cur_call st = Inr call" and "cur_call st' = Inr call'"
  shows "is_success call = is_success call'"
proof -
  let ?i = "cx_index (last (tc_calls (cs_tx_ctx st)))"
  have "map (\<lambda>c. (is_persistent c, is_success c)) (tx_calls (cs_tx st')) = map (\<lambda>c. (is_persistent c, is_success c)) (tx_calls (cs_tx st))"
    and k: "map (\<lambda>c. (cx_index c, cx_reversible_write_counter c)) (tc_calls (cs_tx_ctx st')) =
      map (\<lambda>c. (cx_index c, cx_reversible_write_counter c)) (tc_calls (cs_tx_ctx st))"
    using assms(1) by (simp_all add: stack_key_def)
  from arg_cong [OF this(1), of "\<lambda>m. snd (m ! ?i)"] map_eq_imp_length_eq [OF this(1)]
  have s: "is_success (tx_calls (cs_tx st') ! ?i) = is_success (tx_calls (cs_tx st) ! ?i)" if "?i < length (tx_calls (cs_tx st))"
    using that by simp
  have ne: "tc_calls (cs_tx_ctx st) \<noteq> []" using assms(2) by (auto simp: cur_call_def call_index_def call_ctx_def)
  moreover from ne k have ne': "tc_calls (cs_tx_ctx st') \<noteq> []" by auto
  ultimately have "cx_index (last (tc_calls (cs_tx_ctx st'))) = ?i"
    using arg_cong [OF k, of "\<lambda>m. fst (last m)"] by (simp add: last_map)
  then show ?thesis
    using assms(2,3) ne ne' s
    by (auto simp: cur_call_def call_index_def call_ctx_def nth_call_def ok_or_def nth_opt_def split: if_splits)
qed

lemma pop_call_ctx_key:
  assumes "stack_key st' = stack_key st" and "pop_call_ctx (cs_tx_ctx st') = Inr tc'"
  shows "\<exists>tc. pop_call_ctx (cs_tx_ctx st) = Inr tc \<and> stack_key (st'\<lparr>cs_tx_ctx := tc'\<rparr>) = stack_key (st\<lparr>cs_tx_ctx := tc\<rparr>)"
proof -
  let ?f = "\<lambda>c. (cx_index c, cx_reversible_write_counter c)"
  have k: "map ?f (tc_calls (cs_tx_ctx st')) = map ?f (tc_calls (cs_tx_ctx st))"
    "tc_call_is_success (cs_tx_ctx st') = tc_call_is_success (cs_tx_ctx st)"
    using assms(1) by (simp_all add: stack_key_def)
  from assms(2) obtain cs' c' where c': "tc_calls (cs_tx_ctx st') = cs' @ [c']"
    by (cases "tc_calls (cs_tx_ctx st')" rule: rev_cases) (auto simp: pop_call_ctx_def)
  with k obtain cs c where c: "tc_calls (cs_tx_ctx st) = cs @ [c]" "?f c' = ?f c" "map ?f cs' = map ?f cs"
    by (cases "tc_calls (cs_tx_ctx st)" rule: rev_cases) auto
  have "map ?f (map_last (\<lambda>d. d\<lparr>cx_reversible_write_counter := cx_reversible_write_counter d + n\<rparr>) cs') =
      map ?f (map_last (\<lambda>d. d\<lparr>cx_reversible_write_counter := cx_reversible_write_counter d + n\<rparr>) cs)" for n
    using c(3) by (cases cs' rule: rev_cases; cases cs rule: rev_cases) auto
  note up = this
  from assms(2) c(2) k(2) obtain b where b: "nth_opt (tc_call_is_success (cs_tx_ctx st)) (cx_index c) = Some b"
    by (auto simp: pop_call_ctx_def c' Let_def ok_or_def split: option.splits)
  let ?cs = "\<lambda>cs. if b then map_last (\<lambda>d. d\<lparr>cx_reversible_write_counter := cx_reversible_write_counter d + cx_reversible_write_counter c\<rparr>) cs else cs"
  have "pop_call_ctx (cs_tx_ctx st) = Inr ((cs_tx_ctx st)\<lparr>tc_calls := ?cs cs\<rparr>)"
    by (simp add: pop_call_ctx_def c(1) Let_def ok_or_def b)
  moreover have "tc' = (cs_tx_ctx st')\<lparr>tc_calls := ?cs cs'\<rparr>"
    using assms(2) c(2) k(2) by (auto simp: pop_call_ctx_def c' Let_def ok_or_def b)
  then have "stack_key (st'\<lparr>cs_tx_ctx := tc'\<rparr>) = stack_key (st\<lparr>cs_tx_ctx := (cs_tx_ctx st)\<lparr>tc_calls := ?cs cs\<rparr>\<rparr>)"
    using assms(1) up c(3) by (simp add: stack_key_def)
  ultimately show ?thesis by blast
qed

lemma handle_returnE:
  assumes "handle_return x steps need_restore (step, st) = Inr (step', st')"
  obtains step1 st1 geth rd_o rd_l st2 call st3 st4 st5 tc' where
    "(if need_restore then handle_restore_context x steps (step, st) else Inr (step, st)) = Inr (step1, st1)"
    and "return_data_of geth st1 = Inr (rd_o, rd_l, st2)" and "cur_call st2 = Inr call"
    and "(if is_create call \<and> is_success call \<and> gs_op geth = Sys RETURN then store_created_code x geth call st2 else Inr st2) = Inr st3"
    and "(if \<not> is_success call then handle_reversion x st3 else Inr st3) = Inr st4"
    and "return_to_caller call (is_create call \<and> is_success call \<and> gs_op geth = Sys RETURN) rd_o rd_l st4 = Inr st5"
    and "pop_call_ctx (cs_tx_ctx st5) = Inr tc'" and "step' = step1" and "st' = st5\<lparr>cs_tx_ctx := tc'\<rparr>"
  using assms unfolding handle_return_def Let_def
  apply (elim bindE_eq_InrE)
  apply (simp only: split: prod.split_asm)
  apply (elim bindE_eq_InrE)
  apply (simp only: split: prod.split_asm)
  apply (elim bindE_eq_InrE)
  apply (simp only: sum.inject prod.inject)
  done

lemma handle_return_stack_ok:
  assumes "stack_ok st" and "handle_return x steps need_restore (step, st) = Inr (step', st')"
  shows "stack_ok st'"
  using assms(2)
proof (rule handle_returnE)
  fix step1 st1 geth rd_o rd_l st2 call st3 st4 st5 tc'
  assume 1: "(if need_restore then handle_restore_context x steps (step, st) else Inr (step, st)) = Inr (step1, st1)"
    and 2: "return_data_of geth st1 = Inr (rd_o, rd_l, st2)" and call: "cur_call st2 = Inr call"
    and 3: "(if is_create call \<and> is_success call \<and> gs_op geth = Sys RETURN then store_created_code x geth call st2 else Inr st2) = Inr st3"
    and 4: "(if \<not> is_success call then handle_reversion x st3 else Inr st3) = Inr st4"
    and 5: "return_to_caller call (is_create call \<and> is_success call \<and> gs_op geth = Sys RETURN) rd_o rd_l st4 = Inr st5"
    and 6: "pop_call_ctx (cs_tx_ctx st5) = Inr tc'" and st': "st' = st5\<lparr>cs_tx_ctx := tc'\<rparr>"
  have k1: "stack_key st1 = stack_key st"
    using 1 pushes_frame [OF handle_restore_context_pushes, of x steps "(step, st)" "(step1, st1)"]
    by (auto simp: stack_key_def split: if_splits)
  have k3: "stack_key st3 = stack_key st2" using 3 by (auto split: if_splits dest: store_created_code_key)
  have k5: "stack_key st5 = stack_key st4"
    by (rule return_to_caller_key [OF 5])
  have ok3: "stack_ok st3"
    using assms(1) k1 k3 return_data_of_key [OF 2] by (metis stack_ok_cong)
  obtain cs c where c: "tc_calls (cs_tx_ctx st3) = cs @ [c]"
    using call k3 by (cases "tc_calls (cs_tx_ctx st3)" rule: rev_cases)
      (auto simp: stack_key_def cur_call_def call_index_def call_ctx_def)
  have s: "is_success call = is_success (tx_calls (cs_tx st3) ! cx_index c)"
    using cur_call_success [OF k3 call] stack_ok_cur_call(2) [OF ok3 c] by simp
  show ?thesis
  proof (cases "is_success call")
    case True
    have "stack_key st5 = stack_key st3" using 4 k5 True by simp
    from pop_call_ctx_key [OF this 6] obtain tc3 where "pop_call_ctx (cs_tx_ctx st3) = Inr tc3"
      "stack_key st' = stack_key (st3\<lparr>cs_tx_ctx := tc3\<rparr>)" using st' by auto
    then show ?thesis using pop_call_ctx_return [OF ok3 c] True s stack_ok_cong by blast
  next
    case False
    then have "stack_key st5 = stack_key (st3\<lparr>cs_tx_ctx := (cs_tx_ctx st3)\<lparr>tc_reversion_groups := butlast (tc_reversion_groups (cs_tx_ctx st3))\<rparr>\<rparr>)"
      using 4 k5 handle_reversion_key by simp
    then show ?thesis using pop_call_ctx_fail [OF ok3 c _ _ 6] False s st' by simp
  qed
qed

end
