(* ===== verification/Builder.thy ===== *)
theory Builder
  imports Call_State
begin

text \<open>
  The circuit input builder, \<^verbatim>\<open>bus-mapping/src/circuit_input_builder.rs\<close>: a block is handled transaction by
  transaction, then the values of the \<open>RwCounterEndOfReversion\<close> operations are filled in, the circuit parameters are
  computed, and the end of the block is padded.

  The handlers of the opcodes and of the beginning and end of a transaction (\<open>gen_associated_ops\<close> and
  \<open>gen_associated_steps\<close>) are the arguments collected in \<open>Handlers\<close>.
\<close>

section \<open>Parameters and state\<close>

record FixedCParams =
  fp_max_rws :: usize
  fp_max_txs :: usize
  fp_max_calldata :: usize
  fp_max_copy_rows :: usize
  fp_max_exp_steps :: usize
  fp_max_bytecode :: usize
  fp_max_evm_rows :: usize
  fp_max_keccak_rows :: usize

definition fixed_cparams_default :: FixedCParams where
  "fixed_cparams_default = \<lparr>fp_max_rws = 1000, fp_max_txs = 1, fp_max_calldata = 256, fp_max_copy_rows = 1000,
     fp_max_exp_steps = 1000 div 7, fp_max_bytecode = 512, fp_max_evm_rows = 0, fp_max_keccak_rows = 0\<rparr>"

record 'c CircuitInputBuilder =
  ib_sdb :: StateDB
  ib_code_db :: CodeDB
  ib_block :: Block
  ib_circuits_params :: 'c
  ib_block_ctx :: BlockContext

definition builder_new :: "StateDB \<Rightarrow> CodeDB \<Rightarrow> Block \<Rightarrow> 'c \<Rightarrow> 'c CircuitInputBuilder" where
  "builder_new sdb code_db block params =
     \<lparr>ib_sdb = sdb, ib_code_db = code_db, ib_block = block, ib_circuits_params = params, ib_block_ctx = block_context_new\<rparr>"

text \<open>\<open>state_ref\<close> lends the parts of the builder; \<open>end_ref\<close> is the builder when the loan is over.\<close>

definition state_ref :: "Transaction \<Rightarrow> TransactionContext \<Rightarrow> 'c CircuitInputBuilder \<Rightarrow> CircuitInputState" where
  "state_ref tx tx_ctx b =
     \<lparr>cs_sdb = ib_sdb b, cs_code_db = ib_code_db b, cs_block = ib_block b, cs_block_ctx = ib_block_ctx b,
      cs_tx = tx, cs_tx_ctx = tx_ctx\<rparr>"

definition end_ref :: "CircuitInputState \<Rightarrow> 'c CircuitInputBuilder \<Rightarrow> 'c CircuitInputBuilder" where
  "end_ref st b = b\<lparr>ib_sdb := cs_sdb st, ib_code_db := cs_code_db st, ib_block := cs_block st, ib_block_ctx := cs_block_ctx st\<rparr>"

record Handlers =
  hd_begin_tx :: "CircuitInputState \<Rightarrow> (ExecStep \<times> CircuitInputState) res"
  hd_ops :: "OpcodeId \<Rightarrow> GethExecStep list \<Rightarrow> CircuitInputState \<Rightarrow> (ExecStep list \<times> CircuitInputState) res"
  hd_end_tx :: "CircuitInputState \<Rightarrow> (ExecStep \<times> CircuitInputState) res"

section \<open>Transactions\<close>

definition new_tx ::
  "Externals \<Rightarrow> u64 \<Rightarrow> EthTransaction \<Rightarrow> bool \<Rightarrow> 'c CircuitInputBuilder \<Rightarrow> (Transaction \<times> 'c CircuitInputBuilder) res" where
  "new_tx x new_id eth_tx success b =
     (let cid = bx_rwc (ib_block_ctx b)
      in bindE (ok_or (et_transaction_index eth_tx) (Err (EthTypeError IncompleteBlock))) (\<lambda>index.
         let b = b\<lparr>ib_block_ctx := (ib_block_ctx b)\<lparr>bx_call_map := (bx_call_map (ib_block_ctx b))(cid \<mapsto> (unat index, 0))\<rparr>\<rparr>
         in bindE (transaction_new (x_keccak256 x) (x_get_contract_address x) new_id cid (ib_sdb b) eth_tx success (ib_code_db b)) (\<lambda>(tx, code_db).
              Inr (tx, b\<lparr>ib_code_db := code_db\<rparr>))))"

definition add_steps :: "ExecStep list \<Rightarrow> CircuitInputState \<Rightarrow> CircuitInputState" where
  "add_steps steps st = st\<lparr>cs_tx := (cs_tx st)\<lparr>tx_steps := tx_steps (cs_tx st) @ steps\<rparr>\<rparr>"

definition handle_tx ::
  "Externals \<Rightarrow> Handlers \<Rightarrow> EthTransaction \<Rightarrow> GethExecTrace \<Rightarrow> bool \<Rightarrow> u64 \<Rightarrow> 'c CircuitInputBuilder \<Rightarrow> 'c CircuitInputBuilder res" where
  "handle_tx x h eth_tx geth_trace is_last_tx tx_index b =
     bindE (new_tx x tx_index eth_tx (\<not> gt_failed geth_trace) b) (\<lambda>(tx, b).
     bindE (tx_ctx_new eth_tx geth_trace is_last_tx) (\<lambda>tx_ctx.
     bindE (hd_begin_tx h (state_ref tx tx_ctx b)) (\<lambda>(begin_tx_step, st).
     let st = add_steps [begin_tx_step] st; logs = gt_struct_logs geth_trace
     in bindE (foldE (\<lambda>(index, geth_step) st.
                  bindE (hd_ops h (gs_op geth_step) (drop index logs) st) (\<lambda>(exec_steps, st).
                    Inr (add_steps exec_steps st)))
                (enumerate 0 logs) st) (\<lambda>st.
        bindE (hd_end_tx h st) (\<lambda>(end_tx_step, st).
        let st = add_steps [end_tx_step] st; b = end_ref st b
        in Inr (b\<lparr>ib_sdb := commit_tx (x_keccak256 x) (ib_sdb b),
                  ib_block := (ib_block b)\<lparr>bk_txs := bk_txs (ib_block b) @ [cs_tx st]\<rparr>\<rparr>))))))"

section \<open>The end of the block\<close>

definition set_rwc_eor :: "BlockContext \<Rightarrow> Transaction list \<Rightarrow> CallContextOp Operation \<Rightarrow> CallContextOp Operation res" where
  "set_rwc_eor ctx txs oper =
     (if cco_field (op_op oper) = CC_RwCounterEndOfReversion then
        case bx_call_map ctx (cco_call_id (op_op oper)) of
          None \<Rightarrow> Inl (Panic ''call_id not found in call_map'')
        | Some (tx_idx, call_idx) \<Rightarrow>
            bindE (ok_or (nth_opt txs tx_idx) (Panic ''index out of bounds'')) (\<lambda>tx.
            bindE (ok_or (nth_opt (tx_calls tx) call_idx) (Panic ''index out of bounds'')) (\<lambda>call.
              Inr (oper\<lparr>op_op := (op_op oper)\<lparr>cco_value := of_nat (rw_counter_end_of_reversion call)\<rparr>\<rparr>)))
      else Inr oper)"

definition set_value_ops_call_context_rwc_eor :: "'c CircuitInputBuilder \<Rightarrow> 'c CircuitInputBuilder res" where
  "set_value_ops_call_context_rwc_eor b =
     (let block = ib_block b; container = bk_container block
      in bindE (mapE (set_rwc_eor (ib_block_ctx b) (bk_txs block)) (oc_call_context container)) (\<lambda>ops.
           Inr (b\<lparr>ib_block := block\<lparr>bk_container := container\<lparr>oc_call_context := ops\<rparr>\<rparr>\<rparr>)))"

definition begin_handle_block ::
  "Externals \<Rightarrow> Handlers \<Rightarrow> EthBlock \<Rightarrow> GethExecTrace list \<Rightarrow> 'c CircuitInputBuilder \<Rightarrow> 'c CircuitInputBuilder res" where
  "begin_handle_block x h eth_block geth_traces b =
     bindE (foldE (\<lambda>(idx, tx) b.
         bindE (ok_or (nth_opt geth_traces idx) (Panic ''index out of bounds'')) (\<lambda>geth_trace.
           handle_tx x h tx geth_trace (idx + 1 = length (eb_transactions eth_block)) (of_nat (idx + 1)) b))
       (enumerate 0 (eb_transactions eth_block)) b) (\<lambda>b.
     set_value_ops_call_context_rwc_eor (b\<lparr>ib_block := (ib_block b)\<lparr>bk_eth_block := eth_block\<rparr>\<rparr>))"

text \<open>The padding of the operations: a \<open>Start\<close> operation pushed under a counter of the padding.\<close>

definition push_start_op :: "RWCounter \<Rightarrow> step_state \<Rightarrow> step_state" where
  "push_start_op rwc = (\<lambda>(step, st).
     let (op_ref, container) = insert_op_enum rwc READ False (OpStart ()) (cs_container st)
     in (note_ref op_ref step, st\<lparr>cs_block := (cs_block st)\<lparr>bk_container := container\<rparr>\<rparr>))"

definition set_end_block :: "Externals \<Rightarrow> usize \<Rightarrow> 'c CircuitInputBuilder \<Rightarrow> 'c CircuitInputBuilder res" where
  "set_end_block x max_rws b =
     (let steps = bk_block_steps (ib_block b);
          end_block_not_last = (bs_end_block_not_last steps)\<lparr>es_rwc := bx_rwc (ib_block_ctx b)\<rparr>;
          end_block_last = (bs_end_block_last steps)\<lparr>es_rwc := bx_rwc (ib_block_ctx b)\<rparr>;
          state = state_ref transaction_default tx_ctx_default b
      in bindE (if bk_txs (cs_block state) = [] then Inr (end_block_last, state)
                else
                  bindE (ok_or (nth_opt (tx_calls (last (bk_txs (cs_block state)))) 0) (Panic ''index out of bounds'')) (\<lambda>call.
                    call_context_read x (call_id call) CC_TxId (of_nat (length (bk_txs (cs_block state)))) (end_block_last, state))) (\<lambda>ss.
         bindE (usize_sub (cs_rwc (snd ss)) 1) (\<lambda>total_rws.
         if \<not> total_rws + 1 \<le> max_rws then Inl (Panic ''total_rws + 1 <= max_rws'')
         else
           let padding_start = 1; padding_end = max_rws - total_rws;
               ss = push_start_op padding_start ss;
               ss = (if padding_end \<noteq> padding_start then push_start_op padding_end ss else ss);
               b = end_ref (snd ss) b
           in Inr (b\<lparr>ib_block := (ib_block b)\<lparr>bk_block_steps :=
                \<lparr>bs_end_block_not_last = end_block_not_last, bs_end_block_last = fst ss\<rparr>\<rparr>\<rparr>))))"

definition handle_block_fixed ::
  "Externals \<Rightarrow> Handlers \<Rightarrow> EthBlock \<Rightarrow> GethExecTrace list \<Rightarrow> FixedCParams CircuitInputBuilder \<Rightarrow> FixedCParams CircuitInputBuilder res" where
  "handle_block_fixed x h eth_block geth_traces b =
     bindE (begin_handle_block x h eth_block geth_traces b) (\<lambda>b.
       set_end_block x (fp_max_rws (ib_circuits_params b)) b)"

text \<open>The parameters computed from the operations of the block; \<open>DynamicCParams\<close> has no fields.\<close>

definition compute_params :: "EthBlock \<Rightarrow> unit CircuitInputBuilder \<Rightarrow> FixedCParams res" where
  "compute_params eth_block b =
     bindE (usize_sub (bx_rwc (ib_block_ctx b)) 1) (\<lambda>total_rws_before_padding.
       Inr \<lparr>fp_max_rws = total_rws_before_padding + 1 + (if total_rws_before_padding > 0 then 1 else 0),
            fp_max_txs = length (eb_transactions eth_block),
            fp_max_calldata = fold (\<lambda>tx acc. acc + length (et_input tx)) (eb_transactions eth_block) 0,
            fp_max_copy_rows = fold (\<lambda>c acc. acc + length (ce_bytes c)) (bk_copy_events (ib_block b)) 0 * 2 + 4,
            fp_max_exp_steps = fold (\<lambda>e acc. acc + length (xe_steps e)) (bk_exp_events (ib_block b)) 0,
            fp_max_bytecode = num_rows_required_for_bytecode_table (ib_code_db b),
            fp_max_evm_rows = 0, fp_max_keccak_rows = 0\<rparr>)"

definition handle_block_dynamic ::
  "Externals \<Rightarrow> Handlers \<Rightarrow> EthBlock \<Rightarrow> GethExecTrace list \<Rightarrow> unit CircuitInputBuilder \<Rightarrow> FixedCParams CircuitInputBuilder res" where
  "handle_block_dynamic x h eth_block geth_traces b =
     bindE (begin_handle_block x h eth_block geth_traces b) (\<lambda>b.
     bindE (compute_params eth_block b) (\<lambda>c_params.
       set_end_block x (fp_max_rws c_params)
         \<lparr>ib_sdb = ib_sdb b, ib_code_db = ib_code_db b, ib_block = ib_block b, ib_circuits_params = c_params,
          ib_block_ctx = ib_block_ctx b\<rparr>))"

section \<open>The databases of a block\<close>

record EIP1186ProofResponse =
  pr_address :: Address
  pr_balance :: Word
  pr_code_hash :: Hash
  pr_nonce :: u64
  pr_storage_proof :: "(Word \<times> Word) list"

definition build_state_code_db :: "keccak \<Rightarrow> EIP1186ProofResponse list \<Rightarrow> (Address \<times> u8 list) list \<Rightarrow> StateDB \<times> CodeDB" where
  "build_state_code_db k proofs codes =
     (fold (\<lambda>proof sdb. set_account (pr_address proof)
         \<lparr>nonce = pr_nonce proof, balance = pr_balance proof,
          storage = fold (\<lambda>(key, v) st. st(key \<mapsto> v)) (pr_storage_proof proof) Map.empty,
          code_hash = pr_code_hash proof\<rparr> sdb) proofs sdb_new,
      fold (\<lambda>(_, code) db. snd (codedb_insert k code db)) codes [])"

end
