(* ===== verification/Builder_Step.thy ===== *)
theory Builder_Step
  imports Call_Stack Builder
begin

text \<open>
  The builder as a state machine. \<open>builder_step\<close> has one rule for each kind of change an opcode handler makes to the
  state: pushing an operation, pushing a reversible one, entering a call, returning from one, any change that
  leaves the logged operations, their counter and the call stack alone (memory, events, a new step, the database), and
  finishing a step.
  From the start of a transaction every reachable state has an aligned call stack and counters without gaps.
\<close>

section \<open>Steps of the builder\<close>

text \<open>
  The logged operations and their counter, the finished transactions, the number of finished steps, and what the calls
  and the reversion groups are built from.
\<close>

definition op_key ::
  "CircuitInputState \<Rightarrow> (OperationContainer \<times> RWCounter \<times> Transaction list \<times> nat) \<times>
     ((usize \<times> usize) list \<times> (bool \<times> bool) list \<times> ReversionGroup list \<times> bool list)" where
  "op_key st = ((cs_container st, cs_rwc st, bk_txs (cs_block st), length (tx_steps (cs_tx st))), stack_key st)"

inductive builder_step :: "Externals \<Rightarrow> step_state \<Rightarrow> step_state \<Rightarrow> bool" for x where
  push: "push_op x rw op ss = Inr ss' \<Longrightarrow> builder_step x ss ss'"
| push_reversible: "push_op_reversible x op ss = Inr ss' \<Longrightarrow> builder_step x ss ss'"
| enter: "call_fits st call \<Longrightarrow> push_call call st = Inr st' \<Longrightarrow> builder_step x (step, st) (step, st')"
| leave: "handle_return x geth_steps need_restore ss = Inr ss' \<Longrightarrow> builder_step x ss ss'"
| local: "op_key st' = op_key st \<Longrightarrow> builder_step x (step, st) (step', st')"
| finish: "builder_step x (step, st) (step', add_steps [step] st)"

inductive_cases builder_stepE: "builder_step x ss ss'"

text \<open>The state in which the handlers of a transaction start.\<close>

definition tx_start ::
  "Externals \<Rightarrow> EthTransaction \<Rightarrow> GethExecTrace \<Rightarrow> bool \<Rightarrow> u64 \<Rightarrow> 'c CircuitInputBuilder \<Rightarrow> CircuitInputState res" where
  "tx_start x eth_tx geth_trace is_last_tx tx_index b =
     bindE (new_tx x tx_index eth_tx (\<not> gt_failed geth_trace) b) (\<lambda>(tx, b).
     bindE (tx_ctx_new eth_tx geth_trace is_last_tx) (\<lambda>tx_ctx. Inr (state_ref tx tx_ctx b)))"

section \<open>The counters of the operations\<close>

definition counters_dense :: "CircuitInputState \<Rightarrow> bool" where
  "counters_dense st \<longleftrightarrow> 1 \<le> cs_rwc st \<and> mset (container_rwcs (cs_container st)) = mset [1..<cs_rwc st]"

text \<open>What only the insertion of operations changes.\<close>

definition log_key :: "CircuitInputState \<Rightarrow> Block \<times> RWCounter" where
  "log_key st = (cs_block st, cs_rwc st)"

definition world_key :: "CircuitInputState \<Rightarrow> StateDB \<times> Block \<times> RWCounter" where
  "world_key st = (cs_sdb st, cs_block st, cs_rwc st)"

lemma world_key_log_key: "world_key st' = world_key st \<Longrightarrow> log_key st' = log_key st"
  by (simp add: world_key_def log_key_def)

lemma counters_dense_cong: "log_key st' = log_key st \<Longrightarrow> counters_dense st' = counters_dense st"
  by (simp add: counters_dense_def log_key_def)

lemma insert_next_dense:
  assumes "insert_next rw reversible op st = (r, st')" and "counters_dense st"
  shows "counters_dense st'"
  using insert_next_spec(1,4) [OF assms(1)] assms(2) by (simp add: counters_dense_def)

lemma push_op_dense:
  assumes "push_op x rw op (step, st) = Inr (step', st')" and "counters_dense st"
  shows "counters_dense st'"
  using assms(1)
proof (rule push_opE)
  fix sdb r assume "insert_next rw False op (st\<lparr>cs_sdb := sdb\<rparr>) = (r, st')"
  then show ?thesis by (rule insert_next_dense) (use assms(2) in \<open>simp add: counters_dense_def\<close>)
qed

lemma push_op_reversible_dense:
  assumes "push_op_reversible x op (step, st) = Inr (step', st')" and "counters_dense st"
  shows "counters_dense st'"
  using assms(1)
proof (rule push_op_reversibleE)
  fix sdb r st1 tc
  assume "insert_next WRITE True op (st\<lparr>cs_sdb := sdb\<rparr>) = (r, st1)"
  then have "counters_dense st1" by (rule insert_next_dense) (use assms(2) in \<open>simp add: counters_dense_def\<close>)
  moreover assume "st' = st1\<lparr>cs_tx_ctx := tc\<rparr>"
  ultimately show ?thesis by (simp add: counters_dense_def)
qed

lemma pushes_dense: "pushes x ss ss' \<Longrightarrow> counters_dense (snd ss) \<Longrightarrow> counters_dense (snd ss')"
  unfolding pushes_def
proof (induction rule: rtranclp_induct)
  case (step t u)
  then show ?case using push_op_dense [of x _ _ "fst t" "snd t" "fst u" "snd u"] by auto
qed

lemma return_parts_world_key:
  "caller_mut f st = Inr st' \<Longrightarrow> world_key st' = world_key st"
  "caller_ctx_mut g st = Inr st' \<Longrightarrow> world_key st' = world_key st"
  "set_end_of_reversion n c st = Inr st' \<Longrightarrow> world_key st' = world_key st"
  by (auto simp: world_key_def caller_mut_def caller_ctx_mut_def set_end_of_reversion_def Let_def
      split: if_splits prod.split_asm)

lemma return_data_of_world_key: "return_data_of geth st = Inr (off, len, st') \<Longrightarrow> world_key st' = world_key st"
  by (auto simp: return_data_of_def split: if_splits dest!: return_parts_world_key(2))

lemma return_to_caller_world_key:
  "return_to_caller call created off len st = Inr st' \<Longrightarrow> world_key st' = world_key st"
  by (auto simp: return_to_caller_def split: if_splits dest!: return_parts_world_key(1,2))

lemmas return_data_of_log_key = return_data_of_world_key [THEN world_key_log_key]
  and return_to_caller_log_key = return_to_caller_world_key [THEN world_key_log_key]
  and set_end_of_reversion_log_key = return_parts_world_key(3) [THEN world_key_log_key]

lemma store_created_code_log_key: "store_created_code x step call st = Inr st' \<Longrightarrow> log_key st' = log_key st"
  by (auto simp: store_created_code_def log_key_def Let_def split_beta split: if_splits)

lemma apply_reversion_dense:
  assumes "apply_reversion x ir st = Inr st'" and "counters_dense st"
  shows "counters_dense st'"
proof -
  obtain i r where ir: "ir = (i, r)" by (cases ir)
  from assms(1) consider "st' = st" | op sdb tx where
    "st' = snd (insert_next WRITE False op (st\<lparr>cs_sdb := sdb\<rparr>))\<lparr>cs_tx := tx\<rparr>"
    by (auto simp: apply_reversion_def ir split_beta Let_def split: option.splits if_splits)
  then show ?thesis
  proof cases
    case (2 op sdb)
    have "counters_dense (snd (insert_next WRITE False op (st\<lparr>cs_sdb := sdb\<rparr>)))"
      by (rule insert_next_dense [OF prod.collapse [symmetric]]) (use assms(2) in \<open>simp add: counters_dense_def\<close>)
    then show ?thesis by (simp add: 2 counters_dense_def)
  qed (use assms in simp)
qed

lemma handle_reversion_dense:
  assumes "handle_reversion x st = Inr st'" and "counters_dense st"
  shows "counters_dense st'"
proof -
  let ?st = "st\<lparr>cs_tx_ctx := (cs_tx_ctx st)\<lparr>tc_reversion_groups := butlast (tc_reversion_groups (cs_tx_ctx st))\<rparr>\<rparr>"
  from assms(1) obtain refs calls n st1 where
    1: "foldE (apply_reversion x) refs ?st = Inr st1" and 2: "foldE (set_end_of_reversion n) calls st1 = Inr st'"
    by (auto simp: handle_reversion_def Let_def split: if_splits)
  have "counters_dense st1"
    by (rule foldE_invariant [OF 1]) (use assms(2) apply_reversion_dense in \<open>auto simp: counters_dense_def\<close>)
  moreover have "log_key st' = log_key st1" by (rule foldE_keeps [OF 2 set_end_of_reversion_log_key])
  ultimately show ?thesis using counters_dense_cong by blast
qed

lemma handle_return_dense:
  assumes "handle_return x steps need_restore (step, st) = Inr (step', st')" and "counters_dense st"
  shows "counters_dense st'"
  using assms(1)
proof (rule handle_returnE)
  fix step1 st1 geth rd_o rd_l st2 call created st3 st4 st5 tc'
  assume 1: "(if need_restore then handle_restore_context x steps (step, st) else Inr (step, st)) = Inr (step1, st1)"
    and 2: "return_data_of geth st1 = Inr (rd_o, rd_l, st2)"
    and 3: "(if created then store_created_code x geth call st2 else Inr st2) = Inr st3"
    and 4: "(if \<not> is_success call then handle_reversion x st3 else Inr st3) = Inr st4"
    and 5: "return_to_caller call created rd_o rd_l st4 = Inr st5"
    and st': "st' = st5\<lparr>cs_tx_ctx := tc'\<rparr>"
  have "counters_dense st1"
    using 1 assms(2) pushes_dense [OF handle_restore_context_pushes, of x steps "(step, st)" "(step1, st1)"]
    by (auto split: if_splits)
  then have "counters_dense st2" using counters_dense_cong [OF return_data_of_log_key [OF 2]] by simp
  then have "counters_dense st3"
    using 3 by (auto split: if_splits dest!: store_created_code_log_key [THEN counters_dense_cong])
  then have "counters_dense st4" using 4 handle_reversion_dense by (auto split: if_splits)
  then have "counters_dense st5" using counters_dense_cong [OF return_to_caller_log_key [OF 5]] by simp
  then show ?thesis by (simp add: st' counters_dense_def)
qed

section \<open>Reachable states\<close>

lemma push_call_world_key: "push_call call st = Inr st' \<Longrightarrow> world_key st' = world_key st"
  by (auto simp: push_call_def world_key_def Let_def)

lemma parse_call_world_key: "parse_call x geth st = Inr (call, st') \<Longrightarrow> world_key st' = world_key st"
  unfolding parse_call_def by (auto simp: world_key_def split: prod.splits)

lemma builder_step_invariant:
  assumes "builder_step x ss ss'" and "stack_ok (snd ss)" "counters_dense (snd ss)"
  shows "stack_ok (snd ss') \<and> counters_dense (snd ss')"
  using assms
proof (induction rule: builder_step.induct)
  case (push rw op ss ss')
  then show ?case
    using push_op_dense [of x rw op "fst ss" "snd ss" "fst ss'" "snd ss'"]
      push_op_frame [of x rw op "fst ss" "snd ss" "fst ss'" "snd ss'"] stack_ok_frame [of "snd ss'" "snd ss"] by simp
next
  case (push_reversible op ss ss')
  then show ?case
    using push_op_reversible_dense [of x op "fst ss" "snd ss" "fst ss'" "snd ss'"]
      push_op_reversible_stack_ok [of "snd ss" x op "fst ss" "fst ss'" "snd ss'"] by simp
next
  case (enter st call st' step)
  have "stack_ok st'" using enter push_call_stack_ok by simp
  moreover have "log_key st' = log_key st"
    using world_key_log_key [OF push_call_world_key [OF enter(2)]] by simp
  ultimately show ?case using enter(4) counters_dense_cong [of st' st] by simp
next
  case (leave geth_steps need_restore ss ss')
  then show ?case
    using handle_return_dense [of x geth_steps need_restore "fst ss" "snd ss" "fst ss'" "snd ss'"]
      handle_return_stack_ok [of "snd ss" x geth_steps need_restore "fst ss" "fst ss'" "snd ss'"] by simp
next
  case (local st' st step step')
  then show ?case using stack_ok_cong [of st' st] by (simp add: op_key_def counters_dense_def)
next
  case (finish step st step')
  then show ?case by (simp add: add_steps_def stack_ok_def counters_dense_def)
qed

lemma builder_steps_invariant:
  assumes "(builder_step x)\<^sup>*\<^sup>* ss ss'" and "stack_ok (snd ss)" "counters_dense (snd ss)"
  shows "stack_ok (snd ss') \<and> counters_dense (snd ss')"
  using assms by (induction rule: rtranclp_induct) (auto dest: builder_step_invariant)

text \<open>The last group and the innermost call.\<close>

lemma stack_ok_group:
  assumes "stack_ok st" and "tc_calls (cs_tx_ctx st) = cs @ [c]"
  shows "\<forall>gs g. tc_reversion_groups (cs_tx_ctx st) = gs @ [g] \<longrightarrow>
    (\<exists>off. map_of (rg_calls g) (cx_index c) = Some off \<and> off + cx_reversible_write_counter c = length (rg_op_refs g)) \<and>
    distinct (map fst (rg_calls g)) \<and>
    (\<forall>(i, off) \<in> set (rg_calls g). i < length (tx_calls (cs_tx st)) \<and> off \<le> length (rg_op_refs g))"
  using assms by (auto simp: stack_ok_def Let_def group_ok_def list_all_iff)

lemma transaction_new_calls:
  assumes "transaction_new k f new_id cid sdb eth_tx success code_db = Inr (tx, code_db')"
  shows "\<exists>call. tx_calls tx = [call] \<and> is_success call = success \<and> is_persistent call = success" and "tx_steps tx = []"
  using assms by (auto simp: transaction_new_def Let_def split: if_splits option.splits prod.splits)

lemma tx_startE:
  assumes "tx_start x eth_tx geth_trace is_last_tx tx_index b = Inr st"
  obtains tx_ctx call where "tx_ctx_new eth_tx geth_trace is_last_tx = Inr tx_ctx" and "cs_tx_ctx st = tx_ctx"
    and "tx_calls (cs_tx st) = [call]" "is_success call = (\<not> gt_failed geth_trace)" "is_persistent call = (\<not> gt_failed geth_trace)"
    and "tx_steps (cs_tx st) = []" "cs_sdb st = ib_sdb b" "cs_block st = ib_block b" "cs_rwc st = bx_rwc (ib_block_ctx b)"
proof -
  from assms obtain tx b' tx_ctx where n: "new_tx x tx_index eth_tx (\<not> gt_failed geth_trace) b = Inr (tx, b')"
    and c: "tx_ctx_new eth_tx geth_trace is_last_tx = Inr tx_ctx" and st: "st = state_ref tx tx_ctx b'"
    by (auto simp: tx_start_def)
  from n obtain cid sdb code_db code_db' where
    t: "transaction_new (x_keccak256 x) (x_get_contract_address x) tx_index cid sdb eth_tx (\<not> gt_failed geth_trace) code_db = Inr (tx, code_db')"
    and b': "ib_sdb b' = ib_sdb b" "ib_block b' = ib_block b" "bx_rwc (ib_block_ctx b') = bx_rwc (ib_block_ctx b)"
    by (auto simp: new_tx_def Let_def)
  show thesis
    using transaction_new_calls [OF t] c b' by (auto simp: st state_ref_def intro: that)
qed

lemma tx_start_stack_ok:
  assumes "tx_start x eth_tx geth_trace is_last_tx tx_index b = Inr st"
  shows "stack_ok st"
  using assms
proof (rule tx_startE)
  fix tx_ctx call
  assume ctx: "tx_ctx_new eth_tx geth_trace is_last_tx = Inr tx_ctx" "cs_tx_ctx st = tx_ctx"
    and call: "tx_calls (cs_tx st) = [call]" "is_success call = (\<not> gt_failed geth_trace)" "is_persistent call = (\<not> gt_failed geth_trace)"
  from ctx(1) obtain succ n where "push_call_ctx 0 (et_input eth_tx)
      \<lparr>tc_id = n, tc_log_id = 0, tc_is_last_tx = is_last_tx, tc_calls = [],
       tc_call_is_success = (\<not> gt_failed geth_trace) # succ, tc_reversion_groups = []\<rparr> = Inr tx_ctx"
    by (auto simp: tx_ctx_new_def collect_call_is_success_def)
  then show "stack_ok st"
    using call by (auto simp: stack_ok_def Let_def ctx(2) push_call_ctx_def nth_opt_def ok_or_def group_ok_def split: if_splits)
qed

section \<open>Properties of the builder\<close>

text \<open>
  C3: from the start of a transaction, any sequence of steps of the builder keeps the invariants: the operations
  logged in the block carry exactly the counters from 1 to the next one, each once; and the call stack and the
  reversion groups stay aligned. In particular, the current call is persistent if and only if there is no reversion
  group; otherwise its offset in the last group plus its own reversible writes are the operations of the group, and
  the calls of the group are known calls, each listed once, with an offset within the group.
\<close>

theorem builder_invariant:
  assumes "tx_start x eth_tx geth_trace is_last_tx tx_index b = Inr st0"
    and "1 \<le> bx_rwc (ib_block_ctx b)"
    and "mset (container_rwcs (bk_container (ib_block b))) = mset [1..<bx_rwc (ib_block_ctx b)]"
    and "(builder_step x)\<^sup>*\<^sup>* (step0, st0) (step, st)"
  shows "mset (container_rwcs (cs_container st)) = mset [1..<cs_rwc st] \<and> stack_ok st \<and>
    (\<forall>cs c call. tc_calls (cs_tx_ctx st) = cs @ [c] \<and> cur_call st = Inr call \<longrightarrow>
       (is_persistent call \<longleftrightarrow> tc_reversion_groups (cs_tx_ctx st) = []) \<and>
       (\<forall>gs g. tc_reversion_groups (cs_tx_ctx st) = gs @ [g] \<longrightarrow>
          (\<exists>off. map_of (rg_calls g) (cx_index c) = Some off \<and>
             off + cx_reversible_write_counter c = length (rg_op_refs g)) \<and>
          distinct (map fst (rg_calls g)) \<and>
          (\<forall>(i, off) \<in> set (rg_calls g). i < length (tx_calls (cs_tx st)) \<and> off \<le> length (rg_op_refs g))))"
proof -
  have "counters_dense st0"
    using assms(1)
  proof (rule tx_startE)
    assume "cs_block st0 = ib_block b" "cs_rwc st0 = bx_rwc (ib_block_ctx b)"
    then show ?thesis using assms(2,3) by (simp add: counters_dense_def)
  qed
  with builder_steps_invariant [OF assms(4)] tx_start_stack_ok [OF assms(1)]
  have inv: "stack_ok st" "counters_dense st" by simp_all
  have "(is_persistent call \<longleftrightarrow> tc_reversion_groups (cs_tx_ctx st) = []) \<and>
       (\<forall>gs g. tc_reversion_groups (cs_tx_ctx st) = gs @ [g] \<longrightarrow>
          (\<exists>off. map_of (rg_calls g) (cx_index c) = Some off \<and>
             off + cx_reversible_write_counter c = length (rg_op_refs g)) \<and>
          distinct (map fst (rg_calls g)) \<and>
          (\<forall>(i, off) \<in> set (rg_calls g). i < length (tx_calls (cs_tx st)) \<and> off \<le> length (rg_op_refs g)))"
    if "tc_calls (cs_tx_ctx st) = cs @ [c]" "cur_call st = Inr call" for cs c call
    by (intro conjI stack_ok_group [OF inv(1) that(1)]) (use stack_ok_cur_call(2,4) [OF inv(1) that(1)] that(2) in simp)
  moreover have "mset (container_rwcs (cs_container st)) = mset [1..<cs_rwc st]"
    using inv(2) by (simp only: counters_dense_def)
  ultimately show ?thesis using inv(1) by blast
qed

text \<open>A failing transaction that creates a contract, and writes the refund once.\<close>

definition ex_eth_tx :: EthTransaction where
  "ex_eth_tx = \<lparr>et_from = 9, et_to = None, et_nonce = 0, et_gas = 21000, et_value = 0, et_gas_price = None,
     et_max_priority_fee_per_gas = None, et_max_fee_per_gas = None, et_input = [], et_transaction_index = Some 0\<rparr>"

definition ex_trace :: GethExecTrace where
  "ex_trace = \<lparr>gt_gas = 0, gt_failed = True, gt_return_value = [], gt_struct_logs = []\<rparr>"

definition ex_builder :: "unit CircuitInputBuilder" where
  "ex_builder = builder_new (set_account 9 (account_zero (x_keccak256 ex_ext)) sdb_new) [] ex_block ()"

definition ex_geth_step :: GethExecStep where
  "ex_geth_step = \<lparr>gs_pc = 0, gs_op = Sys REVERT, gs_gas = 0, gs_gas_cost = 0, gs_refund = 0, gs_depth = 1,
     gs_error = None, gs_stack = [0, 0], gs_memory = [], gs_storage = Map.empty\<rparr>"

definition ex_call :: Call where
  "ex_call = call_default\<lparr>call_id := 1, kind := CK_Create, is_root := True, caller_address := 9, code_source := CS_Tx,
     cl_code_hash := 5, depth := 1\<rparr>"

definition ex_start :: CircuitInputState where
  "ex_start =
     \<lparr>cs_sdb = ib_sdb ex_builder, cs_code_db = [(5, [])], cs_block = ex_block,
      cs_block_ctx = block_context_new\<lparr>bx_call_map := [1 \<mapsto> (0, 0)]\<rparr>,
      cs_tx = \<lparr>tx_id = 1, tx_tx = geth_transaction_default\<lparr>gx_from := 9, gx_gas_limit := 21000\<rparr>, tx_calls = [ex_call], tx_steps = []\<rparr>,
      cs_tx_ctx = \<lparr>tc_id = 1, tc_log_id = 0, tc_is_last_tx = True,
        tc_calls = [\<lparr>cx_index = 0, cx_reversible_write_counter = 0, cx_call_data = [], cx_memory = [], cx_return_data = []\<rparr>],
        tc_call_is_success = [False], tc_reversion_groups = [\<lparr>rg_calls = [(0, 0)], rg_op_refs = []\<rparr>]\<rparr>\<rparr>"

lemma ex_start_eq: "tx_start ex_ext ex_eth_tx ex_trace True 1 ex_builder = Inr ex_start"
  by (simp add: tx_start_def new_tx_def transaction_new_def ex_eth_tx_def ex_trace_def ex_builder_def builder_new_def
      ex_ext_def ok_or_def Let_def codedb_insert_def code_hash_of_def geth_transaction_from_def u256_as_u64_def
      tx_ctx_new_def collect_call_is_success_def push_call_ctx_def nth_opt_def state_ref_def ex_start_def ex_call_def
      memory_new_def block_context_new_def rwc_new_def unwrap_or_default_def geth_transaction_default_def call_default_def)

definition ex_written :: CircuitInputState where
  "ex_written = ex_start\<lparr>cs_sdb := set_refund 7 (cs_sdb ex_start),
     cs_block := ex_block\<lparr>bk_container := container_new\<lparr>oc_tx_refund := [operation_new_reversible 1 WRITE ex_refund_op]\<rparr>\<rparr>,
     cs_block_ctx := (cs_block_ctx ex_start)\<lparr>bx_rwc := 2\<rparr>,
     cs_tx_ctx := (cs_tx_ctx ex_start)\<lparr>
       tc_calls := [\<lparr>cx_index = 0, cx_reversible_write_counter = 1, cx_call_data = [], cx_memory = [], cx_return_data = []\<rparr>],
       tc_reversion_groups := [\<lparr>rg_calls = [(0, 0)], rg_op_refs = [(0, (TTxRefund, 0))]\<rparr>]\<rparr>\<rparr>"

definition ex_step :: ExecStep where
  "ex_step = exec_step_default\<lparr>es_bus_mapping_instance := [(TTxRefund, 0)], es_reversible_write_counter_delta := 1\<rparr>"

lemma ex_written_eq: "push_op_reversible ex_ext (OpTxRefund ex_refund_op) (exec_step_default, ex_start) = Inr (ex_step, ex_written)"
  by (simp add: push_op_reversible_def check_apply_op_def ex_refund_op_def insert_next_def rwc_inc_pre_def ex_start_def
      block_context_new_def rwc_new_def insert_op_enum_def ex_block_def container_new_def call_ctx_mut_def cur_call_def
      call_index_def call_ctx_def nth_call_def nth_opt_def ok_or_def ex_call_def call_default_def note_ref_def map_last_def
      ex_written_def ex_step_def exec_step_default_def Let_def new_if_reversible_def)

theorem builder_invariant_witness:
  "mset (container_rwcs (cs_container ex_written)) = mset [1..<cs_rwc ex_written] \<and> stack_ok ex_written \<and>
   cs_rwc ex_written = 2"
proof -
  have "(builder_step ex_ext)\<^sup>*\<^sup>* (exec_step_default, ex_start) (ex_step, ex_written)"
    using builder_step.push_reversible [OF ex_written_eq] by blast
  from builder_invariant [OF ex_start_eq _ _ this] show ?thesis
    by (simp add: ex_builder_def builder_new_def block_context_new_def rwc_new_def ex_block_def container_new_def
        container_rwcs_def) (simp add: ex_written_def)
qed

end
