(* ===== verification/Op_Handlers.thy ===== *)
theory Op_Handlers
  imports Call_State
begin

text \<open>
  The handlers of the opcodes that read and write the stack, the call context, accounts, memory and storage,
  \<^verbatim>\<open>bus-mapping/src/evm/opcodes/\<close>: one definition for each \<open>gen_associated_ops\<close>.

  A handler takes the rest of the geth trace, its first step being the one handled, makes a new step, works on the
  pair of that step and the state, and returns the list of the steps it made, which always is that one step. The
  address of a stack slot panics only for a stack of more than 1024 words, so whether a word of the stack or its address
  is computed first cannot be observed. \<open>debug_assert!\<close> is the panic of a debug build. Logging is left out.
\<close>

section \<open>What the handlers share\<close>

type_synonym handler = "GethExecStep list \<Rightarrow> CircuitInputState \<Rightarrow> (ExecStep list \<times> CircuitInputState) res"
type_synonym handler_body = "GethExecStep list \<Rightarrow> GethExecStep \<Rightarrow> step_state \<Rightarrow> step_state res"

definition assert :: "bool \<Rightarrow> string \<Rightarrow> unit res" where
  "assert b m = ensure b (Panic m)"

definition step_at :: "GethExecStep list \<Rightarrow> usize \<Rightarrow> GethExecStep res" where
  "step_at steps i = ok_or (nth_opt steps i) (Panic ''index out of bounds'')"

definition unwrap :: "'a res \<Rightarrow> 'a res" where
  "unwrap m = (case m of Inr v \<Rightarrow> Inr v | Inl _ \<Rightarrow> Inl (Panic ''called Result::unwrap() on an Err value''))"

text \<open>The frame of a handler: \<open>let geth_step = &geth_steps[0]\<close>, \<open>state.new_step\<close>, the body, \<open>Ok(vec![exec_step])\<close>.\<close>

definition with_new_step :: "handler_body \<Rightarrow> handler" where
  "with_new_step body steps st =
     bindE (step_at steps 0) (\<lambda>geth_step.
     bindE (new_step st geth_step) (\<lambda>exec_step.
     bindE (body steps geth_step (exec_step, st)) (\<lambda>(exec_step, st). Inr ([exec_step], st))))"

definition stack_nth :: "GethExecStep \<Rightarrow> usize \<Rightarrow> Word res" where
  "stack_nth geth_step i = eth_err (nth_last (gs_stack geth_step) i)"

text \<open>The word pushed by the step: the top of the stack of the next one.\<close>

definition next_top :: "GethExecStep list \<Rightarrow> Word res" where
  "next_top steps = bindE (step_at steps 1) (\<lambda>s. eth_err (stack_last (gs_stack s)))"

text \<open>Read the stack slot \<open>i\<close> from the top; write the slot above the top; write slot \<open>i\<close>.\<close>

definition pop_read :: "Externals \<Rightarrow> GethExecStep \<Rightarrow> usize \<Rightarrow> step_state \<Rightarrow> (Word \<times> step_state) res" where
  "pop_read x geth_step i ss =
     bindE (stack_nth geth_step i) (\<lambda>v.
     bindE (nth_last_filled (gs_stack geth_step) i) (\<lambda>addr.
     bindE (stack_read x addr v ss) (\<lambda>ss. Inr (v, ss))))"

definition pop_reads :: "Externals \<Rightarrow> GethExecStep \<Rightarrow> usize \<Rightarrow> step_state \<Rightarrow> step_state res" where
  "pop_reads x geth_step n ss = foldE (\<lambda>i ss. bindE (pop_read x geth_step i ss) (\<lambda>(_, ss). Inr ss)) [0..<n] ss"

definition write_above :: "Externals \<Rightarrow> GethExecStep \<Rightarrow> Word \<Rightarrow> step_state \<Rightarrow> step_state res" where
  "write_above x geth_step v ss =
     bindE (last_filled (gs_stack geth_step)) (\<lambda>a.
     bindE (usize_sub a 1) (\<lambda>addr. stack_write x addr v ss))"

definition write_slot :: "Externals \<Rightarrow> GethExecStep \<Rightarrow> usize \<Rightarrow> Word \<Rightarrow> step_state \<Rightarrow> step_state res" where
  "write_slot x geth_step i v ss =
     bindE (nth_last_filled (gs_stack geth_step) i) (\<lambda>addr. stack_write x addr v ss)"

definition context_reads :: "Externals \<Rightarrow> usize \<Rightarrow> (CallContextField \<times> Word) list \<Rightarrow> step_state \<Rightarrow> step_state res" where
  "context_reads x cid fs ss = foldE (\<lambda>(field, v) ss. call_context_read x cid field v ss) fs ss"

definition context_writes :: "Externals \<Rightarrow> usize \<Rightarrow> (CallContextField \<times> Word) list \<Rightarrow> step_state \<Rightarrow> step_state res" where
  "context_writes x cid fs ss = foldE (\<lambda>(field, v) ss. call_context_write x cid field v ss) fs ss"

text \<open>\<open>state.call_ctx_mut()?.memory\<close>, updated.\<close>

definition memory_mut :: "(Memory \<Rightarrow> Memory res) \<Rightarrow> step_state \<Rightarrow> step_state res" where
  "memory_mut f = (\<lambda>(step, st).
     bindE (call_ctx (cs_tx_ctx st)) (\<lambda>cx.
     bindE (f (cx_memory cx)) (\<lambda>mem.
     bindE (call_ctx_mut (\<lambda>cx. cx\<lparr>cx_memory := mem\<rparr>) (cs_tx_ctx st)) (\<lambda>tx_ctx.
       Inr (step, st\<lparr>cs_tx_ctx := tx_ctx\<rparr>)))))"

text \<open>\<open>memory[start..start + bytes.len()].copy_from_slice(bytes)\<close>.\<close>

definition write_slice :: "usize \<Rightarrow> u8 list \<Rightarrow> Memory \<Rightarrow> Memory res" where
  "write_slice start bytes mem =
     (if length mem < start + length bytes then Inl (Panic ''range end index out of range for slice'')
      else Inr (take start mem @ bytes @ drop (start + length bytes) mem))"

definition memory_slice :: "Memory \<Rightarrow> usize \<Rightarrow> usize \<Rightarrow> u8 list res" where
  "memory_slice mem start len =
     (if length mem < start + len then Inl (Panic ''range end index out of range for slice'')
      else Inr (take len (drop start mem)))"

definition set_error :: "ExecError option \<Rightarrow> step_state \<Rightarrow> step_state" where
  "set_error e = (\<lambda>(step, st). (step\<lparr>es_error := e\<rparr>, st))"

text \<open>The transaction identifier and the reversion information of the current call, as most handlers read them.\<close>

definition tx_reversion_fields :: "CircuitInputState \<Rightarrow> Call \<Rightarrow> (CallContextField \<times> Word) list" where
  "tx_reversion_fields st call = (CC_TxId, of_nat (tc_id (cs_tx_ctx st))) # reversion_info_fields call"

text \<open>The code hash of an account as the circuit sees it: zero for an account that does not exist.\<close>

definition visible_code_hash :: "keccak \<Rightarrow> Account \<Rightarrow> Word" where
  "visible_code_hash k account = (if \<not> is_empty k account then code_hash account else 0)"

section \<open>Stack\<close>

definition step_err :: "Externals \<Rightarrow> GethExecStep list \<Rightarrow> GethExecStep \<Rightarrow> CircuitInputState \<Rightarrow> ExecError option res" where
  "step_err x steps geth_step st = get_step_err x geth_step (nth_opt steps 1) st"

definition stack_only :: "Externals \<Rightarrow> usize \<Rightarrow> usize \<Rightarrow> bool \<Rightarrow> handler" where
  "stack_only x n_pop n_push is_err = with_new_step (\<lambda>steps geth_step ss.
     bindE (pop_reads x geth_step n_pop ss) (\<lambda>ss.
     bindE (foldE (\<lambda>i ss.
         bindE (step_at steps 1) (\<lambda>next_step.
         bindE (stack_nth next_step (n_push - 1 - i)) (\<lambda>v. write_slot x next_step (n_push - 1 - i) v ss))) [0..<n_push] ss) (\<lambda>ss.
     if is_err then
       bindE (unwrap (step_err x steps geth_step (snd ss))) (\<lambda>e. handle_return x steps True (set_error e ss))
     else Inr ss)))"

definition gen_dup :: "Externals \<Rightarrow> usize \<Rightarrow> handler" where
  "gen_dup x n = with_new_step (\<lambda>steps geth_step ss.
     bindE (pop_read x geth_step (n - 1) ss) (\<lambda>(v, ss). write_above x geth_step v ss))"

definition gen_swap :: "Externals \<Rightarrow> usize \<Rightarrow> handler" where
  "gen_swap x n = with_new_step (\<lambda>steps geth_step ss.
     bindE (pop_read x geth_step n ss) (\<lambda>(b, ss).
     bindE (pop_read x geth_step 0 ss) (\<lambda>(a, ss).
     bindE (write_slot x geth_step n a ss) (write_slot x geth_step 0 b))))"

definition gen_dummy :: "Externals \<Rightarrow> handler" where
  "gen_dummy x = with_new_step (\<lambda>steps geth_step ss. Inr ss)"

section \<open>Call context\<close>

text \<open>
  The handlers that read a field of the call context and push the word the trace has pushed: \<open>ADDRESS\<close>, \<open>CALLER\<close>,
  \<open>CALLVALUE\<close>, \<open>CALLDATASIZE\<close>, \<open>RETURNDATASIZE\<close> read the field of that word, \<open>GASPRICE\<close> and \<open>ORIGIN\<close> the
  identifier of the transaction.
\<close>

definition push_context :: "Externals \<Rightarrow> (CircuitInputState \<Rightarrow> Word \<Rightarrow> CallContextField \<times> Word) \<Rightarrow> handler" where
  "push_context x f = with_new_step (\<lambda>steps geth_step ss.
     bindE (next_top steps) (\<lambda>v.
     bindE (cur_call (snd ss)) (\<lambda>call.
     bindE (context_reads x (call_id call) [f (snd ss) v] ss) (write_above x geth_step v))))"

definition gen_address :: "Externals \<Rightarrow> handler" where
  "gen_address x = push_context x (\<lambda>st v. (CC_CalleeAddress, v))"

definition gen_caller :: "Externals \<Rightarrow> handler" where
  "gen_caller x = push_context x (\<lambda>st v. (CC_CallerAddress, v))"

definition gen_callvalue :: "Externals \<Rightarrow> handler" where
  "gen_callvalue x = push_context x (\<lambda>st v. (CC_Value, v))"

definition gen_calldatasize :: "Externals \<Rightarrow> handler" where
  "gen_calldatasize x = push_context x (\<lambda>st v. (CC_CallDataLength, v))"

definition gen_returndatasize :: "Externals \<Rightarrow> handler" where
  "gen_returndatasize x = push_context x (\<lambda>st v. (CC_LastCalleeReturnDataLength, v))"

definition gen_gasprice :: "Externals \<Rightarrow> handler" where
  "gen_gasprice x = push_context x (\<lambda>st v. (CC_TxId, of_nat (tc_id (cs_tx_ctx st))))"

definition gen_origin :: "Externals \<Rightarrow> handler" where
  "gen_origin x = push_context x (\<lambda>st v. (CC_TxId, of_nat (tc_id (cs_tx_ctx st))))"

definition gen_codesize :: "Externals \<Rightarrow> handler" where
  "gen_codesize x = with_new_step (\<lambda>steps geth_step ss.
     bindE (cur_call (snd ss)) (\<lambda>call.
     bindE (st_code (snd ss) (cl_code_hash call)) (\<lambda>code.
     bindE (next_top steps) (\<lambda>v.
     bindE (u256_as_usize v) (\<lambda>n.
     bindE (assert (length code = n) ''assertion failed'') (\<lambda>_.
       write_above x geth_step (of_nat (length code)) ss))))))"

definition gen_calldataload :: "Externals \<Rightarrow> handler" where
  "gen_calldataload x = with_new_step (\<lambda>steps geth_step ss.
     bindE (pop_read x geth_step 0 ss) (\<lambda>(offset, ss).
     bindE (if \<not> unat offset < 2 ^ 64 then Inr (0, ss)
            else
              bindE (cur_call (snd ss)) (\<lambda>call.
              bindE (context_reads x (call_id call)
                       (if is_root call
                        then [(CC_TxId, of_nat (tc_id (cs_tx_ctx (snd ss)))), (CC_CallDataLength, ucast (call_data_length call))]
                        else [(CC_CallerId, of_nat (caller_id call)), (CC_CallDataLength, ucast (call_data_length call)),
                              (CC_CallDataOffset, ucast (call_data_offset call))]) ss) (\<lambda>ss.
              bindE (u64_add (call_data_offset call) (min (low_u64 offset) (call_data_length call))) (\<lambda>src_addr.
              bindE (u64_add (call_data_offset call) (call_data_length call)) (\<lambda>src_addr_end.
              bindE (call_ctx (cs_tx_ctx (snd ss))) (\<lambda>cx.
              bindE (foldE (\<lambda>idx (calldata, ss).
                  let addr = copy_src_addr src_addr src_addr_end idx
                  in if addr < unat src_addr_end then
                       bindE (ok_or (nth_opt (cx_call_data cx) (addr - unat (call_data_offset call)))
                                (Panic ''index out of bounds'')) (\<lambda>byte.
                       bindE (if \<not> is_root call
                              then push_op x READ (OpMemory \<lparr>mem_call_id = caller_id call, mem_address = addr, mem_value = byte\<rparr>) ss
                              else Inr ss) (\<lambda>ss. Inr (calldata @ [byte], ss)))
                     else Inr (calldata @ [0], ss)) [0..<32] ([], ss)) (\<lambda>(calldata, ss).
              Inr (of_nat (nat_of_be calldata), ss)))))))) (\<lambda>(calldata_word, ss).
     write_slot x geth_step 0 calldata_word ss)))"

section \<open>Accounts\<close>

text \<open>The part shared by the handlers that access an account: the call context, the access list and the code hash.\<close>

definition access_account :: "Externals \<Rightarrow> Address \<Rightarrow> step_state \<Rightarrow> (Account \<times> step_state) res" where
  "access_account x addr ss =
     bindE (cur_call (snd ss)) (\<lambda>call.
     bindE (context_reads x (call_id call) (tx_reversion_fields (snd ss) call) ss) (\<lambda>ss.
     bindE (tx_access_list_write x addr ss) (\<lambda>ss.
     let account = snd (get_account (x_keccak256 x) (cs_sdb (snd ss)) addr)
     in bindE (account_read x addr AF_CodeHash (visible_code_hash (x_keccak256 x) account) ss) (\<lambda>ss.
        Inr (account, ss)))))"

definition gen_selfbalance :: "Externals \<Rightarrow> handler" where
  "gen_selfbalance x = with_new_step (\<lambda>steps geth_step ss.
     bindE (next_top steps) (\<lambda>self_balance.
     bindE (cur_call (snd ss)) (\<lambda>call.
     bindE (context_reads x (call_id call) [(CC_CalleeAddress, ucast (address call))] ss) (\<lambda>ss.
     bindE (account_read x (address call) AF_Balance self_balance ss) (write_above x geth_step self_balance)))))"

definition gen_balance :: "Externals \<Rightarrow> handler" where
  "gen_balance x = with_new_step (\<lambda>steps geth_step ss.
     bindE (pop_read x geth_step 0 ss) (\<lambda>(address_word, ss).
     let addr = to_address address_word
     in bindE (access_account x addr ss) (\<lambda>(account, ss).
        bindE (if \<not> is_empty (x_keccak256 x) account then account_read x addr AF_Balance (balance account) ss else Inr ss) (\<lambda>ss.
        bindE (step_at steps 1) (\<lambda>next_step.
        bindE (stack_nth next_step 0) (\<lambda>v. write_slot x next_step 0 v ss))))))"

definition gen_extcodehash :: "Externals \<Rightarrow> handler" where
  "gen_extcodehash x = with_new_step (\<lambda>steps geth_step ss.
     bindE (pop_read x geth_step 0 ss) (\<lambda>(address_word, ss).
     bindE (access_account x (to_address address_word) ss) (\<lambda>(account, ss).
     bindE (next_top steps) (\<lambda>v. write_slot x geth_step 0 v ss))))"

definition gen_extcodesize :: "Externals \<Rightarrow> handler" where
  "gen_extcodesize x = with_new_step (\<lambda>steps geth_step ss.
     bindE (pop_read x geth_step 0 ss) (\<lambda>(address_word, ss).
     bindE (access_account x (to_address address_word) ss) (\<lambda>(account, ss).
     bindE (if \<not> is_empty (x_keccak256 x) account
            then bindE (st_code (snd ss) (code_hash account)) (\<lambda>code. Inr (length code)) else Inr 0) (\<lambda>code_size.
     bindE (next_top steps) (\<lambda>v.
     bindE (u256_as_usize v) (\<lambda>n.
     bindE (assert (code_size = n) ''assertion failed'') (\<lambda>_.
     bindE (step_at steps 1) (\<lambda>next_step. write_slot x next_step 0 (of_nat code_size) ss))))))))"

section \<open>Memory\<close>

definition gen_mload :: "Externals \<Rightarrow> handler" where
  "gen_mload x = with_new_step (\<lambda>steps geth_step ss.
     bindE (pop_read x geth_step 0 ss) (\<lambda>(stack_value_read, ss).
     bindE (eth_err (memory_address_try_from stack_value_read)) (\<lambda>mem_read_addr.
     bindE (next_top steps) (\<lambda>mem_read_value.
     bindE (write_slot x geth_step 0 mem_read_value ss) (\<lambda>ss.
     bindE (foldE (\<lambda>byte (addr, ss).
         bindE (memory_read x addr byte ss) (\<lambda>ss.
         bindE (usize_add addr 1) (\<lambda>addr. Inr (addr, ss)))) (be_bytes 32 (unat mem_read_value)) (mem_read_addr, ss)) (\<lambda>(_, ss).
     bindE (usize_add mem_read_addr 32) (\<lambda>minimal_length. memory_mut (extend_at_least minimal_length) ss)))))))"

definition gen_mstore :: "Externals \<Rightarrow> bool \<Rightarrow> handler" where
  "gen_mstore x is_mstore8 = with_new_step (\<lambda>steps geth_step ss.
     bindE (pop_read x geth_step 0 ss) (\<lambda>(offset, ss).
     bindE (pop_read x geth_step 1 ss) (\<lambda>(v, ss).
     bindE (eth_err (memory_address_try_from offset)) (\<lambda>offset_addr.
     let bytes = (if is_mstore8 then [of_nat (unat v)] else be_bytes 32 (unat v))
     in bindE (foldE (\<lambda>(i, byte) ss.
            bindE (usize_add offset_addr i) (\<lambda>addr. memory_write x addr byte ss)) (enumerate 0 bytes) ss) (\<lambda>ss.
        bindE (usize_add offset_addr (if is_mstore8 then 1 else 32)) (\<lambda>minimal_length.
        memory_mut (\<lambda>mem. bindE (extend_at_least minimal_length mem) (write_slice offset_addr bytes)) ss))))))"

definition gen_sha3 :: "Externals \<Rightarrow> handler" where
  "gen_sha3 x = with_new_step (\<lambda>steps geth_step ss.
     bindE (next_top steps) (\<lambda>expected_sha3.
     bindE (pop_read x geth_step 0 ss) (\<lambda>(offset, ss).
     bindE (pop_read x geth_step 1 ss) (\<lambda>(size, ss).
     bindE (if 0 < size then
              bindE (u256_as_usize offset) (\<lambda>offset.
              bindE (u256_as_usize size) (\<lambda>size.
              bindE (usize_add offset size) (\<lambda>e. memory_mut (extend_at_least e) ss)))
            else Inr ss) (\<lambda>ss.
     bindE (call_ctx (cs_tx_ctx (snd ss))) (\<lambda>cx.
     bindE (u256_as_usize size) (\<lambda>len.
     let mem = read_chunk (cx_memory cx) (unat (low_u64 offset)) len; sha3 = x_keccak256 x mem
     in bindE (assert (sha3 = expected_sha3) ''assertion failed'') (\<lambda>_.
        bindE (bindE (step_at steps 1) (\<lambda>next_step. write_slot x next_step 0 sha3 ss)) (\<lambda>ss.
        let rw_counter_start = cs_rwc (snd ss)
        in bindE (foldE (\<lambda>(i, byte) ss.
               bindE (u256_as_usize offset) (\<lambda>offset.
               bindE (usize_add offset i) (\<lambda>addr. memory_read x addr byte ss))) (enumerate 0 mem) ss) (\<lambda>(step, st).
           let st = st\<lparr>cs_block := (cs_block st)\<lparr>bk_sha3_inputs := bk_sha3_inputs (cs_block st) @ [mem]\<rparr>\<rparr>
           in bindE (cur_call st) (\<lambda>call.
                push_copy \<lparr>ce_src_addr = low_u64 offset,
                   ce_src_addr_end = (if unat (low_u64 offset) + len < 2 ^ 64 then low_u64 offset + of_nat len else - 1),
                   ce_src_type = CDT_Memory, ce_src_id = Number (call_id call), ce_dst_addr = 0,
                   ce_dst_type = CDT_RlcAcc, ce_dst_id = Number (call_id call), ce_log_id = None,
                   ce_rw_counter_start = rw_counter_start, ce_bytes = map (\<lambda>b. (b, False)) mem\<rparr> (step, st))))))))))))"

section \<open>Storage\<close>

definition storage_op :: "keccak \<Rightarrow> CircuitInputState \<Rightarrow> Address \<Rightarrow> Word \<Rightarrow> Word \<Rightarrow> Word \<Rightarrow> OpEnum" where
  "storage_op k st addr key v v_prev =
     OpStorage \<lparr>sto_address = addr, sto_key = key, sto_value = v, sto_value_prev = v_prev,
       sto_tx_id = tc_id (cs_tx_ctx st), sto_committed_value = snd (get_committed_storage k (cs_sdb st) addr key)\<rparr>"

definition storage_access_op :: "CircuitInputState \<Rightarrow> Address \<Rightarrow> Word \<Rightarrow> bool \<Rightarrow> bool \<Rightarrow> OpEnum" where
  "storage_access_op st addr key is_warm is_warm_prev =
     OpTxAccessListAccountStorage \<lparr>als_tx_id = tc_id (cs_tx_ctx st), als_address = addr, als_key = key,
       als_is_warm = is_warm, als_is_warm_prev = is_warm_prev\<rparr>"

definition gen_sload :: "Externals \<Rightarrow> handler" where
  "gen_sload x = with_new_step (\<lambda>steps geth_step ss.
     bindE (cur_call (snd ss)) (\<lambda>call.
     bindE (context_reads x (call_id call)
              (tx_reversion_fields (snd ss) call @ [(CC_CalleeAddress, ucast (address call))]) ss) (\<lambda>ss.
     bindE (pop_read x geth_step 0 ss) (\<lambda>(key, ss).
     bindE (eth_err (storage_get_or_err (gs_storage geth_step) key)) (\<lambda>v.
     let is_warm = check_account_storage_in_access_list (cs_sdb (snd ss)) (address call, key)
     in bindE (push_op x READ (storage_op (x_keccak256 x) (snd ss) (address call) key v v) ss) (\<lambda>ss.
        bindE (write_slot x geth_step 0 v ss) (\<lambda>ss.
        bindE (push_op x READ (storage_access_op (snd ss) (address call) key is_warm is_warm) ss) (\<lambda>ss.
        push_op_reversible x (storage_access_op (snd ss) (address call) key True is_warm) ss))))))))"

definition gen_sstore :: "Externals \<Rightarrow> handler" where
  "gen_sstore x = with_new_step (\<lambda>steps geth_step ss.
     bindE (cur_call (snd ss)) (\<lambda>call.
     bindE (context_reads x (call_id call)
              ([(CC_TxId, of_nat (tc_id (cs_tx_ctx (snd ss)))), (CC_IsStatic, word_of_bool (is_static call))] @
               reversion_info_fields call @ [(CC_CalleeAddress, ucast (address call))]) ss) (\<lambda>ss.
     bindE (pop_read x geth_step 0 ss) (\<lambda>(key, ss).
     bindE (pop_read x geth_step 1 ss) (\<lambda>(v, ss).
     let is_warm = check_account_storage_in_access_list (cs_sdb (snd ss)) (address call, key);
         v_prev = snd (get_storage (x_keccak256 x) (cs_sdb (snd ss)) (address call) key)
     in bindE (push_op_reversible x (storage_op (x_keccak256 x) (snd ss) (address call) key v v_prev) ss) (\<lambda>ss.
        bindE (push_op x READ (storage_access_op (snd ss) (address call) key is_warm is_warm) ss) (\<lambda>ss.
        bindE (push_op_reversible x (storage_access_op (snd ss) (address call) key True is_warm) ss) (\<lambda>ss.
        push_op_reversible x (OpTxRefund \<lparr>rfd_tx_id = tc_id (cs_tx_ctx (snd ss)), rfd_value = gs_refund geth_step,
            rfd_value_prev = refund (cs_sdb (snd ss))\<rparr>) ss))))))))"

section \<open>Exponentiation\<close>

text \<open>The recursion on the exponent; the steps come back with the result, in the order the code pushes them.\<close>

function exp_by_squaring :: "Word \<Rightarrow> Word \<Rightarrow> ExpStep list \<Rightarrow> Word \<times> ExpStep list" where
  "exp_by_squaring base exponent steps =
     (if exponent = 0 then (1, steps)
      else if exponent = 1 then (base, steps)
      else
        let (exp1, steps) = exp_by_squaring base (exponent div 2) steps;
            exp2 = exp1 * exp1;
            steps = steps @ [\<lparr>xs_a = exp1, xs_b = exp1, xs_d = exp2\<rparr>]
        in if exponent mod 2 = 0 then (exp2, steps)
           else (base * exp2, steps @ [\<lparr>xs_a = exp2, xs_b = base, xs_d = base * exp2\<rparr>]))"
  by pat_completeness auto

termination
proof (relation "measure (\<lambda>(base, exponent, steps). unat exponent)")
  fix exponent :: Word
  assume "exponent \<noteq> 0"
  then have "0 < unat exponent" by (simp add: unat_gt_0)
  then show "((base, exponent div 2, steps), base, exponent, steps) \<in> measure (\<lambda>(base, exponent, steps). unat exponent)"
    for base :: Word and steps :: "ExpStep list"
    by (simp add: unat_div)
qed simp

declare exp_by_squaring.simps [simp del]

definition gen_exp :: "Externals \<Rightarrow> handler" where
  "gen_exp x = with_new_step (\<lambda>steps geth_step ss.
     bindE (pop_read x geth_step 0 ss) (\<lambda>(base, ss).
     bindE (pop_read x geth_step 1 ss) (\<lambda>(exponent, ss).
     let exponentiation = base ^ unat exponent
     in bindE (bindE (step_at steps 1) (\<lambda>next_step. write_slot x next_step 0 exponentiation ss)) (\<lambda>(step, st).
        let (exponentiation_calc, exp_steps) = exp_by_squaring base exponent []
        in bindE (assert (exponentiation = exponentiation_calc) ''assertion failed'') (\<lambda>_.
           Inr (step, push_exponentiation \<lparr>xe_identifier = cs_rwc st, xe_base = base, xe_exponent = exponent,
                  xe_exponentiation = exponentiation, xe_steps = exp_steps\<rparr> st))))))"

end
