(* ===== verification/Copy_Handlers.thy ===== *)
theory Copy_Handlers
  imports Op_Handlers
begin

text \<open>
  The handlers of the opcodes that copy bytes: \<open>CALLDATACOPY\<close>, \<open>CODECOPY\<close>, \<open>EXTCODECOPY\<close>, \<open>RETURNDATACOPY\<close> and
  \<open>LOG0\<close> to \<open>LOG4\<close> (\<^verbatim>\<open>bus-mapping/src/evm/opcodes/\<close>). Each reads its arguments, brings the memory of the call
  up to date, pushes the operations of the copied bytes and adds the copy event that describes them.
\<close>

section \<open>Call data\<close>

definition gen_calldatacopy_step :: "Externals \<Rightarrow> GethExecStep \<Rightarrow> step_state \<Rightarrow> step_state res" where
  "gen_calldatacopy_step x geth_step ss =
     bindE (pop_reads x geth_step 3 ss) (\<lambda>ss.
     bindE (cur_call (snd ss)) (\<lambda>call.
     context_reads x (call_id call)
       (if is_root call
        then [(CC_TxId, of_nat (tc_id (cs_tx_ctx (snd ss)))), (CC_CallDataLength, ucast (call_data_length call))]
        else [(CC_CallerId, of_nat (caller_id call)), (CC_CallDataLength, ucast (call_data_length call)),
              (CC_CallDataOffset, ucast (call_data_offset call))]) ss))"

text \<open>\<open>data_offset + call_data_offset\<close>, or the end of the call data where that is not a smaller address.\<close>

definition calldata_src_addr :: "Word \<Rightarrow> u64 \<Rightarrow> u64 \<Rightarrow> u64" where
  "calldata_src_addr data_offset cd_offset src_addr_end =
     min (if unat data_offset < 2 ^ 64 \<and> unat data_offset + unat cd_offset < 2 ^ 64
          then low_u64 data_offset + cd_offset else src_addr_end) src_addr_end"

definition gen_calldatacopy_event :: "Externals \<Rightarrow> GethExecStep \<Rightarrow> step_state \<Rightarrow> (CopyEvent \<times> step_state) res" where
  "gen_calldatacopy_event x geth_step ss =
     (let rw_counter_start = cs_rwc (snd ss)
      in bindE (stack_nth geth_step 0) (\<lambda>memory_offset.
         bindE (stack_nth geth_step 1) (\<lambda>data_offset.
         bindE (stack_nth geth_step 2) (\<lambda>len.
         bindE (u256_as_u64 len) (\<lambda>len.
         bindE (cur_call (snd ss)) (\<lambda>call.
         bindE (u64_add (call_data_offset call) (call_data_length call)) (\<lambda>src_addr_end.
         let dst_addr = low_u64 memory_offset;
             src_addr = calldata_src_addr data_offset (call_data_offset call) src_addr_end
         in bindE (gen_copy_steps_for_call_data x src_addr dst_addr src_addr_end len ss) (\<lambda>(copy_steps, ss).
            Inr (\<lparr>ce_src_addr = src_addr, ce_src_addr_end = src_addr_end,
                  ce_src_type = (if is_root call then CDT_TxCalldata else CDT_Memory),
                  ce_src_id = Number (if is_root call then tc_id (cs_tx_ctx (snd ss)) else caller_id call),
                  ce_dst_addr = dst_addr, ce_dst_type = CDT_Memory, ce_dst_id = Number (call_id call),
                  ce_log_id = None, ce_rw_counter_start = rw_counter_start, ce_bytes = copy_steps\<rparr>, ss)))))))))"

definition gen_calldatacopy :: "Externals \<Rightarrow> handler" where
  "gen_calldatacopy x = with_new_step (\<lambda>steps geth_step ss.
     bindE (gen_calldatacopy_step x geth_step ss) (\<lambda>ss.
     bindE (stack_nth geth_step 0) (\<lambda>memory_offset.
     bindE (stack_nth geth_step 1) (\<lambda>data_offset.
     bindE (stack_nth geth_step 2) (\<lambda>len.
     bindE (call_ctx (cs_tx_ctx (snd ss))) (\<lambda>cx.
     bindE (memory_mut (copy_from memory_offset data_offset len (cx_call_data cx)) ss) (\<lambda>ss.
     bindE (gen_calldatacopy_event x geth_step ss) (\<lambda>(copy_event, ss).
     push_copy copy_event ss))))))))"

section \<open>Code\<close>

text \<open>The copy event of code: \<open>first\<close> is the position of the destination offset on the stack.\<close>

definition gen_code_copy_event ::
  "Externals \<Rightarrow> GethExecStep \<Rightarrow> usize \<Rightarrow> Hash \<Rightarrow> Bytecode \<Rightarrow> step_state \<Rightarrow> (CopyEvent \<times> step_state) res" where
  "gen_code_copy_event x geth_step first hash bytecode ss =
     (let rw_counter_start = cs_rwc (snd ss)
      in bindE (stack_nth geth_step first) (\<lambda>dst_offset.
         bindE (stack_nth geth_step (first + 1)) (\<lambda>code_offset.
         bindE (stack_nth geth_step (first + 2)) (\<lambda>len.
         bindE (u256_as_u64 len) (\<lambda>len.
         let dst_addr = low_u64 dst_offset;
             src_addr_end = of_nat (codesize bytecode);
             src_addr = min (if unat code_offset < 2 ^ 64 then low_u64 code_offset else src_addr_end) src_addr_end
         in bindE (gen_copy_steps_for_bytecode x bytecode src_addr dst_addr src_addr_end len ss) (\<lambda>(copy_steps, ss).
            bindE (cur_call (snd ss)) (\<lambda>call.
            Inr (\<lparr>ce_src_addr = src_addr, ce_src_addr_end = src_addr_end, ce_src_type = CDT_Bytecode,
                  ce_src_id = HashId hash, ce_dst_addr = dst_addr, ce_dst_type = CDT_Memory,
                  ce_dst_id = Number (call_id call), ce_log_id = None, ce_rw_counter_start = rw_counter_start,
                  ce_bytes = copy_steps\<rparr>, ss))))))))"

definition gen_codecopy :: "Externals \<Rightarrow> handler" where
  "gen_codecopy x = with_new_step (\<lambda>steps geth_step ss.
     bindE (pop_reads x geth_step 3 ss) (\<lambda>ss.
     bindE (stack_nth geth_step 0) (\<lambda>dst_offset.
     bindE (stack_nth geth_step 1) (\<lambda>code_offset.
     bindE (stack_nth geth_step 2) (\<lambda>len.
     bindE (cur_call (snd ss)) (\<lambda>call.
     bindE (st_code (snd ss) (cl_code_hash call)) (\<lambda>code.
     bindE (memory_mut (copy_from dst_offset code_offset len code) ss) (\<lambda>ss.
     bindE (gen_code_copy_event x geth_step 0 (cl_code_hash call) (from_bytes code) ss) (\<lambda>(copy_event, ss).
     push_copy copy_event ss)))))))))"

definition gen_extcodecopy_step :: "Externals \<Rightarrow> GethExecStep \<Rightarrow> step_state \<Rightarrow> step_state res" where
  "gen_extcodecopy_step x geth_step ss =
     bindE (stack_nth geth_step 0) (\<lambda>external_address_word.
     bindE (pop_reads x geth_step 4 ss) (\<lambda>ss.
     bindE (access_account x (to_address external_address_word) ss) (\<lambda>(_, ss). Inr ss)))"

definition gen_extcodecopy :: "Externals \<Rightarrow> handler" where
  "gen_extcodecopy x = with_new_step (\<lambda>steps geth_step ss.
     bindE (gen_extcodecopy_step x geth_step ss) (\<lambda>ss.
     bindE (stack_nth geth_step 0) (\<lambda>address_word.
     bindE (stack_nth geth_step 1) (\<lambda>dst_offset.
     bindE (stack_nth geth_step 2) (\<lambda>code_offset.
     bindE (stack_nth geth_step 3) (\<lambda>len.
     let k = x_keccak256 x; account = snd (get_account k (cs_sdb (snd ss)) (to_address address_word))
     in bindE (st_code (snd ss) (code_hash account)) (\<lambda>code.
        bindE (memory_mut (copy_from dst_offset code_offset len code) ss) (\<lambda>ss.
        bindE (gen_code_copy_event x geth_step 1 (visible_code_hash k account)
                 (if \<not> is_empty k account then from_bytes code else bytecode_default) ss) (\<lambda>(copy_event, ss).
        push_copy copy_event ss)))))))))"

section \<open>Return data\<close>

definition gen_returndatacopy_step :: "Externals \<Rightarrow> GethExecStep \<Rightarrow> step_state \<Rightarrow> step_state res" where
  "gen_returndatacopy_step x geth_step ss =
     bindE (pop_reads x geth_step 3 ss) (\<lambda>ss.
     bindE (cur_call (snd ss)) (\<lambda>call.
     bindE (call_ctx (cs_tx_ctx (snd ss))) (\<lambda>cx.
     bindE (assert (unat (last_callee_return_data_length call) = length (cx_return_data cx))
              ''callee return data size should be correct'') (\<lambda>_.
     context_reads x (call_id call)
       [(CC_LastCalleeId, of_nat (last_callee_id call)),
        (CC_LastCalleeReturnDataOffset, ucast (last_callee_return_data_offset call)),
        (CC_LastCalleeReturnDataLength, of_nat (length (cx_return_data cx)))] ss))))"

definition gen_return_copy_steps ::
  "Externals \<Rightarrow> u64 \<Rightarrow> u64 \<Rightarrow> u64 \<Rightarrow> u64 \<Rightarrow> step_state \<Rightarrow> ((u8 \<times> bool) list \<times> step_state) res" where
  "gen_return_copy_steps x src_addr dst_addr src_addr_end bytes_left ss =
     bindE (cur_call (snd ss)) (\<lambda>call.
     let src_addr_base = last_callee_return_data_offset call
     in foldE (\<lambda>idx (copy_steps, ss).
          bindE (u64_add src_addr (of_nat idx)) (\<lambda>addr.
          bindE (if addr < src_addr_end then
                   bindE (call_ctx (cs_tx_ctx (snd ss))) (\<lambda>cx.
                   bindE (u64_sub addr src_addr_base) (\<lambda>i.
                   ok_or (nth_opt (cx_return_data cx) (unat i)) (Panic ''index out of bounds'')))
                 else Inl (Panic ''internal error: entered unreachable code: return data copy out of bound'')) (\<lambda>v.
          bindE (push_op x READ (OpMemory \<lparr>mem_call_id = last_callee_id call, mem_address = unat addr, mem_value = v\<rparr>) ss) (\<lambda>ss.
          bindE (u64_add dst_addr (of_nat idx)) (\<lambda>dst.
          bindE (memory_write x (unat dst) v ss) (\<lambda>ss. Inr (copy_steps @ [(v, False)], ss)))))))
        [0..<unat bytes_left] ([], ss))"

definition gen_returndatacopy_event :: "Externals \<Rightarrow> GethExecStep \<Rightarrow> step_state \<Rightarrow> (CopyEvent \<times> step_state) res" where
  "gen_returndatacopy_event x geth_step ss =
     bindE (stack_nth geth_step 0) (\<lambda>memory_offset.
     bindE (stack_nth geth_step 1) (\<lambda>data_offset.
     bindE (u256_as_u64 data_offset) (\<lambda>data_offset.
     bindE (stack_nth geth_step 2) (\<lambda>len.
     bindE (u256_as_u64 len) (\<lambda>len.
     bindE (cur_call (snd ss)) (\<lambda>call.
     bindE (u64_add (last_callee_return_data_offset call) data_offset) (\<lambda>src_addr.
     bindE (u64_add (last_callee_return_data_offset call) (last_callee_return_data_length call)) (\<lambda>src_addr_end.
     let dst_addr = low_u64 memory_offset; rw_counter_start = cs_rwc (snd ss)
     in bindE (gen_return_copy_steps x src_addr dst_addr src_addr_end len ss) (\<lambda>(copy_steps, ss).
        Inr (\<lparr>ce_src_addr = src_addr, ce_src_addr_end = src_addr_end, ce_src_type = CDT_Memory,
              ce_src_id = Number (last_callee_id call), ce_dst_addr = dst_addr, ce_dst_type = CDT_Memory,
              ce_dst_id = Number (call_id call), ce_log_id = None, ce_rw_counter_start = rw_counter_start,
              ce_bytes = copy_steps\<rparr>, ss))))))))))"

definition gen_returndatacopy :: "Externals \<Rightarrow> handler" where
  "gen_returndatacopy x = with_new_step (\<lambda>steps geth_step ss.
     bindE (gen_returndatacopy_step x geth_step ss) (\<lambda>ss.
     bindE (stack_nth geth_step 0) (\<lambda>dst_offset.
     bindE (stack_nth geth_step 1) (\<lambda>src_offset.
     bindE (stack_nth geth_step 2) (\<lambda>len.
     bindE (call_ctx (cs_tx_ctx (snd ss))) (\<lambda>cx.
     bindE (memory_mut (copy_from dst_offset src_offset len (cx_return_data cx)) ss) (\<lambda>ss.
     bindE (gen_returndatacopy_event x geth_step ss) (\<lambda>(copy_event, ss).
     push_copy copy_event ss))))))))"

section \<open>Logs\<close>

definition gen_log_step :: "Externals \<Rightarrow> GethExecStep \<Rightarrow> step_state \<Rightarrow> step_state res" where
  "gen_log_step x geth_step ss =
     bindE (pop_reads x geth_step 2 ss) (\<lambda>ss.
     bindE (cur_call (snd ss)) (\<lambda>call.
     let tid = tc_id (cs_tx_ctx (snd ss)); lid = tc_log_id (cs_tx_ctx (snd ss)) + 1
     in bindE (context_reads x (call_id call)
                 [(CC_TxId, of_nat tid), (CC_IsStatic, word_of_bool (is_static call)),
                  (CC_CalleeAddress, ucast (address call)), (CC_IsPersistent, word_of_bool (is_persistent call))] ss) (\<lambda>ss.
        bindE (if is_persistent call then tx_log_write x tid lid LF_Address 0 (ucast (address call)) ss else Inr ss) (\<lambda>ss.
        bindE (case es_exec_state (fst ss) of
                 ES_Op op_id \<Rightarrow> ok_or (postfix op_id) (Panic ''opcode with postfix'')
               | _ \<Rightarrow> Inl (Panic ''currently only handle successful log state'')) (\<lambda>topic_count.
        foldE (\<lambda>i ss.
          bindE (pop_read x geth_step (2 + i) ss) (\<lambda>(topic, ss).
          if is_persistent call then tx_log_write x tid lid LF_Topic i topic ss else Inr ss)) [0..<unat topic_count] ss)))))"

definition gen_log_copy_steps ::
  "Externals \<Rightarrow> u64 \<Rightarrow> usize \<Rightarrow> step_state \<Rightarrow> ((u8 \<times> bool) list \<times> step_state) res" where
  "gen_log_copy_steps x src_addr bytes_left ss =
     bindE (call_ctx (cs_tx_ctx (snd ss))) (\<lambda>cx.
     let tid = tc_id (cs_tx_ctx (snd ss)); lid = tc_log_id (cs_tx_ctx (snd ss)) + 1
     in foldE (\<lambda>(idx, byte) (copy_steps, ss).
          bindE (u64_add src_addr (of_nat idx)) (\<lambda>addr.
          bindE (memory_read x (unat addr) byte ss) (\<lambda>ss.
          bindE (tx_log_write x tid lid LF_Data idx (ucast byte) ss) (\<lambda>ss. Inr (copy_steps @ [(byte, False)], ss)))))
        (enumerate 0 (read_chunk (cx_memory cx) (unat src_addr) bytes_left)) ([], ss))"

definition gen_log_copy_event :: "Externals \<Rightarrow> GethExecStep \<Rightarrow> step_state \<Rightarrow> (CopyEvent \<times> step_state) res" where
  "gen_log_copy_event x geth_step ss =
     (let rw_counter_start = cs_rwc (snd ss)
      in bindE (cur_call (snd ss)) (\<lambda>call.
         bindE (assert (is_persistent call) ''Error: Call is not persistent'') (\<lambda>_.
         bindE (stack_nth geth_step 0) (\<lambda>mstart.
         bindE (u256_as_u64 mstart) (\<lambda>memory_start.
         bindE (stack_nth geth_step 1) (\<lambda>msize.
         bindE (u256_as_usize msize) (\<lambda>msize.
         bindE (u64_add memory_start (of_nat msize)) (\<lambda>src_addr_end.
         bindE (gen_log_copy_steps x memory_start msize ss) (\<lambda>(steps, ss).
         Inr (\<lparr>ce_src_addr = memory_start, ce_src_addr_end = src_addr_end, ce_src_type = CDT_Memory,
               ce_src_id = Number (call_id call), ce_dst_addr = 0, ce_dst_type = CDT_TxLog,
               ce_dst_id = Number (tc_id (cs_tx_ctx (snd ss))),
               ce_log_id = Some (of_nat (tc_log_id (cs_tx_ctx (snd ss))) + 1), ce_rw_counter_start = rw_counter_start,
               ce_bytes = steps\<rparr>, ss))))))))))"

definition gen_log :: "Externals \<Rightarrow> handler" where
  "gen_log x = with_new_step (\<lambda>steps geth_step ss.
     bindE (gen_log_step x geth_step ss) (\<lambda>ss.
     bindE (cur_call (snd ss)) (\<lambda>call.
     bindE (if is_persistent call then
              bindE (gen_log_copy_event x geth_step ss) (\<lambda>(copy_event, ss).
              bindE (push_copy copy_event ss) (\<lambda>(step, st).
              Inr (step, st\<lparr>cs_tx_ctx := (cs_tx_ctx st)\<lparr>tc_log_id := tc_log_id (cs_tx_ctx st) + 1\<rparr>\<rparr>)))
            else Inr ss) (\<lambda>ss.
     bindE (stack_nth geth_step 0) (\<lambda>offset.
     bindE (u256_as_usize offset) (\<lambda>offset.
     bindE (stack_nth geth_step 1) (\<lambda>len.
     bindE (u256_as_usize len) (\<lambda>len.
     if len \<noteq> 0 then bindE (usize_add offset len) (\<lambda>e. memory_mut (extend_at_least e) ss) else Inr ss))))))))"

end
