(* ===== verification/Call_Handlers.thy ===== *)
theory Call_Handlers
  imports Copy_Handlers
begin

text \<open>
  The handlers that enter and leave calls: \<open>CALL\<close> and its variants, \<open>CREATE\<close> and \<open>CREATE2\<close>, \<open>RETURN\<close> and \<open>REVERT\<close>,
  \<open>STOP\<close>, \<open>SELFDESTRUCT\<close>, and the beginning and the end of a transaction (\<^verbatim>\<open>callop.rs\<close>, \<^verbatim>\<open>create.rs\<close>,
  \<^verbatim>\<open>return_revert.rs\<close>, \<^verbatim>\<open>stop.rs\<close>, \<^verbatim>\<open>begin_end_tx.rs\<close> and \<^verbatim>\<open>opcodes.rs\<close> under
  \<^verbatim>\<open>bus-mapping/src/evm/\<close>, and \<^verbatim>\<open>bus-mapping/src/precompile.rs\<close>). A long handler is cut into the
  parts its comments name.
\<close>

section \<open>Precompiled contracts\<close>

definition precompile_is_precompiled :: "Externals \<Rightarrow> Address \<Rightarrow> bool" where
  "precompile_is_precompiled x addr = (x_precompiles x addr \<noteq> None)"

definition execute_precompiled :: "Externals \<Rightarrow> Address \<Rightarrow> u8 list \<Rightarrow> u64 \<Rightarrow> (u8 list \<times> u64) res" where
  "execute_precompiled x addr input gas = (case x_precompiles x addr of
       Some (Standard precompile_fn) \<Rightarrow> (case precompile_fn input gas of
           Some (gas_cost, return_value) \<Rightarrow> Inr (return_value, gas_cost)
         | None \<Rightarrow> Inr ([], gas))
     | _ \<Rightarrow> Inl (Panic ''calling non-exist precompiled contract address''))"

section \<open>Calls\<close>

definition on_state :: "(CircuitInputState \<Rightarrow> CircuitInputState res) \<Rightarrow> step_state \<Rightarrow> step_state res" where
  "on_state f = (\<lambda>(step, st). bindE (f st) (\<lambda>st. Inr (step, st)))"

text \<open>The call context the caller is read with, and what the call leaves in the context of the caller.\<close>

definition caller_fields :: "usize \<Rightarrow> Call \<Rightarrow> Call \<Rightarrow> (CallContextField \<times> Word) list" where
  "caller_fields tid current_call call =
     [(CC_TxId, of_nat tid), (CC_RwCounterEndOfReversion, 0), (CC_IsPersistent, word_of_bool (is_persistent current_call)),
      (CC_IsStatic, word_of_bool (is_static current_call)), (CC_Depth, of_nat (depth current_call)),
      (CC_CalleeAddress, ucast (address current_call))] @
     (if kind call = CK_DelegateCall
      then [(CC_CallerAddress, ucast (caller_address current_call)), (CC_Value, cl_value current_call)] else [])"

definition last_callee_fields :: "usize \<Rightarrow> usize \<Rightarrow> (CallContextField \<times> Word) list" where
  "last_callee_fields cid len =
     [(CC_LastCalleeId, of_nat cid), (CC_LastCalleeReturnDataOffset, 0), (CC_LastCalleeReturnDataLength, of_nat len)]"

definition callee_fields :: "usize \<Rightarrow> Call \<Rightarrow> Call \<Rightarrow> (CallContextField \<times> Word) list" where
  "callee_fields tid current_call call =
     [(CC_CallerId, of_nat (call_id current_call)), (CC_TxId, of_nat tid), (CC_Depth, of_nat (depth call)),
      (CC_CallerAddress, ucast (caller_address call)), (CC_CalleeAddress, ucast (address call)),
      (CC_CallDataOffset, ucast (call_data_offset call)), (CC_CallDataLength, ucast (call_data_length call)),
      (CC_ReturnDataOffset, ucast (return_data_offset call)), (CC_ReturnDataLength, ucast (return_data_length call)),
      (CC_Value, cl_value call), (CC_IsSuccess, word_of_bool (is_success call)), (CC_IsStatic, word_of_bool (is_static call)),
      (CC_LastCalleeId, 0), (CC_LastCalleeReturnDataOffset, 0), (CC_LastCalleeReturnDataLength, 0),
      (CC_IsRoot, 0), (CC_IsCreate, 0), (CC_CodeHash, cl_code_hash call)]"

text \<open>The memory after the call in words, the gas of the call, and the gas given to the callee.\<close>

definition call_gas ::
  "GethExecStep \<Rightarrow> ExecStep \<Rightarrow> Call \<Rightarrow> bool \<Rightarrow> bool \<Rightarrow> (u64 \<times> u64 \<times> u64) res" where
  "call_gas geth_step exec_step call is_warm callee_exists =
     bindE (assert (es_memory_size exec_step mod 32 = 0) ''assertion failed'') (\<lambda>_.
     let curr_memory_word_size = of_nat (es_memory_size exec_step) div 32
     in bindE (u64_add (call_data_offset call) (call_data_length call)) (\<lambda>cd.
        bindE (u64_add cd 31) (\<lambda>cd.
        bindE (u64_add (return_data_offset call) (return_data_length call)) (\<lambda>rd.
        bindE (u64_add rd 31) (\<lambda>rd.
        let next_memory_word_size = max curr_memory_word_size (max (cd div 32) (rd div 32));
            has_value = (cl_value call \<noteq> 0 \<and> \<not> is_delegatecall call)
        in bindE (memory_expansion_gas_cost curr_memory_word_size next_memory_word_size) (\<lambda>expansion.
           bindE (u64_add ((if is_warm then GasCost_WARM_ACCESS else GasCost_COLD_ACCOUNT_ACCESS) +
                    (if has_value then GasCost_CALL_WITH_VALUE +
                       (if kind call = CK_Call \<and> \<not> callee_exists then GasCost_NEW_ACCOUNT else 0) else 0)) expansion) (\<lambda>gas_cost.
           bindE (eth_err (stack_last (gs_stack geth_step))) (\<lambda>gas_specified.
           bindE (u64_sub (gs_gas geth_step) gas_cost) (\<lambda>gas.
           bindE (eip150_gas gas gas_specified) (\<lambda>callee_gas_left.
             Inr (next_memory_word_size, gas_cost, callee_gas_left)))))))))))"

text \<open>The three ends of a call: a precompiled contract, a call that runs no code, a call that runs code.\<close>

definition call_precompile ::
  "Externals \<Rightarrow> GethExecStep list \<Rightarrow> Call \<Rightarrow> Call \<Rightarrow> usize \<Rightarrow> usize \<Rightarrow> usize \<Rightarrow> usize \<Rightarrow> u64 \<Rightarrow> step_state \<Rightarrow> step_state res" where
  "call_precompile x steps current_call call args_offset args_length ret_offset ret_length callee_gas_left ss =
     bindE (if length (tc_calls (cs_tx_ctx (snd ss))) < 2
            then Inl (Err (InternalError ''caller id not found in call map''))
            else Inr (tc_calls (cs_tx_ctx (snd ss)) ! (length (tc_calls (cs_tx_ctx (snd ss))) - 2))) (\<lambda>caller_ctx.
     bindE (ok_or (code_address call) (Panic ''called Option::unwrap() on a None value'')) (\<lambda>code_addr.
     bindE (if args_length \<noteq> 0 then memory_slice (cx_memory caller_ctx) args_offset args_length else Inr []) (\<lambda>input.
     bindE (execute_precompiled x code_addr input callee_gas_left) (\<lambda>(result, contract_gas_cost).
     let len = min (length result) ret_length
     in bindE (if len \<noteq> 0 then bindE (usize_add ret_offset len) (\<lambda>e. extend_at_least e (cx_memory caller_ctx))
               else Inr (cx_memory caller_ctx)) (\<lambda>mem.
        bindE (write_slice ret_offset (take len result) mem) (\<lambda>mem.
        bindE (on_state (caller_ctx_mut (\<lambda>cx. cx\<lparr>cx_return_data := result, cx_memory := mem\<rparr>)) ss) (\<lambda>ss.
        bindE (context_writes x (call_id current_call) (last_callee_fields (call_id call) (length result)) ss) (\<lambda>ss.
        bindE (handle_return x steps False ss) (\<lambda>(step, st).
        bindE (step_at steps 0) (\<lambda>s0.
        bindE (step_at steps 1) (\<lambda>s1.
        bindE (u64_sub (gs_gas s0) (gs_gas s1)) (\<lambda>real_cost.
          Inr (step\<lparr>es_gas_cost := real_cost\<rparr>, st)))))))))))))"

definition call_no_code :: "Externals \<Rightarrow> GethExecStep list \<Rightarrow> Call \<Rightarrow> Call \<Rightarrow> step_state \<Rightarrow> step_state res" where
  "call_no_code x steps current_call call ss =
     bindE (context_writes x (call_id current_call) (last_callee_fields (call_id call) 0) ss) (handle_return x steps False)"

definition call_with_code ::
  "Externals \<Rightarrow> usize \<Rightarrow> GethExecStep \<Rightarrow> usize \<Rightarrow> Call \<Rightarrow> Call \<Rightarrow> u64 \<times> u64 \<times> u64 \<Rightarrow> step_state \<Rightarrow> step_state res" where
  "call_with_code x n_args geth_step tid current_call call = (\<lambda>(next_memory_word_size, gas_cost, callee_gas_left) ss.
     bindE (u64_add (gs_pc geth_step) 1) (\<lambda>pc.
     bindE (stack_pointer (gs_stack geth_step)) (\<lambda>sp.
     bindE (u64_sub (gs_gas geth_step) gas_cost) (\<lambda>gas.
     bindE (u64_sub gas callee_gas_left) (\<lambda>gas_left.
     bindE (context_writes x (call_id current_call)
              [(CC_ProgramCounter, ucast pc), (CC_StackPointer, of_nat (sp + n_args - 1)), (CC_GasLeft, ucast gas_left),
               (CC_MemorySize, ucast next_memory_word_size),
               (CC_ReversibleWriteCounter, of_nat (es_reversible_write_counter (fst ss) + 1))] ss) (\<lambda>ss.
     context_writes x (call_id call) (callee_fields tid current_call call) ss))))))"

text \<open>Before the call is entered: call context, arguments and result on the stack, code hash, access list.\<close>

definition call_reads ::
  "Externals \<Rightarrow> usize \<Rightarrow> GethExecStep \<Rightarrow> Call \<Rightarrow> Call \<Rightarrow> Address \<Rightarrow> Account \<Rightarrow> step_state \<Rightarrow> step_state res" where
  "call_reads x n_args geth_step current_call call callee_address callee ss =
     bindE (context_reads x (call_id current_call) (caller_fields (tc_id (cs_tx_ctx (snd ss))) current_call call) ss) (\<lambda>ss.
     bindE (pop_reads x geth_step n_args ss) (\<lambda>ss.
     bindE (write_slot x geth_step (n_args - 1) (word_of_bool (is_success call)) ss) (\<lambda>ss.
     bindE (account_read x callee_address AF_CodeHash (if \<not> is_empty (x_keccak256 x) callee then cl_code_hash call else 0) ss) (\<lambda>ss.
     tx_access_list_write x callee_address ss))))"

text \<open>After the call is entered: reversion information, balance of the caller, transfer of the value.\<close>

definition call_transfer ::
  "Externals \<Rightarrow> GethExecStep \<Rightarrow> Call \<Rightarrow> bool \<Rightarrow> step_state \<Rightarrow> (bool \<times> step_state) res" where
  "call_transfer x geth_step call callee_exists ss =
     bindE (context_writes x (call_id call) [(CC_RwCounterEndOfReversion, 0), (CC_IsPersistent, word_of_bool (is_persistent call))] ss) (\<lambda>ss.
     let (found, sender_account) = get_account (x_keccak256 x) (cs_sdb (snd ss)) (caller_address call);
         caller_balance = balance sender_account;
         is_precheck_ok = (gs_depth geth_step < 1025 \<and>
           (cl_value call \<le> caller_balance \<or> \<not> (kind call = CK_Call \<or> kind call = CK_CallCode)))
     in bindE (assert found ''assertion failed: found'') (\<lambda>_.
        bindE (account_read x (caller_address call) AF_Balance caller_balance ss) (\<lambda>ss.
        bindE (if kind call = CK_Call \<and> is_precheck_ok \<and> cl_value call \<noteq> 0
               then transfer x (caller_address call) (address call) callee_exists False (cl_value call) ss
               else Inr ss) (\<lambda>ss. Inr (is_precheck_ok, ss)))))"

definition gen_call :: "Externals \<Rightarrow> usize \<Rightarrow> handler" where
  "gen_call x n_args = with_new_step (\<lambda>steps geth_step ss.
     bindE (stack_nth geth_step (n_args - 4)) (\<lambda>args_offset.
     bindE (stack_nth geth_step (n_args - 3)) (\<lambda>args_length.
     bindE (u256_as_usize args_length) (\<lambda>args_length.
     bindE (stack_nth geth_step (n_args - 2)) (\<lambda>ret_offset.
     bindE (stack_nth geth_step (n_args - 1)) (\<lambda>ret_length.
     bindE (u256_as_usize ret_length) (\<lambda>ret_length.
     let args_offset = unat (low_u64 args_offset); ret_offset = unat (low_u64 ret_offset)
     in bindE (on_state (call_expand_memory args_offset args_length ret_offset ret_length) ss) (\<lambda>(exec_step, st).
        bindE (parse_call x geth_step st) (\<lambda>(call, st).
        bindE (cur_call st) (\<lambda>current_call.
        let tid = tc_id (cs_tx_ctx st); k = x_keccak256 x;
            callee_address = (case code_source call of CS_Address a \<Rightarrow> a | _ \<Rightarrow> address call);
            callee = snd (get_account k (cs_sdb st) callee_address);
            callee_exists = (\<not> is_empty k callee);
            is_empty_code_hash = (if callee_exists then cl_code_hash call = empty_code_hash k else True);
            is_warm = check_account_in_access_list (cs_sdb st) callee_address
        in bindE (call_reads x n_args geth_step current_call call callee_address callee (exec_step, st)) (\<lambda>ss.
           bindE (on_state (push_call call) ss) (\<lambda>ss.
           bindE (call_transfer x geth_step call callee_exists ss) (\<lambda>(is_precheck_ok, ss).
           bindE (call_gas geth_step (fst ss) call is_warm callee_exists) (\<lambda>gas.
           let is_precompile = (case code_address call of Some addr \<Rightarrow> precompile_is_precompiled x addr | None \<Rightarrow> False)
           in if is_precheck_ok \<and> is_precompile
              then call_precompile x steps current_call call args_offset args_length ret_offset ret_length (snd (snd gas)) ss
              else if is_precheck_ok \<and> \<not> is_empty_code_hash
              then call_with_code x n_args geth_step tid current_call call gas ss
              else call_no_code x steps current_call call ss))))))))))))))"

section \<open>Creation of contracts\<close>

text \<open>The operations of the bytes of the init code or of the created code, and the copy event.\<close>

definition copy_code_bytes ::
  "Externals \<Rightarrow> usize \<Rightarrow> usize \<Rightarrow> usize \<Rightarrow> u8 list \<Rightarrow> step_state \<Rightarrow> (Hash \<times> step_state) res" where
  "copy_code_bytes x cid offset len bytes ss =
     (let bytecode = from_bytes bytes; hash = bytecode_hash (x_keccak256 x) bytecode; rw_counter_start = cs_rwc (snd ss)
      in bindE (foldE (\<lambda>(i, byte, _) ss.
           bindE (usize_add offset i) (\<lambda>addr.
           push_op x READ (OpMemory \<lparr>mem_call_id = cid, mem_address = addr, mem_value = byte\<rparr>) ss))
           (enumerate 0 (code_vec bytecode)) ss) (\<lambda>ss.
         bindE (usize_add offset len) (\<lambda>offset_end.
         bindE (push_copy \<lparr>ce_src_addr = of_nat offset, ce_src_addr_end = of_nat offset_end, ce_src_type = CDT_Memory,
              ce_src_id = Number cid, ce_dst_addr = 0, ce_dst_type = CDT_Bytecode, ce_dst_id = HashId hash,
              ce_log_id = None, ce_rw_counter_start = rw_counter_start, ce_bytes = code_vec bytecode\<rparr> ss) (\<lambda>ss.
         Inr (hash, ss)))))"

definition create_copy :: "Externals \<Rightarrow> usize \<Rightarrow> usize \<Rightarrow> usize \<Rightarrow> step_state \<Rightarrow> (u8 list \<times> Hash \<times> step_state) res" where
  "create_copy x cid offset len ss =
     bindE (caller_ctx (cs_tx_ctx (snd ss))) (\<lambda>cx.
     bindE (usize_add offset len) (\<lambda>_.
     bindE (memory_slice (cx_memory cx) offset len) (\<lambda>initialization_bytes.
     bindE (copy_code_bytes x cid offset len initialization_bytes ss) (\<lambda>(hash, ss).
     Inr (initialization_bytes, hash, ss)))))"

definition create_stack ::
  "Externals \<Rightarrow> bool \<Rightarrow> GethExecStep \<Rightarrow> Call \<Rightarrow> step_state \<Rightarrow> (Address \<times> step_state) res" where
  "create_stack x is_create2 geth_step callee ss =
     (let n_pop = (if is_create2 then 4 else 3)
      in bindE (pop_reads x geth_step n_pop ss) (\<lambda>ss.
         bindE (if is_create2 then create2_address x geth_step (snd ss) else create_address x (snd ss)) (\<lambda>addr.
         bindE (write_slot x geth_step (n_pop - 1) (if is_success callee then ucast addr else 0) ss) (\<lambda>ss.
         Inr (addr, ss)))))"

text \<open>Balance and nonce of the caller; unless a check fails, the new nonce, the access list and the old code hash.\<close>

definition create_precheck ::
  "Externals \<Rightarrow> Call \<Rightarrow> Call \<Rightarrow> Address \<Rightarrow> Account \<Rightarrow> step_state \<Rightarrow> (bool \<times> u64 \<times> step_state) res" where
  "create_precheck x caller callee addr callee_account ss =
     (let k = x_keccak256 x;
          caller_balance = get_balance k (cs_sdb (snd ss)) (address caller);
          caller_nonce = get_nonce k (cs_sdb (snd ss)) (address caller);
          callee_exists = (\<not> is_empty k callee_account);
          is_precheck_ok = (depth caller < 1025 \<and> cl_value callee \<le> caller_balance \<and> caller_nonce < - 1)
      in bindE (account_read x (address caller) AF_Balance caller_balance ss) (\<lambda>ss.
         bindE (account_read x (address caller) AF_Nonce (ucast caller_nonce) ss) (\<lambda>ss.
         bindE (if is_precheck_ok then
                  bindE (push_op_reversible x (account_op (address caller) AF_Nonce (ucast (caller_nonce + 1)) (ucast caller_nonce)) ss) (\<lambda>ss.
                  bindE (tx_access_list_write x addr ss) (\<lambda>ss.
                  let ss = (if callee_exists then set_error (Some ContractAddressCollision) ss else ss)
                  in account_read x (address callee) AF_CodeHash (visible_code_hash k callee_account) ss))
                else Inr ss) (\<lambda>ss.
         Inr (is_precheck_ok, caller_nonce, ss)))))"

definition create_caller_context ::
  "Externals \<Rightarrow> bool \<Rightarrow> GethExecStep \<Rightarrow> Call \<Rightarrow> u64 \<Rightarrow> step_state \<Rightarrow> step_state res" where
  "create_caller_context x is_create2 geth_step caller next_memory_word_size ss =
     bindE (u64_sub (gs_gas geth_step) (gs_gas_cost geth_step)) (\<lambda>gas.
     bindE (u64_add (gs_pc geth_step) 1) (\<lambda>pc.
     bindE (nth_last_filled (gs_stack geth_step) ((if is_create2 then 4 else 3) - 1)) (\<lambda>sp.
     context_writes x (call_id caller)
       [(CC_ProgramCounter, ucast pc), (CC_StackPointer, of_nat sp), (CC_GasLeft, ucast (gas div 64)),
        (CC_MemorySize, ucast next_memory_word_size),
        (CC_ReversibleWriteCounter, of_nat (es_reversible_write_counter (fst ss) + 2))] ss)))"

text \<open>The input of the hash that gives the address, which has to give the address used.\<close>

definition create_keccak_input ::
  "Externals \<Rightarrow> bool \<Rightarrow> GethExecStep \<Rightarrow> Call \<Rightarrow> u64 \<Rightarrow> Address \<Rightarrow> u8 list \<Rightarrow> Hash \<Rightarrow> u8 list res" where
  "create_keccak_input x is_create2 geth_step caller caller_nonce addr initialization_code hash =
     bindE (if is_create2 then
              bindE (stack_nth geth_step 3) (\<lambda>salt.
              bindE (assert (addr = x_get_create2_address x (address caller) (be_bytes 32 (unat salt)) initialization_code)
                       ''assertion failed'') (\<lambda>_.
              Inr ([0xff] @ be_bytes 20 (unat (address caller)) @ be_bytes 32 (unat salt) @ be_bytes 32 (unat hash))))
            else Inr (x_rlp_address_nonce x (address caller) (ucast caller_nonce))) (\<lambda>keccak_input.
     bindE (assert (addr = ucast (x_keccak256 x keccak_input)) ''assertion failed'') (\<lambda>_. Inr keccak_input))"

definition created_fields :: "usize \<Rightarrow> Call \<Rightarrow> Call \<Rightarrow> Hash \<Rightarrow> (CallContextField \<times> Word) list" where
  "created_fields tid caller callee hash =
     [(CC_CallerId, of_nat (call_id caller)), (CC_IsSuccess, word_of_bool (is_success callee)),
      (CC_IsPersistent, word_of_bool (is_persistent callee)), (CC_TxId, of_nat tid),
      (CC_CallerAddress, ucast (caller_address callee)), (CC_CalleeAddress, ucast (address callee)),
      (CC_RwCounterEndOfReversion, of_nat (rw_counter_end_of_reversion callee)), (CC_Depth, of_nat (depth callee)),
      (CC_IsRoot, 0), (CC_IsStatic, 0), (CC_IsCreate, 1), (CC_CodeHash, hash)]"

definition create_failed :: "Externals \<Rightarrow> GethExecStep list \<Rightarrow> Call \<Rightarrow> step_state \<Rightarrow> step_state res" where
  "create_failed x steps caller ss =
     bindE (context_writes x (call_id caller) (last_callee_fields 0 0) ss) (handle_return x steps False)"

definition push_sha3_inputs :: "u8 list list \<Rightarrow> step_state \<Rightarrow> step_state" where
  "push_sha3_inputs inputs = (\<lambda>(step, st).
     (step, st\<lparr>cs_block := (cs_block st)\<lparr>bk_sha3_inputs := bk_sha3_inputs (cs_block st) @ inputs\<rparr>\<rparr>))"

definition create_success ::
  "Externals \<Rightarrow> bool \<Rightarrow> GethExecStep list \<Rightarrow> GethExecStep \<Rightarrow> Call \<Rightarrow> Call \<Rightarrow> u64 \<Rightarrow> Address \<Rightarrow> usize \<Rightarrow> usize \<Rightarrow> step_state \<Rightarrow>
     step_state res" where
  "create_success x is_create2 steps geth_step caller callee caller_nonce addr offset len ss =
     bindE (if 0 < len then
              bindE (cur_caller (snd ss)) (\<lambda>c. create_copy x (call_id c) offset len ss)
            else Inr ([], empty_code_hash (x_keccak256 x), ss)) (\<lambda>(initialization_code, hash, ss).
     bindE (create_keccak_input x is_create2 geth_step caller caller_nonce addr initialization_code hash) (\<lambda>keccak_input.
     bindE (transfer x (address caller) (address callee) False True (cl_value callee)
              (push_sha3_inputs [keccak_input, initialization_code] ss)) (\<lambda>ss.
     bindE (push_op_reversible x (account_op (address callee) AF_Nonce 1 0) ss) (\<lambda>ss.
     if 0 < len then context_writes x (call_id callee) (created_fields (tc_id (cs_tx_ctx (snd ss))) caller callee hash) ss
     else create_failed x steps caller ss))))"

definition gen_create :: "Externals \<Rightarrow> bool \<Rightarrow> handler" where
  "gen_create x is_create2 = with_new_step (\<lambda>steps geth_step (exec_step, st).
     bindE (parse_call x geth_step st) (\<lambda>(callee, st).
     bindE (cur_call st) (\<lambda>caller.
     bindE (context_reads x (call_id caller)
              [(CC_TxId, of_nat (tc_id (cs_tx_ctx st))), (CC_Depth, of_nat (depth caller))] (exec_step, st)) (\<lambda>ss.
     bindE (reversion_info_read x caller ss) (\<lambda>ss.
     bindE (stack_nth geth_step 1) (\<lambda>offset.
     bindE (stack_nth geth_step 2) (\<lambda>len.
     bindE (u256_as_usize len) (\<lambda>len.
     let offset = unat (low_u64 offset)
     in bindE (if len \<noteq> 0 then bindE (usize_add offset len) (\<lambda>e. memory_mut (extend_at_least e) ss) else Inr ss) (\<lambda>ss.
        bindE (call_ctx (cs_tx_ctx (snd ss))) (\<lambda>cx.
        bindE (create_stack x is_create2 geth_step callee ss) (\<lambda>(addr, ss).
        let callee_account = snd (get_account (x_keccak256 x) (cs_sdb (snd ss)) addr)
        in bindE (create_precheck x caller callee addr callee_account ss) (\<lambda>(is_precheck_ok, caller_nonce, ss).
           bindE (create_caller_context x is_create2 geth_step caller (cx_memory_word_size cx) ss) (\<lambda>ss.
           bindE (on_state (push_call callee) ss) (\<lambda>ss.
           bindE (reversion_info_write x callee ss) (\<lambda>ss.
           if is_precheck_ok \<and> is_empty (x_keccak256 x) callee_account
           then create_success x is_create2 steps geth_step caller callee caller_nonce addr offset len ss
           else create_failed x steps caller ss)))))))))))))))"

section \<open>Returning\<close>

definition return_copy ::
  "Externals \<Rightarrow> usize \<Rightarrow> usize \<Rightarrow> usize \<Rightarrow> usize \<Rightarrow> usize \<Rightarrow> usize \<Rightarrow> step_state \<Rightarrow> step_state res" where
  "return_copy x src_id src_offset src_length dst_id dst_offset dst_length ss =
     (let copy_length = min src_length dst_length
      in bindE (call_ctx (cs_tx_ctx (snd ss))) (\<lambda>cx.
         bindE (memory_slice (cx_memory cx) src_offset copy_length) (\<lambda>bytes.
         let rw_counter_start = cs_rwc (snd ss)
         in bindE (foldE (\<lambda>(i, byte) ss.
               bindE (usize_add src_offset i) (\<lambda>src.
               bindE (push_op x READ (OpMemory \<lparr>mem_call_id = src_id, mem_address = src, mem_value = byte\<rparr>) ss) (\<lambda>ss.
               bindE (usize_add dst_offset i) (\<lambda>dst.
               push_op x WRITE (OpMemory \<lparr>mem_call_id = dst_id, mem_address = dst, mem_value = byte\<rparr>) ss))))
               (enumerate 0 bytes) ss) (\<lambda>ss.
            bindE (usize_add src_offset src_length) (\<lambda>src_addr_end.
            push_copy \<lparr>ce_src_addr = of_nat src_offset, ce_src_addr_end = of_nat src_addr_end, ce_src_type = CDT_Memory,
               ce_src_id = Number src_id, ce_dst_addr = of_nat dst_offset, ce_dst_type = CDT_Memory,
               ce_dst_id = Number dst_id, ce_log_id = None, ce_rw_counter_start = rw_counter_start,
               ce_bytes = map (\<lambda>b. (b, False)) bytes\<rparr> ss)))))"

text \<open>Case A of the specification: a creation that succeeds stores its code.\<close>

definition return_created :: "Externals \<Rightarrow> Call \<Rightarrow> usize \<Rightarrow> usize \<Rightarrow> step_state \<Rightarrow> step_state res" where
  "return_created x call offset len ss =
     bindE (call_ctx (cs_tx_ctx (snd ss))) (\<lambda>cx.
     bindE (ok_or (nth_opt (cx_memory cx) offset) (Panic ''index out of bounds'')) (\<lambda>init_code_first_byte.
     bindE (memory_read x offset init_code_first_byte ss) (\<lambda>ss.
     bindE (assert (init_code_first_byte \<noteq> INVALID_INIT_CODE_FIRST_BYTE) ''assertion failed'') (\<lambda>_.
     bindE (memory_slice (cx_memory cx) offset len) (\<lambda>values.
     bindE (copy_code_bytes x (call_id call) offset len values ss) (\<lambda>(hash, ss).
     bindE (context_reads x (call_id call)
              ([(CC_CallerId, of_nat (caller_id call)), (CC_CalleeAddress, ucast (address call))] @ reversion_info_fields call) ss) (\<lambda>ss.
     push_op_reversible x (account_op (address call) AF_CodeHash hash (empty_code_hash (x_keccak256 x))) ss)))))))"

text \<open>Case D: the returned bytes go to the memory of the caller.\<close>

definition return_to_memory :: "Externals \<Rightarrow> Call \<Rightarrow> usize \<Rightarrow> usize \<Rightarrow> step_state \<Rightarrow> step_state res" where
  "return_to_memory x call offset len ss =
     bindE (context_reads x (call_id call) [(CC_ReturnDataOffset, ucast (return_data_offset call)),
              (CC_ReturnDataLength, ucast (return_data_length call))] ss) (\<lambda>ss.
     let rd_length = unat (return_data_length call); copy_length = min rd_length len;
         return_offset = unat (return_data_offset call)
     in if 0 < copy_length then
          bindE (call_ctx (cs_tx_ctx (snd ss))) (\<lambda>cx.
          bindE (if length (tc_calls (cs_tx_ctx (snd ss))) < 2
                 then Inl (Err (InternalError ''caller id not found in call map''))
                 else Inr (tc_calls (cs_tx_ctx (snd ss)) ! (length (tc_calls (cs_tx_ctx (snd ss))) - 2))) (\<lambda>caller.
          bindE (memory_slice (cx_memory cx) offset copy_length) (\<lambda>bytes.
          bindE (write_slice return_offset bytes (cx_memory caller)) (\<lambda>mem.
          bindE (on_state (caller_ctx_mut (\<lambda>cx. cx\<lparr>cx_memory := mem\<rparr>)) ss) (\<lambda>ss.
          return_copy x (call_id call) offset len (caller_id call) return_offset rd_length ss)))))
        else Inr ss)"

definition gen_return_revert :: "Externals \<Rightarrow> handler" where
  "gen_return_revert x = with_new_step (\<lambda>steps geth_step ss.
     bindE (pop_read x geth_step 0 ss) (\<lambda>(offset, ss).
     bindE (pop_read x geth_step 1 ss) (\<lambda>(len, ss).
     bindE (if len \<noteq> 0 then bindE (u64_add (low_u64 offset) (low_u64 len)) (\<lambda>e. memory_mut (extend_at_least (unat e)) ss)
            else Inr ss) (\<lambda>ss.
     bindE (cur_call (snd ss)) (\<lambda>call.
     bindE (context_reads x (call_id call) [(CC_IsSuccess, word_of_bool (is_success call))] ss) (\<lambda>ss.
     bindE (u256_as_usize len) (\<lambda>len.
     let offset = unat (low_u64 offset)
     in bindE (if is_create call \<and> is_success call \<and> 0 < len then return_created x call offset len ss else Inr ss) (\<lambda>ss.
        bindE (if is_root call
               then context_reads x (call_id call) [(CC_IsPersistent, word_of_bool (is_persistent call))] ss else Inr ss) (\<lambda>ss.
        bindE (if \<not> is_root call then handle_restore_context x steps ss else Inr ss) (\<lambda>ss.
        bindE (if \<not> is_root call \<and> \<not> is_create call then return_to_memory x call offset len ss else Inr ss) (\<lambda>ss.
        handle_return x steps False ss)))))))))))"

definition gen_stop :: "Externals \<Rightarrow> handler" where
  "gen_stop x = with_new_step (\<lambda>steps geth_step ss.
     bindE (cur_call (snd ss)) (\<lambda>call.
     bindE (context_reads x (call_id call) [(CC_IsSuccess, 1)] ss) (handle_return x steps (\<not> is_root call))))"

definition gen_selfdestruct :: "Externals \<Rightarrow> handler" where
  "gen_selfdestruct x = with_new_step (\<lambda>steps geth_step ss.
     bindE (cur_call (snd ss)) (\<lambda>call.
     bindE (eth_err (stack_last (gs_stack geth_step))) (\<lambda>top.
     let sender = address call; receiver = to_address top; k = x_keccak256 x
     in bindE (tx_access_list_write x receiver ss) (\<lambda>ss.
        let (sender_found, sender_account) = get_account k (cs_sdb (snd ss)) sender
        in if \<not> fst (get_account k (cs_sdb (snd ss)) receiver) then Inl (Err (AccountNotFound receiver))
           else if \<not> sender_found then Inl (Err (AccountNotFound sender))
           else
             bindE (transfer x sender receiver True False (balance sender_account) ss) (\<lambda>(step, st).
             let st = (if is_persistent call then st\<lparr>cs_sdb := destruct_account sender (cs_sdb st)\<rparr> else st)
             in handle_return x steps False (step, st))))))"

end
