(* ===== verification/Tx_Handlers.thy ===== *)
theory Tx_Handlers
  imports Call_Handlers Builder
begin

text \<open>
  The steps at the beginning and the end of a transaction (\<^verbatim>\<open>begin_end_tx.rs\<close>), the handlers of the steps that end in
  an error (\<^verbatim>\<open>error_*.rs\<close>), and the choice of the handler (\<^verbatim>\<open>opcodes.rs\<close>), all under
  \<^verbatim>\<open>bus-mapping/src/evm/\<close>. \<open>opcode_handlers\<close> is what \<open>handle_tx\<close> of the builder is run with.
\<close>

section \<open>Beginning and end of a transaction\<close>

definition unimplemented :: "Externals \<Rightarrow> string \<Rightarrow> unit res" where
  "unimplemented x m = (if x_warn_unimplemented x then Inr () else Inl (Panic m))"

definition root_fields :: "Call \<Rightarrow> Word \<Rightarrow> Word \<Rightarrow> bool \<Rightarrow> Hash \<Rightarrow> (CallContextField \<times> Word) list" where
  "root_fields call callee_address cd_length create hash =
     [(CC_Depth, of_nat (depth call)), (CC_CallerAddress, ucast (caller_address call)), (CC_CalleeAddress, callee_address),
      (CC_CallDataOffset, ucast (call_data_offset call)), (CC_CallDataLength, cd_length), (CC_Value, cl_value call),
      (CC_IsStatic, word_of_bool (is_static call)), (CC_LastCalleeId, 0), (CC_LastCalleeReturnDataOffset, 0),
      (CC_LastCalleeReturnDataLength, 0), (CC_IsRoot, 1), (CC_IsCreate, word_of_bool create), (CC_CodeHash, hash)]"

definition intrinsic_gas :: "GethTransaction \<Rightarrow> u64 res" where
  "intrinsic_gas tx =
     bindE (if tx_is_create tx then
              bindE (u64_add (of_nat (length (gx_call_data tx))) 31) (\<lambda>n. u64_mul (n div 32) INIT_CODE_WORD_GAS)
            else Inr 0) (\<lambda>init_code_gas_cost.
     bindE (call_data_gas_cost tx) (\<lambda>data.
     bindE (u64_add (if tx_is_create tx then GasCost_CREATION_TX else GasCost_TX) data) (\<lambda>g.
     u64_add g init_code_gas_cost)))"

text \<open>The addresses that are warm from the start: sender, receiver, coinbase.\<close>

definition warm_address :: "Externals \<Rightarrow> Address \<Rightarrow> step_state \<Rightarrow> step_state res" where
  "warm_address x addr = (\<lambda>(step, st).
     let (inserted, sdb) = add_account_to_access_list addr (cs_sdb st)
     in tx_accesslist_account_write x (tc_id (cs_tx_ctx st)) addr True (\<not> inserted) (step, st\<lparr>cs_sdb := sdb\<rparr>))"

definition begin_tx_call :: "Externals \<Rightarrow> Call \<Rightarrow> Word \<Rightarrow> u64 \<Rightarrow> bool \<Rightarrow> step_state \<Rightarrow> step_state res" where
  "begin_tx_call x call callee_code_hash nonce_prev is_empty_code_hash ss =
     (if is_create call then
        bindE (push_op_reversible x (account_op (address call) AF_Nonce 1 0) ss) (\<lambda>ss.
        context_writes x (call_id call)
          (root_fields call (ucast (x_get_contract_address x (caller_address call) (ucast nonce_prev)))
             (of_nat (length (gx_call_data (tx_tx (cs_tx (snd ss)))))) True (cl_code_hash call)) ss)
      else if is_precompiled (address call) then
        bindE (unimplemented x ''Call to precompiled is left unimplemented'') (\<lambda>_. Inr ss)
      else if is_empty_code_hash then Inr ss
      else context_writes x (call_id call)
             (root_fields call (ucast (address call)) (ucast (call_data_length call)) False callee_code_hash) ss)"

definition begin_tx_body :: "Externals \<Rightarrow> Call \<Rightarrow> step_state \<Rightarrow> step_state res" where
  "begin_tx_body x call ss =
     (let k = x_keccak256 x; nonce_prev = nonce (snd (get_account k (cs_sdb (snd ss)) (caller_address call)))
     in bindE (u64_add nonce_prev 1) (\<lambda>nonce_next.
        bindE (account_write x (caller_address call) AF_Nonce (ucast nonce_next) (ucast nonce_prev) ss) (\<lambda>ss.
        bindE (foldE (warm_address x) [caller_address call, address call, bk_coinbase (cs_block (snd ss))] ss) (\<lambda>(step, st).
        bindE (intrinsic_gas (tx_tx (cs_tx st))) (\<lambda>gas_cost.
        let ss = (step\<lparr>es_gas_cost := gas_cost\<rparr>, st);
            callee_exists = (\<not> is_empty k (snd (get_account k (cs_sdb st) (address call))));
            callee_code_hash = (if callee_exists then cl_code_hash call else 0);
            is_empty_code_hash = (if callee_exists then cl_code_hash call = empty_code_hash k else True)
        in bindE (if \<not> is_precompiled (address call) \<and> \<not> is_create call
                  then account_read x (address call) AF_CodeHash callee_code_hash ss else Inr ss) (\<lambda>ss.
           bindE (u256_mul (gx_gas_price (tx_tx (cs_tx (snd ss)))) (ucast (gx_gas_limit (tx_tx (cs_tx (snd ss)))))) (\<lambda>fee.
           bindE (transfer_with_fee x (caller_address call) (address call) callee_exists (is_create call) (cl_value call)
                    (Some fee) ss) (\<lambda>ss.
           let ss = (if tx_is_create (tx_tx (cs_tx (snd ss)))
                     then push_sha3_inputs [x_rlp_address_nonce x (caller_address call) (ucast nonce_prev)] ss else ss)
           in begin_tx_call x call callee_code_hash nonce_prev is_empty_code_hash ss))))))))"

definition gen_begin_tx_steps :: "Externals \<Rightarrow> CircuitInputState \<Rightarrow> (ExecStep \<times> CircuitInputState) res" where
  "gen_begin_tx_steps x st =
     bindE (cur_call st) (\<lambda>call.
     bindE (context_writes x (call_id call)
              (tx_reversion_fields st call @ [(CC_IsSuccess, word_of_bool (is_success call))]) (new_begin_tx_step st, st))
       (begin_tx_body x call))"

text \<open>The payments at the end: the sender gets the gas left and the refund back, the coinbase the tip.\<close>

definition end_tx_payments :: "Externals \<Rightarrow> Call \<Rightarrow> u64 \<Rightarrow> u64 \<Rightarrow> step_state \<Rightarrow> step_state res" where
  "end_tx_payments x call gas_used refund_value ss =
     (let k = x_keccak256 x; tx = tx_tx (cs_tx (snd ss)); coinbase = bk_coinbase (cs_block (snd ss));
          effective_refund = min refund_value (gas_used div of_nat MAX_REFUND_QUOTIENT_OF_GAS_USED);
          (found, caller_account) = get_account k (cs_sdb (snd ss)) (caller_address call)
      in if \<not> found then Inl (Err (AccountNotFound (caller_address call)))
         else
           bindE (u64_add (es_gas_left (fst ss)) effective_refund) (\<lambda>g.
           bindE (u256_mul (gx_gas_price tx) (ucast g)) (\<lambda>pay.
           bindE (u256_add (balance caller_account) pay) (\<lambda>caller_balance.
           bindE (account_write x (caller_address call) AF_Balance caller_balance (balance caller_account) ss) (\<lambda>ss.
           bindE (u256_sub (gx_gas_price tx) (bk_base_fee (cs_block (snd ss)))) (\<lambda>effective_tip.
           let (found, coinbase_account) = get_account k (cs_sdb (snd ss)) coinbase
           in if \<not> found then Inl (Err (AccountNotFound coinbase))
              else
                bindE (u256_mul effective_tip (ucast gas_used)) (\<lambda>coinbase_transfer_value.
                bindE (account_read x coinbase AF_CodeHash (visible_code_hash k coinbase_account) ss) (\<lambda>ss.
                transfer_to_irreversible x coinbase (\<not> is_empty k coinbase_account) False coinbase_transfer_value ss))))))))"

definition end_tx_receipt :: "Externals \<Rightarrow> Call \<Rightarrow> u64 \<Rightarrow> step_state \<Rightarrow> step_state res" where
  "end_tx_receipt x call gas_used ss =
     (let tid = tc_id (cs_tx_ctx (snd ss))
      in bindE (tx_receipt_write x tid RF_PostStateOrStatus (if is_persistent call then 1 else 0) ss) (\<lambda>ss.
         bindE (tx_receipt_write x tid RF_LogLength (of_nat (es_log_id (fst ss))) ss) (\<lambda>ss.
         bindE (if 1 < tid then tx_receipt_read x (tid - 1) RF_CumulativeGasUsed (bx_cumulative_gas_used (cs_block_ctx (snd ss))) ss
                else Inr ss) (\<lambda>(step, st).
         bindE (u64_add (bx_cumulative_gas_used (cs_block_ctx st)) gas_used) (\<lambda>total.
         bindE (tx_receipt_write x tid RF_CumulativeGasUsed total
                  (step, st\<lparr>cs_block_ctx := (cs_block_ctx st)\<lparr>bx_cumulative_gas_used := total\<rparr>\<rparr>)) (\<lambda>ss.
         if \<not> tc_is_last_tx (cs_tx_ctx (snd ss))
         then call_context_write x (cs_rwc (snd ss) + 1) CC_TxId (of_nat (tid + 1)) ss else Inr ss))))))"

definition end_tx_body :: "Externals \<Rightarrow> step_state \<Rightarrow> step_state res" where
  "end_tx_body x ss =
     bindE (nth_call (snd ss) 0) (\<lambda>call.
     let tid = tc_id (cs_tx_ctx (snd ss))
     in bindE (context_reads x (call_id call) [(CC_TxId, of_nat tid), (CC_IsPersistent, word_of_bool (is_persistent call))] ss) (\<lambda>ss.
        let refund_value = refund (cs_sdb (snd ss))
        in bindE (push_op x READ (OpTxRefund \<lparr>rfd_tx_id = tid, rfd_value = refund_value, rfd_value_prev = refund_value\<rparr>) ss) (\<lambda>ss.
           bindE (u64_sub (gx_gas_limit (tx_tx (cs_tx (snd ss)))) (es_gas_left (fst ss))) (\<lambda>gas_used.
           bindE (end_tx_payments x call gas_used refund_value ss) (end_tx_receipt x call gas_used)))))"

definition gen_end_tx_steps :: "Externals \<Rightarrow> CircuitInputState \<Rightarrow> (ExecStep \<times> CircuitInputState) res" where
  "gen_end_tx_steps x st = bindE (new_end_tx_step x st) (\<lambda>step. end_tx_body x (step, st))"

section \<open>Steps that end in an error\<close>

definition gen_error_simple :: "Externals \<Rightarrow> handler" where
  "gen_error_simple x = with_new_step (\<lambda>steps geth_step ss.
     bindE (unwrap (step_err x steps geth_step (snd ss))) (\<lambda>e. handle_return x steps True (set_error e ss)))"

definition gen_error_code_store :: "Externals \<Rightarrow> handler" where
  "gen_error_code_store x = with_new_step (\<lambda>steps geth_step ss.
     bindE (step_err x steps geth_step (snd ss)) (\<lambda>e.
     bindE (assert (e = Some CodeStoreOutOfGas \<or> e = Some MaxCodeSizeExceeded) ''assertion failed'') (\<lambda>_.
     bindE (pop_reads x geth_step 2 (set_error e ss)) (\<lambda>ss.
     bindE (cur_call (snd ss)) (\<lambda>call.
     bindE (context_reads x (call_id call) [(CC_IsStatic, word_of_bool (is_static call))] ss) (\<lambda>ss.
     bindE (assert (is_create call) ''assertion failed'') (\<lambda>_.
     handle_return x steps True ss)))))))"

definition gen_error_creation_code :: "Externals \<Rightarrow> handler" where
  "gen_error_creation_code x = with_new_step (\<lambda>steps geth_step ss.
     bindE (pop_read x geth_step 0 (set_error (Some InvalidCreationCode) ss)) (\<lambda>(offset, ss).
     bindE (pop_read x geth_step 1 ss) (\<lambda>(len, ss).
     bindE (cur_call (snd ss)) (\<lambda>call.
     bindE (assert (is_create call \<and> len \<noteq> 0) ''assertion failed'') (\<lambda>_.
     bindE (call_ctx (cs_tx_ctx (snd ss))) (\<lambda>cx.
     bindE (u256_as_usize offset) (\<lambda>i.
     bindE (ok_or (nth_opt (cx_memory cx) i) (Panic ''index out of bounds'')) (\<lambda>init_code_first_byte.
     bindE (eth_err (memory_address_try_from offset)) (\<lambda>addr.
     bindE (memory_read x addr init_code_first_byte ss) (\<lambda>ss.
     bindE (assert (init_code_first_byte = INVALID_INIT_CODE_FIRST_BYTE) ''assertion failed'') (\<lambda>_.
     handle_return x steps True ss)))))))))))"

definition gen_invalid_jump :: "Externals \<Rightarrow> handler" where
  "gen_invalid_jump x = with_new_step (\<lambda>steps geth_step ss.
     bindE (unwrap (step_err x steps geth_step (snd ss))) (\<lambda>e.
     bindE (assert (gs_op geth_step = Flow JUMP \<or> gs_op geth_step = Flow JUMPI) ''assertion failed'') (\<lambda>_.
     bindE (pop_reads x geth_step (if gs_op geth_step = Flow JUMPI then 2 else 1) (set_error e ss)) (\<lambda>ss.
     handle_return x steps True ss))))"

text \<open>The access list entry of an account or of a slot, read.\<close>

definition read_account_access :: "Externals \<Rightarrow> Address \<Rightarrow> step_state \<Rightarrow> step_state res" where
  "read_account_access x addr ss =
     (let is_warm = check_account_in_access_list (cs_sdb (snd ss)) addr
      in push_op x READ (OpTxAccessListAccount \<lparr>ala_tx_id = tc_id (cs_tx_ctx (snd ss)), ala_address = addr,
           ala_is_warm = is_warm, ala_is_warm_prev = is_warm\<rparr>) ss)"

definition gen_oog_account_access :: "Externals \<Rightarrow> handler" where
  "gen_oog_account_access x = with_new_step (\<lambda>steps geth_step ss.
     bindE (assert (gs_op geth_step \<in> {Ext BALANCE, Ext EXTCODESIZE, Ext EXTCODEHASH}) ''assertion failed'') (\<lambda>_.
     bindE (pop_read x geth_step 0 (set_error (Some (OutOfGas Oog_AccountAccess)) ss)) (\<lambda>(address_word, ss).
     bindE (cur_call (snd ss)) (\<lambda>call.
     bindE (context_reads x (call_id call) [(CC_TxId, of_nat (tc_id (cs_tx_ctx (snd ss))))] ss) (\<lambda>ss.
     bindE (read_account_access x (to_address address_word) ss) (handle_return x steps True))))))"

definition gen_oog_call :: "Externals \<Rightarrow> handler" where
  "gen_oog_call x = with_new_step (\<lambda>steps geth_step ss.
     bindE (if gs_op geth_step = Sys CALL \<or> gs_op geth_step = Sys CALLCODE then Inr 7
            else if gs_op geth_step = Sys DELEGATECALL \<or> gs_op geth_step = Sys STATICCALL then Inr 6
            else Inl (Panic ''internal error: entered unreachable code'')) (\<lambda>stack_input_num.
     bindE (unwrap (step_err x steps geth_step (snd ss))) (\<lambda>e.
     bindE (stack_nth geth_step 1) (\<lambda>address_word.
     bindE (cur_call (snd ss)) (\<lambda>current_call.
     bindE (context_reads x (call_id current_call)
              [(CC_TxId, of_nat (tc_id (cs_tx_ctx (snd ss)))), (CC_IsStatic, word_of_bool (is_static current_call))]
              (set_error e ss)) (\<lambda>ss.
     bindE (pop_reads x geth_step stack_input_num ss) (\<lambda>ss.
     bindE (write_slot x geth_step (stack_input_num - 1) 0 ss) (\<lambda>ss.
     let k = x_keccak256 x; call_address = to_address address_word
     in bindE (account_read x call_address AF_CodeHash
                 (visible_code_hash k (snd (get_account k (cs_sdb (snd ss)) call_address))) ss) (\<lambda>ss.
        bindE (read_account_access x call_address ss) (handle_return x steps True))))))))))"

definition gen_oog_exp :: "Externals \<Rightarrow> handler" where
  "gen_oog_exp x = with_new_step (\<lambda>steps geth_step ss.
     bindE (assert (gs_op geth_step = Arith EXP) ''assertion failed'') (\<lambda>_.
     bindE (pop_reads x geth_step 2 (set_error (Some (OutOfGas Oog_Exp)) ss)) (handle_return x steps True)))"

definition gen_oog_log :: "Externals \<Rightarrow> handler" where
  "gen_oog_log x = with_new_step (\<lambda>steps geth_step ss.
     bindE (step_err x steps geth_step (snd ss)) (\<lambda>e.
     bindE (assert (gs_op geth_step \<in> {Log LOG0, Log LOG1, Log LOG2, Log LOG3, Log LOG4}) ''assertion failed'') (\<lambda>_.
     bindE (pop_reads x geth_step 2 (set_error e ss)) (\<lambda>ss.
     bindE (cur_call (snd ss)) (\<lambda>call.
     bindE (context_reads x (call_id call) [(CC_IsStatic, word_of_bool (is_static call))] ss) (handle_return x steps True))))))"

definition gen_oog_memory_copy :: "Externals \<Rightarrow> handler" where
  "gen_oog_memory_copy x = with_new_step (\<lambda>steps geth_step ss.
     bindE (assert (gs_op geth_step \<in> {Flow CALLDATACOPY, Flow CODECOPY, Ext EXTCODECOPY, Ext RETURNDATACOPY}) ''assertion failed'') (\<lambda>_.
     let is_extcodecopy = (gs_op geth_step = Ext EXTCODECOPY); ss = set_error (Some (OutOfGas Oog_MemoryCopy)) ss
     in bindE (if is_extcodecopy then
                 bindE (cur_call (snd ss)) (\<lambda>call.
                 bindE (context_reads x (call_id call) [(CC_TxId, of_nat (tc_id (cs_tx_ctx (snd ss))))] ss) (\<lambda>ss.
                 bindE (eth_err (stack_last (gs_stack geth_step))) (\<lambda>top. read_account_access x (to_address top) ss)))
               else Inr ss) (\<lambda>ss.
        bindE (pop_reads x geth_step (if is_extcodecopy then 4 else 3) ss) (handle_return x steps True))))"

definition gen_oog_sload_sstore :: "Externals \<Rightarrow> handler" where
  "gen_oog_sload_sstore x = with_new_step (\<lambda>steps geth_step ss.
     bindE (assert (gs_op geth_step \<in> {Ext SLOAD, Ext SSTORE}) ''assertion failed'') (\<lambda>_.
     bindE (cur_call (snd ss)) (\<lambda>call.
     bindE (context_reads x (call_id call)
              [(CC_TxId, of_nat (tc_id (cs_tx_ctx (snd ss)))), (CC_IsStatic, word_of_bool (is_static call)),
               (CC_CalleeAddress, ucast (address call))] (set_error (Some (OutOfGas Oog_SloadSstore)) ss)) (\<lambda>ss.
     bindE (pop_read x geth_step 0 ss) (\<lambda>(key, ss).
     let is_warm = check_account_storage_in_access_list (cs_sdb (snd ss)) (address call, key)
     in bindE (push_op x READ (storage_access_op (snd ss) (address call) key is_warm is_warm) ss) (\<lambda>ss.
        bindE (if gs_op geth_step = Ext SSTORE then
                 bindE (pop_read x geth_step 1 ss) (\<lambda>(v, ss).
                 let v_prev = snd (get_storage (x_keccak256 x) (cs_sdb (snd ss)) (address call) key)
                 in push_op x READ (storage_op (x_keccak256 x) (snd ss) (address call) key v_prev v_prev) ss)
               else Inr ss) (handle_return x steps True)))))))"

definition gen_error_return_data_oob :: "Externals \<Rightarrow> handler" where
  "gen_error_return_data_oob x = with_new_step (\<lambda>steps geth_step ss.
     bindE (unwrap (step_err x steps geth_step (snd ss))) (\<lambda>e.
     bindE (assert (e = Some ReturnDataOutOfBounds) ''assertion failed'') (\<lambda>_.
     bindE (pop_read x geth_step 0 (set_error (Some ReturnDataOutOfBounds) ss)) (\<lambda>(memory_offset, ss).
     bindE (pop_read x geth_step 1 ss) (\<lambda>(data_offset, ss).
     bindE (pop_read x geth_step 2 ss) (\<lambda>(len, ss).
     bindE (cur_call (snd ss)) (\<lambda>call.
     bindE (call_ctx (cs_tx_ctx (snd ss))) (\<lambda>cx.
     bindE (assert (unat (last_callee_return_data_length call) = length (cx_return_data cx))
              ''callee return data size should be correct'') (\<lambda>_.
     let remainder_end = data_offset + len
     in bindE (assert (2 ^ 64 \<le> unat data_offset \<or> 2 ^ 64 \<le> unat remainder_end \<or>
                 ucast (last_callee_return_data_length call) < remainder_end) ''assertion failed'') (\<lambda>_.
        bindE (context_reads x (call_id call) [(CC_LastCalleeReturnDataLength, of_nat (length (cx_return_data cx)))] ss)
          (handle_return x steps True)))))))))))"

definition gen_error_write_protection :: "Externals \<Rightarrow> handler" where
  "gen_error_write_protection x = with_new_step (\<lambda>steps geth_step ss.
     bindE (unwrap (step_err x steps geth_step (snd ss))) (\<lambda>e.
     bindE (assert (e = Some WriteProtection) ''assertion failed'') (\<lambda>_.
     bindE (cur_call (snd ss)) (\<lambda>current_call.
     bindE (assert (gs_op geth_step \<in> {Ext SSTORE, Sys CREATE, Sys CREATE2, Sys CALL, Sys SELFDESTRUCT,
              Log LOG0, Log LOG1, Log LOG2, Log LOG3, Log LOG4}) ''assertion failed'') (\<lambda>_.
     bindE (pop_reads x geth_step (if gs_op geth_step = Sys CALL then 3 else 0) (set_error e ss)) (\<lambda>ss.
     bindE (context_reads x (call_id current_call) [(CC_IsStatic, word_of_bool (is_static current_call))] ss)
       (handle_return x steps True)))))))"

section \<open>The choice of the handler\<close>

text \<open>\<open>None\<close>: no handler for the error; the caller goes on without one.\<close>

definition fn_gen_error_state_associated_ops ::
  "Externals \<Rightarrow> GethExecStep \<Rightarrow> ExecError \<Rightarrow> handler option res" where
  "fn_gen_error_state_associated_ops x geth_step error = (case error of
      InvalidJump \<Rightarrow> Inr (Some (gen_invalid_jump x))
    | InvalidOpcode \<Rightarrow> Inr (Some (gen_error_simple x))
    | OutOfGas oog \<Rightarrow> (case oog of
          Oog_Call \<Rightarrow> Inr (Some (gen_oog_call x))
        | Oog_Constant \<Rightarrow> Inr (Some (gen_error_simple x))
        | Oog_Create \<Rightarrow>
            if gs_op geth_step = Sys CREATE then Inr (Some (stack_only x 3 0 True))
            else if gs_op geth_step = Sys CREATE2 then Inr (Some (stack_only x 4 0 True))
            else Inl (Panic ''internal error: entered unreachable code'')
        | Oog_Exp \<Rightarrow> Inr (Some (gen_oog_exp x))
        | Oog_Log \<Rightarrow> Inr (Some (gen_oog_log x))
        | Oog_MemoryCopy \<Rightarrow> Inr (Some (gen_oog_memory_copy x))
        | Oog_DynamicMemoryExpansion \<Rightarrow> Inr (Some (stack_only x 2 0 True))
        | Oog_StaticMemoryExpansion \<Rightarrow> Inr (Some (stack_only x 1 0 True))
        | Oog_SloadSstore \<Rightarrow> Inr (Some (gen_oog_sload_sstore x))
        | Oog_AccountAccess \<Rightarrow> Inr (Some (gen_oog_account_access x))
        | Oog_Sha3 \<Rightarrow> Inr (Some (stack_only x 2 0 True))
        | _ \<Rightarrow> bindE (unimplemented x ''error state not implemented'') (\<lambda>_. Inr None))
    | StackOverflow \<Rightarrow> Inr (Some (gen_error_simple x))
    | StackUnderflow \<Rightarrow> Inr (Some (gen_error_simple x))
    | InsufficientBalance IB_Call \<Rightarrow> Inr (Some (gen_call x 7))
    | InsufficientBalance IB_Create \<Rightarrow> Inr (Some (gen_create x False))
    | InsufficientBalance IB_Create2 \<Rightarrow> Inr (Some (gen_create x True))
    | ContractAddressCollision \<Rightarrow> Inr (Some (gen_create x True))
    | NonceUintOverflow NO_Create \<Rightarrow> Inr (Some (gen_create x False))
    | NonceUintOverflow NO_Create2 \<Rightarrow> Inr (Some (gen_create x True))
    | WriteProtection \<Rightarrow> Inr (Some (gen_error_write_protection x))
    | ReturnDataOutOfBounds \<Rightarrow> Inr (Some (gen_error_return_data_oob x))
    | InvalidCreationCode \<Rightarrow> Inr (Some (gen_error_creation_code x))
    | Depth DE_Call \<Rightarrow> Inr (Some (gen_call x 7))
    | Depth DE_Create \<Rightarrow> Inr (Some (gen_create x False))
    | Depth DE_Create2 \<Rightarrow> Inr (Some (gen_create x True))
    | CodeStoreOutOfGas \<Rightarrow> Inr (Some (gen_error_code_store x))
    | MaxCodeSizeExceeded \<Rightarrow> Inr (Some (gen_error_code_store x)))"

text \<open>The number of words an opcode of the stack pops and pushes.\<close>

definition stack_effect :: "OpcodeId \<Rightarrow> (usize \<times> usize) option" where
  "stack_effect op = (case op of
      Arith o' \<Rightarrow>
        (if o' = STOP \<or> o' = EXP then None
         else if o' = ADDMOD \<or> o' = MULMOD then Some (3, 1)
         else if o' = ISZERO \<or> o' = NOT then Some (1, 1)
         else Some (2, 1))
    | Push _ \<Rightarrow> Some (0, 1)
    | Ext o' \<Rightarrow>
        (if o' = BLOCKHASH then Some (1, 1)
         else if o' \<in> {COINBASE, TIMESTAMP, NUMBER, DIFFICULTY, GASLIMIT, CHAINID, BASEFEE, GAS} then Some (0, 1)
         else None)
    | Flow o' \<Rightarrow>
        (if o' = POP \<or> o' = JUMP then Some (1, 0)
         else if o' = JUMPI then Some (2, 0)
         else if o' = PC \<or> o' = MSIZE then Some (0, 1)
         else None)
    | _ \<Rightarrow> None)"

definition fn_gen_associated_ops :: "Externals \<Rightarrow> OpcodeId \<Rightarrow> handler res" where
  "fn_gen_associated_ops x opcode_id = (case stack_effect opcode_id of
      Some (n_pop, n_push) \<Rightarrow> Inr (stack_only x n_pop n_push False)
    | None \<Rightarrow> (case opcode_id of
          Arith STOP \<Rightarrow> Inr (gen_stop x)
        | Arith EXP \<Rightarrow> Inr (gen_exp x)
        | Ext SHA3 \<Rightarrow> Inr (gen_sha3 x)
        | Ext ADDRESS \<Rightarrow> Inr (gen_address x)
        | Ext BALANCE \<Rightarrow> Inr (gen_balance x)
        | Ext ORIGIN \<Rightarrow> Inr (gen_origin x)
        | Ext CALLER \<Rightarrow> Inr (gen_caller x)
        | Ext CALLVALUE \<Rightarrow> Inr (gen_callvalue x)
        | Ext GASPRICE \<Rightarrow> Inr (gen_gasprice x)
        | Ext EXTCODESIZE \<Rightarrow> Inr (gen_extcodesize x)
        | Ext EXTCODECOPY \<Rightarrow> Inr (gen_extcodecopy x)
        | Ext EXTCODEHASH \<Rightarrow> Inr (gen_extcodehash x)
        | Ext RETURNDATASIZE \<Rightarrow> Inr (gen_returndatasize x)
        | Ext RETURNDATACOPY \<Rightarrow> Inr (gen_returndatacopy x)
        | Ext SELFBALANCE \<Rightarrow> Inr (gen_selfbalance x)
        | Ext SLOAD \<Rightarrow> Inr (gen_sload x)
        | Ext SSTORE \<Rightarrow> Inr (gen_sstore x)
        | Flow CALLDATASIZE \<Rightarrow> Inr (gen_calldatasize x)
        | Flow CALLDATALOAD \<Rightarrow> Inr (gen_calldataload x)
        | Flow CALLDATACOPY \<Rightarrow> Inr (gen_calldatacopy x)
        | Flow CODECOPY \<Rightarrow> Inr (gen_codecopy x)
        | Flow CODESIZE \<Rightarrow> Inr (gen_codesize x)
        | Flow MLOAD \<Rightarrow> Inr (gen_mload x)
        | Flow MSTORE \<Rightarrow> Inr (gen_mstore x False)
        | Flow MSTORE8 \<Rightarrow> Inr (gen_mstore x True)
        | Flow JUMPDEST \<Rightarrow> Inr (gen_dummy x)
        | Dup _ \<Rightarrow> bindE (ok_or (postfix opcode_id) (Panic ''no postfix'')) (\<lambda>n. Inr (gen_dup x (unat n)))
        | Swap _ \<Rightarrow> bindE (ok_or (postfix opcode_id) (Panic ''no postfix'')) (\<lambda>n. Inr (gen_swap x (unat n)))
        | Log _ \<Rightarrow> Inr (gen_log x)
        | Sys CALL \<Rightarrow> Inr (gen_call x 7)
        | Sys CALLCODE \<Rightarrow> Inr (gen_call x 7)
        | Sys DELEGATECALL \<Rightarrow> Inr (gen_call x 6)
        | Sys STATICCALL \<Rightarrow> Inr (gen_call x 6)
        | Sys CREATE \<Rightarrow> Inr (gen_create x False)
        | Sys CREATE2 \<Rightarrow> Inr (gen_create x True)
        | Sys RETURN \<Rightarrow> Inr (gen_return_revert x)
        | Sys REVERT \<Rightarrow> Inr (gen_return_revert x)
        | Sys SELFDESTRUCT \<Rightarrow>
            bindE (unimplemented x ''Using dummy gen_selfdestruct_ops for opcode SELFDESTRUCT'') (\<lambda>_. Inr (gen_selfdestruct x))
        | _ \<Rightarrow> bindE (unimplemented x ''Using dummy gen_associated_ops for opcode'') (\<lambda>_. Inr (gen_dummy x))))"

text \<open>A step that ends in an error no handler is implemented for.\<close>

definition gen_unhandled_error :: "Externals \<Rightarrow> GethExecStep list \<Rightarrow> GethExecStep \<Rightarrow> step_state \<Rightarrow> (ExecStep list \<times> CircuitInputState) res" where
  "gen_unhandled_error x steps geth_step ss =
     bindE (if is_call_or_create (gs_op geth_step) then
              bindE (parse_call x geth_step (snd ss)) (\<lambda>(call, st).
              bindE (push_call call st) (\<lambda>st. Inr (False, fst ss, st)))
            else Inr (True, ss)) (\<lambda>(need_restore, ss).
     bindE (handle_return x steps need_restore ss) (\<lambda>(step, st). Inr ([step], st)))"

definition gen_associated_ops :: "Externals \<Rightarrow> OpcodeId \<Rightarrow> handler" where
  "gen_associated_ops x opcode_id steps st =
     bindE (if \<not> list_all (\<lambda>s. gs_memory s = []) steps then
              bindE (call_ctx (cs_tx_ctx st)) (\<lambda>cx.
              bindE (step_at steps 0) (\<lambda>s. assert (cx_memory cx = gs_memory s) ''last step goes wrong''))
            else Inr ()) (\<lambda>_.
     bindE (step_at steps 0) (\<lambda>geth_step.
     bindE (new_step st geth_step) (\<lambda>exec_step.
     bindE (unwrap (step_err x steps geth_step st)) (\<lambda>err. case err of
         Some exec_error \<Rightarrow>
           bindE (fn_gen_error_state_associated_ops x geth_step exec_error) (\<lambda>fn. case fn of
               Some fn_gen_error_ops \<Rightarrow> fn_gen_error_ops steps st
             | None \<Rightarrow> gen_unhandled_error x steps geth_step (set_error (Some exec_error) (exec_step, st)))
       | None \<Rightarrow> bindE (fn_gen_associated_ops x opcode_id) (\<lambda>fn. fn steps st)))))"

definition gen_associated_steps :: "Externals \<Rightarrow> ExecState \<Rightarrow> CircuitInputState \<Rightarrow> (ExecStep \<times> CircuitInputState) res" where
  "gen_associated_steps x execution_step st = (case execution_step of
       ES_BeginTx \<Rightarrow> gen_begin_tx_steps x st
     | ES_EndTx \<Rightarrow> gen_end_tx_steps x st
     | _ \<Rightarrow> Inl (Panic ''internal error: entered unreachable code''))"

text \<open>The handlers the builder is run with.\<close>

definition opcode_handlers :: "Externals \<Rightarrow> Handlers" where
  "opcode_handlers x = \<lparr>hd_begin_tx = gen_associated_steps x ES_BeginTx, hd_ops = gen_associated_ops x,
     hd_end_tx = gen_associated_steps x ES_EndTx\<rparr>"

end
