(* ===== verification/Handler_Steps.thy ===== *)
theory Handler_Steps
  imports Builder_Step Tx_Handlers
begin

text \<open>
  The contract between the handlers and the operations they are made of. \<open>push_contract\<close> is what a client that only
  pushes operations relies on, \<open>step_contract\<close> adds entering and leaving a call. Every handler, the beginning and the
  end of a transaction included, keeps a property that satisfies the contract; the reachability by \<open>builder_step\<close>
  satisfies it, so a handler is a sequence of builder steps.
\<close>

named_theorems ok_rules \<open>one rule per operation and per construct of a handler\<close>

definition ok :: "('a \<Rightarrow> bool) \<Rightarrow> 'a res \<Rightarrow> bool" where
  "ok Q m = (case m of Inr v \<Rightarrow> Q v | Inl _ \<Rightarrow> True)"

lemma ok_Inr [simp]: "ok Q (Inr v) = Q v"
  by (simp add: ok_def)

lemma ok_Inl [simp]: "ok Q (Inl e)"
  by (simp add: ok_def)

lemma okD: "ok Q m \<Longrightarrow> m = Inr v \<Longrightarrow> Q v"
  by (simp add: ok_def)

lemma okI: "(\<And>v. m = Inr v \<Longrightarrow> Q v) \<Longrightarrow> ok Q m"
  by (simp add: ok_def split: sum.split)

lemma ok_bind: "ok P m \<Longrightarrow> (\<And>v. m = Inr v \<Longrightarrow> P v \<Longrightarrow> ok Q (f v)) \<Longrightarrow> ok Q (bindE m f)"
  by (cases m) (auto simp: ok_def)

lemma ok_mono: "ok P m \<Longrightarrow> (\<And>v. P v \<Longrightarrow> Q v) \<Longrightarrow> ok Q m"
  by (auto simp: ok_def split: sum.splits)

lemma ok_bind_pure: "(\<And>v. ok Q (f v)) \<Longrightarrow> ok Q (bindE m f)"
  by (cases m) (auto simp: ok_def)

lemma ok_if: "(b \<Longrightarrow> ok Q m) \<Longrightarrow> (\<not> b \<Longrightarrow> ok Q n) \<Longrightarrow> ok Q (if b then m else n)"
  by simp

lemma ok_let: "ok Q (f v) \<Longrightarrow> ok Q (Let v f)"
  by simp

lemma ok_split: "ok Q (f a b) \<Longrightarrow> ok Q (case (a, b) of (a, b) \<Rightarrow> f a b)"
  by simp

lemma ok_split_fun: "(\<And>a b. ok Q (f a b s)) \<Longrightarrow> ok Q ((case p of (a, b) \<Rightarrow> f a b) s)"
  by (cases p) simp

lemma ok_prod: "(\<And>a b. ok Q (f a b)) \<Longrightarrow> ok Q (case p of (a, b) \<Rightarrow> f a b)"
  by (cases p) simp

lemma ok_option: "(v = None \<Longrightarrow> ok Q m) \<Longrightarrow> (\<And>w. v = Some w \<Longrightarrow> ok Q (f w)) \<Longrightarrow> ok Q (case v of None \<Rightarrow> m | Some w \<Rightarrow> f w)"
  by (cases v) simp_all

lemma ok_foldE: "P s \<Longrightarrow> (\<And>y s. P s \<Longrightarrow> ok P (f y s)) \<Longrightarrow> ok P (foldE f ys s)"
proof (induction ys arbitrary: s)
  case (Cons y ys)
  then show ?case by (auto intro!: ok_bind [where P = P])
qed simp

lemma map_map_last: "(xs \<noteq> [] \<Longrightarrow> f (g (last xs)) = f (last xs)) \<Longrightarrow> map f (map_last g xs) = map f xs"
  by (cases xs rule: rev_cases) (simp_all add: map_last_def)

text \<open>The result of a handler: one step, and a state that goes with it.\<close>

definition one_step :: "(step_state \<Rightarrow> bool) \<Rightarrow> ExecStep list \<times> CircuitInputState \<Rightarrow> bool" where
  "one_step I = (\<lambda>(steps, st). \<exists>step. steps = [step] \<and> I (step, st))"

section \<open>Pushing operations\<close>

locale push_contract =
  fixes x :: Externals and I :: "step_state \<Rightarrow> bool"
  assumes push: "I ss \<Longrightarrow> op_target op \<noteq> TStart \<Longrightarrow> ok I (push_op x rw op ss)"
    and push_reversible: "I ss \<Longrightarrow> ok I (push_op_reversible x op ss)"
    and local: "I (step, st) \<Longrightarrow> op_key st' = op_key st \<Longrightarrow> I (step', st')"
begin

lemma bind_step: "ok I m \<Longrightarrow> (\<And>step st. I (step, st) \<Longrightarrow> ok Q (f (step, st))) \<Longrightarrow> ok Q (bindE m f)"
  by (erule ok_bind) auto

lemma bind_pair: "ok (\<lambda>(_, ss). I ss) m \<Longrightarrow> (\<And>v ss. I ss \<Longrightarrow> ok Q (f (v, ss))) \<Longrightarrow> ok Q (bindE m f)"
  by (erule ok_bind) auto

lemma bind_triple: "ok (\<lambda>(_, _, ss). I ss) m \<Longrightarrow> (\<And>u v ss. I ss \<Longrightarrow> ok Q (f (u, v, ss))) \<Longrightarrow> ok Q (bindE m f)"
  by (erule ok_bind) auto

lemma results:
  "I ss \<Longrightarrow> ok I (Inr ss)" "I ss \<Longrightarrow> ok (\<lambda>(_, ss). I ss) (Inr (v, ss))" "I ss \<Longrightarrow> ok (\<lambda>(_, _, ss). I ss) (Inr (u, v, ss))"
  "ok Q (Inl e)"
  by simp_all

lemma keep_step: "I (step, st) \<Longrightarrow> I (step', st)"
  by (rule local) simp_all

lemma loop_pair:
  "I ss \<Longrightarrow> (\<And>y v ss. I ss \<Longrightarrow> ok (\<lambda>(_, ss). I ss) (f y (v, ss))) \<Longrightarrow> ok (\<lambda>(_, ss). I ss) (foldE f ys (v, ss))"
  by (rule ok_foldE) auto

lemma loop_step: "I ss \<Longrightarrow> (\<And>y ss. I ss \<Longrightarrow> ok I (f y ss)) \<Longrightarrow> ok I (foldE f ys ss)"
  by (rule ok_foldE)

lemmas control = bind_step bind_pair bind_triple ok_bind_pure ok_if ok_let results loop_step loop_pair ok_split ok_split_fun
  ok_option ok_prod

lemma pushes:
  assumes "I ss"
  shows "ok I (call_context_read x cid field v ss)" "ok I (call_context_write x cid field v ss)"
    "ok I (memory_read x addr b ss)" "ok I (memory_write x addr b ss)"
    "ok I (stack_read x a v ss)" "ok I (stack_write x a v ss)"
    "ok I (account_read x acc af v ss)" "ok I (account_write x acc af v v' ss)"
    "ok I (tx_log_write x tid lid lf i v ss)" "ok I (tx_receipt_read x tid rf w ss)" "ok I (tx_receipt_write x tid rf w ss)"
    "ok I (tx_accesslist_account_write x tid acc is_warm is_warm_prev ss)"
    "ok I (push_op x rw (OpMemory mo) ss)" "ok I (push_op x rw (OpTxRefund ro) ss)" "ok I (push_op x rw (OpTxAccessListAccount ao) ss)"
    "ok I (push_op x rw (storage_op k st acc key v v') ss)" "ok I (push_op x rw (storage_access_op st acc key is_warm is_warm_prev) ss)"
    "ok I (push_op x rw (account_op acc af v v') ss)"
  using push [OF assms]
  by (simp_all add: op_target_def storage_op_def storage_access_op_def account_op_def call_context_read_def call_context_write_def memory_read_def memory_write_def stack_read_def
      stack_write_def account_read_def account_write_def tx_log_write_def tx_receipt_read_def tx_receipt_write_def
      tx_accesslist_account_write_def ok_bind_pure)

lemma access_list_write: "I ss \<Longrightarrow> ok I (tx_access_list_write x acc ss)"
  unfolding tx_access_list_write_def by (rule push_reversible)

lemmas ops = push_reversible pushes access_list_write

lemma stack_accesses:
  assumes "I ss"
  shows "ok (\<lambda>(_, ss). I ss) (pop_read x geth i ss)" "ok I (write_above x geth v ss)" "ok I (write_slot x geth i v ss)"
  unfolding pop_read_def write_above_def write_slot_def by (rule control ops assms | assumption)+

lemma pop_reads: "I ss \<Longrightarrow> ok I (pop_reads x geth n ss)"
  unfolding pop_reads_def by (rule control stack_accesses | assumption)+

lemma context_ops:
  assumes "I ss"
  shows "ok I (context_reads x cid fs ss)" "ok I (context_writes x cid fs ss)"
    "ok I (reversion_info_read x call ss)" "ok I (reversion_info_write x call ss)"
  unfolding context_reads_def context_writes_def reversion_info_read_def reversion_info_write_def
  by (rule control ops assms | assumption)+

lemma memory_mut: "I ss \<Longrightarrow> ok I (memory_mut f ss)"
  unfolding memory_mut_def
  by (cases ss) (auto simp: call_ctx_mut_def op_key_def stack_key_def map_map_last intro!: okI split: if_splits elim!: local)

lemma push_copy: "I ss \<Longrightarrow> ok I (push_copy ev ss)"
  unfolding push_copy_def
  by (cases ss) (auto simp: op_key_def stack_key_def add_copy_event_def intro!: okI elim!: local)

lemma state_updates:
  assumes "I (step, st)"
  shows "I (step', st\<lparr>cs_block := (cs_block st)\<lparr>bk_sha3_inputs := v\<rparr>\<rparr>)"
    and "I (step', push_exponentiation ev st)"
    and "I (step', st\<lparr>cs_tx_ctx := (cs_tx_ctx st)\<lparr>tc_log_id := n\<rparr>\<rparr>)"
    and "I (step', st\<lparr>cs_sdb := sdb\<rparr>)"
    and "I (step', st\<lparr>cs_block_ctx := (cs_block_ctx st)\<lparr>bx_cumulative_gas_used := g\<rparr>\<rparr>)"
    and "I (step', st\<lparr>cs_code_db := db\<rparr>)"
  using assms
  by (auto simp: op_key_def stack_key_def push_exponentiation_def add_exp_event_def elim!: local)

lemma step_updates: "I ss \<Longrightarrow> I (set_error e ss)" "I ss \<Longrightarrow> I (push_sha3_inputs bs ss)"
  by (cases ss; auto simp: set_error_def push_sha3_inputs_def op_key_def stack_key_def elim!: local)+

lemma if_state: "(b \<Longrightarrow> I s) \<Longrightarrow> (\<not> b \<Longrightarrow> I t) \<Longrightarrow> I (if b then s else t)"
  "(b \<Longrightarrow> I (step, st)) \<Longrightarrow> (\<not> b \<Longrightarrow> I (step, st')) \<Longrightarrow> I (step, if b then st else st')"
  by simp_all

lemmas parts = control ops stack_accesses pop_reads context_ops memory_mut push_copy state_updates step_updates if_state

lemma transfers:
  assumes "I ss"
  shows "ok I (transfer_with_fee x sender receiver ex create v fee ss)" "ok I (transfer x sender receiver ex create v ss)"
    "ok I (transfer_to_irreversible x receiver ex create v ss)"
proof -
  show "ok I (transfer_with_fee x sender receiver ex create v fee ss)" for fee
    unfolding transfer_with_fee_def by (rule parts assms | assumption)+
  then show "ok I (transfer x sender receiver ex create v ss)" unfolding transfer_def .
  show "ok I (transfer_to_irreversible x receiver ex create v ss)"
    unfolding transfer_to_irreversible_def by (rule parts assms | assumption)+
qed

lemma copy_steps:
  assumes "I ss"
  shows "ok (\<lambda>(_, ss). I ss) (gen_copy_steps_for_bytecode x bytecode src dst src_end n ss)"
    "ok (\<lambda>(_, ss). I ss) (gen_copy_steps_for_call_data x src dst src_end n ss)"
    "ok (\<lambda>(_, ss). I ss) (gen_return_copy_steps x src dst src_end n ss)"
    "ok (\<lambda>(_, ss). I ss) (gen_log_copy_steps x src m ss)"
  unfolding gen_copy_steps_for_bytecode_def gen_copy_steps_for_call_data_def gen_return_copy_steps_def gen_log_copy_steps_def
  by (rule parts assms | assumption)+

lemma access_account: "I ss \<Longrightarrow> ok (\<lambda>(_, ss). I ss) (access_account x addr ss)"
  unfolding access_account_def by (rule parts | assumption)+

lemma with_new_step:
  assumes "I (step, st)" and "\<And>geth ss. I ss \<Longrightarrow> ok I (body steps geth ss)"
  shows "ok (one_step I) (with_new_step body steps st)"
proof -
  have body: "ok (one_step I) (bindE (body steps geth (step', st)) (\<lambda>(exec_step, st). Inr ([exec_step], st)))" for geth step'
    using assms(2) [OF keep_step [OF assms(1)]] by (rule ok_bind) (auto simp: one_step_def)
  show ?thesis unfolding with_new_step_def by (rule ok_bind_pure, rule ok_bind_pure, rule body)
qed

lemma copy_event_steps:
  assumes "I ss"
  shows "ok I (gen_calldatacopy_step x geth ss)" "ok (\<lambda>(_, ss). I ss) (gen_calldatacopy_event x geth ss)"
    "ok (\<lambda>(_, ss). I ss) (gen_code_copy_event x geth n hash bytecode ss)"
    "ok I (gen_extcodecopy_step x geth ss)"
    "ok I (gen_returndatacopy_step x geth ss)" "ok (\<lambda>(_, ss). I ss) (gen_returndatacopy_event x geth ss)"
    "ok I (gen_log_step x geth ss)" "ok (\<lambda>(_, ss). I ss) (gen_log_copy_event x geth ss)"
  unfolding gen_calldatacopy_step_def gen_calldatacopy_event_def gen_code_copy_event_def gen_extcodecopy_step_def
    gen_returndatacopy_step_def gen_returndatacopy_event_def gen_log_step_def gen_log_copy_event_def
  by (rule parts copy_steps access_account assms | assumption)+

lemma stack_handlers:
  assumes "I (step, st)"
  shows "ok (one_step I) (gen_dup x n steps st)" "ok (one_step I) (gen_swap x n steps st)"
    "ok (one_step I) (gen_dummy x steps st)" "ok (one_step I) (push_context x f steps st)"
    "ok (one_step I) (gen_codesize x steps st)" "ok (one_step I) (gen_calldataload x steps st)"
  unfolding gen_dup_def gen_swap_def gen_dummy_def push_context_def gen_codesize_def gen_calldataload_def
  by (rule with_new_step [OF assms] parts | assumption)+

lemma account_handlers:
  assumes "I (step, st)"
  shows "ok (one_step I) (gen_selfbalance x steps st)" "ok (one_step I) (gen_balance x steps st)"
    "ok (one_step I) (gen_extcodehash x steps st)" "ok (one_step I) (gen_extcodesize x steps st)"
    "ok (one_step I) (gen_sload x steps st)" "ok (one_step I) (gen_sstore x steps st)"
  unfolding gen_selfbalance_def gen_balance_def gen_extcodehash_def gen_extcodesize_def gen_sload_def gen_sstore_def
  by (rule with_new_step [OF assms] parts access_account | assumption)+

lemma memory_handlers:
  assumes "I (step, st)"
  shows "ok (one_step I) (gen_mload x steps st)" "ok (one_step I) (gen_mstore x mstore8 steps st)"
    "ok (one_step I) (gen_sha3 x steps st)" "ok (one_step I) (gen_exp x steps st)"
  unfolding gen_mload_def gen_mstore_def gen_sha3_def gen_exp_def
  by (rule with_new_step [OF assms] parts | assumption)+

lemma copy_handlers:
  assumes "I (step, st)"
  shows "ok (one_step I) (gen_calldatacopy x steps st)" "ok (one_step I) (gen_codecopy x steps st)"
    "ok (one_step I) (gen_extcodecopy x steps st)" "ok (one_step I) (gen_returndatacopy x steps st)"
    "ok (one_step I) (gen_log x steps st)"
  unfolding gen_calldatacopy_def gen_codecopy_def gen_extcodecopy_def gen_returndatacopy_def gen_log_def
  by (rule with_new_step [OF assms] parts copy_event_steps | assumption)+

lemma call_reads: "I ss \<Longrightarrow> ok I (call_reads x n geth cur call addr acc ss)"
  unfolding call_reads_def by (rule parts | assumption)+

lemma create_parts:
  assumes "I ss"
  shows "ok (\<lambda>(_, ss). I ss) (create_stack x create2 geth callee ss)"
    "ok (\<lambda>(_, _, ss). I ss) (create_precheck x caller callee addr acc ss)"
    "ok I (create_caller_context x create2 geth caller n ss)"
  unfolding create_stack_def create_precheck_def create_caller_context_def
  by (rule parts assms | assumption)+

end

section \<open>Entering and leaving calls\<close>

text \<open>What decides whether a call fits: it is the same before and after an operation is pushed.\<close>

definition fits_key :: "CircuitInputState \<Rightarrow> bool list \<times> usize list \<times> bool list" where
  "fits_key st = (tc_call_is_success (cs_tx_ctx st), map cx_index (tc_calls (cs_tx_ctx st)), map is_persistent (tx_calls (cs_tx st)))"

lemma call_fits_cong:
  assumes "fits_key st' = fits_key st"
  shows "call_fits st' call = call_fits st call"
proof -
  have idx: "map cx_index (tc_calls (cs_tx_ctx st')) = map cx_index (tc_calls (cs_tx_ctx st))"
    and per: "map is_persistent (tx_calls (cs_tx st')) = map is_persistent (tx_calls (cs_tx st))"
    and suc: "tc_call_is_success (cs_tx_ctx st') = tc_call_is_success (cs_tx_ctx st)"
    using assms by (simp_all add: fits_key_def)
  have len: "length (tx_calls (cs_tx st')) = length (tx_calls (cs_tx st))" using per by (metis length_map)
  have ne: "tc_calls (cs_tx_ctx st') = [] \<longleftrightarrow> tc_calls (cs_tx_ctx st) = []" using idx by (metis list.map_disc_iff)
  have l: "cx_index (last (tc_calls (cs_tx_ctx st'))) = cx_index (last (tc_calls (cs_tx_ctx st)))"
    if "tc_calls (cs_tx_ctx st) \<noteq> []"
    using idx that ne by (metis last_map)
  have p: "is_persistent (tx_calls (cs_tx st') ! i) = is_persistent (tx_calls (cs_tx st) ! i)"
    if "i < length (tx_calls (cs_tx st))" for i
    using per that len by (metis nth_map)
  show ?thesis
    using ne l p by (auto simp: call_fits_def cur_call_def call_index_def call_ctx_def nth_call_def nth_opt_def ok_or_def suc len)
qed

lemma push_op_reversible_fits_key:
  "push_op_reversible x op (step, st) = Inr (step', st') \<Longrightarrow> fits_key st' = fits_key st"
  by (erule push_op_reversibleE) (auto simp: fits_key_def insert_next_spec map_map_last)

lemma op_key_fits_key: "op_key st' = op_key st \<Longrightarrow> fits_key st' = fits_key st"
proof -
  assume "op_key st' = op_key st"
  then have k: "map (\<lambda>c. (cx_index c, cx_reversible_write_counter c)) (tc_calls (cs_tx_ctx st')) =
      map (\<lambda>c. (cx_index c, cx_reversible_write_counter c)) (tc_calls (cs_tx_ctx st))"
    "map (\<lambda>c. (is_persistent c, is_success c)) (tx_calls (cs_tx st')) =
      map (\<lambda>c. (is_persistent c, is_success c)) (tx_calls (cs_tx st))"
    "tc_call_is_success (cs_tx_ctx st') = tc_call_is_success (cs_tx_ctx st)"
    by (simp_all add: op_key_def stack_key_def)
  show ?thesis
    using arg_cong [OF k(1), of "map fst"] arg_cong [OF k(2), of "map fst"] k(3) by (simp add: fits_key_def o_def)
qed

locale step_contract = push_contract +
  assumes enter: "I (step, st) \<Longrightarrow> call_fits st call \<Longrightarrow> push_call call st = Inr st' \<Longrightarrow> I (step, st')"
    and leave: "I ss \<Longrightarrow> ok I (handle_return x steps need_restore ss)"

sublocale step_contract \<subseteq> fits: push_contract x "\<lambda>ss. I ss \<and> call_fits (snd ss) new_call" for new_call
proof
  fix ss op rw
  assume *: "I ss \<and> call_fits (snd ss) new_call" and op: "op_target op \<noteq> TStart"
  have "call_fits (snd ss') new_call" if "push_op x rw op ss = Inr ss'" for ss'
    using * that push_op_frame [of x rw op "fst ss" "snd ss" "fst ss'" "snd ss'"] call_fits_cong [of "snd ss'" "snd ss"]
    by (simp add: fits_key_def)
  then show "ok (\<lambda>ss. I ss \<and> call_fits (snd ss) new_call) (push_op x rw op ss)"
    using okD [OF push] * op by (intro okI) blast
next
  fix ss op
  assume *: "I ss \<and> call_fits (snd ss) new_call"
  have "call_fits (snd ss') new_call" if "push_op_reversible x op ss = Inr ss'" for ss'
    using * that push_op_reversible_fits_key [of x op "fst ss" "snd ss" "fst ss'" "snd ss'"]
      call_fits_cong [of "snd ss'" "snd ss"] by simp
  then show "ok (\<lambda>ss. I ss \<and> call_fits (snd ss) new_call) (push_op_reversible x op ss)"
    using okD [OF push_reversible] * by (intro okI) blast
next
  fix step st st' step'
  assume "I (step, st) \<and> call_fits (snd (step, st)) new_call" and "op_key st' = op_key st"
  then show "I (step', st') \<and> call_fits (snd (step', st')) new_call"
    using local call_fits_cong [OF op_key_fits_key, of st' st] by auto
qed

context step_contract
begin

lemma restore: "I ss \<Longrightarrow> ok I (handle_restore_context x steps ss)"
proof (rule okI)
  fix ss' assume "I ss" "handle_restore_context x steps ss = Inr ss'"
  then have "pushes x ss ss'" by (metis handle_restore_context_pushes)
  then show "I ss'" using \<open>I ss\<close> unfolding pushes_def
  proof (induction rule: rtranclp_induct)
    case (step t u)
    then obtain rw op where "op_target op = TCallContext" "push_op x rw op t = Inr u" by blast
    then show ?case using okD [OF push [of t op rw]] step by simp
  qed
qed

lemma parse:
  assumes "I (step, st)"
  shows "ok (\<lambda>(call, st'). I (step, st') \<and> call_fits st' call) (parse_call x geth st)"
proof (rule okI)
  fix v assume v: "parse_call x geth st = Inr v"
  obtain call st' where [simp]: "v = (call, st')" by (cases v)
  have "op_key st' = op_key st"
    using parse_call_fits(2,3) [of x geth st call st'] parse_call_world_key [of x geth st call st'] v
    by (simp add: op_key_def stack_key_def world_key_def)
  then show "case v of (call, st') \<Rightarrow> I (step, st') \<and> call_fits st' call"
    using local [OF assms] parse_call_fits(1) [of x geth st call st'] v by auto
qed

lemma enter_call: "I ss \<and> call_fits (snd ss) call \<Longrightarrow> ok I (on_state (push_call call) ss)"
  by (cases ss) (auto simp: on_state_def intro!: okI elim: enter)

lemma expand_memory: "I ss \<Longrightarrow> ok I (on_state (call_expand_memory a b c d) ss)"
  by (cases ss) (auto simp: on_state_def call_expand_memory_def call_ctx_mut_def op_key_def stack_key_def map_map_last
      intro!: okI split: if_splits elim!: local)

lemma caller_memory: "I ss \<Longrightarrow> ok I (on_state (caller_ctx_mut (\<lambda>cx. cx\<lparr>cx_memory := mem\<rparr>)) ss)"
  "I ss \<Longrightarrow> ok I (on_state (caller_ctx_mut (\<lambda>cx. cx\<lparr>cx_return_data := r, cx_memory := mem\<rparr>)) ss)"
  by (cases ss; auto simp: on_state_def caller_ctx_mut_def op_key_def stack_key_def Let_def map_list_update_same
      intro!: okI split: if_splits elim!: local)+

lemmas all_parts = leave restore caller_memory expand_memory parts transfers access_account

lemma call_ends:
  assumes "I ss"
  shows "ok I (call_precompile x steps cur call ao al ro rl gas ss)" "ok I (call_no_code x steps cur call ss)"
    "ok I (call_with_code x n geth tid cur call g ss)" "ok (\<lambda>(_, ss). I ss) (call_transfer x geth call ex ss)"
  unfolding call_precompile_def call_no_code_def call_with_code_def call_transfer_def
  by (rule all_parts assms | assumption | erule keep_step)+

lemma call_enter:
  assumes "I ss \<and> call_fits (snd ss) call" and "\<And>ss. I ss \<Longrightarrow> ok I (f ss)"
  shows "ok I (bindE (call_reads x n geth cur call addr acc ss) (\<lambda>ss. bindE (on_state (push_call call) ss) f))"
  by (rule fits.bind_step [where new_call = call], rule fits.call_reads, rule assms(1))
    (rule bind_step, rule enter_call, assumption, rule assms(2))

lemma parse_bind:
  assumes "I (step, st)" and "\<And>call st. I (step, st) \<and> call_fits (snd (step, st)) call \<Longrightarrow> ok Q (f (call, st))"
  shows "ok Q (bindE (parse_call x geth st) f)"
  using parse [OF assms(1)] by (rule ok_bind) (use assms(2) in auto)

lemma call_handler: "I (step, st) \<Longrightarrow> ok (one_step I) (gen_call x n steps st)"
  unfolding gen_call_def
  by (erule with_new_step) (rule parse_bind call_enter all_parts call_ends | assumption)+

lemma code_copies:
  assumes "I ss"
  shows "ok (\<lambda>(_, ss). I ss) (copy_code_bytes x cid off len bytes ss)" "ok (\<lambda>(_, _, ss). I ss) (create_copy x cid off len ss)"
    "ok I (return_copy x sid soff slen did doff dlen ss)"
  subgoal copy_code_bytes unfolding copy_code_bytes_def by (rule all_parts assms | assumption)+
  subgoal unfolding create_copy_def copy_code_bytes_def by (rule all_parts assms | assumption)+
  subgoal unfolding return_copy_def by (rule all_parts assms | assumption)+
  done

lemma create_end:
  assumes "I ss"
  shows "ok I (bindE (reversion_info_write x callee ss) (\<lambda>ss.
     if c then create_success x create2 steps geth caller callee nn addr off len ss else create_failed x steps caller ss))"
  unfolding create_success_def create_failed_def by (rule all_parts code_copies assms | assumption)+

lemma create_enter:
  assumes "I ss \<and> call_fits (snd ss) callee"
  shows "ok I (bindE (on_state (push_call callee) ss) (\<lambda>ss. bindE (reversion_info_write x callee ss) (\<lambda>ss.
     if c then create_success x create2 steps geth caller callee nn addr off len ss else create_failed x steps caller ss)))"
  by (rule bind_step, rule enter_call, rule assms, rule create_end)

lemma create_handler: "I (step, st) \<Longrightarrow> ok (one_step I) (gen_create x create2 steps st)"
  unfolding gen_create_def
  apply (erule with_new_step)
  subgoal for geth ss
    by (cases ss, simp only: split_conv) (rule ok_split parse_bind create_enter fits.create_parts fits.parts | assumption)+
  done

lemma return_parts:
  assumes "I ss"
  shows "ok I (return_created x call off len ss)" "ok I (return_to_memory x call off len ss)"
  unfolding return_created_def return_to_memory_def by (rule all_parts code_copies assms | assumption)+

lemma return_handlers:
  assumes "I (step, st)"
  shows "ok (one_step I) (gen_return_revert x steps st)" "ok (one_step I) (gen_stop x steps st)"
    "ok (one_step I) (gen_selfdestruct x steps st)" "ok (one_step I) (stack_only x n_pop n_push is_err steps st)"
  unfolding gen_return_revert_def gen_stop_def gen_selfdestruct_def stack_only_def
  by (rule with_new_step [OF assms] all_parts return_parts | assumption)+

lemma read_account_access: "I ss \<Longrightarrow> ok I (read_account_access x addr ss)"
  unfolding read_account_access_def by (rule all_parts | assumption)+

lemma error_handlers:
  assumes "I (step, st)"
  shows "ok (one_step I) (gen_error_simple x steps st)" "ok (one_step I) (gen_error_code_store x steps st)"
    "ok (one_step I) (gen_error_creation_code x steps st)" "ok (one_step I) (gen_invalid_jump x steps st)"
    "ok (one_step I) (gen_error_return_data_oob x steps st)" "ok (one_step I) (gen_error_write_protection x steps st)"
  unfolding gen_error_simple_def gen_error_code_store_def gen_error_creation_code_def gen_invalid_jump_def
    gen_error_return_data_oob_def gen_error_write_protection_def
  by (rule with_new_step [OF assms] all_parts | assumption)+

lemma oog_handlers:
  assumes "I (step, st)"
  shows "ok (one_step I) (gen_oog_account_access x steps st)" "ok (one_step I) (gen_oog_call x steps st)"
    "ok (one_step I) (gen_oog_exp x steps st)" "ok (one_step I) (gen_oog_log x steps st)"
    "ok (one_step I) (gen_oog_memory_copy x steps st)" "ok (one_step I) (gen_oog_sload_sstore x steps st)"
  unfolding gen_oog_account_access_def gen_oog_call_def gen_oog_exp_def gen_oog_log_def gen_oog_memory_copy_def
    gen_oog_sload_sstore_def
  by (rule with_new_step [OF assms] all_parts read_account_access | assumption)+

lemma context_handlers:
  assumes "I (step, st)"
  shows "ok (one_step I) (gen_address x steps st)" "ok (one_step I) (gen_caller x steps st)"
    "ok (one_step I) (gen_callvalue x steps st)" "ok (one_step I) (gen_calldatasize x steps st)"
    "ok (one_step I) (gen_returndatasize x steps st)" "ok (one_step I) (gen_gasprice x steps st)"
    "ok (one_step I) (gen_origin x steps st)"
  unfolding gen_address_def gen_caller_def gen_callvalue_def gen_calldatasize_def gen_returndatasize_def
    gen_gasprice_def gen_origin_def
  by (rule stack_handlers [OF assms])+

lemmas handlers = stack_handlers context_handlers account_handlers memory_handlers copy_handlers call_handler
  create_handler return_handlers error_handlers oog_handlers

lemma error_dispatch:
  assumes "I (step, st)" and "fn_gen_error_state_associated_ops x geth err = Inr (Some h)"
  shows "ok (one_step I) (h steps st)"
  using assms(2) handlers [OF assms(1)]
  by (auto simp: fn_gen_error_state_associated_ops_def split: ExecError.splits OogError.splits if_splits
      InsufficientBalanceError.splits NonceUintOverflowError.splits DepthError.splits)

lemma dispatch:
  assumes "I (step, st)" and "fn_gen_associated_ops x op = Inr h"
  shows "ok (one_step I) (h steps st)"
  using assms(2) handlers [OF assms(1)]
  by (auto simp: fn_gen_associated_ops_def split: option.splits prod.splits OpcodeId.splits ArithOp.splits ExtOp.splits
      FlowOp.splits SysOp.splits)

lemma unhandled_error: "I ss \<Longrightarrow> ok (one_step I) (gen_unhandled_error x steps geth ss)"
  unfolding gen_unhandled_error_def
  apply (rule bind_pair)
   apply (rule ok_if)
    apply (cases ss, simp only: snd_conv fst_conv)
    apply (rule parse_bind, assumption)
    apply (auto intro!: okI elim: enter)[1]
   apply (rule results, assumption)
  apply (rule ok_split, rule ok_bind, erule leave)
  apply (auto simp: one_step_def)
  done

lemma step_handler: "I (step, st) \<Longrightarrow> ok (one_step I) (gen_associated_ops x op steps st)"
  unfolding gen_associated_ops_def
  apply (rule ok_bind_pure)+
  apply (rule ok_option)
   apply (rule ok_bind [OF okI], assumption, erule dispatch, assumption)
  apply (rule ok_bind [OF okI], assumption)
  apply (rule ok_option)
   apply (rule unhandled_error, rule step_updates, erule keep_step)
  apply (erule error_dispatch, simp)
  done

lemma warm_address: "I ss \<Longrightarrow> ok I (warm_address x addr ss)"
  unfolding warm_address_def by (cases ss, simp only: split_conv) (rule parts | assumption)+

lemma tx_parts:
  assumes "I ss"
  shows "ok I (begin_tx_call x call hash n e ss)" "ok I (end_tx_payments x call g r ss)" "ok I (end_tx_receipt x call g ss)"
  unfolding begin_tx_call_def end_tx_payments_def end_tx_receipt_def by (rule all_parts assms | assumption)+

lemma tx_bodies:
  assumes "I ss"
  shows "ok I (begin_tx_body x call ss)" "ok I (end_tx_body x ss)"
  unfolding begin_tx_body_def end_tx_body_def by (rule all_parts warm_address tx_parts assms | assumption | erule keep_step)+

lemma end_tx: "I (step, st) \<Longrightarrow> ok I (gen_end_tx_steps x st)"
  unfolding gen_end_tx_steps_def by (rule ok_bind_pure, rule tx_bodies, erule keep_step)

lemma begin_tx: "I (step, st) \<Longrightarrow> ok I (gen_begin_tx_steps x st)"
  unfolding gen_begin_tx_steps_def by (rule all_parts tx_bodies | assumption | erule keep_step)+

end

end
