(* ===== verification/End_Block.thy ===== *)
theory End_Block
  imports Builder_Step
begin

text \<open>
  The end of a block: the placeholder values of the \<open>RwCounterEndOfReversion\<close> operations are replaced, and the
  operations are padded to the number of rows of the circuit.
\<close>

section \<open>Ends of reversion\<close>

text \<open>The call an operation names, through the call map.\<close>

definition named_call :: "'c CircuitInputBuilder \<Rightarrow> usize \<Rightarrow> Call option" where
  "named_call b cid = (case bx_call_map (ib_block_ctx b) cid of
       None \<Rightarrow> None
     | Some (t, c) \<Rightarrow> (case nth_opt (bk_txs (ib_block b)) t of None \<Rightarrow> None | Some tx \<Rightarrow> nth_opt (tx_calls tx) c))"

definition filled :: "'c CircuitInputBuilder \<Rightarrow> CallContextOp Operation \<Rightarrow> CallContextOp Operation" where
  "filled b oper =
     (if cco_field (op_op oper) = CC_RwCounterEndOfReversion
      then oper\<lparr>op_op := (op_op oper)\<lparr>cco_value :=
        of_nat (rw_counter_end_of_reversion (case named_call b (cco_call_id (op_op oper)) of Some c \<Rightarrow> c | None \<Rightarrow> call_default))\<rparr>\<rparr>
      else oper)"

lemma set_rwc_eor_eq:
  assumes "cco_field (op_op oper) = CC_RwCounterEndOfReversion \<longrightarrow> named_call b (cco_call_id (op_op oper)) \<noteq> None"
  shows "set_rwc_eor (ib_block_ctx b) (bk_txs (ib_block b)) oper = Inr (filled b oper)"
  using assms by (auto simp: set_rwc_eor_def filled_def named_call_def ok_or_def nth_opt_def split: option.splits prod.splits if_splits)

lemma set_rwc_eor_fails:
  assumes "cco_field (op_op oper) = CC_RwCounterEndOfReversion" and "named_call b (cco_call_id (op_op oper)) = None"
  shows "\<exists>s. set_rwc_eor (ib_block_ctx b) (bk_txs (ib_block b)) oper = Inl (Panic s)"
  using assms by (auto simp: set_rwc_eor_def named_call_def ok_or_def nth_opt_def split: option.splits prod.splits if_splits)

lemma mapE_eq_map: "(\<And>x. x \<in> set xs \<Longrightarrow> f x = Inr (g x)) \<Longrightarrow> mapE f xs = Inr (map g xs)"
  by (induction xs) auto

lemma mapE_fails:
  "x \<in> set xs \<Longrightarrow> (\<exists>s. f x = Inl (Panic s)) \<Longrightarrow> (\<And>y e. y \<in> set xs \<Longrightarrow> f y = Inl e \<Longrightarrow> \<exists>s. e = Panic s) \<Longrightarrow>
     \<exists>s. mapE f xs = Inl (Panic s)"
proof (induction xs)
  case (Cons y ys)
  show ?case
  proof (cases "f y")
    case (Inl e)
    then show ?thesis using Cons.prems(3) [of y e] by auto
  next
    case (Inr z)
    then have "x \<in> set ys" using Cons.prems(1,2) by auto
    with Cons obtain s where "mapE f ys = Inl (Panic s)" by (metis list.set_intros(2))
    then show ?thesis using Inr by simp
  qed
qed simp

text \<open>
  C23: \<open>set_value_ops_call_context_rwc_eor\<close> replaces the value of every \<open>RwCounterEndOfReversion\<close> operation by the end
  of reversion of the call it names and changes nothing else; it panics if and only if such an operation names a call
  that is not in the call map, or is mapped outside the transactions of the block.
\<close>

theorem rwc_eor_filled:
  "if \<exists>oper \<in> set (oc_call_context (bk_container (ib_block b))).
        cco_field (op_op oper) = CC_RwCounterEndOfReversion \<and> named_call b (cco_call_id (op_op oper)) = None
   then \<exists>s. set_value_ops_call_context_rwc_eor b = Inl (Panic s)
   else set_value_ops_call_context_rwc_eor b =
     Inr (b\<lparr>ib_block := (ib_block b)\<lparr>bk_container := (bk_container (ib_block b))\<lparr>oc_call_context :=
       map (filled b) (oc_call_context (bk_container (ib_block b)))\<rparr>\<rparr>\<rparr>)"
proof (cases "\<exists>oper \<in> set (oc_call_context (bk_container (ib_block b))).
    cco_field (op_op oper) = CC_RwCounterEndOfReversion \<and> named_call b (cco_call_id (op_op oper)) = None")
  case True
  let ?f = "set_rwc_eor (ib_block_ctx b) (bk_txs (ib_block b))"
  from True obtain oper where oper: "oper \<in> set (oc_call_context (bk_container (ib_block b)))" "\<exists>s. ?f oper = Inl (Panic s)"
    using set_rwc_eor_fails by metis
  have "\<exists>s. mapE ?f (oc_call_context (bk_container (ib_block b))) = Inl (Panic s)"
    using oper by (rule mapE_fails) (auto simp: set_rwc_eor_def ok_or_def split: if_splits option.splits)
  then show ?thesis using True by (auto simp: set_value_ops_call_context_rwc_eor_def Let_def)
next
  case False
  then have "mapE (set_rwc_eor (ib_block_ctx b) (bk_txs (ib_block b))) (oc_call_context (bk_container (ib_block b))) =
      Inr (map (filled b) (oc_call_context (bk_container (ib_block b))))"
    by (intro mapE_eq_map set_rwc_eor_eq) auto
  then show ?thesis using False by (simp add: set_value_ops_call_context_rwc_eor_def Let_def)
qed

section \<open>Padding\<close>

lemma push_start_op_eq:
  "push_start_op rwc (step, st) =
     (note_ref (TStart, length (oc_start (cs_container st))) step,
      st\<lparr>cs_block := (cs_block st)\<lparr>bk_container := (cs_container st)\<lparr>oc_start := oc_start (cs_container st) @
        [\<lparr>op_rwc = rwc, op_rw = READ, op_reversible = False, op_op = ()\<rparr>]\<rparr>\<rparr>\<rparr>)"
  by (simp add: push_start_op_def insert_op_enum_def operation_new_def Let_def)

lemma container_rwcs_start:
  "mset (container_rwcs (c\<lparr>oc_start := oc_start c @ ops\<rparr>)) = mset (map op_rwc ops) + mset (container_rwcs c)"
  by (simp add: container_rwcs_def)

text \<open>The operations before the padding: one more, unless the block is empty.\<close>

definition rws_before_padding :: "'c CircuitInputBuilder \<Rightarrow> usize" where
  "rws_before_padding b = bx_rwc (ib_block_ctx b) - 1 + (if bk_txs (ib_block b) = [] then 0 else 1)"

definition padding_ops :: "usize \<Rightarrow> StartOp Operation list" where
  "padding_ops n = map (\<lambda>rwc. \<lparr>op_rwc = rwc, op_rw = READ, op_reversible = False, op_op = ()\<rparr>)
     (if n = 1 then [1] else [1, n])"

definition block_ready :: "'c CircuitInputBuilder \<Rightarrow> bool" where
  "block_ready b \<longleftrightarrow> 1 \<le> bx_rwc (ib_block_ctx b) \<and>
     mset (container_rwcs (bk_container (ib_block b))) = mset [1..<bx_rwc (ib_block_ctx b)] \<and>
     oc_start (bk_container (ib_block b)) = [] \<and>
     (bk_txs (ib_block b) \<noteq> [] \<longrightarrow> tx_calls (last (bk_txs (ib_block b))) \<noteq> [])"

lemma end_block_read:
  assumes "block_ready b"
  shows "\<exists>step st. (if bk_txs (ib_block b) = [] then Inr (step0, state_ref transaction_default tx_ctx_default b)
      else bindE (ok_or (nth_opt (tx_calls (last (bk_txs (ib_block b)))) 0) (Panic ''index out of bounds'')) (\<lambda>call.
        call_context_read x (call_id call) CC_TxId (of_nat (length (bk_txs (ib_block b))))
          (step0, state_ref transaction_default tx_ctx_default b))) = Inr (step, st) \<and>
    es_rwc step = es_rwc step0 \<and> cs_rwc st = rws_before_padding b + 1 \<and> counters_dense st \<and> oc_start (cs_container st) = []"
proof -
  let ?st0 = "state_ref transaction_default tx_ctx_default b"
  have d: "counters_dense ?st0" using assms by (simp add: counters_dense_def state_ref_def block_ready_def)
  show ?thesis
  proof (cases "bk_txs (ib_block b) = []")
    case True
    then show ?thesis using assms d by (simp add: rws_before_padding_def block_ready_def state_ref_def)
  next
    case False
    let ?cid = "call_id (tx_calls (last (bk_txs (ib_block b))) ! 0)"
    let ?op = "OpCallContext \<lparr>cco_call_id = ?cid, cco_field = CC_TxId, cco_value = of_nat (length (bk_txs (ib_block b)))\<rparr>"
    have ne: "tx_calls (last (bk_txs (ib_block b))) \<noteq> []" using False assms by (simp add: block_ready_def)
    obtain r st where i: "insert_next READ False ?op ?st0 = (r, st)" by fastforce
    have e: "call_context_read x ?cid CC_TxId (of_nat (length (bk_txs (ib_block b)))) (step0, ?st0) = Inr (note_ref r step0, st)"
      using i by (simp add: call_context_read_def push_op_def)
    have "oc_start (cs_container st) = []"
      using i assms by (auto simp: insert_next_def rwc_inc_pre_def insert_op_enum_def block_ready_def state_ref_def Let_def)
    moreover have "cs_rwc st = rws_before_padding b + 1"
      using insert_next_spec(1) [OF i] assms False by (simp add: rws_before_padding_def block_ready_def state_ref_def)
    ultimately show ?thesis
      using e ne False insert_next_dense [OF i d] by (simp add: ok_or_def nth_opt_def note_ref_def)
  qed
qed

lemma set_end_block_padded:
  assumes "block_ready b"
  shows "if rws_before_padding b + 1 \<le> max_rws
    then \<exists>b'. set_end_block x max_rws b = Inr b' \<and>
      mset (container_rwcs (bk_container (ib_block b'))) =
        mset [1..<rws_before_padding b + 1] + mset (map op_rwc (padding_ops (max_rws - rws_before_padding b))) \<and>
      oc_start (bk_container (ib_block b')) = padding_ops (max_rws - rws_before_padding b) \<and>
      es_rwc (bs_end_block_last (bk_block_steps (ib_block b'))) = bx_rwc (ib_block_ctx b) \<and>
      es_rwc (bs_end_block_not_last (bk_block_steps (ib_block b'))) = bx_rwc (ib_block_ctx b)
    else \<exists>s. set_end_block x max_rws b = Inl (Panic s)"
proof -
  let ?n = "rws_before_padding b"
  let ?last = "(bs_end_block_last (bk_block_steps (ib_block b)))\<lparr>es_rwc := bx_rwc (ib_block_ctx b)\<rparr>"
  from end_block_read [OF assms, of ?last x] obtain step st where
    r: "(if bk_txs (ib_block b) = [] then Inr (?last, state_ref transaction_default tx_ctx_default b)
      else bindE (ok_or (nth_opt (tx_calls (last (bk_txs (ib_block b)))) 0) (Panic ''index out of bounds'')) (\<lambda>call.
        call_context_read x (call_id call) CC_TxId (of_nat (length (bk_txs (ib_block b))))
          (?last, state_ref transaction_default tx_ctx_default b))) = (Inr (step, st) :: step_state res)"
      "es_rwc step = bx_rwc (ib_block_ctx b)" "cs_rwc st = ?n + 1" "counters_dense st" "oc_start (cs_container st) = []"
    by auto
  have rwcs: "mset (container_rwcs (cs_container st)) = mset [1..<?n + 1]"
    using r(4) by (simp only: counters_dense_def r(3))
  have txs: "bk_txs (cs_block (state_ref transaction_default tx_ctx_default b)) = bk_txs (ib_block b)"
    by (simp add: state_ref_def)
  show ?thesis
  proof (cases "?n + 1 \<le> max_rws")
    case True
    let ?ops = "padding_ops (max_rws - ?n)"
    let ?c = "(cs_container st)\<lparr>oc_start := oc_start (cs_container st) @ ?ops\<rparr>"
    have "\<exists>b'. set_end_block x max_rws b = Inr b' \<and> bk_container (ib_block b') = ?c \<and>
      es_rwc (bs_end_block_last (bk_block_steps (ib_block b'))) = bx_rwc (ib_block_ctx b) \<and>
      es_rwc (bs_end_block_not_last (bk_block_steps (ib_block b'))) = bx_rwc (ib_block_ctx b)"
      unfolding set_end_block_def Let_def txs r(1)
      using True r(2,3) by (simp add: usize_sub_def push_start_op_eq end_ref_def padding_ops_def note_ref_def)
    then obtain b' where "set_end_block x max_rws b = Inr b'" and c: "bk_container (ib_block b') = ?c"
      and "es_rwc (bs_end_block_last (bk_block_steps (ib_block b'))) = bx_rwc (ib_block_ctx b)"
      "es_rwc (bs_end_block_not_last (bk_block_steps (ib_block b'))) = bx_rwc (ib_block_ctx b)" by blast
    moreover have "mset (container_rwcs (bk_container (ib_block b'))) = mset [1..<?n + 1] + mset (map op_rwc ?ops)"
      unfolding c container_rwcs_start rwcs by (rule add.commute)
    moreover have "oc_start (bk_container (ib_block b')) = ?ops" by (simp add: c r(5))
    ultimately show ?thesis unfolding if_P [OF True] by blast
  next
    case False
    then show ?thesis unfolding set_end_block_def Let_def txs r(1) using r(3) by (simp add: usize_sub_def)
  qed
qed

section \<open>Properties of the end of a block\<close>

text \<open>
  C19: the padding of a block. Let \<open>n\<close> be the operations of the block, with the read of the transaction id that the
  last step makes unless the block is empty. If there is room for one row more, \<open>set_end_block\<close> succeeds: the
  counters of the logged operations are 1 to \<open>n\<close>, the padding runs from 1 to \<open>max_rws - n\<close> and is marked by one \<open>Start\<close>
  operation at each end (only one when the two ends agree), and the last steps start at the old counter.
  Without room it panics.
\<close>

theorem set_end_block_spec:
  assumes "block_ready b"
  shows "if rws_before_padding b + 1 \<le> max_rws
    then \<exists>b'. set_end_block x max_rws b = Inr b' \<and>
      mset (container_rwcs (bk_container (ib_block b'))) =
        mset [1..<rws_before_padding b + 1] + mset (map op_rwc (padding_ops (max_rws - rws_before_padding b))) \<and>
      oc_start (bk_container (ib_block b')) = padding_ops (max_rws - rws_before_padding b) \<and>
      es_rwc (bs_end_block_last (bk_block_steps (ib_block b'))) = bx_rwc (ib_block_ctx b) \<and>
      es_rwc (bs_end_block_not_last (bk_block_steps (ib_block b'))) = bx_rwc (ib_block_ctx b)
    else \<exists>s. set_end_block x max_rws b = Inl (Panic s)"
  by (rule set_end_block_padded [OF assms])

lemma ex_builder_ready: "block_ready ex_builder"
  by (simp add: block_ready_def ex_builder_def builder_new_def block_context_new_def rwc_new_def ex_block_def
      container_new_def container_rwcs_def)

theorem set_end_block_spec_witness:
  "\<exists>b'. set_end_block ex_ext 4 ex_builder = Inr b' \<and> map op_rwc (oc_start (bk_container (ib_block b'))) = [1, 4]"
proof -
  have n: "rws_before_padding ex_builder = 0"
    by (simp add: rws_before_padding_def ex_builder_def builder_new_def block_context_new_def rwc_new_def ex_block_def)
  obtain b' where "set_end_block ex_ext 4 ex_builder = Inr b'" "oc_start (bk_container (ib_block b')) = padding_ops 4"
    using set_end_block_spec [OF ex_builder_ready, of 4 ex_ext] by (auto simp: n split: if_splits)
  then show ?thesis by (auto simp: padding_ops_def)
qed

text \<open>
  C24: with the parameters \<open>handle_block\<close> computes for a block, the padding never fails and is exactly one \<open>Start\<close>
  operation, and the number of rows is the number of operations: no row is wasted and none is missing. This rests on
  a block without transactions being one without operations.
\<close>

theorem dynamic_padding_exact:
  assumes "block_ready b" and "bk_txs (ib_block b) = [] \<longleftrightarrow> bx_rwc (ib_block_ctx b) = 1"
  shows "\<exists>c b'. compute_params eth_block b = Inr c \<and>
    set_end_block x (fp_max_rws c) \<lparr>ib_sdb = ib_sdb b, ib_code_db = ib_code_db b, ib_block = ib_block b,
      ib_circuits_params = c, ib_block_ctx = ib_block_ctx b\<rparr> = Inr b' \<and>
    oc_start (bk_container (ib_block b')) = [\<lparr>op_rwc = 1, op_rw = READ, op_reversible = False, op_op = ()\<rparr>] \<and>
    length (container_rwcs (bk_container (ib_block b'))) = fp_max_rws c"
proof -
  from assms(1) obtain c where c: "compute_params eth_block b = Inr c"
    and max: "fp_max_rws c = bx_rwc (ib_block_ctx b) + (if bx_rwc (ib_block_ctx b) > 1 then 1 else 0)"
    by (auto simp: compute_params_def usize_sub_def block_ready_def)
  let ?b = "\<lparr>ib_sdb = ib_sdb b, ib_code_db = ib_code_db b, ib_block = ib_block b,
      ib_circuits_params = c, ib_block_ctx = ib_block_ctx b\<rparr>"
  have ready: "block_ready ?b" using assms(1) by (simp add: block_ready_def)
  have n: "fp_max_rws c = rws_before_padding ?b + 1"
    using assms by (auto simp: rws_before_padding_def max block_ready_def)
  from set_end_block_padded [OF ready, of "fp_max_rws c" x] obtain b' where
    b': "set_end_block x (fp_max_rws c) ?b = Inr b'"
      "mset (container_rwcs (bk_container (ib_block b'))) = mset [1..<rws_before_padding ?b + 1] + mset (map op_rwc (padding_ops 1))"
      "oc_start (bk_container (ib_block b')) = padding_ops 1"
    by (auto simp: n)
  have "length (container_rwcs (bk_container (ib_block b'))) = fp_max_rws c"
    using arg_cong [OF b'(2), of size] by (simp add: n padding_ops_def del: mset_upt)
  then show ?thesis using b' c by (auto simp: padding_ops_def)
qed

theorem dynamic_padding_exact_witness:
  "\<exists>c b'. compute_params ex_eth_block ex_builder = Inr c \<and> fp_max_rws c = 1 \<and>
     set_end_block ex_ext 1 \<lparr>ib_sdb = ib_sdb ex_builder, ib_code_db = [], ib_block = ex_block,
      ib_circuits_params = c, ib_block_ctx = block_context_new\<rparr> = Inr b' \<and>
     length (container_rwcs (bk_container (ib_block b'))) = 1"
proof -
  have f: "ib_code_db ex_builder = []" "ib_block ex_builder = ex_block" "ib_block_ctx ex_builder = block_context_new"
    by (simp_all add: ex_builder_def builder_new_def)
  have "bk_txs (ib_block ex_builder) = [] \<longleftrightarrow> bx_rwc (ib_block_ctx ex_builder) = 1"
    by (simp add: f ex_block_def block_context_new_def rwc_new_def)
  from dynamic_padding_exact [OF ex_builder_ready this, of ex_eth_block ex_ext] obtain c b' where
    1: "compute_params ex_eth_block ex_builder = Inr c" and 2: "set_end_block ex_ext (fp_max_rws c)
      \<lparr>ib_sdb = ib_sdb ex_builder, ib_code_db = [], ib_block = ex_block, ib_circuits_params = c,
       ib_block_ctx = block_context_new\<rparr> = Inr b'"
    "length (container_rwcs (bk_container (ib_block b'))) = fp_max_rws c"
    unfolding f by blast
  moreover have "fp_max_rws c = 1"
    using 1 by (auto simp: compute_params_def usize_sub_def f block_context_new_def rwc_new_def)
  ultimately show ?thesis by auto
qed

end
