(* ===== verification/Tx_Run.thy ===== *)
theory Tx_Run
  imports Handler_Steps End_Block
begin

text \<open>
  Whole transactions and blocks. \<open>run_contract\<close> is what a property that depends on the number of finished steps has to
  satisfy to hold through \<open>handle_tx\<close>; it is interpreted for reachability by \<open>builder_step\<close> and for the frame of a
  transaction, and gives the refinement of the handlers and the shape of a handled block.
\<close>

section \<open>Handlers are sequences of builder steps\<close>

interpretation reach: step_contract x "(builder_step x)\<^sup>*\<^sup>* ss0" for x ss0
proof
  fix ss rw op assume "(builder_step x)\<^sup>*\<^sup>* ss0 ss"
  then show "ok ((builder_step x)\<^sup>*\<^sup>* ss0) (push_op x rw op ss)"
    by (auto intro!: okI intro: rtranclp.rtrancl_into_rtrancl builder_step.push)
next
  fix ss op assume "(builder_step x)\<^sup>*\<^sup>* ss0 ss"
  then show "ok ((builder_step x)\<^sup>*\<^sup>* ss0) (push_op_reversible x op ss)"
    by (auto intro!: okI intro: rtranclp.rtrancl_into_rtrancl builder_step.push_reversible)
next
  fix ss steps need_restore assume "(builder_step x)\<^sup>*\<^sup>* ss0 ss"
  then show "ok ((builder_step x)\<^sup>*\<^sup>* ss0) (handle_return x steps need_restore ss)"
    by (auto intro!: okI intro: rtranclp.rtrancl_into_rtrancl builder_step.leave)
qed (blast intro: rtranclp.rtrancl_into_rtrancl builder_step.local builder_step.enter)+

section \<open>Transactions\<close>

locale run_contract =
  fixes x :: Externals and J :: "nat \<Rightarrow> step_state \<Rightarrow> bool"
  assumes contract: "step_contract x (J n)"
    and finish: "J n (step, st) \<Longrightarrow> J (Suc n) (step', add_steps [step] st)"
begin

lemma finish_steps: "ok (one_step (J n)) m \<Longrightarrow> ok (\<lambda>(steps, st). J (Suc n) (step', add_steps steps st)) m"
  by (erule ok_mono) (auto simp: one_step_def intro: finish)

lemma trace_loop:
  assumes "J n (step, st)"
  shows "ok (\<lambda>st. J (n + length logs) (step, st)) (foldE (\<lambda>(index, geth_step) st.
      bindE (gen_associated_ops x (gs_op geth_step) (drop index all) st) (\<lambda>(exec_steps, st). Inr (add_steps exec_steps st)))
    (enumerate k logs) st)"
  using assms
proof (induction logs arbitrary: n st k)
  case (Cons geth logs)
  have 1: "ok (one_step (J n)) (gen_associated_ops x (gs_op geth) (drop k all) st)"
    by (rule step_contract.step_handler [OF contract Cons.prems])
  have "ok (J (Suc n)) (bindE (gen_associated_ops x (gs_op geth) (drop k all) st) (\<lambda>(exec_steps, st). Inr (step, add_steps exec_steps st)))"
    using finish_steps [OF 1] by (rule ok_bind) auto
  then have "ok (\<lambda>st. J (Suc n) (step, st))
      (bindE (gen_associated_ops x (gs_op geth) (drop k all) st) (\<lambda>(exec_steps, st). Inr (add_steps exec_steps st)))"
    by (cases "gen_associated_ops x (gs_op geth) (drop k all) st") auto
  then show ?case
    using Cons.IH [of "Suc n" _ "Suc k"] by (auto intro!: ok_bind [where P = "\<lambda>st. J (Suc n) (step, st)"])
qed simp

lemma trace_and_end:
  assumes "J n (step, st)"
    and "foldE (\<lambda>(index, geth_step) st.
      bindE (gen_associated_ops x (gs_op geth_step) (drop index all) st) (\<lambda>(exec_steps, st). Inr (add_steps exec_steps st)))
      (enumerate k logs) st = Inr st1"
    and "gen_end_tx_steps x st1 = Inr (end_step, st2)"
  shows "J (Suc (n + length logs)) (step', add_steps [end_step] st2)"
proof -
  have "J (n + length logs) (step, st1)" using okD [OF trace_loop [OF assms(1)] assms(2)] .
  then have "J (n + length logs) (end_step, st2)"
    using okD [OF step_contract.end_tx [OF contract] assms(3)] by simp
  then show ?thesis by (rule finish)
qed

end

text \<open>The parts of a handled transaction.\<close>

lemma handle_txE:
  assumes "handle_tx x (opcode_handlers x) eth_tx geth_trace is_last_tx tx_index b = Inr b'"
  obtains st0 begin_step st1 st2 end_step st3 st where
    "tx_start x eth_tx geth_trace is_last_tx tx_index b = Inr st0"
    and "gen_begin_tx_steps x st0 = Inr (begin_step, st1)"
    and "foldE (\<lambda>(index, geth_step) st.
      bindE (gen_associated_ops x (gs_op geth_step) (drop index (gt_struct_logs geth_trace)) st)
        (\<lambda>(exec_steps, st). Inr (add_steps exec_steps st)))
      (enumerate 0 (gt_struct_logs geth_trace)) (add_steps [begin_step] st1) = Inr st2"
    and "gen_end_tx_steps x st2 = Inr (end_step, st3)" and "st = add_steps [end_step] st3"
    and "ib_block_ctx b' = cs_block_ctx st"
    and "ib_block b' = (cs_block st)\<lparr>bk_txs := bk_txs (cs_block st) @ [cs_tx st]\<rparr>"
    and "ib_sdb b' = commit_tx (x_keccak256 x) (cs_sdb st)"
  using assms
  by (auto simp: handle_tx_def tx_start_def opcode_handlers_def gen_associated_steps_def Let_def end_ref_def split_beta)

section \<open>The frame of a transaction\<close>

lemma insert_next_sel :
  "cs_sdb (snd (insert_next rw r op st)) = cs_sdb st" "cs_tx (snd (insert_next rw r op st)) = cs_tx st"
  "cs_tx_ctx (snd (insert_next rw r op st)) = cs_tx_ctx st" "cs_code_db (snd (insert_next rw r op st)) = cs_code_db st"
  "cs_rwc (snd (insert_next rw r op st)) = Suc (cs_rwc st)"
  "bx_cumulative_gas_used (cs_block_ctx (snd (insert_next rw r op st))) = bx_cumulative_gas_used (cs_block_ctx st)"
  "bk_coinbase (cs_block (snd (insert_next rw r op st))) = bk_coinbase (cs_block st)"
  "bk_base_fee (cs_block (snd (insert_next rw r op st))) = bk_base_fee (cs_block st)"
  "bk_txs (cs_block (snd (insert_next rw r op st))) = bk_txs (cs_block st)"
  by (simp_all add: insert_next_def rwc_inc_pre_def split_beta Let_def)

lemma push_op_eq: "push_op x rw op (step, st) =
    bindE (case op of OpAccount op \<Rightarrow> check_update_sdb_account (x_keccak256 x) rw op (cs_sdb st) | _ \<Rightarrow> Inr (cs_sdb st)) (\<lambda>sdb.
      Inr (note_ref (fst (insert_next rw False op (st\<lparr>cs_sdb := sdb\<rparr>))) step, snd (insert_next rw False op (st\<lparr>cs_sdb := sdb\<rparr>))))"
  by (simp add: push_op_def split_beta Let_def)

text \<open>
  What a transaction does to the rest: finished transactions, the number of finished steps and the padding stay as they
  are, calls are only added, and the counter only grows.
\<close>

definition tx_grows :: "CircuitInputState \<Rightarrow> CircuitInputState \<Rightarrow> bool" where
  "tx_grows st st' \<longleftrightarrow> bk_txs (cs_block st') = bk_txs (cs_block st) \<and>
     length (tx_steps (cs_tx st')) = length (tx_steps (cs_tx st)) \<and> oc_start (cs_container st') = oc_start (cs_container st) \<and>
     length (tx_calls (cs_tx st)) \<le> length (tx_calls (cs_tx st')) \<and> cs_rwc st \<le> cs_rwc st'"

lemma tx_grows_refl [simp, intro]: "tx_grows st st"
  by (simp add: tx_grows_def)

lemma tx_grows_trans [trans]: "tx_grows s t \<Longrightarrow> tx_grows t u \<Longrightarrow> tx_grows s u"
  by (auto simp: tx_grows_def)

lemma insert_next_grows:
  assumes "insert_next rw reversible op st = (r, st')" and "op_target op \<noteq> TStart"
  shows "tx_grows st st'" and "cs_rwc st' = Suc (cs_rwc st)"
  using assms
  by (auto simp: tx_grows_def insert_next_def rwc_inc_pre_def insert_op_enum_def op_target_def Let_def split: OpEnum.splits)

lemma push_op_grows:
  assumes "push_op x rw op (step, st) = Inr (step', st')" and "op_target op \<noteq> TStart"
  shows "tx_grows st st'" and "cs_rwc st' = Suc (cs_rwc st)"
  using assms(1) by (rule push_opE, use assms(2) insert_next_grows in \<open>fastforce simp: tx_grows_def\<close>)+

lemma check_apply_op_target: "check_apply_op k op sdb = Inr sdb' \<Longrightarrow> op_target op \<noteq> TStart"
  by (auto simp: check_apply_op_def op_target_def split: OpEnum.splits)

lemma push_op_reversible_grows:
  assumes "push_op_reversible x op (step, st) = Inr (step', st')"
  shows "tx_grows st st'"
  using assms
proof (rule push_op_reversibleE)
  fix sdb r st1 tc
  assume "check_apply_op (x_keccak256 x) op (cs_sdb st) = Inr sdb"
    and "insert_next WRITE True op (st\<lparr>cs_sdb := sdb\<rparr>) = (r, st1)" and "st' = st1\<lparr>cs_tx_ctx := tc\<rparr>"
  then show ?thesis using insert_next_grows(1) [OF _ check_apply_op_target] by (fastforce simp: tx_grows_def)
qed

lemma op_key_grows: "op_key st' = op_key st \<Longrightarrow> tx_grows st st'"
  by (auto simp: op_key_def stack_key_def tx_grows_def dest: map_eq_imp_length_eq)

lemma push_call_grows: "push_call call st = Inr st' \<Longrightarrow> tx_grows st st'"
  by (auto simp: push_call_def tx_grows_def Let_def)

lemma pushes_grows: "pushes x ss ss' \<Longrightarrow> tx_grows (snd ss) (snd ss')"
  unfolding pushes_def
proof (induction rule: rtranclp_induct)
  case (step t u)
  then obtain rw op where "op_target op = TCallContext" "push_op x rw op (fst t, snd t) = Inr (fst u, snd u)" by auto
  then have "tx_grows (snd t) (snd u)" using push_op_grows(1) by fastforce
  with step.IH show ?case by (rule tx_grows_trans)
qed simp

lemma apply_reversion_grows:
  assumes "apply_reversion x ir st = Inr st'"
  shows "tx_grows st st'"
proof -
  obtain i r where ir: "ir = (i, r)" by (cases ir)
  from assms consider "st' = st" | op sdb steps where "check_apply_op (x_keccak256 x) op (cs_sdb st) = Inr sdb"
    "st' = snd (insert_next WRITE False op (st\<lparr>cs_sdb := sdb\<rparr>))\<lparr>cs_tx := (cs_tx st)\<lparr>tx_steps := steps\<rparr>\<rparr>"
    "length steps = length (tx_steps (cs_tx st))"
    by (auto simp: apply_reversion_def ir split_beta Let_def insert_next_spec(6) [OF prod.collapse [symmetric]]
        split: option.splits if_splits)
  then show ?thesis
  proof cases
    case (2 op sdb steps)
    have "tx_grows (st\<lparr>cs_sdb := sdb\<rparr>) (snd (insert_next WRITE False op (st\<lparr>cs_sdb := sdb\<rparr>)))"
      by (rule insert_next_grows [OF prod.collapse [symmetric] check_apply_op_target [OF 2(1)]])
    then show ?thesis using 2(3) by (auto simp: 2(2) tx_grows_def)
  qed simp
qed

lemma foldE_grows:
  assumes "foldE f ys st = Inr st'" and "\<And>y s t. f y s = Inr t \<Longrightarrow> tx_grows s t"
  shows "tx_grows st st'"
  using assms by (induction ys arbitrary: st) (auto, metis tx_grows_trans)

lemma return_parts_grow:
  "caller_mut f st = Inr st' \<Longrightarrow> tx_grows st st'"
  "caller_ctx_mut g st = Inr st' \<Longrightarrow> tx_grows st st'"
  "set_end_of_reversion n c st = Inr st' \<Longrightarrow> tx_grows st st'"
  "store_created_code x geth call st = Inr st' \<Longrightarrow> tx_grows st st'"
  by (auto simp: tx_grows_def caller_mut_def caller_ctx_mut_def set_end_of_reversion_def store_created_code_def Let_def
      split_beta split: if_splits prod.split_asm)

lemma return_data_of_grows: "return_data_of geth st = Inr (off, len, st') \<Longrightarrow> tx_grows st st'"
  by (auto simp: return_data_of_def split: if_splits dest!: return_parts_grow(2))

lemma return_to_caller_grows: "return_to_caller call created off len st = Inr st' \<Longrightarrow> tx_grows st st'"
  by (auto simp: return_to_caller_def split: if_splits dest!: return_parts_grow(1,2) intro: tx_grows_trans)

lemma handle_reversion_grows:
  assumes "handle_reversion x st = Inr st'"
  shows "tx_grows st st'"
proof -
  let ?st = "st\<lparr>cs_tx_ctx := (cs_tx_ctx st)\<lparr>tc_reversion_groups := butlast (tc_reversion_groups (cs_tx_ctx st))\<rparr>\<rparr>"
  from assms obtain refs calls n st1 where
    1: "foldE (apply_reversion x) refs ?st = Inr st1" and 2: "foldE (set_end_of_reversion n) calls st1 = Inr st'"
    by (auto simp: handle_reversion_def Let_def split: if_splits)
  have "tx_grows st ?st" by (simp add: tx_grows_def)
  also have "tx_grows ?st st1" by (rule foldE_grows [OF 1 apply_reversion_grows])
  also have "tx_grows st1 st'" by (rule foldE_grows [OF 2 return_parts_grow(3)])
  finally show ?thesis .
qed

lemma handle_return_grows:
  assumes "handle_return x steps need_restore (step, st) = Inr (step', st')"
  shows "tx_grows st st'"
  using assms
proof (rule handle_returnE)
  fix step1 st1 geth rd_o rd_l st2 call created st3 st4 st5 tc'
  assume 1: "(if need_restore then handle_restore_context x steps (step, st) else Inr (step, st)) = Inr (step1, st1)"
    and 2: "return_data_of geth st1 = Inr (rd_o, rd_l, st2)"
    and 3: "(if created then store_created_code x geth call st2 else Inr st2) = Inr st3"
    and 4: "(if \<not> is_success call then handle_reversion x st3 else Inr st3) = Inr st4"
    and 5: "return_to_caller call created rd_o rd_l st4 = Inr st5"
    and st': "st' = st5\<lparr>cs_tx_ctx := tc'\<rparr>"
  have "tx_grows st st1"
    using 1 pushes_grows [OF handle_restore_context_pushes, of x steps "(step, st)" "(step1, st1)"] by (auto split: if_splits)
  also have "tx_grows st1 st2" by (rule return_data_of_grows [OF 2])
  also have "tx_grows st2 st3" using 3 return_parts_grow(4) by (auto split: if_splits)
  also have "tx_grows st3 st4" using 4 handle_reversion_grows by (auto split: if_splits)
  also have "tx_grows st4 st5" by (rule return_to_caller_grows [OF 5])
  also have "tx_grows st5 st'" by (simp add: st' tx_grows_def)
  finally show ?thesis .
qed

definition tx_frame :: "Transaction list \<Rightarrow> RWCounter \<Rightarrow> nat \<Rightarrow> step_state \<Rightarrow> bool" where
  "tx_frame txs m n ss \<longleftrightarrow> bk_txs (cs_block (snd ss)) = txs \<and> m \<le> cs_rwc (snd ss) \<and> length (tx_steps (cs_tx (snd ss))) = n \<and>
     oc_start (cs_container (snd ss)) = [] \<and> tx_calls (cs_tx (snd ss)) \<noteq> []"

lemma tx_frame_grows: "tx_frame txs m n (step, st) \<Longrightarrow> tx_grows st st' \<Longrightarrow> tx_frame txs m n (step', st')"
  by (auto simp: tx_frame_def tx_grows_def)

interpretation frame: run_contract x "tx_frame txs m" for x txs m
proof (unfold_locales, goal_cases)
  case (1 n ss op rw)
  then show ?case using tx_frame_grows push_op_grows(1) by (cases ss) (fastforce intro!: okI)
next
  case (2 n ss op)
  then show ?case using tx_frame_grows push_op_reversible_grows by (cases ss) (fastforce intro!: okI)
next
  case (5 n ss steps need_restore)
  then show ?case using tx_frame_grows handle_return_grows by (cases ss) (fastforce intro!: okI)
next
  case (6 n step st step')
  then show ?case by (simp add: tx_frame_def add_steps_def)
qed (blast intro: tx_frame_grows op_key_grows push_call_grows)+

interpretation run: run_contract x "\<lambda>_. (builder_step x)\<^sup>*\<^sup>* ss0" for x ss0
  by unfold_locales (blast intro: rtranclp.rtrancl_into_rtrancl builder_step.finish)

section \<open>Properties of handled transactions and blocks\<close>

text \<open>
  C2: the handlers refine the builder's state machine. Whatever step of the trace is handled, with whatever error, a
  handler that succeeds returns exactly one step, and that step and the new state are reached by a sequence of the basic
  steps of the builder; the same holds for the beginning and the end of a transaction.
\<close>

theorem handlers_refine_builder:
  "(gen_associated_ops x op steps st = Inr (made, st') \<longrightarrow>
      (\<exists>step'. made = [step'] \<and> (builder_step x)\<^sup>*\<^sup>* (step, st) (step', st'))) \<and>
   (gen_associated_steps x exec_state st = Inr (step', st') \<longrightarrow> (builder_step x)\<^sup>*\<^sup>* (step, st) (step', st'))"
proof (intro conjI impI)
  assume "gen_associated_ops x op steps st = Inr (made, st')"
  then show "\<exists>step'. made = [step'] \<and> (builder_step x)\<^sup>*\<^sup>* (step, st) (step', st')"
    using okD [OF reach.step_handler [of x "(step, st)" step st op steps]] by (simp add: one_step_def)
next
  assume "gen_associated_steps x exec_state st = Inr (step', st')"
  then show "(builder_step x)\<^sup>*\<^sup>* (step, st) (step', st')"
    using okD [OF reach.begin_tx [of x "(step, st)" step st]] okD [OF reach.end_tx [of x "(step, st)" step st]]
    by (auto simp: gen_associated_steps_def split: ExecState.splits)
qed

definition ex_add_steps :: "GethExecStep list" where
  "ex_add_steps =
     [ex_geth_step\<lparr>gs_op := Arith ADD, gs_gas := 3, gs_gas_cost := 3, gs_stack := [4, 3]\<rparr>,
      ex_geth_step\<lparr>gs_pc := 1, gs_op := Arith STOP, gs_stack := [7]\<rparr>]"

theorem handlers_refine_builder_witness:
  "\<exists>made step' st'. gen_associated_ops ex_ext (Arith ADD) ex_add_steps ex_start = Inr (made, st') \<and>
     map (\<lambda>o'. (op_rwc o', op_rw o', stk_address (op_op o'), stk_value (op_op o'))) (oc_stack (cs_container st')) =
       [(1, READ, 1022, 3), (2, READ, 1023, 4), (3, WRITE, 1023, 7)] \<and>
     made = [step'] \<and> (builder_step ex_ext)\<^sup>*\<^sup>* (ex_step, ex_start) (step', st')"
proof -
  have "(case gen_associated_ops ex_ext (Arith ADD) ex_add_steps ex_start of
      Inr (made, st) \<Rightarrow> map (\<lambda>o'. (op_rwc o', op_rw o', stk_address (op_op o'), stk_value (op_op o'))) (oc_stack (cs_container st))
    | Inl _ \<Rightarrow> []) = [(1, READ, 1022, 3), (2, READ, 1023, 4), (3, WRITE, 1023, 7)]"
    by code_simp
  then show ?thesis
    using handlers_refine_builder [of ex_ext "Arith ADD" ex_add_steps ex_start]
    by (fastforce split: sum.splits prod.splits)
qed

end
