(* ===== verification/Example_Block.thy ===== *)
theory Example_Block
  imports Tx_Run
begin

text \<open>
  A block with one transaction, a payment of 5 from account 90 to account 80 with no code, and the evaluation of its
  handling: the beginning of the transaction, an empty trace and its end. The witnesses of the properties of blocks use it.
\<close>

definition ex_pay_tx :: EthTransaction where
  "ex_pay_tx = \<lparr>et_from = 90, et_to = Some 80, et_nonce = 0, et_gas = 21000, et_value = 5, et_gas_price = Some 1,
     et_max_priority_fee_per_gas = None, et_max_fee_per_gas = None, et_input = [], et_transaction_index = Some 0\<rparr>"

definition ex_pay_trace :: GethExecTrace where
  "ex_pay_trace = \<lparr>gt_gas = 21000, gt_failed = False, gt_return_value = [], gt_struct_logs = []\<rparr>"

definition ex_pay_builder :: "unit CircuitInputBuilder" where
  "ex_pay_builder =
     (let zero = account_zero (x_keccak256 ex_ext)
      in builder_new (set_account 1 zero (set_account 80 zero (set_account 90 (zero\<lparr>balance := 100000\<rparr>) sdb_new))) [] ex_block ())"

definition ex_pay_call :: Call where
  "ex_pay_call = call_default\<lparr>call_id := 1, is_root := True, is_persistent := True, is_success := True, caller_address := 90,
     address := 80, code_source := CS_Address 80, cl_code_hash := 5, depth := 1, cl_value := 5\<rparr>"

definition ex_pay_geth_tx :: GethTransaction where
  "ex_pay_geth_tx = \<lparr>gx_from = 90, gx_to = Some 80, gx_nonce = 0, gx_gas_limit = 21000, gx_value = 5, gx_gas_price = 1, gx_gas_tip_cap = 0,
     gx_gas_fee_cap = 0, gx_call_data = []\<rparr>"

definition ex_pay_block :: EthBlock where
  "ex_pay_block = ex_eth_block\<lparr>eb_transactions := [ex_pay_tx]\<rparr>"

text \<open>The calls that the \<open>RwCounterEndOfReversion\<close> operations name.\<close>

definition eor_ids :: "OperationContainer \<Rightarrow> usize set" where
  "eor_ids c = set (map (\<lambda>oper. cco_call_id (op_op oper))
     (filter (\<lambda>oper. cco_field (op_op oper) = CC_RwCounterEndOfReversion) (oc_call_context c)))"

lemma insert_next_more:
  "bx_call_map (cs_block_ctx (snd (insert_next rw r op st))) = bx_call_map (cs_block_ctx st)"
  "eor_ids (cs_container (snd (insert_next rw r op st))) =
     (case op of OpCallContext c \<Rightarrow> if cco_field c = CC_RwCounterEndOfReversion then insert (cco_call_id c) (eor_ids (cs_container st))
        else eor_ids (cs_container st) | _ \<Rightarrow> eor_ids (cs_container st))"
  by (cases op; simp add: insert_next_def rwc_inc_pre_def insert_op_enum_def operation_new_def eor_ids_def split_beta Let_def del: set_map set_filter)+

lemma note_ref_sel [simp]: "es_gas_left (note_ref r step) = es_gas_left step" "es_gas_cost (note_ref r step) = es_gas_cost step"
   "es_error (note_ref r step) = es_error step" "es_log_id (note_ref r step) = es_log_id step"
  by (simp_all add: note_ref_def)

lemma end_ok:
  assumes "es_error step = None" "es_gas_left step = 21000" "es_gas_cost step = 21000"
    "tx_tx (cs_tx st) = ex_pay_geth_tx" "tx_steps (cs_tx st) = [step]" "tx_calls (cs_tx st) = [call]" "kind call = CK_Call"
    "caller_address call = 90" "StateDB.state (cs_sdb st) 90 = Some \<lparr>nonce = 1, balance = 78995, storage = Map.empty, code_hash = 5\<rparr>"
    "StateDB.state (cs_sdb st) 1 = Some \<lparr>nonce = 0, balance = 0, storage = Map.empty, code_hash = 5\<rparr>"
    "refund (cs_sdb st) = 0" "bk_coinbase (cs_block st) = 1" "bk_base_fee (cs_block st) = 0" "bx_cumulative_gas_used (cs_block_ctx st) = 0"
    "tc_id (cs_tx_ctx st) = 1" "tc_is_last_tx (cs_tx_ctx st)"
  shows "\<exists>step st'. gen_end_tx_steps ex_ext st = Inr (step, st') \<and> cs_tx st' = cs_tx st \<and> bk_txs (cs_block st') = bk_txs (cs_block st) \<and>
    eor_ids (cs_container st') = eor_ids (cs_container st) \<and> bx_call_map (cs_block_ctx st') = bx_call_map (cs_block_ctx st)"
  using assms
  by (simp add: ex_pay_geth_tx_def insert_next_sel insert_next_more ex_ext_def gen_end_tx_steps_def new_end_tx_step_def u64_sub_def is_create_def call_kind_is_create_def nth_call_def nth_opt_def
    ok_or_def end_tx_body_def context_reads_def call_context_read_def push_op_eq
    end_tx_payments_def get_account_def u64_add_def u256_mul_def u256_add_def u256_sub_def account_write_def check_update_sdb_account_def
    get_account_mut_def set_account_def is_empty_def account_read_def transfer_to_irreversible_def visible_code_hash_def
    end_tx_receipt_def tx_receipt_write_def tx_receipt_read_def exec_step_default_def empty_code_hash_def code_hash_of_def
    MAX_REFUND_QUOTIENT_OF_GAS_USED_def Let_def)

lemma pay_start: "tx_start ex_ext ex_pay_tx ex_pay_trace True 1 ex_pay_builder = Inr
   \<lparr>cs_sdb = ib_sdb ex_pay_builder, cs_code_db = [], cs_block = ex_block,
      cs_block_ctx = block_context_new\<lparr>bx_call_map := [1 \<mapsto> (0, 0)]\<rparr>,
      cs_tx = \<lparr>tx_id = 1, tx_tx = ex_pay_geth_tx, tx_calls = [ex_pay_call], tx_steps = []\<rparr>,
      cs_tx_ctx = \<lparr>tc_id = 1, tc_log_id = 0, tc_is_last_tx = True,
        tc_calls = [\<lparr>cx_index = 0, cx_reversible_write_counter = 0, cx_call_data = [], cx_memory = [], cx_return_data = []\<rparr>],
        tc_call_is_success = [True], tc_reversion_groups = []\<rparr>\<rparr>"
  by (simp add: tx_start_def new_tx_def transaction_new_def ex_pay_tx_def ex_pay_trace_def ex_pay_builder_def builder_new_def
      ex_ext_def ok_or_def Let_def codedb_insert_def code_hash_of_def geth_transaction_from_def u256_as_u64_def
      tx_ctx_new_def collect_call_is_success_def push_call_ctx_def nth_opt_def state_ref_def get_account_def set_account_def
      memory_new_def block_context_new_def rwc_new_def unwrap_or_default_def call_default_def sdb_new_def account_zero_def ex_pay_geth_tx_def
    ex_pay_call_def empty_code_hash_def)

lemma not_precompiled: "\<not> is_precompiled 80"
  by (simp add: is_precompiled_def be_bytes_def le_bytes_def Let_def rev_nth)

lemma begin_ok:
  assumes st: "cs_tx st = \<lparr>tx_id = 1, tx_tx = ex_pay_geth_tx, tx_calls = [ex_pay_call], tx_steps = []\<rparr>"
   "cs_tx_ctx st = \<lparr>tc_id = 1, tc_log_id = 0, tc_is_last_tx = True,
        tc_calls = [\<lparr>cx_index = 0, cx_reversible_write_counter = 0, cx_call_data = [], cx_memory = [], cx_return_data = []\<rparr>],
        tc_call_is_success = [True], tc_reversion_groups = []\<rparr>"
   "cs_sdb st = ib_sdb ex_pay_builder" "cs_block st = ex_block" "bx_cumulative_gas_used (cs_block_ctx st) = 0"
  shows "\<exists>step st'. gen_begin_tx_steps ex_ext st = Inr (step, st') \<and> es_error step = None \<and> es_gas_left step = 21000 \<and> es_gas_cost step = 21000 \<and>
     cs_tx st' = cs_tx st \<and> tc_id (cs_tx_ctx st') = 1 \<and> tc_is_last_tx (cs_tx_ctx st') \<and>
    StateDB.state (cs_sdb st') 90 = Some \<lparr>nonce = 1, balance = 78995, storage = Map.empty, code_hash = 5\<rparr> \<and>
    StateDB.state (cs_sdb st') 1 = Some \<lparr>nonce = 0, balance = 0, storage = Map.empty, code_hash = 5\<rparr> \<and>
    refund (cs_sdb st') = 0 \<and> bk_coinbase (cs_block st') = 1 \<and> bk_base_fee (cs_block st') = 0 \<and> bx_cumulative_gas_used (cs_block_ctx st') = 0 \<and>
    bk_txs (cs_block st') = [] \<and> eor_ids (cs_container st') = insert 1 (eor_ids (cs_container st)) \<and>
    bx_call_map (cs_block_ctx st') = bx_call_map (cs_block_ctx st)"
  by (simp add: st insert_next_sel insert_next_more ex_ext_def ex_pay_builder_def builder_new_def set_account_def account_zero_def sdb_new_def
     gen_begin_tx_steps_def cur_call_def call_index_def call_ctx_def nth_call_def nth_opt_def ok_or_def
     context_writes_def tx_reversion_fields_def reversion_info_fields_def call_context_write_def push_op_eq
     ex_pay_geth_tx_def ex_pay_call_def call_default_def ex_block_def
     begin_tx_body_def u64_add_def account_write_def
    check_update_sdb_account_def get_account_mut_def get_account_def is_empty_def warm_address_def
    add_account_to_access_list_def tx_accesslist_account_write_def intrinsic_gas_def tx_is_create_def call_data_gas_cost_def
    is_create_def call_kind_is_create_def
     transfer_with_fee_def u256_add_def u256_sub_def u256_mul_def unwrap_or_default_def account_op_def
    push_op_reversible_def check_apply_op_def split_beta call_ctx_mut_def
    map_last_def begin_tx_call_def Let_def
    account_read_def empty_code_hash_def code_hash_of_def GasCost_TX_def new_begin_tx_step_def  not_precompiled exec_step_default_def)


lemma pay_handled:
  "\<exists>b'. handle_tx ex_ext (opcode_handlers ex_ext) ex_pay_tx ex_pay_trace True 1 ex_pay_builder = Inr b' \<and>
     eor_ids (bk_container (ib_block b')) \<subseteq> {1} \<and> bx_call_map (ib_block_ctx b') = [1 \<mapsto> (0, 0)] \<and>
     map tx_calls (bk_txs (ib_block b')) = [[ex_pay_call]]"
proof -
  let ?tx = "\<lparr>tx_id = 1, tx_tx = ex_pay_geth_tx, tx_calls = [ex_pay_call], tx_steps = []\<rparr>"
  let ?st = "\<lparr>cs_sdb = ib_sdb ex_pay_builder, cs_code_db = [], cs_block = ex_block,
      cs_block_ctx = block_context_new\<lparr>bx_call_map := [1 \<mapsto> (0, 0)]\<rparr>, cs_tx = ?tx,
      cs_tx_ctx = \<lparr>tc_id = 1, tc_log_id = 0, tc_is_last_tx = True,
        tc_calls = [\<lparr>cx_index = 0, cx_reversible_write_counter = 0, cx_call_data = [], cx_memory = [], cx_return_data = []\<rparr>],
        tc_call_is_success = [True], tc_reversion_groups = []\<rparr>\<rparr>"
  have e: "eor_ids (bk_container ex_block) = {}" by (simp add: eor_ids_def ex_block_def container_new_def)
  have "\<exists>step st'. gen_begin_tx_steps ex_ext ?st = Inr (step, st') \<and> es_error step = None \<and> es_gas_left step = 21000 \<and> es_gas_cost step = 21000 \<and>
     cs_tx st' = cs_tx ?st \<and> tc_id (cs_tx_ctx st') = 1 \<and> tc_is_last_tx (cs_tx_ctx st') \<and>
    StateDB.state (cs_sdb st') 90 = Some \<lparr>nonce = 1, balance = 78995, storage = Map.empty, code_hash = 5\<rparr> \<and>
    StateDB.state (cs_sdb st') 1 = Some \<lparr>nonce = 0, balance = 0, storage = Map.empty, code_hash = 5\<rparr> \<and>
    refund (cs_sdb st') = 0 \<and> bk_coinbase (cs_block st') = 1 \<and> bk_base_fee (cs_block st') = 0 \<and> bx_cumulative_gas_used (cs_block_ctx st') = 0 \<and>
    bk_txs (cs_block st') = [] \<and> eor_ids (cs_container st') = insert 1 (eor_ids (cs_container ?st)) \<and>
    bx_call_map (cs_block_ctx st') = bx_call_map (cs_block_ctx ?st)"
    by (rule begin_ok) (simp_all add: block_context_new_def)
  then obtain step st1 where 1: "gen_begin_tx_steps ex_ext ?st = Inr (step, st1)" and
    s1: "es_error step = None" "es_gas_left step = 21000" "es_gas_cost step = 21000" "cs_tx st1 = ?tx"
     "tc_id (cs_tx_ctx st1) = 1" "tc_is_last_tx (cs_tx_ctx st1)"
    "StateDB.state (cs_sdb st1) 90 = Some \<lparr>nonce = 1, balance = 78995, storage = Map.empty, code_hash = 5\<rparr>"
    "StateDB.state (cs_sdb st1) 1 = Some \<lparr>nonce = 0, balance = 0, storage = Map.empty, code_hash = 5\<rparr>"
    "refund (cs_sdb st1) = 0" "bk_coinbase (cs_block st1) = 1" "bk_base_fee (cs_block st1) = 0"
    "bx_cumulative_gas_used (cs_block_ctx st1) = 0"
    "bk_txs (cs_block st1) = []" "eor_ids (cs_container st1) = {1}" "bx_call_map (cs_block_ctx st1) = [1 \<mapsto> (0, 0)]"
    by (auto simp: e)
  let ?st1 = "add_steps [step] st1"
  have "\<exists>end_step st'. gen_end_tx_steps ex_ext ?st1 = Inr (end_step, st') \<and> cs_tx st' = cs_tx ?st1 \<and> bk_txs (cs_block st') = bk_txs (cs_block ?st1) \<and>
    eor_ids (cs_container st') = eor_ids (cs_container ?st1) \<and> bx_call_map (cs_block_ctx st') = bx_call_map (cs_block_ctx ?st1)"
    by (rule end_ok [where call = ex_pay_call]) (simp_all add: s1 add_steps_def ex_pay_call_def call_default_def)
  then obtain end_step st2 where 2: "gen_end_tx_steps ex_ext ?st1 = Inr (end_step, st2)" and
    s2: "cs_tx st2 = cs_tx ?st1" "bk_txs (cs_block st2) = []" "eor_ids (cs_container st2) = {1}" "bx_call_map (cs_block_ctx st2) = [1 \<mapsto> (0, 0)]"
    by (auto simp: s1 add_steps_def)
  from pay_start obtain tx b tc where 0: "new_tx ex_ext 1 ex_pay_tx (\<not> gt_failed ex_pay_trace) ex_pay_builder = Inr (tx, b)"
    "tx_ctx_new ex_pay_tx ex_pay_trace True = Inr tc" "state_ref tx tc b = ?st"
    by (auto simp: tx_start_def)
  have l: "gt_struct_logs ex_pay_trace = []" by (simp add: ex_pay_trace_def)
  have "\<exists>b'. handle_tx ex_ext (opcode_handlers ex_ext) ex_pay_tx ex_pay_trace True 1 ex_pay_builder = Inr b' \<and>
    ib_block_ctx b' = cs_block_ctx st2 \<and> ib_block b' = (cs_block st2)\<lparr>bk_txs := [cs_tx (add_steps [end_step] st2)]\<rparr>"
    unfolding handle_tx_def 0 bindE_Inr prod.case 0(3) opcode_handlers_def gen_associated_steps_def Handlers.select_convs ExecState.case 1 Let_def l
    using 2 s2(2) by (simp add: end_ref_def add_steps_def)
  then show ?thesis using s1(4) s2 by (auto simp: add_steps_def)
qed

lemma pay_block_begun:
  "\<exists>b1. begin_handle_block ex_ext (opcode_handlers ex_ext) ex_pay_block [ex_pay_trace] ex_pay_builder = Inr b1"
proof -
  from pay_handled obtain b where b: "handle_tx ex_ext (opcode_handlers ex_ext) ex_pay_tx ex_pay_trace True 1 ex_pay_builder = Inr b"
    "eor_ids (bk_container (ib_block b)) \<subseteq> {1}" "bx_call_map (ib_block_ctx b) = [1 \<mapsto> (0, 0)]"
    "map tx_calls (bk_txs (ib_block b)) = [[ex_pay_call]]" by (elim exE conjE) (rule that)
  have "mapE (set_rwc_eor (ib_block_ctx b) (bk_txs (ib_block b))) (oc_call_context (bk_container (ib_block b))) =
      Inr (map (filled b) (oc_call_context (bk_container (ib_block b))))"
    using b(2,3,4) by (intro mapE_eq_map set_rwc_eor_eq) (auto simp: eor_ids_def named_call_def nth_opt_def)
  then show ?thesis
    by (simp add: begin_handle_block_def ex_pay_block_def nth_opt_def ok_or_def b(1) set_value_ops_call_context_rwc_eor_def Let_def)
qed

end
