(* ===== verification/Block_Run.thy ===== *)
theory Block_Run
  imports Example_Block
begin

text \<open>
  Whole blocks. \<open>handle_tx\<close>, \<open>begin_handle_block\<close> and \<open>handle_block\<close> are run with the opcode handlers of the source:
  the counters of a block stay gapless from transaction to transaction, every transaction leaves one step for each step
  of its trace, and the end of the block fits the computed parameters.
\<close>

section \<open>Transactions of a block\<close>

lemma begin_tx_grows:
  assumes "gen_begin_tx_steps x st = Inr (step', st')" and "tx_frame txs m n (step, st)"
  shows "tx_frame txs (Suc m) n (step', st')"
proof -
  from assms(1) obtain call where "cur_call st = Inr call" and
    w: "bindE (context_writes x (call_id call) (tx_reversion_fields st call @ [(CC_IsSuccess, word_of_bool (is_success call))])
      (new_begin_tx_step st, st)) (begin_tx_body x call) = Inr (step', st')"
    by (auto simp: gen_begin_tx_steps_def)
  then obtain s1 st1 where 1: "call_context_write x (call_id call) CC_TxId (of_nat (tc_id (cs_tx_ctx st))) (new_begin_tx_step st, st) = Inr (s1, st1)"
    and 2: "bindE (context_writes x (call_id call) (reversion_info_fields call @ [(CC_IsSuccess, word_of_bool (is_success call))]) (s1, st1))
      (begin_tx_body x call) = Inr (step', st')"
    by (auto simp: context_writes_def tx_reversion_fields_def bindE_assoc simp del: bindE_eq_Inr)
  have "tx_grows st st1" "cs_rwc st1 = Suc (cs_rwc st)"
    using 1 push_op_grows [of x WRITE _ "new_begin_tx_step st" st s1 st1] by (auto simp: call_context_write_def op_target_def)
  then have "tx_frame txs (Suc m) n (s1, st1)" using assms(2) by (auto simp: tx_frame_def tx_grows_def)
  then have "ok (tx_frame txs (Suc m) n) (context_writes x (call_id call) (reversion_info_fields call @
      [(CC_IsSuccess, word_of_bool (is_success call))]) (s1, st1))"
    by (rule push_contract.context_ops(2) [OF step_contract.axioms(1) [OF frame.contract]])
  then have "ok (tx_frame txs (Suc m) n) (bindE (context_writes x (call_id call) (reversion_info_fields call @
      [(CC_IsSuccess, word_of_bool (is_success call))]) (s1, st1)) (begin_tx_body x call))"
    by (rule ok_bind) (rule step_contract.tx_bodies(1) [OF frame.contract])
  then show ?thesis using 2 by (rule okD)
qed

definition block_dense :: "'c CircuitInputBuilder \<Rightarrow> bool" where
  "block_dense b \<longleftrightarrow> 1 \<le> bx_rwc (ib_block_ctx b) \<and>
     mset (container_rwcs (bk_container (ib_block b))) = mset [1..<bx_rwc (ib_block_ctx b)] \<and>
     oc_start (bk_container (ib_block b)) = []"

lemma handle_tx_block:
  assumes run: "handle_tx x (opcode_handlers x) eth_tx geth_trace is_last_tx tx_index b = Inr b'" and dense: "block_dense b"
  shows "block_dense b'" and "bx_rwc (ib_block_ctx b) < bx_rwc (ib_block_ctx b')"
    and "\<exists>tx. bk_txs (ib_block b') = bk_txs (ib_block b) @ [tx] \<and> length (tx_steps tx) = length (gt_struct_logs geth_trace) + 2 \<and>
      tx_calls tx \<noteq> []"
proof -
  from run obtain st0 begin_step st1 st2 end_step st3 st where
    0: "tx_start x eth_tx geth_trace is_last_tx tx_index b = Inr st0" and
    1: "gen_begin_tx_steps x st0 = Inr (begin_step, st1)" and
    2: "foldE (\<lambda>(index, geth_step) st.
      bindE (gen_associated_ops x (gs_op geth_step) (drop index (gt_struct_logs geth_trace)) st)
        (\<lambda>(exec_steps, st). Inr (add_steps exec_steps st)))
      (enumerate 0 (gt_struct_logs geth_trace)) (add_steps [begin_step] st1) = Inr st2" and
    3: "gen_end_tx_steps x st2 = Inr (end_step, st3)" and st: "st = add_steps [end_step] st3"
      "ib_block_ctx b' = cs_block_ctx st" "ib_block b' = (cs_block st)\<lparr>bk_txs := bk_txs (cs_block st) @ [cs_tx st]\<rparr>"
    by (rule handle_txE)
  let ?n = "length (gt_struct_logs geth_trace)" and ?m = "bx_rwc (ib_block_ctx b)"
  have f0: "tx_frame (bk_txs (ib_block b)) ?m 0 (begin_step, st0)" and d0: "counters_dense st0"
    by (rule tx_startE [OF 0], use dense in \<open>simp add: tx_frame_def block_dense_def counters_dense_def del: mset_upt\<close>)+
  have "tx_frame (bk_txs (ib_block b)) (Suc ?m) (Suc 0) (begin_step, add_steps [begin_step] st1)"
    by (rule frame.finish [OF begin_tx_grows [OF 1 f0]])
  from frame.trace_and_end [OF this 2 3]
  have f: "tx_frame (bk_txs (ib_block b)) (Suc ?m) (Suc (Suc 0 + ?n)) (end_step, st)" by (simp add: st(1))
  have "(builder_step x)\<^sup>*\<^sup>* (begin_step, st0) (begin_step, st1)"
    using okD [OF reach.begin_tx [of x "(begin_step, st0)" begin_step st0] 1] by simp
  from run.trace_and_end [OF run.finish [OF this] 2 3]
  have "(builder_step x)\<^sup>*\<^sup>* (begin_step, st0) (end_step, st)" by (simp add: st(1))
  then have "counters_dense st" using builder_steps_invariant tx_start_stack_ok [OF 0] d0 by fastforce
  then show "block_dense b'" "?m < bx_rwc (ib_block_ctx b')" and "\<exists>tx. bk_txs (ib_block b') = bk_txs (ib_block b) @ [tx] \<and> length (tx_steps tx) = ?n + 2 \<and>
      tx_calls tx \<noteq> []"
    using f by (auto simp: block_dense_def counters_dense_def tx_frame_def st container_rwcs_def simp del: mset_upt)
qed

lemma set_value_ops_frame:
  assumes "set_value_ops_call_context_rwc_eor b = Inr b'"
  shows "ib_block_ctx b' = ib_block_ctx b" "bk_txs (ib_block b') = bk_txs (ib_block b)" "block_dense b' = block_dense b"
proof -
  from assms obtain ops where ops: "list_all2 (\<lambda>oper oper'. set_rwc_eor (ib_block_ctx b) (bk_txs (ib_block b)) oper = Inr oper')
      (oc_call_context (bk_container (ib_block b))) ops"
    and b': "b' = b\<lparr>ib_block := (ib_block b)\<lparr>bk_container := (bk_container (ib_block b))\<lparr>oc_call_context := ops\<rparr>\<rparr>\<rparr>"
    by (auto simp: set_value_ops_call_context_rwc_eor_def Let_def dest: mapE_InrD)
  have "map op_rwc ops = map op_rwc (oc_call_context (bk_container (ib_block b)))"
    using ops by (induction rule: list_all2_induct) (auto simp: set_rwc_eor_def split: if_splits option.splits)
  then show "ib_block_ctx b' = ib_block_ctx b" "bk_txs (ib_block b') = bk_txs (ib_block b)" "block_dense b' = block_dense b"
    by (simp_all add: b' block_dense_def container_rwcs_def)
qed

text \<open>The block after the first \<open>k\<close> transactions.\<close>

definition block_after :: "GethExecTrace list \<Rightarrow> nat \<Rightarrow> 'c CircuitInputBuilder \<Rightarrow> bool" where
  "block_after traces k b \<longleftrightarrow> block_dense b \<and>
     map (\<lambda>tx. length (tx_steps tx)) (bk_txs (ib_block b)) = map (\<lambda>t. length (gt_struct_logs t) + 2) (take k traces) \<and>
     length (bk_txs (ib_block b)) = k \<and> (\<forall>tx \<in> set (bk_txs (ib_block b)). tx_calls tx \<noteq> []) \<and>
     (k = 0 \<longleftrightarrow> bx_rwc (ib_block_ctx b) = 1)"

lemma handle_tx_after:
  assumes "handle_tx x (opcode_handlers x) eth_tx trace is_last_tx tx_index b = Inr b'"
    and "block_after traces k b" and "nth_opt traces k = Some trace"
  shows "block_after traces (Suc k) b'"
proof -
  have "block_dense b" using assms(2) by (simp add: block_after_def)
  from handle_tx_block [OF assms(1) this] show ?thesis
    using assms(2,3) by (auto simp: block_after_def take_Suc_conv_app_nth block_dense_def simp del: mset_upt)
qed

lemma handle_txs_after:
  assumes "foldE (\<lambda>(idx, tx) b.
         bindE (ok_or (nth_opt traces idx) (Panic ''index out of bounds'')) (\<lambda>geth_trace.
           handle_tx x (opcode_handlers x) tx geth_trace (idx + 1 = n) (of_nat (idx + 1)) b))
       (enumerate k txs) b = Inr b'"
    and "block_after traces k b"
  shows "block_after traces (k + length txs) b'"
  using assms
proof (induction txs arbitrary: k b)
  case (Cons tx txs)
  then obtain trace b1 where "nth_opt traces k = Some trace" "handle_tx x (opcode_handlers x) tx trace (k + 1 = n) (of_nat (k + 1)) b = Inr b1"
    and r: "foldE (\<lambda>(idx, tx) b.
         bindE (ok_or (nth_opt traces idx) (Panic ''index out of bounds'')) (\<lambda>geth_trace.
           handle_tx x (opcode_handlers x) tx geth_trace (idx + 1 = n) (of_nat (idx + 1)) b))
       (enumerate (Suc k) txs) b1 = Inr b'" by auto
  then have "block_after traces (Suc k) b1" using handle_tx_after [OF _ Cons.prems(2)] by blast
  from Cons.IH [OF r this] show ?case by simp
qed simp

lemma begin_handle_block_after:
  assumes "begin_handle_block x (opcode_handlers x) eth_block traces b = Inr b'" and "block_after traces 0 b"
  shows "block_after traces (length (eb_transactions eth_block)) b'"
proof -
  from assms(1) obtain b1 where 1: "foldE (\<lambda>(idx, tx) b.
         bindE (ok_or (nth_opt traces idx) (Panic ''index out of bounds'')) (\<lambda>geth_trace.
           handle_tx x (opcode_handlers x) tx geth_trace (idx + 1 = length (eb_transactions eth_block)) (of_nat (idx + 1)) b))
       (enumerate 0 (eb_transactions eth_block)) b = Inr b1"
    and 2: "set_value_ops_call_context_rwc_eor (b1\<lparr>ib_block := (ib_block b1)\<lparr>bk_eth_block := eth_block\<rparr>\<rparr>) = Inr b'"
    by (auto simp: begin_handle_block_def)
  have "block_after traces (length (eb_transactions eth_block)) b1" using handle_txs_after [OF 1 assms(2)] by simp
  then show ?thesis using set_value_ops_frame [OF 2] by (simp add: block_after_def block_dense_def del: mset_upt)
qed

section \<open>The end of a handled block\<close>

lemma set_end_block_keeps:
  assumes "set_end_block x max_rws b = Inr b'"
  shows "bk_txs (ib_block b') = bk_txs (ib_block b)" and "ib_circuits_params b' = ib_circuits_params b"
  using assms
  by (auto simp: set_end_block_def Let_def state_ref_def end_ref_def push_start_op_eq call_context_read_def push_op_eq
      insert_next_sel split_beta split: if_splits)

lemma block_after_ready: "block_after traces k b \<Longrightarrow> block_ready b \<and> (bk_txs (ib_block b) = [] \<longleftrightarrow> bx_rwc (ib_block_ctx b) = 1)"
  by (auto simp: block_after_def block_dense_def block_ready_def simp del: mset_upt)

lemma handle_block_padded:
  assumes begin_ok: "begin_handle_block x (opcode_handlers x) eth_block traces b = Inr b1" and fresh: "block_after traces 0 b"
  shows "\<exists>c b'. compute_params eth_block b1 = Inr c \<and> handle_block_dynamic x (opcode_handlers x) eth_block traces b = Inr b' \<and>
    ib_circuits_params b' = c \<and> bk_txs (ib_block b') = bk_txs (ib_block b1) \<and>
    fp_max_rws c = rws_before_padding b1 + 1 \<and> oc_start (bk_container (ib_block b')) = padding_ops 1 \<and>
    mset (container_rwcs (bk_container (ib_block b'))) = add_mset 1 (mset [1..<fp_max_rws c])"
proof -
  have ready: "block_ready b1" and ne: "bk_txs (ib_block b1) = [] \<longleftrightarrow> bx_rwc (ib_block_ctx b1) = 1"
    using block_after_ready [OF begin_handle_block_after [OF assms]] by simp_all
  then obtain c where c: "compute_params eth_block b1 = Inr c" and n: "fp_max_rws c = rws_before_padding b1 + 1"
    by (auto simp: compute_params_def usize_sub_def block_ready_def rws_before_padding_def simp del: mset_upt)
  let ?b = "\<lparr>ib_sdb = ib_sdb b1, ib_code_db = ib_code_db b1, ib_block = ib_block b1,
      ib_circuits_params = c, ib_block_ctx = ib_block_ctx b1\<rparr>"
  have "block_ready ?b" and n': "rws_before_padding ?b = rws_before_padding b1"
    using ready by (simp_all add: block_ready_def rws_before_padding_def)
  from set_end_block_padded [OF this(1), of "fp_max_rws c" x] obtain b' where
    b': "set_end_block x (fp_max_rws c) ?b = Inr b'"
      "mset (container_rwcs (bk_container (ib_block b'))) = mset [1..<rws_before_padding b1 + 1] + mset (map op_rwc (padding_ops 1))"
      "oc_start (bk_container (ib_block b')) = padding_ops 1"
    by (auto simp: n n')
  moreover have "mset (map op_rwc (padding_ops 1)) = {#1#}" by (simp add: padding_ops_def)
  ultimately show ?thesis
    using begin_ok c n set_end_block_keeps [OF b'(1)] by (simp add: handle_block_dynamic_def del: mset_upt)
qed

lemma pay_fresh: "block_after traces 0 ex_pay_builder"
  by (simp add: block_after_def block_dense_def ex_pay_builder_def builder_new_def ex_block_def block_context_new_def
      rwc_new_def container_new_def container_rwcs_def Let_def)

section \<open>Properties of handled transactions and blocks\<close>

text \<open>
  C18: a handled transaction. When \<open>handle_tx\<close> succeeds on a block whose counters are gapless, the counters of the new
  block are gapless again and the counter has grown, the earlier transactions are as they were, and the one new
  transaction has a step for every step of the trace, one for its beginning and one for its end, and at least its root
  call.
\<close>

theorem handled_transaction:
  assumes "handle_tx x (opcode_handlers x) eth_tx geth_trace is_last_tx tx_index b = Inr b'" and "block_dense b"
  shows "block_dense b' \<and> bx_rwc (ib_block_ctx b) < bx_rwc (ib_block_ctx b') \<and>
    (\<exists>tx. bk_txs (ib_block b') = bk_txs (ib_block b) @ [tx] \<and>
      length (tx_steps tx) = length (gt_struct_logs geth_trace) + 2 \<and> tx_calls tx \<noteq> [])"
  using handle_tx_block [OF assms] by blast

theorem handled_transaction_witness:
  "\<exists>b' tx. handle_tx ex_ext (opcode_handlers ex_ext) ex_pay_tx ex_pay_trace True 1 ex_pay_builder = Inr b' \<and>
     block_dense b' \<and> bk_txs (ib_block b') = [tx] \<and> length (tx_steps tx) = 2"
proof -
  from pay_handled obtain b' where b': "handle_tx ex_ext (opcode_handlers ex_ext) ex_pay_tx ex_pay_trace True 1 ex_pay_builder = Inr b'" by blast
  from handled_transaction [OF this] pay_fresh show ?thesis
    using b' by (auto simp: block_after_def ex_pay_trace_def)
qed

text \<open>
  C1: a handled block. When all the transactions of a block are handled, starting from an empty block, then
  \<open>handle_block\<close> with computed parameters never fails in what remains: the counters of the operations are exactly
  1 to \<open>max_rws - 1\<close>, the padding is one \<open>Start\<close> operation, so that the rows are exactly \<open>max_rws\<close>, and the block has a
  transaction for every transaction of the Ethereum block, each with its steps.
\<close>

theorem handled_block:
  assumes "begin_handle_block x (opcode_handlers x) eth_block traces b = Inr b1" and "block_after traces 0 b"
  shows "\<exists>b'. handle_block_dynamic x (opcode_handlers x) eth_block traces b = Inr b' \<and>
    mset (container_rwcs (bk_container (ib_block b'))) = add_mset 1 (mset [1..<fp_max_rws (ib_circuits_params b')]) \<and>
    map op_rwc (oc_start (bk_container (ib_block b'))) = [1] \<and>
    length (container_rwcs (bk_container (ib_block b'))) = fp_max_rws (ib_circuits_params b') \<and>
    length (bk_txs (ib_block b')) = length (eb_transactions eth_block) \<and>
    map (\<lambda>tx. length (tx_steps tx)) (bk_txs (ib_block b')) =
      map (\<lambda>trace. length (gt_struct_logs trace) + 2) (take (length (eb_transactions eth_block)) traces)"
proof -
  from handle_block_padded [OF assms] obtain b' where
    b': "handle_block_dynamic x (opcode_handlers x) eth_block traces b = Inr b'"
      "bk_txs (ib_block b') = bk_txs (ib_block b1)" "oc_start (bk_container (ib_block b')) = padding_ops 1"
      "fp_max_rws (ib_circuits_params b') = rws_before_padding b1 + 1"
      "mset (container_rwcs (bk_container (ib_block b'))) = add_mset 1 (mset [1..<fp_max_rws (ib_circuits_params b')])"
    by blast
  have "length (container_rwcs (bk_container (ib_block b'))) = fp_max_rws (ib_circuits_params b')"
    using arg_cong [OF b'(5), of size] b'(4) by (simp del: mset_upt)
  then show ?thesis
    using begin_handle_block_after [OF assms] b'(1,2,3,5) by (simp add: block_after_def padding_ops_def del: mset_upt)
qed

theorem handled_block_witness:
  "\<exists>b'. handle_block_dynamic ex_ext (opcode_handlers ex_ext) ex_pay_block [ex_pay_trace] ex_pay_builder = Inr b' \<and>
     length (container_rwcs (bk_container (ib_block b'))) = fp_max_rws (ib_circuits_params b') \<and>
     map (\<lambda>tx. length (tx_steps tx)) (bk_txs (ib_block b')) = [2]"
proof -
  from pay_block_begun obtain b1 where
    "begin_handle_block ex_ext (opcode_handlers ex_ext) ex_pay_block [ex_pay_trace] ex_pay_builder = Inr b1" by blast
  from handled_block [OF this pay_fresh] show ?thesis by (auto simp: ex_pay_trace_def ex_pay_block_def)
qed

end
