(* ===== verification/Handler_Specs.thy ===== *)
theory Handler_Specs
  imports Tx_Handlers
begin

text \<open>
  Functional specifications of single handlers, beside what all of them share (\<open>Handler_Steps\<close>).
\<close>

section \<open>EXP\<close>

text \<open>
  The steps recorded for an exponentiation: each multiplies the result of the one before by itself or by the base.
\<close>

fun exp_chain :: "Word \<Rightarrow> Word \<Rightarrow> ExpStep list \<Rightarrow> bool" where
  "exp_chain base a [] = True"
| "exp_chain base a (s # steps) \<longleftrightarrow>
     xs_a s = a \<and> xs_b s \<in> {a, base} \<and> xs_d s = xs_a s * xs_b s \<and> exp_chain base (xs_d s) steps"

lemma exp_chain_append:
  "exp_chain base a (xs @ ys) \<longleftrightarrow> exp_chain base a xs \<and> exp_chain base (last (a # map xs_d xs)) ys"
  by (induction xs arbitrary: a) auto

lemma power_halves: "(b :: 'a :: monoid_mult) ^ n = (if even n then b ^ (n div 2) * b ^ (n div 2) else b * (b ^ (n div 2) * b ^ (n div 2)))"
  by (cases "even n") (auto simp: mult_2 power_add [symmetric] power_Suc [symmetric] elim!: evenE oddE simp del: power_Suc)

lemma exp_by_squaring_steps:
  "\<exists>made. exp_by_squaring base exponent steps = (base ^ unat exponent, steps @ made) \<and> exp_chain base base made \<and>
     (exponent \<noteq> 0 \<longrightarrow> last (base # map xs_d made) = base ^ unat exponent) \<and>
     (\<forall>n. unat exponent < 2 ^ Suc n \<longrightarrow> length made \<le> 2 * n)"
proof (induction base exponent steps rule: exp_by_squaring.induct)
  case (1 base exponent steps)
  show ?case
  proof (cases "exponent = 0 \<or> exponent = 1")
    case True
    then have "exp_by_squaring base exponent steps = (base ^ unat exponent, steps @ [])"
      by (elim disjE) (simp_all add: exp_by_squaring.simps [of base])
    then show ?thesis using True by (intro exI [of _ "[]"]) auto
  next
    case False
    let ?e = "base ^ unat (exponent div 2)"
    have half: "unat (exponent div 2) = unat exponent div 2" by (simp add: unat_div)
    have parity: "exponent mod 2 = 0 \<longleftrightarrow> even (unat exponent)"
      by (simp add: unat_arith_simps(3) unat_mod even_iff_mod_2_eq_zero)
    have big: "2 \<le> unat exponent" using False unat_gt_0 [of exponent] by (metis One_nat_def Suc_leI le_neq_implies_less less_2_cases_iff not_less unat_1 unat_eq_zero word_unat_eq_iff)
    then have "exponent div 2 \<noteq> 0" using half by (metis div_greater_zero_iff not_gr_zero unat_0 zero_less_numeral)
    with False 1 obtain made where made: "exp_by_squaring base (exponent div 2) steps = (?e, steps @ made)"
      "exp_chain base base made" "last (base # map xs_d made) = ?e" "\<And>n. unat exponent div 2 < 2 ^ Suc n \<Longrightarrow> length made \<le> 2 * n"
      by (auto simp: half)
    let ?made = "made @ \<lparr>xs_a = ?e, xs_b = ?e, xs_d = ?e * ?e\<rparr> #
      (if even (unat exponent) then [] else [\<lparr>xs_a = ?e * ?e, xs_b = base, xs_d = base * (?e * ?e)\<rparr>])"
    have len: "length ?made \<le> 2 * n" if n: "unat exponent < 2 ^ Suc n" for n
    proof (cases n)
      case 0
      then show ?thesis using n big by simp
    next
      case (Suc m)
      then show ?thesis using made(4) [of m] n by auto
    qed
    have "exp_by_squaring base exponent steps = (base ^ unat exponent, steps @ ?made)"
      using False made(1) power_halves [of base "unat exponent"] by (auto simp: exp_by_squaring.simps [of base exponent] parity half Let_def)
    moreover have "exp_chain base base ?made" using made(2,3) by (auto simp: exp_chain_append mult.commute)
    moreover have "last (base # map xs_d ?made) = base ^ unat exponent"
      using power_halves [of base "unat exponent"] by (auto simp: half)
    ultimately show ?thesis using len by blast
  qed
qed

text \<open>
  C21: \<open>exp_by_squaring\<close> is exponentiation modulo 2 to the 256, for every base and exponent, so the assertion of the
  handler of \<open>EXP\<close> never fails. The multiplications it records start from the base, each goes on from the result of the
  one before and multiplies it by itself or by the base, the last one gives the result, and there are at most 510 of them.
\<close>

theorem exp_by_squaring_correct:
  "\<exists>made. exp_by_squaring base exponent [] = (base ^ unat exponent, made) \<and> exp_chain base base made \<and>
     (exponent \<noteq> 0 \<longrightarrow> last (base # map xs_d made) = base ^ unat exponent) \<and> length made \<le> 510"
proof -
  have "unat exponent < 2 ^ Suc 255" using unsigned_less [of exponent, where ?'a = nat] by simp
  then show ?thesis using exp_by_squaring_steps [of base exponent "[]"] by fastforce
qed

theorem exp_by_squaring_correct_witness:
  "\<exists>made. exp_by_squaring 3 13 [] = (1594323, made) \<and> last (3 # map xs_d made) = 1594323 \<and> map xs_d made = [9, 27, 729, 531441, 1594323]"
proof -
  have "map xs_d (snd (exp_by_squaring 3 13 [])) = [9, 27, 729, 531441, 1594323]" by (simp add: exp_by_squaring.simps)
  then show ?thesis using exp_by_squaring_correct [of 3 13] by fastforce
qed

end
