(* ===== verification/Field_Gadgets.thy ===== *)
theory Field_Gadgets
  imports Complex_Main Prelude
begin

text \<open>
  The gadgets of the circuits, \<^verbatim>\<open>gadgets/src/\<close>: the expression helpers of \<^verbatim>\<open>util.rs\<close> and \<^verbatim>\<open>lib.rs\<close>, and the
  chips \<open>IsZero\<close>, \<open>BatchedIsZero\<close>, \<open>BinaryNumber\<close> and \<open>Lt\<close>.

  A halo2 expression is modelled by its value at a row, an element of the field; a gate is the list of the values of its
  polynomials, and it is \<open>satisfied\<close> when they are all zero. The field is third-party code: it is the type
  variable \<open>'f\<close> of class \<open>field\<close>, and where a proof needs that small integers stay apart in the field, the hypothesis
  \<open>canonical repr\<close> says that the canonical representation \<open>PrimeField::to_repr\<close>, read as a number, gives back every number
  below \<open>2 ^ 253\<close>.
\<close>

section \<open>Expressions\<close>

definition satisfied :: "'f :: field list \<Rightarrow> bool" where
  "satisfied gate = list_all (\<lambda>poly. poly = 0) gate"

definition canonical :: "('f :: field \<Rightarrow> nat) \<Rightarrow> bool" where
  "canonical repr \<longleftrightarrow> (\<forall>n < 2 ^ 253. repr (of_nat n) = n)"

definition sum_expr :: "'f :: field list \<Rightarrow> 'f" where
  "sum_expr inputs = foldl (\<lambda>acc input. acc + input) 0 inputs"

definition and_expr :: "'f :: field list \<Rightarrow> 'f" where
  "and_expr inputs = foldl (\<lambda>acc input. acc * input) 1 inputs"

definition not_expr :: "'f :: field \<Rightarrow> 'f" where
  "not_expr b = 1 - b"

definition or_expr :: "'f :: field list \<Rightarrow> 'f" where
  "or_expr inputs = not_expr (and_expr (map not_expr inputs))"

definition xor_expr :: "'f :: field \<Rightarrow> 'f \<Rightarrow> 'f" where
  "xor_expr a b = a + b - 2 * a * b"

definition select_expr :: "'f :: field \<Rightarrow> 'f \<Rightarrow> 'f \<Rightarrow> 'f" where
  "select_expr selector when_true when_false = selector * when_true + (1 - selector) * when_false"

definition select_value_word :: "'f :: field \<Rightarrow> u8 list \<Rightarrow> u8 list \<Rightarrow> u8 list" where
  "select_value_word selector when_true when_false = (if selector = 1 then when_true else when_false)"

definition pow_expr :: "'f :: field \<Rightarrow> nat \<Rightarrow> 'f" where
  "pow_expr v exponent = foldl (\<lambda>result _. result * v) 1 [0..<exponent]"

definition i32_scalar :: "int \<Rightarrow> 'f :: field" where
  "i32_scalar i = of_nat (nat \<bar>i\<bar>) * (if i < 0 then - 1 else 1)"

definition expr_from_bytes :: "'f :: field list \<Rightarrow> 'f" where
  "expr_from_bytes bytes = fst (foldl (\<lambda>(v, multiplier) byte. (v + byte * multiplier, multiplier * 256)) (0, 1) bytes)"

definition pow_of_two :: "nat \<Rightarrow> 'f :: field" where
  "pow_of_two bits = 2 ^ bits"

definition range_check :: "'f :: field \<Rightarrow> nat \<Rightarrow> 'f" where
  "range_check v bound = foldl (\<lambda>acc i. acc * (of_nat i - v)) v [1..<bound]"

definition bool_check :: "'f :: field \<Rightarrow> 'f" where
  "bool_check v = range_check v 2"

text \<open>\<open>U256([v0, v1, 0, 0])\<close> and \<open>U256([v2, v3, 0, 0])\<close>; one word for each of the four 64-bit limbs.\<close>

definition split_u256 :: "Word \<Rightarrow> Word \<times> Word" where
  "split_u256 w = (take_bit 128 w, drop_bit 128 w)"

definition split_u256_limb64 :: "Word \<Rightarrow> Word list" where
  "split_u256_limb64 w = map (\<lambda>i. take_bit 64 (drop_bit (64 * i) w)) [0..<4]"

section \<open>Lemmas on expressions\<close>

lemma satisfied_simps [simp]:
  "satisfied []" "satisfied (e # es) \<longleftrightarrow> e = 0 \<and> satisfied es" "satisfied (xs @ ys) \<longleftrightarrow> satisfied xs \<and> satisfied ys"
  "satisfied (map (\<lambda>e. q * e) es) \<longleftrightarrow> q = 0 \<or> satisfied es"
  by (auto simp: satisfied_def list_all_iff)

lemma satisfied_map: "satisfied (map f xs) \<longleftrightarrow> (\<forall>x \<in> set xs. f x = 0)"
  by (simp add: satisfied_def list_all_iff)

lemma and_expr_eq: "and_expr es = prod_list es"
proof -
  have "foldl (\<lambda>acc input. acc * input) a es = a * prod_list es" for a
    by (induction es arbitrary: a) (simp_all add: mult.assoc)
  then show ?thesis by (simp add: and_expr_def)
qed

lemma and_expr_simps [simp]: "and_expr [] = 1" "and_expr (e # es) = e * and_expr es"
  by (simp_all add: and_expr_eq)

lemma sum_expr_eq: "sum_expr es = sum_list es"
proof -
  have "foldl (\<lambda>acc input. acc + input) a es = a + sum_list es" for a
    by (induction es arbitrary: a) (simp_all add: add.assoc)
  then show ?thesis by (simp add: sum_expr_def)
qed

lemma pow_expr_eq: "pow_expr v n = v ^ n"
  by (induction n) (simp_all add: pow_expr_def mult.commute)

lemma bool_check_eq: "bool_check v = v * (1 - v)"
  by (simp add: bool_check_def range_check_def upt_rec)

lemma bool_check_0 [simp]: "bool_check v = 0 \<longleftrightarrow> v = 0 \<or> v = 1"
  by (auto simp: bool_check_eq)

lemma range_check_0: "0 < n \<Longrightarrow> range_check v n = 0 \<longleftrightarrow> (\<exists>i < n. v = of_nat i)"
proof (induction n)
  case (Suc n)
  show ?case
  proof (cases "n = 0")
    case True
    then show ?thesis by (simp add: range_check_def)
  next
    case False
    then have "range_check v (Suc n) = range_check v n * (of_nat n - v)" by (simp add: range_check_def)
    with Suc False show ?thesis by (auto simp: less_Suc_eq)
  qed
qed simp

text \<open>Logic on values that are 0 or 1.\<close>

lemma of_bool_exprs [simp]:
  "not_expr (of_bool b) = (of_bool (\<not> b) :: 'f :: field)"
  "and_expr (map of_bool bs) = (of_bool (list_all (\<lambda>b. b) bs) :: 'f)"
  "or_expr (map of_bool bs) = (of_bool (list_ex (\<lambda>b. b) bs) :: 'f)"
  "xor_expr (of_bool b) (of_bool c) = (of_bool (b \<noteq> c) :: 'f)"
  "select_expr (of_bool b) t f = (if b then t else f :: 'f)"
proof -
  show not_eq: "not_expr (of_bool b) = (of_bool (\<not> b) :: 'f)" for b by (simp add: not_expr_def)
  show and_eq: "and_expr (map of_bool bs) = (of_bool (list_all (\<lambda>b. b) bs) :: 'f)" for bs by (induction bs) simp_all
  have "map not_expr (map of_bool bs) = (map of_bool (map Not bs) :: 'f list)" by (simp only: map_map comp_def not_eq)
  then show "or_expr (map of_bool bs) = (of_bool (list_ex (\<lambda>b. b) bs) :: 'f)"
    unfolding or_expr_def by (simp only: and_eq not_eq) (simp add: list_all_iff list_ex_iff)
qed (simp_all add: xor_expr_def select_expr_def)

text \<open>Little-endian sums of bytes.\<close>

lemma expr_from_bytes_simps [simp]:
  "expr_from_bytes [] = (0 :: 'f :: field)" "expr_from_bytes (b # bs) = (b :: 'f) + 256 * expr_from_bytes bs"
proof -
  have g: "fst (foldl (\<lambda>(v, multiplier) byte. (v + byte * multiplier, multiplier * 256)) (v, m) bs) = v + m * expr_from_bytes bs"
    for v m :: 'f and bs
  proof (induction bs arbitrary: v m)
    case (Cons b bs)
    show ?case using Cons [of "v + b * m" "m * 256"] Cons [of b 256] by (simp add: expr_from_bytes_def algebra_simps)
  qed (simp add: expr_from_bytes_def)
  from g [of b 256 bs] show "expr_from_bytes (b # bs) = b + 256 * expr_from_bytes bs" by (simp add: expr_from_bytes_def)
qed (simp add: expr_from_bytes_def)

fun nat_from_bytes :: "nat list \<Rightarrow> nat" where
  "nat_from_bytes [] = 0"
| "nat_from_bytes (b # bs) = b + 256 * nat_from_bytes bs"

lemma expr_from_bytes_of_nat: "expr_from_bytes (map of_nat bs) = of_nat (nat_from_bytes bs)"
  by (induction bs) simp_all

lemma nat_from_bytes_bound: "list_all (\<lambda>b. b < 256) bs \<Longrightarrow> nat_from_bytes bs < 256 ^ length bs"
  by (induction bs) (simp_all)

lemma nat_from_bytes_le_bytes: "nat_from_bytes (map unat (le_bytes n x)) = x mod 256 ^ n"
proof -
  have "nat_from_bytes (map unat bs) = nat_of_le bs" for bs by (induction bs) simp_all
  then show ?thesis by (simp add: nat_of_le_le_bytes)
qed

lemma canonicalD:
  assumes "canonical (repr :: 'f :: field \<Rightarrow> nat)" and "m < 2 ^ 253" and "n < 2 ^ 253"
  shows "(of_nat m :: 'f) = of_nat n \<longleftrightarrow> m = n"
  using assms by (metis canonical_def)

section \<open>Is it zero\<close>

definition is_zero_expression :: "'f :: field \<Rightarrow> 'f \<Rightarrow> 'f" where
  "is_zero_expression v value_inv = 1 - v * value_inv"

definition is_zero_gate :: "'f :: field \<Rightarrow> 'f \<Rightarrow> 'f \<Rightarrow> 'f list" where
  "is_zero_gate q_enable v value_inv = [q_enable * v * is_zero_expression v value_inv]"

definition is_zero_assign :: "'f :: field \<Rightarrow> 'f" where
  "is_zero_assign v = (if v = 0 then 0 else inverse v)"

definition batched_is_zero_gates :: "'f :: field \<Rightarrow> 'f \<Rightarrow> 'f \<Rightarrow> 'f list \<Rightarrow> 'f list" where
  "batched_is_zero_gates q_enable is_zero nonempty_witness vals =
     [q_enable * is_zero * (is_zero - 1)] @
     map (\<lambda>v. q_enable * is_zero * v) vals @
     [q_enable * foldl (\<lambda>acc v. acc * (1 - v * nonempty_witness)) (1 - is_zero) vals]"

definition batched_is_zero_assign :: "'f :: field list \<Rightarrow> 'f \<times> 'f" where
  "batched_is_zero_assign vals = (case find (\<lambda>v. v \<noteq> 0) vals of Some v \<Rightarrow> (0, inverse v) | None \<Rightarrow> (1, 0))"

lemma batched_product:
  "foldl (\<lambda>acc v. acc * (1 - v * w)) a vals = 0 \<longleftrightarrow> a = 0 \<or> (\<exists>v \<in> set vals. v * w = (1 :: 'f :: field))"
  by (induction vals arbitrary: a) auto

lemma batched_is_zero_sound:
  assumes "q_enable \<noteq> 0" and "satisfied (batched_is_zero_gates q_enable z w vals)"
  shows "z = of_bool (list_all (\<lambda>v. v = 0) vals)"
  using assms by (auto simp: batched_is_zero_gates_def batched_product satisfied_map list_all_iff)

lemma batched_is_zero_complete:
  "batched_is_zero_assign vals = (z, w) \<Longrightarrow> satisfied (batched_is_zero_gates q_enable z w vals)"
  by (auto simp: batched_is_zero_assign_def batched_is_zero_gates_def batched_product satisfied_map find_Some_iff find_None_iff
      split: option.splits) (metis nth_mem right_inverse)

section \<open>Binary numbers\<close>

text \<open>The bits of a number, the most significant first; the loop divides the number from its other end.\<close>

definition as_bits :: "nat \<Rightarrow> usize \<Rightarrow> bool list" where
  "as_bits n x = fst (foldl (\<lambda>(bits, x) i. (bits[n - 1 - i := (x mod 2 = 1)], x div 2)) (replicate n False, x) [0..<n])"

definition from_bits :: "bool list \<Rightarrow> usize" where
  "from_bits bits = foldl (\<lambda>result bit. (if bit then 1 else 0) + 2 * result) 0 bits"

definition binary_value :: "'f :: field list \<Rightarrow> 'f" where
  "binary_value bits = foldl (\<lambda>result bit. bit + result * 2) 0 bits"

definition binary_constant :: "nat \<Rightarrow> usize \<Rightarrow> 'f :: field" where
  "binary_constant n v = foldl (\<lambda>result bit. (if bit then 1 else 0) + result * 2) 0 (as_bits n v)"

definition value_equals_expr :: "nat \<Rightarrow> usize \<Rightarrow> 'f :: field list \<Rightarrow> 'f" where
  "value_equals_expr n v expressions =
     and_expr (map (\<lambda>(bit, e). if bit then e else not_expr e) (zip (as_bits n v) expressions))"

text \<open>The gates for the variants of the enumeration, each given by its number, with or without a column for the value.\<close>

definition binary_number_gates :: "nat \<Rightarrow> usize list \<Rightarrow> 'f :: field \<Rightarrow> 'f list \<Rightarrow> 'f option \<Rightarrow> 'f list" where
  "binary_number_gates n variants selector bits v =
     map (\<lambda>bit. selector * bit * (1 - bit)) bits @
     (case v of None \<Rightarrow> [] | Some v \<Rightarrow> [selector * (binary_value bits - v)]) @
     (let valid_values = map (\<lambda>t. from_bits (as_bits n t)) variants
      in map (\<lambda>i. selector * value_equals_expr n i bits) (filter (\<lambda>i. i \<notin> set valid_values) [0..<2 ^ n]))"

definition binary_number_assign :: "nat \<Rightarrow> usize \<Rightarrow> 'f :: field list" where
  "binary_number_assign n v = map of_bool (as_bits n v)"

lemma as_bits_eq: "as_bits n x = rev (map (\<lambda>i. odd (x div 2 ^ i)) [0..<n])"
proof -
  let ?f = "\<lambda>(bits, x) i. (bits[n - 1 - i := (x mod 2 = 1)], x div 2)"
  have "k \<le> n \<Longrightarrow> foldl ?f (replicate n False, x) [0..<k] =
      (replicate (n - k) False @ rev (map (\<lambda>i. odd (x div 2 ^ i)) [0..<k]), x div 2 ^ k)" for k
  proof (induction k)
    case (Suc k)
    have "replicate (n - k) False = replicate (n - Suc k) False @ [False]"
      using Suc.prems by (metis Suc_diff_Suc Suc_le_lessD replicate_Suc replicate_append_same)
    then show ?case
      using Suc by (simp add: list_update_append odd_iff_mod_2_eq_one div_mult2_eq [symmetric] mult.commute)
  qed simp
  from this [of n] show ?thesis by (simp add: as_bits_def)
qed

lemma length_as_bits [simp]: "length (as_bits n x) = n"
  by (simp add: as_bits_eq)

lemma from_bits_snoc [simp]: "from_bits [] = 0" "from_bits (bs @ [b]) = of_bool b + 2 * from_bits bs"
  by (simp_all add: from_bits_def)

lemma as_bits_Suc: "as_bits (Suc n) x = as_bits n (x div 2) @ [odd x]"
  by (simp add: as_bits_eq upt_conv_Cons map_Suc_upt [symmetric] div_mult2_eq del: upt_Suc)

lemma from_as_bits [simp]: "from_bits (as_bits n x) = x mod 2 ^ n"
proof (induction n arbitrary: x)
  case (Suc n)
  then show ?case by (simp add: as_bits_Suc mod_mult2_eq odd_iff_mod_2_eq_one)
qed (simp add: as_bits_eq)

lemma as_from_bits: "as_bits (length bs) (from_bits bs) = bs"
  by (induction bs rule: rev_induct) (simp_all add: as_bits_Suc as_bits_eq [of 0])

lemma binary_value_of_bool: "binary_value (map of_bool bs) = of_nat (from_bits bs)"
  by (induction bs rule: rev_induct) (simp_all add: binary_value_def from_bits_def)

lemma binary_constant_eq: "binary_constant n v = of_nat (v mod 2 ^ n)"
proof -
  have "binary_constant n v = binary_value (map of_bool (as_bits n v))"
    by (simp add: binary_constant_def binary_value_def foldl_map of_bool_def)
  then show ?thesis by (simp add: binary_value_of_bool)
qed

lemma value_equals_of_bool:
  assumes "length bs = n"
  shows "value_equals_expr n v (map of_bool bs) = of_bool (as_bits n v = bs)"
proof -
  have "and_expr (map (\<lambda>(bit, e). if bit then e else not_expr e) (zip cs (map of_bool bs))) = (of_bool (cs = bs) :: 'a)"
    if "length cs = length bs" for cs bs
    using that by (induction cs bs rule: list_induct2) (auto simp: not_expr_def)
  then show ?thesis using assms by (simp add: value_equals_expr_def)
qed

text \<open>Bit columns that pass the gates are the bits of a variant.\<close>

lemma of_bool_columns:
  assumes "\<forall>b \<in> set bits. b = 0 \<or> b = (1 :: 'f :: field)"
  shows "\<exists>bs. bits = map of_bool bs"
  using assms by (intro exI [of _ "map (\<lambda>b. b = 1) bits"]) (auto simp: comp_def intro!: nth_equalityI)

lemma binary_number_sound:
  assumes "selector \<noteq> 0" and "length bits = n" and "satisfied (binary_number_gates n variants selector bits v)"
  shows "\<exists>t \<in> set variants. bits = binary_number_assign n t \<and> (v = None \<or> v = Some (of_nat (t mod 2 ^ n)))"
proof -
  from assms have "\<forall>b \<in> set bits. b = 0 \<or> b = 1"
    by (auto simp: binary_number_gates_def satisfied_map)
  then obtain bs where bs: "bits = map of_bool bs" using of_bool_columns by blast
  then have len: "length bs = n" using assms(2) by simp
  have "from_bits bs < 2 ^ n" using len by (metis as_from_bits from_as_bits mod_less_divisor zero_less_numeral zero_less_power)
  moreover have "value_equals_expr n (from_bits bs) bits = 1"
    using len as_from_bits [of bs] by (simp add: bs value_equals_of_bool)
  ultimately obtain t where "t \<in> set variants" "from_bits bs = from_bits (as_bits n t)"
    using assms(1,3) by (fastforce simp: binary_number_gates_def satisfied_map)
  moreover from this have "bs = as_bits n t" using as_from_bits [of bs] as_from_bits [of "as_bits n t"] len by simp
  moreover have "v = None \<or> v = Some (of_nat (from_bits bs))"
    using assms(1,3) by (auto simp: binary_number_gates_def bs binary_value_of_bool split: option.splits)
  ultimately show ?thesis using bs by (auto simp: binary_number_assign_def)
qed

lemma binary_number_complete:
  assumes "t \<in> set variants"
  shows "satisfied (binary_number_gates n variants selector (binary_number_assign n t) (Some (of_nat (t mod 2 ^ n))))"
proof -
  have "value_equals_expr n i (map of_bool (as_bits n t)) = (0 :: 'a)"
    if "i < 2 ^ n" "\<forall>u \<in> set variants. i \<noteq> u mod 2 ^ n" for i
  proof -
    have "from_bits (as_bits n i) \<noteq> from_bits (as_bits n t)" using that assms by auto
    then have "as_bits n i \<noteq> as_bits n t" by metis
    then show ?thesis by (simp add: value_equals_of_bool)
  qed
  then show ?thesis
    by (auto simp: binary_number_gates_def binary_number_assign_def satisfied_map binary_value_of_bool)
qed

section \<open>Less than\<close>

definition lt_gate :: "'f :: field \<Rightarrow> 'f \<Rightarrow> 'f \<Rightarrow> 'f \<Rightarrow> 'f list \<Rightarrow> 'f list" where
  "lt_gate q_enable lhs rhs lt diff =
     (let check_a = lhs - rhs - expr_from_bytes diff + lt * pow_of_two (length diff * 8);
          check_b = bool_check lt
      in map (\<lambda>poly. q_enable * poly) [check_a, check_b])"

definition lt_table :: "'f :: field list" where
  "lt_table = map of_nat [0..<256]"

definition lt_lookups :: "'f :: field list \<Rightarrow> bool" where
  "lt_lookups diff = list_all (\<lambda>u8_cell. u8_cell \<in> set lt_table) diff"

text \<open>Field elements are compared, and split into bytes, by their canonical representation.\<close>

definition lt_assign :: "('f :: field \<Rightarrow> nat) \<Rightarrow> nat \<Rightarrow> 'f \<Rightarrow> 'f \<Rightarrow> 'f \<times> 'f list" where
  "lt_assign repr n_bytes lhs rhs =
     (let lt = repr lhs < repr rhs;
          diff = lhs - rhs + (if lt then pow_of_two (n_bytes * 8) else 0)
      in (of_bool lt, map (\<lambda>byte. of_nat (unat byte)) (le_bytes n_bytes (repr diff))))"

lemma lt_bytes:
  assumes "lt_lookups (diff :: 'f :: field list)"
  obtains bs where "diff = map of_nat bs" and "list_all (\<lambda>b. b < 256) bs"
proof -
  have "\<exists>bs. diff = map of_nat bs \<and> list_all (\<lambda>b. b < 256) bs"
    using assms
  proof (induction diff)
    case (Cons d ds)
    then obtain b bs where "d = of_nat b" "b < 256" "ds = map of_nat bs" "list_all (\<lambda>b. b < 256) bs"
      by (auto simp: lt_lookups_def lt_table_def)
    then have "d # ds = map of_nat (b # bs) \<and> list_all (\<lambda>b. b < 256) (b # bs)" by simp
    then show ?case by (rule exI)
  qed simp
  then show ?thesis using that by blast
qed

lemma bytes_power: "256 ^ n = (2 :: 'a :: semiring_1) ^ (n * 8)"
proof -
  have "256 = (2 :: 'a) ^ 8" by simp
  then show ?thesis by (simp only: power_mult mult.commute [of n])
qed

lemma bytes_max:
  assumes "n \<le> 31"
  shows "2 * 256 ^ n \<le> (2 :: nat) ^ 253"
proof -
  have "256 ^ n = (2 :: nat) ^ (n * 8)" by (rule bytes_power)
  also have "\<dots> \<le> 2 ^ 252" using assms by (intro power_increasing) auto
  finally show ?thesis by simp
qed

lemma lt_sound:
  fixes diff :: "'f :: field list"
  assumes "canonical (repr :: 'f \<Rightarrow> nat)" and q: "q_enable \<noteq> 0" and n: "length diff \<le> 31"
    and ab: "a < 256 ^ length diff" "b < 256 ^ length diff"
    and gate: "satisfied (lt_gate q_enable (of_nat a) (of_nat b) lt diff)" and u8: "lt_lookups diff"
  shows "lt = of_bool (a < b)"
proof -
  obtain bs where bs: "diff = map of_nat bs" "list_all (\<lambda>b. b < 256) bs" using lt_bytes [OF u8] .
  let ?n = "length diff" and ?d = "nat_from_bytes bs"
  have d: "?d < 256 ^ ?n" using nat_from_bytes_bound [OF bs(2)] bs(1) by simp
  have max: "2 * 256 ^ ?n \<le> (2 :: nat) ^ 253" by (rule bytes_max [OF n])
  have lt: "lt = 0 \<or> lt = 1" and "of_nat a - of_nat b - of_nat ?d + lt * 256 ^ ?n = (0 :: 'f)"
    using gate q by (auto simp: lt_gate_def Let_def bs(1) expr_from_bytes_of_nat pow_of_two_def bytes_power)
  then have "of_nat (a + (if lt = 1 then 256 ^ ?n else 0)) = (of_nat (b + ?d) :: 'f)"
    by (auto simp: algebra_simps)
  then have "a + (if lt = 1 then 256 ^ ?n else 0) = b + ?d"
    by (subst (asm) canonicalD [OF assms(1)]) (use ab d max in auto)
  then show ?thesis using lt ab d by (auto split: if_splits)
qed

lemma lt_complete:
  fixes repr :: "'f :: field \<Rightarrow> nat"
  assumes can: "canonical repr" and n: "n \<le> 31" and ab: "a < 256 ^ n" "b < 256 ^ n"
    and assign: "lt_assign repr n (of_nat a) (of_nat b) = (lt, diff)"
  shows "satisfied (lt_gate q_enable (of_nat a) (of_nat b) lt diff)" and "lt_lookups diff"
    and "length diff = n" and "lt = of_bool (a < b)"
proof -
  let ?d = "if a < b then a + 256 ^ n - b else a - b"
  have max: "2 * 256 ^ n \<le> (2 :: nat) ^ 253" by (rule bytes_max [OF n])
  then have r: "repr (of_nat m) = m" if "m < 256 ^ n" for m
    using can that by (auto simp: canonical_def)
  have d: "?d < 256 ^ n" using ab by auto
  have "of_nat a - of_nat b + (if a < b then pow_of_two (n * 8) else 0) = (of_nat ?d :: 'f)"
    using ab by (auto simp: of_nat_diff pow_of_two_def bytes_power [where ?'a = 'f, symmetric])
  then have eqs: "lt = of_bool (a < b)" "diff = map of_nat (map unat (le_bytes n ?d))"
    using assign ab by (auto simp: lt_assign_def Let_def r d simp del: of_nat_diff)
  then show "lt = of_bool (a < b)" "length diff = n" by simp_all
  have "(of_nat (unat x) :: 'f) \<in> of_nat ` {0..<256}" for x :: u8
    using unsigned_less [of x, where ?'a = nat] by (intro imageI) simp
  then show "lt_lookups diff"
    by (simp add: eqs(2) lt_lookups_def lt_table_def list_all_iff del: of_nat_unat)
  have "expr_from_bytes diff = of_nat ?d"
    unfolding eqs(2) expr_from_bytes_of_nat nat_from_bytes_le_bytes using d by simp
  then show "satisfied (lt_gate q_enable (of_nat a) (of_nat b) lt diff)"
    using ab \<open>length diff = n\<close>
    by (auto simp: lt_gate_def Let_def eqs(1) of_nat_diff pow_of_two_def bytes_power [where ?'a = 'f, symmetric])
qed

section \<open>Properties of the gadgets\<close>

text \<open>
  The two zero tests. On an enabled row the gate of \<open>IsZero\<close> forces its expression to be 1 when the value is zero and 0
  otherwise, and the gates of \<open>BatchedIsZero\<close> force its column to tell whether all values are zero, whatever the witnesses
  are; the assigned witnesses always pass the gates.
\<close>

theorem zero_tests_spec:
  fixes q :: "'f :: field"
  shows "(q \<noteq> 0 \<and> satisfied (is_zero_gate q v v_inv) \<longrightarrow> is_zero_expression v v_inv = of_bool (v = 0)) \<and>
    satisfied (is_zero_gate q v (is_zero_assign v)) \<and>
    (q \<noteq> 0 \<and> satisfied (batched_is_zero_gates q z w vals) \<longrightarrow> z = of_bool (list_all (\<lambda>v. v = 0) vals)) \<and>
    (case batched_is_zero_assign vals of (z, w) \<Rightarrow> satisfied (batched_is_zero_gates q z w vals))"
  using batched_is_zero_sound [of q z w vals] batched_is_zero_complete [of vals]
  by (auto simp: is_zero_gate_def is_zero_expression_def is_zero_assign_def split: prod.splits)

theorem zero_tests_spec_witness:
  "satisfied (is_zero_gate 1 (4 :: rat) (1 / 4)) \<and> is_zero_expression (4 :: rat) (1 / 4) = 0 \<and>
   satisfied (batched_is_zero_gates 1 (0 :: rat) (1 / 2) [0, 2])"
  using zero_tests_spec [of "1 :: rat" 4 "1 / 4" 0 "1 / 2" "[0, 2]"]
  by (simp add: is_zero_gate_def is_zero_expression_def batched_is_zero_gates_def)

text \<open>
  The binary number chip. On a row where its selector is set, the gates are satisfied only by the bits of a variant of the
  enumeration, and the value column, where there is one, then holds the number of that variant; the expression that
  compares with a constant tells whether it has the bits of that variant. The assigned bits of a variant pass the gates.
\<close>

theorem binary_number_spec:
  fixes selector :: "'f :: field"
  shows "(selector \<noteq> 0 \<and> length bits = n \<and> satisfied (binary_number_gates n variants selector bits v) \<longrightarrow>
      (\<exists>t \<in> set variants. bits = binary_number_assign n t \<and> (v = None \<or> v = Some (of_nat (t mod 2 ^ n))) \<and>
         (\<forall>u. value_equals_expr n u bits = of_bool (u mod 2 ^ n = t mod 2 ^ n)))) \<and>
    (t \<in> set variants \<longrightarrow>
      satisfied (binary_number_gates n variants selector (binary_number_assign n t) (Some (binary_constant n t))))"
proof -
  have "as_bits n u = as_bits n t \<longleftrightarrow> u mod 2 ^ n = t mod 2 ^ n" for u t
    by (metis as_from_bits from_as_bits length_as_bits)
  then have "value_equals_expr n u (binary_number_assign n t) = (of_bool (u mod 2 ^ n = t mod 2 ^ n) :: 'f)" for u t
    by (simp add: binary_number_assign_def value_equals_of_bool)
  then have "\<exists>t \<in> set variants. bits = binary_number_assign n t \<and> (v = None \<or> v = Some (of_nat (t mod 2 ^ n))) \<and>
       (\<forall>u. value_equals_expr n u bits = of_bool (u mod 2 ^ n = t mod 2 ^ n))"
    if "selector \<noteq> 0" "length bits = n" "satisfied (binary_number_gates n variants selector bits v)"
    using binary_number_sound [OF that] by blast
  then show ?thesis using binary_number_complete [of t variants n selector] by (auto simp: binary_constant_eq)
qed

theorem binary_number_spec_witness:
  "satisfied (binary_number_gates 2 [1, 2] (1 :: rat) [1, 0] (Some 2)) \<and> value_equals_expr 2 2 [1, 0 :: rat] = 1"
proof -
  have "satisfied (binary_number_gates 2 [1, 2] (1 :: rat) [1, 0] (Some 2))" by code_simp
  with binary_number_spec [of "1 :: rat" "[1, 0]" 2 "[1, 2]" "Some 2" 2]
  show ?thesis by auto
qed

text \<open>
  The comparison chip. For values of at most 31 bytes each, the gate and the byte lookups force the \<open>lt\<close> column to be 1
  when the left value is smaller and 0 otherwise; and the assignment always passes gate and lookups. Both rest on the
  canonical representation of the field elements.
\<close>

theorem lt_spec:
  fixes repr :: "'f :: field \<Rightarrow> nat"
  assumes "canonical repr" and "n \<le> 31" and "a < 256 ^ n" and "b < 256 ^ n" and "q_enable \<noteq> 0"
  shows "(length diff = n \<and> satisfied (lt_gate q_enable (of_nat a) (of_nat b) lt diff) \<and> lt_lookups diff \<longrightarrow>
      lt = of_bool (a < b)) \<and>
    (case lt_assign repr n (of_nat a) (of_nat b) of (lt, diff) \<Rightarrow>
      satisfied (lt_gate q_enable (of_nat a) (of_nat b) lt diff) \<and> lt_lookups diff \<and> length diff = n \<and> lt = of_bool (a < b))"
  using lt_sound [OF assms(1,5), of diff a b lt] lt_complete [OF assms(1,2,3,4)] assms(2,3,4)
  by (auto split: prod.splits)

lemma canonical_rat: "canonical (\<lambda>x :: rat. nat \<lfloor>x\<rfloor>)"
  by (simp add: canonical_def)

theorem lt_spec_witness:
  "(case lt_assign (\<lambda>x :: rat. nat \<lfloor>x\<rfloor>) 2 300 301 of (lt, diff) \<Rightarrow>
      satisfied (lt_gate 1 300 301 lt diff) \<and> lt_lookups diff \<and> length diff = 2 \<and> lt = 1)"
  using lt_spec [OF canonical_rat, of 2 300 301 1 "[]"] by simp

end
