(* ===== verification/Mul_Add.thy ===== *)
theory Mul_Add
  imports Field_Gadgets
begin

text \<open>
  The chip for \<open>a * b + c = d\<close> modulo 2 to the 256, \<^verbatim>\<open>gadgets/src/mul_add.rs\<close>. Seven rows of five columns hold the 64-bit
  limbs of \<open>a\<close> and \<open>b\<close>, the 128-bit halves of \<open>c\<close> and \<open>d\<close>, and the two carries in bytes.
\<close>

section \<open>Layout and gate\<close>

record 'f MulAddRow =
  ma_col0 :: 'f
  ma_col1 :: 'f
  ma_col2 :: 'f
  ma_col3 :: 'f
  ma_col4 :: 'f

definition ma_cols4 :: "'f MulAddRow \<Rightarrow> 'f list" where
  "ma_cols4 row = [ma_col0 row, ma_col1 row, ma_col2 row, ma_col3 row]"

definition a_limbs_cur :: "(nat \<Rightarrow> 'f MulAddRow) \<Rightarrow> nat \<Rightarrow> 'f list" where
  "a_limbs_cur rows i = ma_cols4 (rows i)"

definition b_limbs_cur :: "(nat \<Rightarrow> 'f MulAddRow) \<Rightarrow> nat \<Rightarrow> 'f list" where
  "b_limbs_cur rows i = ma_cols4 (rows (i + 1))"

definition c_lo_hi_cur :: "(nat \<Rightarrow> 'f MulAddRow) \<Rightarrow> nat \<Rightarrow> 'f \<times> 'f" where
  "c_lo_hi_cur rows i = (ma_col0 (rows (i + 2)), ma_col1 (rows (i + 2)))"

definition d_lo_hi_cur :: "(nat \<Rightarrow> 'f MulAddRow) \<Rightarrow> nat \<Rightarrow> 'f \<times> 'f" where
  "d_lo_hi_cur rows i = (ma_col2 (rows (i + 2)), ma_col3 (rows (i + 2)))"

definition d_lo_hi_next :: "(nat \<Rightarrow> 'f MulAddRow) \<Rightarrow> nat \<Rightarrow> 'f \<times> 'f" where
  "d_lo_hi_next rows i = (ma_col2 (rows (i + 9)), ma_col3 (rows (i + 9)))"

definition carry_los :: "(nat \<Rightarrow> 'f MulAddRow) \<Rightarrow> nat \<Rightarrow> 'f list" where
  "carry_los rows i = ma_cols4 (rows (i + 3)) @ [ma_col4 (rows (i + 3))] @ ma_cols4 (rows (i + 4))"

definition carry_his :: "(nat \<Rightarrow> 'f MulAddRow) \<Rightarrow> nat \<Rightarrow> 'f list" where
  "carry_his rows i = ma_cols4 (rows (i + 5)) @ [ma_col4 (rows (i + 5))] @ ma_cols4 (rows (i + 6))"

definition mul_add_overflow :: "(nat \<Rightarrow> 'f :: field MulAddRow) \<Rightarrow> nat \<Rightarrow> 'f" where
  "mul_add_overflow rows i =
     (let a = a_limbs_cur rows i; b = b_limbs_cur rows i
      in expr_from_bytes (carry_his rows i) + a ! 1 * b ! 3 + a ! 2 * b ! 2 + a ! 2 * b ! 3 + a ! 3 * b ! 1 +
         a ! 3 * b ! 2 + a ! 3 * b ! 3)"

definition mul_add_gate :: "'f :: field \<Rightarrow> (nat \<Rightarrow> 'f MulAddRow) \<Rightarrow> nat \<Rightarrow> 'f list" where
  "mul_add_gate q_enable rows i =
     (let a = a_limbs_cur rows i; b = b_limbs_cur rows i;
          (c_lo, c_hi) = c_lo_hi_cur rows i; (d_lo, d_hi) = d_lo_hi_cur rows i;
          carry_lo_expr = expr_from_bytes (carry_los rows i); carry_hi_expr = expr_from_bytes (carry_his rows i);
          t0 = a ! 0 * b ! 0;
          t1 = a ! 0 * b ! 1 + a ! 1 * b ! 0;
          t2 = a ! 0 * b ! 2 + a ! 1 * b ! 1 + a ! 2 * b ! 0;
          t3 = a ! 0 * b ! 3 + a ! 1 * b ! 2 + a ! 2 * b ! 1 + a ! 3 * b ! 0;
          check_a = t0 + t1 * pow_of_two 64 + c_lo - (d_lo + carry_lo_expr * pow_of_two 128);
          check_b = t2 + t3 * pow_of_two 64 + c_hi + carry_lo_expr - (d_hi + carry_hi_expr * pow_of_two 128)
      in map (\<lambda>poly. q_enable * poly) [check_a, check_b])"

section \<open>Assignment\<close>

text \<open>A sum of products of \<open>U256\<close>, checked at every operation; \<open>as_u128\<close>.\<close>

fun u256_products :: "Word \<Rightarrow> (Word \<times> Word) list \<Rightarrow> (Word, 'e) result" where
  "u256_products acc [] = Inr acc"
| "u256_products acc ((v, w) # products) =
     bindE (u256_mul v w) (\<lambda>p. bindE (u256_add acc p) (\<lambda>acc. u256_products acc products))"

definition u256_as_u128 :: "Word \<Rightarrow> (nat, 'e) result" where
  "u256_as_u128 w = (if unat w < 2 ^ 128 then Inr (unat w) else Inl (Panic ''Integer overflow when casting to u128''))"

text \<open>\<open>overflowing_sub\<close> and \<open>overflowing_add\<close> are the wrapping operators of the word type.\<close>

definition mul_add_carries :: "Word \<Rightarrow> Word \<Rightarrow> Word \<Rightarrow> Word \<Rightarrow> (Word \<times> Word, 'e) result" where
  "mul_add_carries a b c d =
     (let a = split_u256_limb64 a; b = split_u256_limb64 b; (c_lo, c_hi) = split_u256 c; (d_lo, d_hi) = split_u256 d
      in bindE (u256_products 0 [(a ! 0, b ! 0)]) (\<lambda>t0.
         bindE (u256_products 0 [(a ! 0, b ! 1), (a ! 1, b ! 0)]) (\<lambda>t1.
         bindE (u256_products 0 [(a ! 0, b ! 2), (a ! 1, b ! 1), (a ! 2, b ! 0)]) (\<lambda>t2.
         bindE (u256_products 0 [(a ! 0, b ! 3), (a ! 1, b ! 2), (a ! 2, b ! 1), (a ! 3, b ! 0)]) (\<lambda>t3.
         let c_lo_minus_d_lo = c_lo - d_lo
         in bindE (u256_add t0 (push_bit 64 t1)) (\<lambda>temp.
            let carry_lo = drop_bit 128 (temp + c_lo_minus_d_lo); carry_lo_minus_d_hi = carry_lo - d_hi
            in bindE (u256_add t2 (push_bit 64 t3)) (\<lambda>temp.
               bindE (u256_add temp c_hi) (\<lambda>temp.
               Inr (carry_lo, drop_bit 128 (temp + carry_lo_minus_d_hi))))))))))"

definition ma_row :: "'f list \<Rightarrow> 'f :: field MulAddRow" where
  "ma_row cells = \<lparr>ma_col0 = cells ! 0, ma_col1 = cells ! 1, ma_col2 = cells ! 2, ma_col3 = cells ! 3,
     ma_col4 = (if length cells = 5 then cells ! 4 else 0)\<rparr>"

definition mul_add_assign :: "Word \<Rightarrow> Word \<Rightarrow> Word \<Rightarrow> Word \<Rightarrow> ('f :: field MulAddRow list, 'e) result" where
  "mul_add_assign a b c d =
     bindE (mul_add_carries a b c d) (\<lambda>(carry_lo, carry_hi).
     bindE (mapE u256_as_u64 (split_u256_limb64 a)) (\<lambda>a_limbs.
     bindE (mapE u256_as_u64 (split_u256_limb64 b)) (\<lambda>b_limbs.
     bindE (mapE u256_as_u128 [fst (split_u256 c), snd (split_u256 c), fst (split_u256 d), snd (split_u256 d)]) (\<lambda>halves.
     let lo = map (\<lambda>byte. of_nat (unat byte)) (le_bytes 32 (unat carry_lo));
         hi = map (\<lambda>byte. of_nat (unat byte)) (le_bytes 32 (unat carry_hi))
     in Inr (map ma_row [map (\<lambda>limb. of_nat (unat limb)) a_limbs, map (\<lambda>limb. of_nat (unat limb)) b_limbs, map of_nat halves,
               take 5 lo, take 4 (drop 5 lo), take 5 hi, take 4 (drop 5 hi)])))))"

section \<open>The arithmetic on naturals\<close>

lemma mul_limbs:
  fixes a0 a1 a2 a3 b0 b1 b2 b3 :: nat
  shows "(a0 + a1 * 2 ^ 64 + a2 * 2 ^ 128 + a3 * 2 ^ 192) * (b0 + b1 * 2 ^ 64 + b2 * 2 ^ 128 + b3 * 2 ^ 192) =
     (a0 * b0 + (a0 * b1 + a1 * b0) * 2 ^ 64) +
     (a0 * b2 + a1 * b1 + a2 * b0 + (a0 * b3 + a1 * b2 + a2 * b1 + a3 * b0) * 2 ^ 64) * 2 ^ 128 +
     2 ^ 256 * (a1 * b3 + a2 * b2 + a3 * b1 + 2 ^ 64 * (a2 * b3 + a3 * b2) + 2 ^ 128 * (a3 * b3))"
  by (simp add: algebra_simps)

section \<open>Soundness\<close>

text \<open>
  What a client of the chip has to establish: the cells are in range. \<open>fits repr k v\<close> says that \<open>v\<close> is a number
  of \<open>k\<close> bits; the chip itself has no range check.
\<close>

definition fits :: "('f :: field \<Rightarrow> nat) \<Rightarrow> nat \<Rightarrow> 'f \<Rightarrow> bool" where
  "fits repr k v \<longleftrightarrow> repr v < 2 ^ k \<and> of_nat (repr v) = v"

definition mul_add_ranged :: "('f :: field \<Rightarrow> nat) \<Rightarrow> (nat \<Rightarrow> 'f MulAddRow) \<Rightarrow> nat \<Rightarrow> bool" where
  "mul_add_ranged repr rows i \<longleftrightarrow>
     list_all (fits repr 64) (a_limbs_cur rows i @ b_limbs_cur rows i) \<and>
     list_all (fits repr 128) [fst (c_lo_hi_cur rows i), snd (c_lo_hi_cur rows i), fst (d_lo_hi_cur rows i), snd (d_lo_hi_cur rows i)] \<and>
     list_all (fits repr 8) (carry_los rows i @ carry_his rows i)"

definition limbs_nat :: "('f \<Rightarrow> nat) \<Rightarrow> 'f list \<Rightarrow> nat" where
  "limbs_nat repr limbs =
     repr (limbs ! 0) + repr (limbs ! 1) * 2 ^ 64 + repr (limbs ! 2) * 2 ^ 128 + repr (limbs ! 3) * 2 ^ 192"

definition lo_hi_nat :: "('f \<Rightarrow> nat) \<Rightarrow> 'f \<times> 'f \<Rightarrow> nat" where
  "lo_hi_nat repr w = repr (fst w) + repr (snd w) * 2 ^ 128"

lemma fits_of_nat: "canonical repr \<Longrightarrow> n < 2 ^ k \<Longrightarrow> k \<le> 253 \<Longrightarrow> fits repr k (of_nat n) \<and> repr (of_nat n) = n"
  using power_increasing [of k 253 "2 :: nat"] by (force simp: canonical_def fits_def)

text \<open>The gate as two equations of naturals, and what they add up to.\<close>

lemma mul_add_nat:
  fixes a b c d :: "nat \<Rightarrow> nat"
  defines "X \<equiv> a 0 * b 0 + (a 0 * b 1 + a 1 * b 0) * 2 ^ 64"
    and "Y \<equiv> a 0 * b 2 + a 1 * b 1 + a 2 * b 0 + (a 0 * b 3 + a 1 * b 2 + a 2 * b 1 + a 3 * b 0) * 2 ^ 64"
    and "U \<equiv> a 1 * b 3 + a 2 * b 2 + a 3 * b 1 + 2 ^ 64 * (a 2 * b 3 + a 3 * b 2) + 2 ^ 128 * (a 3 * b 3)"
  assumes "X + c 0 = d 0 + k1 * 2 ^ 128" and "Y + c 1 + k1 = d 1 + k2 * 2 ^ 128"
  shows "(a 0 + a 1 * 2 ^ 64 + a 2 * 2 ^ 128 + a 3 * 2 ^ 192) * (b 0 + b 1 * 2 ^ 64 + b 2 * 2 ^ 128 + b 3 * 2 ^ 192) +
      (c 0 + c 1 * 2 ^ 128) = d 0 + d 1 * 2 ^ 128 + (U + k2) * 2 ^ 256"
proof -
  have "X + Y * 2 ^ 128 + 2 ^ 256 * U + (c 0 + c 1 * 2 ^ 128) = (X + c 0) + (Y + c 1) * 2 ^ 128 + 2 ^ 256 * U"
    by (simp add: algebra_simps)
  also have "\<dots> = d 0 + (Y + c 1 + k1) * 2 ^ 128 + 2 ^ 256 * U" unfolding assms(4) by (simp add: algebra_simps)
  also have "\<dots> = d 0 + d 1 * 2 ^ 128 + (U + k2) * 2 ^ 256" unfolding assms(5) by (simp add: algebra_simps)
  finally show ?thesis unfolding mul_limbs X_def Y_def U_def .
qed

lemma prod64: "m < 2 ^ 64 \<Longrightarrow> n < 2 ^ 64 \<Longrightarrow> m * n < (2 :: nat) ^ 128"
  using mult_strict_mono [of m "2 ^ 64" n "2 ^ 64"] by (cases "n = 0") auto

lemma mul_add_equations:
  fixes rows :: "nat \<Rightarrow> 'f :: field MulAddRow"
  assumes can: "canonical (repr :: 'f \<Rightarrow> nat)" and range: "mul_add_ranged repr rows i" and q: "q_enable \<noteq> 0"
    and gate: "satisfied (mul_add_gate q_enable rows i)"
  defines "a \<equiv> \<lambda>j. repr (a_limbs_cur rows i ! j)" and "b \<equiv> \<lambda>j. repr (b_limbs_cur rows i ! j)"
    and "k1 \<equiv> nat_from_bytes (map repr (carry_los rows i))" and "k2 \<equiv> nat_from_bytes (map repr (carry_his rows i))"
  shows "a 0 * b 0 + (a 0 * b 1 + a 1 * b 0) * 2 ^ 64 + repr (fst (c_lo_hi_cur rows i)) =
      repr (fst (d_lo_hi_cur rows i)) + k1 * 2 ^ 128"
    and "a 0 * b 2 + a 1 * b 1 + a 2 * b 0 + (a 0 * b 3 + a 1 * b 2 + a 2 * b 1 + a 3 * b 0) * 2 ^ 64 +
      repr (snd (c_lo_hi_cur rows i)) + k1 = repr (snd (d_lo_hi_cur rows i)) + k2 * 2 ^ 128"
    and "mul_add_overflow rows i =
      of_nat (k2 + a 1 * b 3 + a 2 * b 2 + a 2 * b 3 + a 3 * b 1 + a 3 * b 2 + a 3 * b 3)"
    and "k1 < 2 ^ 72" and "k2 < 2 ^ 72"
proof -
  have len: "length (a_limbs_cur rows i) = 4" "length (b_limbs_cur rows i) = 4" "length (carry_los rows i) = 9"
    "length (carry_his rows i) = 9"
    by (simp_all add: a_limbs_cur_def b_limbs_cur_def ma_cols4_def carry_los_def carry_his_def)
  have ab: "a j < 2 ^ 64" "b j < 2 ^ 64" "a_limbs_cur rows i ! j = of_nat (a j)" "b_limbs_cur rows i ! j = of_nat (b j)"
    if "j < 4" for j
    using range that len nth_mem [of j "a_limbs_cur rows i"] nth_mem [of j "b_limbs_cur rows i"]
    by (simp_all add: mul_add_ranged_def fits_def a_def b_def list_all_iff)
  have bytes: "expr_from_bytes bs = of_nat (nat_from_bytes (map repr bs))" "nat_from_bytes (map repr bs) < 256 ^ length bs"
    if "list_all (fits repr 8) bs" for bs
  proof -
    have "bs = map of_nat (map repr bs)" using that by (induction bs) (auto simp: fits_def)
    then show "expr_from_bytes bs = of_nat (nat_from_bytes (map repr bs))" by (metis expr_from_bytes_of_nat)
    show "nat_from_bytes (map repr bs) < 256 ^ length bs"
      using that nat_from_bytes_bound [of "map repr bs"] by (simp add: list_all_iff fits_def)
  qed
  have k: "expr_from_bytes (carry_los rows i) = of_nat k1" "k1 < 256 ^ 9"
    "expr_from_bytes (carry_his rows i) = of_nat k2" "k2 < 256 ^ 9"
    using bytes [of "carry_los rows i"] bytes [of "carry_his rows i"] range len by (auto simp: mul_add_ranged_def k1_def k2_def)
  then show "k1 < 2 ^ 72" "k2 < 2 ^ 72" by simp_all
  show "mul_add_overflow rows i = of_nat (k2 + a 1 * b 3 + a 2 * b 2 + a 2 * b 3 + a 3 * b 1 + a 3 * b 2 + a 3 * b 3)"
    by (simp add: mul_add_overflow_def Let_def k ab)
  define c0 c1 d0 d1 where "c0 = repr (fst (c_lo_hi_cur rows i))" and "c1 = repr (snd (c_lo_hi_cur rows i))"
    and "d0 = repr (fst (d_lo_hi_cur rows i))" and "d1 = repr (snd (d_lo_hi_cur rows i))"
  note cd_def = this
  have cd: "c_lo_hi_cur rows i = (of_nat c0, of_nat c1)" "d_lo_hi_cur rows i = (of_nat d0, of_nat d1)"
    "c0 < 2 ^ 128" "c1 < 2 ^ 128" "d0 < 2 ^ 128" "d1 < 2 ^ 128"
    using range by (simp_all add: cd_def mul_add_ranged_def fits_def prod_eq_iff)
  have ps: "a j * b l < 2 ^ 128" if "j < 4" "l < 4" for j l using prod64 ab that by blast
  note small = ps [of 0 0] ps [of 0 1] ps [of 1 0] ps [of 0 2] ps [of 1 1] ps [of 2 0] ps [of 0 3] ps [of 1 2] ps [of 2 1] ps [of 3 0]
  let ?l1 = "a 0 * b 0 + (a 0 * b 1 + a 1 * b 0) * 2 ^ 64 + c0" and ?r1 = "d0 + k1 * 2 ^ 128"
  let ?l2 = "a 0 * b 2 + a 1 * b 1 + a 2 * b 0 + (a 0 * b 3 + a 1 * b 2 + a 2 * b 1 + a 3 * b 0) * 2 ^ 64 + c1 + k1"
    and ?r2 = "d1 + k2 * 2 ^ 128"
  have "satisfied [of_nat ?l1 - of_nat ?r1, of_nat ?l2 - of_nat ?r2 :: 'f]"
    using gate q unfolding mul_add_gate_def Let_def cd prod.case satisfied_simps(4)
    by (simp add: k ab pow_of_two_def)
  then have "(of_nat ?l1 :: 'f) = of_nat ?r1" "(of_nat ?l2 :: 'f) = of_nat ?r2" unfolding satisfied_simps by simp_all
  moreover have "?l1 < 2 ^ 253" "?r1 < 2 ^ 253" "?l2 < 2 ^ 253" "?r2 < 2 ^ 253"
    using small k(2,4) cd(3-6) by simp_all
  ultimately have "?l1 = ?r1" "?l2 = ?r2" using canonicalD [OF can] by blast+
  then show "a 0 * b 0 + (a 0 * b 1 + a 1 * b 0) * 2 ^ 64 + repr (fst (c_lo_hi_cur rows i)) =
      repr (fst (d_lo_hi_cur rows i)) + k1 * 2 ^ 128"
    "a 0 * b 2 + a 1 * b 1 + a 2 * b 0 + (a 0 * b 3 + a 1 * b 2 + a 2 * b 1 + a 3 * b 0) * 2 ^ 64 +
      repr (snd (c_lo_hi_cur rows i)) + k1 = repr (snd (d_lo_hi_cur rows i)) + k2 * 2 ^ 128"
    by (simp_all only: cd_def)
qed

lemma mul_add_sound:
  fixes rows :: "nat \<Rightarrow> 'f :: field MulAddRow"
  assumes can: "canonical (repr :: 'f \<Rightarrow> nat)" and range: "mul_add_ranged repr rows i" and q: "q_enable \<noteq> 0"
    and gate: "satisfied (mul_add_gate q_enable rows i)"
  defines "A \<equiv> limbs_nat repr (a_limbs_cur rows i)" and "B \<equiv> limbs_nat repr (b_limbs_cur rows i)"
    and "C \<equiv> lo_hi_nat repr (c_lo_hi_cur rows i)" and "D \<equiv> lo_hi_nat repr (d_lo_hi_cur rows i)"
  shows "(A * B + C) mod 2 ^ 256 = D" and "mul_add_overflow rows i = 0 \<longleftrightarrow> A * B + C < 2 ^ 256"
proof -
  note eqs = mul_add_equations [OF can range q gate]
  let ?a = "\<lambda>j. repr (a_limbs_cur rows i ! j)" and ?b = "\<lambda>j. repr (b_limbs_cur rows i ! j)"
  let ?k2 = "nat_from_bytes (map repr (carry_his rows i))"
  let ?U = "?a 1 * ?b 3 + ?a 2 * ?b 2 + ?a 3 * ?b 1 + 2 ^ 64 * (?a 2 * ?b 3 + ?a 3 * ?b 2) + 2 ^ 128 * (?a 3 * ?b 3)"
  have sum: "A * B + C = D + (?U + ?k2) * 2 ^ 256"
    unfolding A_def B_def C_def D_def limbs_nat_def lo_hi_nat_def
    by (rule mul_add_nat [where c = "\<lambda>j. if j = 0 then repr (fst (c_lo_hi_cur rows i)) else repr (snd (c_lo_hi_cur rows i))"
          and d = "\<lambda>j. if j = 0 then repr (fst (d_lo_hi_cur rows i)) else repr (snd (d_lo_hi_cur rows i))"
          and a = ?a and b = ?b, simplified if_True if_False refl one_neq_zero, OF eqs(1,2)])
  have "D < 2 ^ 256" using range by (simp add: mul_add_ranged_def fits_def D_def lo_hi_nat_def)
  then show "(A * B + C) mod 2 ^ 256 = D" unfolding sum mod_mult_self1 by (rule mod_less)
  have ab: "?a j < 2 ^ 64" "?b j < 2 ^ 64" if "j < 4" for j
    using range that nth_mem [of j "a_limbs_cur rows i"] nth_mem [of j "b_limbs_cur rows i"]
    by (auto simp: mul_add_ranged_def fits_def list_all_iff a_limbs_cur_def b_limbs_cur_def ma_cols4_def)
  let ?o = "?k2 + ?a 1 * ?b 3 + ?a 2 * ?b 2 + ?a 2 * ?b 3 + ?a 3 * ?b 1 + ?a 3 * ?b 2 + ?a 3 * ?b 3"
  have ps: "?a j * ?b l < 2 ^ 128" if "j < 4" "l < 4" for j l using prod64 ab that by blast
  have "?o < 2 ^ 253"
    using ps [of 1 3] ps [of 2 2] ps [of 2 3] ps [of 3 1] ps [of 3 2] ps [of 3 3] eqs(5) by simp
  then have "mul_add_overflow rows i = 0 \<longleftrightarrow> ?o = 0"
    unfolding eqs(3) using canonicalD [OF can, of ?o 0] by simp
  also have "\<dots> \<longleftrightarrow> ?U + ?k2 = 0" by auto
  also have "\<dots> \<longleftrightarrow> A * B + C < 2 ^ 256" unfolding sum using \<open>D < 2 ^ 256\<close> by (cases "?U + ?k2") auto
  finally show "mul_add_overflow rows i = 0 \<longleftrightarrow> A * B + C < 2 ^ 256" .
qed

section \<open>Completeness\<close>

definition limb :: "Word \<Rightarrow> nat \<Rightarrow> nat" where
  "limb w j = unat w div 2 ^ (64 * j) mod 2 ^ 64"

lemma limb_bound: "limb w j < 2 ^ 64"
  by (simp add: limb_def)

lemma take_bit_unat: "256 \<le> n \<Longrightarrow> take_bit n (unat (w :: Word)) = unat w" "take_bit 256 (drop_bit k (unat w)) = drop_bit k (unat w)"
proof -
  have b: "unat w < 2 ^ 256" using unsigned_less [of w, where ?'a = nat] by simp
  then show "256 \<le> n \<Longrightarrow> take_bit n (unat w) = unat w"
    using power_increasing [of 256 n "2 :: nat"] by (simp add: take_bit_nat_eq_self)
  have "drop_bit k (unat w) < 2 ^ 256" using b div_le_dividend [of "unat w" "2 ^ k"] unfolding drop_bit_eq_div by (rule le_less_trans [rotated])
  then show "take_bit 256 (drop_bit k (unat w)) = drop_bit k (unat w)" by (rule take_bit_nat_eq_self)
qed

lemma split_limbs: "split_u256_limb64 w = map (\<lambda>j. of_nat (limb w j)) [0..<4]"
  unfolding split_u256_limb64_def limb_def take_bit_eq_mod [symmetric] drop_bit_eq_div [symmetric]
  by (rule map_cong) (simp_all add: word_unat_eq_iff unsigned_take_bit_eq unsigned_drop_bit_eq unsigned_of_nat take_bit_unat)

lemma word_limbs: "unat (w :: Word) = limb w 0 + limb w 1 * 2 ^ 64 + limb w 2 * 2 ^ 128 + limb w 3 * 2 ^ 192"
proof -
  let ?u = "unat w"
  have b: "?u < 2 ^ 256" using unsigned_less [of w, where ?'a = nat] by simp
  have "?u = ?u mod 2 ^ 64 + ?u div 2 ^ 64 * 2 ^ 64" by simp
  moreover have "?u div 2 ^ 64 = ?u div 2 ^ 64 mod 2 ^ 64 + ?u div 2 ^ 128 * 2 ^ 64"
    using div_mult2_eq [of ?u "2 ^ 64" "2 ^ 64"] by simp
  moreover have "?u div 2 ^ 128 = ?u div 2 ^ 128 mod 2 ^ 64 + ?u div 2 ^ 192 * 2 ^ 64"
    using div_mult2_eq [of ?u "2 ^ 128" "2 ^ 64"] by simp
  moreover have "?u div 2 ^ 192 mod 2 ^ 64 = ?u div 2 ^ 192" using b by simp
  moreover have "limb w 0 = ?u mod 2 ^ 64" "limb w 1 = ?u div 2 ^ 64 mod 2 ^ 64" "limb w 2 = ?u div 2 ^ 128 mod 2 ^ 64"
    "limb w 3 = ?u div 2 ^ 192 mod 2 ^ 64" by (simp_all add: limb_def)
  ultimately have "?u = limb w 0 + (limb w 1 + (limb w 2 + limb w 3 * 2 ^ 64) * 2 ^ 64) * 2 ^ 64" by metis
  then show ?thesis by (simp add: algebra_simps)
qed

lemma split_halves: "split_u256 w = (of_nat (unat w mod 2 ^ 128), of_nat (unat w div 2 ^ 128))"
  unfolding split_u256_def take_bit_eq_mod [symmetric] drop_bit_eq_div [symmetric]
  by (simp add: word_unat_eq_iff unsigned_take_bit_eq unsigned_drop_bit_eq unsigned_of_nat take_bit_unat)

lemma unat_small: "n < 2 ^ 256 \<Longrightarrow> unat (of_nat n :: Word) = n"
  by (simp add: unsigned_of_nat take_bit_nat_eq_self)

lemma u256_products_small:
  "unat acc + sum_list (map (\<lambda>(v, w). unat v * unat w) ps) < 2 ^ 256 \<Longrightarrow>
     u256_products acc ps = Inr (of_nat (unat acc + sum_list (map (\<lambda>(v, w). unat v * unat w) ps)))"
proof (induction ps arbitrary: acc)
  case (Cons p ps)
  obtain v w where p: "p = (v, w)" by (cases p)
  have m: "unat (v * w) = unat v * unat w" using Cons.prems by (simp add: p unat_word_ariths)
  then have "unat (acc + v * w) = unat acc + unat v * unat w" using Cons.prems by (simp add: p unat_word_ariths)
  then show ?case using Cons m by (simp add: p u256_mul_def u256_add_def add.assoc)
qed simp

lemma halves_lt: "x < 2 ^ 128 \<Longrightarrow> y < 2 ^ 128 \<Longrightarrow> x + y * 2 ^ 128 < (2 :: nat) ^ 256"
  by simp

lemma unat_limb: "unat (of_nat (limb w j) :: Word) = limb w j"
  using limb_bound [of w j] by (intro unat_small) simp

lemma u256_add_of_nat: "m + n < 2 ^ 256 \<Longrightarrow> u256_add (of_nat m) (of_nat n) = Inr (of_nat (m + n))"
  using unat_small [of m] unat_small [of n] by (simp add: u256_add_def)

lemma carry_step: "n < 2 ^ 256 \<Longrightarrow> drop_bit 128 (of_nat (n - n mod 2 ^ 128) :: Word) = of_nat (n div 2 ^ 128)"
proof -
  assume n: "n < 2 ^ 256"
  then have m: "n - n mod 2 ^ 128 < 2 ^ 256" by linarith
  have "(n - n mod 2 ^ 128) div 2 ^ 128 = n div 2 ^ 128"
    by (metis minus_mod_eq_div_mult nonzero_mult_div_cancel_right power_not_zero zero_neq_numeral)
  then have "unat (drop_bit 128 (of_nat (n - n mod 2 ^ 128) :: Word)) = n div 2 ^ 128"
    using unat_small [OF m] by (subst unat_drop_bit_eq) (simp only: drop_bit_eq_div)
  moreover have "unat (of_nat (n div 2 ^ 128) :: Word) = n div 2 ^ 128"
    using n div_le_dividend [of n "2 ^ 128"] by (intro unat_small) linarith
  ultimately show ?thesis by (simp only: word_unat_eq_iff)
qed

text \<open>The carries in naturals, when \<open>d\<close> is the result.\<close>

lemma mul_add_carries_eq:
  fixes a b c d :: Word
  assumes d: "d = a * b + c"
  defines "X \<equiv> limb a 0 * limb b 0 + (limb a 0 * limb b 1 + limb a 1 * limb b 0) * 2 ^ 64 + unat c mod 2 ^ 128"
    and "Y \<equiv> limb a 0 * limb b 2 + limb a 1 * limb b 1 + limb a 2 * limb b 0 +
      (limb a 0 * limb b 3 + limb a 1 * limb b 2 + limb a 2 * limb b 1 + limb a 3 * limb b 0) * 2 ^ 64 + unat c div 2 ^ 128"
  shows "mul_add_carries a b c d = Inr (of_nat (X div 2 ^ 128), of_nat ((Y + X div 2 ^ 128) div 2 ^ 128))"
    and "unat d mod 2 ^ 128 = X mod 2 ^ 128" and "unat d div 2 ^ 128 = (Y + X div 2 ^ 128) mod 2 ^ 128"
    and "X < 2 ^ 196" and "Y < 2 ^ 197"
    and "unat a * unat b + unat c = unat d + (limb a 1 * limb b 3 + limb a 2 * limb b 2 + limb a 3 * limb b 1 +
      2 ^ 64 * (limb a 2 * limb b 3 + limb a 3 * limb b 2) + 2 ^ 128 * (limb a 3 * limb b 3) + (Y + X div 2 ^ 128) div 2 ^ 128) * 2 ^ 256"
proof -
  have ps: "limb a j * limb b l < 2 ^ 128" for j l by (rule prod64 [OF limb_bound limb_bound])
  note small = ps [of 0 0] ps [of 0 1] ps [of 1 0] ps [of 0 2] ps [of 1 1] ps [of 2 0] ps [of 0 3] ps [of 1 2] ps [of 2 1] ps [of 3 0]
  have c: "unat c mod 2 ^ 128 < 2 ^ 128" "unat c div 2 ^ 128 < 2 ^ 128"
    using unsigned_less [of c, where ?'a = nat] by (auto simp: less_mult_imp_div_less)
  show X: "X < 2 ^ 196" and Y: "Y < 2 ^ 197" unfolding X_def Y_def using small c by simp_all
  let ?U = "limb a 1 * limb b 3 + limb a 2 * limb b 2 + limb a 3 * limb b 1 + 2 ^ 64 * (limb a 2 * limb b 3 + limb a 3 * limb b 2) +
    2 ^ 128 * (limb a 3 * limb b 3)"
  have sum: "unat a * unat b + unat c = X mod 2 ^ 128 + (Y + X div 2 ^ 128) mod 2 ^ 128 * 2 ^ 128 +
      (?U + (Y + X div 2 ^ 128) div 2 ^ 128) * 2 ^ 256"
    using mul_add_nat [of "limb a" "limb b" "\<lambda>j. if j = 0 then unat c mod 2 ^ 128 else unat c div 2 ^ 128"
        "\<lambda>j. if j = 0 then X mod 2 ^ 128 else (Y + X div 2 ^ 128) mod 2 ^ 128" "X div 2 ^ 128" "(Y + X div 2 ^ 128) div 2 ^ 128"]
    by (simp only: if_True if_False refl one_neq_zero word_limbs [symmetric] X_def [symmetric] Y_def [symmetric] mod_div_mult_eq)
  let ?d0 = "X mod 2 ^ 128" and ?d1 = "(Y + X div 2 ^ 128) mod 2 ^ 128"
  have lt: "?d0 + ?d1 * 2 ^ 128 < 2 ^ 256"
    by (rule halves_lt) simp_all
  have "unat d = (unat a * unat b + unat c) mod 2 ^ 256"
    unfolding d by (simp add: unat_word_ariths mod_simps)
  also have "\<dots> = ?d0 + ?d1 * 2 ^ 128" unfolding sum mod_mult_self1 by (rule mod_less [OF lt])
  finally have ud: "unat d = ?d0 + ?d1 * 2 ^ 128" .
  then show d0: "unat d mod 2 ^ 128 = ?d0" and d1: "unat d div 2 ^ 128 = ?d1" by simp_all
  show "unat a * unat b + unat c = unat d + (?U + (Y + X div 2 ^ 128) div 2 ^ 128) * 2 ^ 256" unfolding ud by (rule sum)
  define t where "t = (\<lambda>k. \<Sum>j\<leftarrow>[0..<Suc k]. limb a j * limb b (k - j))"
  have t: "t 0 = limb a 0 * limb b 0" "t 1 = limb a 0 * limb b 1 + limb a 1 * limb b 0"
    "t 2 = limb a 0 * limb b 2 + limb a 1 * limb b 1 + limb a 2 * limb b 0"
    "t 3 = limb a 0 * limb b 3 + limb a 1 * limb b 2 + limb a 2 * limb b 1 + limb a 3 * limb b 0"
    by (simp_all add: t_def upt_rec numeral_eq_Suc)
  have tb: "t 0 < 2 ^ 130" "t 1 < 2 ^ 130" "t 2 < 2 ^ 130" "t 3 < 2 ^ 130" unfolding t using small by simp_all
  have sh: "push_bit 64 (of_nat n :: Word) = of_nat (n * 2 ^ 64)" for n by (simp add: push_bit_eq_mult)
  have "of_nat (t 0 + t 1 * 2 ^ 64) + (of_nat (unat c mod 2 ^ 128) - of_nat (unat d mod 2 ^ 128)) = (of_nat (X - ?d0) :: Word)"
    unfolding d0 X_def t by simp
  moreover have "X < 2 ^ 256" using X by simp
  ultimately have lo: "drop_bit 128 (of_nat (t 0 + t 1 * 2 ^ 64) + (of_nat (unat c mod 2 ^ 128) - of_nat (unat d mod 2 ^ 128))) =
      (of_nat (X div 2 ^ 128) :: Word)" by (simp only: carry_step)
  have "of_nat (t 2 + t 3 * 2 ^ 64 + unat c div 2 ^ 128) + (of_nat (X div 2 ^ 128) - of_nat (unat d div 2 ^ 128)) =
      (of_nat (Y + X div 2 ^ 128 - ?d1) :: Word)"
    unfolding d1 Y_def t by simp
  moreover have "Y + X div 2 ^ 128 < 2 ^ 256" using X Y div_le_dividend [of X "2 ^ 128"] by simp
  ultimately have hi: "drop_bit 128 (of_nat (t 2 + t 3 * 2 ^ 64 + unat c div 2 ^ 128) + (of_nat (X div 2 ^ 128) - of_nat (unat d div 2 ^ 128))) =
      (of_nat ((Y + X div 2 ^ 128) div 2 ^ 128) :: Word)" by (simp only: carry_step)
  show "mul_add_carries a b c d = Inr (of_nat (X div 2 ^ 128), of_nat ((Y + X div 2 ^ 128) div 2 ^ 128))"
  proof -
    let ?l = "\<lambda>w j. of_nat (limb w j) :: Word"
    have p: "u256_products 0 [(?l a 0, ?l b 0)] = Inr (of_nat (t 0))"
      "u256_products 0 [(?l a 0, ?l b 1), (?l a 1, ?l b 0)] = Inr (of_nat (t 1))"
      "u256_products 0 [(?l a 0, ?l b 2), (?l a 1, ?l b 1), (?l a 2, ?l b 0)] = Inr (of_nat (t 2))"
      "u256_products 0 [(?l a 0, ?l b 3), (?l a 1, ?l b 2), (?l a 2, ?l b 1), (?l a 3, ?l b 0)] = Inr (of_nat (t 3))"
      unfolding t using small by (subst u256_products_small; simp add: unat_limb)+
    have s: "u256_add (of_nat (t 0)) (of_nat (t 1 * 2 ^ 64)) = Inr (of_nat (t 0 + t 1 * 2 ^ 64))"
      "u256_add (of_nat (t 2)) (of_nat (t 3 * 2 ^ 64)) = Inr (of_nat (t 2 + t 3 * 2 ^ 64))"
      "u256_add (of_nat (t 2 + t 3 * 2 ^ 64)) (of_nat (unat c div 2 ^ 128)) = Inr (of_nat (t 2 + t 3 * 2 ^ 64 + unat c div 2 ^ 128))"
      using tb c by (intro u256_add_of_nat; simp)+
    have l: "split_u256_limb64 w ! j = ?l w j" if "j < 4" for w j using that by (simp add: split_limbs)
    show ?thesis
      unfolding mul_add_carries_def split_halves prod.case Let_def
      by (simp only: l p bindE_Inr sh s lo hi)
  qed
qed

lemma limb_as_u64: "u256_as_u64 (of_nat (limb w j)) = Inr (of_nat (limb w j))"
  using limb_bound [of w j] by (simp add: u256_as_u64_def unat_limb unsigned_of_nat take_bit_nat_eq_self)

lemma mapE_as_u64: "mapE u256_as_u64 (split_u256_limb64 w) = Inr (map (\<lambda>j. of_nat (limb w j)) [0..<4])"
  by (simp add: split_limbs upt_rec numeral_eq_Suc limb_as_u64)

lemma unat_limb64: "unat (of_nat (limb w j) :: u64) = limb w j"
  using limb_bound [of w j] by (simp add: unsigned_of_nat take_bit_nat_eq_self)

lemma half_unat:
  fixes w :: Word
  shows "unat (of_nat (unat w mod 2 ^ 128) :: Word) = unat w mod 2 ^ 128" and "unat (of_nat (unat w div 2 ^ 128) :: Word) = unat w div 2 ^ 128"
    and "unat w div 2 ^ 128 < 2 ^ 128"
proof -
  show b: "unat w div 2 ^ 128 < 2 ^ 128" using unsigned_less [of w, where ?'a = nat] by (simp add: less_mult_imp_div_less)
  show "unat (of_nat (unat w div 2 ^ 128) :: Word) = unat w div 2 ^ 128" using b by (intro unat_small) simp
  show "unat (of_nat (unat w mod 2 ^ 128) :: Word) = unat w mod 2 ^ 128" by (intro unat_small) (simp add: less_trans [OF mod_less_divisor])
qed

definition limb_cells :: "Word \<Rightarrow> 'f :: field list" where
  "limb_cells w = map (\<lambda>j. of_nat (limb w j)) [0..<4]"

definition half_cells :: "Word \<Rightarrow> 'f :: field \<times> 'f" where
  "half_cells w = (of_nat (unat w mod 2 ^ 128), of_nat (unat w div 2 ^ 128))"

text \<open>Seven consecutive rows that hold the assignment of a correct equation.\<close>

lemma carry_cells:
  fixes rows :: "nat \<Rightarrow> 'f :: field MulAddRow"
  assumes k: "k < 2 ^ 72" and rows: "r1 = ma_row (take 5 bytes)" "r2 = ma_row (take 4 (drop 5 bytes))"
    and bytes: "bytes = map (\<lambda>byte. of_nat (unat byte)) (le_bytes 32 (unat (of_nat k :: Word)))"
  shows "expr_from_bytes (ma_cols4 r1 @ [ma_col4 r1] @ ma_cols4 r2) = (of_nat k :: 'f)"
    and "ma_cols4 r1 @ [ma_col4 r1] @ ma_cols4 r2 = map of_nat (map unat (le_bytes 9 k))"
proof -
  have u: "unat (of_nat k :: Word) = k" using k by (intro unat_small) simp
  have "ma_cols4 (ma_row (take 5 cells)) @ [ma_col4 (ma_row (take 5 cells))] @ ma_cols4 (ma_row (take 4 (drop 5 cells))) =
      map ((!) cells) [0..<9]" if "length cells = 32" for cells :: "'f list"
    using that by (simp add: ma_cols4_def ma_row_def upt_rec) (simp add: numeral_eq_Suc)
  then have "ma_cols4 r1 @ [ma_col4 r1] @ ma_cols4 r2 = map ((!) bytes) [0..<9]" unfolding rows by (simp add: bytes)
  also have "\<dots> = map of_nat (map unat (le_bytes 9 k))"
    unfolding bytes u by (rule nth_equalityI) (simp_all add: le_bytes_def del: of_nat_unat)
  finally show cells: "ma_cols4 r1 @ [ma_col4 r1] @ ma_cols4 r2 = map of_nat (map unat (le_bytes 9 k))" .
  show "expr_from_bytes (ma_cols4 r1 @ [ma_col4 r1] @ ma_cols4 r2) = of_nat k"
    unfolding cells using k by (simp only: expr_from_bytes_of_nat nat_from_bytes_le_bytes) simp
qed

lemma mul_add_assign_rows:
  fixes a b c :: Word
  assumes d: "d = a * b + c"
  obtains assigned :: "'f :: field MulAddRow list" where "mul_add_assign a b c d = Inr assigned" and "length assigned = 7"
    and "\<And>rows i. (\<forall>k < 7. rows (i + k) = assigned ! k) \<Longrightarrow>
       a_limbs_cur rows i = limb_cells a \<and> b_limbs_cur rows i = limb_cells b \<and> c_lo_hi_cur rows i = half_cells c \<and>
       d_lo_hi_cur rows i = half_cells d \<and> satisfied (mul_add_gate q rows i) \<and>
       (canonical repr \<longrightarrow> mul_add_ranged repr rows i) \<and>
       (unat a * unat b + unat c < 2 ^ 256 \<longrightarrow> mul_add_overflow rows i = 0)"
proof -
  define X where "X = limb a 0 * limb b 0 + (limb a 0 * limb b 1 + limb a 1 * limb b 0) * 2 ^ 64 + unat c mod 2 ^ 128"
  define Y where "Y = limb a 0 * limb b 2 + limb a 1 * limb b 1 + limb a 2 * limb b 0 +
      (limb a 0 * limb b 3 + limb a 1 * limb b 2 + limb a 2 * limb b 1 + limb a 3 * limb b 0) * 2 ^ 64 + unat c div 2 ^ 128"
  define k1 where "k1 = X div 2 ^ 128"
  define k2 where "k2 = (Y + k1) div 2 ^ 128"
  note eqs = mul_add_carries_eq [OF d, folded X_def Y_def, folded k1_def, folded k2_def]
  have k: "k1 < 2 ^ 72" "k2 < 2 ^ 72"
    using eqs(4,5) unfolding k1_def k2_def by (auto simp: less_mult_imp_div_less)
  note h = half_unat
  let ?bytes = "\<lambda>k. map (\<lambda>byte. of_nat (unat byte)) (le_bytes 32 (unat (of_nat k :: Word))) :: 'f list"
  let ?cells = "[limb_cells a, limb_cells b,
    [fst (half_cells c), snd (half_cells c), fst (half_cells d), snd (half_cells d)],
    take 5 (?bytes k1), take 4 (drop 5 (?bytes k1)), take 5 (?bytes k2), take 4 (drop 5 (?bytes k2))]"
  have halves: "mapE u256_as_u128 [fst (split_u256 c), snd (split_u256 c), fst (split_u256 d), snd (split_u256 d)] =
      Inr [unat c mod 2 ^ 128, unat c div 2 ^ 128, unat d mod 2 ^ 128, unat d div 2 ^ 128]"
    unfolding split_halves using h by (simp add: u256_as_u128_def)
  have "mul_add_assign a b c d = Inr (map ma_row ?cells)"
    unfolding mul_add_assign_def eqs(1) bindE_Inr prod.case mapE_as_u64 halves Let_def map_map comp_def unat_limb64
      limb_cells_def half_cells_def fst_conv snd_conv list.map by (rule refl)
  then show ?thesis
  proof (rule that)
    fix rows :: "nat \<Rightarrow> 'f MulAddRow" and i
    assume rows: "\<forall>k < 7. rows (i + k) = map ma_row ?cells ! k"
    have r: "rows i = ma_row (limb_cells a)" "rows (i + 1) = ma_row (limb_cells b)"
      "rows (i + 2) = ma_row [fst (half_cells c), snd (half_cells c), fst (half_cells d), snd (half_cells d)]"
      "rows (i + 3) = ma_row (take 5 (?bytes k1))" "rows (i + 4) = ma_row (take 4 (drop 5 (?bytes k1)))"
      "rows (i + 5) = ma_row (take 5 (?bytes k2))" "rows (i + 6) = ma_row (take 4 (drop 5 (?bytes k2)))"
      using rows [rule_format, of 0] rows [rule_format, of 1] rows [rule_format, of 2] rows [rule_format, of 3]
        rows [rule_format, of 4] rows [rule_format, of 5] rows [rule_format, of 6] by simp_all
    have lim: "ma_cols4 (ma_row (limb_cells w)) = (limb_cells w :: 'f list)" for w
      by (simp add: ma_cols4_def ma_row_def limb_cells_def upt_rec numeral_eq_Suc)
    have cells: "a_limbs_cur rows i = limb_cells a" "b_limbs_cur rows i = limb_cells b" "c_lo_hi_cur rows i = half_cells c"
      "d_lo_hi_cur rows i = half_cells d"
      by (simp_all add: a_limbs_cur_def b_limbs_cur_def c_lo_hi_cur_def d_lo_hi_cur_def r [simplified] lim)
        (simp_all add: ma_row_def)
    have carries: "expr_from_bytes (carry_los rows i) = of_nat k1" "expr_from_bytes (carry_his rows i) = of_nat k2"
      unfolding carry_los_def carry_his_def by (rule carry_cells(1) [OF _ r(4,5) refl] carry_cells(1) [OF _ r(6,7) refl]; rule k)+
    have bytes: "carry_los rows i = map of_nat (map unat (le_bytes 9 k1))" "carry_his rows i = map of_nat (map unat (le_bytes 9 k2))"
      unfolding carry_los_def carry_his_def by (rule carry_cells(2) [OF _ r(4,5) refl] carry_cells(2) [OF _ r(6,7) refl]; rule k)+
    have l: "limb_cells w ! j = (of_nat (limb w j) :: 'f)" if "j < 4" for w j using that by (simp add: limb_cells_def)
    have "X = unat d mod 2 ^ 128 + k1 * 2 ^ 128" "Y + k1 = unat d div 2 ^ 128 + k2 * 2 ^ 128"
      unfolding eqs(2,3) k1_def k2_def by simp_all
    then have eq: "of_nat X = (of_nat (unat d mod 2 ^ 128 + k1 * 2 ^ 128) :: 'f)"
      "of_nat (Y + k1) = (of_nat (unat d div 2 ^ 128 + k2 * 2 ^ 128) :: 'f)" by simp_all
    have "satisfied (mul_add_gate q rows i)"
      unfolding mul_add_gate_def Let_def cells half_cells_def prod.case satisfied_simps(4)
      using eq by (simp add: carries l pow_of_two_def X_def Y_def)
    moreover have "mul_add_overflow rows i = 0" if "unat a * unat b + unat c < 2 ^ 256"
    proof -
      let ?U = "limb a 1 * limb b 3 + limb a 2 * limb b 2 + limb a 3 * limb b 1 + 2 ^ 64 * (limb a 2 * limb b 3 + limb a 3 * limb b 2) +
        2 ^ 128 * (limb a 3 * limb b 3)"
      let ?o = "k2 + limb a 1 * limb b 3 + limb a 2 * limb b 2 + limb a 2 * limb b 3 + limb a 3 * limb b 1 + limb a 3 * limb b 2 +
        limb a 3 * limb b 3"
      have "?U + k2 = 0" using that unfolding eqs(6) by (cases "?U + k2") auto
      then have "?o = 0" by simp
      moreover have "mul_add_overflow rows i = of_nat ?o" by (simp add: mul_add_overflow_def Let_def cells carries l)
      ultimately show ?thesis by (simp only: semiring_1_class.of_nat_0)
    qed
    moreover have "mul_add_ranged repr rows i" if can: "canonical repr"
    proof -
      have "fits repr 8 (of_nat (unat (x :: u8)) :: 'f)" for x
        using fits_of_nat [OF can, of "unat x" 8] unsigned_less [of x, where ?'a = nat] by simp
      moreover have "fits repr 64 (of_nat (limb w j) :: 'f)" for w j using fits_of_nat [OF can limb_bound, of w j] by simp
      moreover have "fits repr 128 (of_nat (unat w mod 2 ^ 128) :: 'f)" "fits repr 128 (of_nat (unat w div 2 ^ 128) :: 'f)" for w :: Word
        using fits_of_nat [OF can, of _ 128] h(3) by simp_all
      ultimately show ?thesis
        by (auto simp: mul_add_ranged_def cells bytes half_cells_def limb_cells_def list_all_iff simp del: of_nat_unat)
    qed
    ultimately show "a_limbs_cur rows i = limb_cells a \<and> b_limbs_cur rows i = limb_cells b \<and> c_lo_hi_cur rows i = half_cells c \<and>
       d_lo_hi_cur rows i = half_cells d \<and> satisfied (mul_add_gate q rows i) \<and>
       (canonical repr \<longrightarrow> mul_add_ranged repr rows i) \<and>
       (unat a * unat b + unat c < 2 ^ 256 \<longrightarrow> mul_add_overflow rows i = 0)"
      using cells by blast
  qed simp
qed

text \<open>The rows of the chip from row \<open>i\<close> on hold a correct equation.\<close>

definition ma_block :: "(nat \<Rightarrow> 'f :: field MulAddRow) \<Rightarrow> nat \<Rightarrow> Word \<Rightarrow> Word \<Rightarrow> Word \<Rightarrow> bool" where
  "ma_block rows i a b c \<longleftrightarrow>
     a_limbs_cur rows i = limb_cells a \<and> b_limbs_cur rows i = limb_cells b \<and> c_lo_hi_cur rows i = half_cells c \<and>
     d_lo_hi_cur rows i = half_cells (a * b + c) \<and> (\<forall>q. satisfied (mul_add_gate q rows i)) \<and>
     (\<forall>repr. canonical repr \<longrightarrow> mul_add_ranged repr rows i) \<and>
     (unat a * unat b + unat c < 2 ^ 256 \<longrightarrow> mul_add_overflow rows i = 0)"

lemma mul_add_assign_total: "\<exists>assigned. mul_add_assign a b c (a * b + c) = Inr assigned \<and> length assigned = 7"
  by (rule mul_add_assign_rows [OF refl]) blast

lemma ma_blockI:
  fixes rows :: "nat \<Rightarrow> 'f :: field MulAddRow"
  assumes assigned: "mul_add_assign a b c (a * b + c) = (Inr assigned :: ('f MulAddRow list, 'e) result)"
    and rows: "\<forall>k < 7. rows (i + k) = assigned ! k"
  shows "ma_block rows i a b c"
proof -
  have "a_limbs_cur rows i = limb_cells a \<and> b_limbs_cur rows i = limb_cells b \<and> c_lo_hi_cur rows i = half_cells c \<and>
     d_lo_hi_cur rows i = half_cells (a * b + c) \<and> satisfied (mul_add_gate q rows i) \<and>
     (canonical repr \<longrightarrow> mul_add_ranged repr rows i) \<and>
     (unat a * unat b + unat c < 2 ^ 256 \<longrightarrow> mul_add_overflow rows i = 0)" for q repr
  proof (rule mul_add_assign_rows [OF refl, where a = a and b = b and c = c and repr = repr and q = q])
    fix assigned' :: "'f MulAddRow list"
    assume "mul_add_assign a b c (a * b + c) = (Inr assigned' :: ('f MulAddRow list, 'e) result)"
      and facts: "\<And>rows i. (\<forall>k < 7. rows (i + k) = assigned' ! k) \<Longrightarrow>
       a_limbs_cur rows i = limb_cells a \<and> b_limbs_cur rows i = limb_cells b \<and> c_lo_hi_cur rows i = half_cells c \<and>
       d_lo_hi_cur rows i = half_cells (a * b + c) \<and> satisfied (mul_add_gate q rows i) \<and>
       (canonical repr \<longrightarrow> mul_add_ranged repr rows i) \<and>
       (unat a * unat b + unat c < 2 ^ 256 \<longrightarrow> mul_add_overflow rows i = 0)"
    then have "assigned' = assigned" using assigned by simp
    then show ?thesis using facts rows by blast
  qed
  then show ?thesis by (simp add: ma_block_def)
qed

section \<open>Properties of the chip\<close>

text \<open>
  C20: the multiplication chip. If the limbs, the halves and the bytes of the carries are in range, the gate of an enabled row
  holds only when \<open>a * b + c\<close> is \<open>d\<close> modulo 2 to the 256, and then the overflow expression is zero exactly when nothing
  was reduced. The assignment of words with \<open>d = a * b + c\<close> never panics, is in range and passes the gate.
\<close>

theorem mul_add_chip_spec:
  fixes repr :: "'f :: field \<Rightarrow> nat"
  assumes "canonical repr"
  shows "(mul_add_ranged repr rows i \<and> q \<noteq> 0 \<and> satisfied (mul_add_gate q rows i) \<longrightarrow>
      (limbs_nat repr (a_limbs_cur rows i) * limbs_nat repr (b_limbs_cur rows i) + lo_hi_nat repr (c_lo_hi_cur rows i)) mod 2 ^ 256 =
        lo_hi_nat repr (d_lo_hi_cur rows i) \<and>
      (mul_add_overflow rows i = 0 \<longleftrightarrow>
        limbs_nat repr (a_limbs_cur rows i) * limbs_nat repr (b_limbs_cur rows i) + lo_hi_nat repr (c_lo_hi_cur rows i) < 2 ^ 256)) \<and>
    (\<exists>assigned. (mul_add_assign a b c (a * b + c) :: ('f MulAddRow list, 'e) result) = Inr assigned \<and>
      mul_add_ranged repr (\<lambda>k. assigned ! k) 0 \<and> satisfied (mul_add_gate q (\<lambda>k. assigned ! k) 0))"
proof
  show "\<exists>assigned. (mul_add_assign a b c (a * b + c) :: ('f MulAddRow list, 'e) result) = Inr assigned \<and>
      mul_add_ranged repr (\<lambda>k. assigned ! k) 0 \<and> satisfied (mul_add_gate q (\<lambda>k. assigned ! k) 0)"
  proof -
    obtain assigned where 1: "(mul_add_assign a b c (a * b + c) :: ('f MulAddRow list, 'e) result) = Inr assigned"
      using mul_add_assign_total by blast
    then have "ma_block (\<lambda>k. assigned ! k) 0 a b c" by (rule ma_blockI) simp
    then show ?thesis using 1 assms by (auto simp: ma_block_def)
  qed
qed (use mul_add_sound [OF assms] in blast)

theorem mul_add_chip_spec_witness:
  "\<exists>assigned. (mul_add_assign 3 5 2 17 :: (rat MulAddRow list, unit) result) = Inr assigned \<and>
     satisfied (mul_add_gate 1 (\<lambda>k. assigned ! k) 0)"
  using mul_add_chip_spec [OF canonical_rat, of "\<lambda>_. ma_row [0, 0, 0, 0]" 0 1 3 5 2, where ?'e = unit] by auto

end
