(* ===== verification/Constraint_Builder.thy ===== *)
theory Constraint_Builder
  imports Field_Gadgets
begin

text \<open>
  The constraint builder of the circuits, \<open>ConstrainBuilderCommon\<close> and \<open>BaseConstraintBuilder\<close> of
  \<^verbatim>\<open>zkevm-circuits/src/evm_circuit/util/constraint_builder.rs\<close>. The builder collects named polynomials that have to be
  zero; the model keeps their values at a row, in order. The names and the check of the degree have no influence on them.
\<close>

section \<open>Requirements\<close>

definition require_zero :: "'f :: field \<Rightarrow> 'f list" where
  "require_zero constraint = [constraint]"

definition require_equal :: "'f :: field \<Rightarrow> 'f \<Rightarrow> 'f list" where
  "require_equal lhs rhs = [lhs - rhs]"

definition require_equal_word :: "'f :: field \<times> 'f \<Rightarrow> 'f \<times> 'f \<Rightarrow> 'f list" where
  "require_equal_word lhs rhs = [fst lhs - fst rhs, snd lhs - snd rhs]"

definition require_zero_word :: "'f :: field \<times> 'f \<Rightarrow> 'f list" where
  "require_zero_word word = require_equal_word word (0, 0)"

definition require_boolean :: "'f :: field \<Rightarrow> 'f list" where
  "require_boolean v = [v * (1 - v)]"

definition require_true :: "'f :: field \<Rightarrow> 'f list" where
  "require_true v = require_equal v 1"

definition require_in_set :: "'f :: field \<Rightarrow> 'f list \<Rightarrow> 'f list" where
  "require_in_set v items = [foldl (\<lambda>acc item. acc * (v - item)) 1 items]"

text \<open>\<open>condition\<close> multiplies the constraints added in its body; \<open>gate\<close> all of them by the selector.\<close>

definition cb_condition :: "'f :: field \<Rightarrow> 'f list \<Rightarrow> 'f list" where
  "cb_condition condition constraints = map (\<lambda>constraint. condition * constraint) constraints"

definition cb_gate :: "'f :: field \<Rightarrow> 'f list \<Rightarrow> 'f list" where
  "cb_gate selector constraints = map (\<lambda>constraint. selector * constraint) constraints"

section \<open>What a satisfied requirement says\<close>

lemma require_in_set_0: "foldl (\<lambda>acc item. acc * (v - item)) a items = (0 :: 'f :: field) \<longleftrightarrow> a = 0 \<or> v \<in> set items"
  by (induction items arbitrary: a) auto

lemma satisfied_require [simp]:
  fixes v w :: "'f :: field" and l r :: "'f \<times> 'f"
  shows "satisfied (require_zero v) \<longleftrightarrow> v = 0"
    and "satisfied (require_equal v w) \<longleftrightarrow> v = w"
    and "satisfied (require_equal_word l r) \<longleftrightarrow> l = r"
    and "satisfied (require_zero_word l) \<longleftrightarrow> l = (0, 0)"
    and "satisfied (require_boolean v) \<longleftrightarrow> v = 0 \<or> v = 1"
    and "satisfied (require_true v) \<longleftrightarrow> v = 1"
    and "satisfied (require_in_set v items) \<longleftrightarrow> v \<in> set items"
    and "satisfied (cb_condition c es) \<longleftrightarrow> c = 0 \<or> satisfied es"
    and "satisfied (cb_gate c es) \<longleftrightarrow> c = 0 \<or> satisfied es"
  by (auto simp: require_zero_def require_equal_def require_equal_word_def require_zero_word_def require_boolean_def
      require_true_def require_in_set_def require_in_set_0 cb_condition_def cb_gate_def prod_eq_iff)

end
