(* ===== verification/Exp_Circuit.thy ===== *)
theory Exp_Circuit
  imports Mul_Add Constraint_Builder Handler_Specs
begin

text \<open>
  The exponentiation circuit, \<^verbatim>\<open>zkevm-circuits/src/exp_circuit.rs\<close>, and its table, \<^verbatim>\<open>zkevm-circuits/src/table/exp_table.rs\<close>.
  A row holds the cells of the table and of the two multiplication chips; the region is a function from row numbers, in which
  a rotation is an addition. Cells that are not assigned are zero.
\<close>

section \<open>Layout and gates\<close>

definition OFFSET_INCREMENT :: nat where
  "OFFSET_INCREMENT = 7"

definition ROWS_PER_STEP :: nat where
  "ROWS_PER_STEP = 4"

definition UNUSABLE_EXP_ROWS :: nat where
  "UNUSABLE_EXP_ROWS = 10"

record 'f ExpRow =
  er_q_usable :: 'f
  er_is_step :: 'f
  er_identifier :: 'f
  er_is_last :: 'f
  er_base_limb :: 'f
  er_exponent_lo_hi :: 'f
  er_exponentiation_lo_hi :: 'f
  er_mul_gadget :: "'f MulAddRow"
  er_parity_check :: "'f MulAddRow"

definition mul_gadget :: "(nat \<Rightarrow> 'f ExpRow) \<Rightarrow> nat \<Rightarrow> 'f MulAddRow" where
  "mul_gadget rows k = er_mul_gadget (rows k)"

definition parity_check :: "(nat \<Rightarrow> 'f ExpRow) \<Rightarrow> nat \<Rightarrow> 'f MulAddRow" where
  "parity_check rows k = er_parity_check (rows k)"

definition base_limbs :: "(nat \<Rightarrow> 'f ExpRow) \<Rightarrow> nat \<Rightarrow> 'f list" where
  "base_limbs rows i = map (\<lambda>k. er_base_limb (rows (i + k))) [0..<4]"

definition exp_step_selector :: "(nat \<Rightarrow> 'f :: field ExpRow) \<Rightarrow> nat \<Rightarrow> 'f" where
  "exp_step_selector rows i = and_expr [er_q_usable (rows i), er_is_step (rows i)]"

definition limbs_lo_hi :: "'f :: field list \<Rightarrow> 'f \<times> 'f" where
  "limbs_lo_hi limbs = (limbs ! 0 + limbs ! 1 * 2 ^ 64, limbs ! 2 + limbs ! 3 * 2 ^ 64)"

definition verify_all_but_last_step :: "(nat \<Rightarrow> 'f :: field ExpRow) \<Rightarrow> nat \<Rightarrow> 'f list" where
  "verify_all_but_last_step rows i = cb_gate
     (and_expr [er_q_usable (rows i), er_is_step (rows i), not_expr (er_is_last (rows i))])
     (concat (map (\<lambda>k. require_equal (er_base_limb (rows (i + k))) (er_base_limb (rows (i + (k + 7))))) [0..<4]) @
      require_equal (fst (limbs_lo_hi (a_limbs_cur (mul_gadget rows) i))) (fst (d_lo_hi_next (mul_gadget rows) i)) @
      require_equal (snd (limbs_lo_hi (a_limbs_cur (mul_gadget rows) i))) (snd (d_lo_hi_next (mul_gadget rows) i)) @
      require_equal (er_identifier (rows i)) (er_identifier (rows (i + 7))))"

definition verify_all_rows :: "(nat \<Rightarrow> 'f :: field ExpRow) \<Rightarrow> nat \<Rightarrow> 'f list" where
  "verify_all_rows rows i = cb_gate (er_q_usable (rows i))
     (require_boolean (er_is_step (rows i)) @ require_boolean (er_is_last (rows i)))"

definition require_equal_limbs :: "'f :: field list \<Rightarrow> 'f list \<Rightarrow> 'f list" where
  "require_equal_limbs xs ys = concat (map2 require_equal xs ys)"

definition verify_all_steps :: "(nat \<Rightarrow> 'f :: field ExpRow) \<Rightarrow> nat \<Rightarrow> 'f list" where
  "verify_all_steps rows i =
     (let mul = mul_gadget rows; parity = parity_check rows;
          is_last = er_is_last (rows i); is_odd = fst (c_lo_hi_cur parity i); remainder_hi = snd (c_lo_hi_cur parity i);
          exponent = \<lambda>k. er_exponent_lo_hi (rows (i + k))
      in cb_gate (exp_step_selector rows i)
        (require_equal (er_exponentiation_lo_hi (rows i)) (fst (d_lo_hi_cur mul i)) @
         require_equal (er_exponentiation_lo_hi (rows (i + 1))) (snd (d_lo_hi_cur mul i)) @
         require_zero (fst (c_lo_hi_cur mul i)) @
         require_zero (snd (c_lo_hi_cur mul i)) @
         require_zero remainder_hi @
         require_boolean is_odd @
         require_zero (mul_add_overflow parity i) @
         cb_condition (and_expr [not_expr is_last, is_odd])
           (require_equal (exponent 7) (exponent 0 - 1) @
            require_equal (exponent 8) (exponent 1) @
            require_equal_limbs (base_limbs rows i) (b_limbs_cur mul i)) @
         cb_condition (and_expr [not_expr is_last, not_expr is_odd])
           (require_equal (exponent 0) (fst (d_lo_hi_cur parity i)) @
            require_equal (exponent 1) (snd (d_lo_hi_cur parity i)) @
            require_equal (exponent 7) (fst (limbs_lo_hi (b_limbs_cur parity i))) @
            require_equal (exponent 8) (snd (limbs_lo_hi (b_limbs_cur parity i))) @
            require_equal_limbs (a_limbs_cur mul i) (b_limbs_cur mul i)) @
         cb_condition is_last
           (require_equal (exponent 0) 2 @
            require_zero (exponent 1) @
            require_equal_limbs (base_limbs rows i) (a_limbs_cur mul i) @
            require_equal_limbs (base_limbs rows i) (b_limbs_cur mul i))))"

definition exp_gates :: "(nat \<Rightarrow> 'f :: field ExpRow) \<Rightarrow> nat \<Rightarrow> 'f list" where
  "exp_gates rows i =
     mul_add_gate (exp_step_selector rows i) (mul_gadget rows) i @
     mul_add_gate (exp_step_selector rows i) (parity_check rows) i @
     verify_all_but_last_step rows i @ verify_all_rows rows i @ verify_all_steps rows i"

section \<open>Assignment\<close>

text \<open>The exponent of the next step: \<open>exponent.div_mod(2)\<close>, then the half or the predecessor.\<close>

definition next_exponent :: "Word \<Rightarrow> Word" where
  "next_exponent exponent = (if exponent mod 2 = 0 then exponent div 2 else exponent - 1)"

text \<open>The rows of the table for one step: identifier, is_last, base limb, exponent, exponentiation.\<close>

definition exp_table_step :: "usize \<Rightarrow> bool \<Rightarrow> Word \<Rightarrow> Word \<Rightarrow> Word \<Rightarrow> 'f :: field list list" where
  "exp_table_step ident is_last base exponent d =
     (let limbs = map (\<lambda>limb. of_nat (unat limb)) (split_u256_limb64 base);
          (exp_lo, exp_hi) = split_u256 d; (exponent_lo, exponent_hi) = split_u256 exponent; f = (\<lambda>w. of_nat (unat w))
      in [[of_nat ident, of_bool is_last, limbs ! 0, f exponent_lo, f exp_lo],
          [of_nat ident, 0, limbs ! 1, f exponent_hi, f exp_hi],
          [of_nat ident, 0, limbs ! 2, 0, 0],
          [of_nat ident, 0, limbs ! 3, 0, 0]] @
         replicate (OFFSET_INCREMENT - ROWS_PER_STEP) [0, 0, 0, 0, 0])"

fun exp_table_chunks :: "usize \<Rightarrow> Word \<Rightarrow> Word \<Rightarrow> ExpStep list \<Rightarrow> 'f :: field list list list" where
  "exp_table_chunks ident base exponent [] = []"
| "exp_table_chunks ident base exponent (step # steps) =
     exp_table_step ident (steps = []) base exponent (xs_d step) # exp_table_chunks ident base (next_exponent exponent) steps"

definition exp_table_assignments :: "ExpEvent \<Rightarrow> 'f :: field list list" where
  "exp_table_assignments e = concat (exp_table_chunks (xe_identifier e) (xe_base e) (xe_exponent e) (rev (xe_steps e)))"

text \<open>The seven rows of a step, from the rows of the two chips and of the table.\<close>

definition exp_block :: "'f :: field MulAddRow list \<Rightarrow> 'f MulAddRow list \<Rightarrow> 'f list list \<Rightarrow> 'f ExpRow list" where
  "exp_block mul parity table = map (\<lambda>k.
     \<lparr>er_q_usable = 1, er_is_step = of_bool (k = 0), er_identifier = table ! k ! 0, er_is_last = table ! k ! 1,
      er_base_limb = table ! k ! 2, er_exponent_lo_hi = table ! k ! 3, er_exponentiation_lo_hi = table ! k ! 4,
      er_mul_gadget = mul ! k, er_parity_check = parity ! k\<rparr>) [0..<OFFSET_INCREMENT]"

fun assign_exp_steps ::
  "Word \<Rightarrow> ExpStep list \<Rightarrow> 'f :: field list list list \<Rightarrow> ('f ExpRow list, 'e) result" where
  "assign_exp_steps exponent (step # steps) (table # tables) =
     bindE (mul_add_assign (xs_a step) (xs_b step) 0 (xs_d step)) (\<lambda>mul.
     bindE (mul_add_assign 2 (exponent div 2) (exponent mod 2) exponent) (\<lambda>parity.
     bindE (assign_exp_steps (next_exponent exponent) steps tables) (\<lambda>rows.
     Inr (exp_block mul parity table @ rows))))"
| "assign_exp_steps exponent _ _ = Inr []"

definition assign_exp_event :: "ExpEvent \<Rightarrow> ('f :: field ExpRow list, 'e) result" where
  "assign_exp_event e = assign_exp_steps (xe_exponent e) (rev (xe_steps e))
     (exp_table_chunks (xe_identifier e) (xe_base e) (xe_exponent e) (rev (xe_steps e)))"

definition min_num_rows :: "ExpEvent list \<Rightarrow> nat" where
  "min_num_rows events = sum_list (map (\<lambda>e. length (xe_steps e) * OFFSET_INCREMENT) events) + UNUSABLE_EXP_ROWS"

definition exp_zero_row :: "'f :: field ExpRow" where
  "exp_zero_row = \<lparr>er_q_usable = 0, er_is_step = 0, er_identifier = 0, er_is_last = 0, er_base_limb = 0,
     er_exponent_lo_hi = 0, er_exponentiation_lo_hi = 0, er_mul_gadget = ma_row [0, 0, 0, 0], er_parity_check = ma_row [0, 0, 0, 0]\<rparr>"

text \<open>The loop that fills the circuit with the default event, of one step.\<close>

function exp_padding :: "nat \<Rightarrow> nat \<Rightarrow> 'r list \<Rightarrow> 'r list" where
  "exp_padding offset limit pad = (if offset + OFFSET_INCREMENT \<le> limit then pad @ exp_padding (offset + OFFSET_INCREMENT) limit pad else [])"
  by pat_completeness auto

termination
  by (relation "measure (\<lambda>(offset, limit, pad). limit - offset)") (auto simp: OFFSET_INCREMENT_def)

declare exp_padding.simps [simp del]

definition assign_exp_events :: "ExpEvent list \<Rightarrow> nat \<Rightarrow> ('f :: field ExpRow list, 'e) result" where
  "assign_exp_events events max_exp_rows =
     (if \<not> min_num_rows events \<le> max_exp_rows then Inl (Panic ''insufficient rows to populate the exponentiation trace'')
      else
        bindE (mapE assign_exp_event events) (\<lambda>blocks.
        bindE (assign_exp_event exp_event_default) (\<lambda>pad.
        let rows = concat blocks
        in Inr (rows @ exp_padding (length rows) (max_exp_rows - UNUSABLE_EXP_ROWS) pad @ replicate UNUSABLE_EXP_ROWS exp_zero_row))))"

definition exp_region :: "'f :: field ExpRow list \<Rightarrow> nat \<Rightarrow> 'f ExpRow" where
  "exp_region rows i = (if i < length rows then rows ! i else exp_zero_row)"

section \<open>The cells of an assigned step\<close>

text \<open>Seven rows that hold a step; the parity chip may hold any equation that gives the exponent.\<close>

definition exp_block_at ::
  "(nat \<Rightarrow> 'f :: field ExpRow) \<Rightarrow> nat \<Rightarrow> usize \<Rightarrow> bool \<Rightarrow> Word \<Rightarrow> Word \<Rightarrow> ExpStep \<Rightarrow> Word \<times> Word \<times> Word \<Rightarrow> bool" where
  "exp_block_at rows i ident fin base e step = (\<lambda>(pa, pb, pc).
     (\<forall>k < 7. er_q_usable (rows (i + k)) = 1 \<and> er_is_step (rows (i + k)) = of_bool (k = 0) \<and>
       er_is_last (rows (i + k)) = of_bool (k = 0 \<and> fin)) \<and>
     er_identifier (rows i) = of_nat ident \<and> base_limbs rows i = limb_cells base \<and>
     (er_exponent_lo_hi (rows i), er_exponent_lo_hi (rows (i + 1))) = half_cells e \<and>
     (er_exponentiation_lo_hi (rows i), er_exponentiation_lo_hi (rows (i + 1))) = half_cells (xs_d step) \<and>
     xs_d step = xs_a step * xs_b step \<and> e = pa * pb + pc \<and>
     ma_block (mul_gadget rows) i (xs_a step) (xs_b step) 0 \<and> ma_block (parity_check rows) i pa pb pc)"

lemma exp_table_cells:
  "exp_table_step ident fin base e d =
     [[of_nat ident, of_bool fin, limb_cells base ! 0, fst (half_cells e), fst (half_cells d)],
      [of_nat ident, 0, limb_cells base ! 1, snd (half_cells e), snd (half_cells d)],
      [of_nat ident, 0, limb_cells base ! 2, 0, 0], [of_nat ident, 0, limb_cells base ! 3, 0, 0],
      [0, 0, 0, 0, 0], [0, 0, 0, 0, 0], [0, 0, 0, 0, 0]]"
proof -
  have "map (\<lambda>limb. of_nat (unat limb)) (split_u256_limb64 base) = (limb_cells base :: 'a list)"
    by (simp add: split_limbs limb_cells_def comp_def unat_limb del: of_nat_unat)
  moreover have "of_nat (unat (fst (split_u256 w))) = (fst (half_cells w) :: 'a)" "of_nat (unat (snd (split_u256 w))) = (snd (half_cells w) :: 'a)" for w
    unfolding split_halves half_cells_def fst_conv snd_conv half_unat by (rule refl)+
  ultimately show ?thesis
    unfolding exp_table_step_def Let_def
    by (simp add: split_beta OFFSET_INCREMENT_def ROWS_PER_STEP_def numeral_eq_Suc del: of_nat_unat)
qed

lemma upt_4: "[0..<4] = [0, 1, 2, 3 :: nat]"
  by (simp add: upt_rec)

lemma less_7: "k < 7 \<longleftrightarrow> k \<in> {0, 1, 2, 3, 4, 5, 6 :: nat}"
  by auto

lemma exp_block_atI:
  fixes rows :: "nat \<Rightarrow> 'f :: field ExpRow"
  assumes mul: "mul_add_assign (xs_a step) (xs_b step) 0 (xs_d step) = (Inr mul :: ('f MulAddRow list, 'e) result)"
    and par: "mul_add_assign pa pb pc e = (Inr parity :: ('f MulAddRow list, 'e) result)"
    and d: "xs_d step = xs_a step * xs_b step" and e: "e = pa * pb + pc"
    and rows: "\<forall>k < 7. rows (i + k) = exp_block mul parity (exp_table_step ident fin base e (xs_d step)) ! k"
  shows "exp_block_at rows i ident fin base e step (pa, pb, pc)"
proof -
  have r: "rows (i + k) = \<lparr>er_q_usable = 1, er_is_step = of_bool (k = 0),
      er_identifier = exp_table_step ident fin base e (xs_d step) ! k ! 0, er_is_last = exp_table_step ident fin base e (xs_d step) ! k ! 1,
      er_base_limb = exp_table_step ident fin base e (xs_d step) ! k ! 2, er_exponent_lo_hi = exp_table_step ident fin base e (xs_d step) ! k ! 3,
      er_exponentiation_lo_hi = exp_table_step ident fin base e (xs_d step) ! k ! 4,
      er_mul_gadget = mul ! k, er_parity_check = parity ! k\<rparr>" if "k < 7" for k
    using rows that by (simp add: exp_block_def OFFSET_INCREMENT_def)
  have "ma_block (mul_gadget rows) i (xs_a step) (xs_b step) 0"
    by (rule ma_blockI [of _ _ _ mul]) (use mul d r in \<open>simp_all add: mul_gadget_def\<close>)
  moreover have "ma_block (parity_check rows) i pa pb pc"
    by (rule ma_blockI [of _ _ _ parity]) (use par e r in \<open>simp_all add: parity_check_def\<close>)
  moreover have "base_limbs rows i = limb_cells base"
    using r [of 0] r [of 1] r [of 2] r [of 3] by (simp add: base_limbs_def exp_table_cells limb_cells_def upt_4)
  moreover have "\<forall>k < 7. er_is_last (rows (i + k)) = of_bool (k = 0 \<and> fin)"
  proof (intro allI impI)
    fix k :: nat assume k: "k < 7"
    then have "exp_table_step ident fin base e (xs_d step) ! k ! 1 = (of_bool (k = 0 \<and> fin) :: 'f)"
      unfolding less_7 by (auto simp: exp_table_cells)
    then show "er_is_last (rows (i + k)) = of_bool (k = 0 \<and> fin)" by (simp add: r [OF k])
  qed
  moreover have "\<forall>k < 7. er_q_usable (rows (i + k)) = 1 \<and> er_is_step (rows (i + k)) = of_bool (k = 0)" using r by simp
  ultimately show ?thesis
    using d e r [of 0] r [of 1] by (simp add: exp_block_at_def exp_table_cells)
qed

section \<open>Assigned steps pass the gates\<close>

lemma satisfied_limbs [simp]: "length xs = length ys \<Longrightarrow> satisfied (require_equal_limbs xs ys) \<longleftrightarrow> xs = ys"
  by (induction xs ys rule: list_induct2) (simp_all add: require_equal_limbs_def)

lemma length_limbs [simp]:
  "length (base_limbs rows i) = 4" "length (a_limbs_cur mrows i) = 4" "length (b_limbs_cur mrows i) = 4" "length (limb_cells w) = 4"
  by (simp_all add: base_limbs_def a_limbs_cur_def b_limbs_cur_def ma_cols4_def limb_cells_def)

lemma satisfied_base:
  "satisfied (concat (map (\<lambda>k. require_equal (er_base_limb (rows (i + k))) (er_base_limb (rows (i + (k + 7))))) [0..<4])) \<longleftrightarrow>
     base_limbs rows i = base_limbs rows (i + 7)"
  by (simp add: base_limbs_def upt_4 add.assoc)

lemma limbs_lo_hi_cells: "limbs_lo_hi (limb_cells w) = (half_cells w :: 'f :: field \<times> 'f)"
proof -
  have "limb w 0 + limb w 1 * 2 ^ 64 = unat w mod 2 ^ 128" "limb w 2 + limb w 3 * 2 ^ 64 = unat w div 2 ^ 128"
  proof -
    have "limb w 0 + limb w 1 * 2 ^ 64 < 2 ^ 128" using limb_bound [of w 0] limb_bound [of w 1] by simp
    moreover have "unat w = (limb w 0 + limb w 1 * 2 ^ 64) + (limb w 2 + limb w 3 * 2 ^ 64) * 2 ^ 128"
      using word_limbs [of w] by simp
    ultimately show "limb w 0 + limb w 1 * 2 ^ 64 = unat w mod 2 ^ 128" "limb w 2 + limb w 3 * 2 ^ 64 = unat w div 2 ^ 128"
      using mod_mult_self1 [of _ _ "2 ^ 128 :: nat"] div_mult_self1 [of "2 ^ 128 :: nat"] by (metis mod_less, metis div_less div_mult_self1 plus_nat.add_0 power_not_zero zero_neq_numeral add_0_right)
  qed
  then have "of_nat (limb w 0 + limb w 1 * 2 ^ 64) = (of_nat (unat w mod 2 ^ 128) :: 'f)"
    "of_nat (limb w 2 + limb w 3 * 2 ^ 64) = (of_nat (unat w div 2 ^ 128) :: 'f)" by (simp_all only:)
  then show ?thesis by (simp add: limbs_lo_hi_def limb_cells_def half_cells_def upt_4)
qed

lemma half_cells_small: "half_cells 0 = (0, 0)" "half_cells 1 = (1, 0)" "half_cells 2 = (2, 0)"
  by (simp_all add: half_cells_def)

lemma half_cells_pred:
  assumes "unat e mod 2 ^ 128 \<noteq> 0"
  shows "half_cells (e - 1) = (fst (half_cells e) - 1, snd (half_cells e) :: 'f :: field)"
proof -
  have "e \<noteq> 0" using assms by auto
  then have u: "unat (e - 1) = unat e - 1" by (simp add: unat_minus_one)
  have "(n - 1) mod m = n mod m - 1 \<and> (n - 1) div m = n div m" if "n mod m \<noteq> 0" "0 < m" for n m :: nat
  proof -
    have "n - 1 = n div m * m + (n mod m - 1)" using that div_mult_mod_eq [of n m] by linarith
    moreover have "n mod m - 1 < m" using mod_less_divisor [OF that(2), of n] by linarith
    ultimately show ?thesis using that(2) mod_mult_self3 [of "n div m" m "n mod m - 1"] div_mult_self3 [of m "n div m" "n mod m - 1"]
      by (metis add.right_neutral div_less mod_less neq0_conv)
  qed
  from this [of "unat e" "2 ^ 128", OF assms] have "(unat e - 1) mod 2 ^ 128 = unat e mod 2 ^ 128 - 1" "(unat e - 1) div 2 ^ 128 = unat e div 2 ^ 128"
    by simp_all
  then show ?thesis using assms by (simp add: half_cells_def u of_nat_diff)
qed

lemma exp_rows_off_step:
  assumes "er_is_step (rows i) = 0" and "er_is_last (rows i) = 0"
  shows "satisfied (exp_gates rows i)"
  using assms
  by (simp add: exp_gates_def exp_step_selector_def verify_all_but_last_step_def verify_all_rows_def verify_all_steps_def
      mul_add_gate_def Let_def split_beta)

lemma exp_block_gates:
  fixes rows :: "nat \<Rightarrow> 'f :: field ExpRow"
  assumes blk: "exp_block_at rows i ident fin base e step (pa, pb, pc)" and pc: "pc = 0 \<or> pc = 1"
    and no: "unat pa * unat pb + unat pc < 2 ^ 256"
    and fin: "fin \<Longrightarrow> e = 2 \<and> xs_a step = base \<and> xs_b step = base"
    and nxt: "\<not> fin \<Longrightarrow> exp_block_at rows (i + 7) ident fin' base e' step' parity' \<and> xs_d step' = xs_a step \<and>
      (if pc = 1 then e' = e - 1 \<and> unat e mod 2 ^ 128 \<noteq> 0 \<and> xs_b step = base else e' = pb \<and> xs_a step = xs_b step)"
    and k: "k < 7"
  shows "satisfied (exp_gates rows (i + k))"
proof (cases "k = 0")
  case False
  then show ?thesis using blk k by (intro exp_rows_off_step) (simp_all add: exp_block_at_def)
next
  case True
  let ?m = "mul_gadget rows" and ?p = "parity_check rows"
  have sel: "er_q_usable (rows i) = 1" "er_is_step (rows i) = 1" "er_is_last (rows i) = of_bool fin"
    using blk [unfolded exp_block_at_def] by (force dest: spec [of _ 0])+
  have cells: "er_identifier (rows i) = of_nat ident" "base_limbs rows i = limb_cells base"
    "er_exponent_lo_hi (rows i) = fst (half_cells e)" "er_exponent_lo_hi (rows (i + 1)) = snd (half_cells e)"
    "er_exponentiation_lo_hi (rows i) = fst (half_cells (xs_d step))" "er_exponentiation_lo_hi (rows (i + 1)) = snd (half_cells (xs_d step))"
    using blk by (auto simp: exp_block_at_def half_cells_def)
  have m: "a_limbs_cur ?m i = limb_cells (xs_a step)" "b_limbs_cur ?m i = limb_cells (xs_b step)" "c_lo_hi_cur ?m i = (0, 0)"
    "d_lo_hi_cur ?m i = half_cells (xs_d step)" "satisfied (mul_add_gate q ?m i)" for q
    using blk by (auto simp: exp_block_at_def ma_block_def half_cells_small)
  have p: "b_limbs_cur ?p i = limb_cells pb" "c_lo_hi_cur ?p i = half_cells pc"
    "d_lo_hi_cur ?p i = half_cells e" "satisfied (mul_add_gate q ?p i)" "mul_add_overflow ?p i = 0" for q
    using blk no by (auto simp: exp_block_at_def ma_block_def)
  have odd: "half_cells pc = (of_bool (pc = 1), 0 :: 'f)" using pc by (auto simp: half_cells_small)
  have n: "er_identifier (rows (i + 7)) = of_nat ident" "base_limbs rows (i + 7) = limb_cells base"
    "er_exponent_lo_hi (rows (i + 7)) = fst (half_cells e')" "er_exponent_lo_hi (rows (i + 8)) = snd (half_cells e')"
    "d_lo_hi_next ?m i = half_cells (xs_a step)" if nf: "\<not> fin"
  proof -
    obtain qa qb qc where "exp_block_at rows (i + 7) ident fin' base e' step' (qa, qb, qc)" "xs_d step' = xs_a step"
      using nxt [OF nf] by (cases parity') auto
    note b = this(1) [unfolded exp_block_at_def prod.case] and d = this(2)
    show "er_identifier (rows (i + 7)) = of_nat ident" "base_limbs rows (i + 7) = limb_cells base" using b by simp_all
    have "(er_exponent_lo_hi (rows (i + 7)), er_exponent_lo_hi (rows (i + 7 + 1))) = half_cells e'" using b by simp
    then show "er_exponent_lo_hi (rows (i + 7)) = fst (half_cells e')" "er_exponent_lo_hi (rows (i + 8)) = snd (half_cells e')"
      by (simp_all add: prod_eq_iff add.commute)
    have "d_lo_hi_next ?m i = d_lo_hi_cur ?m (i + 7)" by (simp add: d_lo_hi_next_def d_lo_hi_cur_def add.commute)
    then show "d_lo_hi_next ?m i = half_cells (xs_a step)" using b d by (simp add: ma_block_def)
  qed
  have "satisfied (verify_all_but_last_step rows i)"
    by (cases fin) (simp_all add: verify_all_but_last_step_def sel not_expr_def satisfied_base cells m n limbs_lo_hi_cells)
  moreover have "satisfied (verify_all_rows rows i)" by (simp add: verify_all_rows_def sel)
  moreover have "satisfied (verify_all_steps rows i)"
  proof (cases fin)
    case True
    then show ?thesis
      using fin by (simp add: verify_all_steps_def Let_def sel not_expr_def cells [simplified] m p odd half_cells_small)
  next
    case False
    then show ?thesis
      using nxt [OF False] half_cells_pred [of e, where ?'f = 'f]
      by (cases "pc = 1") (simp_all add: verify_all_steps_def Let_def sel not_expr_def cells [simplified] m p odd n limbs_lo_hi_cells half_cells_small)
  qed
  ultimately show ?thesis using True m p by (simp add: exp_gates_def)
qed

section \<open>Assigned events pass the gates\<close>

text \<open>The steps of an exponentiation from the last to the first, as \<open>exp_by_squaring\<close> records them for an exponent of at least two.\<close>

fun exp_trace :: "Word \<Rightarrow> Word \<Rightarrow> ExpStep list \<Rightarrow> bool" where
  "exp_trace base e [] = False"
| "exp_trace base e [s] \<longleftrightarrow> e = 2 \<and> xs_a s = base \<and> xs_b s = base \<and> xs_d s = xs_a s * xs_b s"
| "exp_trace base e (s # t # steps) \<longleftrightarrow> xs_d s = xs_a s * xs_b s \<and> xs_d t = xs_a s \<and>
     (if e mod 2 = 1 then xs_b s = base else xs_a s = xs_b s) \<and> exp_trace base (next_exponent e) (t # steps)"

text \<open>Rows that pass the gates wherever they are placed and whatever follows.\<close>

definition rows_pass :: "'f :: field ExpRow list \<Rightarrow> bool" where
  "rows_pass blk \<longleftrightarrow> (\<forall>rows i. (\<forall>k < length blk. rows (i + k) = blk ! k) \<longrightarrow> (\<forall>k < length blk. satisfied (exp_gates rows (i + k))))"

lemma rows_pass_append:
  assumes "rows_pass xs" and "rows_pass ys"
  shows "rows_pass (xs @ ys)"
  unfolding rows_pass_def
proof (intro allI impI)
  fix rows :: "nat \<Rightarrow> 'a ExpRow" and i k
  assume rows: "\<forall>k < length (xs @ ys). rows (i + k) = (xs @ ys) ! k" and k: "k < length (xs @ ys)"
  have xs: "\<forall>k < length xs. rows (i + k) = xs ! k" using rows by (simp add: nth_append)
  have ys: "\<forall>k < length ys. rows (i + length xs + k) = ys ! k"
  proof (intro allI impI)
    fix k assume "k < length ys"
    then show "rows (i + length xs + k) = ys ! k" using rows [rule_format, of "length xs + k"] by (simp add: nth_append add.assoc)
  qed
  show "satisfied (exp_gates rows (i + k))"
  proof (cases "k < length xs")
    case False
    then have "satisfied (exp_gates rows (i + length xs + (k - length xs)))"
      using assms(2) [unfolded rows_pass_def, rule_format, of rows "i + length xs" "k - length xs"] ys k by simp
    then show ?thesis using False by simp
  qed (use assms(1) xs in \<open>simp add: rows_pass_def\<close>)
qed

lemma rows_pass_concat: "list_all rows_pass blks \<Longrightarrow> rows_pass (concat blks)"
  by (induction blks) (simp_all add: rows_pass_append, simp add: rows_pass_def)

lemma rows_pass_zero: "rows_pass (replicate n exp_zero_row)"
  by (simp add: rows_pass_def exp_rows_off_step exp_zero_row_def)

lemma rows_pass_padding: "rows_pass pad \<Longrightarrow> rows_pass (exp_padding offset limit pad)"
  by (induction offset limit pad rule: exp_padding.induct)
    (subst exp_padding.simps, simp add: rows_pass_append, simp add: rows_pass_def)

lemma length_exp_block [simp]: "length (exp_block mul parity table) = 7"
  by (simp add: exp_block_def OFFSET_INCREMENT_def)

lemma word_parity:
  fixes e :: Word
  shows "e = 2 * (e div 2) + e mod 2" and "unat (2 :: Word) * unat (e div 2) + unat (e mod 2) < 2 ^ 256"
    and "e mod 2 = 0 \<or> e mod 2 = 1" and "e mod 2 = 1 \<Longrightarrow> unat e mod 2 ^ 128 \<noteq> 0"
proof -
  have u: "unat (e div 2) = unat e div 2" "unat (e mod 2) = unat e mod 2" by (simp_all add: unat_div unat_mod)
  show "e = 2 * (e div 2) + e mod 2" by (simp only: mult_div_mod_eq)
  show "unat (2 :: Word) * unat (e div 2) + unat (e mod 2) < 2 ^ 256"
    unfolding u using unsigned_less [of e, where ?'a = nat] by simp
  show "e mod 2 = 0 \<or> e mod 2 = 1" using u(2) by (metis mod2_eq_if unat_0 unat_1 word_unat_eq_iff)
  show "unat e mod 2 ^ 128 \<noteq> 0" if "e mod 2 = 1"
  proof
    assume "unat e mod 2 ^ 128 = 0"
    then have "2 dvd unat e" by (metis dvd_mod_imp_dvd dvd_0_right dvd_power zero_less_numeral mod_0_imp_dvd dvd_trans)
    then show False using u(2) that by simp
  qed
qed

lemma exp_table_chunks_Cons:
  "exp_table_chunks ident base e (s # steps) =
     exp_table_step ident (steps = []) base e (xs_d s) # exp_table_chunks ident base (next_exponent e) steps"
  by simp

lemma assign_exp_steps_pass:
  assumes "exp_trace base e steps"
  shows "\<exists>blk :: 'f :: field ExpRow list. assign_exp_steps e steps (exp_table_chunks ident base e steps) = (Inr blk :: ('f ExpRow list, 'e) result) \<and>
     length blk = length steps * 7 \<and> rows_pass blk \<and>
     (\<forall>rows i. (\<forall>k < length blk. rows (i + k) = blk ! k) \<longrightarrow>
        exp_block_at rows i ident (tl steps = []) base e (hd steps) (2, e div 2, e mod 2))"
  using assms
proof (induction steps arbitrary: e)
  case (Cons s steps)
  let ?table = "exp_table_step ident (steps = []) base e (xs_d s) :: 'f list list"
  note par = word_parity [of e]
  have d: "xs_d s = xs_a s * xs_b s" using Cons.prems by (cases steps) auto
  obtain mul where mul: "mul_add_assign (xs_a s) (xs_b s) 0 (xs_d s) = (Inr mul :: ('f MulAddRow list, 'e) result)"
    using mul_add_assign_total [of "xs_a s" "xs_b s" 0] d by auto
  obtain parity where parity: "mul_add_assign 2 (e div 2) (e mod 2) e = (Inr parity :: ('f MulAddRow list, 'e) result)"
    using mul_add_assign_total [of 2 "e div 2" "e mod 2"] par(1) by auto
  obtain rest where rest: "assign_exp_steps (next_exponent e) steps (exp_table_chunks ident base (next_exponent e) steps) = (Inr rest :: ('f ExpRow list, 'e) result)"
    "length rest = length steps * 7" "rows_pass rest"
    "steps \<noteq> [] \<Longrightarrow> (\<forall>k < length rest. rows (j + k) = rest ! k) \<Longrightarrow>
       exp_block_at rows j ident (tl steps = []) base (next_exponent e) (hd steps) (2, next_exponent e div 2, next_exponent e mod 2)" for rows j
  proof (cases steps)
    case Nil
    then show ?thesis using that [of "[]"] by (simp add: rows_pass_def)
  next
    case (Cons t ts)
    then have "exp_trace base (next_exponent e) steps" using Cons.prems by simp
    then show ?thesis using Cons.IH [of "next_exponent e"] that by blast
  qed
  let ?blk = "exp_block mul parity ?table @ rest"
  have here: "exp_block_at rows i ident (steps = []) base e s (2, e div 2, e mod 2)"
    if "\<forall>k < length ?blk. rows (i + k) = ?blk ! k" for rows i
  proof (rule exp_block_atI [OF mul parity d par(1)], intro allI impI)
    fix k :: nat assume "k < 7"
    then show "rows (i + k) = exp_block mul parity ?table ! k" using that by (simp add: nth_append)
  qed
  have "rows_pass ?blk"
    unfolding rows_pass_def
  proof (intro allI impI)
    fix rows i k
    assume rows: "\<forall>k < length ?blk. rows (i + k) = ?blk ! k" and k: "k < length ?blk"
    have after: "\<forall>k < length rest. rows (i + 7 + k) = rest ! k"
      using rows [rule_format, of "7 + _"] by (simp add: nth_append add.assoc)
    show "satisfied (exp_gates rows (i + k))"
    proof (cases "k < 7")
      case True
      show ?thesis
      proof (rule exp_block_gates [OF here [OF rows] par(3,2) _ _ True])
        show "e = 2 \<and> xs_a s = base \<and> xs_b s = base" if "steps = []" using Cons.prems that by simp
        assume "steps \<noteq> []"
        then show "exp_block_at rows (i + 7) ident (tl steps = []) base (next_exponent e) (hd steps) (2, next_exponent e div 2, next_exponent e mod 2) \<and>
            xs_d (hd steps) = xs_a s \<and> (if e mod 2 = 1 then next_exponent e = e - 1 \<and> unat e mod 2 ^ 128 \<noteq> 0 \<and> xs_b s = base
              else next_exponent e = e div 2 \<and> xs_a s = xs_b s)"
          using rest(4) [OF _ after] Cons.prems par(3,4) by (cases steps) (auto simp: next_exponent_def)
      qed
    next
      case False
      then have "satisfied (exp_gates rows (i + 7 + (k - 7)))" using rest(3) [unfolded rows_pass_def] after k
        by (metis add_diff_inverse_nat length_append length_exp_block nat_add_left_cancel_less)
      then show ?thesis using False by simp
    qed
  qed
  moreover have "assign_exp_steps e (s # steps) (exp_table_chunks ident base e (s # steps)) = (Inr ?blk :: ('f ExpRow list, 'e) result)"
    by (simp add: mul parity rest(1))
  ultimately show ?case using here rest(2) by (intro exI [of _ ?blk]) simp
qed simp

lemma exp_trace_Cons:
  assumes "exp_trace base (next_exponent e) steps" and "xs_d s = xs_a s * xs_b s" and "xs_d (hd steps) = xs_a s"
    and "if e mod 2 = 1 then xs_b s = base else xs_a s = xs_b s"
  shows "exp_trace base e (s # steps)"
  using assms by (cases steps) auto

lemma exp_by_squaring_trace:
  "\<exists>made. exp_by_squaring base e steps = (base ^ unat e, steps @ made) \<and>
     (if unat e < 2 then made = [] else exp_trace base e (rev made) \<and> xs_d (hd (rev made)) = base ^ unat e)"
proof (induction base e steps rule: exp_by_squaring.induct)
  case (1 base e steps)
  show ?case
  proof (cases "unat e < 2")
    case True
    then have "e = 0 \<or> e = 1" by (metis less_2_cases_iff unat_0 unat_1 word_unat_eq_iff One_nat_def)
    then show ?thesis by (elim disjE) (simp_all add: exp_by_squaring.simps [of base])
  next
    case False
    let ?x = "base ^ unat (e div 2)" and ?sq = "\<lambda>x :: Word. \<lparr>xs_a = x, xs_b = x, xs_d = x * x\<rparr>"
    have ne: "e \<noteq> 0" "e \<noteq> 1" using False by auto
    have half: "unat (e div 2) = unat e div 2" "unat (e mod 2) = unat e mod 2" by (simp_all add: unat_div unat_mod)
    have even: "e mod 2 = 0 \<longleftrightarrow> even (unat e)" using half(2) by (metis even_iff_mod_2_eq_zero unat_eq_zero)
    obtain made where made: "exp_by_squaring base (e div 2) steps = (?x, steps @ made)"
      "if unat (e div 2) < 2 then made = [] else exp_trace base (e div 2) (rev made) \<and> xs_d (hd (rev made)) = ?x"
      using 1 ne by blast
    have sq: "exp_trace base e' (?sq ?x # rev made)" if e': "e' div 2 = e div 2" "even (unat e')" for e' :: Word
    proof (cases "unat (e div 2) < 2")
      case True
      have "unat (e' div 2) = unat e' div 2" by (simp add: unat_div)
      then have "unat e' div 2 = unat (e div 2)" using e'(1) by simp
      then have "unat e' div 2 = 1" using True False half(1) by linarith
      then have "unat e' = 2" using e'(2) by (metis dvd_div_mult_self mult_1)
      then have "e' = 2" by (simp add: word_unat_eq_iff)
      moreover have "?x = base" using \<open>unat e' div 2 = 1\<close> \<open>unat e' div 2 = unat (e div 2)\<close> by (metis power_one_right)
      ultimately show ?thesis using True made(2) by simp
    next
      case big: False
      have "unat (e' mod 2) = unat e' mod 2" by (simp add: unat_mod)
      then have "e' mod 2 = 0" using e'(2) by (metis even_iff_mod_2_eq_zero unat_eq_zero)
      then show ?thesis using made(2) big e'(1) by (intro exp_trace_Cons) (auto simp: next_exponent_def)
    qed
    let ?odd = "\<lparr>xs_a = ?x * ?x, xs_b = base, xs_d = base * (?x * ?x)\<rparr>"
    let ?made = "made @ (if even (unat e) then [?sq ?x] else [?sq ?x, ?odd])"
    have "exp_by_squaring base e steps = (base ^ unat e, steps @ ?made)"
      using ne made(1) power_halves [of base "unat e"] by (auto simp: exp_by_squaring.simps [of base e] even half Let_def)
    moreover have "exp_trace base e (rev ?made) \<and> xs_d (hd (rev ?made)) = base ^ unat e"
    proof (cases "even (unat e)")
      case True
      then show ?thesis using sq [of e] power_halves [of base "unat e"] by (simp add: half)
    next
      case odd: False
      then have m: "e mod 2 = 1" using word_parity(3) [of e] even by simp
      have u: "unat (e - 1) = unat e - 1" using ne by (simp add: unat_minus_one)
      have "(e - 1) div 2 = e div 2" "even (unat (e - 1))"
        using odd by (auto simp: word_unat_eq_iff unat_div u half elim!: oddE)
      then show ?thesis
        using sq [of "e - 1"] m odd power_halves [of base "unat e"] by (auto simp: next_exponent_def half intro: exp_trace_Cons)
    qed
    ultimately show ?thesis using False by auto
  qed
qed

lemma assign_exp_event_pass:
  assumes "unat (xe_exponent ev) < 2 \<and> xe_steps ev = [] \<or> exp_trace (xe_base ev) (xe_exponent ev) (rev (xe_steps ev))"
  shows "\<exists>blk. assign_exp_event ev = (Inr blk :: ('f :: field ExpRow list, 'e) result) \<and> length blk = length (xe_steps ev) * 7 \<and> rows_pass blk"
proof (cases "xe_steps ev")
  case Nil
  then show ?thesis by (simp add: assign_exp_event_def rows_pass_def)
next
  case Cons
  then show ?thesis using assms assign_exp_steps_pass [of "xe_base ev" "xe_exponent ev" "rev (xe_steps ev)" "xe_identifier ev"]
    by (auto simp: assign_exp_event_def)
qed

lemma mapE_blocks:
  assumes "list_all (\<lambda>x. \<exists>y. f x = Inr y \<and> P x y) xs"
  shows "\<exists>ys. mapE f xs = Inr ys \<and> list_all2 P xs ys"
  using assms by (induction xs) fastforce+

lemma length_exp_padding:
  assumes "length pad = 7" and "offset \<le> limit"
  shows "length (exp_padding offset limit pad) + offset \<le> limit \<and> limit < length (exp_padding offset limit pad) + offset + 7"
  using assms
proof (induction offset limit pad rule: exp_padding.induct)
  case (1 offset limit pad)
  then show ?case by (subst (1 2) exp_padding.simps) (auto simp: OFFSET_INCREMENT_def)
qed

text \<open>An event as the handler of EXP makes it.\<close>

definition exp_event_ok :: "ExpEvent \<Rightarrow> bool" where
  "exp_event_ok ev \<longleftrightarrow> (xe_exponentiation ev, xe_steps ev) = exp_by_squaring (xe_base ev) (xe_exponent ev) []"

lemma exp_event_ok_trace:
  assumes "exp_event_ok ev"
  shows "xe_exponentiation ev = xe_base ev ^ unat (xe_exponent ev)"
    and "unat (xe_exponent ev) < 2 \<and> xe_steps ev = [] \<or> exp_trace (xe_base ev) (xe_exponent ev) (rev (xe_steps ev))"
  using assms exp_by_squaring_trace [of "xe_base ev" "xe_exponent ev" "[]"] by (auto simp: exp_event_ok_def split: if_splits)

lemma assign_exp_events_pass:
  assumes ok: "list_all exp_event_ok events" and fits: "min_num_rows events \<le> max_exp_rows"
  shows "\<exists>rows. assign_exp_events events max_exp_rows = (Inr rows :: ('f :: field ExpRow list, 'e) result) \<and>
     length rows \<le> max_exp_rows \<and> max_exp_rows < length rows + 7 \<and> rows_pass rows"
proof -
  let ?limit = "max_exp_rows - UNUSABLE_EXP_ROWS"
  have each: "list_all (\<lambda>ev. \<exists>blk. assign_exp_event ev = (Inr blk :: ('f ExpRow list, 'e) result) \<and> length blk = length (xe_steps ev) * 7 \<and> rows_pass blk) events"
    using ok by (auto simp only: list_all_iff intro!: assign_exp_event_pass exp_event_ok_trace(2))
  obtain blks where blks: "mapE assign_exp_event events = (Inr blks :: ('f ExpRow list list, 'e) result)"
    "list_all2 (\<lambda>ev blk. length blk = length (xe_steps ev) * 7 \<and> rows_pass blk) events blks"
    using mapE_blocks [of "assign_exp_event :: _ \<Rightarrow> ('f ExpRow list, 'e) result"
        "\<lambda>ev blk. length blk = length (xe_steps ev) * 7 \<and> rows_pass blk" events] each by blast
  have "length (concat blks) = sum_list (map (\<lambda>e. length (xe_steps e) * OFFSET_INCREMENT) events)"
    using blks(2) by (induction rule: list_all2_induct) (simp_all add: OFFSET_INCREMENT_def)
  then have len: "length (concat blks) + UNUSABLE_EXP_ROWS \<le> max_exp_rows" using fits by (simp add: min_num_rows_def)
  have pass: "rows_pass (concat blks)"
    using blks(2) by (intro rows_pass_concat) (auto simp: list_all2_conv_all_nth list_all_length)
  obtain pad where pad: "assign_exp_event exp_event_default = (Inr pad :: ('f ExpRow list, 'e) result)" "length pad = 7" "rows_pass pad"
    using assign_exp_event_pass [of exp_event_default, where ?'e = 'e] by (auto simp: exp_event_default_def)
  let ?rows = "concat blks @ exp_padding (length (concat blks)) ?limit pad @ replicate UNUSABLE_EXP_ROWS exp_zero_row"
  have "assign_exp_events events max_exp_rows = (Inr ?rows :: ('f ExpRow list, 'e) result)"
    using fits by (simp add: assign_exp_events_def blks(1) pad(1) Let_def)
  moreover have "rows_pass ?rows" by (intro rows_pass_append pass rows_pass_padding rows_pass_zero pad(3))
  moreover have "length ?rows \<le> max_exp_rows \<and> max_exp_rows < length ?rows + 7"
  proof -
    have "length (concat blks) \<le> ?limit" using len by simp
    from length_exp_padding [OF pad(2) this] show ?thesis using len unfolding length_append length_replicate by linarith
  qed
  ultimately show ?thesis by blast
qed

section \<open>Satisfied gates\<close>

definition exp_cells_ranged :: "('f :: field \<Rightarrow> nat) \<Rightarrow> (nat \<Rightarrow> 'f ExpRow) \<Rightarrow> nat \<Rightarrow> bool" where
  "exp_cells_ranged repr rows i \<longleftrightarrow> mul_add_ranged repr (mul_gadget rows) i \<and> mul_add_ranged repr (parity_check rows) i \<and>
     list_all (fits repr 64) (base_limbs rows i) \<and>
     list_all (fits repr 128) [er_exponent_lo_hi (rows i), er_exponent_lo_hi (rows (i + 1))]"

definition exp_exponent :: "(nat \<Rightarrow> 'f ExpRow) \<Rightarrow> nat \<Rightarrow> 'f \<times> 'f" where
  "exp_exponent rows i = (er_exponent_lo_hi (rows i), er_exponent_lo_hi (rows (i + 1)))"

definition exp_exponentiation :: "(nat \<Rightarrow> 'f ExpRow) \<Rightarrow> nat \<Rightarrow> 'f \<times> 'f" where
  "exp_exponentiation rows i = (er_exponentiation_lo_hi (rows i), er_exponentiation_lo_hi (rows (i + 1)))"

lemma canonical_012:
  assumes "canonical repr"
  shows "repr 0 = 0" and "repr 1 = 1" and "repr 2 = 2"
  using assms [unfolded canonical_def, rule_format, of 2] assms [unfolded canonical_def, rule_format, of 0]
    assms [unfolded canonical_def, rule_format, of 1] by simp_all

lemma limbs_lo_hi_nat:
  assumes can: "canonical (repr :: 'f :: field \<Rightarrow> nat)" and range: "list_all (fits repr 64) limbs" "length limbs = 4"
  shows "lo_hi_nat repr (limbs_lo_hi limbs) = limbs_nat repr limbs"
proof -
  have r: "limbs ! j = of_nat (repr (limbs ! j))" "repr (limbs ! j) < 2 ^ 64" if "j < 4" for j
    using range that by (auto simp: list_all_length fits_def)
  have pair: "repr (limbs ! j + limbs ! k * 2 ^ 64) = repr (limbs ! j) + repr (limbs ! k) * 2 ^ 64" if "j < 4" "k < 4" for j k
  proof -
    let ?n = "repr (limbs ! j) + repr (limbs ! k) * 2 ^ 64"
    have "limbs ! j + limbs ! k * 2 ^ 64 = (of_nat ?n :: 'f)" using r that by simp
    moreover have "?n < 2 ^ 253" using r(2) [OF that(1)] r(2) [OF that(2)] by simp
    ultimately show ?thesis using can by (simp only: canonical_def)
  qed
  have "lo_hi_nat repr (limbs_lo_hi limbs) =
      repr (limbs ! 0) + repr (limbs ! 1) * 2 ^ 64 + (repr (limbs ! 2) + repr (limbs ! 3) * 2 ^ 64) * 2 ^ 128"
    unfolding lo_hi_nat_def limbs_lo_hi_def fst_conv snd_conv using pair [of 0 1] pair [of 2 3] by (simp only:)
  then show ?thesis by (simp add: limbs_nat_def)
qed

text \<open>What the gates of a step say: the multiplication, and the way to the next step.\<close>

lemma exp_step_facts:
  fixes rows :: "nat \<Rightarrow> 'f :: field ExpRow"
  assumes can: "canonical (repr :: 'f \<Rightarrow> nat)" and range: "exp_cells_ranged repr rows i"
    and on: "er_q_usable (rows i) \<noteq> 0" "er_is_step (rows i) \<noteq> 0" and gates: "satisfied (exp_gates rows i)"
  defines "A \<equiv> limbs_nat repr (a_limbs_cur (mul_gadget rows) i)" and "B \<equiv> limbs_nat repr (b_limbs_cur (mul_gadget rows) i)"
    and "two \<equiv> limbs_nat repr (a_limbs_cur (parity_check rows) i)" and "half \<equiv> limbs_nat repr (b_limbs_cur (parity_check rows) i)"
  shows "lo_hi_nat repr (exp_exponentiation rows i) = (A * B) mod 2 ^ 256"
    and "er_is_last (rows i) = 1 \<Longrightarrow> A = limbs_nat repr (base_limbs rows i) \<and> B = limbs_nat repr (base_limbs rows i) \<and>
      lo_hi_nat repr (exp_exponent rows i) = 2"
    and "er_is_last (rows i) = 0 \<Longrightarrow> base_limbs rows (i + 7) = base_limbs rows i \<and>
      limbs_lo_hi (a_limbs_cur (mul_gadget rows) i) = d_lo_hi_next (mul_gadget rows) i \<and>
      er_identifier (rows (i + 7)) = er_identifier (rows i)"
    and "er_is_last (rows i) = 0 \<Longrightarrow>
      fst (exp_exponent rows (i + 7)) = fst (exp_exponent rows i) - 1 \<and> snd (exp_exponent rows (i + 7)) = snd (exp_exponent rows i) \<and>
        B = limbs_nat repr (base_limbs rows i) \<or>
      lo_hi_nat repr (exp_exponent rows i) = two * half \<and>
        exp_exponent rows (i + 7) = limbs_lo_hi (b_limbs_cur (parity_check rows) i) \<and> A = B"
proof -
  have mul: "satisfied (mul_add_gate (exp_step_selector rows i) (mul_gadget rows) i)"
    "satisfied (mul_add_gate (exp_step_selector rows i) (parity_check rows) i)"
    "satisfied (verify_all_but_last_step rows i)" "satisfied (verify_all_steps rows i)"
    using gates by (simp_all add: exp_gates_def)
  have sel: "exp_step_selector rows i \<noteq> 0" using on by (simp add: exp_step_selector_def)
  let ?m = "mul_gadget rows" and ?p = "parity_check rows"
  note sm = mul_add_sound [OF can _ sel mul(1)] and sp = mul_add_sound [OF can _ sel mul(2)]
  note two = canonical_012 [OF can]
  note steps = mul(4) [unfolded verify_all_steps_def Let_def, simplified, simplified sel, simplified]
  have c: "c_lo_hi_cur ?m i = (0, 0)" and d: "exp_exponentiation rows i = d_lo_hi_cur ?m i"
    using steps by (simp_all add: prod_eq_iff exp_exponentiation_def)
  show "lo_hi_nat repr (exp_exponentiation rows i) = (A * B) mod 2 ^ 256"
    using sm(1) range by (simp add: A_def B_def d c lo_hi_nat_def two exp_cells_ranged_def)
  show "A = limbs_nat repr (base_limbs rows i) \<and> B = limbs_nat repr (base_limbs rows i) \<and> lo_hi_nat repr (exp_exponent rows i) = 2"
    if "er_is_last (rows i) = 1"
    using steps that by (auto simp: A_def B_def lo_hi_nat_def two exp_exponent_def)
  show "base_limbs rows (i + 7) = base_limbs rows i \<and>
      limbs_lo_hi (a_limbs_cur (mul_gadget rows) i) = d_lo_hi_next (mul_gadget rows) i \<and> er_identifier (rows (i + 7)) = er_identifier (rows i)"
    if "er_is_last (rows i) = 0"
    using mul(3) on that by (simp add: verify_all_but_last_step_def satisfied_base not_expr_def prod_eq_iff)
  show "fst (exp_exponent rows (i + 7)) = fst (exp_exponent rows i) - 1 \<and> snd (exp_exponent rows (i + 7)) = snd (exp_exponent rows i) \<and>
        B = limbs_nat repr (base_limbs rows i) \<or>
      lo_hi_nat repr (exp_exponent rows i) = two * half \<and>
        exp_exponent rows (i + 7) = limbs_lo_hi (b_limbs_cur (parity_check rows) i) \<and> A = B"
    if "er_is_last (rows i) = 0"
  proof (cases "fst (c_lo_hi_cur ?p i) = 1")
    case True
    then show ?thesis using steps that by (simp add: exp_exponent_def B_def not_expr_def add.commute)
  next
    case False
    then have cp: "c_lo_hi_cur ?p i = (0, 0)" and ov: "mul_add_overflow ?p i = 0" using steps by (auto simp: prod_eq_iff)
    have "two * half < 2 ^ 256 \<and> (two * half) mod 2 ^ 256 = lo_hi_nat repr (d_lo_hi_cur ?p i)"
      using sp ov range by (simp add: cp lo_hi_nat_def two two_def half_def exp_cells_ranged_def)
    then have "lo_hi_nat repr (d_lo_hi_cur ?p i) = two * half" by (metis mod_less)
    moreover have "exp_exponent rows i = d_lo_hi_cur ?p i" "exp_exponent rows (i + 7) = limbs_lo_hi (b_limbs_cur ?p i)" "A = B"
      using steps that cp by (simp_all add: exp_exponent_def prod_eq_iff not_expr_def add.commute A_def B_def)
    ultimately show ?thesis by simp
  qed
qed

lemma exponent_pred:
  assumes can: "canonical (repr :: 'f :: field \<Rightarrow> nat)" and v: "fits repr 128 v" and w: "fits repr 128 w" and eq: "w = v - 1"
  shows "repr v = repr w + 1"
proof -
  have "v = of_nat (repr w + 1)" using w eq by (simp add: fits_def)
  moreover have "repr w + 1 < 2 ^ 253" using w by (simp add: fits_def)
  ultimately show ?thesis using can by (simp only: canonical_def)
qed

lemma exp_steps_sound:
  fixes rows :: "nat \<Rightarrow> 'f :: field ExpRow"
  assumes can: "canonical (repr :: 'f \<Rightarrow> nat)"
    and steps: "\<forall>j \<le> n. exp_cells_ranged repr rows (i + 7 * j) \<and> er_q_usable (rows (i + 7 * j)) \<noteq> 0 \<and>
      er_is_step (rows (i + 7 * j)) \<noteq> 0 \<and> satisfied (exp_gates rows (i + 7 * j)) \<and>
      a_limbs_cur (parity_check rows) (i + 7 * j) = [2, 0, 0, 0]"
    and fin: "\<forall>j < n. er_is_last (rows (i + 7 * j)) = 0" "er_is_last (rows (i + 7 * n)) = 1"
  shows "lo_hi_nat repr (exp_exponentiation rows i) = limbs_nat repr (base_limbs rows i) ^ lo_hi_nat repr (exp_exponent rows i) mod 2 ^ 256"
  using steps fin
proof (induction n arbitrary: i)
  case 0
  have "exp_cells_ranged repr rows i" "er_q_usable (rows i) \<noteq> 0" "er_is_step (rows i) \<noteq> 0" "satisfied (exp_gates rows i)"
    "er_is_last (rows i) = 1" using 0 by simp_all
  from exp_step_facts(1,2) [OF can this(1-4)] this(5) show ?case by (simp add: power2_eq_square)
next
  case (Suc n)
  have here: "exp_cells_ranged repr rows i" "er_q_usable (rows i) \<noteq> 0" "er_is_step (rows i) \<noteq> 0" "satisfied (exp_gates rows i)"
    "a_limbs_cur (parity_check rows) i = [2, 0, 0, 0]"
    using Suc.prems(1) [rule_format, of 0] by simp_all
  have last: "er_is_last (rows i) = 0" using Suc.prems(2) [rule_format, of 0] by simp
  have ranged': "exp_cells_ranged repr rows (i + 7)" using Suc.prems(1) [rule_format, of 1] by simp
  note facts = exp_step_facts [OF can here(1-4)]
  let ?base = "limbs_nat repr (base_limbs rows i)" and ?M = "2 ^ 256 :: nat"
  let ?A = "limbs_nat repr (a_limbs_cur (mul_gadget rows) i)" and ?B = "limbs_nat repr (b_limbs_cur (mul_gadget rows) i)"
  have "lo_hi_nat repr (exp_exponentiation rows (i + 7)) =
      limbs_nat repr (base_limbs rows (i + 7)) ^ lo_hi_nat repr (exp_exponent rows (i + 7)) mod ?M"
  proof (rule Suc.IH)
    have s: "i + 7 + 7 * j = i + 7 * Suc j" for j by simp
    show "\<forall>j \<le> n. exp_cells_ranged repr rows (i + 7 + 7 * j) \<and> er_q_usable (rows (i + 7 + 7 * j)) \<noteq> 0 \<and>
      er_is_step (rows (i + 7 + 7 * j)) \<noteq> 0 \<and> satisfied (exp_gates rows (i + 7 + 7 * j)) \<and>
      a_limbs_cur (parity_check rows) (i + 7 + 7 * j) = [2, 0, 0, 0]"
      unfolding s using Suc.prems(1) by blast
    show "\<forall>j < n. er_is_last (rows (i + 7 + 7 * j)) = 0" "er_is_last (rows (i + 7 + 7 * n)) = 1"
      unfolding s using Suc.prems(2,3) by blast+
  qed
  moreover have "exp_exponentiation rows (i + 7) = limbs_lo_hi (a_limbs_cur (mul_gadget rows) i)"
  proof -
    have "exp_exponentiation rows (i + 7) = d_lo_hi_cur (mul_gadget rows) (i + 7)"
    proof -
      have "satisfied (exp_gates rows (i + 7))" "er_q_usable (rows (i + 7)) \<noteq> 0" "er_is_step (rows (i + 7)) \<noteq> 0"
        using Suc.prems(1) [rule_format, of 1] by simp_all
      then show ?thesis by (simp add: exp_gates_def verify_all_steps_def Let_def exp_step_selector_def exp_exponentiation_def prod_eq_iff)
    qed
    also have "\<dots> = d_lo_hi_next (mul_gadget rows) i" by (simp add: d_lo_hi_next_def d_lo_hi_cur_def add.commute)
    finally show ?thesis using facts(3) [OF last] by simp
  qed
  moreover have "lo_hi_nat repr (limbs_lo_hi (a_limbs_cur (mul_gadget rows) i)) = ?A"
    using here(1) by (intro limbs_lo_hi_nat [OF can]) (simp_all add: exp_cells_ranged_def mul_add_ranged_def)
  ultimately have A: "?A = ?base ^ lo_hi_nat repr (exp_exponent rows (i + 7)) mod ?M" using facts(3) [OF last] by simp
  from facts(4) [OF last] show ?case
  proof (elim disjE conjE)
    assume eq: "fst (exp_exponent rows (i + 7)) = fst (exp_exponent rows i) - 1" "snd (exp_exponent rows (i + 7)) = snd (exp_exponent rows i)"
      and B: "?B = ?base"
    have "repr (fst (exp_exponent rows i)) = repr (fst (exp_exponent rows (i + 7))) + 1"
      using here(1) ranged' by (intro exponent_pred [OF can _ _ eq(1)]) (simp_all add: exp_cells_ranged_def exp_exponent_def)
    then have e: "lo_hi_nat repr (exp_exponent rows i) = Suc (lo_hi_nat repr (exp_exponent rows (i + 7)))"
      using eq(2) by (simp add: lo_hi_nat_def)
    show ?thesis unfolding facts(1) A B e by (simp only: power_Suc mult.commute mod_mult_right_eq)
  next
    assume e: "lo_hi_nat repr (exp_exponent rows i) = limbs_nat repr (a_limbs_cur (parity_check rows) i) * limbs_nat repr (b_limbs_cur (parity_check rows) i)"
      and e': "exp_exponent rows (i + 7) = limbs_lo_hi (b_limbs_cur (parity_check rows) i)" and B: "?A = ?B"
    have "lo_hi_nat repr (exp_exponent rows (i + 7)) = limbs_nat repr (b_limbs_cur (parity_check rows) i)"
      unfolding e' using here(1) by (intro limbs_lo_hi_nat [OF can]) (simp_all add: exp_cells_ranged_def mul_add_ranged_def)
    then have e2: "lo_hi_nat repr (exp_exponent rows i) = lo_hi_nat repr (exp_exponent rows (i + 7)) + lo_hi_nat repr (exp_exponent rows (i + 7))"
      using e here(5) canonical_012 [OF can] by (simp add: limbs_nat_def)
    show ?thesis unfolding facts(1) B [symmetric] e2 power_add A by (rule mod_mult_eq)
  qed
qed

lemma exp_block_at_cells:
  fixes rows :: "nat \<Rightarrow> 'f :: field ExpRow"
  assumes blk: "exp_block_at rows i ident fin base e step (pa, pb, pc)"
  shows "er_q_usable (rows i) = 1" and "er_is_step (rows i) = 1" and "er_is_last (rows i) = of_bool fin"
    and "base_limbs rows i = limb_cells base" and "exp_exponent rows i = half_cells e" and "exp_exponentiation rows i = half_cells (xs_d step)"
    and "a_limbs_cur (parity_check rows) i = limb_cells pa" and "canonical repr \<Longrightarrow> exp_cells_ranged repr rows i"
proof -
  note b = blk [unfolded exp_block_at_def prod.case]
  show "er_q_usable (rows i) = 1" "er_is_step (rows i) = 1" "er_is_last (rows i) = of_bool fin" using b by (force dest: spec [of _ 0])+
  show e: "exp_exponent rows i = half_cells e" and "exp_exponentiation rows i = half_cells (xs_d step)"
    and base: "base_limbs rows i = limb_cells base" and "a_limbs_cur (parity_check rows) i = limb_cells pa"
    using b by (simp_all add: exp_exponent_def exp_exponentiation_def ma_block_def)
  assume can: "canonical repr"
  have "fits repr 64 (of_nat (limb w j) :: 'f)" for w j using fits_of_nat [OF can limb_bound, of w j] by simp
  then have "list_all (fits repr 64) (base_limbs rows i)" by (simp add: base limb_cells_def list_all_iff)
  moreover have "list_all (fits repr 128) [er_exponent_lo_hi (rows i), er_exponent_lo_hi (rows (i + 1))]"
    using e fits_of_nat [OF can, of _ 128] half_unat(3) [of e] by (simp add: exp_exponent_def half_cells_def)
  ultimately show "exp_cells_ranged repr rows i" using b can by (simp add: exp_cells_ranged_def ma_block_def)
qed

text \<open>Two steps, with any parity equation that gives the exponent in the first.\<close>

lemma exp_two_blocks:
  assumes s: "xs_d s = xs_a s * xs_b s" "xs_d t = xs_a t * xs_b t" and e: "e = pa * pb + pc" "e' = qa * qb + qc"
  obtains rows :: "nat \<Rightarrow> 'f :: field ExpRow" where "exp_block_at rows 0 ident False base e s (pa, pb, pc)"
    and "exp_block_at rows 7 ident True base e' t (qa, qb, qc)" and "\<And>k. 14 \<le> k \<Longrightarrow> rows k = exp_zero_row"
proof -
  obtain m1 m2 p1 p2 where m: "mul_add_assign (xs_a s) (xs_b s) 0 (xs_d s) = (Inr m1 :: ('f MulAddRow list, unit) result)"
    "mul_add_assign (xs_a t) (xs_b t) 0 (xs_d t) = (Inr m2 :: ('f MulAddRow list, unit) result)"
    "mul_add_assign pa pb pc e = (Inr p1 :: ('f MulAddRow list, unit) result)"
    "mul_add_assign qa qb qc e' = (Inr p2 :: ('f MulAddRow list, unit) result)"
    using mul_add_assign_total [of "xs_a s" "xs_b s" 0] mul_add_assign_total [of "xs_a t" "xs_b t" 0]
      mul_add_assign_total [of pa pb pc] mul_add_assign_total [of qa qb qc] s e by (metis add.right_neutral)
  let ?b1 = "exp_block m1 p1 (exp_table_step ident False base e (xs_d s))"
    and ?b2 = "exp_block m2 p2 (exp_table_step ident True base e' (xs_d t))"
  let ?rows = "exp_region (?b1 @ ?b2)"
  show ?thesis
  proof (rule that)
    show "exp_block_at ?rows 0 ident False base e s (pa, pb, pc)"
      by (rule exp_block_atI [OF m(1,3) s(1) e(1)]) (simp add: exp_region_def nth_append)
    show "exp_block_at ?rows 7 ident True base e' t (qa, qb, qc)"
      by (rule exp_block_atI [OF m(2,4) s(2) e(2)]) (simp add: exp_region_def nth_append)
  qed (simp add: exp_region_def)
qed

lemma exp_two_blocks_gates:
  assumes blk: "exp_block_at rows 0 ident False base e s (pa, pb, 0)" "exp_block_at rows 7 ident True base 2 t (2, 1, 0)"
    and zero: "\<And>k. 14 \<le> k \<Longrightarrow> rows k = exp_zero_row" and no: "unat pa * unat pb < 2 ^ 256"
    and t: "pb = 2" "xs_d t = xs_a s" "xs_a s = xs_b s" "xs_a t = base" "xs_b t = base"
  shows "satisfied (exp_gates rows i)"
proof -
  consider "i < 7" | "7 \<le> i" "i < 14" | "14 \<le> i" by linarith
  then show ?thesis
  proof cases
    case 1
    show ?thesis
      using exp_block_gates [OF blk(1), of _ _ _ _ i, OF _ _ _ _ 1] blk(2) no t by simp
  next
    case 2
    then have "satisfied (exp_gates rows (7 + (i - 7)))"
      by (intro exp_block_gates [OF blk(2)]) (use t in auto)
    then show ?thesis using 2 by simp
  next
    case 3
    then show ?thesis by (intro exp_rows_off_step) (simp_all add: zero exp_zero_row_def)
  qed
qed

section \<open>Properties of the circuit\<close>

text \<open>
  C12: completeness of the exponentiation circuit. For events whose result and steps come from \<open>exp_by_squaring\<close>, as the
  handler of \<open>EXP\<close> makes them, and enough rows, the assignment never fails, stays within the rows of the circuit, fills it up to
  less than one step, and every row passes every gate, the rows past the end too. The results are the powers.
\<close>

theorem exp_circuit_complete:
  assumes "list_all exp_event_ok events" and "min_num_rows events \<le> max_exp_rows"
  shows "\<exists>rows. assign_exp_events events max_exp_rows = (Inr rows :: ('f :: field ExpRow list, 'e) result) \<and>
     length rows \<le> max_exp_rows \<and> max_exp_rows < length rows + OFFSET_INCREMENT \<and>
     (\<forall>i. satisfied (exp_gates (exp_region rows) i)) \<and>
     list_all (\<lambda>ev. xe_exponentiation ev = xe_base ev ^ unat (xe_exponent ev)) events"
proof -
  obtain rows where rows: "assign_exp_events events max_exp_rows = (Inr rows :: ('f ExpRow list, 'e) result)"
    "length rows \<le> max_exp_rows" "max_exp_rows < length rows + 7" "rows_pass rows"
    using assign_exp_events_pass [OF assms] by blast
  have "satisfied (exp_gates (exp_region rows) i)" for i
  proof (cases "i < length rows")
    case True
    then show ?thesis using rows(4) [unfolded rows_pass_def, rule_format, of "exp_region rows" 0 i] by (simp add: exp_region_def)
  next
    case False
    then show ?thesis by (intro exp_rows_off_step) (simp_all add: exp_region_def exp_zero_row_def)
  qed
  moreover have "list_all (\<lambda>ev. xe_exponentiation ev = xe_base ev ^ unat (xe_exponent ev)) events"
    using assms(1) exp_event_ok_trace(1) by (simp add: list_all_iff)
  ultimately show ?thesis using rows by (auto simp: OFFSET_INCREMENT_def)
qed

theorem exp_circuit_complete_witness:
  "\<exists>rows. assign_exp_events [\<lparr>xe_identifier = 1, xe_base = 3, xe_exponent = 2, xe_exponentiation = 9,
       xe_steps = [\<lparr>xs_a = 3, xs_b = 3, xs_d = 9\<rparr>]\<rparr>] 31 = (Inr rows :: (rat ExpRow list, unit) result) \<and>
     (\<forall>i. satisfied (exp_gates (exp_region rows) i))"
proof -
  let ?ev = "\<lparr>xe_identifier = 1, xe_base = 3, xe_exponent = 2, xe_exponentiation = 9, xe_steps = [\<lparr>xs_a = 3, xs_b = 3, xs_d = 9\<rparr>]\<rparr>"
  have "list_all exp_event_ok [?ev]" by (simp add: exp_event_ok_def exp_by_squaring.simps)
  moreover have "min_num_rows [?ev] \<le> 31" by (simp add: min_num_rows_def OFFSET_INCREMENT_def UNUSABLE_EXP_ROWS_def)
  ultimately show ?thesis using exp_circuit_complete by blast
qed

text \<open>
  C11: soundness of the exponentiation circuit, under the two conditions it does not enforce: the cells are in range, and the
  parity chip multiplies by two. For steps from row \<open>i\<close> on that pass the gates, up to the first that is marked last, the
  exponentiation of the first is its base to the power of its exponent modulo 2 to the 256.
\<close>

theorem exp_circuit_sound:
  fixes rows :: "nat \<Rightarrow> 'f :: field ExpRow"
  assumes "canonical (repr :: 'f \<Rightarrow> nat)"
    and "\<forall>j \<le> n. exp_cells_ranged repr rows (i + OFFSET_INCREMENT * j) \<and> er_q_usable (rows (i + OFFSET_INCREMENT * j)) \<noteq> 0 \<and>
      er_is_step (rows (i + OFFSET_INCREMENT * j)) \<noteq> 0 \<and> satisfied (exp_gates rows (i + OFFSET_INCREMENT * j)) \<and>
      a_limbs_cur (parity_check rows) (i + OFFSET_INCREMENT * j) = [2, 0, 0, 0]"
    and "\<forall>j < n. er_is_last (rows (i + OFFSET_INCREMENT * j)) = 0" and "er_is_last (rows (i + OFFSET_INCREMENT * n)) = 1"
  shows "lo_hi_nat repr (exp_exponentiation rows i) = limbs_nat repr (base_limbs rows i) ^ lo_hi_nat repr (exp_exponent rows i) mod 2 ^ 256"
  using exp_steps_sound [OF assms [unfolded OFFSET_INCREMENT_def]] .

theorem exp_circuit_sound_witness:
  "\<exists>rows :: nat \<Rightarrow> rat ExpRow. (\<forall>i. satisfied (exp_gates rows i)) \<and> base_limbs rows 0 = limb_cells 3 \<and> exp_exponent rows 0 = half_cells 4 \<and>
     lo_hi_nat (\<lambda>v. nat \<lfloor>v\<rfloor>) (exp_exponentiation rows 0) =
       limbs_nat (\<lambda>v. nat \<lfloor>v\<rfloor>) (base_limbs rows 0) ^ lo_hi_nat (\<lambda>v. nat \<lfloor>v\<rfloor>) (exp_exponent rows 0) mod 2 ^ 256"
proof (rule exp_two_blocks [of "\<lparr>xs_a = 9, xs_b = 9, xs_d = 81\<rparr>" "\<lparr>xs_a = 3, xs_b = 3, xs_d = 9\<rparr>" 4 2 2 0 2 2 1 0])
  fix rows :: "nat \<Rightarrow> rat ExpRow"
  assume b: "exp_block_at rows 0 1 False 3 4 \<lparr>xs_a = 9, xs_b = 9, xs_d = 81\<rparr> (2, 2, 0)"
    "exp_block_at rows 7 1 True 3 2 \<lparr>xs_a = 3, xs_b = 3, xs_d = 9\<rparr> (2, 1, 0)" and z: "\<And>k. 14 \<le> k \<Longrightarrow> rows k = exp_zero_row"
  have gates: "satisfied (exp_gates rows i)" for i by (rule exp_two_blocks_gates [OF b z]) simp_all
  have two: "limb_cells 2 = [2, 0, 0, 0 :: rat]" by (simp add: limb_cells_def limb_def upt_4)
  note c1 = exp_block_at_cells [OF b(1)] and c2 = exp_block_at_cells [OF b(2)]
  have "lo_hi_nat (\<lambda>v. nat \<lfloor>v\<rfloor>) (exp_exponentiation rows 0) =
      limbs_nat (\<lambda>v. nat \<lfloor>v\<rfloor>) (base_limbs rows 0) ^ lo_hi_nat (\<lambda>v. nat \<lfloor>v\<rfloor>) (exp_exponent rows 0) mod 2 ^ 256"
  proof (rule exp_circuit_sound [OF canonical_rat, where n = 1])
    show "\<forall>j \<le> 1. exp_cells_ranged (\<lambda>v. nat \<lfloor>v\<rfloor>) rows (0 + OFFSET_INCREMENT * j) \<and> er_q_usable (rows (0 + OFFSET_INCREMENT * j)) \<noteq> 0 \<and>
      er_is_step (rows (0 + OFFSET_INCREMENT * j)) \<noteq> 0 \<and> satisfied (exp_gates rows (0 + OFFSET_INCREMENT * j)) \<and>
      a_limbs_cur (parity_check rows) (0 + OFFSET_INCREMENT * j) = [2, 0, 0, 0]"
      using c1 c2 canonical_rat by (auto simp: gates two le_Suc_eq OFFSET_INCREMENT_def)
  qed (use c1 c2 in \<open>simp_all add: OFFSET_INCREMENT_def\<close>)
  then show ?thesis using gates c1(4,5) by blast
qed simp_all

text \<open>
  C39: the second condition is needed. No gate says that the parity chip multiplies by two, so \<open>6 = 3 * 2\<close> passes for its equation,
  and two steps, all of whose cells are in range, prove that 3 to the power of 6 is 81.
\<close>

theorem exp_circuit_unsound:
  "\<exists>rows :: nat \<Rightarrow> 'f :: field ExpRow. (\<forall>i. satisfied (exp_gates rows i)) \<and>
     (\<forall>repr. canonical repr \<longrightarrow> exp_cells_ranged repr rows 0 \<and> exp_cells_ranged repr rows OFFSET_INCREMENT) \<and>
     er_is_step (rows 0) = 1 \<and> er_is_last (rows 0) = 0 \<and> er_is_step (rows OFFSET_INCREMENT) = 1 \<and> er_is_last (rows OFFSET_INCREMENT) = 1 \<and>
     base_limbs rows 0 = limb_cells 3 \<and> exp_exponent rows 0 = half_cells 6 \<and> exp_exponentiation rows 0 = half_cells 81 \<and> (81 :: Word) \<noteq> 3 ^ 6"
proof (rule exp_two_blocks [of "\<lparr>xs_a = 9, xs_b = 9, xs_d = 81\<rparr>" "\<lparr>xs_a = 3, xs_b = 3, xs_d = 9\<rparr>" 6 3 2 0 2 2 1 0])
  fix rows :: "nat \<Rightarrow> 'f ExpRow"
  assume b: "exp_block_at rows 0 1 False 3 6 \<lparr>xs_a = 9, xs_b = 9, xs_d = 81\<rparr> (3, 2, 0)"
    "exp_block_at rows 7 1 True 3 2 \<lparr>xs_a = 3, xs_b = 3, xs_d = 9\<rparr> (2, 1, 0)" and z: "\<And>k. 14 \<le> k \<Longrightarrow> rows k = exp_zero_row"
  have "satisfied (exp_gates rows i)" for i by (rule exp_two_blocks_gates [OF b z]) simp_all
  then show ?thesis
    using exp_block_at_cells [OF b(1)] exp_block_at_cells [OF b(2)] by (intro exI [of _ rows]) (simp add: OFFSET_INCREMENT_def)
qed simp_all

theorem exp_circuit_unsound_witness:
  "\<exists>rows :: nat \<Rightarrow> rat ExpRow. (\<forall>i. satisfied (exp_gates rows i)) \<and> exp_cells_ranged (\<lambda>v. nat \<lfloor>v\<rfloor>) rows 0 \<and>
     exp_exponent rows 0 = half_cells 6 \<and> exp_exponentiation rows 0 = half_cells 81"
  using exp_circuit_unsound [where ?'f = rat] canonical_rat by blast

end
