(* ===== verification/Rw_Table.thy ===== *)
theory Rw_Table
  imports Operation Mul_Add
begin

text \<open>
  The read-write rows of the circuits: \<^verbatim>\<open>zkevm-circuits/src/witness/rw.rs\<close>, with the field tags of
  \<^verbatim>\<open>zkevm-circuits/src/table.rs\<close> and \<^verbatim>\<open>zkevm-circuits/src/table/tx_table.rs\<close>. A row is made from an operation of the bus mapping;
  the rows of a block are sorted by their keys and padded at the front. The table of a block is a map from targets to
  vectors; the order in which Rust enumerates a hash map is not specified, so it is a parameter.
\<close>

section \<open>Tags and rows\<close>

datatype AccountFieldTag = AFT_Nonce | AFT_Balance | AFT_CodeHash | AFT_NonExisting

definition account_field_tag_u64 :: "AccountFieldTag \<Rightarrow> nat" where
  "account_field_tag_u64 t = (case t of AFT_Nonce \<Rightarrow> 1 | AFT_Balance \<Rightarrow> 2 | AFT_CodeHash \<Rightarrow> 3 | AFT_NonExisting \<Rightarrow> 4)"

datatype CallContextFieldTag =
    CFT_RwCounterEndOfReversion | CFT_CallerId | CFT_TxId | CFT_Depth | CFT_CallerAddress | CFT_CalleeAddress
  | CFT_CallDataOffset | CFT_CallDataLength | CFT_ReturnDataOffset | CFT_ReturnDataLength | CFT_Value
  | CFT_IsSuccess | CFT_IsPersistent | CFT_IsStatic | CFT_LastCalleeId | CFT_LastCalleeReturnDataOffset
  | CFT_LastCalleeReturnDataLength | CFT_IsRoot | CFT_IsCreate | CFT_CodeHash | CFT_ProgramCounter
  | CFT_StackPointer | CFT_GasLeft | CFT_MemorySize | CFT_ReversibleWriteCounter

definition call_context_field_tag_u64 :: "CallContextFieldTag \<Rightarrow> nat" where
  "call_context_field_tag_u64 t = (case t of
      CFT_RwCounterEndOfReversion \<Rightarrow> 1 | CFT_CallerId \<Rightarrow> 2 | CFT_TxId \<Rightarrow> 3 | CFT_Depth \<Rightarrow> 4 | CFT_CallerAddress \<Rightarrow> 5
    | CFT_CalleeAddress \<Rightarrow> 6 | CFT_CallDataOffset \<Rightarrow> 7 | CFT_CallDataLength \<Rightarrow> 8 | CFT_ReturnDataOffset \<Rightarrow> 9
    | CFT_ReturnDataLength \<Rightarrow> 10 | CFT_Value \<Rightarrow> 11 | CFT_IsSuccess \<Rightarrow> 12 | CFT_IsPersistent \<Rightarrow> 13 | CFT_IsStatic \<Rightarrow> 14
    | CFT_LastCalleeId \<Rightarrow> 15 | CFT_LastCalleeReturnDataOffset \<Rightarrow> 16 | CFT_LastCalleeReturnDataLength \<Rightarrow> 17
    | CFT_IsRoot \<Rightarrow> 18 | CFT_IsCreate \<Rightarrow> 19 | CFT_CodeHash \<Rightarrow> 20 | CFT_ProgramCounter \<Rightarrow> 21 | CFT_StackPointer \<Rightarrow> 22
    | CFT_GasLeft \<Rightarrow> 23 | CFT_MemorySize \<Rightarrow> 24 | CFT_ReversibleWriteCounter \<Rightarrow> 25)"

datatype TxLogFieldTag = LFT_Address | LFT_Topic | LFT_Data

definition tx_log_field_tag_u64 :: "TxLogFieldTag \<Rightarrow> nat" where
  "tx_log_field_tag_u64 t = (case t of LFT_Address \<Rightarrow> 1 | LFT_Topic \<Rightarrow> 2 | LFT_Data \<Rightarrow> 3)"

datatype TxReceiptFieldTag = RFT_PostStateOrStatus | RFT_CumulativeGasUsed | RFT_LogLength

definition tx_receipt_field_tag_u64 :: "TxReceiptFieldTag \<Rightarrow> nat" where
  "tx_receipt_field_tag_u64 t = (case t of RFT_PostStateOrStatus \<Rightarrow> 1 | RFT_CumulativeGasUsed \<Rightarrow> 2 | RFT_LogLength \<Rightarrow> 3)"

text \<open>The fields of each variant in the order of the source; the first is the counter, the second, but for \<open>Start\<close>, \<open>is_write\<close>.\<close>

datatype Rw =
    RwStart usize
  | RwTxAccessListAccount usize bool usize Address bool bool
  | RwTxAccessListAccountStorage usize bool usize Address Word bool bool
  | RwTxRefund usize bool usize u64 u64
  | RwAccount usize bool Address AccountFieldTag Word Word
  | RwAccountStorage usize bool Address Word Word Word usize Word
  | RwCallContext usize bool usize CallContextFieldTag Word
  | RwStack usize bool usize usize Word
  | RwMemory usize bool usize u64 u8
  | RwTxLog usize bool usize u64 TxLogFieldTag usize Word
  | RwTxReceipt usize bool usize TxReceiptFieldTag u64

fun rw_counter :: "Rw \<Rightarrow> usize" where
  "rw_counter (RwStart c) = c"
| "rw_counter (RwTxAccessListAccount c _ _ _ _ _) = c"
| "rw_counter (RwTxAccessListAccountStorage c _ _ _ _ _ _) = c"
| "rw_counter (RwTxRefund c _ _ _ _) = c"
| "rw_counter (RwAccount c _ _ _ _ _) = c"
| "rw_counter (RwAccountStorage c _ _ _ _ _ _ _) = c"
| "rw_counter (RwCallContext c _ _ _ _) = c"
| "rw_counter (RwStack c _ _ _ _) = c"
| "rw_counter (RwMemory c _ _ _ _) = c"
| "rw_counter (RwTxLog c _ _ _ _ _ _) = c"
| "rw_counter (RwTxReceipt c _ _ _ _) = c"

fun rw_is_write :: "Rw \<Rightarrow> bool" where
  "rw_is_write (RwStart _) = False"
| "rw_is_write (RwTxAccessListAccount _ w _ _ _ _) = w"
| "rw_is_write (RwTxAccessListAccountStorage _ w _ _ _ _ _) = w"
| "rw_is_write (RwTxRefund _ w _ _ _) = w"
| "rw_is_write (RwAccount _ w _ _ _ _) = w"
| "rw_is_write (RwAccountStorage _ w _ _ _ _ _ _) = w"
| "rw_is_write (RwCallContext _ w _ _ _) = w"
| "rw_is_write (RwStack _ w _ _ _) = w"
| "rw_is_write (RwMemory _ w _ _ _) = w"
| "rw_is_write (RwTxLog _ w _ _ _ _ _) = w"
| "rw_is_write (RwTxReceipt _ w _ _ _) = w"

fun rw_tag :: "Rw \<Rightarrow> Target" where
  "rw_tag (RwStart _) = TStart"
| "rw_tag (RwTxAccessListAccount _ _ _ _ _ _) = TTxAccessListAccount"
| "rw_tag (RwTxAccessListAccountStorage _ _ _ _ _ _ _) = TTxAccessListAccountStorage"
| "rw_tag (RwTxRefund _ _ _ _ _) = TTxRefund"
| "rw_tag (RwAccount _ _ _ _ _ _) = TAccount"
| "rw_tag (RwAccountStorage _ _ _ _ _ _ _ _) = TStorage"
| "rw_tag (RwCallContext _ _ _ _ _) = TCallContext"
| "rw_tag (RwStack _ _ _ _ _) = TStack"
| "rw_tag (RwMemory _ _ _ _ _) = TMemory"
| "rw_tag (RwTxLog _ _ _ _ _ _ _) = TTxLog"
| "rw_tag (RwTxReceipt _ _ _ _ _) = TTxReceipt"

fun rw_id :: "Rw \<Rightarrow> usize option" where
  "rw_id (RwAccountStorage _ _ _ _ _ _ tx_id _) = Some tx_id"
| "rw_id (RwTxAccessListAccount _ _ tx_id _ _ _) = Some tx_id"
| "rw_id (RwTxAccessListAccountStorage _ _ tx_id _ _ _ _) = Some tx_id"
| "rw_id (RwTxRefund _ _ tx_id _ _) = Some tx_id"
| "rw_id (RwTxLog _ _ tx_id _ _ _ _) = Some tx_id"
| "rw_id (RwTxReceipt _ _ tx_id _ _) = Some tx_id"
| "rw_id (RwCallContext _ _ call_id _ _) = Some call_id"
| "rw_id (RwStack _ _ call_id _ _) = Some call_id"
| "rw_id (RwMemory _ _ call_id _ _) = Some call_id"
| "rw_id _ = None"

text \<open>Index, tag and log identifier are packed into an address; the sum of \<open>U256\<close> values stays far below 2 to the 256.\<close>

definition build_tx_log_address :: "u64 \<Rightarrow> TxLogFieldTag \<Rightarrow> u64 \<Rightarrow> Address" where
  "build_tx_log_address index field_tag log_id =
     ucast (ucast index + push_bit 32 (of_nat (tx_log_field_tag_u64 field_tag)) + push_bit 48 (ucast log_id) :: Word)"

fun rw_address :: "Rw \<Rightarrow> Address option" where
  "rw_address (RwTxAccessListAccount _ _ _ a _ _) = Some a"
| "rw_address (RwTxAccessListAccountStorage _ _ _ a _ _ _) = Some a"
| "rw_address (RwAccount _ _ a _ _ _) = Some a"
| "rw_address (RwAccountStorage _ _ a _ _ _ _ _) = Some a"
| "rw_address (RwMemory _ _ _ memory_address _) = Some (ucast (ucast memory_address :: Word))"
| "rw_address (RwStack _ _ _ sp _) = Some (ucast (ucast (of_nat sp :: u64) :: Word))"
| "rw_address (RwTxLog _ _ _ log_id field_tag index _) = Some (build_tx_log_address (of_nat index) field_tag log_id)"
| "rw_address _ = None"

fun rw_field_tag :: "Rw \<Rightarrow> nat option" where
  "rw_field_tag (RwAccount _ _ _ t _ _) = Some (account_field_tag_u64 t)"
| "rw_field_tag (RwCallContext _ _ _ t _) = Some (call_context_field_tag_u64 t)"
| "rw_field_tag (RwTxReceipt _ _ _ t _) = Some (tx_receipt_field_tag_u64 t)"
| "rw_field_tag _ = None"

fun rw_storage_key :: "Rw \<Rightarrow> Word option" where
  "rw_storage_key (RwAccountStorage _ _ _ k _ _ _ _) = Some k"
| "rw_storage_key (RwTxAccessListAccountStorage _ _ _ _ k _ _) = Some k"
| "rw_storage_key _ = None"

fun value_assignment :: "Rw \<Rightarrow> Word" where
  "value_assignment (RwStart _) = 0"
| "value_assignment (RwCallContext _ _ _ _ v) = v"
| "value_assignment (RwAccount _ _ _ _ v _) = v"
| "value_assignment (RwAccountStorage _ _ _ _ v _ _ _) = v"
| "value_assignment (RwStack _ _ _ _ v) = v"
| "value_assignment (RwTxLog _ _ _ _ _ _ v) = v"
| "value_assignment (RwTxAccessListAccount _ _ _ _ is_warm _) = word_of_bool is_warm"
| "value_assignment (RwTxAccessListAccountStorage _ _ _ _ _ is_warm _) = word_of_bool is_warm"
| "value_assignment (RwMemory _ _ _ _ byte) = ucast byte"
| "value_assignment (RwTxRefund _ _ _ v _) = ucast v"
| "value_assignment (RwTxReceipt _ _ _ _ v) = ucast v"

fun value_prev_assignment :: "Rw \<Rightarrow> Word option" where
  "value_prev_assignment (RwAccount _ _ _ _ _ v) = Some v"
| "value_prev_assignment (RwAccountStorage _ _ _ _ _ v _ _) = Some v"
| "value_prev_assignment (RwTxAccessListAccount _ _ _ _ _ is_warm_prev) = Some (word_of_bool is_warm_prev)"
| "value_prev_assignment (RwTxAccessListAccountStorage _ _ _ _ _ _ is_warm_prev) = Some (word_of_bool is_warm_prev)"
| "value_prev_assignment (RwTxRefund _ _ _ _ v) = Some (ucast v)"
| "value_prev_assignment _ = None"

fun committed_value_assignment :: "Rw \<Rightarrow> Word option" where
  "committed_value_assignment (RwAccountStorage _ _ _ _ _ _ _ c) = Some c"
| "committed_value_assignment _ = None"

definition unwrap_or :: "'a \<Rightarrow> 'a option \<Rightarrow> 'a" where
  "unwrap_or d x = (case x of None \<Rightarrow> d | Some y \<Rightarrow> y)"

section \<open>The accessors of the execution gadgets\<close>

definition unreachable :: "('a, 'e) result" where
  "unreachable = Inl (Panic ''internal error: entered unreachable code'')"

fun tx_access_list_value_pair :: "Rw \<Rightarrow> (bool \<times> bool, 'e) result" where
  "tx_access_list_value_pair (RwTxAccessListAccount _ _ _ _ w p) = Inr (w, p)"
| "tx_access_list_value_pair (RwTxAccessListAccountStorage _ _ _ _ _ w p) = Inr (w, p)"
| "tx_access_list_value_pair _ = unreachable"

fun tx_refund_value_pair :: "Rw \<Rightarrow> (u64 \<times> u64, 'e) result" where
  "tx_refund_value_pair (RwTxRefund _ _ _ v p) = Inr (v, p)"
| "tx_refund_value_pair _ = unreachable"

text \<open>The three account accessors assert the tag of the row in a debug build.\<close>

fun account_pair :: "AccountFieldTag \<Rightarrow> Rw \<Rightarrow> (Word \<times> Word, 'e) result" where
  "account_pair t (RwAccount _ _ _ field_tag v p) =
     (if field_tag = t then Inr (v, p) else Inl (Panic ''assertion failed''))"
| "account_pair t _ = unreachable"

definition account_balance_pair :: "Rw \<Rightarrow> (Word \<times> Word, 'e) result" where
  "account_balance_pair = account_pair AFT_Balance"

definition account_nonce_pair :: "Rw \<Rightarrow> (Word \<times> Word, 'e) result" where
  "account_nonce_pair = account_pair AFT_Nonce"

definition account_codehash_pair :: "Rw \<Rightarrow> (Word \<times> Word, 'e) result" where
  "account_codehash_pair = account_pair AFT_CodeHash"

fun aux_pair :: "Rw \<Rightarrow> (usize \<times> Word, 'e) result" where
  "aux_pair (RwAccountStorage _ _ _ _ _ _ tx_id c) = Inr (tx_id, c)"
| "aux_pair _ = unreachable"

fun storage_value_aux :: "Rw \<Rightarrow> (Word \<times> Word \<times> usize \<times> Word, 'e) result" where
  "storage_value_aux (RwAccountStorage _ _ _ _ v p tx_id c) = Inr (v, p, tx_id, c)"
| "storage_value_aux _ = unreachable"

fun call_context_value :: "Rw \<Rightarrow> (Word, 'e) result" where
  "call_context_value (RwCallContext _ _ _ _ v) = Inr v"
| "call_context_value _ = unreachable"

fun stack_value :: "Rw \<Rightarrow> (Word, 'e) result" where
  "stack_value (RwStack _ _ _ _ v) = Inr v"
| "stack_value _ = unreachable"

fun receipt_value :: "Rw \<Rightarrow> (u64, 'e) result" where
  "receipt_value (RwTxReceipt _ _ _ _ v) = Inr v"
| "receipt_value _ = unreachable"

fun memory_value :: "Rw \<Rightarrow> (u8, 'e) result" where
  "memory_value (RwMemory _ _ _ _ byte) = Inr byte"
| "memory_value _ = unreachable"

section \<open>The row as field elements\<close>

text \<open>\<open>from_bytes::value\<close> and the word of two halves; an address is small enough for a scalar.\<close>

definition from_bytes_value :: "u8 list \<Rightarrow> 'f :: field" where
  "from_bytes_value bytes = fst (foldl (\<lambda>(v, multiplier) byte. (v + of_nat (unat byte) * multiplier, multiplier * 256)) (0, 1) bytes)"

definition word_from_u256 :: "Word \<Rightarrow> 'f :: field \<times> 'f" where
  "word_from_u256 w = (let bytes = le_bytes 32 (unat w) in (from_bytes_value (take 16 bytes), from_bytes_value (drop 16 bytes)))"

record 'f RwRow =
  rr_rw_counter :: 'f
  rr_is_write :: 'f
  rr_tag :: 'f
  rr_id :: 'f
  rr_address :: 'f
  rr_field_tag :: 'f
  rr_storage_key :: "'f \<times> 'f"
  rr_value :: "'f \<times> 'f"
  rr_value_prev :: "'f \<times> 'f"
  rr_init_val :: "'f \<times> 'f"

definition rw_row_values :: "'f RwRow \<Rightarrow> 'f list" where
  "rw_row_values r = [rr_rw_counter r, rr_is_write r, rr_tag r, rr_id r, rr_address r, rr_field_tag r,
     fst (rr_storage_key r), snd (rr_storage_key r), fst (rr_value r), snd (rr_value r),
     fst (rr_value_prev r), snd (rr_value_prev r), fst (rr_init_val r), snd (rr_init_val r)]"

definition rw_row_rlc :: "'f :: field \<Rightarrow> 'f RwRow \<Rightarrow> 'f" where
  "rw_row_rlc randomness r = foldl (\<lambda>acc v. acc * randomness + v) 0 (rev (rw_row_values r))"

definition table_assignment :: "Rw \<Rightarrow> 'f :: field RwRow" where
  "table_assignment rw = \<lparr>rr_rw_counter = of_nat (rw_counter rw), rr_is_write = of_bool (rw_is_write rw),
     rr_tag = of_nat (target_usize (rw_tag rw)), rr_id = of_nat (unwrap_or 0 (rw_id rw)),
     rr_address = of_nat (unat (unwrap_or 0 (rw_address rw))), rr_field_tag = of_nat (unwrap_or 0 (rw_field_tag rw)),
     rr_storage_key = word_from_u256 (unwrap_or 0 (rw_storage_key rw)), rr_value = word_from_u256 (value_assignment rw),
     rr_value_prev = word_from_u256 (unwrap_or 0 (value_prev_assignment rw)),
     rr_init_val = word_from_u256 (unwrap_or 0 (committed_value_assignment rw))\<rparr>"

section \<open>The rows of a block\<close>

type_synonym RwMap = "Target \<rightharpoonup> Rw list"

text \<open>\<open>Index<OperationRef>\<close>.\<close>

definition rw_map_index :: "RwMap \<Rightarrow> OperationRef \<Rightarrow> (Rw, 'e) result" where
  "rw_map_index rws r = (case rws (fst r) of
      None \<Rightarrow> Inl (Panic ''called `Option::unwrap()` on a `None` value'')
    | Some rs \<Rightarrow> (case nth_opt rs (snd r) of None \<Rightarrow> Inl (Panic ''index out of bounds'') | Some rw \<Rightarrow> Inr rw))"

definition sort_key_of :: "Rw \<Rightarrow> nat \<times> nat \<times> Address \<times> nat \<times> Word \<times> nat" where
  "sort_key_of rw = (target_usize (rw_tag rw), unwrap_or 0 (rw_id rw), unwrap_or 0 (rw_address rw),
     unwrap_or 0 (rw_field_tag rw), unwrap_or 0 (rw_storage_key rw), rw_counter rw)"

definition rw_map_rows :: "Target list \<Rightarrow> RwMap \<Rightarrow> Rw list" where
  "rw_map_rows order rws = concat (map (\<lambda>t. unwrap_or [] (rws t)) order)"

definition table_assignments :: "Target list \<Rightarrow> RwMap \<Rightarrow> Rw list" where
  "table_assignments order rws = sort_key sort_key_of (rw_map_rows order rws)"

definition padding_len :: "usize \<Rightarrow> usize \<Rightarrow> (usize, 'e) result" where
  "padding_len rows_len target_len =
     (if target_len > rows_len then Inr (target_len - rows_len)
      else if target_len \<noteq> 0 then Inl (Panic ''RwMap::padding_len overflow'')
      else Inr 1)"

definition is_start :: "Rw \<Rightarrow> bool" where
  "is_start rw = (case rw of RwStart _ \<Rightarrow> True | _ \<Rightarrow> False)"

definition table_assignments_prepad :: "Rw list \<Rightarrow> usize \<Rightarrow> (Rw list \<times> usize, 'e) result" where
  "table_assignments_prepad rows target_len =
     (let rows = dropWhile is_start rows
      in bindE (padding_len (length rows) target_len) (\<lambda>padding_length.
         Inr (map RwStart [1..<padding_length + 1] @ rows, padding_length)))"

text \<open>The debug assertion that the counters of the rows other than \<open>Start\<close> are 1, 2, ...\<close>

definition check_rw_counter_sanity :: "Target list \<Rightarrow> RwMap \<Rightarrow> (unit, 'e) result" where
  "check_rw_counter_sanity order rws =
     foldE (\<lambda>(idx, c) _. if 0 < c \<and> idx = c - 1 then Inr () else Inl (Panic ''assertion failed''))
       (enumerate 0 (sort (map rw_counter (rw_map_rows (filter (\<lambda>t. t \<noteq> TStart) order) rws)))) ()"

section \<open>Rows from operations\<close>

definition account_field_tag_of :: "AccountField \<Rightarrow> AccountFieldTag" where
  "account_field_tag_of f = (case f of AF_Nonce \<Rightarrow> AFT_Nonce | AF_Balance \<Rightarrow> AFT_Balance | AF_CodeHash \<Rightarrow> AFT_CodeHash)"

definition call_context_field_tag_of :: "CallContextField \<Rightarrow> CallContextFieldTag" where
  "call_context_field_tag_of f = (case f of
      CC_RwCounterEndOfReversion \<Rightarrow> CFT_RwCounterEndOfReversion | CC_CallerId \<Rightarrow> CFT_CallerId | CC_TxId \<Rightarrow> CFT_TxId
    | CC_Depth \<Rightarrow> CFT_Depth | CC_CallerAddress \<Rightarrow> CFT_CallerAddress | CC_CalleeAddress \<Rightarrow> CFT_CalleeAddress
    | CC_CallDataOffset \<Rightarrow> CFT_CallDataOffset | CC_CallDataLength \<Rightarrow> CFT_CallDataLength
    | CC_ReturnDataOffset \<Rightarrow> CFT_ReturnDataOffset | CC_ReturnDataLength \<Rightarrow> CFT_ReturnDataLength | CC_Value \<Rightarrow> CFT_Value
    | CC_IsSuccess \<Rightarrow> CFT_IsSuccess | CC_IsPersistent \<Rightarrow> CFT_IsPersistent | CC_IsStatic \<Rightarrow> CFT_IsStatic
    | CC_LastCalleeId \<Rightarrow> CFT_LastCalleeId | CC_LastCalleeReturnDataOffset \<Rightarrow> CFT_LastCalleeReturnDataOffset
    | CC_LastCalleeReturnDataLength \<Rightarrow> CFT_LastCalleeReturnDataLength | CC_IsRoot \<Rightarrow> CFT_IsRoot | CC_IsCreate \<Rightarrow> CFT_IsCreate
    | CC_CodeHash \<Rightarrow> CFT_CodeHash | CC_ProgramCounter \<Rightarrow> CFT_ProgramCounter | CC_StackPointer \<Rightarrow> CFT_StackPointer
    | CC_GasLeft \<Rightarrow> CFT_GasLeft | CC_MemorySize \<Rightarrow> CFT_MemorySize | CC_ReversibleWriteCounter \<Rightarrow> CFT_ReversibleWriteCounter)"

definition tx_log_field_tag_of :: "TxLogField \<Rightarrow> TxLogFieldTag" where
  "tx_log_field_tag_of f = (case f of LF_Address \<Rightarrow> LFT_Address | LF_Topic \<Rightarrow> LFT_Topic | LF_Data \<Rightarrow> LFT_Data)"

definition tx_receipt_field_tag_of :: "TxReceiptField \<Rightarrow> TxReceiptFieldTag" where
  "tx_receipt_field_tag_of f = (case f of
      RF_PostStateOrStatus \<Rightarrow> RFT_PostStateOrStatus | RF_LogLength \<Rightarrow> RFT_LogLength | RF_CumulativeGasUsed \<Rightarrow> RFT_CumulativeGasUsed)"

text \<open>The row of one operation; the eleven closures of \<open>From<&OperationContainer>\<close>.\<close>

definition rw_of_op :: "OpEnum Operation \<Rightarrow> Rw" where
  "rw_of_op op = (let c = op_rwc op; w = is_write (op_rw op) in case op_op op of
      OpStart _ \<Rightarrow> RwStart c
    | OpTxAccessListAccount p \<Rightarrow> RwTxAccessListAccount c w (ala_tx_id p) (ala_address p) (ala_is_warm p) (ala_is_warm_prev p)
    | OpTxAccessListAccountStorage p \<Rightarrow>
        RwTxAccessListAccountStorage c w (als_tx_id p) (als_address p) (als_key p) (als_is_warm p) (als_is_warm_prev p)
    | OpTxRefund p \<Rightarrow> RwTxRefund c w (rfd_tx_id p) (rfd_value p) (rfd_value_prev p)
    | OpAccount p \<Rightarrow> RwAccount c w (acc_address p) (account_field_tag_of (acc_field p)) (acc_value p) (acc_value_prev p)
    | OpStorage p \<Rightarrow> RwAccountStorage c w (sto_address p) (sto_key p) (sto_value p) (sto_value_prev p) (sto_tx_id p) (sto_committed_value p)
    | OpCallContext p \<Rightarrow> RwCallContext c w (cco_call_id p) (call_context_field_tag_of (cco_field p)) (cco_value p)
    | OpStack p \<Rightarrow> RwStack c w (stk_call_id p) (stk_address p) (stk_value p)
    | OpMemory p \<Rightarrow> RwMemory c w (mem_call_id p) (of_nat (nat_of_le (take 8 (memory_address_to_le_bytes (mem_address p))))) (mem_value p)
    | OpTxLog p \<Rightarrow> RwTxLog c w (log_tx_id p) (of_nat (log_log_id p)) (tx_log_field_tag_of (log_field p)) (log_index p) (log_value p)
    | OpTxReceipt p \<Rightarrow> RwTxReceipt c w (rcp_tx_id p) (tx_receipt_field_tag_of (rcp_field p)) (rcp_value p))"

definition rw_map_from :: "OperationContainer \<Rightarrow> RwMap" where
  "rw_map_from container = (\<lambda>_. None)
     (TStart \<mapsto> map (\<lambda>op. rw_of_op (op_view OpStart op)) (oc_start container),
      TTxAccessListAccount \<mapsto> map (\<lambda>op. rw_of_op (op_view OpTxAccessListAccount op)) (oc_tx_access_list_account container),
      TTxAccessListAccountStorage \<mapsto>
        map (\<lambda>op. rw_of_op (op_view OpTxAccessListAccountStorage op)) (oc_tx_access_list_account_storage container),
      TTxRefund \<mapsto> map (\<lambda>op. rw_of_op (op_view OpTxRefund op)) (oc_tx_refund container),
      TAccount \<mapsto> map (\<lambda>op. rw_of_op (op_view OpAccount op)) (oc_account container),
      TStorage \<mapsto> map (\<lambda>op. rw_of_op (op_view OpStorage op)) (oc_storage container),
      TCallContext \<mapsto> map (\<lambda>op. rw_of_op (op_view OpCallContext op)) (oc_call_context container),
      TStack \<mapsto> map (\<lambda>op. rw_of_op (op_view OpStack op)) (oc_stack container),
      TMemory \<mapsto> map (\<lambda>op. rw_of_op (op_view OpMemory op)) (oc_memory container),
      TTxLog \<mapsto> map (\<lambda>op. rw_of_op (op_view OpTxLog op)) (oc_tx_log container),
      TTxReceipt \<mapsto> map (\<lambda>op. rw_of_op (op_view OpTxReceipt op)) (oc_tx_receipt container))"

section \<open>The rows are the operations\<close>

definition container_ops :: "OperationContainer \<Rightarrow> OpEnum Operation list" where
  "container_ops c =
     map (op_view OpStart) (oc_start c) @ map (op_view OpMemory) (oc_memory c) @ map (op_view OpStack) (oc_stack c) @
     map (op_view OpStorage) (oc_storage c) @ map (op_view OpTxAccessListAccount) (oc_tx_access_list_account c) @
     map (op_view OpTxAccessListAccountStorage) (oc_tx_access_list_account_storage c) @ map (op_view OpTxRefund) (oc_tx_refund c) @
     map (op_view OpAccount) (oc_account c) @ map (op_view OpCallContext) (oc_call_context c) @
     map (op_view OpTxReceipt) (oc_tx_receipt c) @ map (op_view OpTxLog) (oc_tx_log c)"

definition all_targets :: "Target list" where
  "all_targets = [TStart, TMemory, TStack, TStorage, TTxAccessListAccount, TTxAccessListAccountStorage, TTxRefund, TAccount,
     TCallContext, TTxReceipt, TTxLog]"

lemma set_all_targets: "set all_targets = UNIV" and distinct_all_targets: "distinct all_targets"
proof -
  have "t \<in> set all_targets" for t by (cases t) (simp_all add: all_targets_def)
  then show "set all_targets = UNIV" by blast
qed (simp add: all_targets_def)

lemma rw_of_op_fields:
  "rw_counter (rw_of_op op) = op_rwc op" "rw_tag (rw_of_op op) = op_target (op_op op)"
  "op_target (op_op op) \<noteq> TStart \<Longrightarrow> rw_is_write (rw_of_op op) = is_write (op_rw op)"
  by (cases "op_op op"; simp add: rw_of_op_def op_target_def Let_def)+

lemma rw_map_index_from:
  "rw_map_index (rw_map_from c) r = (case container_get c r of
     None \<Rightarrow> Inl (Panic ''index out of bounds'') | Some op \<Rightarrow> Inr (rw_of_op op))"
  by (cases r; cases "fst r")
    (simp_all add: rw_map_index_def rw_map_from_def container_get_def nth_opt_def)

lemma rw_map_rows_from:
  assumes "distinct order" and "set order = UNIV"
  shows "mset (rw_map_rows order (rw_map_from c)) = mset (map rw_of_op (container_ops c))"
proof -
  have "mset order = mset all_targets" using assms set_all_targets distinct_all_targets set_eq_iff_mset_eq_distinct by blast
  then have "mset (concat (map f order)) = mset (concat (map f all_targets))" for f :: "Target \<Rightarrow> Rw list"
    by (simp add: mset_concat flip: mset_map) (metis mset_map sum_mset_sum_list)
  then have "mset (rw_map_rows order (rw_map_from c)) = mset (rw_map_rows all_targets (rw_map_from c))"
    by (simp add: rw_map_rows_def)
  also have "\<dots> = mset (map rw_of_op (container_ops c))"
    by (simp add: rw_map_rows_def all_targets_def rw_map_from_def unwrap_or_def container_ops_def comp_def)
  finally show ?thesis .
qed

lemma container_ops_rwcs: "mset (map op_rwc (container_ops c)) = mset (container_rwcs c)"
  by (simp add: container_ops_def container_rwcs_def op_view_def comp_def)

lemma sort_key_unique:
  assumes "mset xs = mset ys" and "distinct (map f xs)"
  shows "sort_key f xs = sort_key f ys"
proof (rule map_sorted_distinct_set_unique [of f])
  have inj: "inj_on f (set xs)" "distinct xs" using assms(2) by (auto simp: distinct_map)
  have "set ys = set xs" using assms(1) by (metis set_mset_mset)
  moreover have "distinct ys" using inj(2) assms(1) by (metis mset_eq_imp_distinct_iff)
  ultimately show "inj_on f (set (sort_key f xs) \<union> set (sort_key f ys))" "distinct (map f (sort_key f xs))"
    "distinct (map f (sort_key f ys))" "set (sort_key f xs) = set (sort_key f ys)" using inj by (auto simp: distinct_map)
qed simp_all

lemma rw_table_facts:
  fixes c :: OperationContainer
  assumes "distinct order" and "set order = UNIV"
  defines "rows \<equiv> table_assignments order (rw_map_from c)"
  shows "mset rows = mset (map rw_of_op (container_ops c))" and "sorted (map sort_key_of rows)"
    and "mset (map rw_counter rows) = mset (container_rwcs c)"
    and "distinct (container_rwcs c) \<Longrightarrow> rows = table_assignments all_targets (rw_map_from c)"
    and "container_get c r = Some op \<Longrightarrow> rw_map_index (rw_map_from c) r = Inr (rw_of_op op) \<and> rw_of_op op \<in> set rows \<and>
      rw_counter (rw_of_op op) = op_rwc op \<and> rw_tag (rw_of_op op) = fst r"
proof -
  note perm = rw_map_rows_from [OF assms(1,2)]
  show m: "mset rows = mset (map rw_of_op (container_ops c))" by (simp add: rows_def table_assignments_def perm)
  show "sorted (map sort_key_of rows)" by (simp add: rows_def table_assignments_def)
  have "mset (map rw_counter rows) = mset (map op_rwc (container_ops c))"
    using m by (metis (mono_tags, lifting) map_map comp_apply map_eq_conv mset_map rw_of_op_fields(1))
  then show c: "mset (map rw_counter rows) = mset (container_rwcs c)" by (simp only: container_ops_rwcs)
  show "rows = table_assignments all_targets (rw_map_from c)" if "distinct (container_rwcs c)"
    unfolding rows_def table_assignments_def
  proof (rule sort_key_unique)
    show "mset (rw_map_rows order (rw_map_from c)) = mset (rw_map_rows all_targets (rw_map_from c))"
      by (simp add: perm rw_map_rows_from [OF distinct_all_targets set_all_targets])
    have "distinct (map rw_counter rows)" using c that by (metis mset_eq_imp_distinct_iff)
    then have "distinct (map rw_counter (rw_map_rows order (rw_map_from c)))"
      by (metis rows_def table_assignments_def mset_eq_imp_distinct_iff mset_map mset_sort)
    then show "distinct (map sort_key_of (rw_map_rows order (rw_map_from c)))"
      by (auto simp: distinct_map inj_on_def sort_key_of_def)
  qed
  assume op: "container_get c r = Some op"
  have "op \<in> set (container_ops c) \<and> op_target (op_op op) = fst r"
    using op by (cases r; cases "fst r") (auto simp: container_get_def container_ops_def nth_opt_def op_view_def op_target_def split: if_splits)
  moreover have "set rows = rw_of_op ` set (container_ops c)" using m by (metis set_map set_mset_mset)
  ultimately show "rw_map_index (rw_map_from c) r = Inr (rw_of_op op) \<and> rw_of_op op \<in> set rows \<and>
      rw_counter (rw_of_op op) = op_rwc op \<and> rw_tag (rw_of_op op) = fst r"
    using op by (simp add: rw_map_index_from rw_of_op_fields)
qed

text \<open>
  C5: the rows of the state circuit are the operations of the bus mapping. Whatever order the hash map is enumerated in, the
  table has one row for each operation of the container, with its counter, target and direction, sorted by tag, id,
  address, field tag, storage key and counter; with distinct counters the table does not depend on that order.
  A reference finds the row of the operation it finds in the container.
\<close>

theorem rw_table_spec:
  assumes "distinct order" and "set order = UNIV"
  shows "mset (table_assignments order (rw_map_from c)) = mset (map rw_of_op (container_ops c)) \<and>
     sorted (map sort_key_of (table_assignments order (rw_map_from c))) \<and>
     mset (map rw_counter (table_assignments order (rw_map_from c))) = mset (container_rwcs c) \<and>
     (distinct (container_rwcs c) \<longrightarrow> table_assignments order (rw_map_from c) = table_assignments all_targets (rw_map_from c)) \<and>
     (\<forall>r op. container_get c r = Some op \<longrightarrow> rw_map_index (rw_map_from c) r = (Inr (rw_of_op op) :: (Rw, 'e) result) \<and>
        rw_of_op op \<in> set (table_assignments order (rw_map_from c)) \<and> rw_counter (rw_of_op op) = op_rwc op \<and> rw_tag (rw_of_op op) = fst r \<and>
        (fst r \<noteq> TStart \<longrightarrow> rw_is_write (rw_of_op op) = is_write (op_rw op)))"
  using rw_table_facts [OF assms, of c] rw_of_op_fields by metis

theorem rw_table_spec_witness:
  "table_assignments (rev all_targets) (rw_map_from (container_new\<lparr>
       oc_stack := [operation_new 2 READ \<lparr>stk_call_id = 1, stk_address = 1023, stk_value = 7\<rparr>,
                    operation_new 1 WRITE \<lparr>stk_call_id = 1, stk_address = 1023, stk_value = 7\<rparr>],
       oc_start := [operation_new 0 READ ()]\<rparr>)) =
   [RwStart 0, RwStack 1 True 1 1023 7, RwStack 2 False 1 1023 7]" (is "table_assignments _ (rw_map_from ?c) = _")
proof -
  have "distinct (rev all_targets)" "set (rev all_targets) = UNIV" using distinct_all_targets set_all_targets by simp_all
  moreover have "distinct (container_rwcs ?c)" by (simp add: container_rwcs_def container_new_def operation_new_def)
  ultimately have "table_assignments (rev all_targets) (rw_map_from ?c) = table_assignments all_targets (rw_map_from ?c)"
    using rw_table_spec by blast
  also have "\<dots> = [RwStart 0, RwStack 1 True 1 1023 7, RwStack 2 False 1 1023 7]"
    by (simp add: table_assignments_def rw_map_rows_def all_targets_def rw_map_from_def unwrap_or_def container_new_def operation_new_def
        rw_of_op_def op_view_def is_write_def sort_key_of_def target_usize_def)
  finally show ?thesis .
qed

end
