(* ===== verification/State_Circuit.thy ===== *)
theory State_Circuit
  imports Rw_Table Constraint_Builder
begin

text \<open>
  The state circuit, \<^verbatim>\<open>zkevm-circuits/src/state_circuit.rs\<close> and its modules: the limbs of the sort keys
  (\<^verbatim>\<open>multiple_precision_integer.rs\<close>), the order of the rows (\<^verbatim>\<open>lexicographic_ordering.rs\<close>), the lookup tables
  (\<^verbatim>\<open>lookups.rs\<close>) and the constraints by tag (\<^verbatim>\<open>constraint_builder.rs\<close>). A region is a function from row numbers, of type
  \<open>int\<close> because the gates look at the row before. A lookup is a table with the values looked up there.
\<close>

section \<open>Limbs of the keys\<close>

definition N_LIMBS_RW_COUNTER :: nat where "N_LIMBS_RW_COUNTER = 2"
definition N_LIMBS_ACCOUNT_ADDRESS :: nat where "N_LIMBS_ACCOUNT_ADDRESS = 10"
definition N_LIMBS_ID :: nat where "N_LIMBS_ID = 2"
definition N_LIMBS_WORD :: nat where "N_LIMBS_WORD = 16"

text \<open>Pairs of bytes as 16-bit numbers; \<open>tuples\<close> drops a byte that is left over.\<close>

fun le_bytes_to_limbs :: "u8 list \<Rightarrow> nat list" where
  "le_bytes_to_limbs (lo # hi # bytes) = (unat lo + 256 * unat hi) # le_bytes_to_limbs bytes"
| "le_bytes_to_limbs _ = []"

definition address_to_limbs :: "Address \<Rightarrow> nat list" where
  "address_to_limbs a = le_bytes_to_limbs (rev (be_bytes 20 (unat a)))"

definition u32_to_limbs :: "u32 \<Rightarrow> nat list" where
  "u32_to_limbs v = le_bytes_to_limbs (le_bytes 4 (unat v))"

definition word_to_limbs :: "Word \<Rightarrow> nat list" where
  "word_to_limbs v = le_bytes_to_limbs (le_bytes 32 (unat v))"

definition value_from_limbs :: "'f :: field list \<Rightarrow> 'f" where
  "value_from_limbs limbs = foldl (\<lambda>result limb. limb + result * of_nat (2 ^ 16)) 0 (rev limbs)"

definition mpi_gates :: "'f :: field \<Rightarrow> 'f list \<Rightarrow> 'f list \<Rightarrow> 'f list" where
  "mpi_gates selector vals limbs =
     (let limbs_per_value = length limbs div length vals
      in map (\<lambda>(n, v). selector * (v - value_from_limbs (take limbs_per_value (drop (n * limbs_per_value) limbs)))) (enumerate 0 vals))"

datatype LookupTag = U8_Table | U10_Table | U16_Table | CallContextFieldTags | Mpt_Table

type_synonym 'f lookup = "LookupTag \<times> 'f list"

definition range_check_u16 :: "'f \<Rightarrow> 'f lookup list" where
  "range_check_u16 v = [(U16_Table, [v])]"

definition mpi_lookups :: "'f list \<Rightarrow> 'f lookup list" where
  "mpi_lookups limbs = concat (map range_check_u16 limbs)"

text \<open>\<open>UXTable::load\<close> and \<open>Chip::load\<close>; rows that are not assigned hold zero. The table of the MPT circuit is an argument.\<close>

definition ux_table :: "nat \<Rightarrow> 'f :: field list list" where
  "ux_table n_bits = map (\<lambda>i. [of_nat i]) [0..<2 ^ n_bits]"

definition lookup_tables :: "'f :: field list list \<Rightarrow> LookupTag \<Rightarrow> 'f list list" where
  "lookup_tables mpt t = (case t of
      U8_Table \<Rightarrow> ux_table 8 | U10_Table \<Rightarrow> ux_table 10 | U16_Table \<Rightarrow> ux_table 16
    | CallContextFieldTags \<Rightarrow> map (\<lambda>i. [of_nat i]) [0..<26] | Mpt_Table \<Rightarrow> mpt)"

definition lookups_hold :: "'f :: field list list \<Rightarrow> 'f lookup list \<Rightarrow> bool" where
  "lookups_hold mpt ls = list_all (\<lambda>(t, vals). vals \<in> set (lookup_tables mpt t)) ls"

section \<open>The row\<close>

record 'f StateRow =
  st_selector :: 'f
  st_rw :: "'f RwRow"
  st_rw_counter_limbs :: "'f list"
  st_tag_bits :: "'f list"
  st_id_limbs :: "'f list"
  st_address_limbs :: "'f list"
  st_storage_key_limbs :: "'f list"
  st_initial_value :: "'f \<times> 'f"
  st_is_zero :: 'f
  st_nonempty_witness :: 'f
  st_mpt_proof_type :: 'f
  st_state_root :: "'f \<times> 'f"
  st_ordering_selector :: 'f
  st_first_different_limb :: "'f list"
  st_limb_difference :: 'f
  st_limb_difference_inverse :: 'f
  st_not_first_access :: 'f

section \<open>Lexicographic order\<close>

text \<open>A \<open>LimbIndex\<close> is its position, from \<open>Tag\<close> at 0 to \<open>RwCounter1\<close> and \<open>RwCounter0\<close> at 30 and 31.\<close>

type_synonym LimbIndex = nat

definition N_LIMB_INDEX :: nat where "N_LIMB_INDEX = 32"

definition be_limbs :: "'f :: field StateRow \<Rightarrow> 'f list" where
  "be_limbs row = [binary_value (st_tag_bits row)] @ rev (st_id_limbs row) @ rev (st_address_limbs row) @
     [rr_field_tag (st_rw row)] @ rev (st_storage_key_limbs row) @ rev (st_rw_counter_limbs row)"

fun rlc_partial_sums :: "'f :: field \<Rightarrow> 'f list \<Rightarrow> 'f list \<Rightarrow> 'f list \<Rightarrow> 'f list" where
  "rlc_partial_sums partial_sum (c # cur) (p # prev) (w # powers) =
     partial_sum # rlc_partial_sums (partial_sum + w * (c - p)) cur prev powers"
| "rlc_partial_sums partial_sum _ _ _ = []"

definition rlc_limb_differences :: "'f :: field StateRow \<Rightarrow> 'f StateRow \<Rightarrow> 'f list \<Rightarrow> 'f list" where
  "rlc_limb_differences cur prev powers_of_randomness =
     rlc_partial_sums 0 (be_limbs cur) (be_limbs prev) (1 # powers_of_randomness)"

definition keccak_powers_of_randomness :: "'f :: field \<Rightarrow> 'f list" where
  "keccak_powers_of_randomness r = map (\<lambda>k. r ^ (k + 1)) [0..<31]"

definition ordering_gates :: "'f :: field \<Rightarrow> (int \<Rightarrow> 'f StateRow) \<Rightarrow> int \<Rightarrow> 'f list" where
  "ordering_gates r rows i =
     (let cur = rows i; prev = rows (i - 1); selector = st_ordering_selector cur; difference = st_limb_difference cur;
          is_first_different = (\<lambda>k. value_equals_expr 5 k (st_first_different_limb cur))
      in binary_number_gates 5 [0..<N_LIMB_INDEX] selector (st_first_different_limb cur) None @
         [selector * (1 - difference * st_limb_difference_inverse cur)] @
         map (\<lambda>(k, rlc_expression). selector * is_first_different k * rlc_expression)
           (enumerate 0 (rlc_limb_differences cur prev (keccak_powers_of_randomness r))) @
         map (\<lambda>(k, cur_limb, prev_limb). selector * is_first_different k * (difference - cur_limb + prev_limb))
           (enumerate 0 (zip (be_limbs cur) (be_limbs prev))))"

definition ordering_lookups :: "(int \<Rightarrow> 'f StateRow) \<Rightarrow> int \<Rightarrow> 'f lookup list" where
  "ordering_lookups rows i = range_check_u16 (st_limb_difference (rows i))"

fun be_bytes_to_limbs :: "u8 list \<Rightarrow> nat list" where
  "be_bytes_to_limbs (hi # lo # bytes) = (256 * unat hi + unat lo) # be_bytes_to_limbs bytes"
| "be_bytes_to_limbs _ = []"

definition rw_to_be_limbs :: "Rw \<Rightarrow> nat list" where
  "rw_to_be_limbs row = be_bytes_to_limbs
     ([0, of_nat (target_usize (rw_tag row))] @
      be_bytes 4 (unat (of_nat (unwrap_or 0 (rw_id row)) :: u32)) @
      be_bytes 20 (unat (unwrap_or 0 (rw_address row))) @
      [0, of_nat (unwrap_or 0 (rw_field_tag row))] @
      be_bytes 32 (unat (unwrap_or 0 (rw_storage_key row))) @
      be_bytes 4 (unat (of_nat (rw_counter row) :: u32)))"

text \<open>
  The assignment of a row that is not the first: the index of the first limb that differs, and the cells. The build is not a
  test build, in which two equal rows get a default index.
\<close>

definition ordering_assign :: "Rw \<Rightarrow> Rw \<Rightarrow> (LimbIndex \<times> 'f :: field list \<times> 'f \<times> 'f, 'e) result" where
  "ordering_assign cur prev =
     (let cur_be_limbs = rw_to_be_limbs cur; prev_be_limbs = rw_to_be_limbs prev
      in case find (\<lambda>(_, a, b). a \<noteq> b) (enumerate 0 (zip cur_be_limbs prev_be_limbs)) of
           None \<Rightarrow> Inl (Panic ''repeated rw counter'')
         | Some (index, cur_limb, prev_limb) \<Rightarrow>
             let limb_difference = of_nat cur_limb - of_nat prev_limb
             in if limb_difference = 0 then Inl (Panic ''called `Option::unwrap()` on a `None` value'')
                else Inr (index, binary_number_assign 5 index, limb_difference, inverse limb_difference))"

section \<open>Queries\<close>

record 'f RwTableQueries =
  rq_rw_counter :: 'f
  rq_prev_rw_counter :: 'f
  rq_is_write :: 'f
  rq_tag :: 'f
  rq_id :: 'f
  rq_prev_id :: 'f
  rq_address :: 'f
  rq_prev_address :: 'f
  rq_field_tag :: 'f
  rq_storage_key :: "'f \<times> 'f"
  rq_value :: "'f \<times> 'f"
  rq_value_prev :: "'f \<times> 'f"
  rq_value_prev_column :: "'f \<times> 'f"

record 'f Queries =
  q_selector :: 'f
  q_rw_table :: "'f RwTableQueries"
  q_lexicographic_ordering_selector :: 'f
  q_tag_bits :: "'f list"
  q_is_tag_and_id_unchanged :: 'f
  q_address_limbs :: "'f list"
  q_initial_value :: "'f \<times> 'f"
  q_initial_value_prev :: "'f \<times> 'f"
  q_is_non_exist :: 'f
  q_mpt_proof_type :: 'f
  q_first_different_limb :: "'f list"
  q_not_first_access :: 'f
  q_last_access :: 'f
  q_state_root :: "'f \<times> 'f"
  q_state_root_prev :: "'f \<times> 'f"

text \<open>The limbs that no constraint uses are left out of the queries.\<close>

definition queries :: "(int \<Rightarrow> 'f :: field StateRow) \<Rightarrow> int \<Rightarrow> 'f Queries" where
  "queries rows i =
     (let cur = rows i; prev = rows (i - 1); bits = st_first_different_limb cur; final_bits_sum = bits ! 3 + bits ! 4
      in \<lparr>q_selector = st_selector cur,
          q_rw_table = \<lparr>rq_rw_counter = rr_rw_counter (st_rw cur), rq_prev_rw_counter = rr_rw_counter (st_rw prev),
            rq_is_write = rr_is_write (st_rw cur), rq_tag = rr_tag (st_rw cur), rq_id = rr_id (st_rw cur), rq_prev_id = rr_id (st_rw prev),
            rq_address = rr_address (st_rw cur), rq_prev_address = rr_address (st_rw prev), rq_field_tag = rr_field_tag (st_rw cur),
            rq_storage_key = rr_storage_key (st_rw cur), rq_value = rr_value (st_rw cur), rq_value_prev = rr_value (st_rw prev),
            rq_value_prev_column = rr_value_prev (st_rw cur)\<rparr>,
          q_lexicographic_ordering_selector = st_ordering_selector cur,
          q_tag_bits = st_tag_bits cur,
          q_is_tag_and_id_unchanged = 4 * (bits ! 0 + bits ! 1 + bits ! 2) + final_bits_sum * (1 - final_bits_sum),
          q_address_limbs = st_address_limbs cur,
          q_initial_value = st_initial_value cur, q_initial_value_prev = st_initial_value prev,
          q_is_non_exist = st_is_zero cur, q_mpt_proof_type = st_mpt_proof_type cur,
          q_first_different_limb = map (\<lambda>idx. bits ! idx) [0, 1, 2, 3],
          q_not_first_access = st_not_first_access cur, q_last_access = 1 - st_not_first_access (rows (i + 1)),
          q_state_root = st_state_root cur, q_state_root_prev = st_state_root prev\<rparr>)"

definition q_is_write :: "'f Queries \<Rightarrow> 'f" where "q_is_write q = rq_is_write (q_rw_table q)"
definition q_is_read :: "'f :: field Queries \<Rightarrow> 'f" where "q_is_read q = not_expr (q_is_write q)"
definition q_id :: "'f Queries \<Rightarrow> 'f" where "q_id q = rq_id (q_rw_table q)"
definition q_field_tag :: "'f Queries \<Rightarrow> 'f" where "q_field_tag q = rq_field_tag (q_rw_table q)"
definition q_value :: "'f Queries \<Rightarrow> 'f \<times> 'f" where "q_value q = rq_value (q_rw_table q)"
definition q_value_prev_column :: "'f Queries \<Rightarrow> 'f \<times> 'f" where "q_value_prev_column q = rq_value_prev_column (q_rw_table q)"
definition q_first_access :: "'f :: field Queries \<Rightarrow> 'f" where "q_first_access q = not_expr (q_not_first_access q)"

definition tag_matches :: "'f :: field Queries \<Rightarrow> Target \<Rightarrow> 'f" where
  "tag_matches q tag = value_equals_expr 4 (target_usize tag) (q_tag_bits q)"

definition address_change :: "'f :: field Queries \<Rightarrow> 'f" where
  "address_change q = rq_address (q_rw_table q) - rq_prev_address (q_rw_table q)"

definition rw_counter_change :: "'f :: field Queries \<Rightarrow> 'f" where
  "rw_counter_change q = rq_rw_counter (q_rw_table q) - rq_prev_rw_counter (q_rw_table q)"

section \<open>Constraints by tag\<close>

text \<open>
  The builder collects constraints and lookups. \<open>condition\<close> multiplies both by a factor, on top of the conditions around it.
\<close>

type_synonym 'f built = "'f list \<times> 'f lookup list"

definition constrain :: "'f list \<Rightarrow> 'f built" where
  "constrain cs = (cs, [])"

definition add_lookup :: "LookupTag \<Rightarrow> 'f list \<Rightarrow> 'f built" where
  "add_lookup t vals = ([], [(t, vals)])"

definition built_all :: "'f built list \<Rightarrow> 'f built" where
  "built_all bs = (concat (map fst bs), concat (map snd bs))"

definition built_condition :: "'f :: field \<Rightarrow> 'f built list \<Rightarrow> 'f built" where
  "built_condition c bs = (map (\<lambda>e. c * e) (fst (built_all bs)), map (\<lambda>(t, vals). (t, map (\<lambda>e. e * c) vals)) (snd (built_all bs)))"

definition require_word_zero :: "'f :: field \<times> 'f \<Rightarrow> 'f list" where
  "require_word_zero e = [snd e, fst e]"

definition require_word_equal :: "'f :: field \<times> 'f \<Rightarrow> 'f \<times> 'f \<Rightarrow> 'f list" where
  "require_word_equal l r = [snd l - snd r, fst l - fst r]"

definition require_word_boolean :: "'f :: field \<times> 'f \<Rightarrow> 'f list" where
  "require_word_boolean e = [snd e, fst e * (1 - fst e)]"

definition build_general_constraints :: "'f :: field Queries \<Rightarrow> 'f built" where
  "build_general_constraints q = built_all
     [constrain (require_boolean (q_is_write q)),
      constrain (require_equal (q_not_first_access q)
        (q_first_different_limb q ! 0 * q_first_different_limb q ! 1 * q_first_different_limb q ! 2 * q_first_different_limb q ! 3)),
      built_condition (q_first_access q)
        [constrain (require_zero (q_is_read q * (snd (q_value q) - snd (q_initial_value q)))),
         constrain (require_zero (q_is_read q * (fst (q_value q) - fst (q_initial_value q)))),
         constrain (require_word_equal (q_value_prev_column q) (q_initial_value q))],
      built_condition (q_not_first_access q)
        [constrain (require_zero (q_is_read q * (snd (q_value q) - snd (rq_value_prev (q_rw_table q))))),
         constrain (require_zero (q_is_read q * (fst (q_value q) - fst (rq_value_prev (q_rw_table q))))),
         constrain (require_zero (snd (q_initial_value q) - snd (q_initial_value_prev q))),
         constrain (require_zero (fst (q_initial_value q) - fst (q_initial_value_prev q)))]]"

definition build_start_constraints :: "'f :: field Queries \<Rightarrow> 'f built list" where
  "build_start_constraints q =
     [constrain (require_zero (q_field_tag q)),
      constrain (require_zero (rq_address (q_rw_table q))),
      constrain (require_zero (q_id q)),
      constrain (require_word_zero (rq_storage_key (q_rw_table q))),
      constrain (require_zero (q_lexicographic_ordering_selector q * (rw_counter_change q - 1))),
      constrain (require_word_zero (q_value q)),
      constrain (require_word_zero (q_initial_value q)),
      built_condition (q_lexicographic_ordering_selector q)
        [constrain (require_word_equal (q_state_root q) (q_state_root_prev q))],
      constrain (require_word_zero (q_value_prev_column q))]"

definition build_memory_constraints :: "'f :: field Queries \<Rightarrow> 'f built list" where
  "build_memory_constraints q =
     [constrain (require_zero (q_field_tag q)),
      constrain (require_word_zero (rq_storage_key (q_rw_table q))),
      built_condition (q_first_access q * q_is_read q) [constrain (require_word_zero (q_value q))]] @
     map (\<lambda>limb. constrain (require_zero limb)) (drop 2 (q_address_limbs q)) @
     [add_lookup U8_Table [fst (q_value q)],
      constrain (require_zero (snd (q_value q))),
      constrain (require_word_zero (q_initial_value q)),
      constrain (require_word_equal (q_state_root q) (q_state_root_prev q)),
      constrain (require_word_equal (q_value_prev_column q) (q_initial_value q))]"

definition build_stack_constraints :: "'f :: field Queries \<Rightarrow> 'f built list" where
  "build_stack_constraints q =
     [constrain (require_zero (q_field_tag q)),
      constrain (require_word_zero (rq_storage_key (q_rw_table q))),
      constrain (require_zero (q_first_access q * (1 - q_is_write q))),
      add_lookup U10_Table [rq_address (q_rw_table q)],
      built_condition (q_is_tag_and_id_unchanged q) [constrain (require_boolean (address_change q))],
      constrain (require_word_zero (q_initial_value q)),
      constrain (require_word_equal (q_state_root q) (q_state_root_prev q)),
      constrain (require_word_equal (q_value_prev_column q) (q_initial_value q))]"

text \<open>The numbers of \<open>MPTProofType\<close>, and the lookup of the last access to a key.\<close>

datatype MPTProofType =
    MPT_Disabled | NonceChanged | BalanceChanged | CodeHashChanged | AccountDestructed | AccountDoesNotExist
  | StorageChanged | StorageDoesNotExist

definition mpt_proof_type_u64 :: "MPTProofType \<Rightarrow> nat" where
  "mpt_proof_type_u64 t = (case t of
      MPT_Disabled \<Rightarrow> 0 | NonceChanged \<Rightarrow> 1 | BalanceChanged \<Rightarrow> 2 | CodeHashChanged \<Rightarrow> 3 | AccountDestructed \<Rightarrow> 4
    | AccountDoesNotExist \<Rightarrow> 5 | StorageChanged \<Rightarrow> 6 | StorageDoesNotExist \<Rightarrow> 7)"

definition mpt_lookup :: "'f Queries \<Rightarrow> 'f built" where
  "mpt_lookup q = add_lookup Mpt_Table
     [rq_address (q_rw_table q), fst (rq_storage_key (q_rw_table q)), snd (rq_storage_key (q_rw_table q)), q_mpt_proof_type q,
      fst (q_state_root q), snd (q_state_root q), fst (q_state_root_prev q), snd (q_state_root_prev q),
      fst (q_value q), snd (q_value q), fst (q_initial_value q), snd (q_initial_value q)]"

definition value_prev_constraint :: "'f :: field Queries \<Rightarrow> 'f built" where
  "value_prev_constraint q = built_condition (q_not_first_access q)
     [constrain (require_word_equal (rq_value_prev (q_rw_table q)) (q_value_prev_column q))]"

definition build_account_storage_constraints :: "'f :: field Queries \<Rightarrow> 'f built list" where
  "build_account_storage_constraints q =
     [constrain (require_zero (q_field_tag q)),
      constrain (require_equal (q_mpt_proof_type q)
        (q_is_non_exist q * of_nat (mpt_proof_type_u64 StorageDoesNotExist) +
         (1 - q_is_non_exist q) * of_nat (mpt_proof_type_u64 StorageChanged))),
      built_condition (q_last_access q) [mpt_lookup q],
      value_prev_constraint q]"

definition build_tx_access_list_account_constraints :: "'f :: field Queries \<Rightarrow> 'f built list" where
  "build_tx_access_list_account_constraints q =
     [constrain (require_zero (q_field_tag q)),
      constrain (require_word_zero (rq_storage_key (q_rw_table q))),
      constrain (require_word_boolean (q_value q)),
      constrain (require_word_zero (q_initial_value q)),
      constrain (require_word_equal (q_state_root q) (q_state_root_prev q)),
      value_prev_constraint q]"

definition build_tx_access_list_account_storage_constraints :: "'f :: field Queries \<Rightarrow> 'f built list" where
  "build_tx_access_list_account_storage_constraints q =
     [constrain (require_zero (q_field_tag q)),
      constrain (require_word_boolean (q_value q)),
      constrain (require_word_zero (q_initial_value q)),
      constrain (require_word_equal (q_state_root q) (q_state_root_prev q)),
      value_prev_constraint q]"

definition build_tx_refund_constraints :: "'f :: field Queries \<Rightarrow> 'f built list" where
  "build_tx_refund_constraints q =
     [constrain (require_zero (rq_address (q_rw_table q))),
      constrain (require_zero (q_field_tag q)),
      constrain (require_word_zero (rq_storage_key (q_rw_table q))),
      constrain (require_word_equal (q_state_root q) (q_state_root_prev q)),
      value_prev_constraint q,
      constrain (require_word_zero (q_initial_value q))]"

definition generate_lagrange_base_polynomial :: "'f :: field \<Rightarrow> nat \<Rightarrow> nat list \<Rightarrow> 'f" where
  "generate_lagrange_base_polynomial e val points =
     (let (numerator, denominator) = foldl (\<lambda>(num, den) x. if x \<noteq> val then (num * (e - of_nat x), den * (of_nat val - of_nat x)) else (num, den))
            (1, 1) points
      in numerator * inverse denominator)"

definition account_field_tags :: "nat list" where
  "account_field_tags = map account_field_tag_u64 [AFT_Nonce, AFT_Balance, AFT_CodeHash, AFT_NonExisting]"

definition build_account_constraints :: "'f :: field Queries \<Rightarrow> 'f built list" where
  "build_account_constraints q =
     (let is_non_exist = q_is_non_exist q * generate_lagrange_base_polynomial (q_field_tag q) (account_field_tag_u64 AFT_CodeHash)
            (map account_field_tag_u64 [AFT_Nonce, AFT_Balance, AFT_CodeHash])
      in [constrain (require_zero (q_id q)),
          constrain (require_word_zero (rq_storage_key (q_rw_table q))),
          constrain (require_in_set (q_field_tag q) (map of_nat account_field_tags)),
          constrain (require_equal (q_mpt_proof_type q)
            (is_non_exist * of_nat (mpt_proof_type_u64 AccountDoesNotExist) + (1 - is_non_exist) * q_field_tag q)),
          built_condition (q_last_access q) [mpt_lookup q],
          value_prev_constraint q])"

definition build_call_context_constraints :: "'f :: field Queries \<Rightarrow> 'f built list" where
  "build_call_context_constraints q =
     [constrain (require_zero (rq_address (q_rw_table q))),
      constrain (require_word_zero (rq_storage_key (q_rw_table q))),
      add_lookup CallContextFieldTags [q_field_tag q],
      constrain (require_word_zero (q_initial_value q)),
      constrain (require_word_equal (q_state_root q) (q_state_root_prev q)),
      constrain (require_word_zero (q_value_prev_column q))]"

definition build_tx_log_constraints :: "'f :: field Queries \<Rightarrow> 'f built list" where
  "build_tx_log_constraints q =
     [constrain (require_equal (q_is_write q) 1),
      constrain (require_word_zero (q_initial_value q)),
      constrain (require_word_equal (q_state_root q) (q_state_root_prev q)),
      constrain (require_word_equal (q_value_prev_column q) (q_initial_value q))]"

definition build :: "'f :: field Queries \<Rightarrow> 'f built" where
  "build q = built_all
     [build_general_constraints q,
      built_condition (tag_matches q TStart) (build_start_constraints q),
      built_condition (tag_matches q TMemory) (build_memory_constraints q),
      built_condition (tag_matches q TStack) (build_stack_constraints q),
      built_condition (tag_matches q TStorage) (build_account_storage_constraints q),
      built_condition (tag_matches q TTxAccessListAccount) (build_tx_access_list_account_constraints q),
      built_condition (tag_matches q TTxAccessListAccountStorage) (build_tx_access_list_account_storage_constraints q),
      built_condition (tag_matches q TTxRefund) (build_tx_refund_constraints q),
      built_condition (tag_matches q TAccount) (build_account_constraints q),
      built_condition (tag_matches q TCallContext) (build_call_context_constraints q),
      built_condition (tag_matches q TTxLog) (build_tx_log_constraints q)]"

section \<open>The circuit\<close>

definition state_gates :: "'f :: field \<Rightarrow> (int \<Rightarrow> 'f StateRow) \<Rightarrow> int \<Rightarrow> 'f list" where
  "state_gates r rows i =
     (let row = rows i; rw = st_rw row; selector = st_selector row
      in mpi_gates selector [rr_rw_counter rw] (st_rw_counter_limbs row) @
         binary_number_gates 4 (map target_usize all_targets) selector (st_tag_bits row) (Some (rr_tag rw)) @
         mpi_gates selector [rr_id rw] (st_id_limbs row) @
         mpi_gates selector [rr_address rw] (st_address_limbs row) @
         mpi_gates selector [fst (rr_storage_key rw), snd (rr_storage_key rw)] (st_storage_key_limbs row) @
         batched_is_zero_gates selector (st_is_zero row) (st_nonempty_witness row)
           [fst (st_initial_value row), snd (st_initial_value row), fst (rr_value rw), snd (rr_value rw)] @
         ordering_gates r rows i @
         cb_gate selector (fst (build (queries rows i))))"

definition state_lookups :: "(int \<Rightarrow> 'f :: field StateRow) \<Rightarrow> int \<Rightarrow> 'f lookup list" where
  "state_lookups rows i =
     mpi_lookups (st_rw_counter_limbs (rows i)) @ mpi_lookups (st_id_limbs (rows i)) @ mpi_lookups (st_address_limbs (rows i)) @
     mpi_lookups (st_storage_key_limbs (rows i)) @ ordering_lookups rows i @ snd (build (queries rows i))"

end
