(* ===== verification/State_Order.thy ===== *)
theory State_Order
  imports State_Circuit
begin

text \<open>
  The order of the rows of the state circuit. The sort key of a row is the number made of its 32 limbs; the gates of
  \<^verbatim>\<open>lexicographic_ordering.rs\<close> make it grow from row to row, unless the challenge \<open>r\<close> is one of a few bad values.
\<close>

section \<open>Roots of linear combinations\<close>

fun rlc_eval :: "'f :: field list \<Rightarrow> 'f \<Rightarrow> 'f" where
  "rlc_eval [] r = 0"
| "rlc_eval (c # cs) r = c + r * rlc_eval cs r"

fun rlc_quotient :: "'f :: field list \<Rightarrow> 'f \<Rightarrow> 'f list" where
  "rlc_quotient [] z = []"
| "rlc_quotient [c] z = []"
| "rlc_quotient (c # d # cs) z = rlc_eval (d # cs) z # rlc_quotient (d # cs) z"

lemma rlc_quotient_eval: "rlc_eval cs w - rlc_eval cs z = (w - z) * rlc_eval (rlc_quotient cs z) w"
proof (induction cs z rule: rlc_quotient.induct)
  case (3 c d cs z)
  let ?E = "rlc_eval (d # cs)" and ?q = "rlc_eval (rlc_quotient (d # cs) z) w"
  have "rlc_eval (c # d # cs) w - rlc_eval (c # d # cs) z = w * (?E w - ?E z) + (w - z) * ?E z"
    by (simp only: rlc_eval.simps) (simp add: algebra_simps)
  also have "\<dots> = (w - z) * (?E z + w * ?q)" unfolding 3 by (simp add: algebra_simps)
  finally show ?case by (simp only: rlc_quotient.simps rlc_eval.simps)
qed simp_all

lemma rlc_quotient_zero:
  assumes "set (rlc_quotient cs z) \<subseteq> {0}" and "rlc_eval cs z = 0"
  shows "set cs \<subseteq> {0}"
  using assms by (induction cs z rule: rlc_quotient.induct) auto

lemma rlc_roots:
  assumes "\<not> set cs \<subseteq> {0}"
  shows "finite {r. rlc_eval cs r = 0} \<and> card {r. rlc_eval cs r = 0} \<le> length cs - 1"
  using assms
proof (induction "length cs" arbitrary: cs)
  case (Suc n)
  show ?case
  proof (cases "\<exists>z. rlc_eval cs z = 0")
    case True
    then obtain z where z: "rlc_eval cs z = 0" by blast
    let ?qs = "rlc_quotient cs z"
    have len: "length ?qs = length cs - 1" by (induction cs z rule: rlc_quotient.induct) auto
    have q: "\<not> set ?qs \<subseteq> {0}" using rlc_quotient_zero z Suc.prems by blast
    then have "?qs \<noteq> []" by auto
    have "rlc_eval cs r = (r - z) * rlc_eval ?qs r" for r using rlc_quotient_eval [of cs r z] z by simp
    then have eq: "{r. rlc_eval cs r = 0} = insert z {r. rlc_eval ?qs r = 0}" by auto
    have "finite {r. rlc_eval ?qs r = 0} \<and> card {r. rlc_eval ?qs r = 0} \<le> length ?qs - 1"
      using Suc.hyps(1) [of ?qs] q len Suc.hyps(2) by simp
    moreover have "0 < length ?qs" using \<open>?qs \<noteq> []\<close> by simp
    ultimately show ?thesis unfolding eq using len card_insert_le_m1 [of "length ?qs" "{r. rlc_eval ?qs r = 0}" z] by simp
  qed auto
qed simp

lemma rlc_eval_sum: "rlc_eval cs r = (\<Sum>j < length cs. r ^ j * cs ! j)"
  by (induction cs) (simp_all add: sum.lessThan_Suc_shift sum_distrib_left mult.assoc del: sum.lessThan_Suc)

text \<open>The challenge separates two lists of limbs: a prefix whose combination agrees is the same in both.\<close>

definition separates :: "'f :: field \<Rightarrow> 'f list \<Rightarrow> 'f list \<Rightarrow> bool" where
  "separates r xs ys \<longleftrightarrow> (\<forall>k \<le> length xs. (\<Sum>j < k. r ^ j * (xs ! j - ys ! j)) = 0 \<longrightarrow> (\<forall>j < k. xs ! j = ys ! j))"

lemma few_bad_challenges:
  assumes "length xs = length ys"
  shows "finite {r. \<not> separates r xs ys} \<and> card {r. \<not> separates r xs ys} \<le> (\<Sum>k \<le> length xs. k - 1)"
proof -
  let ?d = "\<lambda>k. map (\<lambda>j. xs ! j - ys ! j) [0..<k]"
  let ?bad = "\<lambda>k. if set (?d k) \<subseteq> {0} then {} else {r. rlc_eval (?d k) r = 0}"
  have e: "rlc_eval (?d k) r = (\<Sum>j < k. r ^ j * (xs ! j - ys ! j))" for k r by (simp add: rlc_eval_sum)
  have sub: "{r. \<not> separates r xs ys} \<subseteq> (\<Union>k \<le> length xs. ?bad k)"
  proof
    fix r assume "r \<in> {r. \<not> separates r xs ys}"
    then obtain k j where "k \<le> length xs" "rlc_eval (?d k) r = 0" "j < k" "xs ! j \<noteq> ys ! j" by (auto simp: separates_def e)
    moreover from this have "xs ! j - ys ! j \<in> set (?d k)" "xs ! j - ys ! j \<noteq> 0" by auto
    then have "\<not> set (?d k) \<subseteq> {0}" by blast
    ultimately show "r \<in> (\<Union>k \<le> length xs. ?bad k)" by (intro UN_I [of k]) simp_all
  qed
  have one: "finite (?bad k) \<and> card (?bad k) \<le> k - 1" for k using rlc_roots [of "?d k"] by simp
  then have fin: "finite (\<Union>k \<le> length xs. ?bad k)" by blast
  have "card {r. \<not> separates r xs ys} \<le> card (\<Union>k \<le> length xs. ?bad k)" by (rule card_mono [OF fin sub])
  also have "\<dots> \<le> (\<Sum>k \<le> length xs. card (?bad k))" by (rule card_UN_le) simp
  also have "\<dots> \<le> (\<Sum>k \<le> length xs. k - 1)" using one by (intro sum_mono) blast
  finally show ?thesis using finite_subset [OF sub fin] by blast
qed

section \<open>Limbs as a number\<close>

definition limbs_value :: "nat list \<Rightarrow> nat" where
  "limbs_value limbs = foldl (\<lambda>acc limb. acc * 2 ^ 16 + limb) 0 limbs"

lemma foldl_base: "foldl (\<lambda>acc d. acc * B + d) a ds = a * B ^ length ds + foldl (\<lambda>acc d. acc * B + d) (0 :: nat) ds"
proof (induction ds arbitrary: a)
  case (Cons d ds)
  show ?case using Cons [of "a * B + d"] Cons [of d] by (simp add: algebra_simps)
qed simp

lemma limbs_value_append: "limbs_value (xs @ ys) = limbs_value xs * (2 ^ 16) ^ length ys + limbs_value ys"
  unfolding limbs_value_def foldl_append by (rule foldl_base)

lemma limbs_value_Cons: "limbs_value (x # xs) = x * (2 ^ 16) ^ length xs + limbs_value xs"
  using limbs_value_append [of "[x]" xs] by (simp add: limbs_value_def)

lemma limbs_value_simps [simp]: "limbs_value [] = 0" "limbs_value [x] = x"
  by (simp_all add: limbs_value_def)

lemma limbs_value_bound: "\<forall>x \<in> set xs. x < 2 ^ 16 \<Longrightarrow> limbs_value xs < (2 ^ 16) ^ length xs"
proof (induction xs rule: rev_induct)
  case (snoc x xs)
  then have "limbs_value xs + 1 \<le> (2 ^ 16) ^ length xs" "x < 2 ^ 16" by auto
  then have "(limbs_value xs + 1) * 2 ^ 16 \<le> (2 ^ 16) ^ length xs * 2 ^ 16" by (intro mult_right_mono) simp_all
  then show ?case using \<open>x < 2 ^ 16\<close> by (simp add: limbs_value_append algebra_simps)
qed simp

lemma limbs_value_less:
  assumes len: "length xs = length ys" and k: "k < length xs" and pre: "\<forall>j < k. xs ! j = ys ! j" and lt: "xs ! k < ys ! k"
    and range: "\<forall>x \<in> set xs. x < 2 ^ 16"
  shows "limbs_value xs < limbs_value ys"
proof -
  let ?B = "(2 ^ 16) ^ length (drop (Suc k) xs) :: nat"
  have xs: "xs = take k xs @ [xs ! k] @ drop (Suc k) xs" and ys: "ys = take k xs @ [ys ! k] @ drop (Suc k) ys"
  proof -
    show "xs = take k xs @ [xs ! k] @ drop (Suc k) xs" using id_take_nth_drop [OF k] by simp
    have "take k xs = take k ys" using pre k len by (intro nth_equalityI) auto
    then show "ys = take k xs @ [ys ! k] @ drop (Suc k) ys" using id_take_nth_drop [of k ys] k len by simp
  qed
  have tail: "limbs_value (drop (Suc k) xs) < ?B" using range by (intro limbs_value_bound) (meson in_set_dropD)
  have "limbs_value xs = (limbs_value (take k xs) * 2 ^ 16 + xs ! k) * ?B + limbs_value (drop (Suc k) xs)"
    by (subst xs) (simp add: limbs_value_append limbs_value_Cons distrib_right mult.assoc)
  also have "\<dots> < (limbs_value (take k xs) * 2 ^ 16 + xs ! k + 1) * ?B" using tail by (simp add: algebra_simps)
  also have "\<dots> \<le> (limbs_value (take k xs) * 2 ^ 16 + ys ! k) * ?B" using lt by (intro mult_right_mono) simp_all
  also have "\<dots> \<le> limbs_value ys"
    using len by (subst (2) ys) (simp add: limbs_value_append limbs_value_Cons distrib_right mult.assoc)
  finally show ?thesis .
qed

section \<open>The gates of the order\<close>

text \<open>The arrays of a row have the lengths of their types.\<close>

definition state_row_wf :: "'f StateRow \<Rightarrow> bool" where
  "state_row_wf row \<longleftrightarrow> length (st_tag_bits row) = 4 \<and> length (st_id_limbs row) = N_LIMBS_ID \<and>
     length (st_address_limbs row) = N_LIMBS_ACCOUNT_ADDRESS \<and> length (st_storage_key_limbs row) = N_LIMBS_WORD \<and>
     length (st_rw_counter_limbs row) = N_LIMBS_RW_COUNTER \<and> length (st_first_different_limb row) = 5"

lemmas n_limbs_defs = N_LIMBS_RW_COUNTER_def N_LIMBS_ACCOUNT_ADDRESS_def N_LIMBS_ID_def N_LIMBS_WORD_def N_LIMB_INDEX_def

lemma length_be_limbs: "state_row_wf row \<Longrightarrow> length (be_limbs row) = 32"
  by (simp add: state_row_wf_def be_limbs_def n_limbs_defs)

lemma nth_rlc_partial_sums:
  assumes "k < length xs" and "length xs = length ys" and "length xs \<le> length ws"
  shows "rlc_partial_sums s xs ys ws ! k = s + (\<Sum>j < k. ws ! j * (xs ! j - ys ! j))"
  using assms
proof (induction s xs ys ws arbitrary: k rule: rlc_partial_sums.induct)
  case (1 s x xs y ys w ws)
  then show ?case by (cases k) (simp_all add: sum.lessThan_Suc_shift add.assoc del: sum.lessThan_Suc)
qed auto

lemma length_rlc_partial_sums:
  "length xs = length ys \<Longrightarrow> length xs \<le> length ws \<Longrightarrow> length (rlc_partial_sums s xs ys ws) = length xs"
  by (induction s xs ys ws rule: rlc_partial_sums.induct) auto

lemma nth_powers: "k < 32 \<Longrightarrow> (1 # keccak_powers_of_randomness r) ! k = r ^ k"
  by (cases k) (simp_all add: keccak_powers_of_randomness_def)

lemma rlc_limb_differences_nth:
  assumes "state_row_wf cur" and "state_row_wf prev" and "k < 32"
  shows "rlc_limb_differences cur prev (keccak_powers_of_randomness r) ! k = (\<Sum>j < k. r ^ j * (be_limbs cur ! j - be_limbs prev ! j))"
    and "length (rlc_limb_differences cur prev (keccak_powers_of_randomness r)) = 32"
proof -
  have len: "length (1 # keccak_powers_of_randomness r) = 32" by (simp add: keccak_powers_of_randomness_def)
  show "length (rlc_limb_differences cur prev (keccak_powers_of_randomness r)) = 32"
    unfolding rlc_limb_differences_def using length_be_limbs [OF assms(1)] length_be_limbs [OF assms(2)] len
    by (subst length_rlc_partial_sums) simp_all
  have "rlc_limb_differences cur prev (keccak_powers_of_randomness r) ! k =
      (\<Sum>j < k. (1 # keccak_powers_of_randomness r) ! j * (be_limbs cur ! j - be_limbs prev ! j))"
    unfolding rlc_limb_differences_def using length_be_limbs [OF assms(1)] length_be_limbs [OF assms(2)] len assms(3)
    by (subst nth_rlc_partial_sums) simp_all
  then show "rlc_limb_differences cur prev (keccak_powers_of_randomness r) ! k = (\<Sum>j < k. r ^ j * (be_limbs cur ! j - be_limbs prev ! j))"
    using assms(3) by (simp add: nth_powers cong: sum.cong_simp)
qed

lemma satisfied_enumerate:
  "satisfied (map (\<lambda>(k, e). f k e) (enumerate 0 es)) \<longleftrightarrow> (\<forall>k < length es. f k (es ! k) = 0)"
  by (auto simp: satisfied_def list_all_length nth_enumerate_eq)

lemma value_equals_index:
  assumes "t < 32" and "k < 32"
  shows "value_equals_expr 5 k (binary_number_assign 5 t) = of_bool (k = t)"
proof -
  have "from_bits (as_bits 5 k) = k" "from_bits (as_bits 5 t) = t" using assms by simp_all
  then have "as_bits 5 k = as_bits 5 t \<longleftrightarrow> k = t" by metis
  then show ?thesis by (simp add: binary_number_assign_def value_equals_of_bool)
qed

text \<open>What the gates say: the limb \<open>t\<close> is marked, the combination of those before it vanishes, and it differs by the difference.\<close>

lemma ordering_gates_iff:
  assumes wf: "state_row_wf (rows i)" "state_row_wf (rows (i - 1))" and sel: "st_ordering_selector (rows i) \<noteq> 0"
  shows "satisfied (ordering_gates r rows i) \<longleftrightarrow> (\<exists>t < 32. st_first_different_limb (rows i) = binary_number_assign 5 t \<and>
     st_limb_difference (rows i) * st_limb_difference_inverse (rows i) = 1 \<and>
     (\<Sum>j < t. r ^ j * (be_limbs (rows i) ! j - be_limbs (rows (i - 1)) ! j)) = 0 \<and>
     st_limb_difference (rows i) = be_limbs (rows i) ! t - be_limbs (rows (i - 1)) ! t)" (is "?l \<longleftrightarrow> ?r")
proof -
  let ?bits = "st_first_different_limb (rows i)" and ?s = "st_ordering_selector (rows i)"
  let ?cur = "be_limbs (rows i)" and ?prev = "be_limbs (rows (i - 1))" and ?d = "st_limb_difference (rows i)"
  have len: "length ?cur = 32" "length ?prev = 32" using wf by (simp_all add: length_be_limbs)
  note rlc = rlc_limb_differences_nth [OF wf]
  have gates: "?l \<longleftrightarrow> satisfied (binary_number_gates 5 [0..<32] ?s ?bits None) \<and> ?d * st_limb_difference_inverse (rows i) = 1 \<and>
      (\<forall>k < 32. value_equals_expr 5 k ?bits * (\<Sum>j < k. r ^ j * (?cur ! j - ?prev ! j)) = 0) \<and>
      (\<forall>k < 32. value_equals_expr 5 k ?bits * (?d - ?cur ! k + ?prev ! k) = 0)"
    unfolding ordering_gates_def Let_def satisfied_simps satisfied_enumerate
    using sel rlc(2) [of 0] len rlc(1)
    by (auto simp: N_LIMB_INDEX_def satisfied_map satisfied_def list_all_length nth_enumerate_eq)
  have at: "(\<forall>k < 32. value_equals_expr 5 k ?bits * f k = 0) \<longleftrightarrow> f t = 0" if "t < 32" "?bits = binary_number_assign 5 t" for f t
    unfolding that(2) using that(1) by (auto simp: value_equals_index)
  show ?thesis
  proof
    assume ?l
    then have "satisfied (binary_number_gates 5 [0..<32] ?s ?bits None)" by (simp only: gates)
    from binary_number_sound [OF sel _ this] wf obtain t where t: "t < 32" "?bits = binary_number_assign 5 t"
      by (auto simp: state_row_wf_def)
    with \<open>?l\<close> show ?r unfolding gates at [OF t] by (intro exI [of _ t]) (auto simp: algebra_simps)
  next
    assume ?r
    then obtain t where t: "t < 32" "?bits = binary_number_assign 5 t"
      "?d * st_limb_difference_inverse (rows i) = 1" "(\<Sum>j < t. r ^ j * (?cur ! j - ?prev ! j)) = 0" "?d = ?cur ! t - ?prev ! t" by blast
    have "satisfied (binary_number_gates 5 [0..<32] ?s ?bits None)"
      using binary_number_complete [of t "[0..<32]" 5 ?s] t(1,2) by (simp add: binary_number_gates_def)
    then show ?l unfolding gates at [OF t(1,2)] using t(3-5) by simp
  qed
qed

lemma ux_table_fits:
  assumes "canonical repr" and "[v] \<in> set (ux_table k)" and "k \<le> 253"
  shows "fits repr k v"
  using assms fits_of_nat [OF assms(1) _ assms(3)] by (auto simp: ux_table_def)

text \<open>The step between two rows, whatever the range of their limbs: the first limb that differs grows by a difference below \<open>2 ^ 16\<close>.\<close>

lemma first_difference:
  fixes rows :: "int \<Rightarrow> 'f :: field StateRow"
  assumes can: "canonical (repr :: 'f \<Rightarrow> nat)" and wf: "state_row_wf (rows i)" "state_row_wf (rows (i - 1))"
    and sel: "st_ordering_selector (rows i) \<noteq> 0" and gates: "satisfied (ordering_gates r rows i)"
    and look: "lookups_hold mpt (ordering_lookups rows i)"
    and sep: "separates r (be_limbs (rows i)) (be_limbs (rows (i - 1)))"
  obtains t d where "t < 32" and "st_first_different_limb (rows i) = binary_number_assign 5 t"
    and "\<forall>j < t. be_limbs (rows i) ! j = be_limbs (rows (i - 1)) ! j"
    and "be_limbs (rows i) ! t = be_limbs (rows (i - 1)) ! t + of_nat d" and "0 < d" and "d < 2 ^ 16"
proof -
  let ?cur = "be_limbs (rows i)" and ?prev = "be_limbs (rows (i - 1))" and ?d = "st_limb_difference (rows i)"
  have len: "length ?cur = 32" "length ?prev = 32" using wf by (simp_all add: length_be_limbs)
  from gates obtain t where t: "t < 32" "st_first_different_limb (rows i) = binary_number_assign 5 t"
    "?d * st_limb_difference_inverse (rows i) = 1" "(\<Sum>j < t. r ^ j * (?cur ! j - ?prev ! j)) = 0" "?d = ?cur ! t - ?prev ! t"
    unfolding ordering_gates_iff [OF wf sel] by blast
  have pre: "\<forall>j < t. ?cur ! j = ?prev ! j" using sep [unfolded separates_def, rule_format, of t] t(1,4) len by simp
  have "fits repr 16 ?d"
    using look by (intro ux_table_fits [OF can]) (simp_all add: lookups_hold_def ordering_lookups_def range_check_u16_def lookup_tables_def)
  moreover have "?d \<noteq> 0" using t(3) by auto
  ultimately have d: "?d = of_nat (repr ?d)" "repr ?d < 2 ^ 16" "0 < repr ?d"
    by (auto simp: fits_def intro!: Nat.gr0I)
  have "?cur ! t = ?prev ! t + of_nat (repr ?d)" using d(1) t(5) by simp
  then show ?thesis using that t(1,2) pre d(2,3) by blast
qed

lemma grown_limb:
  assumes "canonical repr" and "fits repr 16 x" and "y = x + of_nat d" and "0 < d" and "d < 2 ^ 16"
  shows "repr x < repr y"
proof -
  have "y = of_nat (repr x + d)" using assms(2,3) by (simp add: fits_def)
  moreover have "repr x + d < 2 ^ 253" using assms(2,5) by (simp add: fits_def)
  ultimately have "repr y = repr x + d" using assms(1) by (simp only: canonical_def)
  then show ?thesis using assms(4) by simp
qed

lemma ordering_sound:
  fixes rows :: "int \<Rightarrow> 'f :: field StateRow"
  assumes can: "canonical (repr :: 'f \<Rightarrow> nat)" and wf: "state_row_wf (rows i)" "state_row_wf (rows (i - 1))"
    and sel: "st_ordering_selector (rows i) \<noteq> 0" and gates: "satisfied (ordering_gates r rows i)"
    and look: "lookups_hold mpt (ordering_lookups rows i)"
    and sep: "separates r (be_limbs (rows i)) (be_limbs (rows (i - 1)))"
    and range: "list_all (fits repr 16) (be_limbs (rows i) @ be_limbs (rows (i - 1)))"
  obtains t where "t < 32" and "st_first_different_limb (rows i) = binary_number_assign 5 t"
    and "\<forall>j < t. be_limbs (rows i) ! j = be_limbs (rows (i - 1)) ! j"
    and "repr (be_limbs (rows (i - 1)) ! t) < repr (be_limbs (rows i) ! t)"
    and "limbs_value (map repr (be_limbs (rows (i - 1)))) < limbs_value (map repr (be_limbs (rows i)))"
proof -
  let ?cur = "be_limbs (rows i)" and ?prev = "be_limbs (rows (i - 1))"
  have len: "length ?cur = 32" "length ?prev = 32" using wf by (simp_all add: length_be_limbs)
  obtain t d where t: "t < 32" "st_first_different_limb (rows i) = binary_number_assign 5 t" "\<forall>j < t. ?cur ! j = ?prev ! j"
    "?cur ! t = ?prev ! t + of_nat d" "0 < d" "d < 2 ^ 16"
    by (rule first_difference [OF can wf sel gates look sep])
  have fits: "fits repr 16 (?cur ! j)" "fits repr 16 (?prev ! j)" if "j < 32" for j
    using range that len by (auto simp: list_all_iff)
  have lt: "repr (?prev ! t) < repr (?cur ! t)" by (rule grown_limb [OF can fits(2) [OF t(1)] t(4-6)])
  have "limbs_value (map repr ?prev) < limbs_value (map repr ?cur)"
    using len t(1,3) lt fits(2) by (intro limbs_value_less [of _ _ t]) (auto simp: in_set_conv_nth fits_def)
  then show ?thesis using that t(1-3) lt by blast
qed

section \<open>The assignment\<close>

text \<open>The cells of the sort keys of a row, \<open>assign_with_region\<close>; a key that the row does not have keeps the default of its cells.\<close>

definition assign_sort_keys :: "Rw \<Rightarrow> 'f :: field StateRow \<Rightarrow> 'f StateRow" where
  "assign_sort_keys rw row = row\<lparr>
     st_rw := table_assignment rw,
     st_tag_bits := binary_number_assign 4 (target_usize (rw_tag rw)),
     st_rw_counter_limbs := map of_nat (u32_to_limbs (of_nat (rw_counter rw))),
     st_id_limbs := (case rw_id rw of None \<Rightarrow> replicate N_LIMBS_ID 0 | Some n \<Rightarrow> map of_nat (u32_to_limbs (of_nat n))),
     st_address_limbs := (case rw_address rw of None \<Rightarrow> replicate N_LIMBS_ACCOUNT_ADDRESS 0 | Some a \<Rightarrow> map of_nat (address_to_limbs a)),
     st_storage_key_limbs := (case rw_storage_key rw of None \<Rightarrow> replicate N_LIMBS_WORD 0 | Some k \<Rightarrow> map of_nat (word_to_limbs k))\<rparr>"

lemma le_be_limbs: "even (length bs) \<Longrightarrow> rev (le_bytes_to_limbs bs) = be_bytes_to_limbs (rev bs)"
proof (induction bs rule: le_bytes_to_limbs.induct)
  case (1 lo hi bytes)
  have "be_bytes_to_limbs (xs @ ys) = be_bytes_to_limbs xs @ be_bytes_to_limbs ys" if "even (length xs)" for xs ys
    using that by (induction xs rule: be_bytes_to_limbs.induct) auto
  then show ?case using 1 by (simp add: add.commute)
qed auto

lemma be_limbs_append: "even (length xs) \<Longrightarrow> be_bytes_to_limbs (xs @ ys) = be_bytes_to_limbs xs @ be_bytes_to_limbs ys"
  by (induction xs rule: be_bytes_to_limbs.induct) auto

lemma length_be_bytes_to_limbs: "length (be_bytes_to_limbs bs) = length bs div 2"
  by (induction bs rule: be_bytes_to_limbs.induct) auto

lemma be_limbs_bound: "\<forall>x \<in> set (be_bytes_to_limbs bs). x < 2 ^ 16"
proof (induction bs rule: be_bytes_to_limbs.induct)
  case (1 hi lo bytes)
  then show ?case using unsigned_less [of hi, where ?'a = nat] unsigned_less [of lo, where ?'a = nat] by simp
qed auto

lemma nat_of_be_append: "nat_of_be (xs @ ys) = nat_of_be xs * 256 ^ length ys + nat_of_be ys"
proof -
  have f: "nat_of_be bs = foldl (\<lambda>acc d. acc * 256 + d) 0 (map unat bs)" for bs by (simp add: nat_of_be_def foldl_map)
  show ?thesis unfolding f map_append foldl_append using foldl_base [of 256 "foldl (\<lambda>acc d. acc * 256 + d) 0 (map unat xs)" "map unat ys"]
    by (simp only: length_map)
qed

lemma limbs_value_be: "even (length bs) \<Longrightarrow> limbs_value (be_bytes_to_limbs bs) = nat_of_be bs"
proof (induction bs rule: be_bytes_to_limbs.induct)
  case (1 hi lo bytes)
  have e: "even (length bytes)" using 1(2) by simp
  then have "(2 ^ 16) ^ length (be_bytes_to_limbs bytes) = (256 :: nat) ^ length bytes"
    by (auto simp: length_be_bytes_to_limbs power_mult elim!: evenE)
  moreover have "nat_of_be (hi # lo # bytes) = nat_of_be [hi, lo] * 256 ^ length bytes + nat_of_be bytes"
    using nat_of_be_append [of "[hi, lo]" bytes] by simp
  moreover have "nat_of_be [hi, lo] = 256 * unat hi + unat lo" by (simp add: nat_of_be_def)
  ultimately show ?case using 1(1) [OF e] by (simp only: be_bytes_to_limbs.simps limbs_value_Cons)
qed (auto simp: nat_of_be_def)

text \<open>The 512-bit number of a row whose parts fit their limbs.\<close>

definition rw_small :: "Rw \<Rightarrow> bool" where
  "rw_small rw \<longleftrightarrow> unwrap_or 0 (rw_id rw) < 2 ^ 32 \<and> rw_counter rw < 2 ^ 32"

lemma rw_field_tag_small: "unwrap_or 0 (rw_field_tag rw) < 256"
proof -
  have "t < 256" if "rw_field_tag rw = Some t" for t
    using that by (cases rw) (auto simp: account_field_tag_u64_def call_context_field_tag_u64_def tx_receipt_field_tag_u64_def
        split: AccountFieldTag.splits CallContextFieldTag.splits TxReceiptFieldTag.splits)
  then show ?thesis by (cases "rw_field_tag rw") (simp_all add: unwrap_or_def)
qed

lemma rw_limbs_value:
  assumes "rw_small rw"
  shows "limbs_value (rw_to_be_limbs rw) = (case sort_key_of rw of (tag, ident, a, ft, k, c) \<Rightarrow>
     ((((tag * 2 ^ 32 + ident) * 2 ^ 160 + unat a) * 2 ^ 16 + ft) * 2 ^ 256 + unat k) * 2 ^ 32 + c)"
proof -
  have t: "target_usize (rw_tag rw) < 256" by (cases "rw_tag rw") (simp_all add: target_usize_def)
  have one: "nat_of_be [0, of_nat n] = n" if "n < 256" for n using that by (simp add: nat_of_be_def unat_of_nat)
  have u: "unat (of_nat n :: u32) = n" if "n < 2 ^ 32" for n using that by (simp add: unat_of_nat)
  have b: "nat_of_be (be_bytes 20 (unat a)) = unat a" "nat_of_be (be_bytes 32 (unat k)) = unat k" for a :: Address and k :: Word
    using unsigned_less [of a, where ?'a = nat] unsigned_less [of k, where ?'a = nat] by (simp_all add: nat_of_be_be_bytes)
  have c: "nat_of_be (be_bytes 4 n) = n" if "n < 2 ^ 32" for n using that by (simp add: nat_of_be_be_bytes)
  note s = assms [unfolded rw_small_def]
  have "limbs_value (rw_to_be_limbs rw) = nat_of_be
     ([0, of_nat (target_usize (rw_tag rw))] @ be_bytes 4 (unat (of_nat (unwrap_or 0 (rw_id rw)) :: u32)) @
      be_bytes 20 (unat (unwrap_or 0 (rw_address rw))) @ [0, of_nat (unwrap_or 0 (rw_field_tag rw))] @
      be_bytes 32 (unat (unwrap_or 0 (rw_storage_key rw))) @ be_bytes 4 (unat (of_nat (rw_counter rw) :: u32)))"
    unfolding rw_to_be_limbs_def by (rule limbs_value_be) simp
  also have "\<dots> = target_usize (rw_tag rw) * 256 ^ (4 + (20 + (2 + (32 + 4)))) + (unwrap_or 0 (rw_id rw) * 256 ^ (20 + (2 + (32 + 4))) +
      (unat (unwrap_or 0 (rw_address rw)) * 256 ^ (2 + (32 + 4)) + (unwrap_or 0 (rw_field_tag rw) * 256 ^ (32 + 4) +
      (unat (unwrap_or 0 (rw_storage_key rw)) * 256 ^ 4 + rw_counter rw))))"
    unfolding nat_of_be_append b one [OF t] one [OF rw_field_tag_small] u [OF conjunct1 [OF s]] u [OF conjunct2 [OF s]]
      c [OF conjunct1 [OF s]] c [OF conjunct2 [OF s]] length_append length_be_bytes by simp
  finally show ?thesis by (simp add: sort_key_of_def)
qed

lemma rw_to_be_limbs_facts:
  "length (rw_to_be_limbs rw) = 32" "\<forall>x \<in> set (rw_to_be_limbs rw). x < 2 ^ 16"
  unfolding rw_to_be_limbs_def by (simp add: length_be_bytes_to_limbs) (rule be_limbs_bound)

lemma lex_less:
  fixes a a' b b' M :: nat
  assumes "a < a' \<or> a = a' \<and> b < b'" and "b < M"
  shows "a * M + b < a' * M + b'"
proof (cases "a < a'")
  case True
  then have "(a + 1) * M \<le> a' * M" by (intro mult_right_mono) simp_all
  then show ?thesis using assms(2) by simp
qed (use assms in simp)

lemma sort_key_limbs_less:
  assumes "rw_small prev" and "rw_small cur" and "sort_key_of prev < sort_key_of cur"
  shows "limbs_value (rw_to_be_limbs prev) < limbs_value (rw_to_be_limbs cur)"
proof -
  obtain t n a f k c where p: "sort_key_of prev = (t, n, a, f, k, c)" by (metis prod_cases6)
  obtain t' n' a' f' k' c' where q: "sort_key_of cur = (t', n', a', f', k', c')" by (metis prod_cases6)
  have b: "n < 2 ^ 32" "unat a < 2 ^ 160" "f < 2 ^ 16" "unat k < 2 ^ 256" "c < 2 ^ 32"
    using assms(1) p rw_field_tag_small [of prev] unsigned_less [of a, where ?'a = nat] unsigned_less [of k, where ?'a = nat]
    by (auto simp: rw_small_def sort_key_of_def)
  have key: "t < t' \<or> t = t' \<and> (n < n' \<or> n = n' \<and> (unat a < unat a' \<or> unat a = unat a' \<and>
      (f < f' \<or> f = f' \<and> (unat k < unat k' \<or> unat k = unat k' \<and> c < c'))))"
    using assms(3) unfolding p q by (auto simp: less_prod_def word_less_nat_alt word_le_nat_alt word_unat_eq_iff)
  let ?x1 = "t * 2 ^ 32 + n" and ?y1 = "t' * 2 ^ 32 + n'"
  have e1: "?x1 < ?y1 \<or> ?x1 = ?y1 \<and> (unat a < unat a' \<or> unat a = unat a' \<and>
      (f < f' \<or> f = f' \<and> (unat k < unat k' \<or> unat k = unat k' \<and> c < c')))"
    using key lex_less [of t t' n n' "2 ^ 32"] b by auto
  let ?x2 = "?x1 * 2 ^ 160 + unat a" and ?y2 = "?y1 * 2 ^ 160 + unat a'"
  have e2: "?x2 < ?y2 \<or> ?x2 = ?y2 \<and> (f < f' \<or> f = f' \<and> (unat k < unat k' \<or> unat k = unat k' \<and> c < c'))"
    using e1 lex_less [of ?x1 ?y1 "unat a" "unat a'" "2 ^ 160"] b(2) by metis
  let ?x3 = "?x2 * 2 ^ 16 + f" and ?y3 = "?y2 * 2 ^ 16 + f'"
  have e3: "?x3 < ?y3 \<or> ?x3 = ?y3 \<and> (unat k < unat k' \<or> unat k = unat k' \<and> c < c')"
    using e2 lex_less [of ?x2 ?y2 f f' "2 ^ 16"] b(3) by metis
  let ?x4 = "?x3 * 2 ^ 256 + unat k" and ?y4 = "?y3 * 2 ^ 256 + unat k'"
  have e4: "?x4 < ?y4 \<or> ?x4 = ?y4 \<and> c < c'"
    using e3 lex_less [of ?x3 ?y3 "unat k" "unat k'" "2 ^ 256"] b(4) by metis
  show ?thesis
    unfolding rw_limbs_value [OF assms(1)] rw_limbs_value [OF assms(2)] p q prod.case by (rule lex_less [OF e4 b(5)])
qed

text \<open>The first limb that differs, found by the assignment.\<close>

lemma find_first_difference:
  assumes "length xs = length ys" and "xs \<noteq> ys"
  obtains k where "k < length xs" and "xs ! k \<noteq> ys ! k" and "\<forall>j < k. xs ! j = ys ! j"
    and "find (\<lambda>(_, a, b). a \<noteq> b) (enumerate 0 (zip xs ys)) = Some (k, xs ! k, ys ! k)"
proof -
  have "\<exists>k. k < length xs \<and> xs ! k \<noteq> ys ! k" using assms by (auto intro: nth_equalityI)
  then obtain k where k: "k < length xs \<and> xs ! k \<noteq> ys ! k" "\<forall>j < k. \<not> (j < length xs \<and> xs ! j \<noteq> ys ! j)"
    by (subst (asm) exists_least_iff) blast
  then have "find (\<lambda>(_, a, b). a \<noteq> b) (enumerate 0 (zip xs ys)) = Some (k, xs ! k, ys ! k)"
    unfolding find_Some_iff using assms(1) by (intro exI [of _ k]) (simp add: nth_enumerate_eq)
  moreover have "\<forall>j < k. xs ! j = ys ! j" using k by auto
  ultimately show ?thesis using that k by blast
qed

lemma find_no_difference: "find (\<lambda>(_, a, b). a \<noteq> b) (enumerate 0 (zip xs xs)) = None"
  by (auto simp: find_None_iff in_set_enumerate_eq)

lemma zero_limbs: "be_bytes_to_limbs (be_bytes n 0) = replicate (n div 2) 0"
proof -
  have "be_bytes n 0 = replicate n 0" by (simp add: be_bytes_def le_bytes_def map_replicate_const)
  moreover have "be_bytes_to_limbs (replicate n 0) = replicate (n div 2) 0" by (induction n rule: nat_induct2) simp_all
  ultimately show ?thesis by simp
qed

lemma target_usize_small: "target_usize t < 16"
  by (cases t) (simp_all add: target_usize_def)

lemma rw_to_be_limbs_split:
  "rw_to_be_limbs rw = [target_usize (rw_tag rw)] @ be_bytes_to_limbs (be_bytes 4 (unat (of_nat (unwrap_or 0 (rw_id rw)) :: u32))) @
     be_bytes_to_limbs (be_bytes 20 (unat (unwrap_or 0 (rw_address rw)))) @ [unwrap_or 0 (rw_field_tag rw)] @
     be_bytes_to_limbs (be_bytes 32 (unat (unwrap_or 0 (rw_storage_key rw)))) @ be_bytes_to_limbs (be_bytes 4 (unat (of_nat (rw_counter rw) :: u32)))"
  unfolding rw_to_be_limbs_def
  using target_usize_small [of "rw_tag rw"] rw_field_tag_small [of rw] by (simp add: be_limbs_append unat_of_nat)

lemma be_limbs_assigned: "be_limbs (assign_sort_keys rw row) = (map of_nat (rw_to_be_limbs rw) :: 'f :: field list)"
proof -
  have tag: "binary_value (binary_number_assign 4 (target_usize (rw_tag rw))) = (of_nat (target_usize (rw_tag rw)) :: 'f)"
    using target_usize_small [of "rw_tag rw"] by (simp add: binary_number_assign_def binary_value_of_bool)
  have limbs: "rev (u32_to_limbs v) = be_bytes_to_limbs (be_bytes 4 (unat v))" "rev (address_to_limbs a) = be_bytes_to_limbs (be_bytes 20 (unat a))"
    "rev (word_to_limbs k) = be_bytes_to_limbs (be_bytes 32 (unat k))" for v a k
    by (simp_all add: u32_to_limbs_def address_to_limbs_def word_to_limbs_def le_be_limbs be_bytes_def)
  show ?thesis
    unfolding be_limbs_def rw_to_be_limbs_split
    by (cases "rw_id rw"; cases "rw_address rw"; cases "rw_storage_key rw")
      (simp_all add: assign_sort_keys_def tag table_assignment_def unwrap_or_def zero_limbs n_limbs_defs limbs rev_map)
qed

lemma of_nat_diff_nonzero:
  assumes "canonical (repr :: 'f :: field \<Rightarrow> nat)" and "m < n" and "n < 2 ^ 16"
  shows "(of_nat n - of_nat m :: 'f) \<noteq> 0"
  using assms canonicalD [OF assms(1), of n m] by simp

lemma ordering_assign_less:
  assumes can: "canonical (repr :: 'f :: field \<Rightarrow> nat)"
    and less: "limbs_value (rw_to_be_limbs prev) < limbs_value (rw_to_be_limbs cur)"
  obtains k where "k < 32" and "rw_to_be_limbs prev ! k < rw_to_be_limbs cur ! k" and "\<forall>j < k. rw_to_be_limbs cur ! j = rw_to_be_limbs prev ! j"
    and "ordering_assign cur prev = (Inr (k, binary_number_assign 5 k, of_nat (rw_to_be_limbs cur ! k) - of_nat (rw_to_be_limbs prev ! k),
      inverse (of_nat (rw_to_be_limbs cur ! k) - of_nat (rw_to_be_limbs prev ! k))) :: (nat \<times> 'f list \<times> 'f \<times> 'f, 'e) result)"
proof -
  let ?c = "rw_to_be_limbs cur" and ?p = "rw_to_be_limbs prev"
  have len: "length ?c = length ?p" "?c \<noteq> ?p" using less by (auto simp: rw_to_be_limbs_facts(1))
  obtain k where k: "k < length ?c" "?c ! k \<noteq> ?p ! k" "\<forall>j < k. ?c ! j = ?p ! j"
    "find (\<lambda>(_, a, b). a \<noteq> b) (enumerate 0 (zip ?c ?p)) = Some (k, ?c ! k, ?p ! k)"
    by (rule find_first_difference [OF len])
  have "\<not> ?c ! k < ?p ! k"
  proof
    assume "?c ! k < ?p ! k"
    then have "limbs_value ?c < limbs_value ?p" by (rule limbs_value_less [OF len(1) k(1,3) _ rw_to_be_limbs_facts(2)])
    then show False using less by simp
  qed
  then have lt: "?p ! k < ?c ! k" using k(2) by simp
  moreover have "?c ! k < 2 ^ 16" using k(1) rw_to_be_limbs_facts(2) [of cur] by simp
  ultimately have nz: "(of_nat (?c ! k) - of_nat (?p ! k) :: 'f) \<noteq> 0" by (rule of_nat_diff_nonzero [OF can])
  then show ?thesis using that k lt by (simp add: ordering_assign_def Let_def rw_to_be_limbs_facts(1))
qed

lemma assign_sort_keys_wf:
  "length (st_tag_bits (assign_sort_keys rw row)) = 4" "length (st_id_limbs (assign_sort_keys rw row)) = N_LIMBS_ID"
  "length (st_address_limbs (assign_sort_keys rw row)) = N_LIMBS_ACCOUNT_ADDRESS"
  "length (st_storage_key_limbs (assign_sort_keys rw row)) = N_LIMBS_WORD"
  "length (st_rw_counter_limbs (assign_sort_keys rw row)) = N_LIMBS_RW_COUNTER"
  "st_first_different_limb (assign_sort_keys rw row) = st_first_different_limb row"
proof -
  have len: "length (le_bytes_to_limbs bs) = length bs div 2" for bs by (induction bs rule: le_bytes_to_limbs.induct) auto
  show "length (st_tag_bits (assign_sort_keys rw row)) = 4" "length (st_id_limbs (assign_sort_keys rw row)) = N_LIMBS_ID"
    "length (st_address_limbs (assign_sort_keys rw row)) = N_LIMBS_ACCOUNT_ADDRESS"
    "length (st_storage_key_limbs (assign_sort_keys rw row)) = N_LIMBS_WORD"
    "length (st_rw_counter_limbs (assign_sort_keys rw row)) = N_LIMBS_RW_COUNTER"
    "st_first_different_limb (assign_sort_keys rw row) = st_first_different_limb row"
    by (simp_all add: assign_sort_keys_def binary_number_assign_def u32_to_limbs_def address_to_limbs_def word_to_limbs_def len n_limbs_defs
        split: option.splits)
qed

text \<open>Two \<open>Start\<close> rows, as the padding of the table has them.\<close>

definition state_zero_row :: "'f :: field StateRow" where
  "state_zero_row = \<lparr>st_selector = 0, st_rw = table_assignment (RwStart 0), st_rw_counter_limbs = replicate 2 0, st_tag_bits = replicate 4 0,
     st_id_limbs = replicate 2 0, st_address_limbs = replicate 10 0, st_storage_key_limbs = replicate 16 0, st_initial_value = (0, 0),
     st_is_zero = 0, st_nonempty_witness = 0, st_mpt_proof_type = 0, st_state_root = (0, 0), st_ordering_selector = 0,
     st_first_different_limb = replicate 5 0, st_limb_difference = 0, st_limb_difference_inverse = 0, st_not_first_access = 0\<rparr>"

definition two_start_rows :: "int \<Rightarrow> rat StateRow" where
  "two_start_rows i = (if i = 0 then assign_sort_keys (RwStart 1) state_zero_row
     else (assign_sort_keys (RwStart 2) state_zero_row)\<lparr>st_ordering_selector := 1, st_first_different_limb := binary_number_assign 5 31,
       st_limb_difference := 1, st_limb_difference_inverse := 1\<rparr>)"

lemma start_limbs: "rw_to_be_limbs (RwStart 1) = [1] @ replicate 30 0 @ [1]" "rw_to_be_limbs (RwStart 2) = [1] @ replicate 30 0 @ [2]"
proof -
  have c: "be_bytes_to_limbs (be_bytes 4 1) = [0, 1]" "be_bytes_to_limbs (be_bytes 4 2) = [0, 2]"
    by (simp_all add: be_bytes_def le_bytes_def upt_rec)
  have r: "replicate 30 0 = replicate 2 0 @ replicate 10 0 @ [0] @ replicate 16 0 @ [0 :: nat]"
    by (simp add: numeral_eq_Suc)
  show "rw_to_be_limbs (RwStart 1) = [1] @ replicate 30 0 @ [1]" "rw_to_be_limbs (RwStart 2) = [1] @ replicate 30 0 @ [2]"
    unfolding rw_to_be_limbs_split r by (simp_all add: unwrap_or_def target_usize_def zero_limbs c [simplified])
qed

lemma two_start_rows_facts:
  "be_limbs (two_start_rows 0) = [1] @ replicate 30 0 @ [1]" "be_limbs (two_start_rows 1) = [1] @ replicate 30 0 @ [2]"
  "state_row_wf (two_start_rows i)"
proof -
  show "be_limbs (two_start_rows 0) = [1] @ replicate 30 0 @ [1]" "be_limbs (two_start_rows 1) = [1] @ replicate 30 0 @ [2]"
    using be_limbs_assigned [of "RwStart 1" "state_zero_row :: rat StateRow"] be_limbs_assigned [of "RwStart 2" "state_zero_row :: rat StateRow"]
    by (simp_all add: two_start_rows_def be_limbs_def start_limbs [simplified] map_replicate)
  show "state_row_wf (two_start_rows i)"
    by (simp add: two_start_rows_def state_row_wf_def assign_sort_keys_wf state_zero_row_def binary_number_assign_def)
qed

lemma two_start_rows_separate: "separates 2 (be_limbs (two_start_rows 1)) (be_limbs (two_start_rows 0))"
proof -
  have n: "([1] @ replicate 30 0 @ [x :: rat]) ! j = ([1] @ replicate 30 0 @ [y]) ! j" if "j < 31" for j x y
    using that by (cases j) (simp_all add: nth_append)
  have d: "be_limbs (two_start_rows 1) ! j = be_limbs (two_start_rows 0) ! j" if "j < 31" for j
    using that unfolding two_start_rows_facts(1,2) by (rule n)
  have l: "be_limbs (two_start_rows 1) ! 31 - be_limbs (two_start_rows 0) ! 31 = 1"
    unfolding two_start_rows_facts(1,2) by (simp add: nth_append)
  show ?thesis
    unfolding separates_def
  proof (intro allI impI)
    fix k j :: nat
    assume k: "k \<le> length (be_limbs (two_start_rows 1))" and j: "j < k"
      and z: "(\<Sum>j < k. 2 ^ j * (be_limbs (two_start_rows 1) ! j - be_limbs (two_start_rows 0) ! j)) = 0"
    have "k \<noteq> 32"
    proof
      assume "k = 32"
      then have "(\<Sum>j < 31. 2 ^ j * (be_limbs (two_start_rows 1) ! j - be_limbs (two_start_rows 0) ! j)) + 2 ^ 31 = 0"
        using z l by (simp add: lessThan_Suc [of 31, simplified])
      then show False using d by simp
    qed
    then have "j < 31" using k j by (simp add: two_start_rows_facts(2))
    then show "be_limbs (two_start_rows 1) ! j = be_limbs (two_start_rows 0) ! j" by (rule d)
  qed
qed

lemma two_start_rows_selected: "st_ordering_selector (two_start_rows 1) = 1"
  by (simp add: two_start_rows_def)

lemma two_start_rows_ordered:
  "satisfied (ordering_gates 2 two_start_rows 1)" "lookups_hold [] (ordering_lookups two_start_rows 1)"
  "list_all (fits (\<lambda>x. nat \<lfloor>x\<rfloor>) 16) (be_limbs (two_start_rows 1) @ be_limbs (two_start_rows 0))"
proof -
  have n: "([1] @ replicate 30 0 @ [x :: rat]) ! j = ([1] @ replicate 30 0 @ [y]) ! j" if "j < 31" for j x y
    using that by (cases j) (simp_all add: nth_append)
  have sel: "st_ordering_selector (two_start_rows 1) = 1" "st_limb_difference (two_start_rows 1) = 1"
    "st_limb_difference_inverse (two_start_rows 1) = 1" "st_first_different_limb (two_start_rows 1) = binary_number_assign 5 31"
    by (simp_all add: two_start_rows_def)
  have z: "be_limbs (two_start_rows 1) ! j - be_limbs (two_start_rows 0) ! j = 0" if "j < 31" for j
    unfolding two_start_rows_facts(1,2) using n [OF that, of 2 1] by simp
  have l: "be_limbs (two_start_rows 1) ! 31 - be_limbs (two_start_rows 0) ! 31 = 1"
    unfolding two_start_rows_facts(1,2) by (simp add: nth_append)
  have "st_ordering_selector (two_start_rows 1) \<noteq> 0" by (simp add: sel)
  from ordering_gates_iff [of two_start_rows 1 2, OF two_start_rows_facts(3) two_start_rows_facts(3) this]
  show "satisfied (ordering_gates 2 two_start_rows 1)"
    using z l by (auto simp: sel intro!: exI [of _ 31])
  show "lookups_hold [] (ordering_lookups two_start_rows 1)"
    by (auto simp: lookups_hold_def ordering_lookups_def range_check_u16_def lookup_tables_def ux_table_def sel intro!: image_eqI [of _ _ 1])
  show "list_all (fits (\<lambda>x. nat \<lfloor>x\<rfloor>) 16) (be_limbs (two_start_rows 1) @ be_limbs (two_start_rows 0))"
    unfolding two_start_rows_facts(1,2) by (simp add: fits_def list_all_iff)
qed

section \<open>Properties of the order\<close>

text \<open>
  C7: soundness of the order of the state circuit. If the gates and the range check of the order hold between two rows whose limbs
  are 16-bit numbers, the 512-bit sort key grows, and \<open>first_different_limb\<close> is the position of the first limb that
  differs, unless the challenge fails to separate the limbs; at most 496 challenges fail for any two rows.
\<close>

theorem lexicographic_ordering_sound:
  fixes rows :: "int \<Rightarrow> 'f :: field StateRow"
  assumes "canonical (repr :: 'f \<Rightarrow> nat)" and "state_row_wf (rows i)" and "state_row_wf (rows (i - 1))"
    and "list_all (fits repr 16) (be_limbs (rows i) @ be_limbs (rows (i - 1)))"
  shows "(st_ordering_selector (rows i) \<noteq> 0 \<and> satisfied (ordering_gates r rows i) \<and> lookups_hold mpt (ordering_lookups rows i) \<and>
      separates r (be_limbs (rows i)) (be_limbs (rows (i - 1))) \<longrightarrow>
      limbs_value (map repr (be_limbs (rows (i - 1)))) < limbs_value (map repr (be_limbs (rows i))) \<and>
      (\<exists>t < 32. st_first_different_limb (rows i) = binary_number_assign 5 t \<and> be_limbs (rows i) ! t \<noteq> be_limbs (rows (i - 1)) ! t \<and>
         (\<forall>j < t. be_limbs (rows i) ! j = be_limbs (rows (i - 1)) ! j))) \<and>
    finite {r. \<not> separates r (be_limbs (rows i)) (be_limbs (rows (i - 1)))} \<and>
    card {r. \<not> separates r (be_limbs (rows i)) (be_limbs (rows (i - 1)))} \<le> 496"
proof -
  have len: "length (be_limbs (rows i)) = 32" "length (be_limbs (rows (i - 1))) = 32" using assms(2,3) by (simp_all add: length_be_limbs)
  have "(\<Sum>k \<le> 32. k - 1) = (496 :: nat)" by (simp add: numeral_eq_Suc)
  then have "finite {r. \<not> separates r (be_limbs (rows i)) (be_limbs (rows (i - 1)))} \<and>
      card {r. \<not> separates r (be_limbs (rows i)) (be_limbs (rows (i - 1)))} \<le> 496"
    using few_bad_challenges [of "be_limbs (rows i)" "be_limbs (rows (i - 1))"] len by simp
  then show ?thesis using ordering_sound [OF assms(1-3)] assms(4) by (smt (verit, best) less_irrefl)
qed

theorem lexicographic_ordering_sound_witness:
  "limbs_value (map (\<lambda>x. nat \<lfloor>x\<rfloor>) (be_limbs (two_start_rows 0))) < limbs_value (map (\<lambda>x. nat \<lfloor>x\<rfloor>) (be_limbs (two_start_rows 1)))"
  using lexicographic_ordering_sound [OF canonical_rat, of two_start_rows 1 2 "[]"] two_start_rows_facts(3) two_start_rows_ordered
    two_start_rows_separate two_start_rows_selected
  by simp

text \<open>
  C8: completeness of the order. The cells of the sort keys hold the limbs of a row, whatever keys it has; for two rows in strictly
  increasing order of the keys, with identifiers and counters of 32 bits, the assignment does not panic and its cells pass the gates and the
  range check for every challenge. Rows with equal keys make it panic.
\<close>

theorem lexicographic_ordering_complete:
  fixes repr :: "'f :: field \<Rightarrow> nat"
  assumes "canonical repr" and "rw_small prev" and "rw_small cur" and "length (st_first_different_limb row) = 5"
  shows "be_limbs (assign_sort_keys cur row') = (map of_nat (rw_to_be_limbs cur) :: 'f list) \<and>
     (sort_key_of prev < sort_key_of cur \<longrightarrow>
        (\<exists>k bits d d_inv. ordering_assign cur prev = (Inr (k, bits, d, d_inv) :: (LimbIndex \<times> 'f list \<times> 'f \<times> 'f, 'e) result) \<and>
           (\<forall>rows. rows (i - 1) = assign_sort_keys prev row \<and> rows i = (assign_sort_keys cur row')\<lparr>st_ordering_selector := 1,
                st_first_different_limb := bits, st_limb_difference := d, st_limb_difference_inverse := d_inv\<rparr> \<longrightarrow>
              satisfied (ordering_gates r rows i) \<and> lookups_hold mpt (ordering_lookups rows i)))) \<and>
     (sort_key_of prev = sort_key_of cur \<longrightarrow>
        ordering_assign cur prev = (Inl (Panic ''repeated rw counter'') :: (LimbIndex \<times> 'f list \<times> 'f \<times> 'f, 'e) result))"
proof (intro conjI impI)
  show "be_limbs (assign_sort_keys cur row') = map of_nat (rw_to_be_limbs cur)" by (rule be_limbs_assigned)
next
  assume "sort_key_of prev = sort_key_of cur"
  then have "rw_to_be_limbs prev = rw_to_be_limbs cur" by (simp add: sort_key_of_def rw_to_be_limbs_def)
  then show "ordering_assign cur prev = Inl (Panic ''repeated rw counter'')"
    using find_no_difference [of "rw_to_be_limbs cur"] by (simp add: ordering_assign_def Let_def)
next
  assume "sort_key_of prev < sort_key_of cur"
  then have "limbs_value (rw_to_be_limbs prev) < limbs_value (rw_to_be_limbs cur)" by (rule sort_key_limbs_less [OF assms(2,3)])
  from ordering_assign_less [OF assms(1) this, where ?'e = 'e] obtain k where k: "k < 32" "rw_to_be_limbs prev ! k < rw_to_be_limbs cur ! k"
    "\<forall>j < k. rw_to_be_limbs cur ! j = rw_to_be_limbs prev ! j"
    and a: "ordering_assign cur prev = (Inr (k, binary_number_assign 5 k, of_nat (rw_to_be_limbs cur ! k) - of_nat (rw_to_be_limbs prev ! k),
      inverse (of_nat (rw_to_be_limbs cur ! k) - of_nat (rw_to_be_limbs prev ! k))) :: (nat \<times> 'f list \<times> 'f \<times> 'f, 'e) result)" (is "_ = Inr (k, ?bits, ?d, ?inv)")
    by blast
  have "satisfied (ordering_gates r rows i) \<and> lookups_hold mpt (ordering_lookups rows i)"
    if rows: "rows (i - 1) = assign_sort_keys prev row" "rows i = (assign_sort_keys cur row')\<lparr>st_ordering_selector := 1,
                st_first_different_limb := ?bits, st_limb_difference := ?d, st_limb_difference_inverse := ?inv\<rparr>" for rows
  proof
    have limbs: "be_limbs (rows i) = map of_nat (rw_to_be_limbs cur)" "be_limbs (rows (i - 1)) = map of_nat (rw_to_be_limbs prev)"
      using be_limbs_assigned [of cur row'] be_limbs_assigned [of prev row] by (simp_all add: rows be_limbs_def)
    have wf: "state_row_wf (rows i)" "state_row_wf (rows (i - 1))"
      using assms(4) by (auto simp: rows state_row_wf_def assign_sort_keys_wf binary_number_assign_def)
    have cells: "st_first_different_limb (rows i) = ?bits" "st_limb_difference (rows i) = ?d" "st_limb_difference_inverse (rows i) = ?inv"
      "st_ordering_selector (rows i) = 1" by (simp_all add: rows)
    have c: "rw_to_be_limbs cur ! k < 2 ^ 16" using k(1) rw_to_be_limbs_facts [of cur] by simp
    then have "?d \<noteq> 0" by (rule of_nat_diff_nonzero [OF assms(1) k(2)])
    then show "satisfied (ordering_gates r rows i)"
      using k by (subst ordering_gates_iff [OF wf]) (auto simp: cells limbs rw_to_be_limbs_facts(1) intro!: exI [of _ k])
    have "?d = of_nat (rw_to_be_limbs cur ! k - rw_to_be_limbs prev ! k)" using k(2) by (simp add: of_nat_diff)
    then show "lookups_hold mpt (ordering_lookups rows i)"
      using c by (auto simp: lookups_hold_def ordering_lookups_def range_check_u16_def lookup_tables_def ux_table_def rows)
  qed
  then show "\<exists>k bits d d_inv. ordering_assign cur prev = (Inr (k, bits, d, d_inv) :: (LimbIndex \<times> 'f list \<times> 'f \<times> 'f, 'e) result) \<and>
           (\<forall>rows. rows (i - 1) = assign_sort_keys prev row \<and> rows i = (assign_sort_keys cur row')\<lparr>st_ordering_selector := 1,
                st_first_different_limb := bits, st_limb_difference := d, st_limb_difference_inverse := d_inv\<rparr> \<longrightarrow>
              satisfied (ordering_gates r rows i) \<and> lookups_hold mpt (ordering_lookups rows i))"
    using a by blast
qed

theorem lexicographic_ordering_complete_witness:
  "\<exists>k bits d d_inv. ordering_assign (RwStart 2) (RwStart 1) = (Inr (k, bits, d, d_inv) :: (LimbIndex \<times> rat list \<times> rat \<times> rat, unit) result)"
proof -
  have s: "rw_small (RwStart 1)" "rw_small (RwStart 2)" "sort_key_of (RwStart 1) < sort_key_of (RwStart 2)"
    by (simp_all add: rw_small_def unwrap_or_def sort_key_of_def)
  have "length (st_first_different_limb (state_zero_row :: rat StateRow)) = 5" by (simp add: state_zero_row_def)
  from lexicographic_ordering_complete [OF canonical_rat s(1,2) this, where ?'e = unit] s(3) show ?thesis by blast
qed

end
