(* ===== verification/State_Consistency.thy ===== *)
theory State_Consistency
  imports State_Order
begin

text \<open>
  What a table that passes the state circuit says: reads return the last value written to their key, and how the state root moves.
\<close>

section \<open>Conditions of the builder\<close>

lemma built_simps [simp]:
  fixes c :: "'f :: field"
  shows "satisfied (fst (constrain cs)) \<longleftrightarrow> satisfied cs"
    and "satisfied (fst (add_lookup t vals))"
    and "satisfied (fst (built_all [])) \<longleftrightarrow> True"
    and "satisfied (fst (built_all (b # bs))) \<longleftrightarrow> satisfied (fst b) \<and> satisfied (fst (built_all bs))"
    and "satisfied (fst (built_condition c bs)) \<longleftrightarrow> c = 0 \<or> satisfied (fst (built_all bs))"
    and "satisfied (fst (built_all (bs @ ds))) \<longleftrightarrow> satisfied (fst (built_all bs)) \<and> satisfied (fst (built_all ds))"
  by (simp_all add: constrain_def add_lookup_def built_all_def built_condition_def)

lemma lookups_simps [simp]:
  "lookups_hold mpt []" "lookups_hold mpt (xs @ ys) \<longleftrightarrow> lookups_hold mpt xs \<and> lookups_hold mpt ys"
  "lookups_hold mpt ((t, vals) # ls) \<longleftrightarrow> vals \<in> set (lookup_tables mpt t) \<and> lookups_hold mpt ls"
  by (auto simp: lookups_hold_def)

lemma built_lookups [simp]:
  "snd (constrain cs) = []" "snd (add_lookup t vals) = [(t, vals)]" "snd (built_all []) = []"
  "snd (built_all (b # bs)) = snd b @ snd (built_all bs)" "snd (built_all (bs @ ds)) = snd (built_all bs) @ snd (built_all ds)"
  "snd (built_condition c bs) = map (\<lambda>(t, vals). (t, map (\<lambda>e. e * c) vals)) (snd (built_all bs))"
  by (simp_all add: constrain_def add_lookup_def built_all_def built_condition_def)

lemma satisfied_words [simp]:
  fixes e l r :: "'f :: field \<times> 'f"
  shows "satisfied (require_word_zero e) \<longleftrightarrow> e = (0, 0)" and "satisfied (require_word_equal l r) \<longleftrightarrow> l = r"
    and "satisfied (require_word_boolean e) \<longleftrightarrow> snd e = 0 \<and> (fst e = 0 \<or> fst e = 1)"
  by (auto simp: require_word_zero_def require_word_equal_def require_word_boolean_def prod_eq_iff)

section \<open>Limbs and columns\<close>

lemma value_from_limbs_nat:
  assumes "list_all (fits repr 16) limbs"
  shows "value_from_limbs limbs = of_nat (limbs_value (map repr (rev limbs)))"
  using assms
proof (induction limbs)
  case (Cons l ls)
  have "value_from_limbs (l # ls) = l + value_from_limbs ls * of_nat (2 ^ 16)" by (simp add: value_from_limbs_def)
  also have "\<dots> = of_nat (repr l + limbs_value (map repr (rev ls)) * 2 ^ 16)"
    using Cons by (simp add: fits_def)
  also have "repr l + limbs_value (map repr (rev ls)) * 2 ^ 16 = limbs_value (map repr (rev (l # ls)))"
    by (simp add: limbs_value_append)
  finally show ?case .
qed (simp add: value_from_limbs_def)

lemma limbs_value_inj:
  assumes "length xs = length ys" and "\<forall>x \<in> set xs. x < 2 ^ 16" and "\<forall>y \<in> set ys. y < 2 ^ 16" and "limbs_value xs = limbs_value ys"
  shows "xs = ys"
proof (rule ccontr)
  assume "xs \<noteq> ys"
  then obtain k where k: "k < length xs" "xs ! k \<noteq> ys ! k" "\<forall>j < k. xs ! j = ys ! j" by (rule find_first_difference [OF assms(1)])
  then consider "xs ! k < ys ! k" | "ys ! k < xs ! k" by linarith
  then show False
  proof cases
    case 1
    then show ?thesis using limbs_value_less [OF assms(1) k(1,3) 1 assms(2)] assms(4) by simp
  next
    case 2
    then have "limbs_value ys < limbs_value xs"
      using assms(1,3) k by (intro limbs_value_less [of _ _ k]) simp_all
    then show ?thesis using assms(4) by simp
  qed
qed

lemma value_from_limbs_inj:
  assumes can: "canonical (repr :: 'f :: field \<Rightarrow> nat)" and len: "length xs = length ys" "length xs \<le> 15"
    and range: "list_all (fits repr 16) xs" "list_all (fits repr 16) ys" and eq: "value_from_limbs xs = value_from_limbs ys"
  shows "xs = ys"
proof -
  have b: "limbs_value (map repr (rev zs)) < 2 ^ 253" if "list_all (fits repr 16) zs" "length zs \<le> 15" for zs
  proof -
    have "limbs_value (map repr (rev zs)) < (2 ^ 16) ^ length zs"
      using that limbs_value_bound [of "map repr (rev zs)"] by (simp add: list_all_iff fits_def)
    also have "\<dots> \<le> (2 ^ 16) ^ 15" using that(2) by (intro power_increasing) simp_all
    finally show ?thesis by simp
  qed
  have "limbs_value (map repr (rev xs)) = limbs_value (map repr (rev ys))"
    using eq len canonicalD [OF can b [OF range(1)] b [OF range(2)]] unfolding value_from_limbs_nat [OF range(1)] value_from_limbs_nat [OF range(2)] by simp
  then have "map repr (rev xs) = map repr (rev ys)"
    using len range by (intro limbs_value_inj) (auto simp: list_all_iff fits_def)
  then have "map of_nat (map repr (rev xs)) = (map of_nat (map repr (rev ys)) :: 'f list)" by (simp only:)
  moreover have "map of_nat (map repr (rev zs)) = rev zs" if "list_all (fits repr 16) zs" for zs
    using that by (auto simp: list_all_iff fits_def intro: map_idI)
  ultimately show ?thesis using range by simp
qed

section \<open>A row that passes\<close>

definition state_row_ok :: "'f :: field \<Rightarrow> 'f list list \<Rightarrow> (int \<Rightarrow> 'f StateRow) \<Rightarrow> int \<Rightarrow> bool" where
  "state_row_ok r mpt rows i \<longleftrightarrow> state_row_wf (rows i) \<and> st_selector (rows i) = 1 \<and> satisfied (state_gates r rows i) \<and>
     lookups_hold mpt (state_lookups rows i)"

text \<open>The key of a row in the columns of the table.\<close>

definition rw_key :: "'f StateRow \<Rightarrow> 'f \<times> 'f \<times> 'f \<times> 'f \<times> ('f \<times> 'f)" where
  "rw_key row = (rr_tag (st_rw row), rr_id (st_rw row), rr_address (st_rw row), rr_field_tag (st_rw row), rr_storage_key (st_rw row))"

lemma mpi_lookups_fits:
  assumes "canonical repr" and "lookups_hold mpt (mpi_lookups limbs)"
  shows "list_all (fits repr 16) limbs"
  using assms(2) ux_table_fits [OF assms(1), of _ 16]
  by (induction limbs) (auto simp: mpi_lookups_def range_check_u16_def lookup_tables_def)

lemma state_row_gates:
  assumes "state_row_ok r mpt rows i"
  shows "satisfied (mpi_gates 1 [rr_rw_counter (st_rw (rows i))] (st_rw_counter_limbs (rows i)))"
    and "satisfied (binary_number_gates 4 (map target_usize all_targets) 1 (st_tag_bits (rows i)) (Some (rr_tag (st_rw (rows i)))))"
    and "satisfied (mpi_gates 1 [rr_id (st_rw (rows i))] (st_id_limbs (rows i)))"
    and "satisfied (mpi_gates 1 [rr_address (st_rw (rows i))] (st_address_limbs (rows i)))"
    and "satisfied (mpi_gates 1 [fst (rr_storage_key (st_rw (rows i))), snd (rr_storage_key (st_rw (rows i)))] (st_storage_key_limbs (rows i)))"
    and "satisfied (ordering_gates r rows i)" and "satisfied (fst (build (queries rows i)))"
    and "lookups_hold mpt (mpi_lookups (st_rw_counter_limbs (rows i)))" and "lookups_hold mpt (mpi_lookups (st_id_limbs (rows i)))"
    and "lookups_hold mpt (mpi_lookups (st_address_limbs (rows i)))" and "lookups_hold mpt (mpi_lookups (st_storage_key_limbs (rows i)))"
    and "lookups_hold mpt (ordering_lookups rows i)" and "lookups_hold mpt (snd (build (queries rows i)))"
proof -
  have sel: "st_selector (rows i) = 1" and gates: "satisfied (state_gates r rows i)" and look: "lookups_hold mpt (state_lookups rows i)"
    using assms by (simp_all add: state_row_ok_def)
  note gates [unfolded state_gates_def Let_def sel] look [unfolded state_lookups_def]
  then show "satisfied (mpi_gates 1 [rr_rw_counter (st_rw (rows i))] (st_rw_counter_limbs (rows i)))"
    "satisfied (binary_number_gates 4 (map target_usize all_targets) 1 (st_tag_bits (rows i)) (Some (rr_tag (st_rw (rows i)))))"
    "satisfied (mpi_gates 1 [rr_id (st_rw (rows i))] (st_id_limbs (rows i)))"
    "satisfied (mpi_gates 1 [rr_address (st_rw (rows i))] (st_address_limbs (rows i)))"
    "satisfied (mpi_gates 1 [fst (rr_storage_key (st_rw (rows i))), snd (rr_storage_key (st_rw (rows i)))] (st_storage_key_limbs (rows i)))"
    "satisfied (ordering_gates r rows i)" "satisfied (fst (build (queries rows i)))"
    "lookups_hold mpt (mpi_lookups (st_rw_counter_limbs (rows i)))" "lookups_hold mpt (mpi_lookups (st_id_limbs (rows i)))"
    "lookups_hold mpt (mpi_lookups (st_address_limbs (rows i)))" "lookups_hold mpt (mpi_lookups (st_storage_key_limbs (rows i)))"
    "lookups_hold mpt (ordering_lookups rows i)" "lookups_hold mpt (snd (build (queries rows i)))"
    by simp_all
qed

lemma state_row_columns:
  fixes rows :: "int \<Rightarrow> 'f :: field StateRow"
  assumes ok: "state_row_ok r mpt rows i"
  shows "rr_id (st_rw (rows i)) = value_from_limbs (st_id_limbs (rows i))"
    and "rr_address (st_rw (rows i)) = value_from_limbs (st_address_limbs (rows i))"
    and "rr_storage_key (st_rw (rows i)) =
      (value_from_limbs (take 8 (st_storage_key_limbs (rows i))), value_from_limbs (drop 8 (st_storage_key_limbs (rows i))))"
    and "rr_rw_counter (st_rw (rows i)) = value_from_limbs (st_rw_counter_limbs (rows i))"
    and "\<exists>t. st_tag_bits (rows i) = binary_number_assign 4 (target_usize t) \<and> rr_tag (st_rw (rows i)) = of_nat (target_usize t)"
proof -
  note g = state_row_gates [OF ok]
  have wf: "length (st_tag_bits (rows i)) = 4" "length (st_id_limbs (rows i)) = 2" "length (st_address_limbs (rows i)) = 10"
    "length (st_storage_key_limbs (rows i)) = 16" "length (st_rw_counter_limbs (rows i)) = 2"
    using ok by (simp_all add: state_row_ok_def state_row_wf_def n_limbs_defs)
  have drop: "take 8 (drop 8 (st_storage_key_limbs (rows i))) = drop 8 (st_storage_key_limbs (rows i))" using wf(4) by simp
  show "rr_id (st_rw (rows i)) = value_from_limbs (st_id_limbs (rows i))" using g(3) wf(2) by (simp add: mpi_gates_def)
  show "rr_address (st_rw (rows i)) = value_from_limbs (st_address_limbs (rows i))" using g(4) wf(3) by (simp add: mpi_gates_def)
  show "rr_storage_key (st_rw (rows i)) =
      (value_from_limbs (take 8 (st_storage_key_limbs (rows i))), value_from_limbs (drop 8 (st_storage_key_limbs (rows i))))"
    using g(5) wf(4) drop by (simp add: mpi_gates_def prod_eq_iff Let_def numeral_2_eq_2 [symmetric])
  show "rr_rw_counter (st_rw (rows i)) = value_from_limbs (st_rw_counter_limbs (rows i))" using g(1) wf(5) by (simp add: mpi_gates_def)
  from binary_number_sound [OF _ wf(1) g(2)]
  show "\<exists>t. st_tag_bits (rows i) = binary_number_assign 4 (target_usize t) \<and> rr_tag (st_rw (rows i)) = of_nat (target_usize t)"
    using target_usize_small by auto
qed

lemma state_row_limbs:
  fixes rows :: "int \<Rightarrow> 'f :: field StateRow"
  assumes can: "canonical (repr :: 'f \<Rightarrow> nat)" and ok: "state_row_ok r mpt rows i"
  shows "fits repr 16 (rr_tag (st_rw (rows i)))" and "list_all (fits repr 16) (st_id_limbs (rows i))"
    and "list_all (fits repr 16) (st_address_limbs (rows i))" and "list_all (fits repr 16) (st_storage_key_limbs (rows i))"
    and "list_all (fits repr 16) (st_rw_counter_limbs (rows i))" and "binary_value (st_tag_bits (rows i)) = rr_tag (st_rw (rows i))"
    and "be_limbs (rows i) ! 0 = rr_tag (st_rw (rows i))"
    and "fits repr 16 (rr_field_tag (st_rw (rows i))) \<Longrightarrow> list_all (fits repr 16) (be_limbs (rows i))"
proof -
  note g = state_row_gates [OF ok]
  show limbs: "list_all (fits repr 16) (st_id_limbs (rows i))" "list_all (fits repr 16) (st_address_limbs (rows i))"
    "list_all (fits repr 16) (st_storage_key_limbs (rows i))" "list_all (fits repr 16) (st_rw_counter_limbs (rows i))"
    using g(8-11) mpi_lookups_fits [OF can] by blast+
  obtain t where t: "st_tag_bits (rows i) = binary_number_assign 4 (target_usize t)" "rr_tag (st_rw (rows i)) = of_nat (target_usize t)"
    using state_row_columns(5) [OF ok] by blast
  then show tag: "binary_value (st_tag_bits (rows i)) = rr_tag (st_rw (rows i))"
    using target_usize_small [of t] by (simp add: binary_number_assign_def binary_value_of_bool)
  then show "be_limbs (rows i) ! 0 = rr_tag (st_rw (rows i))" by (simp add: be_limbs_def)
  show fits: "fits repr 16 (rr_tag (st_rw (rows i)))"
    unfolding t(2) using fits_of_nat [OF can, of "target_usize t" 16] target_usize_small [of t] by simp
  show "list_all (fits repr 16) (be_limbs (rows i))" if "fits repr 16 (rr_field_tag (st_rw (rows i)))"
    using limbs fits that by (simp add: be_limbs_def tag)
qed

text \<open>Equal keys in the columns are equal limbs before those of the counter.\<close>

lemma rw_key_limbs:
  fixes rows :: "int \<Rightarrow> 'f :: field StateRow"
  assumes can: "canonical (repr :: 'f \<Rightarrow> nat)" and i: "state_row_ok r mpt rows i" and j: "state_row_ok r mpt rows j"
  shows "rw_key (rows i) = rw_key (rows j) \<longleftrightarrow> take 30 (be_limbs (rows i)) = take 30 (be_limbs (rows j))"
proof -
  have wf: "length (st_id_limbs (rows m)) = 2" "length (st_address_limbs (rows m)) = 10" "length (st_storage_key_limbs (rows m)) = 16"
    if "state_row_ok r mpt rows m" for m
    using that by (simp_all add: state_row_ok_def state_row_wf_def n_limbs_defs)
  have t30: "take 30 (be_limbs (rows m)) = [rr_tag (st_rw (rows m))] @ rev (st_id_limbs (rows m)) @ rev (st_address_limbs (rows m)) @
      [rr_field_tag (st_rw (rows m))] @ rev (st_storage_key_limbs (rows m))" if "state_row_ok r mpt rows m" for m
    using wf [OF that] by (simp add: be_limbs_def state_row_limbs(6) [OF can that])
  note ci = state_row_columns [OF i] and cj = state_row_columns [OF j] and li = state_row_limbs [OF can i] and lj = state_row_limbs [OF can j]
  note inj = value_from_limbs_inj [OF can]
  have ids: "value_from_limbs (st_id_limbs (rows i)) = value_from_limbs (st_id_limbs (rows j)) \<longleftrightarrow> st_id_limbs (rows i) = st_id_limbs (rows j)"
    using inj [OF _ _ li(2) lj(2)] wf(1) [OF i] wf(1) [OF j] by auto
  have addrs: "value_from_limbs (st_address_limbs (rows i)) = value_from_limbs (st_address_limbs (rows j)) \<longleftrightarrow> st_address_limbs (rows i) = st_address_limbs (rows j)"
    using inj [OF _ _ li(3) lj(3)] wf(2) [OF i] wf(2) [OF j] by auto
  let ?k = "st_storage_key_limbs (rows i)" and ?l = "st_storage_key_limbs (rows j)"
  have half: "list_all (fits repr 16) (take 8 ?k)" "list_all (fits repr 16) (drop 8 ?k)" "list_all (fits repr 16) (take 8 ?l)" "list_all (fits repr 16) (drop 8 ?l)"
    using li(4) lj(4) by (auto simp: list_all_iff dest: in_set_takeD in_set_dropD)
  have keys: "value_from_limbs (take 8 ?k) = value_from_limbs (take 8 ?l) \<and> value_from_limbs (drop 8 ?k) = value_from_limbs (drop 8 ?l) \<longleftrightarrow> ?k = ?l"
  proof -
    have len: "length (take 8 ?k) = 8" "length (take 8 ?l) = 8" "length (drop 8 ?k) = 8" "length (drop 8 ?l) = 8"
      using wf(3) [OF i] wf(3) [OF j] by simp_all
    have "take 8 ?k = take 8 ?l \<longleftrightarrow> value_from_limbs (take 8 ?k) = value_from_limbs (take 8 ?l)"
      "drop 8 ?k = drop 8 ?l \<longleftrightarrow> value_from_limbs (drop 8 ?k) = value_from_limbs (drop 8 ?l)"
      using inj [OF _ _ half(1,3)] inj [OF _ _ half(2,4)] len by auto
    then show ?thesis using append_take_drop_id [of 8 ?k] append_take_drop_id [of 8 ?l] by metis
  qed
  show ?thesis
    unfolding t30 [OF i] t30 [OF j] rw_key_def ci(1-3) cj(1-3) using ids addrs keys wf [OF i] wf [OF j] by auto
qed

section \<open>Constraints of the tag\<close>

lemma target_usize_inj: "target_usize s = target_usize t \<longleftrightarrow> s = t"
  by (cases s; cases t) (simp_all add: target_usize_def)

lemma tag_matches_eq:
  assumes "q_tag_bits q = binary_number_assign 4 (target_usize t)"
  shows "tag_matches q s = of_bool (s = t)"
proof -
  have "from_bits (as_bits 4 (target_usize u)) = target_usize u" for u using target_usize_small [of u] by simp
  then have "as_bits 4 (target_usize s) = as_bits 4 (target_usize t) \<longleftrightarrow> s = t" by (metis target_usize_inj)
  then show ?thesis by (simp add: tag_matches_def assms binary_number_assign_def value_equals_of_bool)
qed

definition row_has_tag :: "'f :: field StateRow \<Rightarrow> Target \<Rightarrow> bool" where
  "row_has_tag row t \<longleftrightarrow> st_tag_bits row = binary_number_assign 4 (target_usize t)"

lemma tag_constraints:
  assumes "satisfied (fst (build (queries rows i)))" and "row_has_tag (rows i) t"
  shows "case t of TStart \<Rightarrow> satisfied (fst (built_all (build_start_constraints (queries rows i))))
    | TMemory \<Rightarrow> satisfied (fst (built_all (build_memory_constraints (queries rows i))))
    | TStack \<Rightarrow> satisfied (fst (built_all (build_stack_constraints (queries rows i))))
    | TStorage \<Rightarrow> satisfied (fst (built_all (build_account_storage_constraints (queries rows i))))
    | TTxAccessListAccount \<Rightarrow> satisfied (fst (built_all (build_tx_access_list_account_constraints (queries rows i))))
    | TTxAccessListAccountStorage \<Rightarrow> satisfied (fst (built_all (build_tx_access_list_account_storage_constraints (queries rows i))))
    | TTxRefund \<Rightarrow> satisfied (fst (built_all (build_tx_refund_constraints (queries rows i))))
    | TAccount \<Rightarrow> satisfied (fst (built_all (build_account_constraints (queries rows i))))
    | TCallContext \<Rightarrow> satisfied (fst (built_all (build_call_context_constraints (queries rows i))))
    | TTxLog \<Rightarrow> satisfied (fst (built_all (build_tx_log_constraints (queries rows i))))
    | TTxReceipt \<Rightarrow> True"
proof -
  have "q_tag_bits (queries rows i) = binary_number_assign 4 (target_usize t)"
    using assms(2) by (simp add: row_has_tag_def queries_def Let_def)
  from tag_matches_eq [OF this] assms(1) show ?thesis by (cases t) (simp_all add: build_def)
qed

lemmas tag_defs = build_start_constraints_def build_memory_constraints_def build_stack_constraints_def build_account_storage_constraints_def
  build_tx_access_list_account_constraints_def build_tx_access_list_account_storage_constraints_def build_tx_refund_constraints_def
  build_account_constraints_def build_call_context_constraints_def build_tx_log_constraints_def

lemma query_cells:
  "q_initial_value (queries rows i) = st_initial_value (rows i)" "q_state_root (queries rows i) = st_state_root (rows i)"
  "q_state_root_prev (queries rows i) = st_state_root (rows (i - 1))"
  "q_lexicographic_ordering_selector (queries rows i) = st_ordering_selector (rows i)"
  "q_last_access (queries rows i) = 1 - st_not_first_access (rows (i + 1))"
  "q_tag_bits (queries rows i) = st_tag_bits (rows i)"
  by (simp_all add: queries_def Let_def)

text \<open>Only accounts, storage and receipts may start from another value than zero, or change the root.\<close>

lemma initial_and_root:
  assumes "satisfied (fst (build (queries rows i)))" and "row_has_tag (rows i) t" and "t \<notin> {TAccount, TStorage, TTxReceipt}"
  shows "st_initial_value (rows i) = (0, 0)" and "st_ordering_selector (rows i) \<noteq> 0 \<Longrightarrow> st_state_root (rows i) = st_state_root (rows (i - 1))"
  using tag_constraints [OF assms(1,2)] assms(3) by (cases t; simp add: tag_defs query_cells)+

lemma mpt_row_of_update:
  assumes "lookups_hold mpt (snd (build (queries rows i)))" and "row_has_tag (rows i) t" and "t \<in> {TAccount, TStorage}"
    and "st_not_first_access (rows (i + 1)) = 0"
  shows "[rr_address (st_rw (rows i)), fst (rr_storage_key (st_rw (rows i))), snd (rr_storage_key (st_rw (rows i))), st_mpt_proof_type (rows i),
    fst (st_state_root (rows i)), snd (st_state_root (rows i)), fst (st_state_root (rows (i - 1))), snd (st_state_root (rows (i - 1))),
    fst (rr_value (st_rw (rows i))), snd (rr_value (st_rw (rows i))), fst (st_initial_value (rows i)), snd (st_initial_value (rows i))] \<in> set mpt"
proof -
  have "q_tag_bits (queries rows i) = binary_number_assign 4 (target_usize t)"
    using assms(2) by (simp add: row_has_tag_def query_cells)
  note m = tag_matches_eq [OF this]
  show ?thesis
    using assms(1,3,4)
    by (auto simp: build_def m tag_defs query_cells mpt_lookup_def lookup_tables_def Let_def)
      (auto simp: queries_def Let_def q_value_def)
qed

section \<open>Reads\<close>

text \<open>
  Rows \<open>0 .. n - 1\<close> pass, and the order is checked from row 1 on. The challenge separates neighbours when no partial sum over their limbs
  vanishes by accident; all but 496 challenges of each pair of rows do.
\<close>

definition state_table :: "'f :: field \<Rightarrow> 'f list list \<Rightarrow> (int \<Rightarrow> 'f StateRow) \<Rightarrow> int \<Rightarrow> bool" where
  "state_table r mpt rows n \<longleftrightarrow> (\<forall>i. 0 \<le> i \<and> i < n \<longrightarrow> state_row_ok r mpt rows i) \<and>
     (\<forall>i. 0 < i \<and> i < n \<longrightarrow> st_ordering_selector (rows i) = 1)"

definition challenge_separates :: "'f :: field \<Rightarrow> (int \<Rightarrow> 'f StateRow) \<Rightarrow> int \<Rightarrow> bool" where
  "challenge_separates r rows n \<longleftrightarrow> (\<forall>i. 0 < i \<and> i < n \<longrightarrow> separates r (be_limbs (rows i)) (be_limbs (rows (i - 1))))"

lemma first_bits:
  assumes "t < 32"
  shows "(let bits = binary_number_assign 5 t in bits ! 0 * bits ! 1 * bits ! 2 * bits ! 3) = (of_bool (30 \<le> t) :: 'f :: field)"
proof -
  have bit: "binary_number_assign 5 t ! j = (of_bool (odd (t div 2 ^ (4 - j))) :: 'f)" if "j < 5" for j
    using that by (simp add: binary_number_assign_def as_bits_eq rev_nth)
  have "\<forall>t < (32 :: nat). odd (t div 16) \<and> odd (t div 8) \<and> odd (t div 4) \<and> odd (t div 2) \<longleftrightarrow> 30 \<le> t" by code_simp
  then have "odd (t div 16) \<and> odd (t div 8) \<and> odd (t div 4) \<and> odd (t div 2) \<longleftrightarrow> 30 \<le> t" using assms by blast
  then show ?thesis using bit [of 0] bit [of 1] bit [of 2] bit [of 3] by (auto simp: Let_def)
qed

lemma general_constraints:
  fixes rows :: "int \<Rightarrow> 'f :: field StateRow"
  assumes "state_row_ok r mpt rows i"
  shows "rr_is_write (st_rw (rows i)) = 0 \<or> rr_is_write (st_rw (rows i)) = 1"
    and "st_not_first_access (rows i) = (let bits = st_first_different_limb (rows i) in bits ! 0 * bits ! 1 * bits ! 2 * bits ! 3)"
    and "st_not_first_access (rows i) = 0 \<Longrightarrow> rr_value_prev (st_rw (rows i)) = st_initial_value (rows i)"
    and "st_not_first_access (rows i) = 0 \<Longrightarrow> rr_is_write (st_rw (rows i)) = 0 \<Longrightarrow> rr_value (st_rw (rows i)) = st_initial_value (rows i)"
    and "st_not_first_access (rows i) = 1 \<Longrightarrow> st_initial_value (rows i) = st_initial_value (rows (i - 1))"
    and "st_not_first_access (rows i) = 1 \<Longrightarrow> rr_is_write (st_rw (rows i)) = 0 \<Longrightarrow> rr_value (st_rw (rows i)) = rr_value (st_rw (rows (i - 1)))"
proof -
  have "satisfied (fst (build_general_constraints (queries rows i)))" using state_row_gates(7) [OF assms] by (simp add: build_def)
  note g = this [unfolded build_general_constraints_def, simplified,
      unfolded q_is_write_def q_is_read_def q_value_def q_first_access_def q_value_prev_column_def queries_def Let_def, simplified]
  show "rr_is_write (st_rw (rows i)) = 0 \<or> rr_is_write (st_rw (rows i)) = 1" using g by simp
  show "st_not_first_access (rows i) = (let bits = st_first_different_limb (rows i) in bits ! 0 * bits ! 1 * bits ! 2 * bits ! 3)"
    using g by (simp add: Let_def)
  show "rr_value_prev (st_rw (rows i)) = st_initial_value (rows i)" if "st_not_first_access (rows i) = 0" using g that by (simp add: not_expr_def)
  show "rr_value (st_rw (rows i)) = st_initial_value (rows i)" if "st_not_first_access (rows i) = 0" "rr_is_write (st_rw (rows i)) = 0"
    using g that by (simp add: not_expr_def prod_eq_iff)
  show "st_initial_value (rows i) = st_initial_value (rows (i - 1))" if "st_not_first_access (rows i) = 1"
    using g that by (simp add: prod_eq_iff)
  show "rr_value (st_rw (rows i)) = rr_value (st_rw (rows (i - 1)))" if "st_not_first_access (rows i) = 1" "rr_is_write (st_rw (rows i)) = 0"
    using g that by (simp add: not_expr_def prod_eq_iff)
qed

lemma state_table_row:
  assumes "state_table r mpt rows n" and "0 \<le> i" and "i < n"
  shows "state_row_ok r mpt rows i"
  using assms by (simp add: state_table_def)

lemma state_table_difference:
  fixes rows :: "int \<Rightarrow> 'f :: field StateRow"
  assumes "canonical (repr :: 'f \<Rightarrow> nat)" and "state_table r mpt rows n" and "challenge_separates r rows n" and "0 < i" "i < n"
  obtains t d where "t < 32" and "st_first_different_limb (rows i) = binary_number_assign 5 t"
    and "\<forall>j < t. be_limbs (rows i) ! j = be_limbs (rows (i - 1)) ! j"
    and "be_limbs (rows i) ! t = be_limbs (rows (i - 1)) ! t + of_nat d" and "0 < d" and "d < 2 ^ 16"
proof -
  have ok: "state_row_ok r mpt rows i" "state_row_ok r mpt rows (i - 1)" using state_table_row [OF assms(2)] assms(4,5) by simp_all
  have wf: "state_row_wf (rows i)" "state_row_wf (rows (i - 1))" using ok by (simp_all add: state_row_ok_def)
  have sel: "st_ordering_selector (rows i) \<noteq> 0" and sep: "separates r (be_limbs (rows i)) (be_limbs (rows (i - 1)))"
    using assms(2-5) by (simp_all add: state_table_def challenge_separates_def)
  show ?thesis by (rule first_difference [OF assms(1) wf sel state_row_gates(6,12) [OF ok(1)] sep]) (rule that)
qed

text \<open>Whether a row continues the key of the row before is known without a bound on the field tag, and so is the order of the tags.\<close>

lemma state_table_step:
  fixes rows :: "int \<Rightarrow> 'f :: field StateRow"
  assumes can: "canonical (repr :: 'f \<Rightarrow> nat)" and table: "state_table r mpt rows n" and sep: "challenge_separates r rows n" and i: "0 < i" "i < n"
  shows "st_not_first_access (rows i) = of_bool (rw_key (rows i) = rw_key (rows (i - 1)))"
    and "repr (rr_tag (st_rw (rows (i - 1)))) \<le> repr (rr_tag (st_rw (rows i)))"
proof -
  have ok: "state_row_ok r mpt rows i" "state_row_ok r mpt rows (i - 1)" using state_table_row [OF table] i by simp_all
  let ?cur = "be_limbs (rows i)" and ?prev = "be_limbs (rows (i - 1))"
  obtain t d where t: "t < 32" "st_first_different_limb (rows i) = binary_number_assign 5 t" "\<forall>j < t. ?cur ! j = ?prev ! j"
    "?cur ! t = ?prev ! t + of_nat d" "0 < d" "d < 2 ^ 16"
    by (rule state_table_difference [OF can table sep i])
  have "(of_nat d :: 'f) \<noteq> 0" using canonicalD [OF can, of d 0] t(5,6) by simp
  then have ne: "?cur ! t \<noteq> ?prev ! t" using t(4) by simp
  have len: "length ?cur = 32" "length ?prev = 32" using ok by (simp_all add: length_be_limbs state_row_ok_def)
  have "take 30 ?cur = take 30 ?prev \<longleftrightarrow> 30 \<le> t"
  proof
    assume "take 30 ?cur = take 30 ?prev"
    then show "30 \<le> t" using ne by (metis not_le nth_take)
  qed (use t(3) len in \<open>auto intro: nth_equalityI\<close>)
  then show "st_not_first_access (rows i) = of_bool (rw_key (rows i) = rw_key (rows (i - 1)))"
    using general_constraints(2) [OF ok(1)] first_bits [OF t(1), where ?'f = 'f] by (simp add: t(2) rw_key_limbs [OF can ok] Let_def)
  have "repr (?prev ! 0) \<le> repr (?cur ! 0)"
  proof (cases "t = 0")
    case True
    then show ?thesis
      using grown_limb [OF can _ _ t(5,6), of "?prev ! 0" "?cur ! 0"] t(4) state_row_limbs(1,7) [OF can ok(2)] by simp
  qed (use t(3) in simp)
  then show "repr (rr_tag (st_rw (rows (i - 1)))) \<le> repr (rr_tag (st_rw (rows i)))"
    using state_row_limbs(7) [OF can ok(1)] state_row_limbs(7) [OF can ok(2)] by simp
qed

lemma state_table_less:
  fixes rows :: "int \<Rightarrow> 'f :: field StateRow"
  assumes can: "canonical (repr :: 'f \<Rightarrow> nat)" and table: "state_table r mpt rows n" and sep: "challenge_separates r rows n" and i: "0 < i" "i < n"
    and fits: "fits repr 16 (rr_field_tag (st_rw (rows i)))" "fits repr 16 (rr_field_tag (st_rw (rows (i - 1))))"
  shows "limbs_value (map repr (be_limbs (rows (i - 1)))) < limbs_value (map repr (be_limbs (rows i)))"
proof -
  have ok: "state_row_ok r mpt rows i" "state_row_ok r mpt rows (i - 1)" using state_table_row [OF table] i by simp_all
  have wf: "state_row_wf (rows i)" "state_row_wf (rows (i - 1))" using ok by (simp_all add: state_row_ok_def)
  have sel: "st_ordering_selector (rows i) \<noteq> 0" and sp: "separates r (be_limbs (rows i)) (be_limbs (rows (i - 1)))"
    using table sep i by (simp_all add: state_table_def challenge_separates_def)
  have range: "list_all (fits repr 16) (be_limbs (rows i) @ be_limbs (rows (i - 1)))"
    using state_row_limbs(8) [OF can ok(1)] state_row_limbs(8) [OF can ok(2)] fits by simp
  show ?thesis by (rule ordering_sound [OF can wf sel state_row_gates(6,12) [OF ok(1)] sp range])
qed

text \<open>
  The circuit fixes the field tag of every row but those of logs and receipts, for which it has no constraint; the order of their keys is
  certain only when their field tags are known to fit a limb.
\<close>

definition log_row :: "'f :: field StateRow \<Rightarrow> bool" where
  "log_row row \<longleftrightarrow> row_has_tag row TTxLog \<or> row_has_tag row TTxReceipt"

definition log_field_tags_fit :: "('f :: field \<Rightarrow> nat) \<Rightarrow> (int \<Rightarrow> 'f StateRow) \<Rightarrow> int \<Rightarrow> bool" where
  "log_field_tags_fit repr rows n \<longleftrightarrow> (\<forall>j. 0 \<le> j \<and> j < n \<and> log_row (rows j) \<longrightarrow> fits repr 16 (rr_field_tag (st_rw (rows j))))"

lemma field_tag_fits:
  fixes rows :: "int \<Rightarrow> 'f :: field StateRow"
  assumes can: "canonical (repr :: 'f \<Rightarrow> nat)" and ok: "state_row_ok r mpt rows i" and "\<not> log_row (rows i)"
  shows "fits repr 16 (rr_field_tag (st_rw (rows i)))"
proof -
  obtain t where t: "row_has_tag (rows i) t" using state_row_columns(5) [OF ok] by (auto simp: row_has_tag_def)
  have small: "fits repr 16 (of_nat m :: 'f)" if "m < 2 ^ 16" for m using fits_of_nat [OF can that] by simp
  have ft: "q_field_tag (queries rows i) = rr_field_tag (st_rw (rows i))" by (simp add: q_field_tag_def queries_def Let_def)
  have look: "[rr_field_tag (st_rw (rows i))] \<in> set (lookup_tables mpt CallContextFieldTags)" if "t = TCallContext"
  proof -
    have "q_tag_bits (queries rows i) = binary_number_assign 4 (target_usize t)" using t by (simp add: row_has_tag_def query_cells)
    note m = tag_matches_eq [OF this]
    show ?thesis using state_row_gates(13) [OF ok] that by (simp add: build_def m build_call_context_constraints_def ft)
  qed
  have "t = TCallContext \<or> rr_field_tag (st_rw (rows i)) \<in> insert 0 (set (map of_nat account_field_tags))"
    using tag_constraints [OF state_row_gates(7) [OF ok] t] assms(3) t
    by (cases t) (simp_all add: log_row_def tag_defs ft Let_def)
  then show ?thesis
    using look small small [of 0] small [of 1] small [of 2] small [of 3] small [of 4]
    by (auto simp: lookup_tables_def account_field_tags_def account_field_tag_u64_def)
qed

text \<open>The number of a row is its key above its counter.\<close>

definition key_value :: "('f :: field \<Rightarrow> nat) \<Rightarrow> 'f StateRow \<Rightarrow> nat" where
  "key_value repr row = limbs_value (map repr (take 30 (be_limbs row)))"

lemma row_number:
  fixes rows :: "int \<Rightarrow> 'f :: field StateRow"
  assumes can: "canonical (repr :: 'f \<Rightarrow> nat)" and ok: "state_row_ok r mpt rows i"
  shows "limbs_value (map repr (be_limbs (rows i))) = key_value repr (rows i) * 2 ^ 32 + repr (rr_rw_counter (st_rw (rows i)))"
    and "repr (rr_rw_counter (st_rw (rows i))) < 2 ^ 32"
proof -
  have wf: "length (be_limbs (rows i)) = 32" "length (st_rw_counter_limbs (rows i)) = 2"
    using ok length_be_limbs by (auto simp: state_row_ok_def state_row_wf_def n_limbs_defs)
  have d: "drop 30 (be_limbs (rows i)) = rev (st_rw_counter_limbs (rows i))"
    using ok by (simp add: be_limbs_def state_row_ok_def state_row_wf_def n_limbs_defs)
  let ?c = "limbs_value (map repr (rev (st_rw_counter_limbs (rows i))))"
  have "?c < (2 ^ 16) ^ 2"
    using limbs_value_bound [of "map repr (rev (st_rw_counter_limbs (rows i)))"] state_row_limbs(5) [OF can ok] wf(2)
    by (simp add: list_all_iff fits_def)
  then have c: "repr (rr_rw_counter (st_rw (rows i))) = ?c"
    using can unfolding state_row_columns(4) [OF ok] value_from_limbs_nat [OF state_row_limbs(5) [OF can ok]] by (simp add: canonical_def)
  show "repr (rr_rw_counter (st_rw (rows i))) < 2 ^ 32" using \<open>?c < (2 ^ 16) ^ 2\<close> unfolding c by simp
  have "be_limbs (rows i) = take 30 (be_limbs (rows i)) @ rev (st_rw_counter_limbs (rows i))" unfolding d [symmetric] by simp
  then have "limbs_value (map repr (be_limbs (rows i))) = key_value repr (rows i) * (2 ^ 16) ^ 2 + ?c"
    using wf(2) by (metis key_value_def length_map length_rev limbs_value_append map_append)
  then show "limbs_value (map repr (be_limbs (rows i))) = key_value repr (rows i) * 2 ^ 32 + repr (rr_rw_counter (st_rw (rows i)))"
    unfolding c by simp
qed

lemma key_value_eq:
  fixes rows :: "int \<Rightarrow> 'f :: field StateRow"
  assumes can: "canonical (repr :: 'f \<Rightarrow> nat)" and i: "state_row_ok r mpt rows i" and j: "state_row_ok r mpt rows j"
    and fits: "fits repr 16 (rr_field_tag (st_rw (rows i)))" "fits repr 16 (rr_field_tag (st_rw (rows j)))"
  shows "rw_key (rows i) = rw_key (rows j) \<longleftrightarrow> key_value repr (rows i) = key_value repr (rows j)"
proof -
  let ?x = "take 30 (be_limbs (rows i))" and ?y = "take 30 (be_limbs (rows j))"
  have f: "list_all (fits repr 16) ?x" "list_all (fits repr 16) ?y"
    using state_row_limbs(8) [OF can i fits(1)] state_row_limbs(8) [OF can j fits(2)] by (auto simp: list_all_iff dest: in_set_takeD)
  have len: "length ?x = length ?y" using i j by (simp add: length_be_limbs state_row_ok_def)
  have "?x = ?y" if "limbs_value (map repr ?x) = limbs_value (map repr ?y)"
  proof -
    have "map repr ?x = map repr ?y" using that len f by (intro limbs_value_inj) (auto simp: list_all_iff fits_def)
    then have "map of_nat (map repr ?x) = (map of_nat (map repr ?y) :: 'f list)" by (simp only:)
    moreover have "map of_nat (map repr zs) = zs" if "list_all (fits repr 16) zs" for zs :: "'f list"
      using that by (auto simp: list_all_iff fits_def intro: map_idI)
    ultimately show ?thesis using f by simp
  qed
  then show ?thesis unfolding rw_key_limbs [OF can i j] key_value_def by metis
qed

lemma row_numbers_less:
  fixes rows :: "int \<Rightarrow> 'f :: field StateRow"
  assumes can: "canonical (repr :: 'f \<Rightarrow> nat)" and table: "state_table r mpt rows n" and sep: "challenge_separates r rows n"
    and ij: "0 \<le> j" "j < i" "i < n" and fits: "\<forall>k. j \<le> k \<and> k \<le> i \<longrightarrow> fits repr 16 (rr_field_tag (st_rw (rows k)))"
  shows "limbs_value (map repr (be_limbs (rows j))) < limbs_value (map repr (be_limbs (rows i)))"
  using ij(2,3) fits
proof (induction i rule: int_gr_induct)
  case base
  then show ?case using state_table_less [OF can table sep, of "j + 1"] ij(1) by simp
next
  case (step i)
  then have "limbs_value (map repr (be_limbs (rows i))) < limbs_value (map repr (be_limbs (rows (i + 1))))"
    using state_table_less [OF can table sep, of "i + 1"] ij(1) by simp
  moreover have "limbs_value (map repr (be_limbs (rows j))) < limbs_value (map repr (be_limbs (rows i)))" using step by simp
  ultimately show ?case by simp
qed

lemma keys_sorted:
  fixes rows :: "int \<Rightarrow> 'f :: field StateRow"
  assumes can: "canonical (repr :: 'f \<Rightarrow> nat)" and table: "state_table r mpt rows n" and sep: "challenge_separates r rows n"
    and ij: "0 \<le> j" "j < i" "i < n" and fits: "\<forall>k. j \<le> k \<and> k \<le> i \<longrightarrow> fits repr 16 (rr_field_tag (st_rw (rows k)))"
  shows "key_value repr (rows j) \<le> key_value repr (rows i)"
    and "key_value repr (rows j) = key_value repr (rows i) \<Longrightarrow> repr (rr_rw_counter (st_rw (rows j))) < repr (rr_rw_counter (st_rw (rows i)))"
proof -
  have ok: "state_row_ok r mpt rows i" "state_row_ok r mpt rows j" using state_table_row [OF table] ij by simp_all
  let ?K = "\<lambda>i. key_value repr (rows i)" and ?C = "\<lambda>i. repr (rr_rw_counter (st_rw (rows i)))"
  have less: "?K j * 2 ^ 32 + ?C j < ?K i * 2 ^ 32 + ?C i" and c: "?C i < 2 ^ 32"
    using row_numbers_less [OF can table sep ij fits] row_number [OF can ok(1)] row_number [OF can ok(2)] by simp_all
  show "?K j \<le> ?K i"
  proof (rule ccontr)
    assume "\<not> ?K j \<le> ?K i"
    then have "?K i * 2 ^ 32 + ?C i < ?K j * 2 ^ 32 + ?C j" by (intro lex_less c) simp
    then show False using less by simp
  qed
  show "?C j < ?C i" if "?K j = ?K i" using less that by simp
qed

text \<open>The tags do not decrease along the table, so two rows of one tag have only rows of that tag between them.\<close>

lemma tags_sorted:
  fixes rows :: "int \<Rightarrow> 'f :: field StateRow"
  assumes "canonical (repr :: 'f \<Rightarrow> nat)" and "state_table r mpt rows n" and "challenge_separates r rows n" and "0 \<le> j" and "j \<le> i" and "i < n"
  shows "repr (rr_tag (st_rw (rows j))) \<le> repr (rr_tag (st_rw (rows i)))"
  using assms(5,6)
proof (induction i rule: int_ge_induct)
  case (step i)
  then show ?case using state_table_step(2) [OF assms(1-3), of "i + 1"] assms(4) by fastforce
qed simp

lemma log_row_tag:
  fixes rows :: "int \<Rightarrow> 'f :: field StateRow"
  assumes can: "canonical (repr :: 'f \<Rightarrow> nat)" and i: "state_row_ok r mpt rows i" and j: "state_row_ok r mpt rows j"
    and "rr_tag (st_rw (rows i)) = rr_tag (st_rw (rows j))"
  shows "log_row (rows i) \<longleftrightarrow> log_row (rows j)"
proof -
  obtain s t where st: "st_tag_bits (rows i) = binary_number_assign 4 (target_usize s)" "rr_tag (st_rw (rows i)) = of_nat (target_usize s)"
    "st_tag_bits (rows j) = binary_number_assign 4 (target_usize t)" "rr_tag (st_rw (rows j)) = of_nat (target_usize t)"
    using state_row_columns(5) [OF i] state_row_columns(5) [OF j] by blast
  then have "(of_nat (target_usize s) :: 'f) = of_nat (target_usize t)" using assms(4) by simp
  moreover have "target_usize s < 2 ^ 253" "target_usize t < 2 ^ 253" using target_usize_small [of s] target_usize_small [of t] by simp_all
  ultimately have "target_usize s = target_usize t" using canonicalD [OF can] by blast
  then show ?thesis using st(1,3) by (simp add: log_row_def row_has_tag_def)
qed

lemma segment_fits:
  fixes rows :: "int \<Rightarrow> 'f :: field StateRow"
  assumes can: "canonical (repr :: 'f \<Rightarrow> nat)" and table: "state_table r mpt rows n" and sep: "challenge_separates r rows n"
    and logs: "log_row (rows i) \<longrightarrow> log_field_tags_fit repr rows n" and jk: "0 \<le> j" "j \<le> k" "k \<le> i" "i < n"
    and tag: "rr_tag (st_rw (rows j)) = rr_tag (st_rw (rows i))"
  shows "fits repr 16 (rr_field_tag (st_rw (rows k)))"
proof -
  have ok: "state_row_ok r mpt rows i" "state_row_ok r mpt rows k" using state_table_row [OF table] jk by simp_all
  have "repr (rr_tag (st_rw (rows k))) = repr (rr_tag (st_rw (rows i)))"
    using tags_sorted [OF can table sep, of j k] tags_sorted [OF can table sep, of k i] jk tag by simp
  moreover have "rr_tag (st_rw (rows m)) = of_nat (repr (rr_tag (st_rw (rows m))))" if "state_row_ok r mpt rows m" for m
    using state_row_limbs(1) [OF can that] by (simp add: fits_def)
  ultimately have "rr_tag (st_rw (rows k)) = rr_tag (st_rw (rows i))" using ok by metis
  then show ?thesis
    using field_tag_fits [OF can ok(2)] log_row_tag [OF can ok(2,1)] logs jk by (auto simp: log_field_tags_fit_def)
qed

lemma key_segment:
  fixes rows :: "int \<Rightarrow> 'f :: field StateRow"
  assumes can: "canonical (repr :: 'f \<Rightarrow> nat)" and table: "state_table r mpt rows n" and sep: "challenge_separates r rows n"
    and logs: "log_row (rows i) \<longrightarrow> log_field_tags_fit repr rows n" and ji: "0 \<le> j" "j < i" "i < n" and key: "rw_key (rows j) = rw_key (rows i)"
  shows "repr (rr_rw_counter (st_rw (rows j))) < repr (rr_rw_counter (st_rw (rows i)))"
    and "j \<le> k \<Longrightarrow> k \<le> i \<Longrightarrow> rw_key (rows k) = rw_key (rows i)"
proof -
  have ok: "state_row_ok r mpt rows k" if "j \<le> k" "k \<le> i" for k using state_table_row [OF table] ji that by simp
  have fits: "fits repr 16 (rr_field_tag (st_rw (rows k)))" if "j \<le> k" "k \<le> i" for k
    using segment_fits [OF can table sep logs ji(1) that ji(3)] key by (simp add: rw_key_def)
  have eq: "rw_key (rows k) = rw_key (rows l) \<longleftrightarrow> key_value repr (rows k) = key_value repr (rows l)" if "j \<le> k" "k \<le> i" "j \<le> l" "l \<le> i" for k l
    using key_value_eq [OF can ok ok fits fits] that by simp
  have K: "key_value repr (rows j) = key_value repr (rows i)" using eq [of j i] key ji by simp
  show "repr (rr_rw_counter (st_rw (rows j))) < repr (rr_rw_counter (st_rw (rows i)))"
    using keys_sorted(2) [OF can table sep ji] fits K by blast
  show "rw_key (rows k) = rw_key (rows i)" if k: "j \<le> k" "k \<le> i"
  proof -
    have "key_value repr (rows l) \<le> key_value repr (rows m)" if "j \<le> l" "l \<le> m" "m \<le> i" for l m
      using keys_sorted(1) [OF can table sep, of l m] fits that ji by (cases "l = m") auto
    from this [of j k] this [of k i] have "key_value repr (rows k) = key_value repr (rows i)" using K k by simp
    then show ?thesis using eq [of k i] k ji by simp
  qed
qed

text \<open>The rows before a row that write its key.\<close>

definition writes_before :: "(int \<Rightarrow> 'f :: field StateRow) \<Rightarrow> int \<Rightarrow> int set" where
  "writes_before rows i = {j. 0 \<le> j \<and> j < i \<and> rw_key (rows j) = rw_key (rows i) \<and> rr_is_write (st_rw (rows j)) = 1}"

lemma finite_writes: "finite (writes_before rows i)"
  by (rule finite_subset [of _ "{0..<i}"]) (auto simp: writes_before_def)

text \<open>What a read returns when nothing was written: the value of row 0 if that has the key, whose own value the order does not bind.\<close>

definition unwritten_value :: "(int \<Rightarrow> 'f :: field StateRow) \<Rightarrow> int \<Rightarrow> 'f \<times> 'f" where
  "unwritten_value rows i =
     (if rw_key (rows 0) = rw_key (rows i) \<and> \<not> row_has_tag (rows 0) TStart then rr_value (st_rw (rows 0)) else st_initial_value (rows i))"

lemma start_row_zero:
  assumes "state_row_ok r mpt rows i" and "row_has_tag (rows i) TStart"
  shows "rr_value (st_rw (rows i)) = (0, 0)" and "st_initial_value (rows i) = (0, 0)"
  using tag_constraints [OF state_row_gates(7) [OF assms(1)] assms(2)]
  by (simp_all add: build_start_constraints_def) (simp_all add: q_value_def queries_def Let_def)

lemma key_transfer:
  fixes rows :: "int \<Rightarrow> 'f :: field StateRow"
  assumes can: "canonical (repr :: 'f \<Rightarrow> nat)" and i: "state_row_ok r mpt rows i" and j: "state_row_ok r mpt rows j"
    and "rw_key (rows i) = rw_key (rows j)"
  shows "log_row (rows i) \<longleftrightarrow> log_row (rows j)"
  using log_row_tag [OF can i j] assms(4) by (simp add: rw_key_def)

lemma read_source:
  fixes rows :: "int \<Rightarrow> 'f :: field StateRow"
  assumes can: "canonical (repr :: 'f \<Rightarrow> nat)" and table: "state_table r mpt rows n" and sep: "challenge_separates r rows n"
    and "0 < i" "i < n" "log_row (rows i) \<longrightarrow> log_field_tags_fit repr rows n" "rr_is_write (st_rw (rows i)) = 0"
  shows "rr_value (st_rw (rows i)) =
     (if writes_before rows i = {} then unwritten_value rows i else rr_value (st_rw (rows (Max (writes_before rows i)))))"
  using assms(4-)
proof (induction "nat i" arbitrary: i rule: less_induct)
  case less
  have ok: "state_row_ok r mpt rows i" "state_row_ok r mpt rows (i - 1)" "state_row_ok r mpt rows 0"
    using state_table_row [OF table] less.prems by simp_all
  have nf: "st_not_first_access (rows i) = of_bool (rw_key (rows i) = rw_key (rows (i - 1)))"
    using state_table_step(1) [OF can table sep] less.prems by simp
  show ?case
  proof (cases "rw_key (rows i) = rw_key (rows (i - 1))")
    case True
    then have v: "rr_value (st_rw (rows i)) = rr_value (st_rw (rows (i - 1)))" "st_initial_value (rows i) = st_initial_value (rows (i - 1))"
      using general_constraints(5,6) [OF ok(1)] nf less.prems(4) by simp_all
    consider "rr_is_write (st_rw (rows (i - 1))) = 1" | "rr_is_write (st_rw (rows (i - 1))) = 0" "i = 1"
      | "rr_is_write (st_rw (rows (i - 1))) = 0" "1 < i"
      using general_constraints(1) [OF ok(2)] less.prems(1) by linarith
    then show ?thesis
    proof cases
      case 1
      then have "i - 1 \<in> writes_before rows i" using True less.prems(1) by (simp add: writes_before_def)
      moreover have "\<forall>j \<in> writes_before rows i. j \<le> i - 1" by (auto simp: writes_before_def)
      ultimately have "Max (writes_before rows i) = i - 1" using finite_writes by (intro Max_eqI) auto
      then show ?thesis using v(1) \<open>i - 1 \<in> _\<close> by auto
    next
      case 2
      have "j \<notin> writes_before rows i" for j using 2 by (cases "j = 0") (auto simp: writes_before_def)
      then have "writes_before rows i = {}" by blast
      then show ?thesis using v True 2(2) start_row_zero [OF ok(3)] by (auto simp: unwritten_value_def)
    next
      case 3
      have "j \<in> writes_before rows i \<longleftrightarrow> j \<in> writes_before rows (i - 1)" for j
        using 3 True by (cases "j = i - 1") (auto simp: writes_before_def)
      then have w: "writes_before rows i = writes_before rows (i - 1)" by blast
      have "log_row (rows (i - 1)) \<longrightarrow> log_field_tags_fit repr rows n" using less.prems(3) key_transfer [OF can ok(1,2) True] by simp
      from less.hyps [OF _ _ _ this 3(1)] 3 less.prems(2) show ?thesis unfolding w using v True by (simp add: unwritten_value_def)
    qed
  next
    case False
    have no: "rw_key (rows j) \<noteq> rw_key (rows i)" if "0 \<le> j" "j < i" for j
      using key_segment(2) [OF can table sep less.prems(3) that less.prems(2), of "i - 1"] False that by auto
    then have "writes_before rows i = {}" by (auto simp: writes_before_def)
    moreover have "unwritten_value rows i = st_initial_value (rows i)" using no [of 0] less.prems(1) by (simp add: unwritten_value_def)
    ultimately show ?thesis using general_constraints(4) [OF ok(1)] nf False less.prems(4) by simp
  qed
qed

section \<open>Proof types\<close>

lemma is_zero_cell:
  assumes "state_row_ok r mpt rows i"
  shows "st_is_zero (rows i) = of_bool (st_initial_value (rows i) = (0, 0) \<and> rr_value (st_rw (rows i)) = (0, 0))"
proof -
  have "st_selector (rows i) = 1" and "satisfied (state_gates r rows i)" using assms by (simp_all add: state_row_ok_def)
  then have "satisfied (batched_is_zero_gates 1 (st_is_zero (rows i)) (st_nonempty_witness (rows i))
      [fst (st_initial_value (rows i)), snd (st_initial_value (rows i)), fst (rr_value (st_rw (rows i))), snd (rr_value (st_rw (rows i)))])"
    by (simp add: state_gates_def Let_def)
  from batched_is_zero_sound [OF _ this] show ?thesis by (auto simp: prod_eq_iff)
qed

text \<open>The polynomial that picks the code hash among three field tags is 3 at the fourth, \<open>NonExisting\<close>.\<close>

definition code_hash_factor :: "AccountFieldTag \<Rightarrow> nat" where
  "code_hash_factor t = (case t of AFT_Nonce \<Rightarrow> 0 | AFT_Balance \<Rightarrow> 0 | AFT_CodeHash \<Rightarrow> 1 | AFT_NonExisting \<Rightarrow> 3)"

lemma code_hash_polynomial:
  assumes "canonical (repr :: 'f :: field \<Rightarrow> nat)"
  shows "generate_lagrange_base_polynomial (of_nat (account_field_tag_u64 t) :: 'f) (account_field_tag_u64 AFT_CodeHash)
      (map account_field_tag_u64 [AFT_Nonce, AFT_Balance, AFT_CodeHash]) = of_nat (code_hash_factor t)"
proof -
  have two: "(2 :: 'f) \<noteq> 0" using canonicalD [OF assms, of 2 0] by simp
  then show ?thesis
    by (cases t) (simp_all add: generate_lagrange_base_polynomial_def account_field_tag_u64_def code_hash_factor_def field_simps)
qed

text \<open>The type of proof looked up for an account row with a given field tag.\<close>

definition account_proof_type :: "AccountFieldTag \<Rightarrow> bool \<Rightarrow> MPTProofType" where
  "account_proof_type t non_exist = (case t of
      AFT_Nonce \<Rightarrow> NonceChanged | AFT_Balance \<Rightarrow> BalanceChanged
    | AFT_CodeHash \<Rightarrow> (if non_exist then AccountDoesNotExist else CodeHashChanged)
    | AFT_NonExisting \<Rightarrow> (if non_exist then StorageDoesNotExist else AccountDestructed))"

lemma proof_type:
  fixes rows :: "int \<Rightarrow> 'f :: field StateRow"
  assumes can: "canonical (repr :: 'f \<Rightarrow> nat)" and ok: "state_row_ok r mpt rows i"
  defines "z \<equiv> st_initial_value (rows i) = (0, 0) \<and> rr_value (st_rw (rows i)) = (0, 0)"
  shows "row_has_tag (rows i) TStorage \<Longrightarrow>
      st_mpt_proof_type (rows i) = of_nat (mpt_proof_type_u64 (if z then StorageDoesNotExist else StorageChanged))"
    and "row_has_tag (rows i) TAccount \<Longrightarrow> \<exists>f. rr_field_tag (st_rw (rows i)) = of_nat (account_field_tag_u64 f) \<and>
      st_mpt_proof_type (rows i) = of_nat (mpt_proof_type_u64 (account_proof_type f z))"
proof -
  have z: "q_is_non_exist (queries rows i) = of_bool z" using is_zero_cell [OF ok] by (simp add: queries_def Let_def z_def)
  have c: "q_field_tag (queries rows i) = rr_field_tag (st_rw (rows i))" "q_mpt_proof_type (queries rows i) = st_mpt_proof_type (rows i)"
    by (simp_all add: q_field_tag_def queries_def Let_def)
  note t = tag_constraints [OF state_row_gates(7) [OF ok]]
  show "st_mpt_proof_type (rows i) = of_nat (mpt_proof_type_u64 (if z then StorageDoesNotExist else StorageChanged))" if "row_has_tag (rows i) TStorage"
    using t [OF that] by (simp add: build_account_storage_constraints_def z c)
  assume "row_has_tag (rows i) TAccount"
  note a = t [OF this, simplified, unfolded build_account_constraints_def Let_def, simplified, unfolded z c]
  then obtain f where f: "rr_field_tag (st_rw (rows i)) = of_nat (account_field_tag_u64 f)"
    by (auto simp: account_field_tags_def)
  note p = code_hash_polynomial [OF can, of f, simplified]
  have "st_mpt_proof_type (rows i) = of_nat (mpt_proof_type_u64 (account_proof_type f z))"
    using a unfolding f p by (cases f; cases z) (simp_all add: code_hash_factor_def account_proof_type_def account_field_tag_u64_def mpt_proof_type_u64_def)
  then show "\<exists>f. rr_field_tag (st_rw (rows i)) = of_nat (account_field_tag_u64 f) \<and>
      st_mpt_proof_type (rows i) = of_nat (mpt_proof_type_u64 (account_proof_type f z))" using f by blast
qed

end
