(* ===== verification/State_Properties.thy ===== *)
theory State_Properties
  imports State_Consistency
begin

text \<open>
  Properties of the state circuit, with a table of five rows as an example: a start row, a write and a read of the stack, and writes of
  two storage slots, each of which moves the root.
\<close>

section \<open>Assigned keys pass\<close>

lemma in_ux_table: "x < 2 ^ k \<Longrightarrow> [of_nat x] \<in> set (ux_table k)"
  by (auto simp: ux_table_def)

lemma zero_in_tables: "[0] \<in> set (ux_table k)" "[0] \<in> set (lookup_tables mpt CallContextFieldTags)"
  using in_ux_table [of 0 k] by (auto simp: lookup_tables_def intro: image_eqI [of _ _ 0])

lemma value_from_limbs_of_nat: "value_from_limbs (map of_nat limbs) = of_nat (limbs_value (rev limbs))"
proof (induction limbs)
  case (Cons l ls)
  then show ?case by (simp add: value_from_limbs_def limbs_value_append)
qed (simp add: value_from_limbs_def)

lemma mpi_lookups_of_nat: "\<forall>x \<in> set limbs. x < 2 ^ 16 \<Longrightarrow> lookups_hold mpt (mpi_lookups (map of_nat limbs))"
proof (induction limbs)
  case (Cons l ls)
  then show ?case using in_ux_table [of l 16] by (simp add: mpi_lookups_def range_check_u16_def lookup_tables_def)
qed (simp add: mpi_lookups_def)

lemma mpi_lookups_zero: "lookups_hold mpt (mpi_lookups (replicate n 0))"
  using mpi_lookups_of_nat [of "replicate n 0" mpt] by (simp add: map_replicate)

lemma le_limbs_facts:
  "\<forall>x \<in> set (le_bytes_to_limbs bs). x < 2 ^ 16" "even (length bs) \<Longrightarrow> limbs_value (rev (le_bytes_to_limbs bs)) = nat_of_be (rev bs)"
  "length (le_bytes_to_limbs bs) = length bs div 2" "even k \<Longrightarrow> take (k div 2) (le_bytes_to_limbs bs) = le_bytes_to_limbs (take k bs)"
  "even k \<Longrightarrow> drop (k div 2) (le_bytes_to_limbs bs) = le_bytes_to_limbs (drop k bs)"
proof -
  show "\<forall>x \<in> set (le_bytes_to_limbs bs). x < 2 ^ 16"
  proof (induction bs rule: le_bytes_to_limbs.induct)
    case (1 lo hi bytes)
    then show ?case using unsigned_less [of hi, where ?'a = nat] unsigned_less [of lo, where ?'a = nat] by simp
  qed auto
  show "limbs_value (rev (le_bytes_to_limbs bs)) = nat_of_be (rev bs)" if "even (length bs)"
    using limbs_value_be [of "rev bs"] le_be_limbs [of bs] that by simp
  show "length (le_bytes_to_limbs bs) = length bs div 2" by (induction bs rule: le_bytes_to_limbs.induct) auto
  have td: "take m (le_bytes_to_limbs bs) = le_bytes_to_limbs (take (2 * m) bs) \<and> drop m (le_bytes_to_limbs bs) = le_bytes_to_limbs (drop (2 * m) bs)" for m
    by (induction bs arbitrary: m rule: le_bytes_to_limbs.induct) (simp_all add: take_Cons' drop_Cons' diff_mult_distrib2 numeral_2_eq_2)
  show "take (k div 2) (le_bytes_to_limbs bs) = le_bytes_to_limbs (take k bs)" "drop (k div 2) (le_bytes_to_limbs bs) = le_bytes_to_limbs (drop k bs)"
    if "even k" using td [of "k div 2"] that by simp_all
qed

lemma from_bytes_value_nat: "from_bytes_value bs = (of_nat (nat_of_le bs) :: 'f :: field)"
proof -
  have "foldl (\<lambda>(v, m) byte. (v + of_nat (unat byte) * m, m * 256)) (a, m) bs = (a + m * of_nat (nat_of_le bs), m * 256 ^ length bs)" for a m :: 'f
    by (induction bs arbitrary: a m) (simp_all add: algebra_simps)
  then show ?thesis by (simp add: from_bytes_value_def)
qed

lemma nat_of_be_rev_le: "nat_of_be (rev bs) = nat_of_le bs"
  using nat_of_be_rev [of bs] by simp

lemma nat_of_le_zeros: "nat_of_le (replicate n 0) = 0"
  by (induction n) simp_all

text \<open>The limbs of an assigned row make up the columns of the table, and are in range.\<close>

lemma assigned_keys_pass:
  fixes row :: "'f :: field StateRow"
  assumes "rw_small rw"
  defines "a \<equiv> assign_sort_keys rw row"
  shows "satisfied (mpi_gates q [rr_rw_counter (st_rw a)] (st_rw_counter_limbs a))" "satisfied (mpi_gates q [rr_id (st_rw a)] (st_id_limbs a))"
    "satisfied (mpi_gates q [rr_address (st_rw a)] (st_address_limbs a))"
    "satisfied (mpi_gates q [fst (rr_storage_key (st_rw a)), snd (rr_storage_key (st_rw a))] (st_storage_key_limbs a))"
    "satisfied (binary_number_gates 4 (map target_usize all_targets) q (st_tag_bits a) (Some (rr_tag (st_rw a))))"
    "lookups_hold mpt (mpi_lookups (st_rw_counter_limbs a))" "lookups_hold mpt (mpi_lookups (st_id_limbs a))"
    "lookups_hold mpt (mpi_lookups (st_address_limbs a))" "lookups_hold mpt (mpi_lookups (st_storage_key_limbs a))"
proof -
  have u32: "value_from_limbs (map of_nat (u32_to_limbs (of_nat n))) = (of_nat n :: 'f)" "length (u32_to_limbs (of_nat n)) = 2" if "n < 2 ^ 32" for n
    using that by (simp_all add: value_from_limbs_of_nat u32_to_limbs_def le_limbs_facts nat_of_be_rev_le nat_of_le_le_bytes unat_of_nat)
  have addr: "value_from_limbs (map of_nat (address_to_limbs x)) = (of_nat (unat x) :: 'f)" "length (address_to_limbs x) = 10" for x
    using unsigned_less [of x, where ?'a = nat]
    by (simp_all add: value_from_limbs_of_nat address_to_limbs_def le_limbs_facts nat_of_be_be_bytes del: of_nat_unat)
  have word: "value_from_limbs (map of_nat (take 8 (word_to_limbs k))) = (fst (word_from_u256 k) :: 'f)"
    "value_from_limbs (map of_nat (drop 8 (word_to_limbs k))) = (snd (word_from_u256 k) :: 'f)" "length (word_to_limbs k) = 16" for k
    using le_limbs_facts(4) [of 16 "le_bytes 32 (unat k)"] le_limbs_facts(5) [of 16 "le_bytes 32 (unat k)"]
    by (simp_all add: value_from_limbs_of_nat word_to_limbs_def le_limbs_facts(2,3) nat_of_be_rev_le word_from_u256_def Let_def from_bytes_value_nat)
  have lim: "\<forall>x \<in> set (u32_to_limbs v). x < 2 ^ 16" "\<forall>x \<in> set (address_to_limbs b). x < 2 ^ 16" "\<forall>x \<in> set (word_to_limbs k). x < 2 ^ 16" for v b k
    unfolding u32_to_limbs_def address_to_limbs_def word_to_limbs_def by (rule le_limbs_facts(1))+
  have zero: "value_from_limbs (replicate n 0) = (0 :: 'f)" for n
    by (induction n) (simp_all add: value_from_limbs_def replicate_append_same [symmetric])
  have zw: "word_from_u256 0 = (0, 0 :: 'f)"
    by (simp add: word_from_u256_def Let_def from_bytes_value_nat le_bytes_def map_replicate_const nat_of_le_zeros)
  have looks: "lookups_hold mpt (mpi_lookups (map of_nat (u32_to_limbs v) :: 'f list))"
    "lookups_hold mpt (mpi_lookups (map of_nat (address_to_limbs b) :: 'f list))"
    "lookups_hold mpt (mpi_lookups (map of_nat (word_to_limbs k) :: 'f list))" for v b k
    by (rule mpi_lookups_of_nat lim)+
  note simps = mpi_gates_def a_def assign_sort_keys_def table_assignment_def unwrap_or_def n_limbs_defs
  show "satisfied (mpi_gates q [rr_rw_counter (st_rw a)] (st_rw_counter_limbs a))"
    using assms(1) u32 by (simp add: simps rw_small_def)
  show "satisfied (mpi_gates q [rr_id (st_rw a)] (st_id_limbs a))"
    using assms(1) u32 by (cases "rw_id rw") (simp_all add: simps rw_small_def zero)
  show "satisfied (mpi_gates q [rr_address (st_rw a)] (st_address_limbs a))"
    using addr by (cases "rw_address rw") (simp_all add: simps zero del: of_nat_unat)
  show "satisfied (mpi_gates q [fst (rr_storage_key (st_rw a)), snd (rr_storage_key (st_rw a))] (st_storage_key_limbs a))"
    using word by (cases "rw_storage_key rw") (simp_all add: simps zero zw Let_def numeral_2_eq_2 [symmetric] take_map drop_map)
  show "satisfied (binary_number_gates 4 (map target_usize all_targets) q (st_tag_bits a) (Some (rr_tag (st_rw a))))"
    using binary_number_complete [of "target_usize (rw_tag rw)" "map target_usize all_targets" 4 q] set_all_targets target_usize_small [of "rw_tag rw"]
    by (simp add: a_def assign_sort_keys_def table_assignment_def)
  show "lookups_hold mpt (mpi_lookups (st_rw_counter_limbs a))" "lookups_hold mpt (mpi_lookups (st_id_limbs a))"
    "lookups_hold mpt (mpi_lookups (st_address_limbs a))" "lookups_hold mpt (mpi_lookups (st_storage_key_limbs a))"
    by (simp_all add: a_def assign_sort_keys_def looks mpi_lookups_zero split: option.splits)
qed

section \<open>Example\<close>

text \<open>The cells of the five rows; the rows around them repeat the first and the last.\<close>

definition example_table :: "int \<Rightarrow> rat StateRow" where
  "example_table i =
     (if i \<le> 0 then (assign_sort_keys (RwStart 1) state_zero_row)\<lparr>st_selector := 1, st_is_zero := 1\<rparr>
      else if i = 1 then (assign_sort_keys (RwStack 1 True 1 1023 7) state_zero_row)\<lparr>st_selector := 1, st_nonempty_witness := 1 / 7,
        st_ordering_selector := 1, st_first_different_limb := binary_number_assign 5 0, st_limb_difference := 2, st_limb_difference_inverse := 1 / 2\<rparr>
      else if i = 2 then (assign_sort_keys (RwStack 2 False 1 1023 7) state_zero_row)\<lparr>st_selector := 1, st_nonempty_witness := 1 / 7, st_not_first_access := 1,
        st_ordering_selector := 1, st_first_different_limb := binary_number_assign 5 31, st_limb_difference := 1, st_limb_difference_inverse := 1\<rparr>
      else if i = 3 then (assign_sort_keys (RwAccountStorage 3 True 1023 1 7 0 1 0) state_zero_row)\<lparr>st_selector := 1, st_nonempty_witness := 1 / 7,
        st_mpt_proof_type := 6, st_state_root := (9, 0),
        st_ordering_selector := 1, st_first_different_limb := binary_number_assign 5 0, st_limb_difference := 1, st_limb_difference_inverse := 1\<rparr>
      else (assign_sort_keys (RwAccountStorage 4 True 1023 2 7 0 1 0) state_zero_row)\<lparr>st_selector := 1, st_nonempty_witness := 1 / 7,
        st_mpt_proof_type := 6, st_state_root := (11, 0),
        st_ordering_selector := 1, st_first_different_limb := binary_number_assign 5 29, st_limb_difference := 1, st_limb_difference_inverse := 1\<rparr>)"

text \<open>The MPT table: the row of a disabled lookup, and the updates of the two slots.\<close>

definition example_mpt :: "rat list list" where
  "example_mpt = [replicate 12 0, [1023, 1, 0, 6, 9, 0, 0, 0, 7, 0, 0, 0], [1023, 2, 0, 6, 11, 0, 9, 0, 7, 0, 0, 0]]"

lemma stack_limbs:
  "rw_to_be_limbs (RwStack c w 1 1023 v) = [3] @ [0, 1] @ replicate 9 0 @ [1023] @ [0] @ replicate 16 0 @ be_bytes_to_limbs (be_bytes 4 (unat (of_nat c :: u32)))"
proof -
  have "be_bytes_to_limbs (be_bytes 4 1) = [0, 1]" by (simp add: be_bytes_def le_bytes_def upt_rec)
  moreover have "be_bytes_to_limbs (be_bytes 20 1023) = [0, 0, 0, 0, 0, 0, 0, 0, 0, 1023]"
    by (simp add: be_bytes_def le_bytes_def upt_rec)
  moreover have "replicate 9 0 @ [1023] = [0, 0, 0, 0, 0, 0, 0, 0, 0, 1023 :: nat]" by (simp add: numeral_eq_Suc)
  moreover have "unat (ucast (ucast (1023 :: u64) :: Word) :: Address) = 1023" by simp
  ultimately show ?thesis
    unfolding rw_to_be_limbs_split by (simp add: unwrap_or_def target_usize_def zero_limbs)
qed

lemma storage_limbs:
  assumes "k \<in> {1, 2}"
  shows "rw_to_be_limbs (RwAccountStorage c w 1023 (of_nat k) v p 1 m) =
    [4] @ [0, 1] @ replicate 9 0 @ [1023] @ [0] @ replicate 15 0 @ [k] @ be_bytes_to_limbs (be_bytes 4 (unat (of_nat c :: u32)))"
proof -
  have "be_bytes_to_limbs (be_bytes 4 1) = [0, 1]" by (simp add: be_bytes_def le_bytes_def upt_rec)
  moreover have "be_bytes_to_limbs (be_bytes 20 1023) = [0, 0, 0, 0, 0, 0, 0, 0, 0, 1023]" by (simp add: be_bytes_def le_bytes_def upt_rec)
  moreover have "replicate 9 0 @ [1023] = [0, 0, 0, 0, 0, 0, 0, 0, 0, 1023 :: nat]" by (simp add: numeral_eq_Suc)
  moreover have "be_bytes_to_limbs (be_bytes 32 k) = replicate 15 0 @ [k]"
  proof -
    have "be_bytes_to_limbs (be_bytes 32 1) = [0, 0, 0, 0, 0, 0, 0, 0, 0, 0, 0, 0, 0, 0, 0, 1]"
      "be_bytes_to_limbs (be_bytes 32 2) = [0, 0, 0, 0, 0, 0, 0, 0, 0, 0, 0, 0, 0, 0, 0, 2]"
      by (simp_all add: be_bytes_def le_bytes_def upt_rec)
    moreover have "replicate 15 0 = [0, 0, 0, 0, 0, 0, 0, 0, 0, 0, 0, 0, 0, 0, 0 :: nat]" by (simp add: numeral_eq_Suc)
    ultimately show ?thesis using assms by auto
  qed
  moreover have "unat (of_nat k :: Word) = k" using assms by auto
  ultimately show ?thesis
    unfolding rw_to_be_limbs_split by (simp add: unwrap_or_def target_usize_def zero_limbs)
qed

lemma example_limbs:
  "be_limbs (example_table 0) = [1] @ replicate 30 0 @ [1]"
  "be_limbs (example_table 1) = [3] @ [0, 1] @ replicate 9 0 @ [1023] @ [0] @ replicate 16 0 @ [0, 1]"
  "be_limbs (example_table 2) = [3] @ [0, 1] @ replicate 9 0 @ [1023] @ [0] @ replicate 16 0 @ [0, 2]"
  "be_limbs (example_table 3) = [4] @ [0, 1] @ replicate 9 0 @ [1023] @ [0] @ replicate 15 0 @ [1, 0, 3]"
  "be_limbs (example_table 4) = [4] @ [0, 1] @ replicate 9 0 @ [1023] @ [0] @ replicate 15 0 @ [2, 0, 4]"
proof -
  have c: "be_bytes_to_limbs (be_bytes 4 1) = [0, 1]" "be_bytes_to_limbs (be_bytes 4 2) = [0, 2]"
    "be_bytes_to_limbs (be_bytes 4 3) = [0, 3]" "be_bytes_to_limbs (be_bytes 4 4) = [0, 4]"
    by (simp_all add: be_bytes_def le_bytes_def upt_rec)
  have l: "be_limbs (assign_sort_keys rw row) = (map of_nat (rw_to_be_limbs rw) :: rat list)" for rw row by (rule be_limbs_assigned)
  have b: "be_limbs (row\<lparr>st_selector := u, st_is_zero := v\<rparr>) = be_limbs row"
    "be_limbs (row\<lparr>st_selector := u, st_nonempty_witness := v, st_ordering_selector := w, st_first_different_limb := x, st_limb_difference := y,
      st_limb_difference_inverse := z\<rparr>) = be_limbs row"
    "be_limbs (row\<lparr>st_selector := u, st_nonempty_witness := v, st_not_first_access := a, st_ordering_selector := w, st_first_different_limb := x,
      st_limb_difference := y, st_limb_difference_inverse := z\<rparr>) = be_limbs row"
    "be_limbs (row\<lparr>st_selector := u, st_nonempty_witness := v, st_mpt_proof_type := a, st_state_root := e, st_ordering_selector := w,
      st_first_different_limb := x, st_limb_difference := y, st_limb_difference_inverse := z\<rparr>) = be_limbs row"
    for row :: "rat StateRow" and a e u v w x y z
    by (simp_all add: be_limbs_def)
  show "be_limbs (example_table 0) = [1] @ replicate 30 0 @ [1]"
    unfolding example_table_def by (simp add: b l start_limbs [simplified] map_replicate)
  show "be_limbs (example_table 1) = [3] @ [0, 1] @ replicate 9 0 @ [1023] @ [0] @ replicate 16 0 @ [0, 1]"
    "be_limbs (example_table 2) = [3] @ [0, 1] @ replicate 9 0 @ [1023] @ [0] @ replicate 16 0 @ [0, 2]"
    unfolding example_table_def by (simp_all add: b l stack_limbs [simplified] c [simplified] map_replicate)
  show "be_limbs (example_table 3) = [4] @ [0, 1] @ replicate 9 0 @ [1023] @ [0] @ replicate 15 0 @ [1, 0, 3]"
    "be_limbs (example_table 4) = [4] @ [0, 1] @ replicate 9 0 @ [1023] @ [0] @ replicate 15 0 @ [2, 0, 4]"
    unfolding example_table_def
    using storage_limbs [of 1 3 True 7 0 0] storage_limbs [of 2 4 True 7 0 0] by (simp_all add: b l c [simplified] map_replicate)
qed

text \<open>A positive challenge separates rational limbs that do not decrease.\<close>

lemma separates_nonneg:
  fixes r :: rat
  assumes "0 < r" and "\<forall>j < length xs. ys ! j \<le> xs ! j"
  shows "separates r xs ys"
  unfolding separates_def
proof (intro allI impI)
  fix k j
  assume k: "k \<le> length xs" and z: "(\<Sum>j < k. r ^ j * (xs ! j - ys ! j)) = 0" and j: "j < k"
  have "\<forall>j \<in> {..<k}. 0 \<le> r ^ j * (xs ! j - ys ! j)" using assms k by simp
  then have "r ^ j * (xs ! j - ys ! j) = 0" using z j sum_nonneg_eq_0_iff [of "{..<k}" "\<lambda>j. r ^ j * (xs ! j - ys ! j)"] by simp
  then show "xs ! j = ys ! j" using assms(1) by simp
qed

lemma example_wf: "state_row_wf (example_table i)"
  by (simp add: example_table_def state_row_wf_def assign_sort_keys_wf state_zero_row_def binary_number_assign_def)

lemma example_values:
  "word_from_u256 0 = (0, 0 :: rat)" "word_from_u256 7 = (7, 0 :: rat)" "word_from_u256 1 = (1, 0 :: rat)" "word_from_u256 2 = (2, 0 :: rat)"
  by (simp_all add: word_from_u256_def Let_def from_bytes_value_nat le_bytes_def upt_rec)

lemma example_cells:
  "st_rw (example_table 0) = table_assignment (RwStart 1)" "st_rw (example_table (- 1)) = table_assignment (RwStart 1)"
  "st_rw (example_table 1) = table_assignment (RwStack 1 True 1 1023 7)" "st_rw (example_table 2) = table_assignment (RwStack 2 False 1 1023 7)"
  "st_rw (example_table 3) = table_assignment (RwAccountStorage 3 True 1023 1 7 0 1 0)"
  "st_rw (example_table 4) = table_assignment (RwAccountStorage 4 True 1023 2 7 0 1 0)"
  by (simp_all add: example_table_def assign_sort_keys_def)

lemma example_ordered:
  "i \<in> {0..4} \<Longrightarrow> satisfied (ordering_gates 2 example_table i)" "i \<in> {0..4} \<Longrightarrow> lookups_hold mpt (ordering_lookups example_table i)"
  "i \<in> {1..4} \<Longrightarrow> separates 2 (be_limbs (example_table i)) (be_limbs (example_table (i - 1)))"
proof -
  have i4: "i = 0 \<or> i = 1 \<or> i = 2 \<or> i = 3 \<or> i = 4" if "i \<in> {0..4}" for i :: int using that by auto
  have s: "st_ordering_selector (example_table 0) = 0" "st_ordering_selector (example_table 1) = 1" "st_ordering_selector (example_table 2) = 1"
    "st_ordering_selector (example_table 3) = 1" "st_ordering_selector (example_table 4) = 1"
    "st_limb_difference (example_table 1) = 2" "st_limb_difference (example_table 2) = 1" "st_limb_difference (example_table 0) = 0"
    "st_limb_difference (example_table 3) = 1" "st_limb_difference (example_table 4) = 1"
    "st_limb_difference_inverse (example_table 1) = 1 / 2" "st_limb_difference_inverse (example_table 2) = 1"
    "st_limb_difference_inverse (example_table 3) = 1" "st_limb_difference_inverse (example_table 4) = 1"
    "st_first_different_limb (example_table 1) = binary_number_assign 5 0" "st_first_different_limb (example_table 2) = binary_number_assign 5 31"
    "st_first_different_limb (example_table 3) = binary_number_assign 5 0" "st_first_different_limb (example_table 4) = binary_number_assign 5 29"
    by (simp_all add: example_table_def assign_sort_keys_def state_zero_row_def)
  have e: "be_limbs (example_table 2) ! j = be_limbs (example_table 1) ! j" if "j < 31" for j
    using that unfolding example_limbs(2,3) by (simp add: nth_append nth_Cons')
  have e4: "be_limbs (example_table 4) ! j = be_limbs (example_table 3) ! j" if "j < 29" for j
    using that unfolding example_limbs(4,5) by (simp add: nth_append nth_Cons')
  have "satisfied (ordering_gates 2 example_table 0)"
    by (auto simp: ordering_gates_def s binary_number_gates_def satisfied_map Let_def)
  moreover have "satisfied (ordering_gates 2 example_table 1)"
    by (subst ordering_gates_iff) (auto simp: example_wf s example_limbs [simplified] intro!: exI [of _ 0])
  moreover have "satisfied (ordering_gates 2 example_table 2)"
    using e by (subst ordering_gates_iff) (auto simp: example_wf s example_limbs(2,3) [simplified] nth_append nth_Cons' intro!: exI [of _ 31])
  moreover have "satisfied (ordering_gates 2 example_table 3)"
    by (subst ordering_gates_iff) (auto simp: example_wf s example_limbs [simplified] intro!: exI [of _ 0])
  moreover have "satisfied (ordering_gates 2 example_table 4)"
    using e4 by (subst ordering_gates_iff) (auto simp: example_wf s example_limbs(4,5) [simplified] nth_append nth_Cons' intro!: exI [of _ 29])
  ultimately show "satisfied (ordering_gates 2 example_table i)" if "i \<in> {0..4}" using i4 [OF that] by auto
  show "lookups_hold mpt (ordering_lookups example_table i)" if "i \<in> {0..4}"
    using i4 [OF that] in_ux_table [of 0 16] in_ux_table [of 1 16] in_ux_table [of 2 16]
    by (auto simp: ordering_lookups_def range_check_u16_def lookup_tables_def s)
  have "\<forall>j < 32. be_limbs (example_table 0) ! j \<le> be_limbs (example_table 1) ! j" "\<forall>j < 32. be_limbs (example_table 1) ! j \<le> be_limbs (example_table 2) ! j"
    "\<forall>j < 32. be_limbs (example_table 2) ! j \<le> be_limbs (example_table 3) ! j" "\<forall>j < 32. be_limbs (example_table 3) ! j \<le> be_limbs (example_table 4) ! j"
    unfolding example_limbs by (auto simp: nth_append nth_Cons')
  then show "separates 2 (be_limbs (example_table i)) (be_limbs (example_table (i - 1)))" if "i \<in> {1..4}"
    using i4 [of i] that length_be_limbs [OF example_wf] by (auto intro!: separates_nonneg)
qed

lemma constrained_lookups: "snd (built_all (map (\<lambda>x. constrain (f x) :: 'f :: field built) xs)) = []"
  by (induction xs) simp_all

lemma example_queries:
  "q_tag_bits (queries example_table i) = binary_number_assign 4 (target_usize (if i \<le> 0 then TStart else if i \<le> 2 then TStack else TStorage))"
  "st_initial_value (example_table i) = (0, 0)" "st_state_root (example_table i) = (if i \<le> 2 then 0 else if i = 3 then 9 else 11, 0)"
  "st_not_first_access (example_table i) = of_bool (i = 2)" "st_ordering_selector (example_table i) = of_bool (0 < i)"
  "st_mpt_proof_type (example_table i) = (if i \<le> 2 then 0 else 6)" "st_is_zero (example_table i) = of_bool (i \<le> 0)"
  "st_selector (example_table i) = 1"
  by (auto simp: query_cells example_table_def assign_sort_keys_def state_zero_row_def)

lemma example_limb_bits:
  "st_first_different_limb (example_table 0) = [0, 0, 0, 0, 0]" "st_first_different_limb (example_table 1) = [0, 0, 0, 0, 0]"
  "st_first_different_limb (example_table 2) = [1, 1, 1, 1, 1]" "st_first_different_limb (example_table 3) = [0, 0, 0, 0, 0]"
  "st_first_different_limb (example_table 4) = [1, 1, 1, 0, 1]"
proof -
  show "st_first_different_limb (example_table 0) = [0, 0, 0, 0, 0]"
    by (simp add: example_table_def assign_sort_keys_def state_zero_row_def numeral_eq_Suc)
qed (simp_all add: example_table_def binary_number_assign_def as_bits_eq upt_rec)

lemma example_builder:
  assumes "i \<in> {0..4}"
  shows "satisfied (fst (build (queries example_table i)))" "lookups_hold example_mpt (snd (build (queries example_table i)))"
proof -
  have i4: "i = 0 \<or> i = 1 \<or> i = 2 \<or> i = 3 \<or> i = 4" using assms by auto
  have t: "tag_matches (queries example_table i) t = of_bool (t = (if i \<le> 0 then TStart else if i \<le> 2 then TStack else TStorage))" for i t
    by (rule tag_matches_eq) (rule example_queries(1))
  note acc = q_is_write_def q_is_read_def q_id_def q_field_tag_def q_value_def q_value_prev_column_def q_first_access_def address_change_def
    rw_counter_change_def queries_def Let_def
  note val = example_cells table_assignment_def example_values unwrap_or_def
  note cells = acc example_limb_bits example_queries val not_expr_def
  have "satisfied (fst (build_general_constraints (queries example_table 0)))" by (simp add: build_general_constraints_def cells)
  moreover have "satisfied (fst (build_general_constraints (queries example_table 1)))" by (simp add: build_general_constraints_def cells)
  moreover have "satisfied (fst (build_general_constraints (queries example_table 2)))" by (simp add: build_general_constraints_def cells)
  moreover have "satisfied (fst (build_general_constraints (queries example_table 3)))" by (simp add: build_general_constraints_def cells)
  moreover have "satisfied (fst (build_general_constraints (queries example_table 4)))" by (simp add: build_general_constraints_def cells)
  moreover have "satisfied (fst (built_all (build_start_constraints (queries example_table 0))))" by (simp add: build_start_constraints_def cells)
  moreover have "satisfied (fst (built_all (build_stack_constraints (queries example_table 1))))" by (simp add: build_stack_constraints_def cells)
  moreover have "satisfied (fst (built_all (build_stack_constraints (queries example_table 2))))" by (simp add: build_stack_constraints_def cells)
  moreover have "satisfied (fst (built_all (build_account_storage_constraints (queries example_table 3))))"
    by (simp add: build_account_storage_constraints_def value_prev_constraint_def mpt_lookup_def mpt_proof_type_u64_def cells)
  moreover have "satisfied (fst (built_all (build_account_storage_constraints (queries example_table 4))))"
    by (simp add: build_account_storage_constraints_def value_prev_constraint_def mpt_lookup_def mpt_proof_type_u64_def cells)
  ultimately show "satisfied (fst (build (queries example_table i)))" using i4 by (auto simp: build_def t)
  have u: "rq_address (q_rw_table (queries example_table 1)) = 1023" "rq_address (q_rw_table (queries example_table 2)) = 1023"
    by (simp_all add: acc val)
  have z: "[1023] \<in> set (lookup_tables mpt U10_Table)" "[0] \<in> set (lookup_tables mpt U10_Table)" "[0] \<in> set (lookup_tables mpt U8_Table)"
    "[0] \<in> set (lookup_tables mpt CallContextFieldTags)" for mpt :: "rat list list"
    using in_ux_table [of 1023 10] zero_in_tables(1) [of 10] zero_in_tables(1) [of 8] zero_in_tables(2) by (simp_all add: lookup_tables_def)
  have m: "lookup_tables example_mpt Mpt_Table = [[0, 0, 0, 0, 0, 0, 0, 0, 0, 0, 0, 0], [1023, 1, 0, 6, 9, 0, 0, 0, 7, 0, 0, 0],
      [1023, 2, 0, 6, 11, 0, 9, 0, 7, 0, 0, 0 :: rat]]"
    by (simp add: lookup_tables_def example_mpt_def numeral_eq_Suc)
  note gen = build_def t build_general_constraints_def tag_defs value_prev_constraint_def constrained_lookups Let_def z m u
  have l: "snd (mpt_lookup (queries example_table 3)) = [(Mpt_Table, [1023, 1, 0, 6, 9, 0, 0, 0, 7, 0, 0, 0])]"
    "snd (mpt_lookup (queries example_table 4)) = [(Mpt_Table, [1023, 2, 0, 6, 11, 0, 9, 0, 7, 0, 0, 0])]"
    "q_last_access (queries example_table 3) = 1" "q_last_access (queries example_table 4) = 1"
    unfolding mpt_lookup_def by (simp_all add: acc example_queries val)
  have "lookups_hold example_mpt (snd (build (queries example_table 3)))" by (simp add: gen l)
  moreover have "lookups_hold example_mpt (snd (build (queries example_table 4)))" by (simp add: gen l)
  moreover have "lookups_hold example_mpt (snd (build (queries example_table 0)))" by (simp add: gen mpt_lookup_def)
  moreover have "lookups_hold example_mpt (snd (build (queries example_table 1)))" by (simp add: gen mpt_lookup_def)
  moreover have "lookups_hold example_mpt (snd (build (queries example_table 2)))" by (simp add: gen mpt_lookup_def)
  ultimately show "lookups_hold example_mpt (snd (build (queries example_table i)))" using i4 by auto
qed

lemma example_state_table: "state_table 2 example_mpt example_table 5" "challenge_separates 2 example_table 5"
proof -
  have row: "state_row_ok 2 example_mpt example_table i" if i: "i \<in> {0..4}" for i
  proof -
    have i4: "i = 0 \<or> i = 1 \<or> i = 2 \<or> i = 3 \<or> i = 4" using i by auto
    have sel: "st_selector (example_table i) = 1" by (simp add: example_queries)
    have w: "st_nonempty_witness (example_table i) = (if i \<le> 0 then 0 else 1 / 7)" for i
      by (simp add: example_table_def assign_sort_keys_def state_zero_row_def)
    have zero: "satisfied (batched_is_zero_gates 1 (st_is_zero (example_table i)) (st_nonempty_witness (example_table i))
       [fst (st_initial_value (example_table i)), snd (st_initial_value (example_table i)),
        fst (rr_value (st_rw (example_table i))), snd (rr_value (st_rw (example_table i)))])"
      using i4 by (auto simp: example_cells table_assignment_def example_values unwrap_or_def example_queries w batched_is_zero_gates_def)
    obtain rw and row :: "rat StateRow" where rw: "rw_small rw" and a: "st_rw (example_table i) = st_rw (assign_sort_keys rw row)"
      "st_rw_counter_limbs (example_table i) = st_rw_counter_limbs (assign_sort_keys rw row)"
      "st_id_limbs (example_table i) = st_id_limbs (assign_sort_keys rw row)" "st_address_limbs (example_table i) = st_address_limbs (assign_sort_keys rw row)"
      "st_storage_key_limbs (example_table i) = st_storage_key_limbs (assign_sort_keys rw row)"
      "st_tag_bits (example_table i) = st_tag_bits (assign_sort_keys rw row)"
    proof (rule that [where row = state_zero_row])
      let ?rw = "if i \<le> 0 then RwStart 1 else if i = 1 then RwStack 1 True 1 1023 7 else if i = 2 then RwStack 2 False 1 1023 7
        else if i = 3 then RwAccountStorage 3 True 1023 1 7 0 1 0 else RwAccountStorage 4 True 1023 2 7 0 1 0"
      show "rw_small ?rw" by (simp add: rw_small_def unwrap_or_def)
    qed (simp_all add: example_table_def)
    note pass = assigned_keys_pass [OF rw, of _ row, folded a]
    have "satisfied (state_gates 2 example_table i)"
      unfolding state_gates_def Let_def sel using pass(1-5) zero example_ordered(1) [OF i] example_builder(1) [OF i] by simp
    moreover have "lookups_hold example_mpt (state_lookups example_table i)"
      unfolding state_lookups_def using pass(6-9) example_ordered(2) [OF i] example_builder(2) [OF i] by simp
    ultimately show ?thesis unfolding state_row_ok_def using sel example_wf by blast
  qed
  then show "state_table 2 example_mpt example_table 5" by (simp add: state_table_def example_queries)
  show "challenge_separates 2 example_table 5" using example_ordered(3) by (simp add: challenge_separates_def)
qed

section \<open>Properties\<close>

text \<open>
  C4: read consistency of the state circuit. The table is rows \<open>0 .. n - 1\<close>, all of which pass the gates and lookups, with the order
  checked from row 1 on; the field represents the numbers below \<open>2 ^ 253\<close>, and the challenge separates the limbs of neighbouring rows (all but
  496 challenges of each pair do). For a row \<open>i\<close> after row 0: the earlier rows with its key have smaller counters, and the value of a read is the
  value of the last write to its key before it. When nothing was written to the key, it is the initial value of the row, except
  where row 0 is not a \<open>Start\<close> row and has that key: then it is the value of row 0, whatever that is, since nothing forces row 0 to be a \<open>Start\<close>
  row and its order is not checked. The initial value is zero unless the row is of an account, of storage or of a receipt. No bound on
  field tags is assumed for most rows, the constraints of their tags give it; for a row of a log or a receipt, whose field tag the circuit
  does not constrain, it is a hypothesis that the field tags of the log and receipt rows are below \<open>2 ^ 16\<close>.
\<close>

theorem state_read_consistency:
  fixes rows :: "int \<Rightarrow> 'f :: field StateRow"
  assumes "canonical (repr :: 'f \<Rightarrow> nat)" and "state_table r mpt rows n" and "challenge_separates r rows n" and "0 < i" and "i < n"
    and "log_row (rows i) \<longrightarrow> log_field_tags_fit repr rows n"
  shows "(\<forall>j. 0 \<le> j \<and> j < i \<and> rw_key (rows j) = rw_key (rows i) \<longrightarrow>
       repr (rr_rw_counter (st_rw (rows j))) < repr (rr_rw_counter (st_rw (rows i)))) \<and>
     (rr_is_write (st_rw (rows i)) = 0 \<longrightarrow> rr_value (st_rw (rows i)) =
       (if writes_before rows i = {} then unwritten_value rows i else rr_value (st_rw (rows (Max (writes_before rows i)))))) \<and>
     (\<forall>t. row_has_tag (rows i) t \<and> t \<notin> {TAccount, TStorage, TTxReceipt} \<longrightarrow> st_initial_value (rows i) = (0, 0))"
proof (intro conjI allI impI)
  show "repr (rr_rw_counter (st_rw (rows j))) < repr (rr_rw_counter (st_rw (rows i)))"
    if "0 \<le> j \<and> j < i \<and> rw_key (rows j) = rw_key (rows i)" for j
    using key_segment(1) [OF assms(1-3,6) _ _ assms(5)] that by blast
qed (use read_source [OF assms] initial_and_root(1) [OF state_row_gates(7) [OF state_table_row [OF assms(2)]]] assms(4,5) in auto)

theorem state_read_consistency_witness:
  "writes_before example_table 2 = {1} \<and> rr_value (st_rw (example_table 2)) = rr_value (st_rw (example_table 1))"
proof -
  have k: "rw_key (example_table 0) \<noteq> rw_key (example_table 2)" "rw_key (example_table 1) = rw_key (example_table 2)"
    by (simp_all add: rw_key_def example_cells table_assignment_def unwrap_or_def)
  have "j \<in> writes_before example_table 2 \<longleftrightarrow> j = 1" for j
  proof (cases "j \<in> {0, 1}")
    case True
    then show ?thesis using k by (auto simp: writes_before_def example_cells table_assignment_def)
  qed (auto simp: writes_before_def)
  then have s: "writes_before example_table 2 = {1}" by blast
  have "rr_is_write (st_rw (example_table 2)) = 0" by (simp add: example_cells table_assignment_def)
  moreover have "\<not> log_row (example_table 2)"
    by (simp add: log_row_def row_has_tag_def example_table_def assign_sort_keys_def binary_number_assign_def as_bits_eq target_usize_def upt_rec)
  ultimately show ?thesis using state_read_consistency [OF canonical_rat example_state_table, of 2] s by simp
qed

text \<open>
  C6: the state root along the table, for a row \<open>i\<close> after row 0 of a table that passes, with the field and the challenge as for reads.
  The root changes only in rows of accounts, storage and receipts. The last row of an account or storage key, that is one whose next row in
  the table has another key, has its row of the MPT table, from the root before to the root of the row and from the initial value of the key
  to the value of the row. For the last row of the table, which has no next row in it, that is known only where the cell \<open>not_first_access\<close> below
  the table is zero, which the circuit does not force. The proof type of the row is fixed: for storage the change of a slot, or its absence when the initial value
  and the value are zero; for accounts the change of the field, the absence of the account for a code hash with both values zero, and for the field
  tag \<open>NonExisting\<close> the number of \<open>AccountDestructed\<close>, or of \<open>StorageDoesNotExist\<close> when both are zero.
\<close>

theorem state_root_spec:
  fixes rows :: "int \<Rightarrow> 'f :: field StateRow"
  assumes "canonical (repr :: 'f \<Rightarrow> nat)" and "state_table r mpt rows n" and "challenge_separates r rows n" and "0 < i" and "i < n"
    and "row_has_tag (rows i) t"
  shows "(t \<notin> {TAccount, TStorage, TTxReceipt} \<longrightarrow> st_state_root (rows i) = st_state_root (rows (i - 1))) \<and>
     (t \<in> {TAccount, TStorage} \<and> (if i + 1 < n then rw_key (rows (i + 1)) \<noteq> rw_key (rows i) else st_not_first_access (rows (i + 1)) = 0) \<longrightarrow>
        [rr_address (st_rw (rows i)), fst (rr_storage_key (st_rw (rows i))), snd (rr_storage_key (st_rw (rows i))), st_mpt_proof_type (rows i),
         fst (st_state_root (rows i)), snd (st_state_root (rows i)), fst (st_state_root (rows (i - 1))), snd (st_state_root (rows (i - 1))),
         fst (rr_value (st_rw (rows i))), snd (rr_value (st_rw (rows i))), fst (st_initial_value (rows i)), snd (st_initial_value (rows i))] \<in> set mpt) \<and>
     (t = TStorage \<longrightarrow> st_mpt_proof_type (rows i) = of_nat (mpt_proof_type_u64
        (if st_initial_value (rows i) = (0, 0) \<and> rr_value (st_rw (rows i)) = (0, 0) then StorageDoesNotExist else StorageChanged))) \<and>
     (t = TAccount \<longrightarrow> (\<exists>f. rr_field_tag (st_rw (rows i)) = of_nat (account_field_tag_u64 f) \<and> st_mpt_proof_type (rows i) =
        of_nat (mpt_proof_type_u64 (account_proof_type f (st_initial_value (rows i) = (0, 0) \<and> rr_value (st_rw (rows i)) = (0, 0))))))"
proof -
  have ok: "state_row_ok r mpt rows i" "st_ordering_selector (rows i) = 1" using assms(2,4,5) by (simp_all add: state_table_def)
  note g = state_row_gates [OF ok(1)]
  have "st_not_first_access (rows (i + 1)) = of_bool (rw_key (rows (i + 1)) = rw_key (rows i))" if "i + 1 < n"
    using state_table_step(1) [OF assms(1-3), of "i + 1"] assms(4) that by simp
  then show ?thesis
    using initial_and_root(2) [OF g(7) assms(6)] mpt_row_of_update [OF g(13) assms(6)] proof_type [OF assms(1) ok(1)] ok(2) assms(6)
    by (auto split: if_splits)
qed

text \<open>The witness: at the first of the two storage rows the MPT table has the update of its slot.\<close>

theorem state_root_spec_witness:
  "row_has_tag (example_table 3) TStorage \<and> rw_key (example_table 4) \<noteq> rw_key (example_table 3) \<and>
   [1023, 1, 0, 6, fst (st_state_root (example_table 3)), 0, fst (st_state_root (example_table 2)), 0, 7, 0, 0, 0] \<in> set example_mpt"
proof -
  have tag: "row_has_tag (example_table 3) TStorage" by (simp add: row_has_tag_def example_table_def assign_sort_keys_def)
  have key: "rw_key (example_table 4) \<noteq> rw_key (example_table 3)"
    by (simp add: rw_key_def example_cells table_assignment_def unwrap_or_def example_values)
  have cells: "rr_address (st_rw (example_table 3)) = 1023" "rr_storage_key (st_rw (example_table 3)) = (1, 0)"
    "rr_value (st_rw (example_table 3)) = (7, 0)" "st_mpt_proof_type (example_table 3) = 6"
    "snd (st_state_root (example_table 3)) = 0" "snd (st_state_root (example_table 2)) = 0" "st_initial_value (example_table 3) = (0, 0)"
    by (simp_all add: example_cells table_assignment_def unwrap_or_def example_values example_queries)
  show ?thesis
    using state_root_spec [OF canonical_rat example_state_table, of 3 TStorage] tag key by (simp add: cells)
qed

text \<open>
  C40: where the state root is not constrained. At a row of a receipt, and at a row of an account or of storage that is not the last access
  to its key, neither the gates nor the lookups depend on the roots: a table still passes there with any other roots written into it.
\<close>

theorem state_root_gap:
  fixes rows :: "int \<Rightarrow> 'f :: field StateRow"
  assumes "row_has_tag (rows i) t" and "t = TTxReceipt \<or> t \<in> {TAccount, TStorage} \<and> st_not_first_access (rows (i + 1)) = 1"
  shows "(satisfied (state_gates r (\<lambda>j. (rows j)\<lparr>st_state_root := roots j\<rparr>) i) \<longleftrightarrow> satisfied (state_gates r rows i)) \<and>
     (lookups_hold mpt (state_lookups (\<lambda>j. (rows j)\<lparr>st_state_root := roots j\<rparr>) i) \<longleftrightarrow> lookups_hold mpt (state_lookups rows i))"
proof -
  let ?rows = "\<lambda>j. (rows j)\<lparr>st_state_root := roots j\<rparr>"
  let ?q = "queries rows i" and ?q' = "queries ?rows i"
  have q: "?q' = ?q\<lparr>q_state_root := roots i, q_state_root_prev := roots (i - 1)\<rparr>" by (simp add: queries_def Let_def)
  have "q_tag_bits ?q = binary_number_assign 4 (target_usize t)" using assms(1) by (simp add: row_has_tag_def query_cells)
  note m = tag_matches_eq [OF this]
  then have m': "tag_matches ?q' s = of_bool (s = t)" for s by (simp add: q tag_matches_def)
  have last: "t \<noteq> TTxReceipt \<Longrightarrow> q_last_access ?q = 0" using assms(2) by (auto simp: query_cells)
  then have last': "t \<noteq> TTxReceipt \<Longrightarrow> q_last_access ?q' = 0" by (simp add: q)
  have gen: "build_general_constraints ?q' = build_general_constraints ?q"
    by (simp add: q build_general_constraints_def q_is_write_def q_is_read_def q_value_def q_first_access_def q_value_prev_column_def)
  have mpt: "built_condition 0 [mpt_lookup ?q'] = built_condition 0 [mpt_lookup ?q]"
    by (simp add: built_condition_def built_all_def mpt_lookup_def add_lookup_def)
  note cells = q_is_write_def q_is_read_def q_id_def q_field_tag_def q_value_def q_value_prev_column_def q_first_access_def value_prev_constraint_def
  have acc: "build_account_constraints ?q' = build_account_constraints ?q" if "t = TAccount"
    using that last mpt by (simp add: build_account_constraints_def q cells)
  have sto: "build_account_storage_constraints ?q' = build_account_storage_constraints ?q" if "t = TStorage"
    using that last mpt by (simp add: build_account_storage_constraints_def q cells)
  have gates: "satisfied (fst (build ?q')) \<longleftrightarrow> satisfied (fst (build ?q))"
    using assms(2) by (auto simp: build_def m m' gen acc sto)
  have zero: "snd (built_condition 0 bs) = map (\<lambda>(t, vals). (t, replicate (length vals) 0)) (snd (built_all bs))" for bs :: "'f built list"
    by (simp add: map_replicate_const)
  have order: "ordering_gates r ?rows i = ordering_gates r rows i" "ordering_lookups ?rows i = ordering_lookups rows i"
    by (simp_all add: ordering_gates_def ordering_lookups_def rlc_limb_differences_def be_limbs_def Let_def)
  have lookups: "snd (build ?q') = snd (build ?q)"
    unfolding build_def built_lookups m m' zero gen
    using last last' assms(2) by (auto simp: tag_defs mpt_lookup_def value_prev_constraint_def constrained_lookups Let_def)
  show ?thesis
    unfolding state_gates_def state_lookups_def Let_def using gates lookups order by simp
qed

text \<open>The witness: a receipt row alone, with root zero and then with another root.\<close>

definition receipt_rows :: "int \<Rightarrow> rat StateRow" where
  "receipt_rows i = (assign_sort_keys (RwTxReceipt 1 True 1 RFT_LogLength 7) state_zero_row)\<lparr>st_selector := 1, st_nonempty_witness := 1 / 7\<rparr>"

lemma receipt_rows_pass:
  "satisfied (state_gates 2 receipt_rows 0)" "lookups_hold [replicate 12 0] (state_lookups receipt_rows 0)" "row_has_tag (receipt_rows 0) TTxReceipt"
proof -
  have rw: "rw_small (RwTxReceipt 1 True 1 RFT_LogLength 7)" by (simp add: rw_small_def unwrap_or_def)
  show tag: "row_has_tag (receipt_rows 0) TTxReceipt" by (simp add: row_has_tag_def receipt_rows_def assign_sort_keys_def)
  have m: "tag_matches (queries receipt_rows 0) t = of_bool (t = TTxReceipt)" for t
    using tag by (intro tag_matches_eq) (simp add: query_cells row_has_tag_def)
  have c: "st_rw (receipt_rows i) = table_assignment (RwTxReceipt 1 True 1 RFT_LogLength 7)" "st_initial_value (receipt_rows i) = (0, 0)"
    "st_first_different_limb (receipt_rows i) = [0, 0, 0, 0, 0]" "st_not_first_access (receipt_rows i) = 0" "st_is_zero (receipt_rows i) = 0"
    "st_ordering_selector (receipt_rows i) = 0" "st_selector (receipt_rows i) = 1" "st_nonempty_witness (receipt_rows i) = 1 / 7"
    "st_limb_difference (receipt_rows i) = 0" for i
    by (simp_all add: receipt_rows_def assign_sort_keys_def state_zero_row_def numeral_eq_Suc)
  note val = table_assignment_def example_values unwrap_or_def
  have "satisfied (fst (build_general_constraints (queries receipt_rows 0)))"
    by (simp add: build_general_constraints_def q_is_write_def q_is_read_def q_value_def q_value_prev_column_def q_first_access_def queries_def Let_def
        c val not_expr_def)
  then have b: "satisfied (fst (build (queries receipt_rows 0)))" by (simp add: build_def m)
  have z: "[0] \<in> set (lookup_tables mpt U10_Table)" "[0] \<in> set (lookup_tables mpt U8_Table)" "[0] \<in> set (lookup_tables mpt U16_Table)"
    "[0] \<in> set (lookup_tables mpt CallContextFieldTags)" for mpt :: "rat list list"
    using zero_in_tables(1) [of 10] zero_in_tables(1) [of 8] zero_in_tables(1) [of 16] zero_in_tables(2) by (simp_all add: lookup_tables_def)
  have "lookup_tables [replicate 12 0] Mpt_Table = [[0, 0, 0, 0, 0, 0, 0, 0, 0, 0, 0, 0 :: rat]]" by (simp add: lookup_tables_def numeral_eq_Suc)
  then have l: "lookups_hold [replicate 12 0] (snd (build (queries receipt_rows 0)))"
    by (simp add: build_def m build_general_constraints_def tag_defs mpt_lookup_def value_prev_constraint_def constrained_lookups Let_def z)
  have ord: "satisfied (ordering_gates 2 receipt_rows 0)" "lookups_hold mpt (ordering_lookups receipt_rows 0)" for mpt
    by (auto simp: ordering_gates_def c binary_number_gates_def satisfied_map Let_def ordering_lookups_def range_check_u16_def z)
  have zero: "satisfied (batched_is_zero_gates 1 (st_is_zero (receipt_rows 0)) (st_nonempty_witness (receipt_rows 0))
      [fst (st_initial_value (receipt_rows 0)), snd (st_initial_value (receipt_rows 0)),
       fst (rr_value (st_rw (receipt_rows 0))), snd (rr_value (st_rw (receipt_rows 0)))])" by (simp add: batched_is_zero_gates_def c val)
  have a: "st_rw_counter_limbs (receipt_rows 0) = st_rw_counter_limbs (assign_sort_keys (RwTxReceipt 1 True 1 RFT_LogLength 7) (state_zero_row :: rat StateRow))"
      "st_id_limbs (receipt_rows 0) = st_id_limbs (assign_sort_keys (RwTxReceipt 1 True 1 RFT_LogLength 7) (state_zero_row :: rat StateRow))"
      "st_address_limbs (receipt_rows 0) = st_address_limbs (assign_sort_keys (RwTxReceipt 1 True 1 RFT_LogLength 7) (state_zero_row :: rat StateRow))"
      "st_storage_key_limbs (receipt_rows 0) = st_storage_key_limbs (assign_sort_keys (RwTxReceipt 1 True 1 RFT_LogLength 7) (state_zero_row :: rat StateRow))"
      "st_tag_bits (receipt_rows 0) = st_tag_bits (assign_sort_keys (RwTxReceipt 1 True 1 RFT_LogLength 7) (state_zero_row :: rat StateRow))" 
      "st_rw (receipt_rows 0) = st_rw (assign_sort_keys (RwTxReceipt 1 True 1 RFT_LogLength 7) (state_zero_row :: rat StateRow))"
    by (simp_all add: receipt_rows_def)
  note pass = assigned_keys_pass [OF rw, of _ "state_zero_row :: rat StateRow", folded a]
  show "satisfied (state_gates 2 receipt_rows 0)"
    unfolding state_gates_def Let_def c(7) using pass(1-5) zero ord(1) b by simp
  show "lookups_hold [replicate 12 0] (state_lookups receipt_rows 0)"
    unfolding state_lookups_def using pass(6-9) ord(2) l by simp
qed

theorem state_root_gap_witness:
  "satisfied (state_gates 2 receipt_rows 0) \<and>
   satisfied (state_gates 2 (\<lambda>j. (receipt_rows j)\<lparr>st_state_root := (of_int j + 5, 9)\<rparr>) 0) \<and>
   lookups_hold [replicate 12 0] (state_lookups (\<lambda>j. (receipt_rows j)\<lparr>st_state_root := (of_int j + 5, 9)\<rparr>) 0)"
  using state_root_gap [of receipt_rows 0 TTxReceipt 2 "\<lambda>j. (of_int j + 5, 9)" "[replicate 12 0]"] receipt_rows_pass by blast

end
