(* ===== verification/Bytecode_Circuit.thy ===== *)
theory Bytecode_Circuit
  imports State_Db Rw_Table Constraint_Builder
begin

text \<open>
  The bytecode circuit, \<^verbatim>\<open>zkevm-circuits/src/bytecode_circuit/circuit.rs\<close>, with the table of
  \<^verbatim>\<open>zkevm-circuits/src/table/bytecode_table.rs\<close>. A region is a function from row numbers to cells; a cell that is not assigned
  holds zero. The keccak table is an argument, a list of rows \<open>[is_enabled, input_rlc, input_len, output_lo, output_hi]\<close>, and so is the
  hash function.
\<close>

section \<open>Rows\<close>

datatype BytecodeFieldTag = BFT_Header | BFT_Byte

definition bytecode_field_tag_u64 :: "BytecodeFieldTag \<Rightarrow> nat" where
  "bytecode_field_tag_u64 t = (case t of BFT_Header \<Rightarrow> 0 | BFT_Byte \<Rightarrow> 1)"

definition get_push_size :: "u8 \<Rightarrow> u64" where
  "get_push_size byte = (if is_push_with_data (from_u8 byte) then ucast byte - ucast (as_u8 (Push PUSH0)) else 0)"

text \<open>The linear combination of the values is unknown (\<open>None\<close>) until the rows are assigned.\<close>

record 'f BytecodeCircuitRow =
  bcr_code_hash :: "'f \<times> 'f"
  bcr_tag :: 'f
  bcr_index :: 'f
  bcr_is_code :: 'f
  bcr_value :: 'f
  bcr_push_data_left :: u64
  bcr_value_rlc :: "'f option"
  bcr_length :: 'f
  bcr_push_data_size :: 'f

definition empty_code_hash_word_value :: "keccak \<Rightarrow> 'f :: field \<times> 'f" where
  "empty_code_hash_word_value keccak256 = word_from_u256 (keccak256 [])"

definition bytecode_pad :: "keccak \<Rightarrow> 'f :: field BytecodeCircuitRow" where
  "bytecode_pad keccak256 = \<lparr>bcr_code_hash = empty_code_hash_word_value keccak256, bcr_tag = of_nat (bytecode_field_tag_u64 BFT_Header),
     bcr_index = 0, bcr_is_code = 0, bcr_value = 0, bcr_push_data_left = 0, bcr_value_rlc = Some 0, bcr_length = 0, bcr_push_data_size = 0\<rparr>"

definition bytecode_diff :: "'f :: field BytecodeCircuitRow \<Rightarrow> 'f" where
  "bytecode_diff row = bcr_index row + 1 - bcr_length row"

section \<open>The witness\<close>

definition bytecode_head :: "keccak \<Rightarrow> Bytecode \<Rightarrow> 'f :: field BytecodeCircuitRow" where
  "bytecode_head keccak256 bytecode =
     \<lparr>bcr_code_hash = word_from_u256 (bytecode_hash keccak256 bytecode), bcr_tag = of_nat (bytecode_field_tag_u64 BFT_Header), bcr_index = 0,
      bcr_is_code = 0, bcr_value = of_nat (codesize bytecode), bcr_push_data_left = 0, bcr_value_rlc = Some 0,
      bcr_length = of_nat (codesize bytecode), bcr_push_data_size = 0\<rparr>"

definition bytecode_body :: "keccak \<Rightarrow> Bytecode \<Rightarrow> nat \<times> u8 \<times> bool \<Rightarrow> u64 \<Rightarrow> 'f :: field BytecodeCircuitRow" where
  "bytecode_body keccak256 bytecode elem push_data_left = (case elem of (index, val, is_code) \<Rightarrow>
     \<lparr>bcr_code_hash = word_from_u256 (bytecode_hash keccak256 bytecode), bcr_tag = of_nat (bytecode_field_tag_u64 BFT_Byte),
      bcr_index = of_nat index, bcr_is_code = of_bool is_code, bcr_value = of_nat (unat val), bcr_push_data_left = push_data_left,
      bcr_value_rlc = None, bcr_length = of_nat (codesize bytecode), bcr_push_data_size = of_nat (unat (get_push_size val))\<rparr>)"

definition bytecode_rows :: "keccak \<Rightarrow> Bytecode \<Rightarrow> ('f :: field BytecodeCircuitRow list, 'e) result" where
  "bytecode_rows keccak256 bytecode =
     bindE (foldE (\<lambda>(index, val, is_code) (rows, push_data_left).
         let rows = rows @ [bytecode_body keccak256 bytecode (index, val, is_code) push_data_left]
         in if is_code then Inr (rows, get_push_size val)
            else bindE (u64_sub push_data_left 1) (\<lambda>push_data_left. Inr (rows, push_data_left)))
       (enumerate 0 (code_vec bytecode)) ([bytecode_head keccak256 bytecode], 0))
       (\<lambda>(rows, _). Inr rows)"

definition assignment_from_bytecodes :: "keccak \<Rightarrow> Bytecode list \<Rightarrow> ('f :: field BytecodeCircuitRow list, 'e) result" where
  "assignment_from_bytecodes keccak256 codes = bindE (mapE (bytecode_rows keccak256) codes) (\<lambda>rows. Inr (concat rows))"

definition assignment_from_code_db :: "keccak \<Rightarrow> CodeDB \<Rightarrow> ('f :: field BytecodeCircuitRow list, 'e) result" where
  "assignment_from_code_db keccak256 db = assignment_from_bytecodes keccak256 (codedb_into_iter db)"

definition assignment_from_bytes :: "keccak \<Rightarrow> u8 list list \<Rightarrow> ('f :: field BytecodeCircuitRow list, 'e) result" where
  "assignment_from_bytes keccak256 codes = assignment_from_bytecodes keccak256 (map from_bytes codes)"

section \<open>The cells and the gates\<close>

record 'f BytecodeCells =
  bq_enable :: 'f
  bq_first :: 'f
  bq_last :: 'f
  bc_code_hash :: "'f \<times> 'f"
  bc_tag :: 'f
  bc_index :: 'f
  bc_is_code :: 'f
  bc_value :: 'f
  bc_push_data_left :: 'f
  bc_value_rlc :: 'f
  bc_length :: 'f
  bc_push_data_size :: 'f
  bc_push_data_left_inv :: 'f
  bc_index_length_diff_inv :: 'f

definition is_header_to_header :: "(nat \<Rightarrow> 'f :: field BytecodeCells) \<Rightarrow> nat \<Rightarrow> 'f" where
  "is_header_to_header rows i = and_expr [not_expr (bc_tag (rows i)), not_expr (bc_tag (rows (i + 1)))]"

definition is_header_to_byte :: "(nat \<Rightarrow> 'f :: field BytecodeCells) \<Rightarrow> nat \<Rightarrow> 'f" where
  "is_header_to_byte rows i = and_expr [not_expr (bc_tag (rows i)), bc_tag (rows (i + 1))]"

definition is_byte_to_header :: "(nat \<Rightarrow> 'f :: field BytecodeCells) \<Rightarrow> nat \<Rightarrow> 'f" where
  "is_byte_to_header rows i = and_expr [bc_tag (rows i), not_expr (bc_tag (rows (i + 1)))]"

definition is_byte_to_byte :: "(nat \<Rightarrow> 'f :: field BytecodeCells) \<Rightarrow> nat \<Rightarrow> 'f" where
  "is_byte_to_byte rows i = and_expr [bc_tag (rows i), bc_tag (rows (i + 1))]"

definition is_header :: "(nat \<Rightarrow> 'f :: field BytecodeCells) \<Rightarrow> nat \<Rightarrow> 'f" where
  "is_header rows i = not_expr (bc_tag (rows i))"

definition is_byte :: "(nat \<Rightarrow> 'f :: field BytecodeCells) \<Rightarrow> nat \<Rightarrow> 'f" where
  "is_byte rows i = bc_tag (rows i)"

definition push_data_left_is_zero :: "'f :: field BytecodeCells \<Rightarrow> 'f" where
  "push_data_left_is_zero row = is_zero_expression (bc_push_data_left row) (bc_push_data_left_inv row)"

definition index_length_diff :: "'f :: field BytecodeCells \<Rightarrow> 'f" where
  "index_length_diff row = bc_index row + 1 - bc_length row"

definition index_length_diff_is_zero :: "'f :: field BytecodeCells \<Rightarrow> 'f" where
  "index_length_diff_is_zero row = is_zero_expression (index_length_diff row) (bc_index_length_diff_inv row)"

text \<open>\<open>Word32::new(*EMPTY_CODE_HASH_LE).to_expr().to_word()\<close>.\<close>

definition empty_hash_word :: "keccak \<Rightarrow> 'f :: field \<times> 'f" where
  "empty_hash_word keccak256 = (let bytes = map (\<lambda>b. of_nat (unat b)) (le_bytes 32 (unat (keccak256 [])))
     in (expr_from_bytes (take 16 bytes), expr_from_bytes (drop 16 bytes)))"

definition bytecode_gates :: "keccak \<Rightarrow> 'f :: field \<Rightarrow> (nat \<Rightarrow> 'f BytecodeCells) \<Rightarrow> nat \<Rightarrow> 'f list" where
  "bytecode_gates keccak256 keccak_input rows i =
     (let cur = rows i; succ = rows (i + 1); q_enable = bq_enable cur; q_last = bq_last cur
      in is_zero_gate q_enable (bc_push_data_left cur) (bc_push_data_left_inv cur) @
         is_zero_gate q_enable (index_length_diff cur) (bc_index_length_diff_inv cur) @
         cb_gate (and_expr [q_enable, or_expr [bq_first cur, q_last]]) (require_zero (bc_tag cur)) @
         cb_gate (and_expr [q_enable, not_expr q_last, is_header rows i])
           (require_zero (bc_index cur) @ require_equal (bc_value cur) (bc_length cur)) @
         cb_gate (and_expr [q_enable, not_expr q_last, is_byte rows i])
           (require_equal (bc_is_code cur) (push_data_left_is_zero cur)) @
         cb_gate (and_expr [q_enable, or_expr [is_header_to_header rows i, q_last]])
           (require_zero (bc_length cur) @ require_equal_word (bc_code_hash cur) (empty_hash_word keccak256)) @
         cb_gate (and_expr [q_enable, not_expr q_last, is_header_to_byte rows i])
           (require_equal (bc_length succ) (bc_length cur) @ require_zero (bc_index succ) @ require_equal (bc_is_code succ) 1 @
            require_equal_word (bc_code_hash succ) (bc_code_hash cur) @ require_equal (bc_value_rlc succ) (bc_value succ)) @
         cb_gate (and_expr [q_enable, not_expr q_last, is_byte_to_byte rows i])
           (require_equal (bc_length succ) (bc_length cur) @ require_equal (bc_index succ) (bc_index cur + 1) @
            require_equal_word (bc_code_hash succ) (bc_code_hash cur) @
            require_equal (bc_value_rlc succ) (bc_value_rlc cur * keccak_input + bc_value succ) @
            require_equal (bc_push_data_left succ)
              (select_expr (bc_is_code cur) (bc_push_data_size cur) (bc_push_data_left cur - 1))) @
         cb_gate (and_expr [q_enable, bc_tag cur, index_length_diff_is_zero cur]) (require_zero (bc_tag succ)) @
         cb_gate (and_expr [q_enable, not_expr q_last, is_byte_to_header rows i])
           (require_equal (bc_index cur + 1) (bc_length cur)))"

text \<open>The two lookups, with the values they look up and the tables.\<close>

definition push_lookup :: "(nat \<Rightarrow> 'f :: field BytecodeCells) \<Rightarrow> nat \<Rightarrow> 'f list" where
  "push_lookup rows i =
     (let enable = and_expr [bq_enable (rows i), not_expr (bq_last (rows i)), is_byte rows i]
      in map (\<lambda>c. enable * c) [bc_value (rows i), bc_push_data_size (rows i)])"

definition keccak_lookup :: "(nat \<Rightarrow> 'f :: field BytecodeCells) \<Rightarrow> nat \<Rightarrow> 'f list" where
  "keccak_lookup rows i =
     (let enable = and_expr [bq_enable (rows i), not_expr (bq_last (rows i)), is_byte_to_header rows i]
      in enable # map (\<lambda>c. enable * c)
           [bc_value_rlc (rows i), bc_length (rows i), fst (bc_code_hash (rows i)), snd (bc_code_hash (rows i))])"

definition push_table :: "'f :: field list list" where
  "push_table = map (\<lambda>byte. [of_nat byte, of_nat (unat (get_push_size (of_nat byte)))]) [0..<256]"

section \<open>The assignment\<close>

definition bytecode_zero_cells :: "'f :: field BytecodeCells" where
  "bytecode_zero_cells = \<lparr>bq_enable = 0, bq_first = 0, bq_last = 0, bc_code_hash = (0, 0), bc_tag = 0, bc_index = 0, bc_is_code = 0,
     bc_value = 0, bc_push_data_left = 0, bc_value_rlc = 0, bc_length = 0, bc_push_data_size = 0, bc_push_data_left_inv = 0,
     bc_index_length_diff_inv = 0\<rparr>"

definition set_row :: "nat \<Rightarrow> nat \<Rightarrow> 'f :: field BytecodeCircuitRow \<Rightarrow> 'f BytecodeCells" where
  "set_row offset last_row_offset row =
     \<lparr>bq_enable = of_bool (offset \<le> last_row_offset), bq_first = of_bool (offset = 0), bq_last = of_bool (offset = last_row_offset),
      bc_code_hash = bcr_code_hash row, bc_tag = bcr_tag row, bc_index = bcr_index row, bc_is_code = bcr_is_code row,
      bc_value = bcr_value row, bc_push_data_left = of_nat (unat (bcr_push_data_left row)), bc_value_rlc = unwrap_or 0 (bcr_value_rlc row),
      bc_length = bcr_length row, bc_push_data_size = bcr_push_data_size row,
      bc_push_data_left_inv = is_zero_assign (of_nat (unat (bcr_push_data_left row))),
      bc_index_length_diff_inv = is_zero_assign (bytecode_diff row)\<rparr>"

text \<open>The loop that keeps the linear combination of the bytes of a code.\<close>

fun assign_value_rlc :: "'f :: field \<Rightarrow> 'f \<Rightarrow> 'f BytecodeCircuitRow list \<Rightarrow> 'f BytecodeCircuitRow list" where
  "assign_value_rlc challenge value_rlc [] = []"
| "assign_value_rlc challenge value_rlc (row # rows) =
     (let value_rlc = (if bcr_tag row = of_nat (bytecode_field_tag_u64 BFT_Byte) then value_rlc * challenge + bcr_value row else 0)
      in row\<lparr>bcr_value_rlc := Some value_rlc\<rparr> # assign_value_rlc challenge value_rlc rows)"

definition bytecode_assign_internal ::
  "keccak \<Rightarrow> nat \<Rightarrow> nat \<Rightarrow> 'f :: field BytecodeCircuitRow list \<Rightarrow> 'f \<Rightarrow> (nat \<Rightarrow> 'f BytecodeCells, 'e) result" where
  "bytecode_assign_internal keccak256 minimum_rows circuit_size witness keccak_input =
     (if \<not> minimum_rows < circuit_size then Inl (Panic ''assertion failed: size > self.minimum_rows'')
      else
        let last_row_offset = circuit_size - minimum_rows + 1;
            rows = take last_row_offset (witness @ replicate last_row_offset (bytecode_pad keccak256));
            cells = map (\<lambda>(offset, row). set_row offset last_row_offset row) (enumerate 0 (assign_value_rlc keccak_input 0 rows)) @
              [set_row last_row_offset last_row_offset (bytecode_pad keccak256)]
        in Inr (\<lambda>i. if i < length cells then cells ! i else bytecode_zero_cells))"

text \<open>\<open>BytecodeTable::load\<close>, the table without the circuit; the columns are those of the lookups.\<close>

definition bytecode_table_rows :: "keccak \<Rightarrow> Bytecode \<Rightarrow> 'f :: field list list" where
  "bytecode_table_rows keccak256 bytecode =
     (let (lo, hi) = word_from_u256 (bytecode_hash keccak256 bytecode)
      in [lo, hi, of_nat (bytecode_field_tag_u64 BFT_Header), 0, 0, of_nat (codesize bytecode)] #
         map (\<lambda>(index, byte, is_code). [lo, hi, of_nat (bytecode_field_tag_u64 BFT_Byte), of_nat index, of_bool is_code, of_nat (unat byte)])
           (enumerate 0 (code_vec bytecode)))"

definition bytecode_table_load :: "keccak \<Rightarrow> CodeDB \<Rightarrow> 'f :: field list list" where
  "bytecode_table_load keccak256 bytecodes =
     replicate 6 0 # concat (map (bytecode_table_rows keccak256) (codedb_into_iter bytecodes))"

section \<open>Push data by a counter\<close>

text \<open>The flags of a code from the number of bytes of push data that are left.\<close>

fun code_flags :: "nat \<Rightarrow> u8 list \<Rightarrow> (u8 \<times> bool) list" where
  "code_flags left [] = []"
| "code_flags left (b # bs) = (b, left = 0) # code_flags (if left = 0 then data_len (from_u8 b) else left - 1) bs"

lemma code_flags_data: "code_flags n bs = map (\<lambda>b. (b, False)) (take n bs) @ code_flags 0 (drop n bs)"
  by (induction n bs rule: code_flags.induct) (auto simp: take_Cons' drop_Cons')

lemma code_flags_scan: "code_flags 0 bs = map (\<lambda>e. (be_value e, be_is_code e)) (scan bs)"
proof (induction bs rule: scan.induct)
  case (2 b bs)
  then show ?case using code_flags_data [of "data_len (from_u8 b)" bs] by (simp add: comp_def)
qed simp

lemma code_vec_from_bytes: "code_vec (from_bytes bs) = code_flags 0 bs"
  by (simp add: code_vec_def from_bytes_scan code_flags_scan)

lemma get_push_size_data_len: "unat (get_push_size b) = data_len (from_u8 b)"
proof (cases "is_push_with_data (from_u8 b)")
  case True
  then have b: "0x5f \<le> b" by (simp add: is_push_with_data_from_u8 word_le_nat_alt)
  have p: "as_u8 (Push PUSH0) = 0x5f" by (simp add: as_u8_def)
  have u: "unat (ucast b :: u64) = unat b"
    using unsigned_less [of b, where ?'a = nat] by (simp add: unsigned_ucast_eq take_bit_nat_eq_self)
  then have "(ucast (0x5f :: u8) :: u64) \<le> ucast b" using b by (simp add: word_le_nat_alt)
  then show ?thesis using True b u by (simp add: get_push_size_def data_len_def p unat_sub)
qed (simp add: get_push_size_def data_len_def)

lemma length_code_flags [simp]: "length (code_flags n bs) = length bs"
  by (induction n bs rule: code_flags.induct) simp_all

lemma empty_hash_word_eq: "empty_hash_word keccak256 = (empty_code_hash_word_value keccak256 :: 'f :: field \<times> 'f)"
proof -
  have "expr_from_bytes (map (\<lambda>b. of_nat (unat b)) bs) = (from_bytes_value bs :: 'f)" for bs
  proof -
    have "foldl (\<lambda>(v, multiplier) byte. (v + byte * multiplier, multiplier * 256)) a (map (\<lambda>b. of_nat (unat b)) bs) =
        foldl (\<lambda>(v, m) byte. (v + of_nat (unat byte) * m, m * 256)) a bs" for a :: "'f \<times> 'f"
      by (induction bs arbitrary: a) (auto split: prod.splits)
    then show ?thesis by (simp add: expr_from_bytes_def from_bytes_value_def)
  qed
  then show ?thesis by (simp add: empty_hash_word_def empty_code_hash_word_value_def word_from_u256_def Let_def take_map drop_map)
qed

section \<open>What the gates say\<close>

definition bytecode_row_ok :: "keccak \<Rightarrow> 'f :: field \<Rightarrow> 'f list list \<Rightarrow> (nat \<Rightarrow> 'f BytecodeCells) \<Rightarrow> nat \<Rightarrow> bool" where
  "bytecode_row_ok keccak256 r keccak_table rows i \<longleftrightarrow> satisfied (bytecode_gates keccak256 r rows i) \<and>
     push_lookup rows i \<in> set push_table \<and> keccak_lookup rows i \<in> set keccak_table"

text \<open>Rows \<open>0 .. n\<close> are enabled, the first and the last are marked, as \<open>set_row\<close> does.\<close>

definition bytecode_region :: "(nat \<Rightarrow> 'f :: field BytecodeCells) \<Rightarrow> nat \<Rightarrow> bool" where
  "bytecode_region rows n \<longleftrightarrow>
     (\<forall>i \<le> n. bq_enable (rows i) = 1 \<and> bq_first (rows i) = of_bool (i = 0) \<and> bq_last (rows i) = of_bool (i = n))"

lemma bytecode_gate_facts:
  fixes rows :: "nat \<Rightarrow> 'f :: field BytecodeCells"
  assumes "satisfied (bytecode_gates keccak256 r rows i)" and "bytecode_region rows n" and "i < n"
  defines "cur \<equiv> rows i" and "succ \<equiv> rows (i + 1)"
  shows "i = 0 \<Longrightarrow> bc_tag cur = 0"
    and "bc_tag cur \<noteq> 1 \<Longrightarrow> bc_index cur = 0 \<and> bc_value cur = bc_length cur"
    and "bc_tag cur \<noteq> 0 \<Longrightarrow> bc_is_code cur = of_bool (bc_push_data_left cur = 0)"
    and "bc_tag cur \<noteq> 1 \<Longrightarrow> bc_tag succ \<noteq> 1 \<Longrightarrow> bc_length cur = 0 \<and> bc_code_hash cur = empty_hash_word keccak256"
    and "bc_tag cur \<noteq> 1 \<Longrightarrow> bc_tag succ \<noteq> 0 \<Longrightarrow> bc_length succ = bc_length cur \<and> bc_index succ = 0 \<and> bc_is_code succ = 1 \<and>
      bc_code_hash succ = bc_code_hash cur \<and> bc_value_rlc succ = bc_value succ"
    and "bc_tag cur \<noteq> 0 \<Longrightarrow> bc_tag succ \<noteq> 0 \<Longrightarrow> bc_length succ = bc_length cur \<and> bc_index succ = bc_index cur + 1 \<and>
      bc_code_hash succ = bc_code_hash cur \<and> bc_value_rlc succ = bc_value_rlc cur * r + bc_value succ \<and>
      bc_push_data_left succ = select_expr (bc_is_code cur) (bc_push_data_size cur) (bc_push_data_left cur - 1)"
    and "bc_tag cur \<noteq> 0 \<Longrightarrow> bc_index cur + 1 = bc_length cur \<Longrightarrow> bc_tag succ = 0"
    and "bc_tag cur \<noteq> 0 \<Longrightarrow> bc_tag succ \<noteq> 1 \<Longrightarrow> bc_index cur + 1 = bc_length cur"
proof -
  have q: "bq_enable (rows i) = 1" "bq_last (rows i) = 0" "bq_first (rows i) = of_bool (i = 0)"
    using assms(2,3) by (simp_all add: bytecode_region_def)
  note g = assms(1) [unfolded bytecode_gates_def Let_def q, folded cur_def succ_def, simplified, folded succ_def [simplified]]
  show "bc_tag cur = 0" if "i = 0" using g that by (simp add: or_expr_def not_expr_def)
  show "bc_index cur = 0 \<and> bc_value cur = bc_length cur" if "bc_tag cur \<noteq> 1"
    using g that by (simp add: is_header_def not_expr_def cur_def)
  show "bc_is_code cur = of_bool (bc_push_data_left cur = 0)" if "bc_tag cur \<noteq> 0"
    using g that by (auto simp: is_byte_def not_expr_def cur_def push_data_left_is_zero_def is_zero_gate_def is_zero_expression_def)
  show "bc_length cur = 0 \<and> bc_code_hash cur = empty_hash_word keccak256" if "bc_tag cur \<noteq> 1" "bc_tag succ \<noteq> 1"
    using g that by (simp add: is_header_to_header_def or_expr_def not_expr_def cur_def succ_def)
  show "bc_length succ = bc_length cur \<and> bc_index succ = 0 \<and> bc_is_code succ = 1 \<and>
      bc_code_hash succ = bc_code_hash cur \<and> bc_value_rlc succ = bc_value succ" if "bc_tag cur \<noteq> 1" "bc_tag succ \<noteq> 0"
    using g that by (simp add: is_header_to_byte_def not_expr_def cur_def succ_def)
  show "bc_length succ = bc_length cur \<and> bc_index succ = bc_index cur + 1 \<and>
      bc_code_hash succ = bc_code_hash cur \<and> bc_value_rlc succ = bc_value_rlc cur * r + bc_value succ \<and>
      bc_push_data_left succ = select_expr (bc_is_code cur) (bc_push_data_size cur) (bc_push_data_left cur - 1)"
    if "bc_tag cur \<noteq> 0" "bc_tag succ \<noteq> 0"
    using g that by (simp add: is_byte_to_byte_def not_expr_def cur_def succ_def)
  show "bc_tag succ = 0" if "bc_tag cur \<noteq> 0" "bc_index cur + 1 = bc_length cur"
    using g that by (simp add: index_length_diff_is_zero_def index_length_diff_def is_zero_expression_def)
  show "bc_index cur + 1 = bc_length cur" if "bc_tag cur \<noteq> 0" "bc_tag succ \<noteq> 1"
    using g that by (simp add: is_byte_to_header_def not_expr_def cur_def succ_def)
qed

text \<open>No gate asks for it, but the tag of a row is a bit.\<close>

lemma bytecode_tag_boolean:
  assumes "satisfied (bytecode_gates keccak256 r rows i)" and "bytecode_region rows n" and "i < n"
  shows "bc_tag (rows i) = 0 \<or> bc_tag (rows i) = 1"
proof (rule ccontr)
  assume t: "\<not> (bc_tag (rows i) = 0 \<or> bc_tag (rows i) = 1)"
  note g = bytecode_gate_facts [OF assms]
  have 0: "bc_index (rows i) = 0" using g(2) t by simp
  show False
  proof (cases "bc_tag (rows (i + 1)) = 0")
    case True
    then show ?thesis using g(4,8) t 0 by simp
  next
    case False
    then show ?thesis using g(5,6) t 0 by simp
  qed
qed

lemma bytecode_last_row:
  assumes "satisfied (bytecode_gates keccak256 r rows n)" and "bytecode_region rows n"
  shows "bc_tag (rows n) = 0" and "bc_length (rows n) = 0" and "bc_code_hash (rows n) = empty_hash_word keccak256"
proof -
  have "bq_enable (rows n) = 1" "bq_last (rows n) = 1" using assms(2) by (simp_all add: bytecode_region_def)
  note g = assms(1) [unfolded bytecode_gates_def Let_def this, simplified]
  show "bc_tag (rows n) = 0" "bc_length (rows n) = 0" "bc_code_hash (rows n) = empty_hash_word keccak256"
    using g by (simp_all add: or_expr_def not_expr_def)
qed

lemma bytecode_lookup_facts:
  assumes "bytecode_row_ok keccak256 r keccak_table rows i" and "bytecode_region rows n" and "i < n" and "bc_tag (rows i) = 1"
  obtains b where "bc_value (rows i) = of_nat (unat b)" and "bc_push_data_size (rows i) = of_nat (data_len (from_u8 b))"
    and "bc_tag (rows (i + 1)) = 0 \<Longrightarrow>
      [1, bc_value_rlc (rows i), bc_length (rows i), fst (bc_code_hash (rows i)), snd (bc_code_hash (rows i))] \<in> set keccak_table"
proof -
  have q: "bq_enable (rows i) = 1" "bq_last (rows i) = 0" using assms(2,3) by (simp_all add: bytecode_region_def)
  have "[bc_value (rows i), bc_push_data_size (rows i)] \<in> set push_table"
    using assms(1,4) q by (simp add: bytecode_row_ok_def push_lookup_def is_byte_def not_expr_def Let_def)
  then obtain byte where "byte < 256" "bc_value (rows i) = of_nat byte"
    "bc_push_data_size (rows i) = of_nat (unat (get_push_size (of_nat byte)))" by (auto simp: push_table_def)
  moreover have "[1, bc_value_rlc (rows i), bc_length (rows i), fst (bc_code_hash (rows i)), snd (bc_code_hash (rows i))] \<in> set keccak_table"
    if "bc_tag (rows (i + 1)) = 0"
    using assms(1,4) q that by (simp add: bytecode_row_ok_def keccak_lookup_def is_byte_to_header_def not_expr_def Let_def)
  ultimately show ?thesis using that [of "of_nat byte"] by (simp add: get_push_size_data_len unat_of_nat)
qed

section \<open>The codes of a table\<close>

text \<open>The columns of the lookup table. The flag of a header row is not constrained, so it is masked.\<close>

definition bytecode_columns :: "'f :: field BytecodeCells \<Rightarrow> ('f \<times> 'f) \<times> 'f \<times> 'f \<times> 'f \<times> 'f" where
  "bytecode_columns row = (bc_code_hash row, bc_tag row, bc_index row, bc_tag row * bc_is_code row, bc_value row)"

definition byte_columns :: "'f :: field \<times> 'f \<Rightarrow> nat \<times> u8 \<times> bool \<Rightarrow> ('f \<times> 'f) \<times> 'f \<times> 'f \<times> 'f \<times> 'f" where
  "byte_columns h elem = (case elem of (i, b, is_code) \<Rightarrow> (h, 1, of_nat i, of_bool is_code, of_nat (unat b)))"

definition code_columns :: "('f :: field \<times> 'f) \<times> u8 list \<Rightarrow> (('f \<times> 'f) \<times> 'f \<times> 'f \<times> 'f \<times> 'f) list" where
  "code_columns code = (case code of (h, bs) \<Rightarrow>
     (h, 0, 0, 0, of_nat (length bs)) # map (byte_columns h) (enumerate 0 (code_vec (from_bytes bs))))"

definition code_rlc :: "'f :: field \<Rightarrow> u8 list \<Rightarrow> 'f" where
  "code_rlc r bs = foldl (\<lambda>acc b. acc * r + of_nat (unat b)) 0 bs"

definition code_hashed :: "keccak \<Rightarrow> 'f :: field \<Rightarrow> 'f list list \<Rightarrow> ('f \<times> 'f) \<times> u8 list \<Rightarrow> bool" where
  "code_hashed keccak256 r keccak_table code = (case code of (h, bs) \<Rightarrow>
     if bs = [] then h = empty_hash_word keccak256
     else [1, code_rlc r bs, of_nat (length bs), fst h, snd h] \<in> set keccak_table)"

definition bytecode_table_ok :: "keccak \<Rightarrow> 'f :: field \<Rightarrow> 'f list list \<Rightarrow> (nat \<Rightarrow> 'f BytecodeCells) \<Rightarrow> nat \<Rightarrow> bool" where
  "bytecode_table_ok keccak256 r keccak_table rows n \<longleftrightarrow> bytecode_region rows n \<and> (\<forall>i \<le> n. bytecode_row_ok keccak256 r keccak_table rows i)"

lemma bytecode_table_gates:
  assumes "bytecode_table_ok keccak256 r keccak_table rows n"
  shows "bytecode_region rows n" and "i \<le> n \<Longrightarrow> bytecode_row_ok keccak256 r keccak_table rows i"
    and "i \<le> n \<Longrightarrow> satisfied (bytecode_gates keccak256 r rows i)" and "bc_tag (rows n) = 0"
    and "i \<le> n \<Longrightarrow> bc_tag (rows i) = 0 \<or> bc_tag (rows i) = 1"
proof -
  show t: "bytecode_region rows n" "i \<le> n \<Longrightarrow> bytecode_row_ok keccak256 r keccak_table rows i" for i
    using assms by (simp_all add: bytecode_table_ok_def)
  then show g: "satisfied (bytecode_gates keccak256 r rows i)" if "i \<le> n" for i
    using t(2) [OF that] by (simp add: bytecode_row_ok_def)
  then show l: "bc_tag (rows n) = 0" using bytecode_last_row(1) t(1) by blast
  show "bc_tag (rows i) = 0 \<or> bc_tag (rows i) = 1" if "i \<le> n"
    using bytecode_tag_boolean [OF g t(1)] l that by (cases "i = n") auto
qed

lemma bytecode_run:
  fixes rows :: "nat \<Rightarrow> 'f :: field BytecodeCells"
  assumes can: "canonical (repr :: 'f \<Rightarrow> nat)" and table: "bytecode_table_ok keccak256 r keccak_table rows n"
    and "j \<le> n" and "bc_tag (rows j) = 1" and "bc_index (rows j) = of_nat k" and "bc_push_data_left (rows j) = of_nat left" and "left \<le> 32"
    and "bc_value_rlc (rows j) = a * r + bc_value (rows j)"
  shows "\<exists>bs. bs \<noteq> [] \<and> j + length bs \<le> n \<and> bc_tag (rows (j + length bs)) = 0 \<and>
     map (\<lambda>i. bytecode_columns (rows i)) [j..<j + length bs] = map (byte_columns (bc_code_hash (rows j))) (enumerate k (code_flags left bs)) \<and>
     bc_length (rows j) = of_nat (k + length bs) \<and>
     [1, foldl (\<lambda>acc b. acc * r + of_nat (unat b)) a bs, bc_length (rows j), fst (bc_code_hash (rows j)), snd (bc_code_hash (rows j))] \<in> set keccak_table"
  using assms(3-)
proof (induction "n - j" arbitrary: j k left a rule: less_induct)
  case less
  have j: "j < n" using less.prems(1,2) bytecode_table_gates(4) [OF table] by (cases "j = n") auto
  note reg = bytecode_table_gates(1) [OF table] and ok = bytecode_table_gates(2) [OF table, of j] and gates = bytecode_table_gates(3) [OF table, of j]
  note g = bytecode_gate_facts [OF gates reg j]
  obtain b where b: "bc_value (rows j) = of_nat (unat b)" "bc_push_data_size (rows j) = of_nat (data_len (from_u8 b))"
    "bc_tag (rows (j + 1)) = 0 \<Longrightarrow>
      [1, bc_value_rlc (rows j), bc_length (rows j), fst (bc_code_hash (rows j)), snd (bc_code_hash (rows j))] \<in> set keccak_table"
    using bytecode_lookup_facts [OF ok reg j less.prems(2)] j by (metis less_imp_le)
  have "(of_nat left = (0 :: 'f)) \<longleftrightarrow> left = 0" using canonicalD [OF can, of left 0] less.prems(5) by simp
  then have code: "bc_is_code (rows j) = of_bool (left = 0)" using g(3) less.prems(2,4) j by simp
  have cols: "bytecode_columns (rows j) = byte_columns (bc_code_hash (rows j)) (k, b, left = 0)"
    using less.prems(2,3) code b(1) by (simp add: bytecode_columns_def byte_columns_def)
  show ?case
  proof (cases "bc_tag (rows (j + 1)) = 0")
    case True
    then have "bc_length (rows j) = of_nat (k + 1)" using g(8) less.prems(2,3) j by (simp add: add.commute)
    then show ?thesis
      using True b(1,3) cols less.prems(6) j by (intro exI [of _ "[b]"]) simp
  next
    case False
    then have t: "bc_tag (rows (j + 1)) = 1" using bytecode_table_gates(5) [OF table, of "j + 1"] j by simp
    let ?left = "if left = 0 then data_len (from_u8 b) else left - 1"
    have s: "bc_length (rows (j + 1)) = bc_length (rows j)" "bc_index (rows (j + 1)) = of_nat (k + 1)"
      "bc_code_hash (rows (j + 1)) = bc_code_hash (rows j)" "bc_value_rlc (rows (j + 1)) = (a * r + bc_value (rows j)) * r + bc_value (rows (j + 1))"
      "bc_push_data_left (rows (j + 1)) = of_nat ?left"
      using g(6) less.prems(2-6) False j code b(2) by (simp_all add: add.commute of_nat_diff select_expr_def)
    have "?left \<le> 32" using less.prems(5) data_len_bound [of "from_u8 b"] by (simp; linarith)
    have "n - (j + 1) < n - j" "j + 1 \<le> n" using j by simp_all
    from less.hyps [OF this t s(2) s(5) \<open>?left \<le> 32\<close> s(4)] obtain bs where bs: "bs \<noteq> []" "j + 1 + length bs \<le> n" "bc_tag (rows (j + 1 + length bs)) = 0"
      "map (\<lambda>i. bytecode_columns (rows i)) [j + 1..<j + 1 + length bs] = map (byte_columns (bc_code_hash (rows j))) (enumerate (k + 1) (code_flags ?left bs))"
      "bc_length (rows j) = of_nat (k + 1 + length bs)"
      "[1, foldl (\<lambda>acc b. acc * r + of_nat (unat b)) (a * r + bc_value (rows j)) bs, bc_length (rows j), fst (bc_code_hash (rows j)),
        snd (bc_code_hash (rows j))] \<in> set keccak_table"
      unfolding s(1,3) by blast
    have "[j..<j + length (b # bs)] = j # [j + 1..<j + 1 + length bs]" using upt_conv_Cons [of j "j + 1 + length bs"] by simp
    then show ?thesis using bs cols b(1) by (intro exI [of _ "b # bs"]) simp
  qed
qed

lemma bytecode_codes:
  fixes rows :: "nat \<Rightarrow> 'f :: field BytecodeCells"
  assumes can: "canonical (repr :: 'f \<Rightarrow> nat)" and table: "bytecode_table_ok keccak256 r keccak_table rows n"
    and "i \<le> n" and "bc_tag (rows i) = 0"
  shows "\<exists>codes. map (\<lambda>i. bytecode_columns (rows i)) [i..<n] = concat (map code_columns codes) \<and>
     list_all (code_hashed keccak256 r keccak_table) codes"
  using assms(3-)
proof (induction "n - i" arbitrary: i rule: less_induct)
  case less
  note reg = bytecode_table_gates(1) [OF table]
  show ?case
  proof (cases "i = n")
    case True
    then show ?thesis by (intro exI [of _ "[]"]) simp
  next
    case False
    then have i: "i < n" using less.prems(1) by simp
    note g = bytecode_gate_facts [OF bytecode_table_gates(3) [OF table less.prems(1)] reg i]
    have head: "bc_index (rows i) = 0" "bc_value (rows i) = bc_length (rows i)" using g(2) less.prems(2) by simp_all
    have "\<exists>bs. i + 1 + length bs \<le> n \<and> bc_tag (rows (i + 1 + length bs)) = 0 \<and>
        map (\<lambda>i. bytecode_columns (rows i)) [i..<i + 1 + length bs] = code_columns (bc_code_hash (rows i), bs) \<and>
        code_hashed keccak256 r keccak_table (bc_code_hash (rows i), bs)"
    proof (cases "bc_tag (rows (i + 1)) = 0")
      case True
      then show ?thesis
        using g(4) less.prems(2) head i
        by (intro exI [of _ "[]"]) (simp add: code_columns_def code_hashed_def bytecode_columns_def code_vec_from_bytes)
    next
      case False
      then have t: "bc_tag (rows (i + 1)) = 1" using bytecode_table_gates(5) [OF table, of "i + 1"] i by simp
      have s: "bc_length (rows (i + 1)) = bc_length (rows i)" "bc_index (rows (i + 1)) = of_nat 0" "bc_is_code (rows (i + 1)) = 1"
        "bc_code_hash (rows (i + 1)) = bc_code_hash (rows i)" "bc_value_rlc (rows (i + 1)) = 0 * r + bc_value (rows (i + 1))"
        using g(5) less.prems(2) False by simp_all
      have "i + 1 < n" using bytecode_table_gates(4) [OF table] t i by (cases "i + 1 = n") auto
      then have "bc_push_data_left (rows (i + 1)) = of_nat 0"
        using bytecode_gate_facts(3) [OF bytecode_table_gates(3) [OF table, of "i + 1"] reg] t s(3) by (auto split: if_splits)
      from bytecode_run [OF can table _ t s(2) this _ s(5)] i obtain bs where bs: "bs \<noteq> []" "i + 1 + length bs \<le> n"
        "bc_tag (rows (i + 1 + length bs)) = 0"
        "map (\<lambda>i. bytecode_columns (rows i)) [i + 1..<i + 1 + length bs] = map (byte_columns (bc_code_hash (rows i))) (enumerate 0 (code_flags 0 bs))"
        "bc_length (rows i) = of_nat (length bs)"
        "[1, foldl (\<lambda>acc b. acc * r + of_nat (unat b)) 0 bs, bc_length (rows i), fst (bc_code_hash (rows i)), snd (bc_code_hash (rows i))] \<in> set keccak_table"
        unfolding s(1,4) by auto
      have "[i..<i + 1 + length bs] = i # [i + 1..<i + 1 + length bs]"
        using upt_conv_Cons [of i "i + 1 + length bs"] by simp
      then show ?thesis
        using bs head less.prems(2)
        by (intro exI [of _ bs]) (simp add: code_columns_def code_hashed_def code_rlc_def bytecode_columns_def code_vec_from_bytes)
    qed
    then obtain bs where bs: "i + 1 + length bs \<le> n" "bc_tag (rows (i + 1 + length bs)) = 0"
        "map (\<lambda>i. bytecode_columns (rows i)) [i..<i + 1 + length bs] = code_columns (bc_code_hash (rows i), bs)"
        "code_hashed keccak256 r keccak_table (bc_code_hash (rows i), bs)" by blast
    have "n - (i + 1 + length bs) < n - i" using i by simp
    from less.hyps [OF this bs(1,2)] obtain codes where codes: "map (\<lambda>i. bytecode_columns (rows i)) [i + 1 + length bs..<n] = concat (map code_columns codes)"
        "list_all (code_hashed keccak256 r keccak_table) codes" by blast
    have "[i..<n] = [i..<i + 1 + length bs] @ [i + 1 + length bs..<n]"
      using bs(1) upt_add_eq_append [of i "i + 1 + length bs" "n - (i + 1 + length bs)"] by (simp del: upt_Suc)
    then show ?thesis using bs(3,4) codes by (intro exI [of _ "(bc_code_hash (rows i), bs) # codes"]) simp
  qed
qed

section \<open>The assigned rows\<close>

text \<open>The rows of the bytes of a code, from position \<open>k\<close> on.\<close>

fun body_rows :: "keccak \<Rightarrow> Bytecode \<Rightarrow> nat \<Rightarrow> u64 \<Rightarrow> u8 list \<Rightarrow> 'f :: field BytecodeCircuitRow list" where
  "body_rows keccak256 bytecode k left [] = []"
| "body_rows keccak256 bytecode k left (b # bs) = bytecode_body keccak256 bytecode (k, b, left = 0) left #
     body_rows keccak256 bytecode (k + 1) (if left = 0 then get_push_size b else left - 1) bs"

lemma next_left: "unat (if left = 0 then get_push_size b else left - 1) = (if unat left = 0 then data_len (from_u8 b) else unat left - 1)"
  by (auto simp: get_push_size_data_len unat_eq_zero unat_minus_one)

lemma bytecode_loop:
  "\<exists>left'. foldE (\<lambda>(index, val, is_code) (rows, push_data_left).
         let rows = rows @ [bytecode_body keccak256 bytecode (index, val, is_code) push_data_left]
         in if is_code then Inr (rows, get_push_size val)
            else bindE (u64_sub push_data_left 1) (\<lambda>push_data_left. Inr (rows, push_data_left)))
       (enumerate k (code_flags (unat left) bs)) (rows, left) =
     (Inr (rows @ body_rows keccak256 bytecode k left bs, left') :: (_, 'e) result)"
proof (induction bs arbitrary: k left rows)
  case (Cons b bs)
  let ?left = "if left = 0 then get_push_size b else left - 1"
  have "left \<noteq> 0 \<Longrightarrow> u64_sub left 1 = (Inr (left - 1) :: (u64, 'e) result)"
    by (simp add: u64_sub_def word_le_nat_alt Suc_le_eq unat_gt_0)
  then show ?case
    using Cons [of "k + 1" ?left "rows @ [bytecode_body keccak256 bytecode (k, b, left = 0) left]"]
    by (auto simp: next_left unat_eq_zero Let_def)
qed simp

lemma bytecode_rows_eq:
  "bytecode_rows keccak256 (from_bytes bs) =
     (Inr (bytecode_head keccak256 (from_bytes bs) # body_rows keccak256 (from_bytes bs) 0 0 bs) :: (_, 'e) result)"
proof -
  have "\<exists>left'. foldE (\<lambda>(index, val, is_code) (rows, push_data_left).
         let rows = rows @ [bytecode_body keccak256 (from_bytes bs) (index, val, is_code) push_data_left]
         in if is_code then Inr (rows, get_push_size val)
            else bindE (u64_sub push_data_left 1) (\<lambda>push_data_left. Inr (rows, push_data_left)))
       (enumerate 0 (code_flags 0 bs)) ([bytecode_head keccak256 (from_bytes bs)], 0) =
     (Inr ([bytecode_head keccak256 (from_bytes bs)] @ body_rows keccak256 (from_bytes bs) 0 0 bs, left') :: (_, 'e) result)"
    using bytecode_loop [where left = 0 and k = 0 and ?'e = 'e, of keccak256 "from_bytes bs" bs "[bytecode_head keccak256 (from_bytes bs)]"] by simp
  then show ?thesis by (auto simp: bytecode_rows_def code_vec_from_bytes)
qed

definition code_rows :: "keccak \<Rightarrow> u8 list \<Rightarrow> 'f :: field BytecodeCircuitRow list" where
  "code_rows keccak256 bs = bytecode_head keccak256 (from_bytes bs) # body_rows keccak256 (from_bytes bs) 0 0 bs"

lemma assignment_from_bytes_eq:
  "assignment_from_bytes keccak256 codes = (Inr (concat (map (code_rows keccak256) codes)) :: ('f :: field BytecodeCircuitRow list, 'e) result)"
proof -
  have "mapE (bytecode_rows keccak256) (map from_bytes codes) = (Inr (map (code_rows keccak256) codes) :: ('f BytecodeCircuitRow list list, 'e) result)"
    by (induction codes) (simp_all add: bytecode_rows_eq code_rows_def)
  then show ?thesis by (simp add: assignment_from_bytes_def assignment_from_bytecodes_def)
qed

lemma length_body_rows [simp]: "length (body_rows keccak256 bytecode k left bs) = length bs"
  by (induction bs arbitrary: k left) simp_all

lemma body_rows_tag: "row \<in> set (body_rows keccak256 bytecode k left bs) \<Longrightarrow> bcr_tag row = 1"
  by (induction bs arbitrary: k left) (auto simp: bytecode_body_def bytecode_field_tag_u64_def)

text \<open>The linear combinations start again at each code.\<close>

lemma assign_value_rlc_append:
  "\<exists>a'. assign_value_rlc r a (xs @ ys) = assign_value_rlc r a xs @ assign_value_rlc r a' ys"
proof (induction xs arbitrary: a)
  case Nil
  then show ?case by (auto intro: exI [of _ a])
qed (auto simp: Let_def)

lemma assign_value_rlc_head:
  "assign_value_rlc r a (bytecode_head keccak256 c # rows) = bytecode_head keccak256 c # assign_value_rlc r 0 rows"
  by (simp add: bytecode_head_def bytecode_field_tag_u64_def)

definition assigned_code :: "keccak \<Rightarrow> 'f :: field \<Rightarrow> u8 list \<Rightarrow> 'f BytecodeCircuitRow list" where
  "assigned_code keccak256 r bs =
     bytecode_head keccak256 (from_bytes bs) # assign_value_rlc r 0 (body_rows keccak256 (from_bytes bs) 0 0 bs)"

lemma assign_value_rlc_pads: "assign_value_rlc r a (replicate n (bytecode_pad keccak256)) = replicate n (bytecode_pad keccak256)"
  by (induction n arbitrary: a) (simp_all add: bytecode_pad_def bytecode_field_tag_u64_def)

lemma assign_value_rlc_codes:
  "assign_value_rlc r a (concat (map (code_rows keccak256) codes) @ replicate n (bytecode_pad keccak256)) =
     concat (map (assigned_code keccak256 r) codes) @ replicate n (bytecode_pad keccak256)"
proof (induction codes arbitrary: a)
  case Nil
  then show ?case by (simp add: assign_value_rlc_pads)
next
  case (Cons bs codes)
  obtain a' where "assign_value_rlc r 0 (body_rows keccak256 (from_bytes bs) 0 0 bs @ concat (map (code_rows keccak256) codes) @ replicate n (bytecode_pad keccak256)) =
    assign_value_rlc r 0 (body_rows keccak256 (from_bytes bs) 0 0 bs) @ assign_value_rlc r a' (concat (map (code_rows keccak256) codes) @ replicate n (bytecode_pad keccak256))"
    using assign_value_rlc_append by blast
  then show ?case
    using Cons [of a'] by (simp add: code_rows_def [of _ bs] assigned_code_def [of _ _ bs] assign_value_rlc_head del: assign_value_rlc.simps)
qed

section \<open>Neighbours\<close>

text \<open>What the gates and lookups ask of two neighbouring rows.\<close>

definition byte_row_ok :: "'f :: field BytecodeCircuitRow \<Rightarrow> bool" where
  "byte_row_ok a \<longleftrightarrow> bcr_is_code a = of_bool (of_nat (unat (bcr_push_data_left a)) = (0 :: 'f)) \<and>
     (\<exists>b. bcr_value a = of_nat (unat (b :: u8)) \<and> bcr_push_data_size a = of_nat (unat (get_push_size b)))"

definition rows_follow :: "keccak \<Rightarrow> 'f :: field \<Rightarrow> 'f list list \<Rightarrow> 'f BytecodeCircuitRow \<Rightarrow> 'f BytecodeCircuitRow \<Rightarrow> bool" where
  "rows_follow keccak256 r keccak_table a b \<longleftrightarrow>
     (if bcr_tag a = 0 then bcr_index a = 0 \<and> bcr_value a = bcr_length a \<and>
        (if bcr_tag b = 0 then bcr_length a = 0 \<and> bcr_code_hash a = empty_code_hash_word_value keccak256
         else bcr_tag b = 1 \<and> bcr_length b = bcr_length a \<and> bcr_index b = 0 \<and> bcr_is_code b = 1 \<and> bcr_code_hash b = bcr_code_hash a \<and>
           unwrap_or 0 (bcr_value_rlc b) = bcr_value b)
      else bcr_tag a = 1 \<and> byte_row_ok a \<and>
        (if bcr_tag b = 0 then bcr_index a + 1 = bcr_length a \<and>
           [1, unwrap_or 0 (bcr_value_rlc a), bcr_length a, fst (bcr_code_hash a), snd (bcr_code_hash a)] \<in> set keccak_table
         else bcr_tag b = 1 \<and> bcr_index a + 1 \<noteq> bcr_length a \<and> bcr_length b = bcr_length a \<and> bcr_index b = bcr_index a + 1 \<and>
           bcr_code_hash b = bcr_code_hash a \<and> unwrap_or 0 (bcr_value_rlc b) = unwrap_or 0 (bcr_value_rlc a) * r + bcr_value b \<and>
           of_nat (unat (bcr_push_data_left b)) =
             select_expr (bcr_is_code a) (bcr_push_data_size a) (of_nat (unat (bcr_push_data_left a)) - 1)))"

lemma is_zero_assigned [simp]:
  "is_zero_expression v (is_zero_assign v) = of_bool (v = 0)" "satisfied (is_zero_gate q v (is_zero_assign v))"
  by (simp_all add: is_zero_expression_def is_zero_assign_def is_zero_gate_def)

lemma byte_in_push_table: "[of_nat (unat b), of_nat (unat (get_push_size b))] \<in> set (push_table :: 'f :: field list list)"
proof -
  have "unat b < 256" using unsigned_less [of b, where ?'a = nat] by simp
  then show ?thesis by (auto simp: push_table_def intro!: image_eqI [of _ _ "unat b"])
qed

lemma zero_in_push_table: "[0, 0] \<in> set (push_table :: 'f :: field list list)"
  using byte_in_push_table [of 0, where ?'f = 'f] get_push_size_data_len [of 0] by (simp add: data_len_def is_push_with_data_from_u8)

lemma rows_follow_ok:
  fixes a b :: "'f :: field BytecodeCircuitRow"
  assumes follow: "rows_follow keccak256 r keccak_table a b" and i: "i < n" "i = 0 \<longrightarrow> bcr_tag a = 0"
    and rows: "rows i = set_row i n a" "rows (i + 1) = set_row (i + 1) n b" and zero: "[0, 0, 0, 0, 0] \<in> set keccak_table"
  shows "bytecode_row_ok keccak256 r keccak_table rows i"
proof -
  note simps = bytecode_gates_def Let_def rows rows(2) [simplified] set_row_def index_length_diff_def is_header_def is_byte_def push_data_left_is_zero_def
    index_length_diff_is_zero_def is_header_to_header_def is_header_to_byte_def is_byte_to_header_def is_byte_to_byte_def not_expr_def or_expr_def
    bytecode_diff_def empty_hash_word_eq push_lookup_def keccak_lookup_def
  show ?thesis
  proof (cases "bcr_tag a = 0")
    case True
    then show ?thesis
      using follow i zero zero_in_push_table by (auto simp: bytecode_row_ok_def rows_follow_def simps split: if_splits)
  next
    case False
    then have a: "bcr_tag a = 1" "byte_row_ok a" "i \<noteq> 0" using follow i by (auto simp: rows_follow_def)
    obtain c where c: "bcr_value a = of_nat (unat (c :: u8))" "bcr_push_data_size a = of_nat (unat (get_push_size c))"
      using a(2) by (auto simp: byte_row_ok_def)
    have "satisfied (bytecode_gates keccak256 r rows i)"
      using follow a i(1) False by (auto simp: rows_follow_def byte_row_ok_def simps select_expr_def split: if_splits)
    moreover have "push_lookup rows i \<in> set push_table" using a i(1) byte_in_push_table [of c] by (simp add: simps c del: of_nat_unat)
    moreover have "keccak_lookup rows i \<in> set keccak_table"
      using follow a i(1) zero by (auto simp: rows_follow_def simps split: if_splits)
    ultimately show ?thesis by (simp add: bytecode_row_ok_def)
  qed
qed

lemma successively_ok:
  assumes "successively P (xs :: 'a list)" and "i + 1 < length xs"
  shows "P (xs ! i) (xs ! (i + 1))"
  using assms by (simp add: successively_conv_nth)

lemma byte_rows_follow:
  fixes keccak_table :: "'f :: field list list"
  assumes can: "canonical (repr :: 'f \<Rightarrow> nat)" and len: "codesize c = k + length bs" "codesize c < 2 ^ 64" and bs: "bs \<noteq> []"
    and hash: "word_from_u256 (bytecode_hash keccak256 c) = h"
      "[1, foldl (\<lambda>acc b. acc * r + of_nat (unat b)) a bs, of_nat (codesize c), fst h, snd h] \<in> set keccak_table"
    and rest: "successively (rows_follow keccak256 r keccak_table) (head # rest)" "bcr_tag head = 0"
  shows "successively (rows_follow keccak256 r keccak_table) (assign_value_rlc r a (body_rows keccak256 c k left bs) @ head # rest)"
  using len bs hash(2)
proof (induction bs arbitrary: k a left)
  case (Cons b bs)
  let ?a = "a * r + of_nat (unat b)" and ?left = "if left = 0 then get_push_size b else left - 1"
  let ?row = "(bytecode_body keccak256 c (k, b, left = 0) left :: 'f BytecodeCircuitRow)\<lparr>bcr_value_rlc := Some ?a\<rparr>"
  have step: "assign_value_rlc r a (body_rows keccak256 c k left (b # bs)) = ?row # assign_value_rlc r ?a (body_rows keccak256 c (k + 1) ?left bs)"
    by (simp add: bytecode_body_def Let_def)
  have nz: "(of_nat (unat left) = (0 :: 'f)) \<longleftrightarrow> left = 0"
    using canonicalD [OF can, of "unat left" 0] unsigned_less [of left, where ?'a = nat] by (simp add: unat_eq_zero del: of_nat_unat)
  then have ok: "byte_row_ok ?row" by (auto simp: byte_row_ok_def bytecode_body_def simp del: of_nat_unat)
  show ?case
  proof (cases bs)
    case Nil
    have "rows_follow keccak256 r keccak_table ?row head"
      using ok rest(2) Cons.prems(1,4) Nil hash(1)
      by (simp add: rows_follow_def) (simp add: bytecode_body_def bytecode_field_tag_u64_def unwrap_or_def)
    then show ?thesis using rest(1) unfolding step by (simp add: Nil)
  next
    case (Cons b' bs')
    let ?row' = "(bytecode_body keccak256 c (k + 1, b', ?left = 0) ?left :: 'f BytecodeCircuitRow)\<lparr>bcr_value_rlc := Some (?a * r + of_nat (unat b'))\<rparr>"
    have ne: "of_nat k + 1 \<noteq> (of_nat (codesize c) :: 'f)"
      using canonicalD [OF can, of "k + 1" "codesize c"] Cons.prems(1,2) \<open>bs = b' # bs'\<close> by (simp add: add.commute)
    have left: "(of_nat (unat ?left) :: 'f) = select_expr (of_bool (left = 0)) (of_nat (unat (get_push_size b))) (of_nat (unat left) - 1)"
    proof (cases "left = 0")
      case False
      then have "1 \<le> unat left" by (simp add: Suc_le_eq unat_gt_0)
      then show ?thesis using False by (simp add: select_expr_def unat_minus_one of_nat_diff del: of_nat_unat)
    qed (simp add: select_expr_def)
    have "rows_follow keccak256 r keccak_table ?row ?row'"
      using ok ne left by (simp add: rows_follow_def) (auto simp: bytecode_body_def bytecode_field_tag_u64_def unwrap_or_def select_expr_def)
    moreover have "successively (rows_follow keccak256 r keccak_table) (assign_value_rlc r ?a (body_rows keccak256 c (k + 1) ?left bs) @ head # rest)"
      using Cons.IH [of "k + 1" ?a ?left] Cons.prems \<open>bs = b' # bs'\<close> by simp
    moreover have "assign_value_rlc r ?a (body_rows keccak256 c (k + 1) ?left bs) =
        ?row' # assign_value_rlc r (?a * r + of_nat (unat b')) (body_rows keccak256 c (k + 2) (if ?left = 0 then get_push_size b' else ?left - 1) bs')"
      unfolding \<open>bs = b' # bs'\<close> by (simp add: bytecode_body_def Let_def)
    ultimately show ?thesis unfolding step by simp
  qed
qed simp

lemma code_rows_follow:
  fixes keccak_table :: "'f :: field list list"
  assumes can: "canonical (repr :: 'f \<Rightarrow> nat)" and len: "length bs < 2 ^ 64"
    and hash: "bs \<noteq> [] \<Longrightarrow> [1, code_rlc r bs, of_nat (length bs), fst (word_from_u256 (keccak256 bs)), snd (word_from_u256 (keccak256 bs))] \<in> set keccak_table"
    and rest: "successively (rows_follow keccak256 r keccak_table) (head # rest)" "bcr_tag head = 0"
  shows "successively (rows_follow keccak256 r keccak_table) (assigned_code keccak256 r bs @ head # rest)"
proof -
  have c: "codesize (from_bytes bs) = length bs" "bytecode_hash keccak256 (from_bytes bs) = keccak256 bs"
    by (simp_all add: codesize_def bytecode_hash_def code_bytes_def from_bytes_scan)
  show ?thesis
  proof (cases bs)
    case Nil
    then show ?thesis
      using rest c by (simp add: assigned_code_def rows_follow_def bytecode_head_def bytecode_field_tag_u64_def empty_code_hash_word_value_def)
  next
    case (Cons b bs')
    have "successively (rows_follow keccak256 r keccak_table) (assign_value_rlc r 0 (body_rows keccak256 (from_bytes bs) 0 0 bs) @ head # rest)"
      using byte_rows_follow [OF can _ _ _ refl _ rest, where c = "from_bytes bs" and k = 0 and bs = bs and a = 0 and left = 0] hash len c Cons
      by (simp add: code_rlc_def)
    then show ?thesis
      unfolding assigned_code_def Cons
      by (auto simp: Let_def rows_follow_def bytecode_head_def bytecode_body_def bytecode_field_tag_u64_def unwrap_or_def)
  qed
qed

definition keccak_table_of :: "keccak \<Rightarrow> 'f :: field \<Rightarrow> u8 list list \<Rightarrow> 'f list list" where
  "keccak_table_of keccak256 r codes = [0, 0, 0, 0, 0] # map (\<lambda>bs. [1, code_rlc r bs, of_nat (length bs), fst (word_from_u256 (keccak256 bs)),
     snd (word_from_u256 (keccak256 bs))]) codes"

lemma assigned_codes_follow:
  fixes keccak_table :: "'f :: field list list"
  assumes can: "canonical (repr :: 'f \<Rightarrow> nat)" and "\<forall>bs \<in> set codes. length bs < 2 ^ 64"
    and "set (keccak_table_of keccak256 r codes) \<subseteq> set keccak_table"
  shows "successively (rows_follow keccak256 r keccak_table)
     (concat (map (assigned_code keccak256 r) codes) @ replicate (Suc m) (bytecode_pad keccak256))"
  using assms(2,3)
proof (induction codes)
  case Nil
  show ?case
    by (induction m) (simp_all add: rows_follow_def bytecode_pad_def bytecode_field_tag_u64_def)
next
  case (Cons bs codes)
  have "\<exists>head rest. concat (map (assigned_code keccak256 r) codes) @ replicate (Suc m) (bytecode_pad keccak256) = head # rest \<and> bcr_tag head = (0 :: 'f)"
    by (cases codes) (auto simp: assigned_code_def bytecode_head_def bytecode_pad_def bytecode_field_tag_u64_def)
  then obtain head rest where r: "concat (map (assigned_code keccak256 r) codes) @ replicate (Suc m) (bytecode_pad keccak256) = head # rest"
    "bcr_tag head = (0 :: 'f)" by blast
  have "successively (rows_follow keccak256 r keccak_table) (head # rest)"
    using Cons by (simp add: r(1) [symmetric] keccak_table_of_def)
  then have "successively (rows_follow keccak256 r keccak_table) (assigned_code keccak256 r bs @ head # rest)"
    using Cons.prems by (intro code_rows_follow [OF can _ _ _ r(2)]) (simp_all add: keccak_table_of_def)
  then show ?case using r(1) by simp
qed

text \<open>The region that is assigned for a list of codes: the row numbers and the rows.\<close>

lemma assigned_region:
  fixes r :: "'f :: field" and codes :: "u8 list list" and keccak256 :: keccak
  assumes "minimum_rows < circuit_size" and n: "n = circuit_size - minimum_rows + 1" and fit: "(\<Sum>bs \<leftarrow> codes. length bs + 1) \<le> n"
  defines "witness \<equiv> concat (map (code_rows keccak256) codes)"
    and "all \<equiv> concat (map (assigned_code keccak256 r) codes) @ replicate (Suc (n - length (concat (map (code_rows keccak256) codes :: 'f BytecodeCircuitRow list list)))) (bytecode_pad keccak256)"
  shows "bytecode_assign_internal keccak256 minimum_rows circuit_size witness r =
      (Inr (\<lambda>i. if i \<le> n then set_row i n (all ! i) else bytecode_zero_cells) :: (_, 'e) result)"
    and "length all = n + 1" and "length witness \<le> n" and "all ! n = bytecode_pad keccak256"
proof -
  have "length (code_rows keccak256 bs :: 'f BytecodeCircuitRow list) = length bs + 1" for bs by (simp add: code_rows_def)
  then have len: "length witness = (\<Sum>bs \<leftarrow> codes. length bs + 1)" by (simp add: witness_def length_concat comp_def)
  then show w: "length witness \<le> n" using fit by simp
  have rlc: "length (assign_value_rlc r a xs) = length xs" for a xs by (induction xs arbitrary: a) (simp_all add: Let_def)
  have "length (concat (map (assigned_code keccak256 r) codes)) = length witness"
    unfolding len by (simp add: length_concat comp_def assigned_code_def rlc)
  then show all: "length all = n + 1" using w by (simp add: all_def witness_def)
  have rows: "take n (witness @ replicate n (bytecode_pad keccak256)) = witness @ replicate (n - length witness) (bytecode_pad keccak256)"
    using w by (simp add: take_replicate)
  have split: "all = assign_value_rlc r 0 (take n (witness @ replicate n (bytecode_pad keccak256))) @ [bytecode_pad keccak256]"
    unfolding rows using assign_value_rlc_codes [of r 0 keccak256 codes "n - length witness"]
    by (simp add: all_def witness_def replicate_append_same)
  have lenr: "length (assign_value_rlc r 0 (take n (witness @ replicate n (bytecode_pad keccak256)))) = n" by (simp add: rlc)
  then show "all ! n = bytecode_pad keccak256" unfolding split by (simp add: nth_append)
  let ?cells = "map (\<lambda>(offset, row). set_row offset n row) (enumerate 0 (assign_value_rlc r 0 (take n (witness @ replicate n (bytecode_pad keccak256))))) @
    [set_row n n (bytecode_pad keccak256)]"
  have "?cells = map (\<lambda>i. set_row i n (all ! i)) [0..<n + 1]"
    unfolding split using lenr by (auto intro!: nth_equalityI simp: nth_append nth_enumerate_eq rlc)
  then show "bytecode_assign_internal keccak256 minimum_rows circuit_size witness r =
      (Inr (\<lambda>i. if i \<le> n then set_row i n (all ! i) else bytecode_zero_cells) :: (_, 'e) result)"
    using assms(1) unfolding bytecode_assign_internal_def n [symmetric] Let_def by (auto simp: less_Suc_eq_le fun_eq_iff simp del: upt_Suc)
qed

lemma assigned_region_ok:
  fixes r :: "'f :: field" and codes :: "u8 list list" and keccak256 :: keccak
  assumes can: "canonical (repr :: 'f \<Rightarrow> nat)" and small: "\<forall>bs \<in> set codes. length bs < 2 ^ 64"
    and table: "set (keccak_table_of keccak256 r codes) \<subseteq> set keccak_table"
    and "minimum_rows < circuit_size" and n: "n = circuit_size - minimum_rows + 1" and fit: "(\<Sum>bs \<leftarrow> codes. length bs + 1) \<le> n"
    and rows: "bytecode_assign_internal keccak256 minimum_rows circuit_size (concat (map (code_rows keccak256) codes)) r = (Inr rows :: (_, 'e) result)"
  shows "bytecode_region rows n" and "bytecode_row_ok keccak256 r keccak_table rows i"
proof -
  note region = assigned_region(1) [OF assms(4) n fit, of keccak256 r, where ?'e = 'e] assigned_region(2) [OF assms(4) n fit, of keccak256 r]
    assigned_region(3) [OF assms(4) n fit, of keccak256, where ?'f = 'f] assigned_region(4) [OF assms(4) n fit, of keccak256 r]
  let ?all = "concat (map (assigned_code keccak256 r) codes) @ replicate (Suc (n - length (concat (map (code_rows keccak256) codes :: 'f BytecodeCircuitRow list list)))) (bytecode_pad keccak256)"
  have eq: "rows i = (if i \<le> n then set_row i n (?all ! i) else bytecode_zero_cells)" for i
    using region(1) rows by simp
  show "bytecode_region rows n" by (simp add: bytecode_region_def eq set_row_def)
  have zero: "[0, 0, 0, 0, 0] \<in> set keccak_table" using table by (simp add: keccak_table_of_def)
  have head: "bcr_tag (?all ! 0) = 0"
    by (cases codes) (simp_all add: assigned_code_def bytecode_head_def bytecode_pad_def bytecode_field_tag_u64_def)
  consider "i < n" | "i = n" | "n < i" by linarith
  then show "bytecode_row_ok keccak256 r keccak_table rows i"
  proof cases
    case 1
    have "rows_follow keccak256 r keccak_table (?all ! i) (?all ! (i + 1))"
      using 1 region(2) by (intro successively_ok [OF assigned_codes_follow [OF can small table]]) simp
    then show ?thesis using 1 head zero by (intro rows_follow_ok [of _ _ _ "?all ! i" "?all ! (i + 1)"]) (simp_all add: eq)
  next
    case 2
    then have "rows i = set_row n n (bytecode_pad keccak256)" using eq [of n] region(4) by simp
    then show ?thesis
      using zero zero_in_push_table 2
      by (simp add: bytecode_row_ok_def bytecode_gates_def Let_def set_row_def bytecode_pad_def bytecode_field_tag_u64_def index_length_diff_def
          is_header_def is_byte_def empty_hash_word_eq push_lookup_def keccak_lookup_def not_expr_def or_expr_def bytecode_diff_def unwrap_or_def)
  next
    case 3
    then have "rows i = bytecode_zero_cells" by (simp add: eq)
    then show ?thesis
      using zero zero_in_push_table
      by (simp add: bytecode_row_ok_def bytecode_gates_def Let_def bytecode_zero_cells_def is_zero_gate_def push_lookup_def keccak_lookup_def)
  qed
qed

lemma body_columns:
  "map (\<lambda>row. [fst (bcr_code_hash row), snd (bcr_code_hash row), bcr_tag row, bcr_index row, bcr_is_code row, bcr_value row])
     (assign_value_rlc r a (body_rows keccak256 c k left bs)) =
   map (\<lambda>(index, byte, is_code). [fst (word_from_u256 (bytecode_hash keccak256 c)), snd (word_from_u256 (bytecode_hash keccak256 c)),
       of_nat (bytecode_field_tag_u64 BFT_Byte), of_nat index, of_bool is_code, of_nat (unat byte)]) (enumerate k (code_flags (unat left) bs))"
proof (induction bs arbitrary: k a left)
  case (Cons b bs)
  then show ?case by (simp add: Let_def next_left unat_eq_zero) (simp add: bytecode_body_def unat_eq_zero)
qed simp

lemma assigned_columns:
  "map (\<lambda>row. [fst (bcr_code_hash row), snd (bcr_code_hash row), bcr_tag row, bcr_index row, bcr_is_code row, bcr_value row])
     (assigned_code keccak256 r bs) = bytecode_table_rows keccak256 (from_bytes bs)"
  using body_columns [of r 0 keccak256 "from_bytes bs" 0 0 bs]
  by (simp add: assigned_code_def bytecode_table_rows_def code_vec_from_bytes bytecode_head_def split_def Let_def)

text \<open>A code that pushes one byte and an empty code, in a circuit of eight rows; the hash function is constant.\<close>

definition example_codes :: "u8 list list" where "example_codes = [[0x60, 1], []]"

lemma example_codes_region:
  obtains rows :: "nat \<Rightarrow> rat BytecodeCells" where
    "bytecode_assign_internal (\<lambda>_. 5) 3 8 (concat (map (code_rows (\<lambda>_. 5)) example_codes)) 2 = (Inr rows :: (_, unit) result)"
    and "bytecode_region rows 6" and "\<forall>i. bytecode_row_ok (\<lambda>_. 5) 2 (keccak_table_of (\<lambda>_. 5) 2 example_codes) rows i"
proof -
  have fit: "(\<Sum>bs \<leftarrow> example_codes. length bs + 1) \<le> 6" "\<forall>bs \<in> set example_codes. length bs < 2 ^ 64"
    by (simp_all add: example_codes_def)
  have n: "(3 :: nat) < 8" "6 = 8 - 3 + (1 :: nat)" by simp_all
  note rows = assigned_region(1) [OF n fit(1), of "\<lambda>_. 5" "2 :: rat", where ?'e = unit]
  show ?thesis by (rule that [OF rows]) (use assigned_region_ok [OF canonical_rat fit(2) subset_refl n fit(1) rows] in auto)
qed

section \<open>Properties\<close>

text \<open>
  C9: soundness of the bytecode circuit. If rows \<open>0 .. n\<close> pass the gates and the lookups, the rows before the last are the codes of a list, one
  after the other: a header with the hash and the length of the code, then a row for each byte with its position, its value and the
  flag that \<open>Bytecode::from\<close> computes for it. A code that is not empty has a row of the keccak table that relates the linear
  combination of its bytes, its length and its hash; an empty code has the hash of the empty code.
\<close>

theorem bytecode_circuit_sound:
  fixes rows :: "nat \<Rightarrow> 'f :: field BytecodeCells"
  assumes "canonical (repr :: 'f \<Rightarrow> nat)" and "bytecode_region rows n" and "\<forall>i \<le> n. satisfied (bytecode_gates keccak256 r rows i)"
    and "\<forall>i \<le> n. push_lookup rows i \<in> set push_table \<and> keccak_lookup rows i \<in> set keccak_table"
  shows "\<exists>codes. map (\<lambda>i. bytecode_columns (rows i)) [0..<n] = concat (map code_columns codes) \<and>
     list_all (code_hashed keccak256 r keccak_table) codes \<and> bc_tag (rows n) = 0 \<and> bc_code_hash (rows n) = empty_hash_word keccak256"
proof -
  have table: "bytecode_table_ok keccak256 r keccak_table rows n"
    using assms(2-4) by (simp add: bytecode_table_ok_def bytecode_row_ok_def)
  have "bc_tag (rows 0) = 0"
    using bytecode_gate_facts(1) [of keccak256 r rows 0 n] bytecode_table_gates(1,3,4) [OF table] by (cases "n = 0") simp_all
  then show ?thesis
    using bytecode_codes [OF assms(1) table, of 0] bytecode_last_row [OF bytecode_table_gates(3,1) [OF table]] by auto
qed

theorem bytecode_circuit_sound_witness:
  "\<exists>(rows :: nat \<Rightarrow> rat BytecodeCells) codes. bytecode_assign_internal (\<lambda>_. 5) 3 8 (concat (map (code_rows (\<lambda>_. 5)) example_codes)) 2 =
       (Inr rows :: (_, unit) result) \<and> map (\<lambda>i. bytecode_columns (rows i)) [0..<6] = concat (map code_columns codes)"
proof -
  obtain rows :: "nat \<Rightarrow> rat BytecodeCells" where rows:
    "bytecode_assign_internal (\<lambda>_. 5) 3 8 (concat (map (code_rows (\<lambda>_. 5)) example_codes)) 2 = (Inr rows :: (_, unit) result)"
    "bytecode_region rows 6" "\<forall>i. bytecode_row_ok (\<lambda>_. 5) 2 (keccak_table_of (\<lambda>_. 5) 2 example_codes) rows i"
    by (rule example_codes_region)
  then show ?thesis
    using bytecode_circuit_sound [OF canonical_rat rows(2), of "\<lambda>_. 5" 2 "keccak_table_of (\<lambda>_. 5) 2 example_codes"]
    by (auto simp: bytecode_row_ok_def)
qed

text \<open>
  C10: completeness of the bytecode circuit. For codes shorter than 2 to the 64 that fit into the rows of the circuit, the witness is built
  without a panic, and the region assigned from it passes all gates and lookups on every row, if the keccak table has the rows of the codes
  and a row of zeros. The columns of the lookup table are those that \<open>BytecodeTable::load\<close> writes, without its row of zeros.
\<close>

theorem bytecode_circuit_complete:
  fixes r :: "'f :: field" and keccak256 :: keccak
  assumes "canonical (repr :: 'f \<Rightarrow> nat)" and "\<forall>bs \<in> set codes. length bs < 2 ^ 64"
    and "set (keccak_table_of keccak256 r codes) \<subseteq> set keccak_table" and "minimum_rows < circuit_size"
    and "(\<Sum>bs \<leftarrow> codes. length bs + 1) \<le> circuit_size - minimum_rows + 1"
  shows "\<exists>witness rows. assignment_from_bytes keccak256 codes = (Inr witness :: ('f BytecodeCircuitRow list, 'e) result) \<and>
     bytecode_assign_internal keccak256 minimum_rows circuit_size witness r = (Inr rows :: (_, 'e) result) \<and>
     bytecode_region rows (circuit_size - minimum_rows + 1) \<and>
     (\<forall>i. satisfied (bytecode_gates keccak256 r rows i) \<and> push_lookup rows i \<in> set push_table \<and> keccak_lookup rows i \<in> set keccak_table) \<and>
     map (\<lambda>i. [fst (bc_code_hash (rows i)), snd (bc_code_hash (rows i)), bc_tag (rows i), bc_index (rows i), bc_is_code (rows i), bc_value (rows i)])
       [0..<length witness] = concat (map (\<lambda>bs. bytecode_table_rows keccak256 (from_bytes bs)) codes)"
proof -
  let ?n = "circuit_size - minimum_rows + 1" and ?witness = "concat (map (code_rows keccak256) codes) :: 'f BytecodeCircuitRow list"
  note region = assigned_region(1) [OF assms(4) refl assms(5), of keccak256 r, where ?'e = 'e] assigned_region(2) [OF assms(4) refl assms(5), of keccak256 r]
    assigned_region(3) [OF assms(4) refl assms(5), of keccak256, where ?'f = 'f] assigned_region(4) [OF assms(4) refl assms(5), of keccak256 r]
  let ?all = "concat (map (assigned_code keccak256 r) codes) @ replicate (Suc (?n - length ?witness)) (bytecode_pad keccak256)"
  let ?rows = "\<lambda>i. if i \<le> ?n then set_row i ?n (?all ! i) else bytecode_zero_cells"
  let ?cols = "\<lambda>row. [fst (bcr_code_hash row), snd (bcr_code_hash row), bcr_tag row, bcr_index row, bcr_is_code row, bcr_value row]"
  note ok = assigned_region_ok [OF assms(1-4) refl assms(5) region(1)]
  have len: "length (concat (map (assigned_code keccak256 r) codes)) = length ?witness"
    using region(2,3) by simp
  have "map (\<lambda>i. [fst (bc_code_hash (?rows i)), snd (bc_code_hash (?rows i)), bc_tag (?rows i), bc_index (?rows i), bc_is_code (?rows i), bc_value (?rows i)])
      [0..<length ?witness] = map (\<lambda>i. ?cols (?all ! i)) [0..<length ?witness]"
    using region(3) by (intro map_cong) (auto simp: set_row_def)
  also have "\<dots> = map ?cols (concat (map (assigned_code keccak256 r) codes))"
    using len by (intro nth_equalityI) (simp_all add: nth_append)
  also have "\<dots> = concat (map (\<lambda>bs. bytecode_table_rows keccak256 (from_bytes bs)) codes)"
    by (simp add: map_concat comp_def assigned_columns)
  finally have cols: "map (\<lambda>i. [fst (bc_code_hash (?rows i)), snd (bc_code_hash (?rows i)), bc_tag (?rows i), bc_index (?rows i), bc_is_code (?rows i), bc_value (?rows i)])
      [0..<length ?witness] = concat (map (\<lambda>bs. bytecode_table_rows keccak256 (from_bytes bs)) codes)" .
  show ?thesis
    by (intro exI [of _ ?witness] exI [of _ ?rows]) (use assignment_from_bytes_eq region(1) ok cols in \<open>simp add: bytecode_row_ok_def\<close>)
qed

theorem bytecode_circuit_complete_witness:
  "\<exists>witness rows. assignment_from_bytes (\<lambda>_. 5) example_codes = (Inr witness :: (rat BytecodeCircuitRow list, unit) result) \<and>
     bytecode_assign_internal (\<lambda>_. 5) 3 8 witness 2 = (Inr rows :: (_, unit) result) \<and>
     (\<forall>i. satisfied (bytecode_gates (\<lambda>_. 5) 2 rows i))"
proof -
  have fit: "(\<Sum>bs \<leftarrow> example_codes. length bs + 1) \<le> 8 - 3 + 1" "\<forall>bs \<in> set example_codes. length bs < 2 ^ 64"
    by (simp_all add: example_codes_def)
  show ?thesis
    using bytecode_circuit_complete [OF canonical_rat fit(2) subset_refl _ fit(1), of "\<lambda>_. 5" 2, where ?'e = unit] by auto
qed

end
