(* ===== verification/Evm_Step.thy ===== *)
theory Evm_Step
  imports Bytecode_Circuit Exec_Types
begin

text \<open>
  The steps of the EVM circuit, \<^verbatim>\<open>zkevm-circuits/src/evm_circuit/step.rs\<close>: the execution states, the opcodes each of
  them is responsible for, the state of a step of the execution, the selector that encodes the execution state in half as many
  cells as there are states, and the cells of a step.

  The 82 variants of \<open>ExecutionState\<close> are grouped as in the source: internal states, states of opcodes that succeed,
  and error states.
\<close>

section \<open>Execution states\<close>

datatype InternalState = In_BeginTx | In_EndTx | In_EndBlock

datatype OpcodeState =
    St_STOP | St_ADD_SUB | St_MUL_DIV_MOD | St_SDIV_SMOD | St_SHL_SHR | St_ADDMOD | St_MULMOD | St_EXP | St_SIGNEXTEND | St_CMP | St_SCMP |
    St_ISZERO | St_BITWISE | St_NOT | St_BYTE | St_SAR | St_SHA3 | St_ADDRESS | St_BALANCE | St_ORIGIN | St_CALLER | St_CALLVALUE |
    St_CALLDATALOAD | St_CALLDATASIZE | St_CALLDATACOPY | St_CODESIZE | St_CODECOPY | St_GASPRICE | St_EXTCODESIZE | St_EXTCODECOPY |
    St_RETURNDATASIZE | St_RETURNDATACOPY | St_EXTCODEHASH | St_BLOCKHASH | St_BLOCKCTX | St_CHAINID | St_SELFBALANCE | St_POP | St_MEMORY |
    St_SLOAD | St_SSTORE | St_JUMP | St_JUMPI | St_PC | St_MSIZE | St_GAS | St_JUMPDEST | St_PUSH | St_DUP | St_SWAP | St_LOG | St_CREATE |
    St_CALL_OP | St_RETURN_REVERT | St_CREATE2 | St_SELFDESTRUCT

datatype ErrorState =
    Er_InvalidOpcode | Er_Stack | Er_WriteProtection | Er_Depth | Er_InsufficientBalance | Er_ContractAddressCollision | Er_InvalidCreationCode |
    Er_CodeStore | Er_InvalidJump | Er_ReturnDataOutOfBound | Er_OutOfGasConstant | Er_OutOfGasStaticMemoryExpansion |
    Er_OutOfGasDynamicMemoryExpansion | Er_OutOfGasMemoryCopy | Er_OutOfGasAccountAccess | Er_OutOfGasLOG | Er_OutOfGasEXP | Er_OutOfGasSHA3 |
    Er_OutOfGasEXTCODECOPY | Er_OutOfGasCall | Er_OutOfGasSloadSstore | Er_OutOfGasCREATE | Er_OutOfGasSELFDESTRUCT

datatype ExecutionState = Internal InternalState | Opcode_State OpcodeState | Error_State ErrorState

text \<open>\<open>ExecutionState::iter\<close>, in the order of the enumeration; the number of a state is its position.\<close>

definition execution_states :: "ExecutionState list" where
  "execution_states =
     map Internal [In_BeginTx, In_EndTx, In_EndBlock] @
     map Opcode_State
       [St_STOP, St_ADD_SUB, St_MUL_DIV_MOD, St_SDIV_SMOD, St_SHL_SHR, St_ADDMOD, St_MULMOD, St_EXP, St_SIGNEXTEND, St_CMP, St_SCMP, St_ISZERO,
        St_BITWISE, St_NOT, St_BYTE, St_SAR, St_SHA3, St_ADDRESS, St_BALANCE, St_ORIGIN, St_CALLER, St_CALLVALUE, St_CALLDATALOAD, St_CALLDATASIZE,
        St_CALLDATACOPY, St_CODESIZE, St_CODECOPY, St_GASPRICE, St_EXTCODESIZE, St_EXTCODECOPY, St_RETURNDATASIZE, St_RETURNDATACOPY, St_EXTCODEHASH,
        St_BLOCKHASH, St_BLOCKCTX, St_CHAINID, St_SELFBALANCE, St_POP, St_MEMORY, St_SLOAD, St_SSTORE, St_JUMP, St_JUMPI, St_PC, St_MSIZE, St_GAS,
        St_JUMPDEST, St_PUSH, St_DUP, St_SWAP, St_LOG, St_CREATE, St_CALL_OP, St_RETURN_REVERT, St_CREATE2, St_SELFDESTRUCT] @
     map Error_State
       [Er_InvalidOpcode, Er_Stack, Er_WriteProtection, Er_Depth, Er_InsufficientBalance, Er_ContractAddressCollision, Er_InvalidCreationCode,
        Er_CodeStore, Er_InvalidJump, Er_ReturnDataOutOfBound, Er_OutOfGasConstant, Er_OutOfGasStaticMemoryExpansion,
        Er_OutOfGasDynamicMemoryExpansion, Er_OutOfGasMemoryCopy, Er_OutOfGasAccountAccess, Er_OutOfGasLOG, Er_OutOfGasEXP, Er_OutOfGasSHA3,
        Er_OutOfGasEXTCODECOPY, Er_OutOfGasCall, Er_OutOfGasSloadSstore, Er_OutOfGasCREATE, Er_OutOfGasSELFDESTRUCT]"

definition execution_state_u64 :: "ExecutionState \<Rightarrow> nat" where
  "execution_state_u64 s = length (takeWhile (\<lambda>t. t \<noteq> s) execution_states)"

definition halts_in_exception :: "ExecutionState \<Rightarrow> bool" where
  "halts_in_exception s = (case s of Error_State e \<Rightarrow> e \<notin> {Er_Depth, Er_InsufficientBalance, Er_ContractAddressCollision} | _ \<Rightarrow> False)"

definition halts :: "ExecutionState \<Rightarrow> bool" where
  "halts s \<longleftrightarrow> s \<in> {Opcode_State St_STOP, Opcode_State St_RETURN_REVERT, Opcode_State St_SELFDESTRUCT} \<or> halts_in_exception s"

text \<open>The opcodes of a state, for \<open>ErrorStack\<close> with each stack pointer at which they fail.\<close>

datatype ResponsibleOp = RO_Op OpcodeId | RO_InvalidStackPtr OpcodeId nat

definition op_state_opcodes :: "OpcodeState \<Rightarrow> OpcodeId list" where
  "op_state_opcodes s = (case s of
        St_STOP \<Rightarrow> [Arith STOP]
      | St_ADD_SUB \<Rightarrow> map Arith [ADD, SUB]
      | St_MUL_DIV_MOD \<Rightarrow> map Arith [MUL, DIV, MOD]
      | St_SDIV_SMOD \<Rightarrow> map Arith [SDIV, SMOD]
      | St_SHL_SHR \<Rightarrow> map Arith [SHL, SHR]
      | St_ADDMOD \<Rightarrow> [Arith ADDMOD]
      | St_MULMOD \<Rightarrow> [Arith MULMOD]
      | St_EXP \<Rightarrow> [Arith EXP]
      | St_SIGNEXTEND \<Rightarrow> [Arith SIGNEXTEND]
      | St_CMP \<Rightarrow> map Arith [LT, GT, EQ]
      | St_SCMP \<Rightarrow> map Arith [SLT, SGT]
      | St_ISZERO \<Rightarrow> [Arith ISZERO]
      | St_BITWISE \<Rightarrow> map Arith [AND, OR, XOR]
      | St_NOT \<Rightarrow> [Arith NOT]
      | St_BYTE \<Rightarrow> [Arith BYTE]
      | St_SAR \<Rightarrow> [Arith SAR]
      | St_SHA3 \<Rightarrow> [Ext SHA3]
      | St_ADDRESS \<Rightarrow> [Ext ADDRESS]
      | St_BALANCE \<Rightarrow> [Ext BALANCE]
      | St_ORIGIN \<Rightarrow> [Ext ORIGIN]
      | St_CALLER \<Rightarrow> [Ext CALLER]
      | St_CALLVALUE \<Rightarrow> [Ext CALLVALUE]
      | St_CALLDATALOAD \<Rightarrow> [Flow CALLDATALOAD]
      | St_CALLDATASIZE \<Rightarrow> [Flow CALLDATASIZE]
      | St_CALLDATACOPY \<Rightarrow> [Flow CALLDATACOPY]
      | St_CODESIZE \<Rightarrow> [Flow CODESIZE]
      | St_CODECOPY \<Rightarrow> [Flow CODECOPY]
      | St_GASPRICE \<Rightarrow> [Ext GASPRICE]
      | St_EXTCODESIZE \<Rightarrow> [Ext EXTCODESIZE]
      | St_EXTCODECOPY \<Rightarrow> [Ext EXTCODECOPY]
      | St_RETURNDATASIZE \<Rightarrow> [Ext RETURNDATASIZE]
      | St_RETURNDATACOPY \<Rightarrow> [Ext RETURNDATACOPY]
      | St_EXTCODEHASH \<Rightarrow> [Ext EXTCODEHASH]
      | St_BLOCKHASH \<Rightarrow> [Ext BLOCKHASH]
      | St_BLOCKCTX \<Rightarrow> map Ext [TIMESTAMP, NUMBER, GASLIMIT, COINBASE, DIFFICULTY, BASEFEE]
      | St_CHAINID \<Rightarrow> [Ext CHAINID]
      | St_SELFBALANCE \<Rightarrow> [Ext SELFBALANCE]
      | St_POP \<Rightarrow> [Flow POP]
      | St_MEMORY \<Rightarrow> map Flow [MLOAD, MSTORE, MSTORE8]
      | St_SLOAD \<Rightarrow> [Ext SLOAD]
      | St_SSTORE \<Rightarrow> [Ext SSTORE]
      | St_JUMP \<Rightarrow> [Flow JUMP]
      | St_JUMPI \<Rightarrow> [Flow JUMPI]
      | St_PC \<Rightarrow> [Flow PC]
      | St_MSIZE \<Rightarrow> [Flow MSIZE]
      | St_GAS \<Rightarrow> [Ext GAS]
      | St_JUMPDEST \<Rightarrow> [Flow JUMPDEST]
      | St_PUSH \<Rightarrow> map Push [PUSH0, PUSH1, PUSH2, PUSH3, PUSH4, PUSH5, PUSH6, PUSH7, PUSH8, PUSH9, PUSH10, PUSH11, PUSH12, PUSH13,
             PUSH14, PUSH15, PUSH16, PUSH17, PUSH18, PUSH19, PUSH20, PUSH21, PUSH22, PUSH23, PUSH24, PUSH25,
             PUSH26, PUSH27, PUSH28, PUSH29, PUSH30, PUSH31, PUSH32]
      | St_DUP \<Rightarrow> map Dup [DUP1, DUP2, DUP3, DUP4, DUP5, DUP6, DUP7, DUP8, DUP9, DUP10, DUP11, DUP12, DUP13, DUP14, DUP15,
             DUP16]
      | St_SWAP \<Rightarrow> map Swap [SWAP1, SWAP2, SWAP3, SWAP4, SWAP5, SWAP6, SWAP7, SWAP8, SWAP9, SWAP10, SWAP11, SWAP12, SWAP13,
             SWAP14, SWAP15, SWAP16]
      | St_LOG \<Rightarrow> map Log [LOG0, LOG1, LOG2, LOG3, LOG4]
      | St_CREATE \<Rightarrow> [Sys CREATE]
      | St_CALL_OP \<Rightarrow> map Sys [CALL, CALLCODE, DELEGATECALL, STATICCALL]
      | St_RETURN_REVERT \<Rightarrow> map Sys [RETURN, REVERT]
      | St_CREATE2 \<Rightarrow> [Sys CREATE2]
      | St_SELFDESTRUCT \<Rightarrow> [Sys SELFDESTRUCT])"

definition responsible_opcodes :: "ExecutionState \<Rightarrow> ResponsibleOp list" where
  "responsible_opcodes s = (case s of
       Error_State Er_Stack \<Rightarrow> concat (map (\<lambda>op. map (RO_InvalidStackPtr op) (invalid_stack_ptrs op)) valid_opcodes)
     | Opcode_State os \<Rightarrow> map RO_Op (op_state_opcodes os)
     | Error_State Er_InvalidOpcode \<Rightarrow> map RO_Op invalid_opcodes
     | _ \<Rightarrow> [])"

definition responsible_opcode :: "ResponsibleOp \<Rightarrow> OpcodeId" where
  "responsible_opcode r = (case r of RO_Op op \<Rightarrow> op | RO_InvalidStackPtr op _ \<Rightarrow> op)"

text \<open>The state of an error and of an execution step; \<open>warn\<close> is the feature \<open>warn-unimplemented\<close>.\<close>

definition error_state_of :: "ExecError \<Rightarrow> ExecutionState" where
  "error_state_of err = (case err of
       InvalidOpcode \<Rightarrow> Error_State Er_InvalidOpcode
     | StackOverflow \<Rightarrow> Error_State Er_Stack
     | StackUnderflow \<Rightarrow> Error_State Er_Stack
     | WriteProtection \<Rightarrow> Error_State Er_WriteProtection
     | Depth d \<Rightarrow> Opcode_State (case d of DE_Call \<Rightarrow> St_CALL_OP | DE_Create \<Rightarrow> St_CREATE | DE_Create2 \<Rightarrow> St_CREATE2)
     | InsufficientBalance b \<Rightarrow> Opcode_State (case b of IB_Call \<Rightarrow> St_CALL_OP | IB_Create \<Rightarrow> St_CREATE | IB_Create2 \<Rightarrow> St_CREATE2)
     | NonceUintOverflow n \<Rightarrow> Opcode_State (case n of NO_Create \<Rightarrow> St_CREATE | NO_Create2 \<Rightarrow> St_CREATE2)
     | ContractAddressCollision \<Rightarrow> Opcode_State St_CREATE2
     | InvalidCreationCode \<Rightarrow> Error_State Er_InvalidCreationCode
     | InvalidJump \<Rightarrow> Error_State Er_InvalidJump
     | ReturnDataOutOfBounds \<Rightarrow> Error_State Er_ReturnDataOutOfBound
     | CodeStoreOutOfGas \<Rightarrow> Error_State Er_CodeStore
     | MaxCodeSizeExceeded \<Rightarrow> Error_State Er_CodeStore
     | OutOfGas g \<Rightarrow> Error_State (case g of
           Oog_Constant \<Rightarrow> Er_OutOfGasConstant
         | Oog_StaticMemoryExpansion \<Rightarrow> Er_OutOfGasStaticMemoryExpansion
         | Oog_DynamicMemoryExpansion \<Rightarrow> Er_OutOfGasDynamicMemoryExpansion
         | Oog_MemoryCopy \<Rightarrow> Er_OutOfGasMemoryCopy
         | Oog_AccountAccess \<Rightarrow> Er_OutOfGasAccountAccess
         | Oog_CodeStore \<Rightarrow> Er_CodeStore
         | Oog_Log \<Rightarrow> Er_OutOfGasLOG
         | Oog_Exp \<Rightarrow> Er_OutOfGasEXP
         | Oog_Sha3 \<Rightarrow> Er_OutOfGasSHA3
         | Oog_Call \<Rightarrow> Er_OutOfGasCall
         | Oog_SloadSstore \<Rightarrow> Er_OutOfGasSloadSstore
         | Oog_Create \<Rightarrow> Er_OutOfGasCREATE
         | Oog_SelfDestruct \<Rightarrow> Er_OutOfGasSELFDESTRUCT))"

definition opcode_state_of :: "bool \<Rightarrow> OpcodeId \<Rightarrow> (OpcodeState, 'e) result" where
  "opcode_state_of warn op =
     (if is_dup op then Inr St_DUP
      else if is_push op then Inr St_PUSH
      else if is_swap op then Inr St_SWAP
      else if is_log op then Inr St_LOG
      else case op of
        Arith o' \<Rightarrow> Inr (case o' of
          STOP \<Rightarrow> St_STOP | ADD \<Rightarrow> St_ADD_SUB | MUL \<Rightarrow> St_MUL_DIV_MOD | SUB \<Rightarrow> St_ADD_SUB |
          DIV \<Rightarrow> St_MUL_DIV_MOD | SDIV \<Rightarrow> St_SDIV_SMOD | MOD \<Rightarrow> St_MUL_DIV_MOD | SMOD \<Rightarrow> St_SDIV_SMOD |
          ADDMOD \<Rightarrow> St_ADDMOD | MULMOD \<Rightarrow> St_MULMOD | EXP \<Rightarrow> St_EXP | SIGNEXTEND \<Rightarrow> St_SIGNEXTEND |
          LT \<Rightarrow> St_CMP | GT \<Rightarrow> St_CMP | SLT \<Rightarrow> St_SCMP | SGT \<Rightarrow> St_SCMP | EQ \<Rightarrow> St_CMP |
          ISZERO \<Rightarrow> St_ISZERO | AND \<Rightarrow> St_BITWISE | OR \<Rightarrow> St_BITWISE | XOR \<Rightarrow> St_BITWISE |
          NOT \<Rightarrow> St_NOT | BYTE \<Rightarrow> St_BYTE | SHL \<Rightarrow> St_SHL_SHR | SHR \<Rightarrow> St_SHL_SHR |
          SAR \<Rightarrow> St_SAR)
      | Flow o' \<Rightarrow> Inr (case o' of
          CALLDATALOAD \<Rightarrow> St_CALLDATALOAD | CALLDATASIZE \<Rightarrow> St_CALLDATASIZE | CALLDATACOPY \<Rightarrow> St_CALLDATACOPY |
          CODESIZE \<Rightarrow> St_CODESIZE | CODECOPY \<Rightarrow> St_CODECOPY | POP \<Rightarrow> St_POP | MLOAD \<Rightarrow> St_MEMORY |
          MSTORE \<Rightarrow> St_MEMORY | MSTORE8 \<Rightarrow> St_MEMORY | JUMP \<Rightarrow> St_JUMP | JUMPI \<Rightarrow> St_JUMPI |
          PC \<Rightarrow> St_PC | MSIZE \<Rightarrow> St_MSIZE | JUMPDEST \<Rightarrow> St_JUMPDEST)
      | Sys o' \<Rightarrow> (case o' of
          SELFDESTRUCT \<Rightarrow>
            (if warn then Inr St_SELFDESTRUCT else Inl (Panic ''evm_unimplemented: SELFDESTRUCT is implemented with DummyGadget'')) |
          RETURN \<Rightarrow> Inr St_RETURN_REVERT | REVERT \<Rightarrow> Inr St_RETURN_REVERT | CREATE \<Rightarrow> Inr St_CREATE |
          CREATE2 \<Rightarrow> Inr St_CREATE2 | CALL \<Rightarrow> Inr St_CALL_OP | CALLCODE \<Rightarrow> Inr St_CALL_OP | DELEGATECALL \<Rightarrow> Inr St_CALL_OP |
          STATICCALL \<Rightarrow> Inr St_CALL_OP)
      | Ext o' \<Rightarrow> Inr (case o' of
          SHA3 \<Rightarrow> St_SHA3 | ADDRESS \<Rightarrow> St_ADDRESS | BALANCE \<Rightarrow> St_BALANCE | ORIGIN \<Rightarrow> St_ORIGIN |
          CALLER \<Rightarrow> St_CALLER | CALLVALUE \<Rightarrow> St_CALLVALUE | GASPRICE \<Rightarrow> St_GASPRICE |
          EXTCODESIZE \<Rightarrow> St_EXTCODESIZE | EXTCODECOPY \<Rightarrow> St_EXTCODECOPY | EXTCODEHASH \<Rightarrow> St_EXTCODEHASH |
          RETURNDATASIZE \<Rightarrow> St_RETURNDATASIZE | RETURNDATACOPY \<Rightarrow> St_RETURNDATACOPY | BLOCKHASH \<Rightarrow> St_BLOCKHASH |
          COINBASE \<Rightarrow> St_BLOCKCTX | TIMESTAMP \<Rightarrow> St_BLOCKCTX | NUMBER \<Rightarrow> St_BLOCKCTX |
          DIFFICULTY \<Rightarrow> St_BLOCKCTX | GASLIMIT \<Rightarrow> St_BLOCKCTX | CHAINID \<Rightarrow> St_CHAINID |
          SELFBALANCE \<Rightarrow> St_SELFBALANCE | BASEFEE \<Rightarrow> St_BLOCKCTX | SLOAD \<Rightarrow> St_SLOAD | SSTORE \<Rightarrow> St_SSTORE |
          GAS \<Rightarrow> St_GAS)
      | _ \<Rightarrow> Inl (Panic ''not implemented: unimplemented opcode''))"

definition execution_state_of :: "bool \<Rightarrow> ExecStep \<Rightarrow> (ExecutionState, 'e) result" where
  "execution_state_of warn step = (case es_error step of
       Some err \<Rightarrow> Inr (error_state_of err)
     | None \<Rightarrow> (case es_exec_state step of
           ES_Op op \<Rightarrow> bindE (opcode_state_of warn op) (\<lambda>s. Inr (Opcode_State s))
         | ES_BeginTx \<Rightarrow> Inr (Internal In_BeginTx)
         | ES_EndTx \<Rightarrow> Inr (Internal In_EndTx)
         | ES_EndBlock \<Rightarrow> Inr (Internal In_EndBlock)))"

section \<open>The selector\<close>

text \<open>A pair of cells for two targets each, and one cell for the parity of the target.\<close>

record 'f DynamicSelectorHalf =
  target_odd :: 'f
  target_pairs :: "'f list"

definition selector_configure :: "nat \<Rightarrow> 'f :: field DynamicSelectorHalf \<Rightarrow> 'f list" where
  "selector_configure n s =
     [foldl (\<lambda>acc cell. acc - cell) 1 (target_pairs s)] @
     map (\<lambda>cell. cell * (1 - cell)) (target_odd s # target_pairs s) @
     (if n mod 2 = 1 then [target_odd s * target_pairs s ! (n div 2)] else [])"

definition selector_expr :: "'f :: field DynamicSelectorHalf \<Rightarrow> nat list \<Rightarrow> 'f" where
  "selector_expr s targets =
     sum_list (map (\<lambda>target. (if target mod 2 = 1 then target_odd s else 1 - target_odd s) * target_pairs s ! (target div 2)) targets)"

definition selector_assign :: "nat \<Rightarrow> nat \<Rightarrow> 'f :: field DynamicSelectorHalf" where
  "selector_assign n target =
     \<lparr>target_odd = of_bool (target mod 2 = 1), target_pairs = map (\<lambda>i. of_bool (i = target div 2)) [0..<(n + 1) div 2]\<rparr>"

section \<open>The cells of a step\<close>

record 'f StepState =
  ss_execution_state :: "'f DynamicSelectorHalf"
  ss_rw_counter :: 'f
  ss_call_id :: 'f
  ss_is_root :: 'f
  ss_is_create :: 'f
  ss_code_hash :: "'f \<times> 'f"
  ss_program_counter :: 'f
  ss_stack_pointer :: 'f
  ss_gas_left :: 'f
  ss_memory_word_size :: 'f
  ss_reversible_write_counter :: 'f
  ss_log_id :: 'f

definition execution_state_selector :: "'f :: field StepState \<Rightarrow> ExecutionState list \<Rightarrow> 'f" where
  "execution_state_selector step states = selector_expr (ss_execution_state step) (map execution_state_u64 states)"

definition assign_step :: "bool \<Rightarrow> Call \<Rightarrow> ExecStep \<Rightarrow> ('f :: field StepState, bm_error) result" where
  "assign_step warn call step =
     bindE (execution_state_of warn step) (\<lambda>s.
     bindE (es_stack_pointer step) (\<lambda>sp.
     bindE (es_memory_word_size step) (\<lambda>words.
     Inr \<lparr>ss_execution_state = selector_assign (length execution_states) (execution_state_u64 s),
        ss_rw_counter = of_nat (es_rwc step), ss_call_id = of_nat (call_id call), ss_is_root = of_bool (is_root call),
        ss_is_create = of_bool (is_create call), ss_code_hash = word_from_u256 (cl_code_hash call),
        ss_program_counter = of_nat (unat (es_pc step)), ss_stack_pointer = of_nat (unat sp), ss_gas_left = of_nat (unat (es_gas_left step)),
        ss_memory_word_size = of_nat (unat words), ss_reversible_write_counter = of_nat (es_reversible_write_counter step),
        ss_log_id = of_nat (es_log_id step)\<rparr>)))"

section \<open>Lemmas\<close>

lemma execution_states_nth:
  "\<exists>i < length execution_states. execution_states ! i = s"
proof -
  have "s \<in> set execution_states"
  proof (cases s)
    case (Internal i) then show ?thesis by (cases i) (simp_all add: execution_states_def)
  next
    case (Opcode_State i) then show ?thesis by (cases i) (simp_all add: execution_states_def)
  next
    case (Error_State i) then show ?thesis by (cases i) (simp_all add: execution_states_def)
  qed
  then show ?thesis by (simp add: in_set_conv_nth)
qed

lemma length_execution_states: "length execution_states = 82"
  by (simp add: execution_states_def)

lemma distinct_execution_states: "distinct execution_states"
  by (simp add: execution_states_def)

lemma length_takeWhile_neq: "s \<in> set xs \<Longrightarrow> length (takeWhile (\<lambda>t. t \<noteq> s) xs) < length xs"
  by (induction xs) auto

lemma execution_state_u64_nth:
  "execution_states ! execution_state_u64 s = s" "execution_state_u64 s < 82"
proof -
  have "s \<in> set execution_states" using execution_states_nth [of s] by auto
  then have len: "execution_state_u64 s < length execution_states"
    unfolding execution_state_u64_def by (rule length_takeWhile_neq)
  then show "execution_states ! execution_state_u64 s = s"
    using nth_length_takeWhile [of "\<lambda>t. t \<noteq> s" execution_states] by (simp add: execution_state_u64_def)
  show "execution_state_u64 s < 82" using len by (simp add: length_execution_states)
qed

lemma execution_state_u64_inject: "execution_state_u64 s = execution_state_u64 t \<longleftrightarrow> s = t"
  by (metis execution_state_u64_nth(1))

lemma selector_sum: "foldl (\<lambda>acc cell. acc - cell) a cells = a - sum_list (cells :: 'f :: field list)"
  by (induction cells arbitrary: a) (simp_all add: algebra_simps)

lemma sum_of_bools: "sum_list (map of_bool bs) = (of_nat (length (filter (\<lambda>b. b) bs)) :: 'f :: field)"
  by (induction bs) simp_all

lemma one_true:
  "length (filter (\<lambda>b. b) bs) = 1 \<Longrightarrow> \<exists>k < length bs. bs = map (\<lambda>i. i = k) [0..<length bs]"
proof (induction bs)
  case (Cons b bs)
  show ?case
  proof (cases b)
    case True
    then have "filter (\<lambda>b. b) bs = []" using Cons.prems by simp
    then have "\<forall>i < length bs. \<not> bs ! i" by (metis filter_empty_conv nth_mem)
    then have "b # bs = map (\<lambda>i. i = 0) [0..<length (b # bs)]"
      using True by (intro nth_equalityI) (auto simp: nth_Cons' simp del: upt_Suc)
    then show ?thesis by auto
  next
    case False
    then obtain k where k: "k < length bs" "bs = map (\<lambda>i. i = k) [0..<length bs]" using Cons by auto
    have "bs ! i = (i = k)" if "i < length bs" for i using that by (subst k(2)) simp
    then have "b # bs = map (\<lambda>i. i = Suc k) [0..<length (b # bs)]"
      using False by (intro nth_equalityI) (auto simp: nth_Cons' simp del: upt_Suc)
    with k(1) show ?thesis by auto
  qed
qed simp

lemma selector_sound:
  fixes s :: "'f :: field DynamicSelectorHalf"
  assumes can: "canonical (repr :: 'f \<Rightarrow> nat)" and len: "length (target_pairs s) = (n + 1) div 2" and n: "n < 2 ^ 253"
    and ok: "satisfied (selector_configure n s)"
  shows "\<exists>t < n. s = selector_assign n t"
proof -
  have bools: "\<forall>c \<in> set (target_odd s # target_pairs s). c = 0 \<or> c = 1"
    using ok by (auto simp: selector_configure_def satisfied_map)
  then obtain bs where bs: "target_pairs s = map of_bool bs" using of_bool_columns [of "target_pairs s"] by auto
  obtain p where odd: "target_odd s = of_bool p" using bools by (cases "target_odd s = 1") auto
  have "of_nat (length (filter (\<lambda>b. b) bs)) = (of_nat 1 :: 'f)"
    using ok by (simp add: selector_configure_def selector_sum bs sum_of_bools)
  moreover have "length (filter (\<lambda>b. b) bs) \<le> length bs" by simp
  moreover have "length bs \<le> n" using len bs by simp
  moreover have "(1 :: nat) < 2 ^ 253" by simp
  ultimately have "length (filter (\<lambda>b. b) bs) = 1"
    using canonicalD [OF can, of "length (filter (\<lambda>b. b) bs)" 1] n by (meson le_less_trans)
  then obtain k where k: "k < length bs" "bs = map (\<lambda>i. i = k) [0..<length bs]" using one_true by blast
  let ?t = "2 * k + of_bool p"
  have t: "?t mod 2 = 1 \<longleftrightarrow> p" "?t div 2 = k" by auto
  have lb: "length bs = (n + 1) div 2" using len bs by simp
  have "target_pairs s = map (\<lambda>i. of_bool (i = k)) [0..<(n + 1) div 2]"
    unfolding bs by (subst k(2)) (simp add: lb comp_def)
  then have eq: "s = selector_assign n ?t" unfolding selector_assign_def t using odd by (cases s) simp
  have "?t < n"
  proof (rule ccontr)
    assume "\<not> ?t < n"
    then have "n mod 2 = 1" "k = n div 2" p using k(1) lb by (cases p; simp; presburger)+
    then have "target_odd s * target_pairs s ! (n div 2) = 0" using ok by (simp add: selector_configure_def)
    then show False using \<open>k = n div 2\<close> \<open>p\<close> k lb by (simp add: odd eq selector_assign_def)
  qed
  with eq show ?thesis by blast
qed

lemma selector_complete: "t < n \<Longrightarrow> satisfied (selector_configure n (selector_assign n t :: 'f :: field DynamicSelectorHalf))"
proof -
  assume t: "t < n"
  have "sum_list (map (\<lambda>i. of_bool (i = t div 2)) [0..<(n + 1) div 2]) = (1 :: 'f)"
    using t by (simp add: sum_list_distinct_conv_sum_set of_bool_def sum.delta)
  moreover have "\<not> (n mod 2 = 1 \<and> t mod 2 = 1 \<and> n div 2 = t div 2)" using t by presburger
  moreover have "n mod 2 = 1 \<Longrightarrow> n div 2 < (n + 1) div 2" by presburger
  ultimately show ?thesis
    by (auto simp: selector_configure_def selector_assign_def selector_sum satisfied_map)
qed

lemma selector_expr_assign:
  assumes "list_all (\<lambda>u. u < n) targets" and "distinct targets" and "t < n"
  shows "selector_expr (selector_assign n t) targets = (of_bool (t \<in> set targets) :: 'f :: field)"
proof -
  have "(if u mod 2 = 1 then target_odd (selector_assign n t) else 1 - target_odd (selector_assign n t)) *
      target_pairs (selector_assign n t) ! (u div 2) = (of_bool (u = t) :: 'f)" if "u < n" for u
  proof -
    have "u div 2 < (n + 1) div 2" using that by presburger
    moreover have "u = t \<longleftrightarrow> u mod 2 = t mod 2 \<and> u div 2 = t div 2" by (metis div_mult_mod_eq)
    ultimately show ?thesis
      unfolding selector_assign_def by (cases "u div 2 = t div 2"; cases "u mod 2 = 1"; cases "t mod 2 = 1") simp_all
  qed
  then have "selector_expr (selector_assign n t) targets = (\<Sum>u \<leftarrow> targets. of_bool (u = t) :: 'f)"
    unfolding selector_expr_def using assms(1) by (intro arg_cong [where f = sum_list] map_cong refl) (metis list_all_iff)
  also have "\<dots> = of_bool (t \<in> set targets)"
    using assms(2) by (induction targets) auto
  finally show ?thesis .
qed

section \<open>The tables of the states agree\<close>

lemma opcode_state_table:
  "list_all (\<lambda>(b, op). is_INVALID op \<or> (case opcode_state_of True op of Inl (_ :: unit failure) \<Rightarrow> False | Inr s \<Rightarrow> op \<in> set (op_state_opcodes s))) from_u8_table"
  by code_simp

definition op_states :: "OpcodeState list" where
  "op_states = concat (map (\<lambda>s. case s of Opcode_State t \<Rightarrow> [t] | _ \<Rightarrow> []) execution_states)"

lemma op_states_table:
  "list_all (\<lambda>s. list_all (\<lambda>op. opcode_state_of True op = (Inr s :: (_, unit) result)) (op_state_opcodes s)) op_states"
  by code_simp

lemma opcode_state_of_error: "opcode_state_of w op = (Inr s :: (_, 'e) result) \<longleftrightarrow> opcode_state_of w op = (Inr s :: (_, unit) result)"
  by (simp add: opcode_state_of_def split: OpcodeId.splits SysOp.splits)

lemma op_states_UNIV: "s \<in> set op_states"
  using execution_states_nth [of "Opcode_State s"] by (force simp: op_states_def in_set_conv_nth split: ExecutionState.splits)

text \<open>
  C37: the two tables of the execution states of opcodes agree, when unimplemented opcodes are only warned about (the feature \<open>warn-unimplemented\<close>).
  Every opcode but \<open>INVALID\<close> has such a state, and \<open>ExecutionState::from\<close> gives the state \<open>s\<close> to a step of the opcode without an error exactly if the opcode is
  among the responsible opcodes of \<open>s\<close>. So among the states of opcodes the lookup of the responsible opcode accepts the one that the witness assigns and no other.
\<close>

theorem execution_state_responsible:
  assumes "\<not> is_INVALID op"
  shows "(opcode_state_of True op = (Inr s :: (_, 'e) result) \<longleftrightarrow> RO_Op op \<in> set (responsible_opcodes (Opcode_State s))) \<and> (\<exists>s. opcode_state_of True op = (Inr s :: (_, 'e) result))"
proof -
  obtain t where t: "opcode_state_of True op = (Inr t :: (_, unit) result)" "op \<in> set (op_state_opcodes t)"
    using opcode_state_table from_u8_table_complete [OF assms] assms by (cases "opcode_state_of True op :: (_, unit) result") (fastforce simp: list_all_iff)+
  moreover have "opcode_state_of True op = (Inr s :: (_, unit) result)" if "op \<in> set (op_state_opcodes s)"
    using op_states_table op_states_UNIV [of s] that by (simp add: list_all_iff)
  ultimately show ?thesis
    unfolding opcode_state_of_error [where ?'e = 'e] by (auto simp: responsible_opcodes_def)
qed

theorem execution_state_responsible_witness:
  "opcode_state_of True (Arith SUB) = (Inr St_ADD_SUB :: (_, unit) result) \<and> RO_Op (Arith SUB) \<in> set (responsible_opcodes (Opcode_State St_ADD_SUB))"
proof -
  have "\<not> is_INVALID (Arith SUB)" by (simp add: is_INVALID_def)
  moreover have "RO_Op (Arith SUB) \<in> set (responsible_opcodes (Opcode_State St_ADD_SUB))" by (simp add: responsible_opcodes_def op_state_opcodes_def)
  ultimately show ?thesis using execution_state_responsible [of "Arith SUB" St_ADD_SUB, where ?'e = unit] by blast
qed

end
