(* ===== verification/Evm_Builder.thy ===== *)
theory Evm_Builder
  imports Evm_Step Mul_Add
begin

text \<open>
  The tables and the constraint builder of the EVM circuit: \<^verbatim>\<open>zkevm-circuits/src/evm_circuit/table.rs\<close> and
  \<open>EVMConstraintBuilder\<close> of \<^verbatim>\<open>zkevm-circuits/src/evm_circuit/util/constraint_builder.rs\<close>.

  The builder is modelled at an assignment: an expression is its value, and a function that asks for cells gets their values, in place of
  the cells that the cell manager would allot. What the builder collects are the values that have to be zero, the lookups, and the
  cells that lie in a lookup column of their own. Splitting an expression into stored parts to lower its degree introduces cells
  that are equal to the parts, which changes nothing at an assignment, and a lookup of the random linear combination of the
  columns is a lookup of the columns.
\<close>

section \<open>Fixed tables\<close>

datatype FixedTableTag =
    FT_Zero | FT_Range5 | FT_Range16 | FT_Range32 | FT_Range64 | FT_Range128 | FT_Range256 | FT_Range512 | FT_Range1024 | FT_SignByte |
    FT_BitwiseAnd | FT_BitwiseOr | FT_BitwiseXor | FT_ResponsibleOpcode | FT_Pow2 | FT_ConstantGasCost

definition fixed_table_tags :: "FixedTableTag list" where
  "fixed_table_tags = [FT_Zero, FT_Range5, FT_Range16, FT_Range32, FT_Range64, FT_Range128, FT_Range256, FT_Range512, FT_Range1024, FT_SignByte,
     FT_BitwiseAnd, FT_BitwiseOr, FT_BitwiseXor, FT_ResponsibleOpcode, FT_Pow2, FT_ConstantGasCost]"

definition fixed_tag_u64 :: "FixedTableTag \<Rightarrow> nat" where
  "fixed_tag_u64 tag = (case tag of
       FT_Zero \<Rightarrow> 0 | FT_Range5 \<Rightarrow> 1 | FT_Range16 \<Rightarrow> 2 | FT_Range32 \<Rightarrow> 3 | FT_Range64 \<Rightarrow> 4 | FT_Range128 \<Rightarrow> 5 | FT_Range256 \<Rightarrow> 6
     | FT_Range512 \<Rightarrow> 7 | FT_Range1024 \<Rightarrow> 8 | FT_SignByte \<Rightarrow> 9 | FT_BitwiseAnd \<Rightarrow> 10 | FT_BitwiseOr \<Rightarrow> 11 | FT_BitwiseXor \<Rightarrow> 12
     | FT_ResponsibleOpcode \<Rightarrow> 13 | FT_Pow2 \<Rightarrow> 14 | FT_ConstantGasCost \<Rightarrow> 15)"

text \<open>The rows of a tag without the column of the tag, as numbers.\<close>

definition bytewise_rows :: "(nat \<Rightarrow> nat \<Rightarrow> nat) \<Rightarrow> (nat \<times> nat \<times> nat) list" where
  "bytewise_rows f = concat (map (\<lambda>lhs. map (\<lambda>rhs. (lhs, rhs, f lhs rhs)) [0..<256]) [0..<256])"

definition range_rows :: "nat \<Rightarrow> (nat \<times> nat \<times> nat) list" where
  "range_rows n = map (\<lambda>v. (v, 0, 0)) [0..<n]"

definition fixed_rows :: "FixedTableTag \<Rightarrow> (nat \<times> nat \<times> nat) list" where
  "fixed_rows tag = (case tag of
       FT_Zero \<Rightarrow> [(0, 0, 0)]
     | FT_Range5 \<Rightarrow> range_rows 5
     | FT_Range16 \<Rightarrow> range_rows 16
     | FT_Range32 \<Rightarrow> range_rows 32
     | FT_Range64 \<Rightarrow> range_rows 64
     | FT_Range128 \<Rightarrow> range_rows 128
     | FT_Range256 \<Rightarrow> range_rows 256
     | FT_Range512 \<Rightarrow> range_rows 512
     | FT_Range1024 \<Rightarrow> range_rows 1024
     | FT_SignByte \<Rightarrow> map (\<lambda>v. (v, v div 128 * 255, 0)) [0..<256]
     | FT_BitwiseAnd \<Rightarrow> bytewise_rows (\<lambda>v w. and v w)
     | FT_BitwiseOr \<Rightarrow> bytewise_rows (\<lambda>v w. or v w)
     | FT_BitwiseXor \<Rightarrow> bytewise_rows (\<lambda>v w. xor v w)
     | FT_ResponsibleOpcode \<Rightarrow>
         concat (map (\<lambda>s. map (\<lambda>r. (execution_state_u64 s, unat (as_u8 (responsible_opcode r)),
           case r of RO_Op _ \<Rightarrow> 0 | RO_InvalidStackPtr _ stack_ptr \<Rightarrow> stack_ptr)) (responsible_opcodes s)) execution_states)
     | FT_Pow2 \<Rightarrow> map (\<lambda>v. if v < 128 then (v, 2 ^ v, 0) else (v, 0, 2 ^ (v - 128))) [0..<256]
     | FT_ConstantGasCost \<Rightarrow>
         map (\<lambda>op. (unat (as_u8 op), unat (constant_gas_cost op), 0)) (filter (\<lambda>op. 0 < constant_gas_cost op) (valid_opcodes @ [INVALID 0])))"

definition fixed_build :: "FixedTableTag \<Rightarrow> 'f :: field list list" where
  "fixed_build tag = map (\<lambda>(v0, v1, v2). [of_nat (fixed_tag_u64 tag), of_nat v0, of_nat v1, of_nat v2]) (fixed_rows tag)"

definition load_fixed_table :: "FixedTableTag list \<Rightarrow> 'f :: field list list" where
  "load_fixed_table tags = [0, 0, 0, 0] # concat (map fixed_build tags)"

section \<open>Lookups\<close>

datatype Table = Table_U8 | Table_U16 | Table_Fixed | Table_Tx | Table_Rw | Table_Bytecode | Table_Block | Table_Copy | Table_Keccak | Table_Exp

record 'f RwValues =
  rv_id :: 'f
  rv_address :: 'f
  rv_field_tag :: 'f
  rv_storage_key :: "'f \<times> 'f"
  rv_value :: "'f \<times> 'f"
  rv_value_prev :: "'f \<times> 'f"
  rv_init_val :: "'f \<times> 'f"

definition rw_values_new :: "'f \<Rightarrow> 'f \<Rightarrow> 'f \<Rightarrow> 'f \<times> 'f \<Rightarrow> 'f \<times> 'f \<Rightarrow> 'f \<times> 'f \<Rightarrow> 'f \<times> 'f \<Rightarrow> 'f RwValues" where
  "rw_values_new i addr field_tag storage_key v v_prev init_val =
     \<lparr>rv_id = i, rv_address = addr, rv_field_tag = field_tag, rv_storage_key = storage_key, rv_value = v, rv_value_prev = v_prev,
      rv_init_val = init_val\<rparr>"

definition revert_value :: "'f RwValues \<Rightarrow> 'f RwValues" where
  "revert_value v = v\<lparr>rv_value_prev := rv_value v, rv_value := rv_value_prev v\<rparr>"

record 'f CopyLookup =
  cl_src_id :: "'f \<times> 'f"
  cl_src_tag :: 'f
  cl_dst_id :: "'f \<times> 'f"
  cl_dst_tag :: 'f
  cl_src_addr :: 'f
  cl_src_addr_end :: 'f
  cl_dst_addr :: 'f
  cl_length :: 'f
  cl_rlc_acc :: 'f

datatype 'f Lookup =
    LK_Fixed 'f "'f list"
  | LK_Tx 'f 'f 'f "'f \<times> 'f"
  | LK_Rw 'f 'f 'f "'f RwValues"
  | LK_Bytecode "'f \<times> 'f" 'f 'f 'f 'f
  | LK_Block 'f 'f "'f \<times> 'f"
  | LK_CopyTable 'f "'f CopyLookup" 'f 'f
  | LK_KeccakTable 'f 'f "'f \<times> 'f"
  | LK_ExpTable 'f 'f "'f list" "'f \<times> 'f" "'f \<times> 'f"
  | LK_Conditional 'f "'f Lookup"

primrec lookup_table :: "'f Lookup \<Rightarrow> Table" where
  "lookup_table (LK_Fixed _ _) = Table_Fixed"
| "lookup_table (LK_Tx _ _ _ _) = Table_Tx"
| "lookup_table (LK_Rw _ _ _ _) = Table_Rw"
| "lookup_table (LK_Bytecode _ _ _ _ _) = Table_Bytecode"
| "lookup_table (LK_Block _ _ _) = Table_Block"
| "lookup_table (LK_CopyTable _ _ _ _) = Table_Copy"
| "lookup_table (LK_KeccakTable _ _ _) = Table_Keccak"
| "lookup_table (LK_ExpTable _ _ _ _ _) = Table_Exp"
| "lookup_table (LK_Conditional _ lookup) = lookup_table lookup"

primrec input_exprs :: "'f :: field Lookup \<Rightarrow> 'f list" where
  "input_exprs (LK_Fixed tag vs) = [tag] @ vs"
| "input_exprs (LK_Tx i field_tag index v) = [i, field_tag, index, fst v, snd v]"
| "input_exprs (LK_Rw counter w tag vs) =
     [counter, w, tag, rv_id vs, rv_address vs, rv_field_tag vs, fst (rv_storage_key vs), snd (rv_storage_key vs),
      fst (rv_value vs), snd (rv_value vs), fst (rv_value_prev vs), snd (rv_value_prev vs), fst (rv_init_val vs), snd (rv_init_val vs)]"
| "input_exprs (LK_Bytecode hash tag index is_code v) = [fst hash, snd hash, tag, index, is_code, v]"
| "input_exprs (LK_Block field_tag number v) = [field_tag, number, fst v, snd v]"
| "input_exprs (LK_CopyTable is_first c counter rwc_inc) =
     [is_first, fst (cl_src_id c), snd (cl_src_id c), cl_src_tag c, fst (cl_dst_id c), snd (cl_dst_id c), cl_dst_tag c, cl_src_addr c,
      cl_src_addr_end c, cl_dst_addr c, cl_length c, cl_rlc_acc c, counter, rwc_inc]"
| "input_exprs (LK_KeccakTable input_rlc input_len output) = [1, input_rlc, input_len, fst output, snd output]"
| "input_exprs (LK_ExpTable identifier is_last base_limbs exponent_lo_hi exponentiation_lo_hi) =
     [1, identifier, is_last] @ base_limbs @ [fst exponent_lo_hi, snd exponent_lo_hi, fst exponentiation_lo_hi, snd exponentiation_lo_hi]"
| "input_exprs (LK_Conditional condition lookup) = map (\<lambda>e. condition * e) (input_exprs lookup)"

text \<open>The tables of a block: those that other circuits fill in are lists of rows; \<open>UXTable\<close> and the fixed table are loaded by the code.\<close>

record 'f Tables =
  tb_fixed_tags :: "FixedTableTag list"
  tb_tx :: "'f list list"
  tb_rw :: "'f list list"
  tb_bytecode :: "'f list list"
  tb_block :: "'f list list"
  tb_copy :: "'f list list"
  tb_keccak :: "'f list list"
  tb_exp :: "'f list list"

definition range_table :: "nat \<Rightarrow> 'f :: field list list" where
  "range_table n_bits = map (\<lambda>i. [of_nat i]) [0..<2 ^ n_bits]"

definition table_rows :: "'f :: field Tables \<Rightarrow> Table \<Rightarrow> 'f list list" where
  "table_rows tb table = (case table of
       Table_U8 \<Rightarrow> range_table 8 | Table_U16 \<Rightarrow> range_table 16 | Table_Fixed \<Rightarrow> load_fixed_table (tb_fixed_tags tb)
     | Table_Tx \<Rightarrow> tb_tx tb | Table_Rw \<Rightarrow> tb_rw tb | Table_Bytecode \<Rightarrow> tb_bytecode tb | Table_Block \<Rightarrow> tb_block tb
     | Table_Copy \<Rightarrow> tb_copy tb | Table_Keccak \<Rightarrow> tb_keccak tb | Table_Exp \<Rightarrow> tb_exp tb)"

section \<open>Words of cells\<close>

text \<open>
  \<open>WordLimbs\<close> of \<^verbatim>\<open>zkevm-circuits/src/util/word.rs\<close>. A word of 32 byte cells is a list of 32 values, \<open>to_word_n\<close> joins
  them, and a word of two limbs is a pair.
\<close>

definition to_word_n :: "nat \<Rightarrow> 'f :: field list \<Rightarrow> 'f list" where
  "to_word_n n limbs = (let k = length limbs div n in map (\<lambda>i. expr_from_bytes (take k (drop (k * i) limbs))) [0..<n])"

definition to_word :: "'f :: field list \<Rightarrow> 'f \<times> 'f" where
  "to_word limbs = (to_word_n 2 limbs ! 0, to_word_n 2 limbs ! 1)"

definition from_lo_unchecked :: "'f :: field \<Rightarrow> 'f \<times> 'f" where
  "from_lo_unchecked lo = (lo, 0)"

definition word_select :: "'f :: field \<Rightarrow> 'f \<times> 'f \<Rightarrow> 'f \<times> 'f \<Rightarrow> 'f \<times> 'f" where
  "word_select selector when_true when_false =
     (selector * fst when_true + (1 - selector) * fst when_false, selector * snd when_true + (1 - selector) * snd when_false)"

definition mul_selector :: "'f :: field \<times> 'f \<Rightarrow> 'f \<Rightarrow> 'f \<times> 'f" where
  "mul_selector w selector = (fst w * selector, snd w * selector)"

definition add_unchecked :: "'f :: field \<times> 'f \<Rightarrow> 'f \<times> 'f \<Rightarrow> 'f \<times> 'f" where
  "add_unchecked v w = (fst v + fst w, snd v + snd w)"

definition sub_unchecked :: "'f :: field \<times> 'f \<Rightarrow> 'f \<times> 'f \<Rightarrow> 'f \<times> 'f" where
  "sub_unchecked v w = (fst v - fst w, snd v - snd w)"

definition address_word_to_expr :: "'f :: field \<times> 'f \<Rightarrow> 'f" where
  "address_word_to_expr w = fst w + snd w * pow_of_two 128"

definition assign_word32 :: "Word \<Rightarrow> 'f :: field list" where
  "assign_word32 w = map (\<lambda>byte. of_nat (unat byte)) (le_bytes 32 (unat w))"

section \<open>Requirements\<close>

text \<open>
  What a gadget adds without looking at the state of the builder: values that are zero, cells in a lookup column, lookups. \<open>cb_when\<close> is
  \<open>condition\<close> on such a list: the type of a cell does not depend on the condition.
\<close>

datatype 'f Requirement = RQ_Zero 'f | RQ_Cell Table 'f | RQ_Lookup "'f Lookup"

definition require_all :: "'f list \<Rightarrow> 'f Requirement list" where
  "require_all es = map RQ_Zero es"

definition query_bool :: "'f :: field \<Rightarrow> 'f Requirement list" where
  "query_bool cell = require_all (require_boolean cell)"

definition query_bytes :: "'f list \<Rightarrow> 'f Requirement list" where
  "query_bytes cells = map (RQ_Cell Table_U8) cells"

definition copy_cell :: "'f :: field \<Rightarrow> 'f \<Rightarrow> 'f Requirement list" where
  "copy_cell cell v = require_all (require_equal cell v)"

definition range_lookup :: "'f :: field \<Rightarrow> FixedTableTag \<Rightarrow> 'f Requirement list" where
  "range_lookup v tag = [RQ_Lookup (LK_Fixed (of_nat (fixed_tag_u64 tag)) [v, 0, 0])]"

definition range_tag :: "nat \<Rightarrow> (FixedTableTag, 'e) result" where
  "range_tag range_size =
     (if range_size = 5 then Inr FT_Range5 else if range_size = 16 then Inr FT_Range16 else if range_size = 32 then Inr FT_Range32
      else if range_size = 64 then Inr FT_Range64 else if range_size = 128 then Inr FT_Range128 else if range_size = 256 then Inr FT_Range256
      else if range_size = 512 then Inr FT_Range512 else if range_size = 1024 then Inr FT_Range1024 else Inl (Panic ''not implemented''))"

definition constant_gas_lookup :: "'f :: field \<Rightarrow> 'f \<Rightarrow> 'f Requirement list" where
  "constant_gas_lookup opcode gas = [RQ_Lookup (LK_Fixed (of_nat (fixed_tag_u64 FT_ConstantGasCost)) [opcode, gas, 0])]"

primrec requirement_when :: "'f :: field \<Rightarrow> 'f Requirement \<Rightarrow> 'f Requirement" where
  "requirement_when c (RQ_Zero e) = RQ_Zero (e * c)"
| "requirement_when c (RQ_Cell table v) = RQ_Cell table v"
| "requirement_when c (RQ_Lookup l) = RQ_Lookup (LK_Conditional c l)"

definition cb_when :: "'f :: field \<Rightarrow> 'f Requirement list \<Rightarrow> 'f Requirement list" where
  "cb_when c rqs = map (requirement_when c) rqs"


section \<open>The builder\<close>

datatype ConstraintLocation = CL_Step | CL_StepFirst | CL_NotStepLast

record 'f EVMConstraintBuilder =
  cb_curr :: "'f StepState"
  cb_next :: "'f StepState"
  cb_keccak_input :: 'f
  cb_execution_state :: ExecutionState
  cb_constraints :: "(ConstraintLocation \<times> 'f) list"
  cb_lookups :: "(ConstraintLocation \<times> 'f Lookup) list"
  cb_cells :: "(Table \<times> 'f) list"
  cb_rw_counter_offset :: 'f
  cb_program_counter_offset :: nat
  cb_stack_pointer_offset :: 'f
  cb_conditions :: "'f list"
  cb_constraints_location :: ConstraintLocation

definition cb_new :: "'f :: field StepState \<Rightarrow> 'f StepState \<Rightarrow> 'f \<Rightarrow> ExecutionState \<Rightarrow> 'f EVMConstraintBuilder" where
  "cb_new cur succ keccak_input execution_state =
     \<lparr>cb_curr = cur, cb_next = succ, cb_keccak_input = keccak_input, cb_execution_state = execution_state, cb_constraints = [],
      cb_lookups = [], cb_cells = [], cb_rw_counter_offset = 0, cb_program_counter_offset = 0, cb_stack_pointer_offset = 0,
      cb_conditions = [], cb_constraints_location = CL_Step\<rparr>"

text \<open>The constraints with the selector of the execution state; the equations of the stored lookups are among the constraints.\<close>

definition cb_build :: "'f :: field EVMConstraintBuilder \<Rightarrow> (ConstraintLocation \<times> 'f) list \<times> (ConstraintLocation \<times> 'f Lookup) list" where
  "cb_build cb =
     (let sel = execution_state_selector (cb_curr cb) [cb_execution_state cb]
      in (map (\<lambda>(loc, e). (loc, sel * e)) (cb_constraints cb), map (\<lambda>(loc, l). (loc, LK_Conditional sel l)) (cb_lookups cb)))"

definition condition_expr_opt :: "'f :: field EVMConstraintBuilder \<Rightarrow> 'f option" where
  "condition_expr_opt cb = (case cb_conditions cb of [] \<Rightarrow> None | e # es \<Rightarrow> Some (foldl (\<lambda>acc e. acc * e) e es))"

definition condition_expr :: "'f :: field EVMConstraintBuilder \<Rightarrow> 'f" where
  "condition_expr cb = (case condition_expr_opt cb of Some condition \<Rightarrow> condition | None \<Rightarrow> 1)"

definition add_constraint :: "'f :: field \<Rightarrow> 'f EVMConstraintBuilder \<Rightarrow> 'f EVMConstraintBuilder" where
  "add_constraint e cb = cb\<lparr>cb_constraints := cb_constraints cb @ [(cb_constraints_location cb, e * condition_expr cb)]\<rparr>"

definition cb_add_lookup :: "'f :: field Lookup \<Rightarrow> 'f EVMConstraintBuilder \<Rightarrow> 'f EVMConstraintBuilder" where
  "cb_add_lookup lookup cb =
     (let lookup = (case condition_expr_opt cb of Some condition \<Rightarrow> LK_Conditional condition lookup | None \<Rightarrow> lookup)
      in cb\<lparr>cb_lookups := cb_lookups cb @ [(cb_constraints_location cb, lookup)]\<rparr>)"

definition query_cell_with_type :: "Table \<Rightarrow> 'f \<Rightarrow> 'f EVMConstraintBuilder \<Rightarrow> 'f EVMConstraintBuilder" where
  "query_cell_with_type table v cb = cb\<lparr>cb_cells := cb_cells cb @ [(table, v)]\<rparr>"

primrec add_requirement :: "'f :: field Requirement \<Rightarrow> 'f EVMConstraintBuilder \<Rightarrow> 'f EVMConstraintBuilder" where
  "add_requirement (RQ_Zero e) cb = add_constraint e cb"
| "add_requirement (RQ_Cell table v) cb = query_cell_with_type table v cb"
| "add_requirement (RQ_Lookup l) cb = cb_add_lookup l cb"

definition cb_add :: "'f :: field Requirement list \<Rightarrow> 'f EVMConstraintBuilder \<Rightarrow> 'f EVMConstraintBuilder" where
  "cb_add rqs cb = fold add_requirement rqs cb"

definition condition :: "'f \<Rightarrow> ('f EVMConstraintBuilder \<Rightarrow> 'f EVMConstraintBuilder) \<Rightarrow> 'f EVMConstraintBuilder \<Rightarrow> 'f EVMConstraintBuilder" where
  "condition c body cb = (let cb = body (cb\<lparr>cb_conditions := cb_conditions cb @ [c]\<rparr>) in cb\<lparr>cb_conditions := butlast (cb_conditions cb)\<rparr>)"

definition constraint_at_location ::
  "ConstraintLocation \<Rightarrow> ('f EVMConstraintBuilder \<Rightarrow> 'f EVMConstraintBuilder) \<Rightarrow> 'f EVMConstraintBuilder \<Rightarrow> 'f EVMConstraintBuilder" where
  "constraint_at_location loc body cb = (let cb = body (cb\<lparr>cb_constraints_location := loc\<rparr>) in cb\<lparr>cb_constraints_location := CL_Step\<rparr>)"

section \<open>State transitions\<close>

datatype 'a Transition = Same | Delta 'a | To 'a | Any

record 'f StepStateTransition =
  st_rw_counter :: "'f Transition"
  st_call_id :: "'f Transition"
  st_is_root :: "'f Transition"
  st_is_create :: "'f Transition"
  st_code_hash :: "('f \<times> 'f) Transition"
  st_program_counter :: "'f Transition"
  st_stack_pointer :: "'f Transition"
  st_gas_left :: "'f Transition"
  st_memory_word_size :: "'f Transition"
  st_reversible_write_counter :: "'f Transition"
  st_log_id :: "'f Transition"

definition transition_default :: "'f StepStateTransition" where
  "transition_default = \<lparr>st_rw_counter = Same, st_call_id = Same, st_is_root = Same, st_is_create = Same, st_code_hash = Same,
     st_program_counter = Same, st_stack_pointer = Same, st_gas_left = Same, st_memory_word_size = Same, st_reversible_write_counter = Same,
     st_log_id = Same\<rparr>"

definition transition_new_context :: "'f :: field StepStateTransition" where
  "transition_new_context = transition_default\<lparr>st_program_counter := To 0, st_stack_pointer := To (of_nat 1024), st_memory_word_size := To 0\<rparr>"

definition transition_any :: "'f StepStateTransition" where
  "transition_any = \<lparr>st_rw_counter = Any, st_call_id = Any, st_is_root = Any, st_is_create = Any, st_code_hash = Any,
     st_program_counter = Any, st_stack_pointer = Any, st_gas_left = Any, st_memory_word_size = Any, st_reversible_write_counter = Any,
     st_log_id = Any\<rparr>"

definition constrain_transition :: "'f :: field Transition \<Rightarrow> 'f \<Rightarrow> 'f \<Rightarrow> 'f list" where
  "constrain_transition tr cur succ = (case tr of
       Same \<Rightarrow> require_equal succ cur | Delta delta \<Rightarrow> require_equal succ (cur + delta) | To t \<Rightarrow> require_equal succ t | Any \<Rightarrow> [])"

definition constrain_word_transition :: "('f :: field \<times> 'f) Transition \<Rightarrow> 'f \<times> 'f \<Rightarrow> 'f \<times> 'f \<Rightarrow> 'f list" where
  "constrain_word_transition tr cur succ = (case tr of
       Same \<Rightarrow> require_equal_word succ cur | To t \<Rightarrow> require_equal_word succ t | _ \<Rightarrow> [])"

definition require_step_state_transition :: "'f :: field StepStateTransition \<Rightarrow> 'f EVMConstraintBuilder \<Rightarrow> 'f EVMConstraintBuilder" where
  "require_step_state_transition st cb =
     (let cur = cb_curr cb; succ = cb_next cb
      in cb_add (require_all (
           constrain_transition (st_rw_counter st) (ss_rw_counter cur) (ss_rw_counter succ) @
           constrain_transition (st_call_id st) (ss_call_id cur) (ss_call_id succ) @
           constrain_transition (st_is_root st) (ss_is_root cur) (ss_is_root succ) @
           constrain_transition (st_is_create st) (ss_is_create cur) (ss_is_create succ) @
           constrain_word_transition (st_code_hash st) (ss_code_hash cur) (ss_code_hash succ) @
           constrain_transition (st_program_counter st) (ss_program_counter cur) (ss_program_counter succ) @
           constrain_transition (st_stack_pointer st) (ss_stack_pointer cur) (ss_stack_pointer succ) @
           constrain_transition (st_gas_left st) (ss_gas_left cur) (ss_gas_left succ) @
           constrain_transition (st_memory_word_size st) (ss_memory_word_size cur) (ss_memory_word_size succ) @
           constrain_transition (st_reversible_write_counter st) (ss_reversible_write_counter cur) (ss_reversible_write_counter succ) @
           constrain_transition (st_log_id st) (ss_log_id cur) (ss_log_id succ))) cb)"

definition require_next_state :: "ExecutionState \<Rightarrow> 'f :: field EVMConstraintBuilder \<Rightarrow> 'f EVMConstraintBuilder" where
  "require_next_state s cb = add_constraint (1 - execution_state_selector (cb_next cb) [s]) cb"

section \<open>Code, transaction and block\<close>

definition opcode_lookup_at :: "'f :: field \<Rightarrow> 'f \<Rightarrow> 'f \<Rightarrow> 'f EVMConstraintBuilder \<Rightarrow> 'f EVMConstraintBuilder" where
  "opcode_lookup_at index opcode is_code cb =
     (let is_root_create = ss_is_root (cb_curr cb) * ss_is_create (cb_curr cb)
      in cb_add_lookup (LK_Conditional (1 - is_root_create)
           (LK_Bytecode (ss_code_hash (cb_curr cb)) (of_nat (bytecode_field_tag_u64 BFT_Byte)) index is_code opcode)) cb)"

definition opcode_lookup :: "'f :: field \<Rightarrow> 'f \<Rightarrow> 'f EVMConstraintBuilder \<Rightarrow> 'f EVMConstraintBuilder" where
  "opcode_lookup opcode is_code cb =
     (let cb = opcode_lookup_at (ss_program_counter (cb_curr cb) + of_nat (cb_program_counter_offset cb)) opcode is_code cb
      in cb\<lparr>cb_program_counter_offset := cb_program_counter_offset cb + 1\<rparr>)"

definition bytecode_lookup :: "'f :: field \<times> 'f \<Rightarrow> 'f \<Rightarrow> 'f \<Rightarrow> 'f \<Rightarrow> 'f EVMConstraintBuilder \<Rightarrow> 'f EVMConstraintBuilder" where
  "bytecode_lookup hash index is_code v cb = cb_add_lookup (LK_Bytecode hash (of_nat (bytecode_field_tag_u64 BFT_Byte)) index is_code v) cb"

definition bytecode_length :: "'f :: field \<times> 'f \<Rightarrow> 'f \<Rightarrow> 'f EVMConstraintBuilder \<Rightarrow> 'f EVMConstraintBuilder" where
  "bytecode_length hash v cb = cb_add_lookup (LK_Bytecode hash (of_nat (bytecode_field_tag_u64 BFT_Header)) 0 0 v) cb"

datatype TxContextFieldTag =
    TXF_Null | TXF_Nonce | TXF_Gas | TXF_GasPrice | TXF_CallerAddress | TXF_CalleeAddress | TXF_IsCreate | TXF_Value | TXF_CallDataLength |
    TXF_CallDataGasCost | TXF_TxSignHash | TXF_CallData

definition tx_context_field_tag_u64 :: "TxContextFieldTag \<Rightarrow> nat" where
  "tx_context_field_tag_u64 tag = (case tag of
       TXF_Null \<Rightarrow> 0 | TXF_Nonce \<Rightarrow> 1 | TXF_Gas \<Rightarrow> 2 | TXF_GasPrice \<Rightarrow> 3 | TXF_CallerAddress \<Rightarrow> 4 | TXF_CalleeAddress \<Rightarrow> 5 | TXF_IsCreate \<Rightarrow> 6
     | TXF_Value \<Rightarrow> 7 | TXF_CallDataLength \<Rightarrow> 8 | TXF_CallDataGasCost \<Rightarrow> 9 | TXF_TxSignHash \<Rightarrow> 10 | TXF_CallData \<Rightarrow> 11)"

datatype BlockContextFieldTag =
    BCF_Coinbase | BCF_Timestamp | BCF_Number | BCF_Difficulty | BCF_GasLimit | BCF_BaseFee | BCF_BlockHash | BCF_ChainId

definition block_context_field_tag_u64 :: "BlockContextFieldTag \<Rightarrow> nat" where
  "block_context_field_tag_u64 tag = (case tag of
       BCF_Coinbase \<Rightarrow> 1 | BCF_Timestamp \<Rightarrow> 2 | BCF_Number \<Rightarrow> 3 | BCF_Difficulty \<Rightarrow> 4 | BCF_GasLimit \<Rightarrow> 5 | BCF_BaseFee \<Rightarrow> 8 | BCF_BlockHash \<Rightarrow> 9
     | BCF_ChainId \<Rightarrow> 10)"

definition tx_context_lookup :: "'f :: field \<Rightarrow> TxContextFieldTag \<Rightarrow> 'f option \<Rightarrow> 'f \<times> 'f \<Rightarrow> 'f EVMConstraintBuilder \<Rightarrow> 'f EVMConstraintBuilder" where
  "tx_context_lookup i tag index v cb = cb_add_lookup (LK_Tx i (of_nat (tx_context_field_tag_u64 tag)) (unwrap_or 0 index) v) cb"

definition block_lookup :: "'f :: field \<Rightarrow> 'f option \<Rightarrow> 'f \<times> 'f \<Rightarrow> 'f EVMConstraintBuilder \<Rightarrow> 'f EVMConstraintBuilder" where
  "block_lookup tag number v cb = cb_add_lookup (LK_Block tag (unwrap_or 0 number) v) cb"

section \<open>Reads and writes\<close>

definition rw_lookup_with_counter :: "'f :: field \<Rightarrow> 'f \<Rightarrow> Target \<Rightarrow> 'f RwValues \<Rightarrow> 'f EVMConstraintBuilder \<Rightarrow> 'f EVMConstraintBuilder" where
  "rw_lookup_with_counter counter w tag vs cb = cb_add_lookup (LK_Rw counter w (of_nat (target_usize tag)) vs) cb"

definition rw_lookup :: "'f :: field \<Rightarrow> Target \<Rightarrow> 'f RwValues \<Rightarrow> 'f EVMConstraintBuilder \<Rightarrow> 'f EVMConstraintBuilder" where
  "rw_lookup w tag vs cb =
     (let cb = rw_lookup_with_counter (ss_rw_counter (cb_curr cb) + cb_rw_counter_offset cb) w tag vs cb
      in cb\<lparr>cb_rw_counter_offset := (case condition_expr_opt cb of None \<Rightarrow> cb_rw_counter_offset cb + 1 | Some c \<Rightarrow> cb_rw_counter_offset cb + c)\<rparr>)"

record 'f ReversionInfo =
  ri_rw_counter_end_of_reversion :: 'f
  ri_is_persistent :: 'f
  ri_reversible_write_counter :: 'f

definition rw_counter_of_reversion :: "'f :: field \<Rightarrow> 'f ReversionInfo \<Rightarrow> 'f \<times> 'f ReversionInfo" where
  "rw_counter_of_reversion inc_selector ri =
     (ri_rw_counter_end_of_reversion ri - ri_reversible_write_counter ri,
      ri\<lparr>ri_reversible_write_counter := ri_reversible_write_counter ri + inc_selector * 1\<rparr>)"

definition reversible_write ::
  "Target \<Rightarrow> 'f :: field RwValues \<Rightarrow> 'f ReversionInfo option \<times> 'f EVMConstraintBuilder \<Rightarrow> 'f ReversionInfo option \<times> 'f EVMConstraintBuilder" where
  "reversible_write tag vs ricb =
     (let (reversion_info, cb) = ricb; cb = rw_lookup 1 tag vs cb
      in case reversion_info of
           None \<Rightarrow> (None, cb)
         | Some ri \<Rightarrow>
             let inc_selector = condition_expr cb; (counter, ri') = rw_counter_of_reversion inc_selector ri
             in (Some ri', condition (not_expr (ri_is_persistent ri)) (rw_lookup_with_counter counter 1 tag (revert_value vs)) cb))"

text \<open>Access lists and refund.\<close>

definition account_access_list_values :: "'f :: field \<Rightarrow> 'f \<times> 'f \<Rightarrow> 'f \<Rightarrow> 'f \<Rightarrow> 'f RwValues" where
  "account_access_list_values txid account_address v v_prev =
     rw_values_new txid (address_word_to_expr account_address) 0 (0, 0) (from_lo_unchecked v) (from_lo_unchecked v_prev) (0, 0)"

definition account_access_list_write_unchecked where
  "account_access_list_write_unchecked txid account_address v v_prev ricb =
     reversible_write TTxAccessListAccount (account_access_list_values txid account_address v v_prev) ricb"

definition account_access_list_read :: "'f :: field \<Rightarrow> 'f \<times> 'f \<Rightarrow> 'f \<Rightarrow> 'f EVMConstraintBuilder \<Rightarrow> 'f EVMConstraintBuilder" where
  "account_access_list_read txid account_address v cb =
     rw_lookup 0 TTxAccessListAccount (account_access_list_values txid account_address v v) cb"

definition account_storage_access_list_values :: "'f :: field \<Rightarrow> 'f \<times> 'f \<Rightarrow> 'f \<times> 'f \<Rightarrow> 'f \<times> 'f \<Rightarrow> 'f \<times> 'f \<Rightarrow> 'f RwValues" where
  "account_storage_access_list_values txid account_address storage_key v v_prev =
     rw_values_new txid (address_word_to_expr account_address) 0 storage_key v v_prev (0, 0)"

definition account_storage_access_list_write where
  "account_storage_access_list_write txid account_address storage_key v v_prev ricb =
     reversible_write TTxAccessListAccountStorage (account_storage_access_list_values txid account_address storage_key v v_prev) ricb"

definition account_storage_access_list_read where
  "account_storage_access_list_read txid account_address storage_key v cb =
     rw_lookup 0 TTxAccessListAccountStorage (account_storage_access_list_values txid account_address storage_key v v) cb"

definition tx_refund_values :: "'f :: field \<Rightarrow> 'f \<times> 'f \<Rightarrow> 'f \<times> 'f \<Rightarrow> 'f RwValues" where
  "tx_refund_values txid v v_prev = rw_values_new txid 0 0 (0, 0) v v_prev (0, 0)"

definition tx_refund_read where
  "tx_refund_read txid v cb = rw_lookup 0 TTxRefund (tx_refund_values txid v v) cb"

definition tx_refund_write where
  "tx_refund_write txid v v_prev ricb = reversible_write TTxRefund (tx_refund_values txid v v_prev) ricb"

text \<open>Accounts and storage.\<close>

definition account_values :: "'f :: field \<times> 'f \<Rightarrow> AccountFieldTag \<Rightarrow> 'f \<times> 'f \<Rightarrow> 'f \<times> 'f \<Rightarrow> 'f RwValues" where
  "account_values account_address tag v v_prev =
     rw_values_new 0 (address_word_to_expr account_address) (of_nat (account_field_tag_u64 tag)) (0, 0) v v_prev (0, 0)"

definition cb_account_read where
  "cb_account_read account_address tag v cb = rw_lookup 0 TAccount (account_values account_address tag v v) cb"

definition cb_account_write where
  "cb_account_write account_address tag v v_prev ricb = reversible_write TAccount (account_values account_address tag v v_prev) ricb"

definition account_storage_values :: "'f :: field \<times> 'f \<Rightarrow> 'f \<times> 'f \<Rightarrow> 'f \<times> 'f \<Rightarrow> 'f \<times> 'f \<Rightarrow> 'f \<Rightarrow> 'f \<times> 'f \<Rightarrow> 'f RwValues" where
  "account_storage_values account_address key v v_prev txid committed_value =
     rw_values_new txid (address_word_to_expr account_address) 0 key v v_prev committed_value"

definition account_storage_read where
  "account_storage_read account_address key v txid committed_value cb =
     rw_lookup 0 TStorage (account_storage_values account_address key v v txid committed_value) cb"

definition account_storage_write where
  "account_storage_write account_address key v v_prev txid committed_value ricb =
     reversible_write TStorage (account_storage_values account_address key v v_prev txid committed_value) ricb"

text \<open>The call context; the identifier of the current call by default.\<close>

definition call_context_values :: "'f :: field EVMConstraintBuilder \<Rightarrow> 'f option \<Rightarrow> CallContextFieldTag \<Rightarrow> 'f \<times> 'f \<Rightarrow> 'f RwValues" where
  "call_context_values cb call tag v =
     rw_values_new (unwrap_or (ss_call_id (cb_curr cb)) call) 0 (of_nat (call_context_field_tag_u64 tag)) (0, 0) v (0, 0) (0, 0)"

definition call_context_lookup_read where
  "call_context_lookup_read call tag v cb = rw_lookup 0 TCallContext (call_context_values cb call tag v) cb"

definition call_context_lookup_write where
  "call_context_lookup_write call tag v cb = rw_lookup 1 TCallContext (call_context_values cb call tag v) cb"

definition reversion_info ::
  "'f :: field option \<Rightarrow> bool \<Rightarrow> 'f \<Rightarrow> 'f \<Rightarrow> 'f EVMConstraintBuilder \<Rightarrow> 'f ReversionInfo \<times> 'f EVMConstraintBuilder" where
  "reversion_info call w end_of_reversion persistent cb =
     (let lookup = (if w then call_context_lookup_write call else call_context_lookup_read call);
          cb = lookup CFT_RwCounterEndOfReversion (from_lo_unchecked end_of_reversion) cb;
          cb = lookup CFT_IsPersistent (from_lo_unchecked persistent) cb
      in (\<lparr>ri_rw_counter_end_of_reversion = end_of_reversion, ri_is_persistent = persistent,
           ri_reversible_write_counter = (case call of Some _ \<Rightarrow> 0 | None \<Rightarrow> ss_reversible_write_counter (cb_curr cb))\<rparr>, cb))"

text \<open>Stack, memory, logs, receipts.\<close>

definition stack_values :: "'f :: field EVMConstraintBuilder \<Rightarrow> 'f \<Rightarrow> 'f \<times> 'f \<Rightarrow> 'f RwValues" where
  "stack_values cb offset v = rw_values_new (ss_call_id (cb_curr cb)) (ss_stack_pointer (cb_curr cb) + offset) 0 (0, 0) v (0, 0) (0, 0)"

definition stack_lookup :: "'f :: field \<Rightarrow> 'f \<Rightarrow> 'f \<times> 'f \<Rightarrow> 'f EVMConstraintBuilder \<Rightarrow> 'f EVMConstraintBuilder" where
  "stack_lookup w offset v cb = rw_lookup w TStack (stack_values cb offset v) cb"

definition stack_pop :: "'f :: field \<times> 'f \<Rightarrow> 'f EVMConstraintBuilder \<Rightarrow> 'f EVMConstraintBuilder" where
  "stack_pop v cb =
     (let cb = stack_lookup 0 (cb_stack_pointer_offset cb) v cb
      in cb\<lparr>cb_stack_pointer_offset := cb_stack_pointer_offset cb + condition_expr cb\<rparr>)"

definition stack_push :: "'f :: field \<times> 'f \<Rightarrow> 'f EVMConstraintBuilder \<Rightarrow> 'f EVMConstraintBuilder" where
  "stack_push v cb =
     (let cb = cb\<lparr>cb_stack_pointer_offset := cb_stack_pointer_offset cb - condition_expr cb\<rparr>
      in stack_lookup 1 (cb_stack_pointer_offset cb) v cb)"

definition memory_lookup :: "'f :: field \<Rightarrow> 'f \<Rightarrow> 'f \<Rightarrow> 'f option \<Rightarrow> 'f EVMConstraintBuilder \<Rightarrow> 'f EVMConstraintBuilder" where
  "memory_lookup w memory_address byte call cb =
     rw_lookup w TMemory (rw_values_new (unwrap_or (ss_call_id (cb_curr cb)) call) memory_address 0 (0, 0) (from_lo_unchecked byte) (0, 0) (0, 0)) cb"

definition build_tx_log_expression :: "'f :: field \<Rightarrow> 'f \<Rightarrow> 'f \<Rightarrow> 'f" where
  "build_tx_log_expression index field_tag log_id = index + of_nat (2 ^ 32) * field_tag + of_nat (2 ^ 48) * log_id"

definition tx_log_lookup :: "'f :: field \<Rightarrow> 'f \<Rightarrow> TxLogFieldTag \<Rightarrow> 'f \<Rightarrow> 'f \<times> 'f \<Rightarrow> 'f EVMConstraintBuilder \<Rightarrow> 'f EVMConstraintBuilder" where
  "tx_log_lookup txid log_id tag index v cb =
     rw_lookup 1 TTxLog
       (rw_values_new txid (build_tx_log_expression index (of_nat (tx_log_field_tag_u64 tag)) log_id) 0 (0, 0) v (0, 0) (0, 0)) cb"

definition tx_receipt_lookup :: "'f :: field \<Rightarrow> 'f \<Rightarrow> TxReceiptFieldTag \<Rightarrow> 'f \<Rightarrow> 'f EVMConstraintBuilder \<Rightarrow> 'f EVMConstraintBuilder" where
  "tx_receipt_lookup w txid tag v cb =
     rw_lookup w TTxReceipt
       (rw_values_new txid 0 (of_nat (tx_receipt_field_tag_u64 tag)) (0, 0) (from_lo_unchecked v) (0, 0) (0, 0)) cb"

definition rw_table_start_lookup :: "'f :: field \<Rightarrow> 'f EVMConstraintBuilder \<Rightarrow> 'f EVMConstraintBuilder" where
  "rw_table_start_lookup counter cb = rw_lookup_with_counter counter 0 TStart (rw_values_new 0 0 0 (0, 0) (0, 0) (0, 0) (0, 0)) cb"

text \<open>The tables of the other circuits.\<close>

definition copy_table_lookup :: "'f :: field CopyLookup \<Rightarrow> 'f \<Rightarrow> 'f EVMConstraintBuilder \<Rightarrow> 'f EVMConstraintBuilder" where
  "copy_table_lookup c rwc_inc cb =
     (let cb = cb_add_lookup (LK_CopyTable 1 c (ss_rw_counter (cb_curr cb) + cb_rw_counter_offset cb) rwc_inc) cb
      in cb\<lparr>cb_rw_counter_offset := cb_rw_counter_offset cb + condition_expr cb * rwc_inc\<rparr>)"

definition exp_table_lookup :: "'f :: field \<Rightarrow> 'f \<Rightarrow> 'f list \<Rightarrow> 'f \<times> 'f \<Rightarrow> 'f \<times> 'f \<Rightarrow> 'f EVMConstraintBuilder \<Rightarrow> 'f EVMConstraintBuilder" where
  "exp_table_lookup identifier is_last base_limbs exponent exponentiation cb =
     cb_add_lookup (LK_ExpTable identifier is_last base_limbs exponent exponentiation) cb"

definition keccak_table_lookup :: "'f :: field \<Rightarrow> 'f \<Rightarrow> 'f \<times> 'f \<Rightarrow> 'f EVMConstraintBuilder \<Rightarrow> 'f EVMConstraintBuilder" where
  "keccak_table_lookup input_rlc input_len output cb = cb_add_lookup (LK_KeccakTable input_rlc input_len output) cb"

section \<open>What a builder requires\<close>

text \<open>
  The gates of the circuit enable the constraints of a step by their location, and a lookup at a location is an equation there
  between a cell of the lookup column and the looked up values; so away from the location it is not required.
\<close>

definition active :: "bool \<Rightarrow> bool \<Rightarrow> ConstraintLocation \<Rightarrow> bool" where
  "active q_first q_last loc = (case loc of CL_Step \<Rightarrow> True | CL_StepFirst \<Rightarrow> q_first | CL_NotStepLast \<Rightarrow> \<not> q_last)"

definition lookup_ok :: "'f :: field Tables \<Rightarrow> 'f Lookup \<Rightarrow> bool" where
  "lookup_ok tb l \<longleftrightarrow> input_exprs l \<in> set (table_rows tb (lookup_table l))"

definition cb_ok :: "'f :: field Tables \<Rightarrow> bool \<Rightarrow> bool \<Rightarrow> 'f EVMConstraintBuilder \<Rightarrow> bool" where
  "cb_ok tb q_first q_last cb \<longleftrightarrow>
     list_all (\<lambda>(loc, e). active q_first q_last loc \<longrightarrow> e = 0) (cb_constraints cb) \<and>
     list_all (\<lambda>(loc, l). active q_first q_last loc \<longrightarrow> lookup_ok tb l) (cb_lookups cb) \<and>
     list_all (\<lambda>(table, v). [v] \<in> set (table_rows tb table)) (cb_cells cb)"

primrec rq_ok :: "'f :: field Tables \<Rightarrow> 'f \<Rightarrow> 'f Requirement \<Rightarrow> bool" where
  "rq_ok tb c (RQ_Zero e) \<longleftrightarrow> c = 0 \<or> e = 0"
| "rq_ok tb c (RQ_Cell table v) \<longleftrightarrow> [v] \<in> set (table_rows tb table)"
| "rq_ok tb c (RQ_Lookup l) \<longleftrightarrow> lookup_ok tb (LK_Conditional c l)"

definition rqs_ok :: "'f :: field Tables \<Rightarrow> 'f \<Rightarrow> 'f Requirement list \<Rightarrow> bool" where
  "rqs_ok tb c rqs \<longleftrightarrow> list_all (rq_ok tb c) rqs"

definition byte_cell :: "'f :: field \<Rightarrow> bool" where
  "byte_cell v \<longleftrightarrow> (\<exists>n < 256. v = of_nat n)"

lemma lookup_ok_conditional:
  "lookup_ok tb (LK_Conditional 1 l) \<longleftrightarrow> lookup_ok tb l"
  "lookup_ok tb (LK_Conditional c (LK_Conditional d l)) \<longleftrightarrow> lookup_ok tb (LK_Conditional (c * d) l)"
  by (simp_all add: lookup_ok_def mult.assoc comp_def)

lemma rqs_ok_simps [simp]:
  "rqs_ok tb c []" "rqs_ok tb c (rqs @ rqs') \<longleftrightarrow> rqs_ok tb c rqs \<and> rqs_ok tb c rqs'"
  "rqs_ok tb c (require_all es) \<longleftrightarrow> c = 0 \<or> satisfied es"
  "rqs_ok tb c (query_bytes cells) \<longleftrightarrow> list_all byte_cell cells"
  "rqs_ok tb c (query_bool v) \<longleftrightarrow> c = 0 \<or> v = 0 \<or> v = 1"
  "rqs_ok tb c (copy_cell v w) \<longleftrightarrow> c = 0 \<or> v = w"
  "rqs_ok tb c (cb_when d rqs) \<longleftrightarrow> rqs_ok tb (c * d) rqs"
  "rqs_ok tb c (q # rqs) \<longleftrightarrow> rq_ok tb c q \<and> rqs_ok tb c rqs"
proof -
  have u8: "[v] \<in> set (table_rows tb Table_U8) \<longleftrightarrow> byte_cell v" for v :: 'a
    by (auto simp: table_rows_def range_table_def byte_cell_def)
  show con: "rqs_ok tb c (require_all es) \<longleftrightarrow> c = 0 \<or> satisfied es" for es
    by (auto simp: rqs_ok_def require_all_def satisfied_def list_all_iff)
  show "rqs_ok tb c (query_bytes cells) \<longleftrightarrow> list_all byte_cell cells"
    by (auto simp: rqs_ok_def query_bytes_def list_all_iff u8)
  show "rqs_ok tb c (query_bool v) \<longleftrightarrow> c = 0 \<or> v = 0 \<or> v = 1" "rqs_ok tb c (copy_cell v w) \<longleftrightarrow> c = 0 \<or> v = w"
    by (simp_all add: query_bool_def copy_cell_def con)
  have "rq_ok tb c (requirement_when d q) \<longleftrightarrow> rq_ok tb (c * d) q" for q
    by (cases q) (auto simp: lookup_ok_conditional)
  then show "rqs_ok tb c (cb_when d rqs) \<longleftrightarrow> rqs_ok tb (c * d) rqs"
    by (simp add: rqs_ok_def cb_when_def list_all_iff)
qed (simp_all add: rqs_ok_def)

lemma condition_expr_Nil [simp]: "cb_conditions cb = [] \<Longrightarrow> condition_expr cb = 1"
  by (simp add: condition_expr_def condition_expr_opt_def)

lemma condition_expr_opt_cases: "(case condition_expr_opt cb of None \<Rightarrow> x + 1 | Some c \<Rightarrow> x + c) = x + condition_expr cb"
  by (simp add: condition_expr_def split: option.splits)

lemma condition_expr_snoc: "cb_conditions cb = cs @ [c] \<Longrightarrow> condition_expr cb = condition_expr (cb\<lparr>cb_conditions := cs\<rparr>) * c"
  by (cases cs) (simp_all add: condition_expr_def condition_expr_opt_def)

text \<open>Adding requirements changes nothing but what is required.\<close>

definition cb_frame :: "'f EVMConstraintBuilder \<Rightarrow> 'f EVMConstraintBuilder" where
  "cb_frame cb = cb\<lparr>cb_constraints := [], cb_lookups := [], cb_cells := []\<rparr>"

lemma cb_frame_fields:
  assumes "cb_frame cb = cb_frame cb'"
  shows "cb_curr cb = cb_curr cb'" "cb_next cb = cb_next cb'" "cb_keccak_input cb = cb_keccak_input cb'"
    "cb_execution_state cb = cb_execution_state cb'" "cb_rw_counter_offset cb = cb_rw_counter_offset cb'"
    "cb_program_counter_offset cb = cb_program_counter_offset cb'" "cb_stack_pointer_offset cb = cb_stack_pointer_offset cb'"
    "cb_conditions cb = cb_conditions cb'" "cb_constraints_location cb = cb_constraints_location cb'"
  using assms by (cases cb; cases cb'; simp add: cb_frame_def)+

lemma cb_frame_add_constraint: "cb_frame (add_constraint e cb) = cb_frame cb"
  by (simp add: cb_frame_def add_constraint_def)

lemma cb_frame_add_lookup: "cb_frame (cb_add_lookup l cb) = cb_frame cb"
  by (simp add: cb_frame_def cb_add_lookup_def Let_def)

lemma cb_frame_add: "cb_frame (cb_add rqs cb) = cb_frame cb"
proof -
  have "cb_frame (add_requirement q cb) = cb_frame cb" for q :: "'a Requirement" and cb
    by (cases q) (simp_all add: cb_frame_add_constraint cb_frame_add_lookup, simp add: cb_frame_def query_cell_with_type_def)
  then show ?thesis unfolding cb_add_def by (induction rqs arbitrary: cb) simp_all
qed

lemmas cb_add_fields [simp] = cb_frame_fields [OF cb_frame_add]
lemmas add_constraint_fields [simp] = cb_frame_fields [OF cb_frame_add_constraint]
lemmas add_lookup_fields [simp] = cb_frame_fields [OF cb_frame_add_lookup]

lemma condition_expr_cong: "cb_conditions cb = cb_conditions cb' \<Longrightarrow> condition_expr cb = condition_expr cb'"
  by (simp add: condition_expr_def condition_expr_opt_def)

lemma cb_ok_add_constraint [simp]:
  "cb_constraints_location cb = CL_Step \<Longrightarrow>
     cb_ok tb f l (add_constraint e cb) \<longleftrightarrow> cb_ok tb f l cb \<and> (condition_expr cb = 0 \<or> e = 0)"
  by (auto simp: cb_ok_def add_constraint_def active_def)

lemma cb_ok_add_lookup [simp]:
  "cb_constraints_location cb = CL_Step \<Longrightarrow>
     cb_ok tb f l (cb_add_lookup lk cb) \<longleftrightarrow> cb_ok tb f l cb \<and> lookup_ok tb (LK_Conditional (condition_expr cb) lk)"
  by (auto simp: cb_ok_def cb_add_lookup_def Let_def active_def condition_expr_def lookup_ok_conditional(1) split: option.splits)

lemma cb_ok_query_cell [simp]:
  "cb_ok tb f l (query_cell_with_type table v cb) \<longleftrightarrow> cb_ok tb f l cb \<and> [v] \<in> set (table_rows tb table)"
  by (auto simp: cb_ok_def query_cell_with_type_def)

lemma cb_ok_add [simp]:
  "cb_constraints_location cb = CL_Step \<Longrightarrow> cb_ok tb f l (cb_add rqs cb) \<longleftrightarrow> cb_ok tb f l cb \<and> rqs_ok tb (condition_expr cb) rqs"
proof (induction rqs arbitrary: cb)
  case (Cons q rqs)
  have frame: "cb_frame (add_requirement q cb) = cb_frame cb"
    using cb_frame_add [of "[q]" cb] by (simp add: cb_add_def)
  note fields = cb_frame_fields [OF frame]
  have "cb_ok tb f l (add_requirement q cb) \<longleftrightarrow> cb_ok tb f l cb \<and> rq_ok tb (condition_expr cb) q"
    using Cons.prems by (cases q) simp_all
  then show ?case
    using Cons.IH [of "add_requirement q cb"] Cons.prems fields(9) condition_expr_cong [OF fields(8)]
    by (auto simp: cb_add_def rqs_ok_def)
qed (simp add: cb_add_def)

lemma cb_ok_offsets [simp]:
  "cb_ok tb f l (cb\<lparr>cb_rw_counter_offset := x\<rparr>) = cb_ok tb f l cb" "cb_ok tb f l (cb\<lparr>cb_program_counter_offset := n\<rparr>) = cb_ok tb f l cb"
  "cb_ok tb f l (cb\<lparr>cb_stack_pointer_offset := x\<rparr>) = cb_ok tb f l cb" "cb_ok tb f l (cb\<lparr>cb_conditions := cs\<rparr>) = cb_ok tb f l cb"
  "condition_expr (cb\<lparr>cb_rw_counter_offset := x\<rparr>) = condition_expr cb" "condition_expr (cb\<lparr>cb_program_counter_offset := n\<rparr>) = condition_expr cb"
  "condition_expr (cb\<lparr>cb_stack_pointer_offset := x\<rparr>) = condition_expr cb"
  by (simp_all add: cb_ok_def condition_expr_def condition_expr_opt_def)

lemma cb_ok_new [simp]: "cb_ok tb f l (cb_new cur succ r s)"
  by (simp add: cb_ok_def cb_new_def)

lemma cb_new_fields [simp]:
  "cb_curr (cb_new cur succ r s) = cur" "cb_next (cb_new cur succ r s) = succ" "cb_execution_state (cb_new cur succ r s) = s"
  "cb_rw_counter_offset (cb_new cur succ r s) = 0" "cb_program_counter_offset (cb_new cur succ r s) = 0"
  "cb_stack_pointer_offset (cb_new cur succ r s) = 0" "cb_conditions (cb_new cur succ r s) = []"
  "cb_constraints_location (cb_new cur succ r s) = CL_Step" "cb_keccak_input (cb_new cur succ r s) = r"
  by (simp_all add: cb_new_def)

lemma condition_expr_fields [simp]:
  "condition_expr (cb_add rqs cb) = condition_expr cb" "condition_expr (add_constraint e cb) = condition_expr cb"
  "condition_expr (cb_add_lookup lk cb) = condition_expr cb" "condition_expr (cb_new cur succ r s) = 1"
  by (simp_all add: condition_expr_cong [OF cb_add_fields(8)] condition_expr_cong [OF add_constraint_fields(8)]
      condition_expr_cong [OF add_lookup_fields(8)])

text \<open>A read or write adds its row and counts.\<close>

lemma rw_lookup_eq:
  "rw_lookup w tag vs cb =
     (cb_add_lookup (LK_Rw (ss_rw_counter (cb_curr cb) + cb_rw_counter_offset cb) w (of_nat (target_usize tag)) vs) cb)
       \<lparr>cb_rw_counter_offset := cb_rw_counter_offset cb + condition_expr cb\<rparr>"
proof -
  have "condition_expr_opt (cb_add_lookup lk cb) = condition_expr_opt cb" for lk
    using cb_frame_fields(8) [OF cb_frame_add_lookup] by (simp add: condition_expr_opt_def)
  then show ?thesis by (simp add: rw_lookup_def Let_def rw_lookup_with_counter_def condition_expr_opt_cases)
qed

lemmas cb_state_defs = stack_pop_def stack_push_def stack_lookup_def rw_lookup_eq opcode_lookup_def opcode_lookup_at_def bytecode_lookup_def
  bytecode_length_def tx_context_lookup_def block_lookup_def memory_lookup_def call_context_lookup_read_def call_context_lookup_write_def
  cb_account_read_def tx_log_lookup_def tx_receipt_lookup_def require_step_state_transition_def Let_def

end
