(* ===== verification/Math_Gadgets.thy ===== *)
theory Math_Gadgets
  imports Evm_Builder
begin

text \<open>
  The mathematical gadgets of the EVM circuit, \<^verbatim>\<open>zkevm-circuits/src/evm_circuit/util/math_gadget/\<close>. The \<open>construct\<close> of a gadget is the
  list of its requirements at the values of its cells, its expressions are functions of the cells, and its \<open>assign\<close> gives
  the cells for concrete inputs. A gadget is characterised under the condition 1: its requirements hold exactly for the right cells.
\<close>

section \<open>Zero and equality\<close>

definition is_zero_construct :: "'f :: field \<Rightarrow> 'f \<Rightarrow> 'f Requirement list" where
  "is_zero_construct v iv =
     require_all (let is_zero = 1 - v * iv in require_zero (v * is_zero) @ require_zero (iv * is_zero))"

definition is_zero_gadget_assign :: "'f :: field \<Rightarrow> 'f \<times> 'f" where
  "is_zero_gadget_assign v = (if v = 0 then 0 else inverse v, if v = 0 then 1 else 0)"

definition is_equal_construct :: "'f :: field \<Rightarrow> 'f \<Rightarrow> 'f \<Rightarrow> 'f Requirement list" where
  "is_equal_construct lhs rhs iv = is_zero_construct (lhs - rhs) iv"

definition is_equal_assign :: "'f :: field \<Rightarrow> 'f \<Rightarrow> 'f \<times> 'f" where
  "is_equal_assign lhs rhs = is_zero_gadget_assign (lhs - rhs)"

definition is_zero_word_construct :: "'f :: field \<times> 'f \<Rightarrow> 'f \<times> 'f \<Rightarrow> 'f Requirement list" where
  "is_zero_word_construct w iv =
     require_all (let is_zero_lo = 1 - fst w * fst iv; is_zero_hi = 1 - snd w * snd iv
       in require_zero (fst w * is_zero_lo) @ require_zero (snd w * is_zero_hi) @
          require_zero (fst iv * is_zero_lo) @ require_zero (snd iv * is_zero_hi))"

definition is_zero_word_expr :: "'f :: field \<times> 'f \<Rightarrow> 'f \<times> 'f \<Rightarrow> 'f" where
  "is_zero_word_expr w iv = and_expr [1 - fst w * fst iv, 1 - snd w * snd iv]"

definition is_zero_word_assign :: "'f :: field \<times> 'f \<Rightarrow> ('f \<times> 'f) \<times> 'f" where
  "is_zero_word_assign w =
     ((if fst w = 0 then 0 else inverse (fst w), if snd w = 0 then 0 else inverse (snd w)), if fst w = 0 \<and> snd w = 0 then 2 else 0)"

definition is_equal_word_construct :: "'f :: field \<times> 'f \<Rightarrow> 'f \<times> 'f \<Rightarrow> 'f \<times> 'f \<Rightarrow> 'f Requirement list" where
  "is_equal_word_construct lhs rhs iv =
     is_zero_construct (fst lhs - fst rhs) (fst iv) @ is_zero_construct (snd lhs - snd rhs) (snd iv)"

definition is_equal_word_expr :: "'f :: field \<times> 'f \<Rightarrow> 'f \<times> 'f \<Rightarrow> 'f \<times> 'f \<Rightarrow> 'f" where
  "is_equal_word_expr lhs rhs iv =
     and_expr [is_zero_expression (fst lhs - fst rhs) (fst iv), is_zero_expression (snd lhs - snd rhs) (snd iv)]"

definition is_equal_word_assign :: "'f :: field \<times> 'f \<Rightarrow> 'f \<times> 'f \<Rightarrow> ('f \<times> 'f) \<times> 'f" where
  "is_equal_word_assign lhs rhs =
     ((fst (is_zero_gadget_assign (fst lhs - fst rhs)), fst (is_zero_gadget_assign (snd lhs - snd rhs))), 2)"

section \<open>Comparisons\<close>

definition lt_construct :: "'f :: field \<Rightarrow> 'f \<Rightarrow> 'f \<times> 'f list \<Rightarrow> 'f Requirement list" where
  "lt_construct lhs rhs g =
     (case g of (lt, diff) \<Rightarrow> query_bool lt @ query_bytes diff @
        require_all (require_equal (lhs - rhs) (expr_from_bytes diff - lt * pow_of_two (length diff * 8))))"

text \<open>The bytes of the difference are returned in full; the cells hold the first of them.\<close>

definition lt_gadget_assign :: "('f :: field \<Rightarrow> nat) \<Rightarrow> nat \<Rightarrow> 'f \<Rightarrow> 'f \<Rightarrow> ('f \<times> 'f list) \<times> u8 list" where
  "lt_gadget_assign repr n_bytes lhs rhs =
     (let lt = repr lhs < repr rhs;
          diff = (lhs - rhs) + (if lt then pow_of_two (n_bytes * 8) else 0);
          diff_bytes = le_bytes 32 (repr diff)
      in ((of_bool lt, map (\<lambda>byte. of_nat (unat byte)) (take n_bytes diff_bytes)), diff_bytes))"

definition comparison_construct :: "'f :: field \<Rightarrow> 'f \<Rightarrow> ('f \<times> 'f list) \<times> 'f \<Rightarrow> 'f Requirement list" where
  "comparison_construct lhs rhs g =
     (case g of ((lt, diff), iv) \<Rightarrow> lt_construct lhs rhs (lt, diff) @ is_zero_construct (sum_expr diff) iv)"

definition comparison_expr :: "('f :: field \<times> 'f list) \<times> 'f \<Rightarrow> 'f \<times> 'f" where
  "comparison_expr g = (case g of ((lt, diff), iv) \<Rightarrow> (lt, is_zero_expression (sum_expr diff) iv))"

definition comparison_assign :: "('f :: field \<Rightarrow> nat) \<Rightarrow> nat \<Rightarrow> 'f \<Rightarrow> 'f \<Rightarrow> ('f \<times> 'f list) \<times> 'f" where
  "comparison_assign repr n_bytes lhs rhs =
     (let (lt, diff) = lt_gadget_assign repr n_bytes lhs rhs
      in (lt, fst (is_zero_gadget_assign (sum_expr (map (\<lambda>byte. of_nat (unat byte)) diff)))))"

type_synonym 'f Comparison = "('f \<times> 'f list) \<times> 'f"

definition lt_word_construct :: "'f :: field \<times> 'f \<Rightarrow> 'f \<times> 'f \<Rightarrow> 'f Comparison \<times> 'f \<times> 'f list \<Rightarrow> 'f Requirement list" where
  "lt_word_construct lhs rhs g =
     (case g of (comparison_hi, lt_lo) \<Rightarrow> comparison_construct (snd lhs) (snd rhs) comparison_hi @ lt_construct (fst lhs) (fst rhs) lt_lo)"

definition lt_word_expr :: "'f :: field Comparison \<times> 'f \<times> 'f list \<Rightarrow> 'f" where
  "lt_word_expr g = (case g of (comparison_hi, lt_lo) \<Rightarrow> case comparison_expr comparison_hi of (hi_lt, hi_eq) \<Rightarrow> hi_lt + hi_eq * fst lt_lo)"

definition lt_word_assign :: "('f :: field \<Rightarrow> nat) \<Rightarrow> Word \<Rightarrow> Word \<Rightarrow> 'f Comparison \<times> 'f \<times> 'f list" where
  "lt_word_assign repr lhs rhs =
     (let (lhs_lo, lhs_hi) = split_u256 lhs; (rhs_lo, rhs_hi) = split_u256 rhs
      in (comparison_assign repr 16 (of_nat (unat lhs_hi)) (of_nat (unat rhs_hi)),
          fst (lt_gadget_assign repr 16 (of_nat (unat lhs_lo)) (of_nat (unat rhs_lo)))))"

definition cmp_words_construct :: "'f :: field \<times> 'f \<Rightarrow> 'f \<times> 'f \<Rightarrow> 'f Comparison \<times> 'f Comparison \<Rightarrow> 'f Requirement list" where
  "cmp_words_construct a b g =
     (case g of (comparison_lo, comparison_hi) \<Rightarrow>
        comparison_construct (fst a) (fst b) comparison_lo @ comparison_construct (snd a) (snd b) comparison_hi)"

definition cmp_words_lt :: "'f :: field Comparison \<times> 'f Comparison \<Rightarrow> 'f" where
  "cmp_words_lt g =
     (case g of (comparison_lo, comparison_hi) \<Rightarrow>
        select_expr (fst (comparison_expr comparison_hi)) 1 (snd (comparison_expr comparison_hi) * fst (comparison_expr comparison_lo)))"

definition cmp_words_eq :: "'f :: field Comparison \<times> 'f Comparison \<Rightarrow> 'f" where
  "cmp_words_eq g =
     (case g of (comparison_lo, comparison_hi) \<Rightarrow> snd (comparison_expr comparison_hi) * snd (comparison_expr comparison_lo))"

definition cmp_words_assign :: "('f :: field \<Rightarrow> nat) \<Rightarrow> Word \<Rightarrow> Word \<Rightarrow> 'f Comparison \<times> 'f Comparison" where
  "cmp_words_assign repr a b =
     (let a_bytes = le_bytes 32 (unat a); b_bytes = le_bytes 32 (unat b)
      in (comparison_assign repr 16 (from_bytes_value (take 16 a_bytes)) (from_bytes_value (take 16 b_bytes)),
          comparison_assign repr 16 (from_bytes_value (drop 16 a_bytes)) (from_bytes_value (drop 16 b_bytes))))"

definition min_max_construct :: "'f :: field \<Rightarrow> 'f \<Rightarrow> 'f \<times> 'f list \<Rightarrow> 'f Requirement list" where
  "min_max_construct lhs rhs g = lt_construct lhs rhs g"

definition min_max_min :: "'f :: field \<Rightarrow> 'f \<Rightarrow> 'f \<times> 'f list \<Rightarrow> 'f" where
  "min_max_min lhs rhs g = select_expr (fst g) lhs rhs"

definition min_max_max :: "'f :: field \<Rightarrow> 'f \<Rightarrow> 'f \<times> 'f list \<Rightarrow> 'f" where
  "min_max_max lhs rhs g = select_expr (fst g) rhs lhs"

definition min_max_assign :: "('f :: field \<Rightarrow> nat) \<Rightarrow> nat \<Rightarrow> 'f \<Rightarrow> 'f \<Rightarrow> ('f \<times> 'f list) \<times> 'f \<times> 'f" where
  "min_max_assign repr n_bytes lhs rhs =
     (let (g, _) = lt_gadget_assign repr n_bytes lhs rhs in (g, if fst g = 0 then (rhs, lhs) else (lhs, rhs)))"

definition pair_select_construct :: "'f :: field \<Rightarrow> 'f \<Rightarrow> 'f \<Rightarrow> 'f \<Rightarrow> 'f Requirement list" where
  "pair_select_construct v a b is_a =
     query_bool is_a @ require_all (require_zero (is_a * (v - a)) @ require_zero ((1 - is_a) * (v - b)))"

definition pair_select_assign :: "'f :: field \<Rightarrow> 'f \<Rightarrow> 'f \<Rightarrow> 'f" where
  "pair_select_assign v a b = (if v = a then 1 else 0)"

section \<open>Ranges, divisions, sizes\<close>

definition range_check_construct :: "'f :: field \<Rightarrow> 'f list \<Rightarrow> 'f Requirement list" where
  "range_check_construct v parts = query_bytes parts @ require_all (require_equal v (expr_from_bytes parts))"

definition range_check_assign :: "('f :: field \<Rightarrow> nat) \<Rightarrow> nat \<Rightarrow> 'f \<Rightarrow> 'f list" where
  "range_check_assign repr n_bytes v = map (\<lambda>byte. of_nat (unat byte)) (take n_bytes (le_bytes 32 (repr v)))"

text \<open>The denominator is a constant for which there is a range table.\<close>

definition constant_division_construct :: "'f :: field \<Rightarrow> nat \<Rightarrow> 'f \<times> 'f \<times> 'f list \<Rightarrow> ('f Requirement list, 'e) result" where
  "constant_division_construct numerator denominator g =
     (case g of (quot, remainder, parts) \<Rightarrow>
        bindE (range_tag denominator) (\<lambda>tag. Inr (range_lookup remainder tag @ range_check_construct quot parts @
          require_all (require_equal (numerator - remainder) (quot * of_nat denominator)))))"

definition constant_division_assign :: "('f :: field \<Rightarrow> nat) \<Rightarrow> nat \<Rightarrow> nat \<Rightarrow> nat \<Rightarrow> 'f \<times> 'f \<times> 'f list" where
  "constant_division_assign repr n_bytes numerator denominator =
     (let quot = numerator div denominator; remainder = numerator mod denominator
      in (of_nat quot, of_nat remainder, range_check_assign repr n_bytes (of_nat quot)))"

definition byte_size_construct :: "'f :: field list \<Rightarrow> 'f list \<times> 'f \<Rightarrow> 'f Requirement list" where
  "byte_size_construct vals g =
     (case g of (index_cells, iv) \<Rightarrow>
        concat (map query_bool index_cells) @ require_all (require_equal (sum_expr index_cells) 1) @
        concat (map (\<lambda>(i, index). cb_when index (require_all (
            require_zero (sum_expr (drop i vals)) @
            (if 0 < i then require_equal (vals ! (i - 1) * iv) 1 else require_zero iv)))) (enumerate 0 index_cells)))"

definition byte_size_expr :: "'f :: field list \<times> 'f \<Rightarrow> 'f" where
  "byte_size_expr g = sum_expr (map (\<lambda>(i, cell). of_nat i * cell) (enumerate 0 (fst g)))"

text \<open>\<open>Word::bits\<close> is the number of significant bits.\<close>

definition u256_bits :: "Word \<Rightarrow> nat" where
  "u256_bits w = length (dropWhile (\<lambda>b. \<not> b) (rev (map (bit w) [0..<256])))"

definition byte_size_assign :: "Word \<Rightarrow> 'f :: field list \<times> 'f" where
  "byte_size_assign w =
     (let byte_size = (u256_bits w + 7) div 8
      in (map (\<lambda>i. of_bool (i = byte_size)) [0..<33],
          if 0 < byte_size then inverse (of_nat (unat (le_bytes 32 (unat w) ! (byte_size - 1)))) else 0))"

section \<open>Addition and multiplication of words\<close>

definition add_words_construct :: "bool \<Rightarrow> 'f :: field list list \<Rightarrow> 'f list \<Rightarrow> 'f \<times> 'f \<Rightarrow> 'f Requirement list" where
  "add_words_construct check_overflow addends summ g =
     (case g of (carry_lo, carry_hi) \<Rightarrow>
        let addends_lo = map (\<lambda>addend. fst (to_word addend)) addends; addends_hi = map (\<lambda>addend. snd (to_word addend)) addends;
            (sum_lo, sum_hi) = to_word summ
        in require_all (
             require_equal (sum_expr addends_lo) (sum_lo + carry_lo * pow_of_two 128) @
             require_equal (sum_expr addends_hi + carry_lo) (if check_overflow then sum_hi else sum_hi + carry_hi * pow_of_two 128) @
             concat (map (\<lambda>carry. require_in_set carry (map of_nat [0..<length addends]))
               (if check_overflow then [carry_lo] else [carry_lo, carry_hi]))))"

text \<open>The sums, and the subtraction of the upper half that has no upper carry, are checked \<open>U256\<close> operations.\<close>

definition add_words_assign :: "bool \<Rightarrow> Word list \<Rightarrow> Word \<Rightarrow> ('f :: field \<times> 'f, 'e) result" where
  "add_words_assign check_overflow addends summ =
     (let halves = map split_u256 addends; (sum_lo, sum_hi) = split_u256 summ
      in bindE (foldE (\<lambda>addend_lo acc. u256_add acc addend_lo) (map fst halves) 0) (\<lambda>sum_of_addends_lo.
         bindE (foldE (\<lambda>addend_hi acc. u256_add acc addend_hi) (map snd halves) 0) (\<lambda>sum_of_addends_hi.
         bindE (u256_sub sum_of_addends_lo sum_lo) (\<lambda>d_lo.
         let carry_lo = drop_bit 128 d_lo
         in if check_overflow then Inr (of_nat (unat carry_lo), 0)
            else bindE (u256_add sum_of_addends_hi carry_lo) (\<lambda>s_hi.
                 bindE (u256_sub s_hi sum_hi) (\<lambda>d_hi. Inr (of_nat (unat carry_lo), of_nat (unat (drop_bit 128 d_hi)))))))))"

definition limb_products :: "'f :: semiring_1 list \<Rightarrow> 'f list \<Rightarrow> 'f list" where
  "limb_products a b =
     [a ! 0 * b ! 0,
      a ! 0 * b ! 1 + a ! 1 * b ! 0,
      a ! 0 * b ! 2 + a ! 1 * b ! 1 + a ! 2 * b ! 0,
      a ! 0 * b ! 3 + a ! 1 * b ! 2 + a ! 2 * b ! 1 + a ! 3 * b ! 0,
      a ! 1 * b ! 3 + a ! 2 * b ! 2 + a ! 3 * b ! 1,
      a ! 2 * b ! 3 + a ! 3 * b ! 2,
      a ! 3 * b ! 3]"

definition mul_add_words_construct :: "'f :: field list \<Rightarrow> 'f list \<Rightarrow> 'f list \<Rightarrow> 'f list \<Rightarrow> 'f list \<times> 'f list \<Rightarrow> 'f Requirement list" where
  "mul_add_words_construct a b c d g =
     (case g of (carry_lo, carry_hi) \<Rightarrow>
        let t = limb_products (to_word_n 4 a) (to_word_n 4 b)
        in query_bytes carry_lo @ query_bytes carry_hi @ require_all (
             require_equal (t ! 0 + t ! 1 * pow_of_two 64 + fst (to_word c)) (fst (to_word d) + expr_from_bytes carry_lo * pow_of_two 128) @
             require_equal (t ! 2 + t ! 3 * pow_of_two 64 + snd (to_word c) + expr_from_bytes carry_lo)
               (snd (to_word d) + expr_from_bytes carry_hi * pow_of_two 128)))"

definition mul_add_words_overflow :: "'f :: field list \<Rightarrow> 'f list \<Rightarrow> 'f list \<times> 'f list \<Rightarrow> 'f" where
  "mul_add_words_overflow a b g =
     (let a = to_word_n 4 a; b = to_word_n 4 b
      in expr_from_bytes (snd g) + a ! 1 * b ! 3 + a ! 2 * b ! 2 + a ! 3 * b ! 1 + a ! 2 * b ! 3 + a ! 3 * b ! 2 + a ! 3 * b ! 3)"

text \<open>The carries of an assignment: sums of limb products, checked, minus the half of the result, saturating at zero.\<close>

definition saturating_sub :: "Word \<Rightarrow> Word \<Rightarrow> Word" where
  "saturating_sub v w = (if w \<le> v then v - w else 0)"

definition limb_carry :: "(Word \<times> Word) list \<Rightarrow> (Word \<times> Word) list \<Rightarrow> Word list \<Rightarrow> Word \<Rightarrow> (Word, 'e) result" where
  "limb_carry products shifted addends half =
     bindE (u256_products 0 products) (\<lambda>t. bindE (u256_products 0 shifted) (\<lambda>u.
     bindE (foldE (\<lambda>addend acc. u256_add acc addend) (push_bit 64 u # addends) t) (\<lambda>s. Inr (drop_bit 128 (saturating_sub s half)))))"

definition carry_bytes :: "nat \<Rightarrow> Word \<Rightarrow> 'f :: field list" where
  "carry_bytes n carry = map (\<lambda>byte. of_nat (unat byte)) (take n (le_bytes 32 (unat carry)))"

definition mul_add_words_assign :: "Word \<Rightarrow> Word \<Rightarrow> Word \<Rightarrow> Word \<Rightarrow> ('f :: field list \<times> 'f list, 'e) result" where
  "mul_add_words_assign a b c d =
     (let a = split_u256_limb64 a; b = split_u256_limb64 b; (c_lo, c_hi) = split_u256 c; (d_lo, d_hi) = split_u256 d
      in bindE (limb_carry [(a ! 0, b ! 0)] [(a ! 0, b ! 1), (a ! 1, b ! 0)] [c_lo] d_lo) (\<lambda>carry_lo.
         bindE (limb_carry [(a ! 0, b ! 2), (a ! 1, b ! 1), (a ! 2, b ! 0)]
           [(a ! 0, b ! 3), (a ! 1, b ! 2), (a ! 2, b ! 1), (a ! 3, b ! 0)] [c_hi, carry_lo] d_hi) (\<lambda>carry_hi.
         Inr (carry_bytes 9 carry_lo, carry_bytes 9 carry_hi))))"

definition mul_add_words512_construct ::
  "'f :: field list \<Rightarrow> 'f list \<Rightarrow> 'f list \<Rightarrow> 'f list \<Rightarrow> 'f list option \<Rightarrow> 'f list \<times> 'f list \<times> 'f list \<Rightarrow> 'f Requirement list" where
  "mul_add_words512_construct a b d e addend g =
     (case g of (carry_0, carry_1, carry_2) \<Rightarrow>
        let t = limb_products (to_word_n 4 a) (to_word_n 4 b);
            carry_0_expr = expr_from_bytes carry_0; carry_1_expr = expr_from_bytes carry_1; carry_2_expr = expr_from_bytes carry_2
        in query_bytes carry_0 @ query_bytes carry_1 @ query_bytes carry_2 @ require_all (
             (case addend of
                Some c \<Rightarrow>
                  require_equal (t ! 0 + t ! 1 * pow_of_two 64 + fst (to_word c)) (fst (to_word e) + carry_0_expr * pow_of_two 128) @
                  require_equal (t ! 2 + t ! 3 * pow_of_two 64 + snd (to_word c) + carry_0_expr) (snd (to_word e) + carry_1_expr * pow_of_two 128)
              | None \<Rightarrow>
                  require_equal (t ! 0 + t ! 1 * pow_of_two 64) (fst (to_word e) + carry_0_expr * pow_of_two 128) @
                  require_equal (t ! 2 + t ! 3 * pow_of_two 64 + carry_0_expr) (snd (to_word e) + carry_1_expr * pow_of_two 128)) @
             require_equal (t ! 4 + t ! 5 * pow_of_two 64 + carry_1_expr) (fst (to_word d) + carry_2_expr * pow_of_two 128) @
             require_equal (t ! 6 + carry_2_expr) (snd (to_word d))))"

definition mul_add_words512_assign ::
  "Word \<Rightarrow> Word \<Rightarrow> Word \<Rightarrow> Word \<Rightarrow> Word option \<Rightarrow> ('f :: field list \<times> 'f list \<times> 'f list, 'e) result" where
  "mul_add_words512_assign a b d e addend =
     (let a = split_u256_limb64 a; b = split_u256_limb64 b; (d_lo, _) = split_u256 d; (e_lo, e_hi) = split_u256 e;
          (c_lo, c_hi) = (case addend of Some c \<Rightarrow> ([fst (split_u256 c)], [snd (split_u256 c)]) | None \<Rightarrow> ([], []))
      in bindE (limb_carry [(a ! 0, b ! 0)] [(a ! 0, b ! 1), (a ! 1, b ! 0)] c_lo e_lo) (\<lambda>carry_0.
         bindE (limb_carry [(a ! 0, b ! 2), (a ! 1, b ! 1), (a ! 2, b ! 0)]
           [(a ! 0, b ! 3), (a ! 1, b ! 2), (a ! 2, b ! 1), (a ! 3, b ! 0)] (c_hi @ [carry_0]) e_hi) (\<lambda>carry_1.
         bindE (limb_carry [(a ! 1, b ! 3), (a ! 2, b ! 2), (a ! 3, b ! 1)] [(a ! 2, b ! 3), (a ! 3, b ! 2)] [carry_1] d_lo) (\<lambda>carry_2.
         Inr (carry_bytes 9 carry_0, carry_bytes 9 carry_1, carry_bytes 9 carry_2)))))"

text \<open>The multiplication by a number of 64 bits; \<open>Error::Synthesis\<close> if the carry is larger.\<close>

datatype halo2_error = Synthesis

definition mul_word_u64_construct :: "'f :: field list \<Rightarrow> 'f \<Rightarrow> 'f list \<times> 'f list \<Rightarrow> 'f Requirement list" where
  "mul_word_u64_construct multiplicand multiplier g =
     (case g of (product, carry_lo) \<Rightarrow>
        query_bytes product @ query_bytes carry_lo @ require_all (
          require_equal (fst (to_word multiplicand) * multiplier) (expr_from_bytes carry_lo * pow_of_two 128 + fst (to_word product)) @
          require_equal (snd (to_word multiplicand) * multiplier + expr_from_bytes carry_lo) (snd (to_word product))))"

definition mul_word_u64_assign :: "Word \<Rightarrow> u64 \<Rightarrow> Word \<Rightarrow> ('f :: field list \<times> 'f list, halo2_error) result" where
  "mul_word_u64_assign multiplicand multiplier product =
     bindE (u256_mul (fst (split_u256 multiplicand)) (of_nat (unat multiplier))) (\<lambda>p.
     bindE (u256_sub p (fst (split_u256 product))) (\<lambda>d.
     let carry_lo = drop_bit 128 d
     in if unat carry_lo < 2 ^ 64 then Inr (assign_word32 product, carry_bytes 8 carry_lo) else Inl (Err Synthesis)))"

section \<open>Remainders and absolute values\<close>

record 'f ModGadget =
  mg_k :: "'f list"
  mg_a_or_zero :: "'f list"
  mg_mul_add_words :: "'f list \<times> 'f list"
  mg_n_is_zero :: "'f \<times> 'f"
  mg_a_or_is_zero :: "'f \<times> 'f"
  mg_eq :: "'f \<times> 'f"
  mg_lt :: "'f Comparison \<times> 'f \<times> 'f list"

definition mod_construct :: "'f :: field list \<Rightarrow> 'f list \<Rightarrow> 'f list \<Rightarrow> 'f ModGadget \<Rightarrow> 'f Requirement list" where
  "mod_construct a n r g =
     query_bytes (mg_k g) @ query_bytes (mg_a_or_zero g) @
     is_zero_word_construct (to_word n) (mg_n_is_zero g) @ is_zero_word_construct (to_word (mg_a_or_zero g)) (mg_a_or_is_zero g) @
     mul_add_words_construct (mg_k g) n r (mg_a_or_zero g) (mg_mul_add_words g) @
     is_equal_word_construct (to_word a) (to_word (mg_a_or_zero g)) (mg_eq g) @
     lt_word_construct (to_word r) (to_word n) (mg_lt g) @
     require_all (
       require_zero ((1 - is_equal_word_expr (to_word a) (to_word (mg_a_or_zero g)) (mg_eq g)) *
         (1 - is_zero_word_expr (to_word n) (mg_n_is_zero g) * is_zero_word_expr (to_word (mg_a_or_zero g)) (mg_a_or_is_zero g))) @
       require_zero (1 - lt_word_expr (mg_lt g) - is_zero_word_expr (to_word n) (mg_n_is_zero g)) @
       require_zero (mul_add_words_overflow (mg_k g) n (mg_mul_add_words g)))"

definition mod_assign :: "('f :: field \<Rightarrow> nat) \<Rightarrow> Word \<Rightarrow> Word \<Rightarrow> Word \<Rightarrow> Word \<Rightarrow> ('f ModGadget, 'e) result" where
  "mod_assign repr a n r k =
     (let a_or_zero = (if n = 0 then 0 else a)
      in bindE (mul_add_words_assign k n r a_or_zero) (\<lambda>mul_add_words.
         Inr \<lparr>mg_k = assign_word32 k, mg_a_or_zero = assign_word32 a_or_zero, mg_mul_add_words = mul_add_words,
            mg_n_is_zero = fst (is_zero_word_assign (word_from_u256 n)), mg_a_or_is_zero = fst (is_zero_word_assign (word_from_u256 a_or_zero)),
            mg_eq = fst (is_equal_word_assign (word_from_u256 a) (word_from_u256 a_or_zero)), mg_lt = lt_word_assign repr r n\<rparr>))"

record 'f AbsWordGadget =
  aw_x :: "'f list"
  aw_x_abs :: "'f list"
  aw_sum :: "'f list"
  aw_is_neg :: "'f \<times> 'f list"
  aw_add_words :: "'f \<times> 'f"

definition abs_word_construct :: "'f :: field AbsWordGadget \<Rightarrow> 'f Requirement list" where
  "abs_word_construct g =
     (let (x_lo, x_hi) = to_word (aw_x g); (x_abs_lo, x_abs_hi) = to_word (aw_x_abs g); is_neg = fst (aw_is_neg g)
      in query_bytes (aw_x g) @ query_bytes (aw_x_abs g) @ query_bytes (aw_sum g) @
         lt_construct 127 (aw_x g ! 31) (aw_is_neg g) @
         require_all (require_zero ((1 - is_neg) * (x_abs_lo - x_lo)) @ require_zero ((1 - is_neg) * (x_abs_hi - x_hi))) @
         add_words_construct False [aw_x g, aw_x_abs g] (aw_sum g) (aw_add_words g) @
         require_all (require_zero (is_neg * sum_expr (aw_sum g)) @ require_zero (is_neg * (1 - snd (aw_add_words g)))))"

definition abs_word_assign :: "('f :: field \<Rightarrow> nat) \<Rightarrow> Word \<Rightarrow> Word \<Rightarrow> ('f AbsWordGadget, 'e) result" where
  "abs_word_assign repr x x_abs =
     bindE (add_words_assign False [x, x_abs] (x + x_abs)) (\<lambda>add_words.
     Inr \<lparr>aw_x = assign_word32 x, aw_x_abs = assign_word32 x_abs, aw_sum = assign_word32 (x + x_abs),
        aw_is_neg = fst (lt_gadget_assign repr 1 127 (of_nat (unat (le_bytes 32 (unat x) ! 31)))), aw_add_words = add_words\<rparr>)"

section \<open>Cells of bytes\<close>

lemma byte_cells_bytes:
  "list_all byte_cell cells \<longleftrightarrow> (\<exists>bs :: u8 list. cells = map (\<lambda>b. of_nat (unat b)) bs)"
proof
  assume "list_all byte_cell cells"
  then show "\<exists>bs :: u8 list. cells = map (\<lambda>b. of_nat (unat b)) bs"
  proof (induction cells)
    case (Cons c cells)
    then obtain n and bs :: "u8 list" where "n < 256" "c = of_nat n" "cells = map (\<lambda>b. of_nat (unat b)) bs"
      by (auto simp: byte_cell_def simp del: of_nat_unat)
    then have "c # cells = map (\<lambda>b. of_nat (unat b)) ((of_nat n :: u8) # bs)"
      by (simp add: unat_of_nat_u8 del: of_nat_unat)
    then show ?case by (rule exI)
  qed simp
next
  have "unat (b :: u8) < 256" for b using unsigned_less [of b, where ?'a = nat] by simp
  then show "\<exists>bs :: u8 list. cells = map (\<lambda>b. of_nat (unat b)) bs \<Longrightarrow> list_all byte_cell cells"
    by (force simp: list_all_iff byte_cell_def)
qed

lemma byte_cells_map [simp]: "list_all byte_cell (map (\<lambda>b :: u8. of_nat (unat b)) bs)"
  unfolding byte_cells_bytes by blast

lemma expr_of_bytes: "expr_from_bytes (map (\<lambda>b :: u8. of_nat (unat b)) bs) = of_nat (nat_of_le bs)"
  by (induction bs) (simp_all del: of_nat_unat)

lemma take_drop_le_bytes: "m + k \<le> n \<Longrightarrow> take k (drop m (le_bytes n x)) = le_bytes k (x div 256 ^ m)"
  by (rule nth_equalityI) (simp_all add: le_bytes_def div_mult2_eq [symmetric] power_add [symmetric] add.commute)

text \<open>Words of 32 byte cells are exactly the assigned words, and their limbs are the limbs of the word.\<close>

lemma assign_word32_facts [simp]: "list_all byte_cell (assign_word32 w)" "length (assign_word32 w) = 32"
  unfolding assign_word32_def by (rule byte_cells_map) simp

lemma word32_cells:
  assumes "list_all byte_cell cells" and "length cells = 32"
  obtains w where "cells = assign_word32 w"
proof -
  obtain bs :: "u8 list" where bs: "cells = map (\<lambda>b. of_nat (unat b)) bs" using assms(1) by (auto simp: byte_cells_bytes)
  then have len: "length bs = 32" using assms(2) by simp
  have "nat_of_le bs < 256 ^ 32" using nat_of_le_bound [of bs] len by simp
  then have "unat (of_nat (nat_of_le bs) :: Word) = nat_of_le bs" by (intro unat_small) simp
  then have "cells = assign_word32 (of_nat (nat_of_le bs))"
    unfolding assign_word32_def bs using le_bytes_nat_of_le [of bs] len by simp
  then show ?thesis by (rule that)
qed

lemma word32_part:
  assumes "m + k \<le> 32"
  shows "expr_from_bytes (take k (drop m (assign_word32 w))) = (of_nat (unat w div 256 ^ m mod 256 ^ k) :: 'f :: field)"
proof -
  have "take k (drop m (assign_word32 w :: 'f list)) = map (\<lambda>b. of_nat (unat b)) (take k (drop m (le_bytes 32 (unat w))))"
    by (simp only: assign_word32_def take_map drop_map)
  also have "take k (drop m (le_bytes 32 (unat w))) = le_bytes k (unat w div 256 ^ m)" by (rule take_drop_le_bytes [OF assms])
  finally show ?thesis by (simp only: expr_of_bytes nat_of_le_le_bytes)
qed

definition lo :: "Word \<Rightarrow> nat" where "lo w = unat w mod 2 ^ 128"
definition hi :: "Word \<Rightarrow> nat" where "hi w = unat w div 2 ^ 128"

lemma lo_hi_bound: "lo w < 2 ^ 128" "hi w < 2 ^ 128"
proof -
  have "unat w < 2 ^ 256" using unsigned_less [of w, where ?'a = nat] by simp
  then show "hi w < 2 ^ 128" unfolding hi_def by (intro less_mult_imp_div_less) simp
qed (simp add: lo_def)

lemma lo_hi_eq: "unat w = lo w + hi w * 2 ^ 128"
  unfolding lo_def hi_def by (metis add.commute div_mult_mod_eq)

lemma lo_hi_inject: "v = w \<longleftrightarrow> lo v = lo w \<and> hi v = hi w"
  by (metis lo_hi_eq word_unat_eq_iff)

lemma to_word_assign: "to_word (assign_word32 w) = (of_nat (lo w), of_nat (hi w) :: 'f :: field)"
proof -
  have p: "(256 :: nat) ^ 16 = 2 ^ 128" by simp
  have "unat w div 256 ^ 16 mod 256 ^ 16 = hi w" using lo_hi_bound(2) [of w] unfolding p by (simp only: hi_def mod_less)
  then show ?thesis
    using word32_part [of 0 16 w, where ?'f = 'f] word32_part [of 16 16 w, where ?'f = 'f]
    unfolding to_word_def to_word_n_def Let_def assign_word32_facts(2) by (simp add: upt_rec lo_def p)
qed

lemma to_word4_assign: "to_word_n 4 (assign_word32 w) = (map (\<lambda>j. of_nat (limb w j)) [0..<4] :: 'f :: field list)"
proof -
  have p: "(256 :: nat) ^ (8 * j) = 2 ^ (64 * j)" for j by (simp add: power_mult)
  have "expr_from_bytes (take 8 (drop (8 * j) (assign_word32 w))) = (of_nat (limb w j) :: 'f)" if "j < 4" for j
    using word32_part [of "8 * j" 8 w, where ?'f = 'f] that p [of j] p [of 1] by (simp add: limb_def)
  then show ?thesis unfolding to_word_n_def Let_def assign_word32_facts(2) by simp
qed

lemma word_from_u256_eq: "word_from_u256 w = (of_nat (lo w), of_nat (hi w) :: 'f :: field)"
proof -
  have "(from_bytes_value bs :: 'f) = expr_from_bytes (map (\<lambda>b :: u8. of_nat (unat b)) bs)" for bs
  proof -
    have "foldl (\<lambda>(v, multiplier) byte. (v + byte * multiplier, multiplier * 256)) a (map (\<lambda>b. of_nat (unat b)) bs) =
        foldl (\<lambda>(v, m) byte. (v + of_nat (unat byte) * m, m * 256)) a bs" for a :: "'f \<times> 'f"
      by (induction bs arbitrary: a) (auto split: prod.splits)
    then show ?thesis by (simp add: expr_from_bytes_def from_bytes_value_def)
  qed
  moreover have "to_word (assign_word32 w) =
      (expr_from_bytes (take 16 (assign_word32 w)), expr_from_bytes (drop 16 (assign_word32 w)) :: 'f)"
    by (simp add: to_word_def to_word_n_def Let_def upt_rec)
  ultimately have "word_from_u256 w = (to_word (assign_word32 w) :: 'f \<times> 'f)"
    by (simp add: word_from_u256_def Let_def assign_word32_def take_map drop_map)
  then show ?thesis by (simp only: to_word_assign)
qed

lemma of_nat_halves:
  assumes "canonical (repr :: 'f :: field \<Rightarrow> nat)" and "m < 2 ^ 128" and "n < 2 ^ 128"
  shows "(of_nat m :: 'f) = of_nat n \<longleftrightarrow> m = n" and "(of_nat m :: 'f) = 0 \<longleftrightarrow> m = 0" and "repr (of_nat m) = m"
proof -
  have b: "m < 2 ^ 253" "n < 2 ^ 253" using assms(2,3) by simp_all
  show "(of_nat m :: 'f) = of_nat n \<longleftrightarrow> m = n" by (rule canonicalD [OF assms(1) b])
  show "(of_nat m :: 'f) = 0 \<longleftrightarrow> m = 0" using canonicalD [OF assms(1) b(1), of 0] by simp
  show "repr (of_nat m) = m" using assms(1) b(1) by (simp add: canonical_def)
qed

lemma word_inject:
  assumes "canonical (repr :: 'f :: field \<Rightarrow> nat)"
  shows "word_from_u256 v = (word_from_u256 w :: 'f \<times> 'f) \<longleftrightarrow> v = w"
  using of_nat_halves(1) [OF assms lo_hi_bound(1) lo_hi_bound(1)] of_nat_halves(1) [OF assms lo_hi_bound(2) lo_hi_bound(2)]
  by (auto simp: word_from_u256_eq lo_hi_inject [of v w])

section \<open>Zero and equality\<close>

lemma is_zero_construct_ok:
  "rqs_ok tb 1 (is_zero_construct v iv) \<longleftrightarrow> iv = fst (is_zero_gadget_assign v)"
  by (auto simp: is_zero_construct_def is_zero_gadget_assign_def Let_def field_simps)

lemma is_zero_construct_expr: "rqs_ok tb 1 (is_zero_construct v iv) \<Longrightarrow> is_zero_expression v iv = of_bool (v = 0)"
  unfolding is_zero_construct_ok by (simp add: is_zero_gadget_assign_def is_zero_expression_def)

lemma is_zero_word_ok:
  "rqs_ok tb 1 (is_zero_word_construct w iv) \<longleftrightarrow> iv = fst (is_zero_word_assign w)"
  by (cases w; cases iv) (auto simp: is_zero_word_construct_def is_zero_word_assign_def Let_def field_simps)

lemma is_zero_word_expr:
  "rqs_ok tb 1 (is_zero_word_construct w iv) \<Longrightarrow> is_zero_word_expr w iv = of_bool (w = (0, 0))"
  unfolding is_zero_word_ok by (cases w) (simp add: is_zero_word_assign_def is_zero_word_expr_def)

lemma is_equal_word_ok:
  "rqs_ok tb 1 (is_equal_word_construct v w iv) \<longleftrightarrow> iv = fst (is_equal_word_assign v w)"
  by (cases iv) (auto simp: is_equal_word_construct_def is_equal_word_assign_def is_zero_construct_ok)

lemma is_equal_word_expr:
  "rqs_ok tb 1 (is_equal_word_construct v w iv) \<Longrightarrow> is_equal_word_expr v w iv = of_bool (v = w)"
  unfolding is_equal_word_construct_def is_equal_word_expr_def
  by (auto dest!: is_zero_construct_expr simp: prod_eq_iff)

lemma pair_select_ok:
  "rqs_ok tb 1 (pair_select_construct v a b is_a) \<longleftrightarrow> is_a = 1 \<and> v = a \<or> is_a = 0 \<and> v = b"
  by (auto simp: pair_select_construct_def)

section \<open>Comparisons\<close>

text \<open>The comparison of the EVM circuit has the gate and the lookups of the comparison chip.\<close>

lemma lt_construct_chip:
  "rqs_ok tb 1 (lt_construct lhs rhs (lt, diff)) \<longleftrightarrow> satisfied (lt_gate 1 lhs rhs lt diff) \<and> lt_lookups diff"
proof -
  have "lt_lookups diff \<longleftrightarrow> list_all byte_cell diff"
    by (fastforce simp: lt_lookups_def lt_table_def list_all_iff byte_cell_def)
  then show ?thesis by (auto simp: lt_construct_def lt_gate_def Let_def algebra_simps)
qed

lemma lt_construct_sound:
  assumes "canonical (repr :: 'f :: field \<Rightarrow> nat)" and "length (snd g) \<le> 31" and "a < 256 ^ length (snd g)" and "b < 256 ^ length (snd g)"
    and "rqs_ok tb 1 (lt_construct (of_nat a) (of_nat b) g)"
  shows "fst g = (of_bool (a < b) :: 'f)"
  using assms lt_sound [OF assms(1), of 1 "snd g" a b "fst g"] lt_construct_chip [of tb "of_nat a" "of_nat b" "fst g" "snd g"] by simp

lemma lt_gadget_assign_chip:
  assumes "n \<le> 32"
  shows "fst (lt_gadget_assign repr n lhs rhs) = lt_assign repr n lhs rhs"
  using take_drop_le_bytes [of 0 n 32] assms by (simp add: lt_gadget_assign_def lt_assign_def Let_def)

lemma lt_construct_complete:
  assumes "canonical (repr :: 'f :: field \<Rightarrow> nat)" and "n \<le> 31" and "a < 256 ^ n" and "b < 256 ^ n"
  shows "rqs_ok tb 1 (lt_construct (of_nat a) (of_nat b :: 'f) (fst (lt_gadget_assign repr n (of_nat a) (of_nat b))))"
    and "length (snd (fst (lt_gadget_assign repr n (of_nat a) (of_nat b :: 'f)))) = n"
proof -
  obtain lt diff where g: "lt_assign repr n (of_nat a) (of_nat b :: 'f) = (lt, diff)" by fastforce
  note c = lt_complete [OF assms g]
  show "rqs_ok tb 1 (lt_construct (of_nat a) (of_nat b :: 'f) (fst (lt_gadget_assign repr n (of_nat a) (of_nat b))))"
    "length (snd (fst (lt_gadget_assign repr n (of_nat a) (of_nat b :: 'f)))) = n"
    using c assms(2) by (simp_all add: lt_gadget_assign_chip g lt_construct_chip)
qed

lemma sum_bytes_zero:
  assumes "canonical (repr :: 'f :: field \<Rightarrow> nat)" and "length bs \<le> 32"
  shows "sum_expr (map (\<lambda>b :: u8. of_nat (unat b)) bs) = (0 :: 'f) \<longleftrightarrow> nat_of_le bs = 0"
proof -
  let ?s = "\<lambda>bs :: u8 list. sum_list (map unat bs)"
  have eq: "sum_expr (map (\<lambda>b :: u8. of_nat (unat b)) bs) = (of_nat (?s bs) :: 'f)" for bs
    unfolding sum_expr_eq by (induction bs) (simp_all del: of_nat_unat)
  have "unat (b :: u8) \<le> 255" for b using unsigned_less [of b, where ?'a = nat] by simp
  then have "?s bs \<le> 255 * length bs" for bs by (induction bs) (auto intro: add_mono)
  then have "?s bs \<le> 255 * 32" using assms(2) by (meson le_trans mult_le_mono2)
  also have "\<dots> < (2 :: nat) ^ 253" by simp
  finally have "?s bs < 2 ^ 253" .
  then have "sum_expr (map (\<lambda>b :: u8. of_nat (unat b)) bs) = (0 :: 'f) \<longleftrightarrow> ?s bs = 0"
    unfolding eq using canonicalD [OF assms(1), of "?s bs" 0] by simp
  also have "\<dots> \<longleftrightarrow> nat_of_le bs = 0" by (induction bs) simp_all
  finally show ?thesis .
qed

lemma lt_diff:
  assumes "canonical (repr :: 'f :: field \<Rightarrow> nat)" and n: "length diff \<le> 31" and ab: "a < 256 ^ length diff" "b < 256 ^ length diff"
    and ok: "rqs_ok tb 1 (lt_construct (of_nat a) (of_nat b) (lt, diff :: 'f list))"
  shows "\<exists>bs :: u8 list. diff = map (\<lambda>b. of_nat (unat b)) bs \<and> a + (if a < b then 256 ^ length diff else 0) = b + nat_of_le bs"
proof -
  have lt: "lt = of_bool (a < b)" using lt_construct_sound [OF assms(1), of "(lt, diff)"] n ab ok by simp
  obtain bs :: "u8 list" where bs: "diff = map (\<lambda>b. of_nat (unat b)) bs"
    using ok by (auto simp: lt_construct_def byte_cells_bytes simp del: of_nat_unat)
  have "of_nat a - of_nat b = of_nat (nat_of_le bs) - lt * (256 ^ length diff :: 'f)"
    using ok by (simp add: lt_construct_def bs expr_of_bytes pow_of_two_def bytes_power del: of_nat_unat)
  then have "of_nat (a + (if a < b then 256 ^ length diff else 0)) = (of_nat (b + nat_of_le bs) :: 'f)"
    using lt by (auto simp: algebra_simps)
  moreover have "2 * 256 ^ length diff \<le> (2 :: nat) ^ 253" by (rule bytes_max [OF n])
  moreover have "nat_of_le bs < 256 ^ length diff" using nat_of_le_bound [of bs] bs by simp
  ultimately have "a + (if a < b then 256 ^ length diff else 0) = b + nat_of_le bs"
    by (subst (asm) canonicalD [OF assms(1)]) (use ab in auto)
  with bs show ?thesis by blast
qed

lemma comparison_sound:
  assumes can: "canonical (repr :: 'f :: field \<Rightarrow> nat)" and n: "length (snd (fst g)) \<le> 31" and ab: "a < 256 ^ length (snd (fst g))" "b < 256 ^ length (snd (fst g))"
    and ok: "rqs_ok tb 1 (comparison_construct (of_nat a) (of_nat b) g)"
  shows "comparison_expr g = (of_bool (a < b), of_bool (a = b) :: 'f)"
proof -
  obtain lt diff iv where g: "g = ((lt, diff), iv)" by (metis prod.collapse)
  have lt_ok: "rqs_ok tb 1 (lt_construct (of_nat a) (of_nat b) (lt, diff))" and z: "rqs_ok tb 1 (is_zero_construct (sum_expr diff) iv)"
    using ok by (simp_all add: comparison_construct_def g)
  obtain bs :: "u8 list" where bs: "diff = map (\<lambda>b. of_nat (unat b)) bs" "a + (if a < b then 256 ^ length diff else 0) = b + nat_of_le bs"
    using lt_diff [OF can _ _ _ lt_ok] n ab g by auto
  have "sum_expr diff = 0 \<longleftrightarrow> nat_of_le bs = 0" using sum_bytes_zero [OF can, of bs] bs(1) n g by simp
  also have "\<dots> \<longleftrightarrow> a = b" using bs(2) ab g by (auto split: if_splits)
  finally show ?thesis
    using is_zero_construct_expr [OF z] lt_construct_sound [OF can _ _ _ lt_ok] n ab by (simp add: comparison_expr_def g)
qed

lemma nat_of_le_split: "nat_of_le (bs @ cs) = nat_of_le bs + 256 ^ length bs * nat_of_le cs"
  by (induction bs) simp_all

text \<open>The bytes of a number that fits into the first of them add up like the first of them.\<close>

lemma sum_expr_append: "sum_expr (es @ es') = sum_expr es + sum_expr es'"
  by (simp add: sum_expr_eq)

lemma sum_le_bytes:
  assumes "x < 256 ^ n" and "n \<le> 32"
  shows "sum_expr (map (\<lambda>b. of_nat (unat b)) (le_bytes 32 x)) = (sum_expr (map (\<lambda>b. of_nat (unat b)) (take n (le_bytes 32 x))) :: 'f :: field)"
proof -
  let ?bs = "le_bytes 32 x"
  have t: "take n ?bs = le_bytes n x" using take_drop_le_bytes [of 0 n 32 x] assms(2) by simp
  have "x < 256 ^ 32" using assms power_increasing [of n 32 "256 :: nat"] by simp
  then have "nat_of_le (take n ?bs @ drop n ?bs) = x" by (simp add: nat_of_le_le_bytes)
  then have "x + 256 ^ n * nat_of_le (drop n ?bs) = x"
    unfolding nat_of_le_split t nat_of_le_le_bytes using assms by simp
  then have "nat_of_le (drop n ?bs) = 0" by simp
  moreover have "nat_of_le cs = 0 \<Longrightarrow> \<forall>b \<in> set cs. unat b = 0" for cs by (induction cs) simp_all
  ultimately have "\<forall>b \<in> set (drop n ?bs). unat b = 0" by blast
  moreover have "\<forall>b \<in> set cs. unat b = 0 \<Longrightarrow> sum_expr (map (\<lambda>b. of_nat (unat b)) cs) = (0 :: 'f)" for cs :: "u8 list"
    unfolding sum_expr_eq by (induction cs) (simp_all del: of_nat_unat)
  ultimately have "sum_expr (map (\<lambda>b. of_nat (unat b)) (drop n ?bs)) = (0 :: 'f)" by blast
  moreover have "map (\<lambda>b. of_nat (unat b)) ?bs = (map (\<lambda>b. of_nat (unat b)) (take n ?bs) @ map (\<lambda>b. of_nat (unat b)) (drop n ?bs) :: 'f list)"
    by (metis append_take_drop_id map_append)
  ultimately show ?thesis by (simp add: sum_expr_append del: of_nat_unat)
qed

lemma lt_gadget_bytes:
  fixes repr :: "'f :: field \<Rightarrow> nat"
  assumes can: "canonical repr" and n: "n \<le> 31" and ab: "a < 256 ^ n" "b < 256 ^ n"
  shows "\<exists>x < 256 ^ n. snd (lt_gadget_assign repr n (of_nat a) (of_nat b)) = le_bytes 32 x"
proof -
  have nb: "256 ^ n < (2 :: nat) ^ 253"
    using bytes_max [OF n] by (metis less_le_trans mult_2 less_add_same_cancel1 zero_less_numeral zero_less_power)
  have r: "repr (of_nat m :: 'f) = m" if "m < 256 ^ n" for m using can nb that by (auto simp: canonical_def)
  let ?d = "if a < b then a + 256 ^ n - b else a - b"
  have "of_nat a - of_nat b + (if a < b then pow_of_two (n * 8) else 0) = (of_nat ?d :: 'f)"
    using ab by (auto simp: of_nat_diff pow_of_two_def bytes_power [where ?'a = 'f, symmetric])
  moreover have "?d < 256 ^ n" using ab by auto
  ultimately have "snd (lt_gadget_assign repr n (of_nat a) (of_nat b)) = le_bytes 32 ?d"
    using ab by (simp add: lt_gadget_assign_def Let_def r del: of_nat_diff)
  with \<open>?d < 256 ^ n\<close> show ?thesis by blast
qed

lemma comparison_complete:
  assumes can: "canonical (repr :: 'f :: field \<Rightarrow> nat)" and n: "n \<le> 31" and ab: "a < 256 ^ n" "b < 256 ^ n"
  shows "rqs_ok tb 1 (comparison_construct (of_nat a) (of_nat b :: 'f) (comparison_assign repr n (of_nat a) (of_nat b)))"
    and "length (snd (fst (comparison_assign repr n (of_nat a) (of_nat b :: 'f)))) = n"
proof -
  obtain lt diff bytes where g: "lt_gadget_assign repr n (of_nat a) (of_nat b :: 'f) = ((lt, diff), bytes)" by (metis prod.collapse)
  have lt_ok: "rqs_ok tb 1 (lt_construct (of_nat a) (of_nat b) (lt, diff))" and len: "length diff = n"
    using lt_construct_complete [OF can n ab] by (simp_all add: g)
  obtain x where x: "x < 256 ^ n" "bytes = le_bytes 32 x" using lt_gadget_bytes [OF can n ab] by (auto simp: g)
  have "diff = map (\<lambda>b. of_nat (unat b)) (take n bytes)" using g by (auto simp: lt_gadget_assign_def Let_def)
  then have "sum_expr (map (\<lambda>b. of_nat (unat b)) bytes) = sum_expr diff" using sum_le_bytes [OF x(1)] n x(2) by simp
  then have eq: "comparison_assign repr n (of_nat a) (of_nat b) = ((lt, diff), fst (is_zero_gadget_assign (sum_expr diff)))"
    by (simp add: comparison_assign_def g)
  show "length (snd (fst (comparison_assign repr n (of_nat a) (of_nat b :: 'f)))) = n" using len by (simp add: eq)
  show "rqs_ok tb 1 (comparison_construct (of_nat a) (of_nat b :: 'f) (comparison_assign repr n (of_nat a) (of_nat b)))"
    using lt_ok by (simp add: eq comparison_construct_def is_zero_construct_ok)
qed

lemma half_bound: "lo w < 256 ^ 16" "hi w < 256 ^ 16"
  using lo_hi_bound [of w] by simp_all

lemma less_halves: "v < w \<longleftrightarrow> hi v < hi w \<or> hi v = hi w \<and> lo v < lo w"
proof -
  have "unat v < unat w \<longleftrightarrow> hi v < hi w \<or> hi v = hi w \<and> lo v < lo w"
    unfolding lo_hi_eq [of v] lo_hi_eq [of w] using lo_hi_bound [of v] lo_hi_bound [of w] by auto
  then show ?thesis by (simp add: word_less_nat_alt)
qed

lemma lt_word_sound:
  assumes can: "canonical (repr :: 'f :: field \<Rightarrow> nat)" and len: "length (snd (fst (fst g))) = 16" "length (snd (snd g)) = 16"
    and ok: "rqs_ok tb 1 (lt_word_construct (word_from_u256 v) (word_from_u256 w) g)"
  shows "lt_word_expr g = (of_bool (v < w) :: 'f)"
proof -
  obtain c l where g: "g = (c, l)" by (rule prod.exhaust)
  have c: "comparison_expr c = (of_bool (hi v < hi w), of_bool (hi v = hi w))"
    using comparison_sound [OF can, of c "hi v" "hi w" tb] len ok half_bound [of v] half_bound [of w]
    by (simp add: lt_word_construct_def g word_from_u256_eq)
  have l: "fst l = of_bool (lo v < lo w)"
    using lt_construct_sound [OF can, of l "lo v" "lo w" tb] len ok half_bound [of v] half_bound [of w]
    by (simp add: lt_word_construct_def g word_from_u256_eq)
  show ?thesis by (auto simp: lt_word_expr_def g c l less_halves)
qed

lemma split_halves_nat: "unat (fst (split_u256 w)) = lo w" "unat (snd (split_u256 w)) = hi w"
  using unat_small [of "lo w"] unat_small [of "hi w"] lo_hi_bound [of w] unfolding split_halves lo_def hi_def by simp_all

lemma lt_word_complete:
  assumes can: "canonical (repr :: 'f :: field \<Rightarrow> nat)"
  shows "rqs_ok tb 1 (lt_word_construct (word_from_u256 v) (word_from_u256 w :: 'f \<times> 'f) (lt_word_assign repr v w))"
    and "length (snd (fst (fst (lt_word_assign repr v w)))) = 16" "length (snd (snd (lt_word_assign repr v w))) = 16"
  using comparison_complete [OF can, of 16 "hi v" "hi w"] lt_construct_complete [OF can, of 16 "lo v" "lo w"] half_bound [of v] half_bound [of w]
  by (simp_all add: lt_word_construct_def lt_word_assign_def split_halves_nat word_from_u256_eq Let_def case_prod_beta del: of_nat_unat)

lemma cmp_words_sound:
  assumes can: "canonical (repr :: 'f :: field \<Rightarrow> nat)" and len: "length (snd (fst (fst g))) = 16" "length (snd (fst (snd g))) = 16"
    and ok: "rqs_ok tb 1 (cmp_words_construct (word_from_u256 v) (word_from_u256 w) g)"
  shows "cmp_words_lt g = (of_bool (v < w) :: 'f)" and "cmp_words_eq g = (of_bool (v = w) :: 'f)"
proof -
  obtain c d where g: "g = (c, d)" by (rule prod.exhaust)
  have c: "comparison_expr c = (of_bool (lo v < lo w), of_bool (lo v = lo w))"
    using comparison_sound [OF can, of c "lo v" "lo w" tb] len ok half_bound [of v] half_bound [of w]
    by (simp add: cmp_words_construct_def g word_from_u256_eq)
  have d: "comparison_expr d = (of_bool (hi v < hi w), of_bool (hi v = hi w))"
    using comparison_sound [OF can, of d "hi v" "hi w" tb] len ok half_bound [of v] half_bound [of w]
    by (simp add: cmp_words_construct_def g word_from_u256_eq)
  show "cmp_words_lt g = (of_bool (v < w) :: 'f)" by (auto simp: cmp_words_lt_def g c d less_halves)
  show "cmp_words_eq g = (of_bool (v = w) :: 'f)" by (auto simp: cmp_words_eq_def g c d lo_hi_inject [of v w])
qed

lemma cmp_words_complete:
  assumes can: "canonical (repr :: 'f :: field \<Rightarrow> nat)"
  shows "rqs_ok tb 1 (cmp_words_construct (word_from_u256 v) (word_from_u256 w :: 'f \<times> 'f) (cmp_words_assign repr v w))"
    and "length (snd (fst (fst (cmp_words_assign repr v w)))) = 16" "length (snd (fst (snd (cmp_words_assign repr v w)))) = 16"
proof -
  have "cmp_words_assign repr v w = (comparison_assign repr 16 (of_nat (lo v)) (of_nat (lo w)), comparison_assign repr 16 (of_nat (hi v)) (of_nat (hi w)))"
    using word_from_u256_eq [of v, where ?'f = 'f] word_from_u256_eq [of w, where ?'f = 'f]
    by (simp add: cmp_words_assign_def word_from_u256_def Let_def)
  then show "rqs_ok tb 1 (cmp_words_construct (word_from_u256 v) (word_from_u256 w :: 'f \<times> 'f) (cmp_words_assign repr v w))"
    "length (snd (fst (fst (cmp_words_assign repr v w)))) = 16" "length (snd (fst (snd (cmp_words_assign repr v w)))) = 16"
    using comparison_complete [OF can, of 16 "hi v" "hi w"] comparison_complete [OF can, of 16 "lo v" "lo w"] half_bound [of v] half_bound [of w]
    by (simp_all add: cmp_words_construct_def word_from_u256_eq)
qed

text \<open>Minimum and maximum.\<close>

lemma min_max_sound:
  assumes "canonical (repr :: 'f :: field \<Rightarrow> nat)" and "length (snd g) \<le> 31" and "a < 256 ^ length (snd g)" and "b < 256 ^ length (snd g)"
    and "rqs_ok tb 1 (min_max_construct (of_nat a) (of_nat b) g)"
  shows "min_max_min (of_nat a) (of_nat b) g = (of_nat (min a b) :: 'f)" "min_max_max (of_nat a) (of_nat b) g = (of_nat (max a b) :: 'f)"
  using lt_construct_sound [OF assms(1-4)] assms(5) by (auto simp: min_max_construct_def min_max_min_def min_max_max_def min_def max_def)

section \<open>Ranges\<close>

lemma range_check_sound:
  assumes "rqs_ok tb 1 (range_check_construct v parts)"
  shows "\<exists>m < 256 ^ length parts. v = of_nat m"
proof -
  obtain bs :: "u8 list" where "parts = map (\<lambda>b. of_nat (unat b)) bs"
    using assms by (auto simp: range_check_construct_def byte_cells_bytes simp del: of_nat_unat)
  then show ?thesis using assms nat_of_le_bound [of bs]
    by (auto simp: range_check_construct_def expr_of_bytes simp del: of_nat_unat)
qed

lemma range_check_complete:
  assumes "canonical (repr :: 'f :: field \<Rightarrow> nat)" and "n \<le> 31" and "m < 256 ^ n"
  shows "rqs_ok tb 1 (range_check_construct (of_nat m :: 'f) (range_check_assign repr n (of_nat m)))"
proof -
  have "m < 2 ^ 253" using bytes_max [OF assms(2)] assms(3) by linarith
  then have r: "repr (of_nat m) = m" using assms(1) by (simp add: canonical_def)
  have "take n (le_bytes 32 m) = le_bytes n m" using take_drop_le_bytes [of 0 n 32 m] assms(2) by simp
  then show ?thesis using assms(3)
    by (simp add: range_check_construct_def range_check_assign_def r expr_of_bytes nat_of_le_le_bytes del: of_nat_unat)
qed

text \<open>A lookup in the fixed table finds a row of its tag.\<close>

lemma fixed_tag_bound: "fixed_tag_u64 tag < 16"
  by (cases tag) (simp_all add: fixed_tag_u64_def)

lemma fixed_tag_inject: "fixed_tag_u64 t = fixed_tag_u64 u \<longleftrightarrow> t = u"
  by (cases t; cases u) (simp_all add: fixed_tag_u64_def)

lemma fixed_lookup:
  fixes x y z :: "'f :: field"
  assumes can: "canonical (repr :: 'f \<Rightarrow> nat)" and "tag \<noteq> FT_Zero"
  shows "[of_nat (fixed_tag_u64 tag), x, y, z] \<in> set (load_fixed_table tags) \<longleftrightarrow>
    tag \<in> set tags \<and> (\<exists>a b c. (a, b, c) \<in> set (fixed_rows tag) \<and> x = of_nat a \<and> y = of_nat b \<and> z = of_nat c)"
proof -
  have inj: "(of_nat (fixed_tag_u64 t) :: 'f) = of_nat (fixed_tag_u64 u) \<longleftrightarrow> t = u" for t u
    using canonicalD [OF can, of "fixed_tag_u64 t" "fixed_tag_u64 u"] fixed_tag_bound [of t] fixed_tag_bound [of u]
    by (simp add: fixed_tag_inject)
  have "(of_nat (fixed_tag_u64 tag) :: 'f) \<noteq> 0" using inj [of tag FT_Zero] assms(2) by (simp add: fixed_tag_u64_def)
  then have "[of_nat (fixed_tag_u64 tag), x, y, z] \<in> set (load_fixed_table tags) \<longleftrightarrow>
      (\<exists>t \<in> set tags. [of_nat (fixed_tag_u64 tag), x, y, z] \<in> set (fixed_build t))"
    by (auto simp: load_fixed_table_def)
  also have "\<dots> \<longleftrightarrow> tag \<in> set tags \<and> [of_nat (fixed_tag_u64 tag), x, y, z] \<in> set (fixed_build tag)"
  proof -
    have "[of_nat (fixed_tag_u64 tag), x, y, z] \<in> set (fixed_build t) \<Longrightarrow> t = tag" for t by (auto simp: fixed_build_def inj)
    then show ?thesis by blast
  qed
  also have "[of_nat (fixed_tag_u64 tag), x, y, z] \<in> set (fixed_build tag) \<longleftrightarrow>
      (\<exists>a b c. (a, b, c) \<in> set (fixed_rows tag) \<and> x = of_nat a \<and> y = of_nat b \<and> z = of_nat c)"
    by (force simp: fixed_build_def)
  finally show ?thesis .
qed

lemma set_range_rows: "(a, b, c) \<in> set (range_rows n) \<longleftrightarrow> a < n \<and> b = 0 \<and> c = 0"
  by (auto simp: range_rows_def)

lemma range_lookup_ok:
  assumes can: "canonical (repr :: 'f :: field \<Rightarrow> nat)" and "range_tag n = (Inr tag :: (_, 'e) result)"
  shows "rqs_ok tb 1 (range_lookup (v :: 'f) tag) \<longleftrightarrow> tag \<in> set (tb_fixed_tags tb) \<and> (\<exists>k < n. v = of_nat k)"
proof -
  have tag: "tag \<noteq> FT_Zero" "fixed_rows tag = range_rows n"
    using assms(2) by (auto simp: range_tag_def fixed_rows_def split: if_splits)
  show ?thesis
    using fixed_lookup [OF can tag(1), of v 0 0] tag(2)
    by (auto simp: range_lookup_def lookup_ok_def table_rows_def set_range_rows)
qed

lemma constant_division_sound:
  assumes can: "canonical (repr :: 'f :: field \<Rightarrow> nat)" and "constant_division_construct (of_nat m) d (q, r, parts) = (Inr rqs :: (_, 'e) result)"
    and ok: "rqs_ok tb 1 rqs" and m: "m < 2 ^ 253" and d: "256 ^ length parts * d \<le> 2 ^ 252"
  shows "q = of_nat (m div d)" and "r = (of_nat (m mod d) :: 'f)"
proof -
  obtain tag where tag: "range_tag d = (Inr tag :: (_, 'e) result)"
    and rqs: "rqs = range_lookup r tag @ range_check_construct q parts @ require_all (require_equal (of_nat m - r) (q * of_nat d))"
    using assms(2) by (auto simp: constant_division_construct_def bindE_def split: sum.splits)
  obtain k where k: "k < d" "r = of_nat k" using ok range_lookup_ok [OF can tag, of tb r] by (auto simp: rqs)
  obtain p where p: "p < 256 ^ length parts" "q = of_nat p" using ok range_check_sound [of tb q parts] by (auto simp: rqs)
  have "of_nat m = (of_nat (p * d + k) :: 'f)" using ok k p by (auto simp: rqs algebra_simps)
  moreover have "p * d + k < 2 ^ 253"
  proof -
    have "p * d \<le> 256 ^ length parts * d" using p(1) by (intro mult_right_mono) auto
    moreover have "1 * d \<le> 256 ^ length parts * d" by (intro mult_right_mono) simp_all
    moreover have "(2 :: nat) ^ 253 = 2 ^ 252 + 2 ^ 252" by simp
    ultimately show ?thesis using d k(1) by linarith
  qed
  ultimately have "m = p * d + k" using canonicalD [OF can m] by blast
  then show "q = of_nat (m div d)" "r = of_nat (m mod d)" using k p by simp_all
qed

section \<open>Addition\<close>

lemma div_mod_unique: "l < B \<Longrightarrow> X = l + c * B \<longleftrightarrow> c = X div B \<and> l = X mod (B :: nat)"
  by (cases "B = 0") (auto simp: mod_div_mult_eq)

lemma sum_bound: "(\<forall>x \<in> set xs. f x < (B :: nat)) \<Longrightarrow> sum_list (map f xs) + length xs \<le> length xs * B"
  by (induction xs) (auto simp: Suc_le_eq add_mono)

lemma sum_expr_of_nat: "sum_expr (map (\<lambda>x. of_nat (f x)) xs) = (of_nat (sum_list (map f xs)) :: 'f :: field)"
  unfolding sum_expr_eq by (induction xs) simp_all

lemma carry_in_set: "carry \<in> set (map of_nat [0..<n]) \<longleftrightarrow> (\<exists>k < n. carry = (of_nat k :: 'f :: field))"
  by auto

lemma add_words_ok:
  assumes can: "canonical (repr :: 'f :: field \<Rightarrow> nat)" and n: "ws \<noteq> []" "length ws \<le> 2 ^ 64"
  defines "X \<equiv> sum_list (map lo ws)" and "Y \<equiv> sum_list (map hi ws)"
  shows "rqs_ok tb 1 (add_words_construct check (map assign_word32 ws) (assign_word32 s) (carry_lo, carry_hi :: 'f)) \<longleftrightarrow>
    carry_lo = of_nat (X div 2 ^ 128) \<and> lo s = X mod 2 ^ 128 \<and>
    (if check then hi s = Y + X div 2 ^ 128
     else carry_hi = of_nat ((Y + X div 2 ^ 128) div 2 ^ 128) \<and> hi s = (Y + X div 2 ^ 128) mod 2 ^ 128)"
proof -
  let ?n = "length ws" and ?B = "2 ^ 128 :: nat"
  have XY: "X + ?n \<le> ?n * ?B" "Y + ?n \<le> ?n * ?B" using sum_bound [of ws lo ?B] sum_bound [of ws hi ?B] lo_hi_bound by (simp_all add: X_def Y_def)
  have nB: "?n * ?B \<le> 2 ^ 192" using mult_right_mono [OF n(2), of ?B] by simp
  have small: "j < 2 ^ 250 \<Longrightarrow> k < 2 ^ 250 \<Longrightarrow> (of_nat j = (of_nat k :: 'f)) = (j = k)" for j k
    by (rule canonicalD [OF can]) simp_all
  have eq1: "(of_nat X = (of_nat (lo s) + of_nat k * pow_of_two 128 :: 'f)) = (X = lo s + k * ?B)" if "k < ?n" for k
  proof -
    have "k * ?B < 2 ^ 249" using mult_right_mono [of k ?n ?B] that nB by simp
    then have "(of_nat X = (of_nat (lo s + k * ?B) :: 'f)) = (X = lo s + k * ?B)"
      using XY(1) nB lo_hi_bound [of s] by (intro small) simp_all
    then show ?thesis by (simp add: pow_of_two_def)
  qed
  have eq2: "(of_nat Y + of_nat c = (of_nat (hi s) + of_nat k * pow_of_two 128 :: 'f)) = (Y + c = hi s + k * ?B)" if "k < ?n" "c < ?n" for k c
  proof -
    have "k * ?B < 2 ^ 249" using mult_right_mono [of k ?n ?B] that nB by simp
    then have "(of_nat (Y + c) = (of_nat (hi s + k * ?B) :: 'f)) = (Y + c = hi s + k * ?B)"
      using XY(2) nB lo_hi_bound [of s] that(2) by (intro small) simp_all
    then show ?thesis by (simp add: pow_of_two_def)
  qed
  have eq3: "(of_nat Y + of_nat c = (of_nat (hi s) :: 'f)) = (Y + c = hi s)" if "c < ?n" for c
  proof -
    have "(of_nat (Y + c) = (of_nat (hi s) :: 'f)) = (Y + c = hi s)"
      using XY(2) nB lo_hi_bound [of s] that by (intro small) simp_all
    then show ?thesis by simp
  qed
  have "0 < ?n" using n(1) by simp
  then have c: "X div ?B < ?n" using XY(1) by (intro less_mult_imp_div_less) linarith
  then have c': "(Y + X div ?B) div ?B < ?n" using XY(2) by (intro less_mult_imp_div_less) linarith
  note dm = div_mod_unique [OF lo_hi_bound(1), of X s] div_mod_unique [OF lo_hi_bound(2), of _ s]
  have rq: "rqs_ok tb 1 (add_words_construct check (map assign_word32 ws) (assign_word32 s) (carry_lo, carry_hi)) \<longleftrightarrow>
      (\<exists>k < ?n. carry_lo = of_nat k) \<and> (check \<or> (\<exists>j < ?n. carry_hi = of_nat j)) \<and> of_nat X = of_nat (lo s) + carry_lo * pow_of_two 128 \<and>
      (if check then of_nat Y + carry_lo = of_nat (hi s) else of_nat Y + carry_lo = of_nat (hi s) + carry_hi * pow_of_two 128)"
    by (auto simp: add_words_construct_def Let_def to_word_assign comp_def sum_expr_of_nat carry_in_set X_def Y_def)
  show ?thesis
  proof (cases check)
    case True
    have "rqs_ok tb 1 (add_words_construct check (map assign_word32 ws) (assign_word32 s) (carry_lo, carry_hi)) \<longleftrightarrow>
      (\<exists>k < ?n. carry_lo = of_nat k \<and> X = lo s + k * ?B \<and> Y + k = hi s)"
      unfolding rq using True eq1 eq3 by metis
    then show ?thesis using True c dm(1) by auto
  next
    case False
    have "rqs_ok tb 1 (add_words_construct check (map assign_word32 ws) (assign_word32 s) (carry_lo, carry_hi)) \<longleftrightarrow>
      (\<exists>k < ?n. \<exists>j < ?n. carry_lo = of_nat k \<and> carry_hi = of_nat j \<and> X = lo s + k * ?B \<and> Y + k = hi s + j * ?B)"
    proof -
      have "rqs_ok tb 1 (add_words_construct check (map assign_word32 ws) (assign_word32 s) (carry_lo, carry_hi)) \<longleftrightarrow>
        (\<exists>k < ?n. \<exists>j < ?n. carry_lo = of_nat k \<and> carry_hi = of_nat j \<and> of_nat X = of_nat (lo s) + of_nat k * (pow_of_two 128 :: 'f) \<and>
          of_nat Y + of_nat k = of_nat (hi s) + of_nat j * (pow_of_two 128 :: 'f))"
        unfolding rq using False by (simp only: if_False simp_thms) blast
      then show ?thesis by (simp only: eq1 eq2 cong: conj_cong)
    qed
    then show ?thesis using False c c' dm by auto
  qed
qed

text \<open>The words of the addition.\<close>

lemma sum_halves: "sum_list (map unat ws) = sum_list (map lo ws) + sum_list (map hi ws) * 2 ^ 128"
  by (induction ws) (simp_all add: lo_hi_eq [of _] algebra_simps)

lemma halves_of_sum:
  fixes X Y :: nat
  defines "S \<equiv> X + Y * 2 ^ 128"
  shows "unat s = S mod 2 ^ 256 \<longleftrightarrow> lo s = X mod 2 ^ 128 \<and> hi s = (Y + X div 2 ^ 128) mod 2 ^ 128"
    and "S div 2 ^ 256 = (Y + X div 2 ^ 128) div 2 ^ 128"
proof -
  let ?B = "2 ^ 128 :: nat"
  have B: "(2 :: nat) ^ 256 = ?B * ?B" by simp
  have S: "S mod ?B = X mod ?B" "S div ?B = Y + X div ?B" by (simp_all add: S_def)
  have m: "S mod (?B * ?B) = X mod ?B + (Y + X div ?B) mod ?B * ?B" unfolding mod_mult2_eq S by (simp add: mult.commute)
  show "S div 2 ^ 256 = (Y + X div 2 ^ 128) div 2 ^ 128" unfolding B div_mult2_eq S ..
  show "unat s = S mod 2 ^ 256 \<longleftrightarrow> lo s = X mod 2 ^ 128 \<and> hi s = (Y + X div 2 ^ 128) mod 2 ^ 128"
    unfolding B m lo_def hi_def using div_mod_unique [of "X mod ?B" ?B "unat s" "(Y + X div ?B) mod ?B"] by auto
qed

lemma add_words_sum:
  assumes can: "canonical (repr :: 'f :: field \<Rightarrow> nat)" and n: "ws \<noteq> []" "length ws \<le> 2 ^ 64"
  shows "rqs_ok tb 1 (add_words_construct False (map assign_word32 ws) (assign_word32 s) (carry_lo, carry_hi :: 'f)) \<longleftrightarrow>
      carry_lo = of_nat (sum_list (map lo ws) div 2 ^ 128) \<and> carry_hi = of_nat (sum_list (map unat ws) div 2 ^ 256) \<and> s = sum_list ws"
    and "rqs_ok tb 1 (add_words_construct True (map assign_word32 ws) (assign_word32 s) (carry_lo, carry_hi :: 'f)) \<longleftrightarrow>
      carry_lo = of_nat (sum_list (map lo ws) div 2 ^ 128) \<and> unat s = sum_list (map unat ws)"
proof -
  have u: "unat (sum_list ws) = sum_list (map unat ws) mod 2 ^ 256"
    by (induction ws) (simp_all add: unat_word_ariths mod_simps)
  have s: "s = sum_list ws \<longleftrightarrow> unat s = sum_list (map unat ws) mod 2 ^ 256" unfolding word_unat_eq_iff u ..
  show "rqs_ok tb 1 (add_words_construct False (map assign_word32 ws) (assign_word32 s) (carry_lo, carry_hi :: 'f)) \<longleftrightarrow>
      carry_lo = of_nat (sum_list (map lo ws) div 2 ^ 128) \<and> carry_hi = of_nat (sum_list (map unat ws) div 2 ^ 256) \<and> s = sum_list ws"
    unfolding s sum_halves halves_of_sum add_words_ok [OF can n] by auto
  let ?X = "sum_list (map lo ws)" and ?Y = "sum_list (map hi ws)" and ?B = "2 ^ 128 :: nat"
  have "unat s = ?X + ?Y * ?B \<longleftrightarrow> lo s = ?X mod ?B \<and> hi s = ?Y + ?X div ?B"
  proof
    assume "unat s = ?X + ?Y * ?B"
    then show "lo s = ?X mod ?B \<and> hi s = ?Y + ?X div ?B" unfolding lo_def hi_def by simp
  next
    assume h: "lo s = ?X mod ?B \<and> hi s = ?Y + ?X div ?B"
    have "unat s = ?X mod ?B + (?Y + ?X div ?B) * ?B" unfolding lo_hi_eq [of s] using h by (simp only: simp_thms)
    also have "\<dots> = (?X div ?B * ?B + ?X mod ?B) + ?Y * ?B" by (simp only: add_mult_distrib add.commute add.left_commute add.assoc)
    finally show "unat s = ?X + ?Y * ?B" by (simp only: div_mult_mod_eq)
  qed
  then show "rqs_ok tb 1 (add_words_construct True (map assign_word32 ws) (assign_word32 s) (carry_lo, carry_hi :: 'f)) \<longleftrightarrow>
      carry_lo = of_nat (sum_list (map lo ws) div 2 ^ 128) \<and> unat s = sum_list (map unat ws)"
    unfolding sum_halves add_words_ok [OF can n] by auto
qed

end
