(* ===== verification/Mul_Gadgets.thy ===== *)
theory Mul_Gadgets
  imports Math_Gadgets
begin

text \<open>
  The multiplication gadgets of the EVM circuit on words of byte cells: what their requirements say of the words.
\<close>

section \<open>Multiplication\<close>

lemma half_equation:
  assumes can: "canonical (repr :: 'f :: field \<Rightarrow> nat)" and "L < 2 ^ 250" and "h < 2 ^ 128" and "k < 2 ^ 100"
  shows "of_nat L = (of_nat h + of_nat k * pow_of_two 128 :: 'f) \<longleftrightarrow> k = L div 2 ^ 128 \<and> h = L mod 2 ^ 128"
proof -
  have "h + k * 2 ^ 128 < 2 ^ 253" "L < 2 ^ 253" using assms by simp_all
  then have "(of_nat L = (of_nat (h + k * 2 ^ 128) :: 'f)) = (L = h + k * 2 ^ 128)" by (rule canonicalD [OF can, rotated 1])
  also have "\<dots> = (k = L div 2 ^ 128 \<and> h = L mod 2 ^ 128)" by (rule div_mod_unique [OF assms(3)])
  finally show ?thesis by (simp add: pow_of_two_def)
qed

definition limb_list :: "Word \<Rightarrow> nat list" where
  "limb_list w = map (limb w) [0..<4]"

definition products :: "Word \<Rightarrow> Word \<Rightarrow> nat list" where
  "products a b = limb_products (limb_list a) (limb_list b)"

lemma nth_limb_list: "j < 4 \<Longrightarrow> limb_list w ! j = limb w j"
  by (simp add: limb_list_def)

lemma products_nth:
  "products a b ! 0 = limb a 0 * limb b 0"
  "products a b ! 1 = limb a 0 * limb b 1 + limb a 1 * limb b 0"
  "products a b ! 2 = limb a 0 * limb b 2 + limb a 1 * limb b 1 + limb a 2 * limb b 0"
  "products a b ! 3 = limb a 0 * limb b 3 + limb a 1 * limb b 2 + limb a 2 * limb b 1 + limb a 3 * limb b 0"
  "products a b ! 4 = limb a 1 * limb b 3 + limb a 2 * limb b 2 + limb a 3 * limb b 1"
  "products a b ! 5 = limb a 2 * limb b 3 + limb a 3 * limb b 2"
  "products a b ! 6 = limb a 3 * limb b 3"
  by (simp_all add: products_def limb_products_def nth_limb_list numeral_eq_Suc)

lemma products_bound: "k < 7 \<Longrightarrow> products a b ! k < 2 ^ 131"
proof -
  assume "k < 7"
  then have "k \<in> {0, 1, 2, 3, 4, 5, 6}" by auto
  moreover have ps: "limb a j * limb b l < 2 ^ 128" for j l by (rule prod64 [OF limb_bound limb_bound])
  note small = ps [of 0 0] ps [of 0 1] ps [of 1 0] ps [of 0 2] ps [of 1 1] ps [of 2 0] ps [of 0 3] ps [of 1 2] ps [of 2 1] ps [of 3 0]
    ps [of 1 3] ps [of 2 2] ps [of 3 1] ps [of 2 3] ps [of 3 2] ps [of 3 3]
  ultimately have "k = 0 \<or> k = 1 \<or> k = 2 \<or> k = 3 \<or> k = 4 \<or> k = 5 \<or> k = 6" by simp
  then show ?thesis by (elim disjE; hypsubst; unfold products_nth; insert small; simp)
qed

lemma limb_products_cells:
  "k < 7 \<Longrightarrow> limb_products (to_word_n 4 (assign_word32 a)) (to_word_n 4 (assign_word32 b)) ! k = (of_nat (products a b ! k) :: 'f :: field)"
proof -
  assume "k < 7"
  then have "k \<in> {0, 1, 2, 3, 4, 5, 6}" by auto
  then show ?thesis by (elim insertE emptyE; hypsubst; unfold to_word4_assign products_nth; simp add: limb_products_def numeral_eq_Suc)
qed

definition carry0 :: "Word \<Rightarrow> Word \<Rightarrow> nat \<Rightarrow> nat" where
  "carry0 a b c0 = (products a b ! 0 + products a b ! 1 * 2 ^ 64 + c0) div 2 ^ 128"

definition carry1 :: "Word \<Rightarrow> Word \<Rightarrow> nat \<Rightarrow> nat \<Rightarrow> nat" where
  "carry1 a b c0 c1 = (products a b ! 2 + products a b ! 3 * 2 ^ 64 + c1 + carry0 a b c0) div 2 ^ 128"

definition carry2 :: "Word \<Rightarrow> Word \<Rightarrow> nat \<Rightarrow> nat \<Rightarrow> nat" where
  "carry2 a b c0 c1 = (products a b ! 4 + products a b ! 5 * 2 ^ 64 + carry1 a b c0 c1) div 2 ^ 128"

lemma carry_bounds:
  assumes "c0 < 2 ^ 128" and "c1 < 2 ^ 128"
  shows "products a b ! 0 + products a b ! 1 * 2 ^ 64 + c0 < 2 ^ 198" and "carry0 a b c0 < 2 ^ 72"
    and "products a b ! 2 + products a b ! 3 * 2 ^ 64 + c1 + carry0 a b c0 < 2 ^ 198" and "carry1 a b c0 c1 < 2 ^ 72"
    and "products a b ! 4 + products a b ! 5 * 2 ^ 64 + carry1 a b c0 c1 < 2 ^ 198" and "carry2 a b c0 c1 < 2 ^ 72"
proof -
  note pb = products_bound [of 0 a b] products_bound [of 1 a b] products_bound [of 2 a b] products_bound [of 3 a b]
    products_bound [of 4 a b] products_bound [of 5 a b]
  have d: "L < 2 ^ 198 \<Longrightarrow> L div 2 ^ 128 < (2 :: nat) ^ 72" for L by (intro less_mult_imp_div_less) simp
  show b0: "products a b ! 0 + products a b ! 1 * 2 ^ 64 + c0 < 2 ^ 198" using pb assms by simp
  show c0: "carry0 a b c0 < 2 ^ 72" unfolding carry0_def by (rule d [OF b0])
  show b1: "products a b ! 2 + products a b ! 3 * 2 ^ 64 + c1 + carry0 a b c0 < 2 ^ 198" using pb assms c0 by simp
  show c1: "carry1 a b c0 c1 < 2 ^ 72" unfolding carry1_def by (rule d [OF b1])
  show b2: "products a b ! 4 + products a b ! 5 * 2 ^ 64 + carry1 a b c0 c1 < 2 ^ 198" using pb c1 by simp
  show "carry2 a b c0 c1 < 2 ^ 72" unfolding carry2_def by (rule d [OF b2])
qed

lemma product_halves:
  "lo (a * b + c) = (products a b ! 0 + products a b ! 1 * 2 ^ 64 + lo c) mod 2 ^ 128"
  "hi (a * b + c) = (products a b ! 2 + products a b ! 3 * 2 ^ 64 + hi c + carry0 a b (lo c)) mod 2 ^ 128"
  "unat a * unat b + unat c = unat (a * b + c) + (products a b ! 4 + 2 ^ 64 * products a b ! 5 + 2 ^ 128 * products a b ! 6 +
     carry1 a b (lo c) (hi c)) * 2 ^ 256"
  using mul_add_carries_eq(2,3,6) [of "a * b + c" a b c]
  unfolding lo_def hi_def carry0_def carry1_def products_nth by (simp_all only: refl)

text \<open>Nine bytes of a carry.\<close>

definition bytes9 :: "nat \<Rightarrow> 'f :: field list" where
  "bytes9 k = map (\<lambda>b. of_nat (unat b)) (le_bytes 9 k)"

lemma bytes9_facts:
  "length (bytes9 k :: 'f :: field list) = 9" "list_all byte_cell (bytes9 k :: 'f list)" "k < 2 ^ 72 \<Longrightarrow> expr_from_bytes (bytes9 k) = (of_nat k :: 'f)"
  by (simp add: bytes9_def, simp only: bytes9_def byte_cells_map, simp add: bytes9_def expr_of_bytes nat_of_le_le_bytes del: of_nat_unat)

lemma bytes9_cells:
  assumes "list_all byte_cell cells" and "length cells = 9"
  obtains k where "k < 2 ^ 72" and "cells = bytes9 k" and "expr_from_bytes cells = of_nat k"
proof -
  obtain bs :: "u8 list" where bs: "cells = map (\<lambda>b. of_nat (unat b)) bs" using assms(1) unfolding byte_cells_bytes by blast
  then have len: "length bs = 9" using assms(2) by simp
  have k: "nat_of_le bs < 2 ^ 72" using nat_of_le_bound [of bs] len by simp
  moreover have "cells = bytes9 (nat_of_le bs)" unfolding bytes9_def bs using le_bytes_nat_of_le [of bs] len by simp
  ultimately show ?thesis using that bytes9_facts(3) [OF k] by metis
qed

lemma bytes9_inject: "canonical (repr :: 'f :: field \<Rightarrow> nat) \<Longrightarrow> j < 2 ^ 72 \<Longrightarrow> k < 2 ^ 72 \<Longrightarrow> bytes9 j = (bytes9 k :: 'f list) \<longleftrightarrow> j = k"
  using bytes9_facts(3) [of j, where ?'f = 'f] bytes9_facts(3) [of k, where ?'f = 'f] canonicalD [of repr j k] by (auto simp del: of_nat_eq_iff)

lemma mul_add_words_ok:
  assumes can: "canonical (repr :: 'f :: field \<Rightarrow> nat)" and len: "length (fst g) = 9" "length (snd g) = 9"
  shows "rqs_ok tb 1 (mul_add_words_construct (assign_word32 a) (assign_word32 b) (assign_word32 c) (assign_word32 d) (g :: 'f list \<times> 'f list)) \<longleftrightarrow>
    d = a * b + c \<and> g = (bytes9 (carry0 a b (lo c)), bytes9 (carry1 a b (lo c) (hi c)))" (is "?ok \<longleftrightarrow> ?spec")
proof -
  obtain l h where g: "g = (l, h)" by (rule prod.exhaust)
  let ?X = "products a b ! 0 + products a b ! 1 * 2 ^ 64 + lo c" and ?Y = "products a b ! 2 + products a b ! 3 * 2 ^ 64 + hi c"
  note cb = carry_bounds [OF lo_hi_bound(1) [of c] lo_hi_bound(2) [of c], of a b]
  have ok: "?ok \<longleftrightarrow> list_all byte_cell l \<and> list_all byte_cell h \<and>
      of_nat ?X = of_nat (lo d) + expr_from_bytes l * (pow_of_two 128 :: 'f) \<and>
      of_nat ?Y + expr_from_bytes l = of_nat (hi d) + expr_from_bytes h * (pow_of_two 128 :: 'f)"
    by (simp add: g mul_add_words_construct_def Let_def limb_products_cells to_word_assign pow_of_two_def)
  have eqs: "of_nat ?X = of_nat (lo d) + of_nat k * (pow_of_two 128 :: 'f) \<and> of_nat ?Y + of_nat k = of_nat (hi d) + of_nat j * (pow_of_two 128 :: 'f) \<longleftrightarrow>
      d = a * b + c \<and> k = carry0 a b (lo c) \<and> j = carry1 a b (lo c) (hi c)" if "k < 2 ^ 72" "j < 2 ^ 72" for k j
  proof -
    have k1: "of_nat ?X = of_nat (lo d) + of_nat k * (pow_of_two 128 :: 'f) \<longleftrightarrow> k = carry0 a b (lo c) \<and> lo d = ?X mod 2 ^ 128"
      unfolding carry0_def using cb(1) lo_hi_bound(1) [of d] that by (intro half_equation [OF can]) simp_all
    have "of_nat (?Y + carry0 a b (lo c)) = of_nat (hi d) + of_nat j * (pow_of_two 128 :: 'f) \<longleftrightarrow>
        j = carry1 a b (lo c) (hi c) \<and> hi d = (?Y + carry0 a b (lo c)) mod 2 ^ 128"
      unfolding carry1_def using cb(3) lo_hi_bound(2) [of d] that by (intro half_equation [OF can]) simp_all
    then show ?thesis using k1 unfolding lo_hi_inject [of d] product_halves by auto
  qed
  show ?thesis
  proof
    assume ?ok
    then have h: "list_all byte_cell l" "list_all byte_cell h" using ok by simp_all
    from h(1) len(1) g obtain k where k: "k < 2 ^ 72" "l = bytes9 k" "expr_from_bytes l = of_nat k" by (auto elim: bytes9_cells)
    from h(2) len(2) g obtain j where j: "j < 2 ^ 72" "h = bytes9 j" "expr_from_bytes h = of_nat j" by (auto elim: bytes9_cells)
    show ?spec using \<open>?ok\<close> ok eqs [OF k(1) j(1)] k j g by simp
  next
    assume s: ?spec
    then have lh: "l = bytes9 (carry0 a b (lo c))" "h = bytes9 (carry1 a b (lo c) (hi c))" using g by simp_all
    note e = bytes9_facts(3) [OF cb(2), where ?'f = 'f] bytes9_facts(3) [OF cb(4), where ?'f = 'f]
    have "d = a * b + c" using s by simp
    then show ?ok unfolding ok lh e using eqs [OF cb(2) cb(4)] bytes9_facts(2) by blast
  qed
qed

lemma mul_add_words_overflow_ok:
  assumes can: "canonical (repr :: 'f :: field \<Rightarrow> nat)"
  shows "mul_add_words_overflow (assign_word32 a) (assign_word32 b) (l, bytes9 (carry1 a b (lo c) (hi c))) = (0 :: 'f) \<longleftrightarrow>
    unat a * unat b + unat c < 2 ^ 256"
proof -
  let ?k = "carry1 a b (lo c) (hi c)"
  let ?s = "?k + limb a 1 * limb b 3 + limb a 2 * limb b 2 + limb a 3 * limb b 1 + limb a 2 * limb b 3 + limb a 3 * limb b 2 + limb a 3 * limb b 3"
  have k: "?k < 2 ^ 72" by (rule carry_bounds(4) [OF lo_hi_bound(1) lo_hi_bound(2)])
  have "mul_add_words_overflow (assign_word32 a) (assign_word32 b) (l, bytes9 ?k) = (of_nat ?s :: 'f)"
    using bytes9_facts(3) [OF k, where ?'f = 'f] by (simp add: mul_add_words_overflow_def Let_def to_word4_assign numeral_2_eq_2)
  moreover have "?s < 2 ^ 253"
    using k products_bound [of 4 a b] products_bound [of 5 a b] products_bound [of 6 a b] by (simp add: products_nth)
  ultimately have "mul_add_words_overflow (assign_word32 a) (assign_word32 b) (l, bytes9 ?k) = (0 :: 'f) \<longleftrightarrow> ?s = 0"
    using canonicalD [OF can, of ?s 0] by simp
  also have "\<dots> \<longleftrightarrow> products a b ! 4 + 2 ^ 64 * products a b ! 5 + 2 ^ 128 * products a b ! 6 + ?k = 0"
    by (auto simp: products_nth)
  also have "\<dots> \<longleftrightarrow> unat a * unat b + unat c < 2 ^ 256"
    unfolding product_halves(3) using unsigned_less [of "a * b + c", where ?'a = nat] by (cases "products a b ! 4 + 2 ^ 64 * products a b ! 5 + 2 ^ 128 * products a b ! 6 + ?k") auto
  finally show ?thesis .
qed

section \<open>The assigned carries\<close>

lemma foldE_u256_add:
  "unat acc + sum_list (map unat ws) < 2 ^ 256 \<Longrightarrow>
     foldE (\<lambda>w acc. u256_add acc w) ws acc = (Inr (of_nat (unat acc + sum_list (map unat ws))) :: (Word, 'e) result)"
proof (induction ws arbitrary: acc)
  case (Cons w ws)
  have "unat (acc + w) = unat acc + unat w" using Cons.prems by (simp add: unat_word_ariths)
  then show ?case using Cons.prems Cons.IH [of "acc + w"] by (simp add: u256_add_def add.assoc)
qed simp

lemma limb_carry_small:
  fixes ps qs :: "(Word \<times> Word) list" and ws :: "Word list"
  defines "P \<equiv> sum_list (map (\<lambda>(v, w). unat v * unat w) ps)" and "Q \<equiv> sum_list (map (\<lambda>(v, w). unat v * unat w) qs)"
  defines "T \<equiv> P + Q * 2 ^ 64 + sum_list (map unat ws)"
  assumes T: "T < 2 ^ 256" and half: "half = of_nat (T mod 2 ^ 128)"
  shows "limb_carry ps qs ws half = (Inr (of_nat (T div 2 ^ 128)) :: (Word, 'e) result)"
proof -
  have b: "P < 2 ^ 256" "Q < 2 ^ 256" "Q * 2 ^ 64 < 2 ^ 256" "P + Q * 2 ^ 64 < 2 ^ 256" using T by (simp_all add: T_def)
  have p: "u256_products 0 ps = (Inr (of_nat P) :: (Word, 'e) result)" "u256_products 0 qs = (Inr (of_nat Q) :: (Word, 'e) result)"
    using u256_products_small [of 0 ps] u256_products_small [of 0 qs] b by (simp_all add: P_def Q_def)
  have push: "push_bit 64 (of_nat Q :: Word) = of_nat (Q * 2 ^ 64)" by (simp add: push_bit_eq_mult)
  have "unat (of_nat P :: Word) + sum_list (map unat (of_nat (Q * 2 ^ 64) # ws)) = T"
    using unat_small [OF b(1)] unat_small [OF b(3)] by (simp add: T_def)
  then have s: "foldE (\<lambda>w acc. u256_add acc w) (of_nat (Q * 2 ^ 64) # ws) (of_nat P) = (Inr (of_nat T) :: (Word, 'e) result)"
    using foldE_u256_add [of "of_nat P" "of_nat (Q * 2 ^ 64) # ws"] T by simp
  have m: "T mod 2 ^ 128 < 2 ^ 256" using T by (meson le_less_trans mod_less_eq_dividend)
  then have "half \<le> of_nat T" unfolding half word_le_nat_alt unat_small [OF T] unat_small [OF m] by simp
  moreover have "of_nat T - half = of_nat (T - T mod 2 ^ 128)" unfolding half using mod_less_eq_dividend of_nat_diff by metis
  ultimately have "drop_bit 128 (saturating_sub (of_nat T) half) = of_nat (T div 2 ^ 128)"
    unfolding saturating_sub_def using carry_step [OF T] by (simp only: if_True)
  then show ?thesis by (simp only: limb_carry_def p bindE_def sum.case push s)
qed

lemma mul_add_words_assign_eq:
  assumes d: "d = a * b + c"
  shows "mul_add_words_assign a b c d = (Inr (bytes9 (carry0 a b (lo c)), bytes9 (carry1 a b (lo c) (hi c))) :: ('f :: field list \<times> 'f list, 'e) result)"
proof -
  let ?l = "\<lambda>w j. of_nat (limb w j) :: Word"
  have l: "unat (?l w j) = limb w j" for w j using limb_bound [of w j] by (intro unat_small) simp
  have nth: "split_u256_limb64 w ! 0 = ?l w 0" "split_u256_limb64 w ! 1 = ?l w 1" "split_u256_limb64 w ! 2 = ?l w 2" "split_u256_limb64 w ! 3 = ?l w 3" for w
    by (simp_all add: split_limbs numeral_2_eq_2)
  have halves: "split_u256 w = (of_nat (lo w), of_nat (hi w))" for w by (simp add: split_halves lo_def hi_def)
  have uh: "unat (of_nat (lo w) :: Word) = lo w" "unat (of_nat (hi w) :: Word) = hi w" for w
    using lo_hi_bound [of w] by (intro unat_small; simp)+
  note sums = list.map sum_list.Cons sum_list.Nil prod.case add_0_right
  have big: "n < 2 ^ 198 \<Longrightarrow> n < 2 ^ 256" for n :: nat by simp
  note cb = carry_bounds [OF lo_hi_bound(1) [of c] lo_hi_bound(2) [of c], of a b]
  have c0: "limb_carry [(?l a 0, ?l b 0)] [(?l a 0, ?l b 1), (?l a 1, ?l b 0)] [of_nat (lo c)] (of_nat (lo d)) = (Inr (of_nat (carry0 a b (lo c))) :: (Word, 'e) result)"
  proof -
    have T: "sum_list (map (\<lambda>(v, w). unat v * unat w) [(?l a 0, ?l b 0)]) + sum_list (map (\<lambda>(v, w). unat v * unat w) [(?l a 0, ?l b 1), (?l a 1, ?l b 0)]) * 2 ^ 64 +
        sum_list (map unat [of_nat (lo c) :: Word]) = products a b ! 0 + products a b ! 1 * 2 ^ 64 + lo c"
      unfolding products_nth by (simp only: sums l uh)
    have "of_nat (lo d) = (of_nat ((products a b ! 0 + products a b ! 1 * 2 ^ 64 + lo c) mod 2 ^ 128) :: Word)" unfolding d product_halves(1) ..
    then show ?thesis unfolding carry0_def
      using limb_carry_small [of "[(?l a 0, ?l b 0)]" "[(?l a 0, ?l b 1), (?l a 1, ?l b 0)]" "[of_nat (lo c)]", unfolded T, OF big [OF cb(1)]] by blast
  qed
  have u0: "unat (of_nat (carry0 a b (lo c)) :: Word) = carry0 a b (lo c)" "unat (of_nat (carry1 a b (lo c) (hi c)) :: Word) = carry1 a b (lo c) (hi c)"
    using cb(2,4) by (intro unat_small; simp)+
  have c1: "limb_carry [(?l a 0, ?l b 2), (?l a 1, ?l b 1), (?l a 2, ?l b 0)] [(?l a 0, ?l b 3), (?l a 1, ?l b 2), (?l a 2, ?l b 1), (?l a 3, ?l b 0)]
      [of_nat (hi c), of_nat (carry0 a b (lo c))] (of_nat (hi d)) = (Inr (of_nat (carry1 a b (lo c) (hi c))) :: (Word, 'e) result)"
  proof -
    let ?p = "[(?l a 0, ?l b 2), (?l a 1, ?l b 1), (?l a 2, ?l b 0)]" and ?q = "[(?l a 0, ?l b 3), (?l a 1, ?l b 2), (?l a 2, ?l b 1), (?l a 3, ?l b 0)]"
    have T: "sum_list (map (\<lambda>(v, w). unat v * unat w) ?p) + sum_list (map (\<lambda>(v, w). unat v * unat w) ?q) * 2 ^ 64 +
        sum_list (map unat [of_nat (hi c), of_nat (carry0 a b (lo c)) :: Word]) = products a b ! 2 + products a b ! 3 * 2 ^ 64 + hi c + carry0 a b (lo c)"
      unfolding products_nth by (simp only: sums l uh u0 add.assoc)
    have "of_nat (hi d) = (of_nat ((products a b ! 2 + products a b ! 3 * 2 ^ 64 + hi c + carry0 a b (lo c)) mod 2 ^ 128) :: Word)"
      unfolding d product_halves(2) ..
    then show ?thesis unfolding carry1_def
      using limb_carry_small [of ?p ?q "[of_nat (hi c), of_nat (carry0 a b (lo c))]", unfolded T, OF big [OF cb(3)]] by blast
  qed
  have b9: "carry_bytes 9 (of_nat k) = (bytes9 k :: 'f list)" if "unat (of_nat k :: Word) = k" for k
    using take_drop_le_bytes [of 0 9 32 k] by (simp add: carry_bytes_def bytes9_def that)
  show ?thesis unfolding mul_add_words_assign_def Let_def nth halves prod.case by (simp only: c0 c1 bindE_def sum.case b9 [OF u0(1)] b9 [OF u0(2)])
qed

lemma add_words_assign_eq:
  assumes ws: "ws \<noteq> []" "length ws \<le> 2 ^ 64" and s: "s = sum_list ws"
  shows "add_words_assign False ws s =
    (Inr (of_nat (sum_list (map lo ws) div 2 ^ 128), of_nat (sum_list (map unat ws) div 2 ^ 256)) :: ('f :: field \<times> 'f, 'e) result)"
proof -
  let ?X = "sum_list (map lo ws)" and ?Y = "sum_list (map hi ws)" and ?B = "2 ^ 128 :: nat"
  let ?Z = "?Y + ?X div ?B"
  have "length ws * ?B \<le> 2 ^ 192" using mult_right_mono [OF ws(2), of ?B] by simp
  then have X: "?X \<le> 2 ^ 192" "?Y \<le> 2 ^ 192" using sum_bound [of ws lo ?B] sum_bound [of ws hi ?B] lo_hi_bound by fastforce+
  have "?X div ?B \<le> 2 ^ 192" using X(1) div_le_dividend le_trans by blast
  then have Z: "?Z \<le> 2 ^ 193" using X(2) by simp
  have b: "?X < 2 ^ 256" "?Y < 2 ^ 256" "?Z < 2 ^ 256" "?X div ?B < 2 ^ 256"
    using X Z \<open>?X div ?B \<le> 2 ^ 192\<close> by (simp_all add: le_less_trans)
  have fst: "map fst (map split_u256 ws) = map (\<lambda>w. of_nat (lo w)) ws" "map snd (map split_u256 ws) = map (\<lambda>w. of_nat (hi w)) ws"
    by (simp_all add: split_halves lo_def hi_def)
  have small: "lo w < 2 ^ 256" "hi w < 2 ^ 256" for w using lo_hi_bound [of w] by simp_all
  have u: "map unat (map (\<lambda>w. of_nat (lo w) :: Word) ws) = map lo ws" "map unat (map (\<lambda>w. of_nat (hi w) :: Word) ws) = map hi ws"
    using unat_small [OF small(1)] unat_small [OF small(2)] by simp_all
  have f: "foldE (\<lambda>w acc. u256_add acc w) (map (\<lambda>w. of_nat (lo w)) ws) 0 = (Inr (of_nat ?X) :: (Word, 'e) result)"
    "foldE (\<lambda>w acc. u256_add acc w) (map (\<lambda>w. of_nat (hi w)) ws) 0 = (Inr (of_nat ?Y) :: (Word, 'e) result)"
    using foldE_u256_add [of 0 "map (\<lambda>w. of_nat (lo w)) ws"] foldE_u256_add [of 0 "map (\<lambda>w. of_nat (hi w)) ws"] b unfolding u by simp_all
  have "unat s = sum_list (map unat ws) mod 2 ^ 256" unfolding s by (induction ws) (simp_all add: unat_word_ariths mod_simps)
  then have h: "lo s = ?X mod ?B" "hi s = ?Z mod ?B" unfolding sum_halves by (simp_all only: halves_of_sum(1))
  have sub: "u256_sub (of_nat T) (of_nat (T mod ?B)) = (Inr (of_nat (T - T mod ?B)) :: (Word, 'e) result)" if "T < 2 ^ 256" for T
  proof -
    have m: "T mod ?B < 2 ^ 256" using that by (meson le_less_trans mod_less_eq_dividend)
    have "(of_nat (T mod ?B) :: Word) \<le> of_nat T" unfolding word_le_nat_alt unat_small [OF that] unat_small [OF m] by simp
    moreover have "(of_nat T - of_nat (T mod ?B) :: Word) = of_nat (T - T mod ?B)" using mod_less_eq_dividend of_nat_diff by metis
    ultimately show ?thesis by (simp only: u256_sub_def if_True)
  qed
  have add: "u256_add (of_nat ?Y) (of_nat (?X div ?B)) = (Inr (of_nat ?Z) :: (Word, 'e) result)" using u256_add_of_nat b(3) by blast
  have "split_u256 s = (of_nat (?X mod ?B), of_nat (?Z mod ?B))" unfolding h [symmetric] by (simp add: split_halves lo_def hi_def)
  moreover have "?Z div ?B < 2 ^ 256" using b(3) by (meson div_le_dividend le_less_trans)
  moreover have "sum_list (map unat ws) div 2 ^ 256 = ?Z div ?B" unfolding sum_halves halves_of_sum(2) ..
  ultimately show ?thesis
    unfolding add_words_assign_def Let_def fst
    by (simp only: f bindE_def sum.case prod.case sub [OF b(1)] carry_step [OF b(1)] if_False add sub [OF b(3)] carry_step [OF b(3)]
        unat_small [OF b(4)] unat_small)
qed

end
