(* ===== verification/Step_Gadgets.thy ===== *)
theory Step_Gadgets
  imports Mul_Gadgets
begin

text \<open>
  Execution gadgets of the EVM circuit, \<^verbatim>\<open>zkevm-circuits/src/evm_circuit/execution/\<close>, and the gadgets they share, of
  \<^verbatim>\<open>zkevm-circuits/src/evm_circuit/util/common_gadget.rs\<close>. The \<open>configure\<close> of a gadget is a function of the values of its cells
  that extends the constraint builder, and its \<open>assign_exec_step\<close> gives the cells for a step of the execution and the rows of the
  block, or the error of a row that is not there. Cells are in the order in which \<open>configure\<close> queries them; the opcode and the
  bytes of the remaining gas, which \<open>SameContextGadget\<close> owns, come first.
\<close>

section \<open>Shared gadgets\<close>

definition opcode_expr :: "OpcodeId \<Rightarrow> 'f :: field" where
  "opcode_expr op = of_nat (unat (as_u64 op))"

definition gas_expr :: "OpcodeId \<Rightarrow> 'f :: field" where
  "gas_expr op = of_nat (unat (constant_gas_cost op))"

type_synonym 'f SameContextGadget = "'f \<times> 'f list"

definition same_context_construct :: "'f :: field SameContextGadget \<Rightarrow> 'f StepStateTransition \<Rightarrow> 'f EVMConstraintBuilder \<Rightarrow> 'f EVMConstraintBuilder" where
  "same_context_construct g st cb =
     (case g of (opcode, sufficient_gas_left) \<Rightarrow>
        let cb = opcode_lookup opcode 1 cb;
            cb = cb_add_lookup (LK_Fixed (of_nat (fixed_tag_u64 FT_ResponsibleOpcode))
              [of_nat (execution_state_u64 (cb_execution_state cb)), opcode, 0]) cb;
            cb = cb_add (range_check_construct (ss_gas_left (cb_next cb)) sufficient_gas_left) cb
        in require_step_state_transition st cb)"

definition step_opcode :: "ExecStep \<Rightarrow> OpcodeId res" where
  "step_opcode step = ok_or (es_opcode step) (Panic ''called `Option::unwrap()` on a `None` value'')"

definition same_context_assign :: "('f :: field \<Rightarrow> nat) \<Rightarrow> ExecStep \<Rightarrow> 'f SameContextGadget res" where
  "same_context_assign repr step =
     bindE (step_opcode step) (\<lambda>opcode. bindE (u64_sub (es_gas_left step) (es_gas_cost step)) (\<lambda>gas.
     Inr (opcode_expr opcode, range_check_assign repr 8 (of_nat (unat gas)))))"

definition get_rws :: "RwMap \<Rightarrow> ExecStep \<Rightarrow> usize \<Rightarrow> Rw res" where
  "get_rws rws step index = bindE (rw_index step index) (rw_map_index rws)"

definition rws_stack_value :: "RwMap \<Rightarrow> ExecStep \<Rightarrow> usize \<Rightarrow> Word res" where
  "rws_stack_value rws step index = bindE (get_rws rws step index) stack_value"

text \<open>\<open>IntDecomposition\<close>: a number of bytes, its value, and its word of two halves.\<close>

definition int_expr :: "'f :: field list \<Rightarrow> 'f" where
  "int_expr limbs = expr_from_bytes limbs"

definition int_to_word :: "'f :: field list \<Rightarrow> 'f \<times> 'f" where
  "int_to_word limbs = (expr_from_bytes (take 16 limbs), if length limbs \<le> 16 then 0 else expr_from_bytes (drop 16 limbs))"

definition int_assign :: "nat \<Rightarrow> u8 list \<Rightarrow> 'f :: field list res" where
  "int_assign n bytes =
     (if length bytes < n \<or> \<not> list_all (\<lambda>byte. byte = 0) (drop n bytes) then Inl (Panic ''assertion failed'')
      else Inr (map (\<lambda>byte. of_nat (unat byte)) (take n bytes)))"

text \<open>A word whose upper bytes may be zero.\<close>

definition word_byte_range_construct :: "nat \<Rightarrow> 'f :: field list \<Rightarrow> 'f \<Rightarrow> 'f Requirement list" where
  "word_byte_range_construct valid_bytes original not_overflow =
     query_bytes original @ is_zero_construct (sum_expr (drop valid_bytes original)) not_overflow"

definition word_byte_range_not_overflow :: "nat \<Rightarrow> 'f :: field list \<Rightarrow> 'f \<Rightarrow> 'f" where
  "word_byte_range_not_overflow valid_bytes original not_overflow = is_zero_expression (sum_expr (drop valid_bytes original)) not_overflow"

definition word_byte_range_valid_value :: "nat \<Rightarrow> 'f :: field list \<Rightarrow> 'f" where
  "word_byte_range_valid_value valid_bytes original = expr_from_bytes (take valid_bytes original)"

definition word_byte_range_assign :: "nat \<Rightarrow> Word \<Rightarrow> ('f :: field list \<times> 'f) \<times> bool" where
  "word_byte_range_assign valid_bytes original =
     (let overflow_hi = sum_list (map unat (drop valid_bytes (le_bytes 32 (unat original))))
      in ((assign_word32 original, fst (is_zero_gadget_assign (of_nat overflow_hi))), overflow_hi = 0))"

section \<open>Arithmetic\<close>

definition delta_step :: "'f :: field \<Rightarrow> 'f \<Rightarrow> 'f \<Rightarrow> OpcodeId \<Rightarrow> 'f StepStateTransition" where
  "delta_step rwc pc sp op = transition_default\<lparr>st_rw_counter := Delta rwc, st_program_counter := Delta pc, st_stack_pointer := Delta sp,
     st_gas_left := Delta (- gas_expr op)\<rparr>"

definition add_sub_configure ::
  "'f :: field SameContextGadget \<Rightarrow> 'f list \<Rightarrow> 'f list \<Rightarrow> 'f list \<Rightarrow> 'f \<times> 'f \<Rightarrow> 'f \<Rightarrow> 'f EVMConstraintBuilder \<Rightarrow> 'f EVMConstraintBuilder" where
  "add_sub_configure same_context a b c add_words is_sub cb =
     (let opcode = fst same_context;
          cb = cb_add (query_bytes a @ query_bytes b @ query_bytes c) cb;
          cb = cb_add (add_words_construct False [a, b] c add_words) cb;
          cb = cb_add (pair_select_construct opcode (opcode_expr (Arith SUB)) (opcode_expr (Arith ADD)) is_sub) cb;
          cb = stack_pop (word_select is_sub (to_word c) (to_word a)) cb;
          cb = stack_pop (to_word b) cb;
          cb = stack_push (word_select is_sub (to_word a) (to_word c)) cb
      in same_context_construct same_context (delta_step 3 1 1 (Arith ADD)) cb)"

definition add_sub_assign :: "('f :: field \<Rightarrow> nat) \<Rightarrow> RwMap \<Rightarrow> ExecStep \<Rightarrow>
    ('f SameContextGadget \<times> ('f list \<times> 'f list \<times> 'f list) \<times> ('f \<times> 'f) \<times> 'f) res" where
  "add_sub_assign repr rws step =
     bindE (same_context_assign repr step) (\<lambda>same_context.
     bindE (step_opcode step) (\<lambda>opcode.
     bindE (mapE (rws_stack_value rws step) (if opcode = Arith SUB then [2, 1, 0] else [0, 1, 2])) (\<lambda>abc.
     bindE (add_words_assign False [abc ! 0, abc ! 1] (abc ! 2)) (\<lambda>add_words.
     Inr (same_context, (assign_word32 (abc ! 0), assign_word32 (abc ! 1), assign_word32 (abc ! 2)), add_words,
       pair_select_assign (opcode_expr opcode) (opcode_expr (Arith SUB)) (opcode_expr (Arith ADD)))))))"

definition mul_div_mod_configure ::
  "'f :: field SameContextGadget \<Rightarrow> 'f list \<Rightarrow> 'f list \<Rightarrow> 'f list \<Rightarrow> 'f list \<Rightarrow> 'f list \<times> 'f list \<Rightarrow> 'f \<times> 'f \<Rightarrow>
     'f Comparison \<times> 'f \<times> 'f list \<Rightarrow> 'f EVMConstraintBuilder \<Rightarrow> 'f EVMConstraintBuilder" where
  "mul_div_mod_configure same_context a b c d mul_add_words divisor_is_zero lt_word cb =
     (let opcode = fst same_context;
          MUL_E = opcode_expr (Arith MUL); DIV_E = opcode_expr (Arith DIV); MOD_E = opcode_expr (Arith MOD);
          is_mul = (DIV_E - opcode) * (MOD_E - opcode) * inverse 8;
          is_div = (opcode - MUL_E) * (MOD_E - opcode) * inverse 4;
          is_mod = (opcode - MUL_E) * (opcode - DIV_E) * inverse 8;
          cb = cb_add (query_bytes a @ query_bytes b @ query_bytes c @ query_bytes d) cb;
          cb = cb_add (mul_add_words_construct a b c d mul_add_words) cb;
          cb = cb_add (is_zero_word_construct (to_word b) divisor_is_zero) cb;
          is_zero = is_zero_word_expr (to_word b) divisor_is_zero;
          cb = cb_add (lt_word_construct (to_word c) (to_word b) lt_word) cb;
          cb = stack_pop (word_select is_mul (to_word a) (to_word d)) cb;
          cb = stack_pop (to_word b) cb;
          cb = stack_push (add_unchecked (add_unchecked (mul_selector (to_word d) is_mul)
                 (mul_selector (to_word a) (is_div * (1 - is_zero)))) (mul_selector (to_word c) (is_mod * (1 - is_zero)))) cb;
          cb = cb_add (require_all (require_zero_word (mul_selector (to_word c) is_mul))) cb;
          cb = condition (1 - is_mul) (cb_add (require_all (
                 [(1 - lt_word_expr lt_word) * (1 - is_zero)] @ require_zero (mul_add_words_overflow a b mul_add_words)))) cb
      in same_context_construct same_context (delta_step 3 1 1 (Arith MUL)) cb)"

definition mul_div_mod_words :: "OpcodeId \<Rightarrow> Word \<Rightarrow> Word \<Rightarrow> Word \<Rightarrow> (Word \<times> Word \<times> Word \<times> Word) res" where
  "mul_div_mod_words opcode pop1 pop2 push =
     (if opcode = Arith MUL then Inr (pop1, pop2, 0, push)
      else if opcode = Arith DIV then bindE (u256_mul push pop2) (\<lambda>p. bindE (u256_sub pop1 p) (\<lambda>r. Inr (push, pop2, r, pop1)))
      else if opcode = Arith MOD then Inr (if pop2 = 0 then 0 else pop1 div pop2, pop2, if pop2 = 0 then pop1 else push, pop1)
      else unreachable)"

definition mul_div_mod_assign :: "('f :: field \<Rightarrow> nat) \<Rightarrow> RwMap \<Rightarrow> ExecStep \<Rightarrow>
    ('f SameContextGadget \<times> ('f list \<times> 'f list \<times> 'f list \<times> 'f list) \<times> ('f list \<times> 'f list) \<times> ('f \<times> 'f) \<times> 'f Comparison \<times> 'f \<times> 'f list) res" where
  "mul_div_mod_assign repr rws step =
     bindE (same_context_assign repr step) (\<lambda>same_context.
     bindE (mapE (rws_stack_value rws step) [0, 1, 2]) (\<lambda>vs.
     bindE (step_opcode step) (\<lambda>opcode.
     bindE (mul_div_mod_words opcode (vs ! 0) (vs ! 1) (vs ! 2)) (\<lambda>(a, b, c, d).
     bindE (mul_add_words_assign a b c d) (\<lambda>mul_add_words.
     Inr (same_context, (assign_word32 a, assign_word32 b, assign_word32 c, assign_word32 d), mul_add_words,
       fst (is_zero_word_assign (word_from_u256 b)), lt_word_assign repr c b))))))"

section \<open>Comparison and bits\<close>

definition comparator_configure ::
  "'f :: field SameContextGadget \<Rightarrow> 'f \<times> 'f \<Rightarrow> 'f \<times> 'f \<Rightarrow> 'f \<Rightarrow> 'f \<Rightarrow> 'f Comparison \<times> 'f Comparison \<Rightarrow> 'f \<Rightarrow>
     'f EVMConstraintBuilder \<Rightarrow> 'f EVMConstraintBuilder" where
  "comparator_configure same_context a b is_eq is_gt word_comparison res cb =
     (let opcode = fst same_context;
          cb = cb_add (is_equal_construct opcode (opcode_expr (Arith EQ)) is_eq) cb;
          cb = cb_add (is_equal_construct opcode (opcode_expr (Arith GT)) is_gt) cb;
          is_eq_expr = is_zero_expression (opcode - opcode_expr (Arith EQ)) is_eq;
          is_gt_expr = is_zero_expression (opcode - opcode_expr (Arith GT)) is_gt;
          cb = cb_add (cmp_words_construct a b word_comparison) cb;
          cb = cb_add (copy_cell res (select_expr is_eq_expr (cmp_words_eq word_comparison) (cmp_words_lt word_comparison))) cb;
          cb = stack_pop (word_select is_gt_expr b a) cb;
          cb = stack_pop (word_select is_gt_expr a b) cb;
          cb = stack_push (from_lo_unchecked res) cb
      in same_context_construct same_context (delta_step 3 1 1 (Arith LT)) cb)"

definition comparator_assign :: "('f :: field \<Rightarrow> nat) \<Rightarrow> RwMap \<Rightarrow> ExecStep \<Rightarrow>
    ('f SameContextGadget \<times> ('f \<times> 'f) \<times> ('f \<times> 'f) \<times> 'f \<times> 'f \<times> ('f Comparison \<times> 'f Comparison) \<times> 'f) res" where
  "comparator_assign repr rws step =
     bindE (same_context_assign repr step) (\<lambda>same_context.
     bindE (step_opcode step) (\<lambda>opcode.
     let (is_eq, _) = is_equal_assign (opcode_expr opcode) (opcode_expr (Arith EQ));
         (is_gt, gt) = is_equal_assign (opcode_expr opcode) (opcode_expr (Arith GT))
     in bindE (mapE (rws_stack_value rws step) (if gt = 1 then [1, 0] else [0, 1])) (\<lambda>ab.
        bindE (rws_stack_value rws step 2) (\<lambda>res.
        Inr (same_context, word_from_u256 (ab ! 0), word_from_u256 (ab ! 1), is_eq, is_gt, cmp_words_assign repr (ab ! 0) (ab ! 1),
          of_nat (unat (low_u64 res)))))))"

definition is_zero_configure :: "'f :: field SameContextGadget \<Rightarrow> 'f \<times> 'f \<Rightarrow> 'f \<times> 'f \<Rightarrow> 'f EVMConstraintBuilder \<Rightarrow> 'f EVMConstraintBuilder" where
  "is_zero_configure same_context v is_zero_word cb =
     (let cb = cb_add (is_zero_word_construct v is_zero_word) cb;
          cb = stack_pop v cb;
          cb = stack_push (from_lo_unchecked (is_zero_word_expr v is_zero_word)) cb
      in same_context_construct same_context (delta_step 2 1 0 (Arith ISZERO)) cb)"

definition is_zero_step_assign :: "('f :: field \<Rightarrow> nat) \<Rightarrow> RwMap \<Rightarrow> ExecStep \<Rightarrow> ('f SameContextGadget \<times> ('f \<times> 'f) \<times> ('f \<times> 'f)) res" where
  "is_zero_step_assign repr rws step =
     bindE (same_context_assign repr step) (\<lambda>same_context. bindE (rws_stack_value rws step 0) (\<lambda>v.
     Inr (same_context, word_from_u256 v, fst (is_zero_word_assign (word_from_u256 v)))))"

definition bitwise_configure :: "'f :: field SameContextGadget \<Rightarrow> 'f list \<Rightarrow> 'f list \<Rightarrow> 'f list \<Rightarrow> 'f EVMConstraintBuilder \<Rightarrow> 'f EVMConstraintBuilder" where
  "bitwise_configure same_context a b c cb =
     (let opcode = fst same_context;
          cb = cb_add (query_bytes a @ query_bytes b @ query_bytes c) cb;
          cb = stack_pop (to_word a) cb;
          cb = stack_pop (to_word b) cb;
          cb = stack_push (to_word c) cb;
          tag = of_nat (fixed_tag_u64 FT_BitwiseAnd) + (opcode - opcode_expr (Arith AND));
          cb = fold (\<lambda>idx. cb_add_lookup (LK_Fixed tag [a ! idx, b ! idx, c ! idx])) [0..<32] cb
      in same_context_construct same_context (delta_step 3 1 1 (Arith AND)) cb)"

definition bitwise_assign :: "('f :: field \<Rightarrow> nat) \<Rightarrow> RwMap \<Rightarrow> ExecStep \<Rightarrow> ('f SameContextGadget \<times> 'f list \<times> 'f list \<times> 'f list) res" where
  "bitwise_assign repr rws step =
     bindE (same_context_assign repr step) (\<lambda>same_context. bindE (mapE (rws_stack_value rws step) [0, 1, 2]) (\<lambda>abc.
     Inr (same_context, assign_word32 (abc ! 0), assign_word32 (abc ! 1), assign_word32 (abc ! 2))))"

definition not_configure :: "'f :: field SameContextGadget \<Rightarrow> 'f list \<Rightarrow> 'f list \<Rightarrow> 'f EVMConstraintBuilder \<Rightarrow> 'f EVMConstraintBuilder" where
  "not_configure same_context input output cb =
     (let cb = cb_add (query_bytes input @ query_bytes output) cb;
          cb = stack_pop (to_word input) cb;
          cb = stack_push (to_word output) cb;
          cb = fold (\<lambda>(i, out). cb_add_lookup (LK_Fixed (of_nat (fixed_tag_u64 FT_BitwiseXor)) [i, out, 255])) (zip input output) cb
      in same_context_construct same_context (delta_step 2 1 0 (Arith NOT)) cb)"

definition not_assign :: "('f :: field \<Rightarrow> nat) \<Rightarrow> RwMap \<Rightarrow> ExecStep \<Rightarrow> ('f SameContextGadget \<times> 'f list \<times> 'f list) res" where
  "not_assign repr rws step =
     bindE (same_context_assign repr step) (\<lambda>same_context. bindE (mapE (rws_stack_value rws step) [0, 1]) (\<lambda>vs.
     Inr (same_context, assign_word32 (vs ! 0), assign_word32 (vs ! 1))))"

definition byte_configure :: "'f :: field SameContextGadget \<Rightarrow> 'f list \<Rightarrow> 'f list \<Rightarrow> 'f \<Rightarrow> 'f list \<Rightarrow> 'f EVMConstraintBuilder \<Rightarrow> 'f EVMConstraintBuilder" where
  "byte_configure same_context index v is_msb_sum_zero is_byte_selected cb =
     (let cb = cb_add (query_bytes index @ query_bytes v) cb;
          msb_sum = sum_expr (take 31 (drop 1 index));
          cb = cb_add (is_zero_construct msb_sum is_msb_sum_zero) cb;
          cb = cb_add (concat (map (\<lambda>idx. is_equal_construct (index ! 0) (of_nat (31 - idx)) (is_byte_selected ! idx)) [0..<32])) cb;
          selected = map (\<lambda>idx. is_zero_expression (index ! 0 - of_nat (31 - idx)) (is_byte_selected ! idx)) [0..<32];
          selected_byte = foldl (\<lambda>acc (cell, is_selected). acc + is_selected * is_zero_expression msb_sum is_msb_sum_zero * cell) 0 (zip v selected);
          cb = stack_pop (to_word index) cb;
          cb = stack_pop (to_word v) cb;
          cb = stack_push (from_lo_unchecked selected_byte) cb
      in same_context_construct same_context (delta_step 3 1 1 (Arith BYTE)) cb)"

text \<open>\<open>sum::value\<close> adds the bytes in the field.\<close>

definition byte_assign :: "('f :: field \<Rightarrow> nat) \<Rightarrow> RwMap \<Rightarrow> ExecStep \<Rightarrow> ('f SameContextGadget \<times> 'f list \<times> 'f list \<times> 'f \<times> 'f list) res" where
  "byte_assign repr rws step =
     bindE (same_context_assign repr step) (\<lambda>same_context.
     bindE (rws_stack_value rws step 0) (\<lambda>index.
     bindE (rws_stack_value rws step 1) (\<lambda>v.
     let index_bytes = le_bytes 32 (unat index)
     in Inr (same_context, assign_word32 index, assign_word32 v,
          fst (is_zero_gadget_assign (sum_expr (map (\<lambda>byte. of_nat (unat byte)) (take 31 (drop 1 index_bytes))))),
          map (\<lambda>i. fst (is_equal_assign (of_nat (unat (index_bytes ! 0))) (of_nat (31 - i)))) [0..<32]))))"

section \<open>Stack and program counter\<close>

definition pop_configure :: "'f :: field SameContextGadget \<Rightarrow> 'f \<times> 'f \<Rightarrow> 'f EVMConstraintBuilder \<Rightarrow> 'f EVMConstraintBuilder" where
  "pop_configure same_context v cb = same_context_construct same_context (delta_step 1 1 1 (Flow POP)) (stack_pop v cb)"

definition pop_assign :: "('f :: field \<Rightarrow> nat) \<Rightarrow> RwMap \<Rightarrow> ExecStep \<Rightarrow> ('f SameContextGadget \<times> 'f \<times> 'f) res" where
  "pop_assign repr rws step =
     bindE (same_context_assign repr step) (\<lambda>same_context. bindE (rws_stack_value rws step 0) (\<lambda>v. Inr (same_context, word_from_u256 v)))"

definition dup_configure :: "'f :: field SameContextGadget \<Rightarrow> 'f \<times> 'f \<Rightarrow> 'f EVMConstraintBuilder \<Rightarrow> 'f EVMConstraintBuilder" where
  "dup_configure same_context v cb =
     (let opcode = fst same_context;
          dup_offset = opcode - opcode_expr (Dup DUP1);
          cb = stack_lookup 0 dup_offset v cb;
          cb = stack_push v cb
      in same_context_construct same_context (delta_step 2 1 (- 1) (Dup DUP1)) cb)"

definition dup_assign :: "('f :: field \<Rightarrow> nat) \<Rightarrow> RwMap \<Rightarrow> ExecStep \<Rightarrow> ('f SameContextGadget \<times> 'f \<times> 'f) res" where
  "dup_assign repr rws step =
     bindE (same_context_assign repr step) (\<lambda>same_context. bindE (rws_stack_value rws step 0) (\<lambda>v. Inr (same_context, word_from_u256 v)))"

definition swap_configure :: "'f :: field SameContextGadget \<Rightarrow> 'f \<times> 'f \<Rightarrow> 'f \<times> 'f \<Rightarrow> 'f EVMConstraintBuilder \<Rightarrow> 'f EVMConstraintBuilder" where
  "swap_configure same_context v0 v1 cb =
     (let opcode = fst same_context;
          swap_offset = opcode - of_nat (unat (as_u64 (Swap SWAP1)) - 1);
          cb = stack_lookup 0 swap_offset v0 cb;
          cb = stack_lookup 0 0 v1 cb;
          cb = stack_lookup 1 swap_offset v1 cb;
          cb = stack_lookup 1 0 v0 cb
      in same_context_construct same_context
           (transition_default\<lparr>st_rw_counter := Delta 4, st_program_counter := Delta 1, st_gas_left := Delta (- gas_expr (Swap SWAP1))\<rparr>) cb)"

definition swap_assign :: "('f :: field \<Rightarrow> nat) \<Rightarrow> RwMap \<Rightarrow> ExecStep \<Rightarrow> ('f SameContextGadget \<times> ('f \<times> 'f) \<times> ('f \<times> 'f)) res" where
  "swap_assign repr rws step =
     bindE (same_context_assign repr step) (\<lambda>same_context. bindE (mapE (rws_stack_value rws step) [0, 1]) (\<lambda>vs.
     Inr (same_context, word_from_u256 (vs ! 0), word_from_u256 (vs ! 1))))"

text \<open>The bytes of a \<open>PUSH\<close>, from the least significant one; each is pushed, padding, or neither.\<close>

definition push_byte :: "'f :: field \<Rightarrow> nat \<Rightarrow> 'f \<times> 'f \<Rightarrow> 'f \<times> 'f \<Rightarrow> 'f \<Rightarrow> 'f EVMConstraintBuilder \<Rightarrow> 'f EVMConstraintBuilder" where
  "push_byte num_bytes_needed idx prev cell byte cb =
     (let (is_pushed_prev, is_padding_prev) = prev; (is_pushed, is_padding) = cell;
          index = ss_program_counter (cb_curr cb) + num_bytes_needed - of_nat idx;
          cb = cb_add (require_all (require_boolean (is_pushed_prev - is_pushed) @ require_boolean (is_padding_prev - is_padding))) cb;
          cb = condition (or_expr [not_expr is_pushed, is_padding]) (cb_add (require_all (require_zero byte))) cb
      in condition (and_expr [is_pushed, not_expr is_padding]) (opcode_lookup_at index byte 0) cb)"

definition push_configure ::
  "'f :: field SameContextGadget \<Rightarrow> 'f \<Rightarrow> 'f list \<Rightarrow> 'f list \<Rightarrow> 'f list \<Rightarrow> 'f \<Rightarrow> 'f \<times> 'f list \<Rightarrow> 'f EVMConstraintBuilder \<Rightarrow> 'f EVMConstraintBuilder" where
  "push_configure same_context is_push0 v is_pushed is_padding code_length is_out_of_bound cb =
     (let opcode = fst same_context;
          num_bytes_needed = opcode - opcode_expr (Push PUSH0);
          cb = cb_add (is_zero_construct num_bytes_needed is_push0) cb;
          cb = cb_add (query_bytes v) cb;
          cb = stack_push (to_word v) cb;
          cb = cb_add (concat (map query_bool is_pushed) @ concat (map query_bool is_padding)) cb;
          code_length_left = code_length - ss_program_counter (cb_curr cb) - 1;
          cb = bytecode_length (ss_code_hash (cb_curr cb)) code_length cb;
          cb = cb_add (lt_construct code_length_left num_bytes_needed is_out_of_bound) cb;
          num_bytes_padding = select_expr (fst is_out_of_bound) (num_bytes_needed - code_length_left) 0;
          cells = zip is_pushed is_padding;
          cb = fold (\<lambda>idx. push_byte num_bytes_needed idx (((1, 1) # cells) ! idx) (cells ! idx) (v ! idx)) [0..<32] cb;
          cb = cb_add (require_all (require_equal (sum_expr is_pushed) num_bytes_needed @ require_equal (sum_expr is_padding) num_bytes_padding)) cb
      in same_context_construct same_context
           (transition_default\<lparr>st_rw_counter := Delta 1, st_program_counter := Delta (opcode - of_nat (unat (as_u64 (Push PUSH0)) - 1)),
              st_stack_pointer := Delta (- 1),
              st_gas_left := Delta (select_expr (is_zero_expression num_bytes_needed is_push0) (- gas_expr (Push PUSH0)) (- gas_expr (Push PUSH1)))\<rparr>) cb)"

definition push_assign :: "('f :: field \<Rightarrow> nat) \<Rightarrow> RwMap \<Rightarrow> CodeDB \<Rightarrow> Call \<Rightarrow> ExecStep \<Rightarrow>
    ('f SameContextGadget \<times> 'f \<times> 'f list \<times> 'f list \<times> 'f list \<times> 'f \<times> 'f \<times> 'f list) res" where
  "push_assign repr rws bytecodes call step =
     bindE (same_context_assign repr step) (\<lambda>same_context.
     bindE (step_opcode step) (\<lambda>opcode.
     bindE (u64_sub (as_u64 opcode) (as_u64 (Push PUSH0))) (\<lambda>n.
     bindE (ok_or (get_from_h256 bytecodes (cl_code_hash call)) (Panic ''could not find current environment's bytecode'')) (\<lambda>bytecode.
     let code_length = of_nat (codesize bytecode) :: u64 in
     bindE (rws_stack_value rws step 0) (\<lambda>v.
     bindE (u64_sub code_length (es_pc step)) (\<lambda>rest.
     bindE (u64_sub rest 1) (\<lambda>code_length_left.
     bindE (ok_or (postfix opcode) (Panic ''called `Option::unwrap()` on a `None` value'')) (\<lambda>num_bytes_needed.
     let num_bytes_needed = unat num_bytes_needed; num_padding = num_bytes_needed - unat code_length_left
     in Inr (same_context, fst (is_zero_gadget_assign (of_nat (unat n))), assign_word32 v, map (\<lambda>idx. of_bool (idx < num_bytes_needed)) [0..<32],
          map (\<lambda>idx. of_bool (idx < num_padding)) [0..<32], of_nat (unat code_length),
          fst (lt_gadget_assign repr 8 (of_nat (unat code_length_left)) (of_nat num_bytes_needed)))))))))))"

definition pc_configure :: "'f :: field SameContextGadget \<Rightarrow> 'f list \<Rightarrow> 'f EVMConstraintBuilder \<Rightarrow> 'f EVMConstraintBuilder" where
  "pc_configure same_context v cb =
     (let cb = cb_add (query_bytes v) cb;
          cb = cb_add (require_all (require_equal (int_expr v) (ss_program_counter (cb_curr cb)))) cb;
          cb = stack_push (int_to_word v) cb
      in same_context_construct same_context (delta_step 1 1 (- 1) (Flow PC)) cb)"

definition pc_assign :: "('f :: field \<Rightarrow> nat) \<Rightarrow> ExecStep \<Rightarrow> ('f SameContextGadget \<times> 'f list) res" where
  "pc_assign repr step =
     bindE (same_context_assign repr step) (\<lambda>same_context. bindE (int_assign 8 (le_bytes 8 (unat (es_pc step)))) (\<lambda>v. Inr (same_context, v)))"

definition msize_configure :: "'f :: field SameContextGadget \<Rightarrow> 'f \<Rightarrow> 'f EVMConstraintBuilder \<Rightarrow> 'f EVMConstraintBuilder" where
  "msize_configure same_context v cb =
     (let cb = cb_add (require_all (require_equal v (ss_memory_word_size (cb_curr cb) * of_nat 32))) cb;
          cb = stack_push (from_lo_unchecked v) cb
      in same_context_construct same_context (delta_step 1 1 (- 1) (Flow MSIZE)) cb)"

definition msize_assign :: "('f :: field \<Rightarrow> nat) \<Rightarrow> ExecStep \<Rightarrow> ('f SameContextGadget \<times> 'f) res" where
  "msize_assign repr step =
     bindE (same_context_assign repr step) (\<lambda>same_context. Inr (same_context, of_nat (es_memory_size step)))"

definition gas_configure :: "'f :: field SameContextGadget \<Rightarrow> 'f list \<Rightarrow> 'f EVMConstraintBuilder \<Rightarrow> 'f EVMConstraintBuilder" where
  "gas_configure same_context gas_left cb =
     (let cb = cb_add (query_bytes gas_left) cb;
          cb = cb_add (require_all (require_equal (int_expr gas_left) (ss_gas_left (cb_curr cb) - gas_expr (Ext GAS)))) cb;
          cb = stack_push (int_to_word gas_left) cb
      in same_context_construct same_context (delta_step 1 1 (- 1) (Ext GAS)) cb)"

definition gas_assign :: "('f :: field \<Rightarrow> nat) \<Rightarrow> ExecStep \<Rightarrow> ('f SameContextGadget \<times> 'f list) res" where
  "gas_assign repr step =
     bindE (same_context_assign repr step) (\<lambda>same_context.
     bindE (int_assign 8 (le_bytes 8 (unat (es_gas_left step) - unat (constant_gas_cost (Ext GAS))))) (\<lambda>v. Inr (same_context, v)))"

definition jump_configure :: "'f :: field SameContextGadget \<Rightarrow> 'f list \<Rightarrow> 'f EVMConstraintBuilder \<Rightarrow> 'f EVMConstraintBuilder" where
  "jump_configure same_context destination cb =
     (let cb = cb_add (query_bytes destination) cb;
          cb = stack_pop (int_to_word destination) cb;
          cb = opcode_lookup_at (int_expr destination) (opcode_expr (Flow JUMPDEST)) 1 cb
      in same_context_construct same_context
           ((delta_step 1 1 1 (Flow JUMP))\<lparr>st_program_counter := To (int_expr destination)\<rparr>) cb)"

definition jump_assign :: "('f :: field \<Rightarrow> nat) \<Rightarrow> RwMap \<Rightarrow> ExecStep \<Rightarrow> ('f SameContextGadget \<times> 'f list) res" where
  "jump_assign repr rws step =
     bindE (same_context_assign repr step) (\<lambda>same_context. bindE (rws_stack_value rws step 0) (\<lambda>destination.
     bindE (int_assign 8 (le_bytes 32 (unat destination))) (\<lambda>cells. Inr (same_context, cells))))"

definition jumpi_configure :: "'f :: field SameContextGadget \<Rightarrow> 'f list \<Rightarrow> 'f \<Rightarrow> 'f \<times> 'f \<Rightarrow> 'f \<times> 'f \<Rightarrow> 'f EVMConstraintBuilder \<Rightarrow> 'f EVMConstraintBuilder" where
  "jumpi_configure same_context dest not_overflow cond is_condition_zero cb =
     (let cb = cb_add (word_byte_range_construct 8 dest not_overflow) cb;
          cb = stack_pop (to_word dest) cb;
          cb = stack_pop cond cb;
          cb = cb_add (is_zero_word_construct cond is_condition_zero) cb;
          should_jump = 1 - is_zero_word_expr cond is_condition_zero;
          cb = condition should_jump (\<lambda>cb.
                 opcode_lookup_at (word_byte_range_valid_value 8 dest) (opcode_expr (Flow JUMPDEST)) 1
                   (cb_add (require_all (require_equal (word_byte_range_not_overflow 8 dest not_overflow) 1)) cb)) cb;
          next_program_counter = select_expr should_jump (word_byte_range_valid_value 8 dest) (ss_program_counter (cb_curr cb) + 1)
      in same_context_construct same_context
           ((delta_step 2 1 2 (Flow JUMPI))\<lparr>st_program_counter := To next_program_counter\<rparr>) cb)"

definition jumpi_assign :: "('f :: field \<Rightarrow> nat) \<Rightarrow> RwMap \<Rightarrow> ExecStep \<Rightarrow> ('f SameContextGadget \<times> 'f list \<times> 'f \<times> ('f \<times> 'f) \<times> ('f \<times> 'f)) res" where
  "jumpi_assign repr rws step =
     bindE (same_context_assign repr step) (\<lambda>same_context. bindE (mapE (rws_stack_value rws step) [0, 1]) (\<lambda>vs.
     let ((dest, not_overflow), _) = word_byte_range_assign 8 (vs ! 0)
     in Inr (same_context, dest, not_overflow, word_from_u256 (vs ! 1), fst (is_zero_word_assign (word_from_u256 (vs ! 1))))))"

definition jumpdest_configure :: "'f :: field SameContextGadget \<Rightarrow> 'f EVMConstraintBuilder \<Rightarrow> 'f EVMConstraintBuilder" where
  "jumpdest_configure same_context cb =
     same_context_construct same_context
       (transition_default\<lparr>st_program_counter := Delta 1, st_gas_left := Delta (- gas_expr (Flow JUMPDEST))\<rparr>) cb"

section \<open>The environment\<close>

text \<open>Gadgets that push a field of the call context.\<close>

definition push_call_context ::
  "CallContextFieldTag \<Rightarrow> OpcodeId \<Rightarrow> 'f :: field SameContextGadget \<Rightarrow> 'f \<times> 'f \<Rightarrow> 'f EVMConstraintBuilder \<Rightarrow> 'f EVMConstraintBuilder" where
  "push_call_context tag op same_context v cb =
     (let cb = call_context_lookup_read None tag v cb;
          cb = stack_push v cb
      in same_context_construct same_context (delta_step 2 1 (- 1) op) cb)"

definition caller_configure :: "'f :: field SameContextGadget \<Rightarrow> 'f \<times> 'f \<Rightarrow> 'f EVMConstraintBuilder \<Rightarrow> 'f EVMConstraintBuilder" where
  "caller_configure = push_call_context CFT_CallerAddress (Ext CALLER)"

definition callvalue_configure :: "'f :: field SameContextGadget \<Rightarrow> 'f \<times> 'f \<Rightarrow> 'f EVMConstraintBuilder \<Rightarrow> 'f EVMConstraintBuilder" where
  "callvalue_configure = push_call_context CFT_Value (Ext CALLVALUE)"

definition address_configure :: "'f :: field SameContextGadget \<Rightarrow> 'f \<times> 'f \<Rightarrow> 'f EVMConstraintBuilder \<Rightarrow> 'f EVMConstraintBuilder" where
  "address_configure = push_call_context CFT_CalleeAddress (Ext ADDRESS)"

definition calldatasize_configure :: "'f :: field SameContextGadget \<Rightarrow> 'f \<times> 'f \<Rightarrow> 'f EVMConstraintBuilder \<Rightarrow> 'f EVMConstraintBuilder" where
  "calldatasize_configure = push_call_context CFT_CallDataLength (Flow CALLDATASIZE)"

definition returndatasize_configure :: "'f :: field SameContextGadget \<Rightarrow> 'f \<times> 'f \<Rightarrow> 'f EVMConstraintBuilder \<Rightarrow> 'f EVMConstraintBuilder" where
  "returndatasize_configure = push_call_context CFT_LastCalleeReturnDataLength (Ext RETURNDATASIZE)"

definition codesize_configure :: "'f :: field SameContextGadget \<Rightarrow> 'f list \<Rightarrow> 'f \<Rightarrow> 'f EVMConstraintBuilder \<Rightarrow> 'f EVMConstraintBuilder" where
  "codesize_configure same_context codesize_bytes len cb =
     (let cb = cb_add (query_bytes codesize_bytes) cb;
          cb = bytecode_length (ss_code_hash (cb_curr cb)) len cb;
          cb = cb_add (require_all (require_equal (int_expr codesize_bytes) len)) cb;
          cb = stack_push (int_to_word codesize_bytes) cb
      in same_context_construct same_context (delta_step 1 1 (- 1) (Flow CODESIZE)) cb)"

text \<open>\<open>AccountAddress\<close> has 20 bytes; the transaction identifier comes from the call context.\<close>

definition origin_configure :: "'f :: field SameContextGadget \<Rightarrow> 'f list \<Rightarrow> 'f \<Rightarrow> 'f EVMConstraintBuilder \<Rightarrow> 'f EVMConstraintBuilder" where
  "origin_configure same_context origin txid cb =
     (let cb = cb_add (query_bytes origin) cb;
          cb = call_context_lookup_read None CFT_TxId (from_lo_unchecked txid) cb;
          cb = tx_context_lookup txid TXF_CallerAddress None (int_to_word origin) cb;
          cb = stack_push (int_to_word origin) cb
      in same_context_construct same_context (delta_step 2 1 (- 1) (Ext ORIGIN)) cb)"

definition gasprice_configure :: "'f :: field SameContextGadget \<Rightarrow> 'f \<times> 'f \<Rightarrow> 'f \<Rightarrow> 'f EVMConstraintBuilder \<Rightarrow> 'f EVMConstraintBuilder" where
  "gasprice_configure same_context gas_price txid cb =
     (let cb = call_context_lookup_read None CFT_TxId (from_lo_unchecked txid) cb;
          cb = tx_context_lookup txid TXF_GasPrice None gas_price cb;
          cb = stack_push gas_price cb
      in same_context_construct same_context (delta_step 2 1 (- 1) (Ext GASPRICE)) cb)"

definition chainid_configure :: "'f :: field SameContextGadget \<Rightarrow> 'f \<times> 'f \<Rightarrow> 'f EVMConstraintBuilder \<Rightarrow> 'f EVMConstraintBuilder" where
  "chainid_configure same_context chain cb =
     (let cb = stack_push chain cb;
          cb = block_lookup (of_nat (block_context_field_tag_u64 BCF_ChainId)) None chain cb
      in same_context_construct same_context (delta_step 1 1 (- 1) (Ext CHAINID)) cb)"

definition block_ctx_configure :: "'f :: field SameContextGadget \<Rightarrow> 'f \<times> 'f \<Rightarrow> 'f EVMConstraintBuilder \<Rightarrow> 'f EVMConstraintBuilder" where
  "block_ctx_configure same_context v cb =
     (let cb = stack_push v cb;
          opcode = fst same_context;
          blockctx_tag = of_nat (block_context_field_tag_u64 BCF_Coinbase) + (opcode - opcode_expr (Ext COINBASE));
          cb = block_lookup blockctx_tag None v cb
      in same_context_construct same_context (delta_step 1 1 (- 1) (Ext TIMESTAMP)) cb)"

definition selfbalance_configure :: "'f :: field SameContextGadget \<Rightarrow> 'f \<times> 'f \<Rightarrow> 'f \<times> 'f \<Rightarrow> 'f EVMConstraintBuilder \<Rightarrow> 'f EVMConstraintBuilder" where
  "selfbalance_configure same_context callee_address self_balance cb =
     (let cb = call_context_lookup_read None CFT_CalleeAddress callee_address cb;
          cb = cb_account_read callee_address AFT_Balance self_balance cb;
          cb = stack_push self_balance cb
      in same_context_construct same_context (delta_step 3 1 (- 1) (Ext SELFBALANCE)) cb)"

end
