(* ===== verification/Step_Sound.thy ===== *)
theory Step_Sound
  imports Step_Gadgets
begin

text \<open>
  What the constraints of the execution gadgets say of a step: the rows of the tables that the step needs, the words on the stack, and
  the next step. A gadget is sound if its constraints hold only for steps of its opcodes, and complete if the cells that its
  assignment computes satisfy them for every such step.
\<close>

section \<open>What a step of the circuit says\<close>

definition rw_row :: "'f :: field Tables \<Rightarrow> 'f StepState \<Rightarrow> nat \<Rightarrow> bool \<Rightarrow> Target \<Rightarrow> 'f RwValues \<Rightarrow> bool" where
  "rw_row tb cur k w tag vs \<longleftrightarrow>
     input_exprs (LK_Rw (ss_rw_counter cur + of_nat k) (of_bool w) (of_nat (target_usize tag)) vs) \<in> set (tb_rw tb)"

definition stack_row :: "'f :: field Tables \<Rightarrow> 'f StepState \<Rightarrow> nat \<Rightarrow> bool \<Rightarrow> int \<Rightarrow> 'f \<times> 'f \<Rightarrow> bool" where
  "stack_row tb cur k w off v \<longleftrightarrow>
     rw_row tb cur k w TStack (rw_values_new (ss_call_id cur) (ss_stack_pointer cur + of_int off) 0 (0, 0) v (0, 0) (0, 0))"

definition code_row :: "'f :: field Tables \<Rightarrow> 'f StepState \<Rightarrow> 'f \<Rightarrow> 'f \<Rightarrow> 'f \<Rightarrow> bool" where
  "code_row tb cur index opcode is_code \<longleftrightarrow>
     lookup_ok tb (LK_Conditional (1 - ss_is_root cur * ss_is_create cur)
       (LK_Bytecode (ss_code_hash cur) (of_nat (bytecode_field_tag_u64 BFT_Byte)) index is_code opcode))"

text \<open>
  A step of an opcode in the same call: the opcode is in the code at the program counter, the gas is enough for its constant cost
  and is reduced by it, and everything the opcode does not change is the same in the next step.
\<close>

definition same_context_step :: "'f :: field Tables \<Rightarrow> 'f StepState \<Rightarrow> 'f StepState \<Rightarrow> OpcodeId \<Rightarrow> nat \<Rightarrow> 'f \<Rightarrow> int \<Rightarrow> bool" where
  "same_context_step tb cur succ op n pc sp \<longleftrightarrow>
     code_row tb cur (ss_program_counter cur) (opcode_expr op) 1 \<and>
     (\<exists>gas < 2 ^ 64. ss_gas_left succ = of_nat gas \<and> ss_gas_left cur = of_nat (gas + unat (constant_gas_cost op))) \<and>
     ss_rw_counter succ = ss_rw_counter cur + of_nat n \<and> ss_program_counter succ = pc \<and>
     ss_stack_pointer succ = ss_stack_pointer cur + of_int sp \<and> ss_call_id succ = ss_call_id cur \<and> ss_is_root succ = ss_is_root cur \<and>
     ss_is_create succ = ss_is_create cur \<and> ss_code_hash succ = ss_code_hash cur \<and> ss_memory_word_size succ = ss_memory_word_size cur \<and>
     ss_reversible_write_counter succ = ss_reversible_write_counter cur \<and> ss_log_id succ = ss_log_id cur"

text \<open>The words of the instructions of two and of one operand.\<close>

definition alu2 :: "OpcodeId \<Rightarrow> Word \<Rightarrow> Word \<Rightarrow> Word" where
  "alu2 op x y = (case op of
      Arith ADD \<Rightarrow> x + y | Arith SUB \<Rightarrow> x - y | Arith MUL \<Rightarrow> x * y
    | Arith DIV \<Rightarrow> (if y = 0 then 0 else x div y) | Arith MOD \<Rightarrow> (if y = 0 then 0 else x mod y)
    | Arith LT \<Rightarrow> of_bool (x < y) | Arith GT \<Rightarrow> of_bool (y < x) | Arith EQ \<Rightarrow> of_bool (x = y)
    | Arith AND \<Rightarrow> and x y | Arith OR \<Rightarrow> or x y | Arith XOR \<Rightarrow> xor x y
    | Arith BYTE \<Rightarrow> (if x < 32 then and (drop_bit (8 * (31 - unat x)) y) 255 else 0)
    | _ \<Rightarrow> 0)"

definition alu1 :: "OpcodeId \<Rightarrow> Word \<Rightarrow> Word" where
  "alu1 op x = (case op of Arith ISZERO \<Rightarrow> of_bool (x = 0) | Arith NOT \<Rightarrow> not x | _ \<Rightarrow> 0)"

definition alu2_step :: "'f :: field Tables \<Rightarrow> 'f StepState \<Rightarrow> 'f StepState \<Rightarrow> OpcodeId \<Rightarrow> Word \<Rightarrow> Word \<Rightarrow> bool" where
  "alu2_step tb cur succ op x y \<longleftrightarrow>
     same_context_step tb cur succ op 3 (ss_program_counter cur + 1) 1 \<and> stack_row tb cur 0 False 0 (word_from_u256 x) \<and>
     stack_row tb cur 1 False 1 (word_from_u256 y) \<and> stack_row tb cur 2 True 1 (word_from_u256 (alu2 op x y))"

definition alu1_step :: "'f :: field Tables \<Rightarrow> 'f StepState \<Rightarrow> 'f StepState \<Rightarrow> OpcodeId \<Rightarrow> Word \<Rightarrow> bool" where
  "alu1_step tb cur succ op x \<longleftrightarrow>
     same_context_step tb cur succ op 2 (ss_program_counter cur + 1) 0 \<and> stack_row tb cur 0 False 0 (word_from_u256 x) \<and>
     stack_row tb cur 1 True 0 (word_from_u256 (alu1 op x))"

section \<open>The shared gadgets\<close>

definition responsible_row :: "'f :: field Tables \<Rightarrow> ExecutionState \<Rightarrow> 'f \<Rightarrow> bool" where
  "responsible_row tb s opcode \<longleftrightarrow>
     lookup_ok tb (LK_Fixed (of_nat (fixed_tag_u64 FT_ResponsibleOpcode)) [of_nat (execution_state_u64 s), opcode, 0])"

definition transition_ok :: "'f :: field StepStateTransition \<Rightarrow> 'f StepState \<Rightarrow> 'f StepState \<Rightarrow> bool" where
  "transition_ok st cur succ \<longleftrightarrow> (\<forall>tb s. cb_ok tb False False (require_step_state_transition st (cb_new cur succ 0 s)))"

lemma require_step_state_transition_ok:
  assumes "cb_constraints_location cb = CL_Step" and "cb_conditions cb = []"
  shows "cb_ok tb f l (require_step_state_transition st cb) \<longleftrightarrow> cb_ok tb f l cb \<and> transition_ok st (cb_curr cb) (cb_next cb)"
  using assms by (simp add: require_step_state_transition_def transition_ok_def Let_def)

lemmas transition_ok_simps = transition_ok_def require_step_state_transition_def Let_def constrain_transition_def constrain_word_transition_def
  delta_step_def transition_default_def

lemma lookup_ok_rw: "lookup_ok tb (LK_Rw k w t vs) \<longleftrightarrow> input_exprs (LK_Rw k w t vs) \<in> set (tb_rw tb)"
  by (simp add: lookup_ok_def table_rows_def)

definition same_context_ok where
  "same_context_ok tb cur succ s opcode parts st \<longleftrightarrow>
     code_row tb cur (ss_program_counter cur) opcode 1 \<and> responsible_row tb s opcode \<and>
     rqs_ok tb 1 (range_check_construct (ss_gas_left succ) parts) \<and> transition_ok st cur succ"

lemma same_context_construct_ok:
  assumes "cb_constraints_location cb = CL_Step" and "cb_conditions cb = []" and "cb_program_counter_offset cb = 0"
  shows "cb_ok tb f l (same_context_construct (opcode, parts) st cb) \<longleftrightarrow>
    cb_ok tb f l cb \<and> same_context_ok tb (cb_curr cb) (cb_next cb) (cb_execution_state cb) opcode parts st"
  using assms
  by (auto simp: same_context_construct_def Let_def require_step_state_transition_ok opcode_lookup_def opcode_lookup_at_def same_context_ok_def
      code_row_def responsible_row_def lookup_ok_conditional)

lemma unat_as_u64: "unat (as_u64 op) = unat (as_u8 op)"
proof -
  have "unat (as_u8 op) < 256" using unsigned_less [of "as_u8 op", where ?'a = nat] by simp
  then show ?thesis by (simp add: as_u64_def unsigned_ucast_eq take_bit_nat_eq_self)
qed

lemma opcode_expr_inject:
  assumes "canonical (repr :: 'f :: field \<Rightarrow> nat)"
  shows "opcode_expr op = (opcode_expr op' :: 'f) \<longleftrightarrow> as_u8 op = as_u8 op'"
proof -
  have b: "unat (as_u8 o') < 2 ^ 253" for o' using unsigned_less [of "as_u8 o'", where ?'a = nat] by simp
  show ?thesis unfolding opcode_expr_def unat_as_u64 using canonicalD [OF assms b b, of op op'] by (simp add: word_unat_eq_iff)
qed

lemma responsible_row_op:
  fixes opcode :: "'f :: field"
  assumes can: "canonical (repr :: 'f \<Rightarrow> nat)"
  shows "responsible_row tb (Opcode_State s) opcode \<longleftrightarrow>
    FT_ResponsibleOpcode \<in> set (tb_fixed_tags tb) \<and> (\<exists>op \<in> set (op_state_opcodes s). opcode = opcode_expr op)"
proof -
  have st: "(of_nat (execution_state_u64 t) :: 'f) = of_nat (execution_state_u64 u) \<longleftrightarrow> t = u" for t u
    using canonicalD [OF can, of "execution_state_u64 t" "execution_state_u64 u"] execution_state_u64_nth(2) [of t] execution_state_u64_nth(2) [of u]
    by (simp add: execution_state_u64_inject)
  have "t \<in> set execution_states" for t using execution_state_u64_nth [of t] by (metis nth_mem length_execution_states)
  then have states: "set execution_states = UNIV" by blast
  have "responsible_row tb (Opcode_State s) opcode \<longleftrightarrow> FT_ResponsibleOpcode \<in> set (tb_fixed_tags tb) \<and>
      (\<exists>a b c. (a, b, c) \<in> set (fixed_rows FT_ResponsibleOpcode) \<and> of_nat (execution_state_u64 (Opcode_State s)) = (of_nat a :: 'f) \<and>
         opcode = of_nat b \<and> (0 :: 'f) = of_nat c)"
    unfolding responsible_row_def lookup_ok_def using fixed_lookup [OF can, of FT_ResponsibleOpcode] by (simp add: table_rows_def)
  also have "\<dots> \<longleftrightarrow> FT_ResponsibleOpcode \<in> set (tb_fixed_tags tb) \<and> (\<exists>op \<in> set (op_state_opcodes s). opcode = opcode_expr op)"
  proof -
    have "(\<exists>a b c. (a, b, c) \<in> set (fixed_rows FT_ResponsibleOpcode) \<and> of_nat (execution_state_u64 (Opcode_State s)) = (of_nat a :: 'f) \<and>
         opcode = of_nat b \<and> (0 :: 'f) = of_nat c) \<longleftrightarrow>
      (\<exists>r \<in> set (responsible_opcodes (Opcode_State s)). opcode = of_nat (unat (as_u8 (responsible_opcode r))) \<and>
         (0 :: 'f) = of_nat (case r of RO_Op _ \<Rightarrow> 0 | RO_InvalidStackPtr _ p \<Rightarrow> p))"
    proof -
      have row: "(a, b, c) \<in> set (fixed_rows FT_ResponsibleOpcode) \<longleftrightarrow> (\<exists>t. \<exists>r \<in> set (responsible_opcodes t). a = execution_state_u64 t \<and>
          b = unat (as_u8 (responsible_opcode r)) \<and> c = (case r of RO_Op _ \<Rightarrow> 0 | RO_InvalidStackPtr _ p \<Rightarrow> p))" for a b c
        by (auto simp: fixed_rows_def states)
      show ?thesis (is "?L \<longleftrightarrow> ?R")
      proof
        assume ?L
        then obtain t r where "r \<in> set (responsible_opcodes t)" "of_nat (execution_state_u64 (Opcode_State s)) = (of_nat (execution_state_u64 t) :: 'f)"
          "opcode = of_nat (unat (as_u8 (responsible_opcode r)))" "(0 :: 'f) = of_nat (case r of RO_Op _ \<Rightarrow> 0 | RO_InvalidStackPtr _ p \<Rightarrow> p)"
          unfolding row by blast
        then show ?R using st by metis
      next
        assume ?R
        then show ?L unfolding row by metis
      qed
    qed
    also have "\<dots> \<longleftrightarrow> (\<exists>op \<in> set (op_state_opcodes s). opcode = opcode_expr op)"
      by (simp add: responsible_opcodes_def responsible_opcode_def opcode_expr_def unat_as_u64)
    finally show ?thesis by simp
  qed
  finally show ?thesis .
qed

lemma gas_transition:
  assumes "length parts = 8"
  shows "rqs_ok tb 1 (range_check_construct v parts) \<and> v = w + - of_nat c \<Longrightarrow> \<exists>gas < 2 ^ 64. v = (of_nat gas :: 'f :: field) \<and> w = of_nat (gas + c)"
proof -
  assume h: "rqs_ok tb 1 (range_check_construct v parts) \<and> v = w + - of_nat c"
  then obtain m where "m < 256 ^ length parts" "v = of_nat m" using range_check_sound by blast
  then have "m < 2 ^ 64" "v = of_nat m" "w = of_nat (m + c)" using assms h by (simp_all add: algebra_simps)
  then show ?thesis by blast
qed

text \<open>
  The constraints of \<open>SameContextGadget\<close> on a step that changes the program counter, the stack pointer and the gas; all opcodes of the state have
  the same constant cost.
\<close>

lemma same_context_sound:
  fixes cur :: "'f :: field StepState"
  assumes can: "canonical (repr :: 'f \<Rightarrow> nat)" and len: "length parts = 8"
    and cost: "list_all (\<lambda>op. constant_gas_cost op = constant_gas_cost op0) (op_state_opcodes s)"
    and ok: "same_context_ok tb cur succ (Opcode_State s) opcode parts st"
    and st: "st = (delta_step (of_nat n) x (of_int sp) op0)\<lparr>st_program_counter := tr\<rparr>"
    and pc: "\<And>v. satisfied (constrain_transition tr (ss_program_counter cur) v) \<longleftrightarrow> v = pc"
  shows "\<exists>op \<in> set (op_state_opcodes s). opcode = opcode_expr op \<and> same_context_step tb cur succ op n pc sp"
proof -
  have rows: "code_row tb cur (ss_program_counter cur) opcode 1" "responsible_row tb (Opcode_State s) opcode"
    and tr: "transition_ok st cur succ" and rc: "rqs_ok tb 1 (range_check_construct (ss_gas_left succ) parts)"
    using ok by (simp_all add: same_context_ok_def)
  obtain op where op: "op \<in> set (op_state_opcodes s)" "opcode = opcode_expr op" using rows(2) responsible_row_op [OF can] by blast
  have c: "constant_gas_cost op = constant_gas_cost op0" using cost op(1) by (simp add: list_all_iff)
  have "ss_gas_left succ = ss_gas_left cur + - of_nat (unat (constant_gas_cost op))"
    using tr unfolding c by (simp add: st transition_ok_simps gas_expr_def)
  with rc obtain gas where g: "gas < 2 ^ 64" "ss_gas_left succ = of_nat gas" "ss_gas_left cur = of_nat (gas + unat (constant_gas_cost op))"
    using gas_transition [OF len] by metis
  have "ss_program_counter succ = pc" using tr pc by (simp add: st transition_ok_def require_step_state_transition_def Let_def)
  then show ?thesis using op rows tr g unfolding same_context_step_def
    by (intro bexI [of _ op]) (auto simp: st transition_ok_simps prod_eq_iff)
qed

lemma same_context_complete:
  fixes cur :: "'f :: field StepState"
  assumes can: "canonical (repr :: 'f \<Rightarrow> nat)" and tag: "FT_ResponsibleOpcode \<in> set (tb_fixed_tags tb)" and op: "op \<in> set (op_state_opcodes s)"
    and cost: "constant_gas_cost op = constant_gas_cost op0"
    and step: "same_context_step tb cur succ op n pc sp"
    and st: "st = (delta_step (of_nat n) x (of_int sp) op0)\<lparr>st_program_counter := tr\<rparr>"
    and pc: "\<And>v. satisfied (constrain_transition tr (ss_program_counter cur) v) \<longleftrightarrow> v = pc"
  shows "same_context_ok tb cur succ (Opcode_State s) (opcode_expr op) (range_check_assign repr 8 (ss_gas_left succ)) st"
proof -
  obtain gas where g: "gas < 2 ^ 64" "ss_gas_left succ = of_nat gas" "ss_gas_left cur = of_nat (gas + unat (constant_gas_cost op))"
    using step by (auto simp: same_context_step_def)
  have rc: "rqs_ok tb 1 (range_check_construct (ss_gas_left succ) (range_check_assign repr 8 (ss_gas_left succ)))"
    unfolding g(2) using range_check_complete [OF can, of 8 gas] g(1) by simp
  have "ss_gas_left succ = ss_gas_left cur + - gas_expr op0" unfolding g gas_expr_def cost [symmetric] by simp
  moreover have "satisfied (constrain_transition tr (ss_program_counter cur) (ss_program_counter succ))"
    unfolding pc using step by (simp add: same_context_step_def)
  ultimately have "transition_ok st cur succ"
    using step by (auto simp: same_context_step_def st transition_ok_simps)
  moreover have "responsible_row tb (Opcode_State s) (opcode_expr op :: 'f)" using responsible_row_op [OF can] tag op by blast
  ultimately show ?thesis using rc step by (simp add: same_context_ok_def same_context_step_def)
qed


section \<open>Addition and subtraction\<close>

text \<open>Requirements and lookups under a condition.\<close>

lemma condition_ok:
  fixes c :: "'f :: field"
  assumes "cb_constraints_location cb = CL_Step"
  shows "cb_ok tb f l (condition c (cb_add rqs) cb) \<longleftrightarrow> cb_ok tb f l cb \<and> rqs_ok tb (condition_expr cb * c) rqs"
    and "cb_frame (condition c (cb_add rqs) cb) = cb_frame cb"
    and "cb_ok tb f l (condition c (cb_add_lookup lk) cb) \<longleftrightarrow> cb_ok tb f l cb \<and> lookup_ok tb (LK_Conditional (condition_expr cb * c) lk)"
    and "cb_frame (condition c (cb_add_lookup lk) cb) = cb_frame cb"
proof -
  let ?cb = "cb\<lparr>cb_conditions := cb_conditions cb @ [c]\<rparr>"
  have e: "condition_expr ?cb = condition_expr cb * c" 
    using condition_expr_snoc [of ?cb "cb_conditions cb" c] condition_expr_cong [of "?cb\<lparr>cb_conditions := cb_conditions cb\<rparr>" cb] by simp
  have loc: "cb_constraints_location ?cb = CL_Step" using assms by simp
  show "cb_ok tb f l (condition c (cb_add rqs) cb) \<longleftrightarrow> cb_ok tb f l cb \<and> rqs_ok tb (condition_expr cb * c) rqs"
    unfolding condition_def Let_def cb_ok_offsets cb_ok_add [OF loc] e ..
  show "cb_ok tb f l (condition c (cb_add_lookup lk) cb) \<longleftrightarrow> cb_ok tb f l cb \<and> lookup_ok tb (LK_Conditional (condition_expr cb * c) lk)"
    unfolding condition_def Let_def cb_ok_offsets cb_ok_add_lookup [OF loc] e ..
  have frame: "cb_frame (cb'\<lparr>cb_conditions := butlast (cb_conditions cb')\<rparr>) = cb_frame cb" if "cb_frame cb' = cb_frame ?cb" for cb' :: "'f EVMConstraintBuilder"
    using that by (cases cb; cases cb') (simp add: cb_frame_def)
  show "cb_frame (condition c (cb_add rqs) cb) = cb_frame cb" unfolding condition_def Let_def by (rule frame [OF cb_frame_add])
  show "cb_frame (condition c (cb_add_lookup lk) cb) = cb_frame cb" unfolding condition_def Let_def by (rule frame [OF cb_frame_add_lookup])
qed

lemmas condition_fields [simp] = cb_frame_fields [OF condition_ok(2)] cb_frame_fields [OF condition_ok(4)]

lemmas gadget_simps = Let_def condition_ok(1,3) same_context_construct_ok cb_state_defs lookup_ok_conditional stack_values_def stack_row_def rw_row_def lookup_ok_rw

lemma pc_next: "satisfied (constrain_transition (Delta 1) c v) \<longleftrightarrow> v = (c + 1 :: 'f :: field)"
  by (simp add: constrain_transition_def)

lemma add_sub_configure_ok:
  "cb_ok tb f l (add_sub_configure (opcode, parts) a b c add_words is_sub (cb_new cur succ r s)) \<longleftrightarrow>
     list_all byte_cell a \<and> list_all byte_cell b \<and> list_all byte_cell c \<and> rqs_ok tb 1 (add_words_construct False [a, b] c add_words) \<and>
     rqs_ok tb 1 (pair_select_construct opcode (opcode_expr (Arith SUB)) (opcode_expr (Arith ADD)) is_sub) \<and>
     stack_row tb cur 0 False 0 (word_select is_sub (to_word c) (to_word a)) \<and> stack_row tb cur 1 False 1 (to_word b) \<and>
     stack_row tb cur 2 True 1 (word_select is_sub (to_word a) (to_word c)) \<and>
     same_context_ok tb cur succ s opcode parts (delta_step 3 1 1 (Arith ADD))"
  by (simp add: add_sub_configure_def gadget_simps algebra_simps)

lemma to_word_word [simp]: "to_word (assign_word32 w) = word_from_u256 w"
  by (simp add: to_word_assign word_from_u256_eq)

lemma word_select_simps [simp]: "word_select 1 v w = v" "word_select 0 v w = w"
  by (simp_all add: word_select_def)

lemma same_context_delta:
  fixes cur :: "'f :: field StepState"
  assumes can: "canonical (repr :: 'f \<Rightarrow> nat)" and n: "n' = of_nat n" "sp' = of_int sp"
  shows "length parts = 8 \<Longrightarrow> list_all (\<lambda>op. constant_gas_cost op = constant_gas_cost op0) (op_state_opcodes s) \<Longrightarrow>
      same_context_ok tb cur succ (Opcode_State s) opcode parts (delta_step n' 1 sp' op0) \<Longrightarrow>
      \<exists>op \<in> set (op_state_opcodes s). opcode = opcode_expr op \<and> same_context_step tb cur succ op n (ss_program_counter cur + 1) sp"
    and "FT_ResponsibleOpcode \<in> set (tb_fixed_tags tb) \<Longrightarrow> op \<in> set (op_state_opcodes s) \<Longrightarrow> constant_gas_cost op = constant_gas_cost op0 \<Longrightarrow>
      same_context_step tb cur succ op n (ss_program_counter cur + 1) sp \<Longrightarrow>
      same_context_ok tb cur succ (Opcode_State s) (opcode_expr op) (range_check_assign repr 8 (ss_gas_left succ)) (delta_step n' 1 sp' op0)"
proof -
  have st: "delta_step n' 1 sp' op0 = (delta_step (of_nat n) 1 (of_int sp) op0)\<lparr>st_program_counter := Delta 1\<rparr>" by (simp add: delta_step_def n)
  show "length parts = 8 \<Longrightarrow> list_all (\<lambda>op. constant_gas_cost op = constant_gas_cost op0) (op_state_opcodes s) \<Longrightarrow>
      same_context_ok tb cur succ (Opcode_State s) opcode parts (delta_step n' 1 sp' op0) \<Longrightarrow>
      \<exists>op \<in> set (op_state_opcodes s). opcode = opcode_expr op \<and> same_context_step tb cur succ op n (ss_program_counter cur + 1) sp"
    by (rule same_context_sound [OF can _ _ _ st pc_next])
  show "FT_ResponsibleOpcode \<in> set (tb_fixed_tags tb) \<Longrightarrow> op \<in> set (op_state_opcodes s) \<Longrightarrow> constant_gas_cost op = constant_gas_cost op0 \<Longrightarrow>
      same_context_step tb cur succ op n (ss_program_counter cur + 1) sp \<Longrightarrow>
      same_context_ok tb cur succ (Opcode_State s) (opcode_expr op) (range_check_assign repr 8 (ss_gas_left succ)) (delta_step n' 1 sp' op0)"
    by (rule same_context_complete [OF can _ _ _ _ st pc_next])
qed

lemma length_range_check_assign [simp]: "length (range_check_assign repr 8 v) = 8"
  by (simp add: range_check_assign_def)

lemma op_codes:
  "op_state_opcodes St_ADD_SUB = [Arith ADD, Arith SUB]" "op_state_opcodes St_MUL_DIV_MOD = [Arith MUL, Arith DIV, Arith MOD]"
  "op_state_opcodes St_CMP = [Arith LT, Arith GT, Arith EQ]" "op_state_opcodes St_ISZERO = [Arith ISZERO]"
  "op_state_opcodes St_BITWISE = [Arith AND, Arith OR, Arith XOR]" "op_state_opcodes St_NOT = [Arith NOT]"
  "op_state_opcodes St_BYTE = [Arith BYTE]" "op_state_opcodes St_JUMP = [Flow JUMP]" "op_state_opcodes St_JUMPI = [Flow JUMPI]"
  by (simp_all add: op_state_opcodes_def)

text \<open>The cells of the gadget satisfy its constraints exactly for a step of one of its opcodes.\<close>

lemma add_sub_sound:
  fixes cur :: "'f :: field StepState"
  assumes can: "canonical (repr :: 'f \<Rightarrow> nat)" and len: "length parts = 8" "length a = 32" "length b = 32" "length c = 32"
    and ok: "cb_ok tb f l (add_sub_configure (opcode, parts) a b c add_words is_sub (cb_new cur succ r (Opcode_State St_ADD_SUB)))"
  shows "\<exists>op \<in> {Arith ADD, Arith SUB}. \<exists>x y. alu2_step tb cur succ op x y"
proof -
  note h = ok [unfolded add_sub_configure_ok]
  obtain x y z where w: "a = assign_word32 x" "b = assign_word32 y" "c = assign_word32 z" using h len word32_cells by metis
  obtain op where op: "op \<in> {Arith ADD, Arith SUB}" "opcode = opcode_expr op" and step: "same_context_step tb cur succ op 3 (ss_program_counter cur + 1) 1"
    using h same_context_delta(1) [OF can _ _ len(1), of 3 3 1 1 "Arith ADD" St_ADD_SUB tb cur succ opcode] by (auto simp: op_codes constant_gas_cost_def)
  have z: "z = x + y" using h add_words_sum(1) [OF can, of "[x, y]" tb z "fst add_words" "snd add_words"] by (simp add: w)
  have sel: "is_sub = of_bool (op = Arith SUB)"
    using h op opcode_expr_inject [OF can] by (auto simp: pair_select_ok as_u8_def)
  show ?thesis
  proof (cases "op = Arith SUB")
    case True
    then have "alu2_step tb cur succ op z y" using h step by (simp add: alu2_step_def alu2_def w z sel)
    then show ?thesis using op by blast
  next
    case False
    then have "op = Arith ADD" using op by simp
    then have "alu2_step tb cur succ op x y" using h step by (simp add: alu2_step_def alu2_def w z sel)
    then show ?thesis using op by blast
  qed
qed

lemma add_sub_complete:
  fixes cur :: "'f :: field StepState"
  assumes can: "canonical (repr :: 'f \<Rightarrow> nat)" and tag: "FT_ResponsibleOpcode \<in> set (tb_fixed_tags tb)" and op: "op \<in> {Arith ADD, Arith SUB}"
    and step: "alu2_step tb cur succ op x y"
  defines "p \<equiv> if op = Arith SUB then x - y else x" and "q \<equiv> if op = Arith SUB then x else x + y"
  shows "cb_ok tb f l (add_sub_configure (opcode_expr op, range_check_assign repr 8 (ss_gas_left succ)) (assign_word32 p) (assign_word32 y) (assign_word32 q)
    (of_nat (sum_list (map lo [p, y]) div 2 ^ 128), of_nat (sum_list (map unat [p, y]) div 2 ^ 256)) (of_bool (op = Arith SUB)) (cb_new cur succ r (Opcode_State St_ADD_SUB)))"
proof -
  have "q = sum_list [p, y]" by (simp add: p_def q_def)
  then have "rqs_ok tb 1 (add_words_construct False [assign_word32 p, assign_word32 y] (assign_word32 q)
      (of_nat (sum_list (map lo [p, y]) div 2 ^ 128), of_nat (sum_list (map unat [p, y]) div 2 ^ 256) :: 'f))"
    using add_words_sum(1) [OF can, of "[p, y]" tb q] by simp
  moreover have "same_context_ok tb cur succ (Opcode_State St_ADD_SUB) (opcode_expr op) (range_check_assign repr 8 (ss_gas_left succ)) (delta_step 3 1 1 (Arith ADD))"
    using op step by (intro same_context_delta(2) [OF can _ _ tag]) (auto simp: op_codes constant_gas_cost_def alu2_step_def)
  moreover have "rqs_ok tb 1 (pair_select_construct (opcode_expr op) (opcode_expr (Arith SUB)) (opcode_expr (Arith ADD)) (of_bool (op = Arith SUB) :: 'f))"
    using op by (auto simp: pair_select_ok)
  ultimately show ?thesis unfolding add_sub_configure_ok using step op by (auto simp: alu2_step_def alu2_def p_def q_def)
qed


section \<open>Multiplication, division, remainder\<close>

definition mul_div_mod_selectors :: "'f :: field \<Rightarrow> 'f \<times> 'f \<times> 'f" where
  "mul_div_mod_selectors opcode =
     ((opcode_expr (Arith DIV) - opcode) * (opcode_expr (Arith MOD) - opcode) * inverse 8,
      (opcode - opcode_expr (Arith MUL)) * (opcode_expr (Arith MOD) - opcode) * inverse 4,
      (opcode - opcode_expr (Arith MUL)) * (opcode - opcode_expr (Arith DIV)) * inverse 8)"

lemma mul_div_mod_configure_ok:
  assumes "mul_div_mod_selectors opcode = (is_mul, is_div, is_mod)" and "is_zero = is_zero_word_expr (to_word b) divisor_is_zero"
  shows "cb_ok tb f l (mul_div_mod_configure (opcode, parts) a b c d mul_add_words divisor_is_zero lt_word (cb_new cur succ r s)) \<longleftrightarrow>
     list_all byte_cell a \<and> list_all byte_cell b \<and> list_all byte_cell c \<and> list_all byte_cell d \<and>
     rqs_ok tb 1 (mul_add_words_construct a b c d mul_add_words) \<and> rqs_ok tb 1 (is_zero_word_construct (to_word b) divisor_is_zero) \<and>
     rqs_ok tb 1 (lt_word_construct (to_word c) (to_word b) lt_word) \<and>
     stack_row tb cur 0 False 0 (word_select is_mul (to_word a) (to_word d)) \<and> stack_row tb cur 1 False 1 (to_word b) \<and>
     stack_row tb cur 2 True 1 (add_unchecked (add_unchecked (mul_selector (to_word d) is_mul)
       (mul_selector (to_word a) (is_div * (1 - is_zero)))) (mul_selector (to_word c) (is_mod * (1 - is_zero)))) \<and>
     mul_selector (to_word c) is_mul = (0, 0) \<and>
     (is_mul = 1 \<or> ((lt_word_expr lt_word = 1 \<or> is_zero = 1) \<and> mul_add_words_overflow a b mul_add_words = 0)) \<and>
     same_context_ok tb cur succ s opcode parts (delta_step 3 1 1 (Arith MUL))"
proof -
  have sel: "(opcode_expr (Arith DIV) - opcode) * (opcode_expr (Arith MOD) - opcode) * inverse 8 = is_mul"
    "(opcode - opcode_expr (Arith MUL)) * (opcode_expr (Arith MOD) - opcode) * inverse 4 = is_div"
    "(opcode - opcode_expr (Arith MUL)) * (opcode - opcode_expr (Arith DIV)) * inverse 8 = is_mod"
    using assms(1) by (simp_all add: mul_div_mod_selectors_def)
  show ?thesis
    unfolding mul_div_mod_configure_def Let_def fst_conv sel assms(2) [symmetric]
    by (simp add: gadget_simps)
qed


lemma mul_div_mod_selectors_eq:
  assumes can: "canonical (repr :: 'f :: field \<Rightarrow> nat)" and op: "op \<in> {Arith MUL, Arith DIV, Arith MOD}"
  shows "mul_div_mod_selectors (opcode_expr op) = (of_bool (op = Arith MUL), of_bool (op = Arith DIV), of_bool (op = Arith MOD) :: 'f)"
proof -
  have "(of_nat 8 :: 'f) \<noteq> of_nat 0" "(of_nat 4 :: 'f) \<noteq> of_nat 0" using canonicalD [OF can, of 8 0] canonicalD [OF can, of 4 0] by simp_all
  then have nz: "(8 :: 'f) \<noteq> 0" "(4 :: 'f) \<noteq> 0" by simp_all
  have e: "opcode_expr (Arith MUL) = (2 :: 'f)" "opcode_expr (Arith DIV) = (4 :: 'f)" "opcode_expr (Arith MOD) = (6 :: 'f)"
    by (simp_all add: opcode_expr_def unat_as_u64 as_u8_def)
  show ?thesis using op nz by (auto simp: mul_div_mod_selectors_def e)
qed

lemma word_from_u256_zero [simp]: "word_from_u256 0 = (0, 0 :: 'f :: field)"
  by (simp add: word_from_u256_eq lo_def hi_def)

lemma word_is_zero: "canonical (repr :: 'f :: field \<Rightarrow> nat) \<Longrightarrow> word_from_u256 w = (0, 0 :: 'f) \<longleftrightarrow> w = 0"
  using word_inject [of repr w 0] by simp

lemma word_combine_simps [simp]:
  "mul_selector w 1 = w" "mul_selector w 0 = (0, 0)" "add_unchecked w (0, 0) = w" "add_unchecked (0, 0) w = w"
  by (simp_all add: mul_selector_def add_unchecked_def)

text \<open>Quotient and remainder are unique.\<close>

lemma quotient_remainder:
  fixes q y r x :: Word
  assumes "unat q * unat y + unat r < 2 ^ 256" and "x = q * y + r" and "r < y"
  shows "q = x div y" and "r = x mod y"
proof -
  have x: "unat x = unat q * unat y + unat r"
    unfolding assms(2) using assms(1) by (simp add: unat_word_ariths mod_simps)
  have ry: "unat r < unat y" using assms(3) by (simp add: word_less_nat_alt)
  then have "unat x div unat y = unat q" "unat x mod unat y = unat r" unfolding x by simp_all
  then show "q = x div y" "r = x mod y" by (simp_all add: word_unat_eq_iff unat_div unat_mod)
qed

lemma mul_div_mod_sound:
  fixes cur :: "'f :: field StepState"
  assumes can: "canonical (repr :: 'f \<Rightarrow> nat)" and len: "length parts = 8" "length a = 32" "length b = 32" "length c = 32" "length d = 32"
    "length (fst mul_add) = 9" "length (snd mul_add) = 9" "length (snd (fst (fst lt_word))) = 16" "length (snd (snd lt_word)) = 16"
    and ok: "cb_ok tb f l (mul_div_mod_configure (opcode, parts) a b c d mul_add divisor_is_zero lt_word (cb_new cur succ r (Opcode_State St_MUL_DIV_MOD)))"
  shows "\<exists>op \<in> {Arith MUL, Arith DIV, Arith MOD}. \<exists>x y. alu2_step tb cur succ op x y"
proof -
  obtain is_mul is_div is_mod where sel: "mul_div_mod_selectors opcode = (is_mul, is_div, is_mod)" by (metis prod.collapse)
  note h = ok [unfolded mul_div_mod_configure_ok [OF sel refl]]
  obtain x y z v where w: "a = assign_word32 x" "b = assign_word32 y" "c = assign_word32 z" "d = assign_word32 v" using h len word32_cells by metis
  obtain op where op: "op \<in> {Arith MUL, Arith DIV, Arith MOD}" "opcode = opcode_expr op"
    and step: "same_context_step tb cur succ op 3 (ss_program_counter cur + 1) 1"
    using h same_context_delta(1) [OF can _ _ len(1), of 3 3 1 1 "Arith MUL" St_MUL_DIV_MOD tb cur succ opcode] by (auto simp: op_codes constant_gas_cost_def)
  have s: "is_mul = of_bool (op = Arith MUL)" "is_div = of_bool (op = Arith DIV)" "is_mod = of_bool (op = Arith MOD)"
    using sel mul_div_mod_selectors_eq [OF can op(1)] by (simp_all add: op(2))
  have v: "v = x * y + z" and g: "mul_add = (bytes9 (carry0 x y (lo z)), bytes9 (carry1 x y (lo z) (hi z)))"
    using h mul_add_words_ok [OF can len(6,7)] by (simp_all add: w)
  have zero: "is_zero_word_expr (to_word b) divisor_is_zero = of_bool (y = 0)"
    using h is_zero_word_expr [of tb "to_word b"] word_is_zero [OF can, of y] by (simp add: w)
  have lt: "lt_word_expr lt_word = of_bool (z < y)" using h lt_word_sound [OF can len(8,9), of tb z y] by (simp add: w)
  show ?thesis
  proof (cases "op = Arith MUL")
    case True
    then have "z = 0" using h word_is_zero [OF can, of z] by (simp add: w s)
    then have "alu2_step tb cur succ op x y" using h step True by (simp add: alu2_step_def alu2_def w s v)
    then show ?thesis using op by blast
  next
    case False
    then have ov: "unat x * unat y + unat z < 2 ^ 256" using h mul_add_words_overflow_ok [OF can, of x y _ z] by (simp add: w s g)
    have "y \<noteq> 0 \<Longrightarrow> z < y" using h False by (simp add: s zero lt)
    then have "y \<noteq> 0 \<Longrightarrow> x = v div y \<and> z = v mod y" using quotient_remainder [OF ov v] by blast
    then have z: "alu2 op v y = (if y = 0 then 0 else if op = Arith DIV then x else z)" using False op(1) by (auto simp: alu2_def)
    have "stack_row tb cur 0 False 0 (word_from_u256 v)" "stack_row tb cur 1 False 1 (word_from_u256 y)" using h False by (simp_all add: w s)
    moreover have "stack_row tb cur 2 True 1 (word_from_u256 (alu2 op v y))"
      using h False op(1) unfolding zero unfolding s w to_word_word z by (cases "y = 0"; cases "op = Arith DIV") simp_all
    ultimately have "alu2_step tb cur succ op v y" using step by (simp only: alu2_step_def simp_thms)
    then show ?thesis using op by blast
  qed
qed

end
