(* ===== verification/Step_Complete.thy ===== *)
theory Step_Complete
  imports Step_Sound
begin

text \<open>
  The assignments of the arithmetic gadgets: for a step whose rows are in the tables, the cells that \<open>assign_exec_step\<close> computes satisfy the
  constraints of the gadget.
\<close>

section \<open>Assignments\<close>

definition step_rows :: "RwMap \<Rightarrow> ExecStep \<Rightarrow> OpcodeId \<Rightarrow> Word list \<Rightarrow> bool" where
  "step_rows rws step op vs \<longleftrightarrow> es_opcode step = Some op \<and> es_gas_cost step \<le> es_gas_left step \<and>
     list_all (\<lambda>(i, v). rws_stack_value rws step i = Inr v) (enumerate 0 vs)"

lemma same_context_assign_eq:
  assumes "step_rows rws step op vs"
  shows "same_context_assign repr step = Inr (opcode_expr op, range_check_assign repr 8 (of_nat (unat (es_gas_left step - es_gas_cost step))))"
    and "step_opcode step = Inr op"
  using assms by (simp_all add: step_rows_def same_context_assign_def step_opcode_def u64_sub_def ok_or_def)

lemma add_sub_assign_complete:
  fixes cur :: "'f :: field StepState"
  assumes can: "canonical (repr :: 'f \<Rightarrow> nat)" and tag: "FT_ResponsibleOpcode \<in> set (tb_fixed_tags tb)" and op: "op \<in> {Arith ADD, Arith SUB}"
    and rows: "step_rows rws step op [x, y, alu2 op x y]" and gas: "ss_gas_left succ = of_nat (unat (es_gas_left step - es_gas_cost step))"
    and step: "alu2_step tb cur succ op x y"
  shows "\<exists>g a b c w i. add_sub_assign repr rws step = Inr (g, (a, b, c), w, i) \<and>
    cb_ok tb f l (add_sub_configure g a b c w i (cb_new cur succ r (Opcode_State St_ADD_SUB)))"
proof -
  let ?p = "if op = Arith SUB then x - y else x" and ?q = "if op = Arith SUB then x else x + y"
  have "mapE (rws_stack_value rws step) (if op = Arith SUB then [2, 1, 0] else [0, 1, 2]) = Inr [?p, y, ?q]"
    using rows op by (auto simp: step_rows_def alu2_def numeral_2_eq_2)
  moreover have "add_words_assign False [?p, y] ?q =
      (Inr (of_nat (sum_list (map lo [?p, y]) div 2 ^ 128), of_nat (sum_list (map unat [?p, y]) div 2 ^ 256)) :: ('f \<times> 'f, bm_error) result)"
    by (rule add_words_assign_eq) simp_all
  moreover have "pair_select_assign (opcode_expr op) (opcode_expr (Arith SUB)) (opcode_expr (Arith ADD)) = (of_bool (op = Arith SUB) :: 'f)"
    using op opcode_expr_inject [OF can] by (auto simp: pair_select_assign_def as_u8_def)
  ultimately have "add_sub_assign repr rws step = Inr ((opcode_expr op, range_check_assign repr 8 (ss_gas_left succ)),
      (assign_word32 ?p, assign_word32 y, assign_word32 ?q),
      (of_nat (sum_list (map lo [?p, y]) div 2 ^ 128), of_nat (sum_list (map unat [?p, y]) div 2 ^ 256)), of_bool (op = Arith SUB))"
    unfolding add_sub_assign_def same_context_assign_eq [OF rows] gas by simp
  then show ?thesis using add_sub_complete [OF can tag op step] by blast
qed

section \<open>Completeness of multiplication\<close>

lemma mul_div_mod_words_eq:
  assumes op: "op \<in> {Arith MUL, Arith DIV, Arith MOD}"
  shows "\<exists>a b c d. mul_div_mod_words op x y (alu2 op x y) = Inr (a, b, c, d) \<and> b = y \<and> d = a * b + c \<and> d = (if op = Arith MUL then x * y else x) \<and>
    (op = Arith MUL \<longrightarrow> a = x \<and> c = 0) \<and>
    (op \<noteq> Arith MUL \<longrightarrow> (y \<noteq> 0 \<longrightarrow> a = x div y \<and> c = x mod y) \<and> unat a * unat b + unat c < 2 ^ 256)"
proof -
  have ux: "unat x < 2 ^ 256" using unsigned_less [of x, where ?'a = nat] by simp
  have dm: "unat (x div y) * unat y + unat (x mod y) = unat x" by (simp add: unat_div unat_mod)
  then have le: "unat (x div y) * unat y \<le> unat x" by linarith
  then have m: "u256_mul (x div y) y = Inr (x div y * y)" using ux by (simp add: u256_mul_def)
  have "unat (x div y * y) = unat (x div y) * unat y" using le ux by (simp add: unat_word_ariths)
  then have s: "u256_sub x (x div y * y) = Inr (x - x div y * y)" using le by (simp add: u256_sub_def word_le_nat_alt)
  have r: "x - x div y * y = x mod y" by (simp add: minus_div_mult_eq_mod)
  have z: "u256_mul 0 (0 :: Word) = Inr 0" "u256_sub x 0 = Inr x" by (simp_all add: u256_mul_def u256_sub_def)
  show ?thesis using op m s dm ux
    by (cases "y = 0") (auto simp: mul_div_mod_words_def alu2_def r z div_mult_mod_eq)
qed

lemma mul_div_mod_complete:
  fixes cur :: "'f :: field StepState"
  assumes can: "canonical (repr :: 'f \<Rightarrow> nat)" and tag: "FT_ResponsibleOpcode \<in> set (tb_fixed_tags tb)" and op: "op \<in> {Arith MUL, Arith DIV, Arith MOD}"
    and rows: "step_rows rws step op [x, y, alu2 op x y]" and gas: "ss_gas_left succ = of_nat (unat (es_gas_left step - es_gas_cost step))"
    and step: "alu2_step tb cur succ op x y"
  shows "\<exists>g a b c d m z t. mul_div_mod_assign repr rws step = Inr (g, (a, b, c, d), m, z, t) \<and>
    cb_ok tb f l (mul_div_mod_configure g a b c d m z t (cb_new cur succ r (Opcode_State St_MUL_DIV_MOD)))"
proof -
  obtain a c d where w: "mul_div_mod_words op x y (alu2 op x y) = Inr (a, y, c, d)" "d = a * y + c" "d = (if op = Arith MUL then x * y else x)"
    "op = Arith MUL \<Longrightarrow> a = x \<and> c = 0" "op \<noteq> Arith MUL \<Longrightarrow> y \<noteq> 0 \<Longrightarrow> a = x div y \<and> c = x mod y" "op \<noteq> Arith MUL \<Longrightarrow> unat a * unat y + unat c < 2 ^ 256"
    using mul_div_mod_words_eq [OF op] by metis
  let ?g = "(opcode_expr op, range_check_assign repr 8 (ss_gas_left succ))"
  let ?m = "(bytes9 (carry0 a y (lo c)), bytes9 (carry1 a y (lo c) (hi c))) :: 'f list \<times> 'f list"
  let ?z = "fst (is_zero_word_assign (word_from_u256 y)) :: 'f \<times> 'f" and ?t = "lt_word_assign repr c y"
  have vs: "mapE (rws_stack_value rws step) [0, 1, 2] = Inr [x, y, alu2 op x y]" using rows by (simp add: step_rows_def numeral_2_eq_2)
  have assign: "mul_div_mod_assign repr rws step = Inr (?g, (assign_word32 a, assign_word32 y, assign_word32 c, assign_word32 d), ?m, ?z, ?t)"
    unfolding mul_div_mod_assign_def same_context_assign_eq [OF rows] gas vs by (simp add: w(1) mul_add_words_assign_eq [OF w(2)])
  have sel: "mul_div_mod_selectors (opcode_expr op) = (of_bool (op = Arith MUL), of_bool (op = Arith DIV), of_bool (op = Arith MOD) :: 'f)"
    by (rule mul_div_mod_selectors_eq [OF can op])
  have zok: "rqs_ok tb 1 (is_zero_word_construct (word_from_u256 y) ?z)" by (simp add: is_zero_word_ok)
  then have zero: "is_zero_word_expr (to_word (assign_word32 y)) ?z = of_bool (y = 0)"
    using is_zero_word_expr [OF zok] word_is_zero [OF can, of y] by simp
  have tok: "rqs_ok tb 1 (lt_word_construct (word_from_u256 c) (word_from_u256 y) ?t)" by (rule lt_word_complete(1) [OF can])
  have lt: "lt_word_expr ?t = of_bool (c < y)" using lt_word_sound [OF can _ _ tok] lt_word_complete(2,3) [OF can] by blast
  have mok: "rqs_ok tb 1 (mul_add_words_construct (assign_word32 a) (assign_word32 y) (assign_word32 c) (assign_word32 d) ?m)"
    using mul_add_words_ok [OF can, of ?m tb a y c d] w(2) by (simp add: bytes9_facts(1))
  have ov: "op \<noteq> Arith MUL \<Longrightarrow> mul_add_words_overflow (assign_word32 a) (assign_word32 y) ?m = 0"
    using mul_add_words_overflow_ok [OF can] w(6) by blast
  have less: "op \<noteq> Arith MUL \<Longrightarrow> y \<noteq> 0 \<Longrightarrow> c < y" using w(5) by (simp add: word_less_nat_alt unat_mod word_neq_0_conv [symmetric] unat_gt_0)
  have ctx: "same_context_ok tb cur succ (Opcode_State St_MUL_DIV_MOD) (opcode_expr op) (range_check_assign repr 8 (ss_gas_left succ)) (delta_step 3 1 1 (Arith MUL))"
    using op step by (intro same_context_delta(2) [OF can _ _ tag]) (auto simp: op_codes constant_gas_cost_def alu2_step_def)
  have "cb_ok tb f l (mul_div_mod_configure ?g (assign_word32 a) (assign_word32 y) (assign_word32 c) (assign_word32 d) ?m ?z ?t (cb_new cur succ r (Opcode_State St_MUL_DIV_MOD)))"
    unfolding mul_div_mod_configure_ok [OF sel zero [symmetric]] using step ctx mok zok tok op ov less w(3-5)
    by (cases "y = 0") (auto simp: alu2_step_def alu2_def lt)
  with assign show ?thesis by blast
qed

end
