(* ===== verification/Logic_Gadgets.thy ===== *)
theory Logic_Gadgets
  imports Step_Sound
begin

text \<open>
  Soundness of the gadgets that compare words and work on their bytes and bits.
\<close>

section \<open>Comparison\<close>

text \<open>A hypothesis on the table of reads and writes for the gadgets that do not check their operands: its values are words of two halves.\<close>

definition rw_words :: "'f :: field Tables \<Rightarrow> bool" where
  "rw_words tb \<longleftrightarrow> (\<forall>row \<in> set (tb_rw tb). \<exists>x. (row ! 8, row ! 9) = word_from_u256 x)"

lemma stack_row_word: "rw_words tb \<Longrightarrow> stack_row tb cur k w off v \<Longrightarrow> \<exists>x. v = word_from_u256 x"
  by (force simp: rw_words_def stack_row_def rw_row_def rw_values_new_def numeral_eq_Suc)

lemma comparator_configure_ok:
  assumes "is_eq_expr = is_zero_expression (opcode - opcode_expr (Arith EQ)) is_eq" and "is_gt_expr = is_zero_expression (opcode - opcode_expr (Arith GT)) is_gt"
  shows "cb_ok tb f l (comparator_configure (opcode, parts) a b is_eq is_gt cmp res (cb_new cur succ r s)) \<longleftrightarrow>
     rqs_ok tb 1 (is_equal_construct opcode (opcode_expr (Arith EQ)) is_eq) \<and> rqs_ok tb 1 (is_equal_construct opcode (opcode_expr (Arith GT)) is_gt) \<and>
     rqs_ok tb 1 (cmp_words_construct a b cmp) \<and> res = select_expr is_eq_expr (cmp_words_eq cmp) (cmp_words_lt cmp) \<and>
     stack_row tb cur 0 False 0 (word_select is_gt_expr b a) \<and> stack_row tb cur 1 False 1 (word_select is_gt_expr a b) \<and>
     stack_row tb cur 2 True 1 (from_lo_unchecked res) \<and> same_context_ok tb cur succ s opcode parts (delta_step 3 1 1 (Arith LT))"
  unfolding comparator_configure_def Let_def fst_conv assms [symmetric] by (simp add: gadget_simps)

lemma from_lo_of_bool: "from_lo_unchecked (of_bool p) = (word_from_u256 (of_bool p) :: 'f :: field \<times> 'f)"
  by (cases p) (simp_all add: from_lo_unchecked_def word_from_u256_eq lo_def hi_def)

lemma comparator_sound:
  fixes cur :: "'f :: field StepState"
  assumes can: "canonical (repr :: 'f \<Rightarrow> nat)" and words: "rw_words tb" and len: "length parts = 8" "length (snd (fst (fst cmp))) = 16" "length (snd (fst (snd cmp))) = 16"
    and ok: "cb_ok tb f l (comparator_configure (opcode, parts) a b is_eq is_gt cmp res (cb_new cur succ r (Opcode_State St_CMP)))"
  shows "\<exists>op \<in> {Arith LT, Arith GT, Arith EQ}. \<exists>x y. alu2_step tb cur succ op x y"
proof -
  note h = ok [unfolded comparator_configure_ok [OF refl refl]]
  obtain op where op: "op \<in> {Arith LT, Arith GT, Arith EQ}" "opcode = opcode_expr op" and step: "same_context_step tb cur succ op 3 (ss_program_counter cur + 1) 1"
    using h same_context_delta(1) [OF can _ _ len(1), of 3 3 1 1 "Arith LT" St_CMP tb cur succ opcode] by (auto simp: op_codes constant_gas_cost_def)
  have sel: "is_zero_expression (opcode - opcode_expr (Arith EQ)) is_eq = of_bool (op = Arith EQ)"
    "is_zero_expression (opcode - opcode_expr (Arith GT)) is_gt = of_bool (op = Arith GT)"
    using h op opcode_expr_inject [OF can] is_zero_construct_expr [of tb "opcode - opcode_expr (Arith EQ)" is_eq]
      is_zero_construct_expr [of tb "opcode - opcode_expr (Arith GT)" is_gt] by (auto simp: is_equal_construct_def as_u8_def)
  note h = h [unfolded sel]
  have "\<exists>v w. a = word_from_u256 v \<and> b = word_from_u256 w"
  proof (cases "op = Arith GT")
    case True
    then have "stack_row tb cur 0 False 0 b" "stack_row tb cur 1 False 1 a" using h by simp_all
    then show ?thesis using stack_row_word [OF words] by blast
  next
    case False
    then have "stack_row tb cur 0 False 0 a" "stack_row tb cur 1 False 1 b" using h by simp_all
    then show ?thesis using stack_row_word [OF words] by blast
  qed
  then obtain v w where vw: "a = word_from_u256 v" "b = word_from_u256 w" by blast
  have "cmp_words_lt cmp = of_bool (v < w)" "cmp_words_eq cmp = of_bool (v = w)" using h cmp_words_sound [OF can len(2,3), of tb v w] by (simp_all add: vw)
  then have res: "from_lo_unchecked res = word_from_u256 (of_bool (if op = Arith EQ then v = w else v < w))"
  proof -
    have "res = of_bool (if op = Arith EQ then v = w else v < w)"
      using h \<open>cmp_words_lt cmp = of_bool (v < w)\<close> \<open>cmp_words_eq cmp = of_bool (v = w)\<close> by (cases "op = Arith EQ") (simp_all add: select_expr_def)
    then show ?thesis by (simp only: from_lo_of_bool)
  qed
  have "alu2_step tb cur succ op (if op = Arith GT then w else v) (if op = Arith GT then v else w)"
  proof -
    have "alu2 op (if op = Arith GT then w else v) (if op = Arith GT then v else w) = of_bool (if op = Arith EQ then v = w else v < w)"
      using op(1) by (auto simp: alu2_def)
    then show ?thesis using h step unfolding alu2_step_def res vw by (simp split: if_splits)
  qed
  then show ?thesis using op(1) by blast
qed

lemma is_zero_configure_ok:
  "cb_ok tb f l (is_zero_configure (opcode, parts) v is_zero_word (cb_new cur succ r s)) \<longleftrightarrow>
     rqs_ok tb 1 (is_zero_word_construct v is_zero_word) \<and> stack_row tb cur 0 False 0 v \<and>
     stack_row tb cur 1 True 0 (from_lo_unchecked (is_zero_word_expr v is_zero_word)) \<and>
     same_context_ok tb cur succ s opcode parts (delta_step 2 1 0 (Arith ISZERO))"
  by (simp add: is_zero_configure_def gadget_simps)

lemma is_zero_sound:
  fixes cur :: "'f :: field StepState"
  assumes can: "canonical (repr :: 'f \<Rightarrow> nat)" and words: "rw_words tb" and len: "length parts = 8"
    and ok: "cb_ok tb f l (is_zero_configure (opcode, parts) v is_zero_word (cb_new cur succ r (Opcode_State St_ISZERO)))"
  shows "\<exists>x. alu1_step tb cur succ (Arith ISZERO) x"
proof -
  note h = ok [unfolded is_zero_configure_ok]
  obtain x where x: "v = word_from_u256 x" using h stack_row_word [OF words] by blast
  have step: "same_context_step tb cur succ (Arith ISZERO) 2 (ss_program_counter cur + 1) 0"
    using h same_context_delta(1) [OF can _ _ len, of 2 2 0 0 "Arith ISZERO" St_ISZERO tb cur succ opcode] by (auto simp: op_codes)
  have "is_zero_word_expr v is_zero_word = of_bool (x = 0)" using h is_zero_word_expr [of tb v] word_is_zero [OF can, of x] by (simp add: x)
  then have "alu1_step tb cur succ (Arith ISZERO) x"
    using h step from_lo_of_bool [of "x = 0", where ?'f = 'f] by (simp add: alu1_step_def alu1_def x)
  then show ?thesis by blast
qed

section \<open>Bytes of words\<close>

lemma byte_bit:
  fixes w :: Word
  assumes "i < 32"
  shows "bit (le_bytes 32 (unat w) ! i) j \<longleftrightarrow> j < 8 \<and> bit w (8 * i + j)"
proof -
  have "(256 :: nat) ^ i = 2 ^ (8 * i)" by (simp add: power_mult)
  then have "le_bytes 32 (unat w) ! i = (of_nat (drop_bit (8 * i) (unat w)) :: u8)" using assms by (simp add: le_bytes_def drop_bit_eq_div)
  then show ?thesis by (auto simp: bit_of_nat_iff bit_drop_bit_eq bit_unsigned_iff)
qed

lemma bytes_eq_iff:
  fixes v w :: Word
  shows "v = w \<longleftrightarrow> (\<forall>i < 32. le_bytes 32 (unat v) ! i = le_bytes 32 (unat w) ! i)"
proof
  assume h: "\<forall>i < 32. le_bytes 32 (unat v) ! i = le_bytes 32 (unat w) ! i"
  show "v = w"
  proof (rule bit_word_eqI)
    fix n assume "n < LENGTH(256)"
    then have "n div 8 < 32" by simp
    then have "bit v (8 * (n div 8) + n mod 8) = bit w (8 * (n div 8) + n mod 8)"
      using h byte_bit [of "n div 8" v "n mod 8"] byte_bit [of "n div 8" w "n mod 8"] by simp
    then show "bit v n = bit w n" by simp
  qed
qed simp

lemma bytes_and:
  fixes v w :: Word
  assumes "i < 32"
  shows "le_bytes 32 (unat (and v w)) ! i = and (le_bytes 32 (unat v) ! i) (le_bytes 32 (unat w) ! i)"
    and "le_bytes 32 (unat (or v w)) ! i = or (le_bytes 32 (unat v) ! i) (le_bytes 32 (unat w) ! i)"
    and "le_bytes 32 (unat (xor v w)) ! i = xor (le_bytes 32 (unat v) ! i) (le_bytes 32 (unat w) ! i)"
  by (rule bit_word_eqI; auto simp: byte_bit [OF assms] bit_and_iff bit_or_iff bit_xor_iff)+


section \<open>Bitwise operations\<close>

lemma fold_lookups:
  "cb_constraints_location cb = CL_Step \<Longrightarrow> cb_conditions cb = [] \<Longrightarrow>
     cb_ok tb f l (fold (\<lambda>i. cb_add_lookup (g i)) is cb) \<longleftrightarrow> cb_ok tb f l cb \<and> (\<forall>i \<in> set is. lookup_ok tb (g i))"
  "cb_frame (fold (\<lambda>i. cb_add_lookup (g i)) is cb) = cb_frame cb"
  by (induction "is" arbitrary: cb) (auto simp: lookup_ok_conditional cb_frame_add_lookup)

lemmas fold_lookups_fields [simp] = cb_frame_fields [OF fold_lookups(2)]

lemma bitwise_configure_ok:
  assumes "tag = of_nat (fixed_tag_u64 FT_BitwiseAnd) + (opcode - opcode_expr (Arith AND))"
  shows "cb_ok tb f l (bitwise_configure (opcode, parts) a b c (cb_new cur succ r s)) \<longleftrightarrow>
     list_all byte_cell a \<and> list_all byte_cell b \<and> list_all byte_cell c \<and> stack_row tb cur 0 False 0 (to_word a) \<and>
     stack_row tb cur 1 False 1 (to_word b) \<and> stack_row tb cur 2 True 1 (to_word c) \<and>
     (\<forall>i < 32. lookup_ok tb (LK_Fixed tag [a ! i, b ! i, c ! i])) \<and> same_context_ok tb cur succ s opcode parts (delta_step 3 1 1 (Arith AND))"
  unfolding bitwise_configure_def Let_def fst_conv assms [symmetric] by (simp add: gadget_simps fold_lookups(1)) auto

lemma bytewise_row: "(x, y, z) \<in> set (bytewise_rows f) \<longleftrightarrow> x < 256 \<and> y < 256 \<and> z = f x y"
  by (auto simp: bytewise_rows_def intro!: bexI [of _ x])

definition bitwise_tag :: "OpcodeId \<Rightarrow> FixedTableTag" where
  "bitwise_tag op = (if op = Arith AND then FT_BitwiseAnd else if op = Arith OR then FT_BitwiseOr else FT_BitwiseXor)"

lemma bitwise_lookup:
  fixes x y z :: u8
  assumes can: "canonical (repr :: 'f :: field \<Rightarrow> nat)" and op: "op \<in> {Arith AND, Arith OR, Arith XOR}"
  shows "lookup_ok tb (LK_Fixed (of_nat (fixed_tag_u64 (bitwise_tag op))) [of_nat (unat x), of_nat (unat y), of_nat (unat z) :: 'f]) \<longleftrightarrow>
    bitwise_tag op \<in> set (tb_fixed_tags tb) \<and> z = (if op = Arith AND then and x y else if op = Arith OR then or x y else xor x y)"
proof -
  have b: "unat (v :: u8) < 256" for v using unsigned_less [of v, where ?'a = nat] by simp
  define g where "g = (if op = Arith AND then and else if op = Arith OR then or else xor :: nat \<Rightarrow> nat \<Rightarrow> nat)"
  have rows: "fixed_rows (bitwise_tag op) = bytewise_rows g" and tag: "bitwise_tag op \<noteq> FT_Zero"
    using op by (auto simp: bitwise_tag_def fixed_rows_def g_def)
  have gb: "g m n < 256" if "m < 256" "n < 256" for m n
  proof -
    have "take_bit 8 (g m n) = g (take_bit 8 m) (take_bit 8 n)" by (simp add: g_def)
    also have "\<dots> = g m n" using that by (simp add: take_bit_nat_eq_self)
    finally show ?thesis using take_bit_nat_less_exp [of 8 "g m n"] by simp
  qed
  have inj: "(of_nat m :: 'f) = of_nat n \<longleftrightarrow> m = n" if "m < 256" "n < 256" for m n using canonicalD [OF can, of m n] that by simp
  have "lookup_ok tb (LK_Fixed (of_nat (fixed_tag_u64 (bitwise_tag op))) [of_nat (unat x), of_nat (unat y), of_nat (unat z) :: 'f]) \<longleftrightarrow>
      bitwise_tag op \<in> set (tb_fixed_tags tb) \<and> (\<exists>i j k. i < 256 \<and> j < 256 \<and> k = g i j \<and> (of_nat (unat x) :: 'f) = of_nat i \<and>
        (of_nat (unat y) :: 'f) = of_nat j \<and> (of_nat (unat z) :: 'f) = of_nat k)"
    unfolding lookup_ok_def using fixed_lookup [OF can tag] by (simp add: table_rows_def rows bytewise_row)
  also have "\<dots> \<longleftrightarrow> bitwise_tag op \<in> set (tb_fixed_tags tb) \<and> unat z = g (unat x) (unat y)"
    using inj [OF b] gb b by metis
  also have "unat z = g (unat x) (unat y) \<longleftrightarrow> z = (if op = Arith AND then and x y else if op = Arith OR then or x y else xor x y)"
    by (simp add: g_def word_unat_eq_iff unsigned_and_eq unsigned_or_eq unsigned_xor_eq)
  finally show ?thesis .
qed

lemma cells_nth: "i < 32 \<Longrightarrow> assign_word32 w ! i = of_nat (unat (le_bytes 32 (unat w) ! i))"
  by (simp add: assign_word32_def)

lemma bitwise_sound:
  fixes cur :: "'f :: field StepState"
  assumes can: "canonical (repr :: 'f \<Rightarrow> nat)" and len: "length parts = 8" "length a = 32" "length b = 32" "length c = 32"
    and ok: "cb_ok tb f l (bitwise_configure (opcode, parts) a b c (cb_new cur succ r (Opcode_State St_BITWISE)))"
  shows "\<exists>op \<in> {Arith AND, Arith OR, Arith XOR}. \<exists>x y. alu2_step tb cur succ op x y"
proof -
  note h = ok [unfolded bitwise_configure_ok [OF refl]]
  obtain x y z where w: "a = assign_word32 x" "b = assign_word32 y" "c = assign_word32 z" using h len word32_cells by metis
  obtain op where op: "op \<in> {Arith AND, Arith OR, Arith XOR}" "opcode = opcode_expr op" and step: "same_context_step tb cur succ op 3 (ss_program_counter cur + 1) 1"
    using h same_context_delta(1) [OF can _ _ len(1), of 3 3 1 1 "Arith AND" St_BITWISE tb cur succ opcode] by (auto simp: op_codes constant_gas_cost_def)
  have tag: "of_nat (fixed_tag_u64 FT_BitwiseAnd) + (opcode - opcode_expr (Arith AND)) = of_nat (fixed_tag_u64 (bitwise_tag op))"
    using op by (auto simp: bitwise_tag_def fixed_tag_u64_def opcode_expr_def unat_as_u64 as_u8_def)
  have "le_bytes 32 (unat z) ! i = le_bytes 32 (unat (alu2 op x y)) ! i" if "i < 32" for i
  proof -
    have "lookup_ok tb (LK_Fixed (of_nat (fixed_tag_u64 (bitwise_tag op))) [of_nat (unat (le_bytes 32 (unat x) ! i)), of_nat (unat (le_bytes 32 (unat y) ! i)),
        of_nat (unat (le_bytes 32 (unat z) ! i)) :: 'f])"
      using h that unfolding tag w cells_nth [OF that, symmetric] by blast
    moreover have "alu2 op x y = (if op = Arith AND then and x y else if op = Arith OR then or x y else xor x y)" using op(1) by (auto simp: alu2_def)
    ultimately show ?thesis unfolding bitwise_lookup [OF can op(1)] by (simp only: if_distrib [of "\<lambda>w. le_bytes 32 (unat w) ! i"] bytes_and [OF that])
  qed
  then have "z = alu2 op x y" using bytes_eq_iff by blast
  then have "alu2_step tb cur succ op x y" using h step by (simp add: alu2_step_def w)
  then show ?thesis using op(1) by blast
qed

lemma fold_pair_lookups:
  "fold (\<lambda>(i, out). cb_add_lookup (g i out)) ps cb = fold (\<lambda>p. cb_add_lookup (g (fst p) (snd p))) ps cb"
  by (simp add: case_prod_unfold)

lemma not_configure_ok:
  "cb_ok tb f l (not_configure (opcode, parts) input output (cb_new cur succ r s)) \<longleftrightarrow>
     list_all byte_cell input \<and> list_all byte_cell output \<and> stack_row tb cur 0 False 0 (to_word input) \<and> stack_row tb cur 1 True 0 (to_word output) \<and>
     (\<forall>p \<in> set (zip input output). lookup_ok tb (LK_Fixed (of_nat (fixed_tag_u64 FT_BitwiseXor)) [fst p, snd p, 255])) \<and>
     same_context_ok tb cur succ s opcode parts (delta_step 2 1 0 (Arith NOT))"
  unfolding not_configure_def Let_def fold_pair_lookups by (simp add: gadget_simps fold_lookups(1))

lemma not_sound:
  fixes cur :: "'f :: field StepState"
  assumes can: "canonical (repr :: 'f \<Rightarrow> nat)" and len: "length parts = 8" "length input = 32" "length output = 32"
    and ok: "cb_ok tb f l (not_configure (opcode, parts) input output (cb_new cur succ r (Opcode_State St_NOT)))"
  shows "\<exists>x. alu1_step tb cur succ (Arith NOT) x"
proof -
  note h = ok [unfolded not_configure_ok]
  obtain x y where w: "input = assign_word32 x" "output = assign_word32 y" using h len word32_cells by metis
  have step: "same_context_step tb cur succ (Arith NOT) 2 (ss_program_counter cur + 1) 0"
    using h same_context_delta(1) [OF can _ _ len(1), of 2 2 0 0 "Arith NOT" St_NOT tb cur succ opcode] by (auto simp: op_codes)
  have "le_bytes 32 (unat (xor x y)) ! i = le_bytes 32 (unat (- 1 :: Word)) ! i" if "i < 32" for i
  proof -
    have "le_bytes 32 (unat (- 1 :: Word)) ! i = mask 8" by (rule bit_word_eqI) (use that in \<open>auto simp: byte_bit bit_mask_iff\<close>)
    then have m: "le_bytes 32 (unat (- 1 :: Word)) ! i = 255" by (simp add: mask_eq_exp_minus_1)
    have "(assign_word32 x ! i, assign_word32 y ! i) \<in> set (zip (assign_word32 x) (assign_word32 y :: 'f list))"
      using that by (auto simp: in_set_zip)
    then have "lookup_ok tb (LK_Fixed (of_nat (fixed_tag_u64 (bitwise_tag (Arith XOR)))) [of_nat (unat (le_bytes 32 (unat x) ! i)),
        of_nat (unat (le_bytes 32 (unat y) ! i)), of_nat (unat (255 :: u8)) :: 'f])"
      using h unfolding w cells_nth [OF that, symmetric] by (auto simp: bitwise_tag_def)
    then show ?thesis unfolding m bytes_and [OF that]
      using bitwise_lookup [OF can, of "Arith XOR" tb "le_bytes 32 (unat x) ! i" "le_bytes 32 (unat y) ! i" 255] by simp
  qed
  then have "xor x y = - 1" using bytes_eq_iff by blast
  then have "xor x (xor x y) = xor x (- 1)" by (rule arg_cong)
  then have "y = not x" by (simp add: xor.assoc [symmetric])
  then have "alu1_step tb cur succ (Arith NOT) x" using h step by (simp add: alu1_step_def alu1_def w)
  then show ?thesis by blast
qed


section \<open>A byte of a word\<close>

lemma byte_configure_ok:
  assumes "msb_sum = sum_expr (take 31 (drop 1 index))"
    and "selected = map (\<lambda>idx. is_zero_expression (index ! 0 - of_nat (31 - idx)) (is_byte_selected ! idx)) [0..<32]"
  shows "cb_ok tb f l (byte_configure (opcode, parts) index v is_msb_sum_zero is_byte_selected (cb_new cur succ r s)) \<longleftrightarrow>
     list_all byte_cell index \<and> list_all byte_cell v \<and> rqs_ok tb 1 (is_zero_construct msb_sum is_msb_sum_zero) \<and>
     (\<forall>idx < 32. rqs_ok tb 1 (is_equal_construct (index ! 0) (of_nat (31 - idx)) (is_byte_selected ! idx))) \<and>
     stack_row tb cur 0 False 0 (to_word index) \<and> stack_row tb cur 1 False 1 (to_word v) \<and>
     stack_row tb cur 2 True 1 (from_lo_unchecked
       (foldl (\<lambda>acc (cell, is_selected). acc + is_selected * is_zero_expression msb_sum is_msb_sum_zero * cell) 0 (zip v selected))) \<and>
     same_context_ok tb cur succ s opcode parts (delta_step 3 1 1 (Arith BYTE))"
proof -
  have c: "rqs_ok tb 1 (concat (map g is)) \<longleftrightarrow> (\<forall>i \<in> set is. rqs_ok tb 1 (g i))" for g and "is" :: "nat list" by (induction "is") auto
  show ?thesis unfolding byte_configure_def Let_def assms [symmetric] by (simp add: gadget_simps c Ball_def)
qed

lemma foldl_selected:
  fixes z :: "'f :: field"
  shows "foldl (\<lambda>acc (cell, is_selected). acc + is_selected * z * cell) a ps = a + (\<Sum>(cell, is_selected) \<leftarrow> ps. is_selected * z * cell)"
  by (induction ps arbitrary: a) (auto simp: add.assoc)

lemma word_from_byte:
  assumes "n < 256"
  shows "from_lo_unchecked (of_nat n) = (word_from_u256 (of_nat n) :: 'f :: field \<times> 'f)"
proof -
  have "unat (of_nat n :: Word) = n" using assms by (intro unat_small) simp
  then show ?thesis using assms by (simp add: from_lo_unchecked_def word_from_u256_eq lo_def hi_def)
qed

lemma byte_of_word: "i < 32 \<Longrightarrow> and (drop_bit (8 * i) w) 255 = (of_nat (unat (le_bytes 32 (unat w) ! i)) :: Word)"
proof -
  assume i: "i < 32"
  have m: "(255 :: Word) = mask 8" by (simp add: mask_eq_exp_minus_1)
  show ?thesis unfolding m
    by (rule bit_word_eqI) (auto simp: byte_bit [OF i] bit_and_iff bit_mask_iff bit_drop_bit_eq bit_unsigned_iff)
qed

lemma byte_sound:
  fixes cur :: "'f :: field StepState"
  assumes can: "canonical (repr :: 'f \<Rightarrow> nat)" and len: "length parts = 8" "length index = 32" "length v = 32"
    and ok: "cb_ok tb f l (byte_configure (opcode, parts) index v is_msb_sum_zero is_byte_selected (cb_new cur succ r (Opcode_State St_BYTE)))"
  shows "\<exists>x y. alu2_step tb cur succ (Arith BYTE) x y"
proof -
  note h = ok [unfolded byte_configure_ok [OF refl refl]]
  obtain x y where w: "index = assign_word32 x" "v = assign_word32 y" using h len word32_cells by metis
  have step: "same_context_step tb cur succ (Arith BYTE) 3 (ss_program_counter cur + 1) 1"
    using h same_context_delta(1) [OF can _ _ len(1), of 3 3 1 1 "Arith BYTE" St_BYTE tb cur succ opcode] by (auto simp: op_codes)
  let ?b = "le_bytes 32 (unat x)" and ?k = "unat (le_bytes 32 (unat x) ! 0)"
  let ?msb = "sum_expr (take 31 (drop 1 index))"
  have k: "?k < 256" using unsigned_less [of "?b ! 0", where ?'a = nat] by simp
  have nb: "nat_of_le (take 1 ?b @ drop 1 ?b) = unat x" using unsigned_less [of x, where ?'a = nat] by (simp add: nat_of_le_le_bytes)
  have "take 1 ?b = [?b ! 0]" by (simp add: take_Suc_conv_app_nth)
  then have ux: "unat x = ?k + 256 * nat_of_le (drop 1 ?b)" using nb unfolding nat_of_le_split by simp
  have "?msb = sum_expr (map (\<lambda>b. of_nat (unat b)) (drop 1 ?b))" by (simp add: w assign_word32_def drop_map take_map)
  then have "?msb = 0 \<longleftrightarrow> nat_of_le (drop 1 ?b) = 0" using sum_bytes_zero [OF can, of "drop 1 ?b"] by simp
  then have msb: "is_zero_expression ?msb is_msb_sum_zero = of_bool (unat x = ?k)"
    using h is_zero_construct_expr [of tb ?msb is_msb_sum_zero] ux by auto
  have sel: "is_zero_expression (index ! 0 - of_nat (31 - i)) (is_byte_selected ! i) = of_bool (?k = 31 - i)" if "i < 32" for i
    using h that is_zero_construct_expr [of tb "index ! 0 - of_nat (31 - i)" "is_byte_selected ! i"] canonicalD [OF can, of ?k "31 - i"] k
    by (simp add: w cells_nth is_equal_construct_def del: of_nat_unat)
  let ?sel = "map (\<lambda>idx. is_zero_expression (index ! 0 - of_nat (31 - idx)) (is_byte_selected ! idx)) [0..<32]"
  have "zip v ?sel = map (\<lambda>i. (v ! i, of_bool (?k = 31 - i))) [0..<32]"
    using len(3) by (intro nth_equalityI) (simp_all add: sel del: of_nat_diff)
  then have "foldl (\<lambda>acc (cell, is_selected). acc + is_selected * is_zero_expression ?msb is_msb_sum_zero * cell) 0 (zip v ?sel) =
      (\<Sum>i \<leftarrow> [0..<32]. of_bool (?k = 31 - i) * of_bool (unat x = ?k) * v ! i)"
    unfolding foldl_selected msb by (simp add: comp_def)
  also have "\<dots> = (\<Sum>i \<in> {0..<32}. if i = 31 - ?k then of_bool (?k \<le> 31) * of_bool (unat x = ?k) * v ! i else 0)"
    unfolding sum_list_distinct_conv_sum_set [OF distinct_upt] set_upt by (rule sum.cong) auto
  also have "\<dots> = of_bool (?k \<le> 31) * of_bool (unat x = ?k) * v ! (31 - ?k)" by (subst sum.delta) auto
  also have "\<dots> = (if x < 32 then of_nat (unat (le_bytes 32 (unat y) ! (31 - unat x))) else 0)"
  proof -
    have "m < 32 \<longleftrightarrow> m = j \<and> j \<le> 31" if "m = j + 256 * n" for m j n :: nat using that by (cases n) auto
    from this [OF ux] have "x < 32 \<longleftrightarrow> unat x = ?k \<and> ?k \<le> 31" by (simp add: word_less_nat_alt)
    then show ?thesis by (auto simp: w cells_nth)
  qed
  finally have val: "foldl (\<lambda>acc (cell, is_selected). acc + is_selected * is_zero_expression ?msb is_msb_sum_zero * cell) 0 (zip v ?sel) =
      (of_nat (if x < 32 then unat (le_bytes 32 (unat y) ! (31 - unat x)) else 0) :: 'f)" by simp
  have b: "unat (c :: u8) < 256" for c using unsigned_less [of c, where ?'a = nat] by simp
  have "alu2 (Arith BYTE) x y = of_nat (if x < 32 then unat (le_bytes 32 (unat y) ! (31 - unat x)) else 0)"
    using byte_of_word [of "31 - unat x" y] by (auto simp: alu2_def)
  then have "stack_row tb cur 2 True 1 (word_from_u256 (alu2 (Arith BYTE) x y))"
    using h b unfolding val by (subst (asm) word_from_byte) auto
  then have "alu2_step tb cur succ (Arith BYTE) x y" using h step by (simp add: alu2_step_def w)
  then show ?thesis by blast
qed

end
