(* ===== verification/Jump_Gadgets.thy ===== *)
theory Jump_Gadgets
  imports Logic_Gadgets
begin

text \<open>
  Soundness of the jumps.
\<close>

section \<open>Jumps\<close>

text \<open>A jump goes to a \<open>JUMPDEST\<close> of the code; \<open>JUMPI\<close> does so if its condition is not zero, and goes on otherwise.\<close>

definition jump_step :: "'f :: field Tables \<Rightarrow> 'f StepState \<Rightarrow> 'f StepState \<Rightarrow> Word \<Rightarrow> bool" where
  "jump_step tb cur succ dest \<longleftrightarrow>
     stack_row tb cur 0 False 0 (word_from_u256 dest) \<and> unat dest < 2 ^ 64 \<and>
     code_row tb cur (of_nat (unat dest)) (opcode_expr (Flow JUMPDEST)) 1 \<and>
     same_context_step tb cur succ (Flow JUMP) 1 (of_nat (unat dest)) 1"

definition jumpi_step :: "'f :: field Tables \<Rightarrow> 'f StepState \<Rightarrow> 'f StepState \<Rightarrow> Word \<Rightarrow> Word \<Rightarrow> bool" where
  "jumpi_step tb cur succ dest cond \<longleftrightarrow>
     stack_row tb cur 0 False 0 (word_from_u256 dest) \<and> stack_row tb cur 1 False 1 (word_from_u256 cond) \<and>
     (if cond = 0 then same_context_step tb cur succ (Flow JUMPI) 2 (ss_program_counter cur + 1) 2
      else unat dest < 2 ^ 64 \<and> code_row tb cur (of_nat (unat dest)) (opcode_expr (Flow JUMPDEST)) 1 \<and>
        same_context_step tb cur succ (Flow JUMPI) 2 (of_nat (unat dest)) 2)"

lemma same_context_to:
  fixes cur :: "'f :: field StepState"
  assumes "canonical (repr :: 'f \<Rightarrow> nat)" and "n' = of_nat n" "sp' = of_int sp" and "op_state_opcodes s = [op]" and "length parts = 8"
    and "same_context_ok tb cur succ (Opcode_State s) opcode parts ((delta_step n' 1 sp' op)\<lparr>st_program_counter := To pc\<rparr>)"
  shows "same_context_step tb cur succ op n pc sp"
  using same_context_sound [OF assms(1,5) _ assms(6), where ?op0.0 = op and n = n and x = 1 and sp = sp and tr = "To pc" and pc = pc] assms(2-4)
  by (auto simp: constrain_transition_def)

lemma jump_configure_ok:
  "cb_ok tb f l (jump_configure (opcode, parts) destination (cb_new cur succ r s)) \<longleftrightarrow>
     list_all byte_cell destination \<and> stack_row tb cur 0 False 0 (int_to_word destination) \<and>
     code_row tb cur (int_expr destination) (opcode_expr (Flow JUMPDEST)) 1 \<and>
     same_context_ok tb cur succ s opcode parts ((delta_step 1 1 1 (Flow JUMP))\<lparr>st_program_counter := To (int_expr destination)\<rparr>)"
  by (simp add: jump_configure_def gadget_simps code_row_def)

lemma int_cells:
  assumes "list_all byte_cell (cells :: 'f :: field list)" and "length cells = 8"
  obtains n where "n < 2 ^ 64" and "int_expr cells = of_nat n" and "int_to_word cells = word_from_u256 (of_nat n)"
proof -
  obtain bs :: "u8 list" where bs: "cells = map (\<lambda>b. of_nat (unat b)) bs" using assms(1) by (auto simp: byte_cells_bytes)
  then have len: "length bs = 8" using assms(2) by simp
  have n: "nat_of_le bs < 2 ^ 64" using nat_of_le_bound [of bs] len by simp
  then have "unat (of_nat (nat_of_le bs) :: Word) = nat_of_le bs" by (intro unat_small) simp
  then have "word_from_u256 (of_nat (nat_of_le bs)) = (of_nat (nat_of_le bs), 0 :: 'f)" using n by (simp add: word_from_u256_eq lo_def hi_def)
  then show ?thesis using that [OF n] assms(2) by (simp add: int_expr_def int_to_word_def bs expr_of_bytes del: of_nat_unat)
qed

lemma jump_sound:
  fixes cur :: "'f :: field StepState"
  assumes can: "canonical (repr :: 'f \<Rightarrow> nat)" and len: "length parts = 8" "length destination = 8"
    and ok: "cb_ok tb f l (jump_configure (opcode, parts) destination (cb_new cur succ r (Opcode_State St_JUMP)))"
  shows "\<exists>dest. jump_step tb cur succ dest"
proof -
  note h = ok [unfolded jump_configure_ok]
  obtain n where n: "n < 2 ^ 64" "int_expr destination = of_nat n" "int_to_word destination = word_from_u256 (of_nat n)" using h len int_cells by metis
  have u: "unat (of_nat n :: Word) = n" using n(1) by (intro unat_small) simp
  have "same_context_step tb cur succ (Flow JUMP) 1 (of_nat n) 1"
    using h n same_context_to [OF can, of 1 1 1 1 St_JUMP "Flow JUMP" parts tb cur succ opcode "of_nat n"] len(1) by (simp add: op_codes)
  then have "jump_step tb cur succ (of_nat n)" using h n u by (simp add: jump_step_def del: of_nat_unat)
  then show ?thesis by blast
qed

lemma condition_code_row:
  "cb_constraints_location cb = CL_Step \<Longrightarrow> cb_conditions cb = [] \<Longrightarrow>
     cb_ok tb f l (condition c (\<lambda>cb. opcode_lookup_at index opcode is_code (cb_add rqs cb)) cb) \<longleftrightarrow>
       cb_ok tb f l cb \<and> rqs_ok tb c rqs \<and> lookup_ok tb (LK_Conditional c (LK_Conditional (1 - ss_is_root (cb_curr cb) * ss_is_create (cb_curr cb))
         (LK_Bytecode (ss_code_hash (cb_curr cb)) (of_nat (bytecode_field_tag_u64 BFT_Byte)) index is_code opcode)))"
  "cb_frame (condition c (\<lambda>cb. opcode_lookup_at index opcode is_code (cb_add rqs cb)) cb) = cb_frame cb"
proof -
  let ?cb = "cb\<lparr>cb_conditions := cb_conditions cb @ [c]\<rparr>"
  assume assms: "cb_constraints_location cb = CL_Step" "cb_conditions cb = []"
  have e: "condition_expr ?cb = c" using assms(2) by (simp add: condition_expr_def condition_expr_opt_def)
  show "cb_ok tb f l (condition c (\<lambda>cb. opcode_lookup_at index opcode is_code (cb_add rqs cb)) cb) \<longleftrightarrow>
      cb_ok tb f l cb \<and> rqs_ok tb c rqs \<and> lookup_ok tb (LK_Conditional c (LK_Conditional (1 - ss_is_root (cb_curr cb) * ss_is_create (cb_curr cb))
        (LK_Bytecode (ss_code_hash (cb_curr cb)) (of_nat (bytecode_field_tag_u64 BFT_Byte)) index is_code opcode)))"
    using assms e by (simp add: condition_def Let_def opcode_lookup_at_def)
next
  let ?cb = "cb\<lparr>cb_conditions := cb_conditions cb @ [c]\<rparr>"
  have "cb_frame (opcode_lookup_at index opcode is_code (cb_add rqs ?cb)) = cb_frame ?cb"
    by (simp add: opcode_lookup_at_def Let_def cb_frame_add_lookup cb_frame_add)
  then show "cb_frame (condition c (\<lambda>cb. opcode_lookup_at index opcode is_code (cb_add rqs cb)) cb) = cb_frame cb"
    unfolding condition_def Let_def
    by (cases cb; cases "opcode_lookup_at index opcode is_code (cb_add rqs ?cb)") (simp add: cb_frame_def)
qed

lemmas condition_code_row_fields [simp] = cb_frame_fields [OF condition_code_row(2)]

lemma jumpi_configure_ok:
  assumes "should_jump = 1 - is_zero_word_expr cond is_condition_zero"
  shows "cb_ok tb f l (jumpi_configure (opcode, parts) dest not_overflow cond is_condition_zero (cb_new cur succ r s)) \<longleftrightarrow>
     list_all byte_cell dest \<and> rqs_ok tb 1 (is_zero_construct (sum_expr (drop 8 dest)) not_overflow) \<and>
     stack_row tb cur 0 False 0 (to_word dest) \<and> stack_row tb cur 1 False 1 cond \<and> rqs_ok tb 1 (is_zero_word_construct cond is_condition_zero) \<and>
     (should_jump = 0 \<or> word_byte_range_not_overflow 8 dest not_overflow = 1) \<and>
     lookup_ok tb (LK_Conditional should_jump (LK_Conditional (1 - ss_is_root cur * ss_is_create cur)
        (LK_Bytecode (ss_code_hash cur) (of_nat (bytecode_field_tag_u64 BFT_Byte)) (expr_from_bytes (take 8 dest)) 1 (opcode_expr (Flow JUMPDEST))))) \<and>
     same_context_ok tb cur succ s opcode parts ((delta_step 2 1 2 (Flow JUMPI))\<lparr>st_program_counter :=
        To (select_expr should_jump (expr_from_bytes (take 8 dest)) (ss_program_counter cur + 1))\<rparr>)"
  unfolding jumpi_configure_def Let_def fst_conv assms [symmetric]
  by (simp add: same_context_construct_ok condition_code_row(1) stack_pop_def stack_lookup_def rw_lookup_eq Let_def stack_values_def stack_row_def
      rw_row_def lookup_ok_rw word_byte_range_construct_def word_byte_range_valid_value_def lookup_ok_conditional(1))

lemma jumpi_sound:
  fixes cur :: "'f :: field StepState"
  assumes can: "canonical (repr :: 'f \<Rightarrow> nat)" and words: "rw_words tb" and len: "length parts = 8" "length dest = 32"
    and ok: "cb_ok tb f l (jumpi_configure (opcode, parts) dest not_overflow cond is_condition_zero (cb_new cur succ r (Opcode_State St_JUMPI)))"
  shows "\<exists>d c. jumpi_step tb cur succ d c"
proof -
  note h = ok [unfolded jumpi_configure_ok [OF refl]]
  have "list_all byte_cell dest" using h by blast
  then obtain d where d: "dest = assign_word32 d" using len(2) by (rule word32_cells)
  obtain c where c: "cond = word_from_u256 c" using h stack_row_word [OF words] by blast
  have zero: "1 - is_zero_word_expr cond is_condition_zero = of_bool (c \<noteq> 0)"
    using h is_zero_word_expr [of tb cond] word_is_zero [OF can, of c] by (simp add: c)
  note h = h [unfolded zero]
  have rows: "stack_row tb cur 0 False 0 (word_from_u256 d)" "stack_row tb cur 1 False 1 (word_from_u256 c)" using h by (simp_all add: d c)
  let ?pc = "select_expr (of_bool (c \<noteq> 0)) (expr_from_bytes (take 8 dest)) (ss_program_counter cur + 1)"
  have "same_context_ok tb cur succ (Opcode_State St_JUMPI) opcode parts ((delta_step 2 1 2 (Flow JUMPI))\<lparr>st_program_counter := To ?pc\<rparr>)"
    using h by blast
  then have step: "same_context_step tb cur succ (Flow JUMPI) 2 ?pc 2"
    by (rule same_context_to [where n' = 2 and sp' = 2, OF can _ _ op_codes(9) len(1), rotated 2]) simp_all
  show ?thesis
  proof (cases "c = 0")
    case True
    then have "same_context_step tb cur succ (Flow JUMPI) 2 (ss_program_counter cur + 1) 2" using step by (simp add: select_expr_def)
    then have "jumpi_step tb cur succ d c" using rows True by (simp add: jumpi_step_def)
    then show ?thesis by blast
  next
    case False
    let ?b = "le_bytes 32 (unat d)"
    have "sum_expr (drop 8 dest) = (0 :: 'f)"
      using h False is_zero_construct_expr [of tb "sum_expr (drop 8 dest)" not_overflow] by (auto simp: word_byte_range_not_overflow_def)
    then have "nat_of_le (drop 8 ?b) = 0" using sum_bytes_zero [OF can, of "drop 8 ?b"] by (simp add: d assign_word32_def drop_map)
    moreover have "nat_of_le (take 8 ?b @ drop 8 ?b) = unat d" using unsigned_less [of d, where ?'a = nat] by (simp add: nat_of_le_le_bytes)
    ultimately have t: "nat_of_le (take 8 ?b) = unat d" unfolding nat_of_le_split by simp
    then have lt: "unat d < 2 ^ 64" using nat_of_le_bound [of "take 8 ?b"] by simp
    have v: "expr_from_bytes (take 8 dest) = of_nat (unat d)" unfolding d assign_word32_def take_map expr_of_bytes t ..
    have "same_context_step tb cur succ (Flow JUMPI) 2 (of_nat (unat d)) 2"
      using step False by (simp add: select_expr_def v del: of_nat_unat)
    moreover have "code_row tb cur (of_nat (unat d)) (opcode_expr (Flow JUMPDEST)) 1"
      using h False by (simp add: v code_row_def lookup_ok_conditional(1) del: of_nat_unat)
    ultimately have "jumpi_step tb cur succ d c" using rows False lt by (simp add: jumpi_step_def del: of_nat_unat)
    then show ?thesis by blast
  qed
qed

end
