(* ===== verification/Push_Gadget.thy ===== *)
theory Push_Gadget
  imports Jump_Gadgets
begin

text \<open>
  Soundness of \<open>PUSH\<close>: the selectors of the pushed and of the padded bytes, and the bytes of the code.
\<close>

section \<open>Pushing bytes of the code\<close>

lemma condition_code_row_only:
  "condition c (opcode_lookup_at index opcode is_code) cb = condition c (\<lambda>cb. opcode_lookup_at index opcode is_code (cb_add [] cb)) cb"
  by (simp add: condition_def cb_add_def)

definition push_byte_ok where
  "push_byte_ok tb cur n idx prev cell byte \<longleftrightarrow>
     (fst prev - fst cell = 0 \<or> fst prev - fst cell = 1) \<and> (snd prev - snd cell = 0 \<or> snd prev - snd cell = 1) \<and>
     (or_expr [not_expr (fst cell), snd cell] = 0 \<or> byte = 0) \<and>
     lookup_ok tb (LK_Conditional (and_expr [fst cell, not_expr (snd cell)]) (LK_Conditional (1 - ss_is_root cur * ss_is_create cur)
       (LK_Bytecode (ss_code_hash cur) (of_nat (bytecode_field_tag_u64 BFT_Byte)) (ss_program_counter cur + n - of_nat idx) 0 byte)))"

lemma push_byte_cb:
  assumes "cb_constraints_location cb = CL_Step" and "cb_conditions cb = []"
  shows "cb_ok tb f l (push_byte n idx prev cell byte cb) \<longleftrightarrow> cb_ok tb f l cb \<and> push_byte_ok tb (cb_curr cb) n idx prev cell byte"
    and "cb_frame (push_byte n idx prev cell byte cb) = cb_frame cb"
proof -
  obtain p q p' q' where pq: "prev = (p, q)" "cell = (p', q')" by (metis prod.collapse)
  show "cb_frame (push_byte n idx prev cell byte cb) = cb_frame cb"
    using assms unfolding push_byte_def Let_def pq prod.case condition_code_row_only by (simp add: condition_code_row(2) condition_ok(2) cb_frame_add)
  show "cb_ok tb f l (push_byte n idx prev cell byte cb) \<longleftrightarrow> cb_ok tb f l cb \<and> push_byte_ok tb (cb_curr cb) n idx prev cell byte"
    using assms unfolding push_byte_def push_byte_ok_def Let_def pq prod.case condition_code_row_only
    by (simp add: condition_code_row(1) condition_ok(1))
qed

lemma push_bytes_cb:
  "cb_constraints_location cb = CL_Step \<Longrightarrow> cb_conditions cb = [] \<Longrightarrow>
     (cb_ok tb f l (fold (\<lambda>idx. push_byte n idx (prev idx) (cell idx) (byte idx)) idxs cb) \<longleftrightarrow>
        cb_ok tb f l cb \<and> (\<forall>idx \<in> set idxs. push_byte_ok tb (cb_curr cb) n idx (prev idx) (cell idx) (byte idx))) \<and>
     cb_frame (fold (\<lambda>idx. push_byte n idx (prev idx) (cell idx) (byte idx)) idxs cb) = cb_frame cb"
proof (induction idxs arbitrary: cb)
  case (Cons i idxs)
  note fr = push_byte_cb(2) [OF Cons.prems, of n i "prev i" "cell i" "byte i"]
  show ?case
    using Cons.IH [of "push_byte n i (prev i) (cell i) (byte i) cb"] push_byte_cb(1) [OF Cons.prems, of tb f l n i "prev i" "cell i" "byte i"]
      cb_frame_fields(1,8,9) [OF fr] fr Cons.prems by auto
qed simp

lemma push_tail:
  assumes "cb_constraints_location cb = CL_Step" and "cb_conditions cb = []" and "cb_program_counter_offset cb = 0"
  shows "cb_ok tb f l (same_context_construct (opcode, parts) st (cb_add rqs (fold (\<lambda>idx. push_byte n idx (prev idx) (cell idx) (byte idx)) idxs cb))) \<longleftrightarrow>
    cb_ok tb f l cb \<and> (\<forall>idx \<in> set idxs. push_byte_ok tb (cb_curr cb) n idx (prev idx) (cell idx) (byte idx)) \<and> rqs_ok tb 1 rqs \<and>
    same_context_ok tb (cb_curr cb) (cb_next cb) (cb_execution_state cb) opcode parts st"
proof -
  note b = push_bytes_cb [OF assms(1,2), of tb f l n prev cell byte idxs]
  note fields = cb_frame_fields [OF conjunct2 [OF b]]
  show ?thesis using assms conjunct1 [OF b] by (simp add: same_context_construct_ok fields)
qed

lemma query_bools_ok: "rqs_ok tb 1 (concat (map query_bool cells)) \<longleftrightarrow> (\<forall>c \<in> set cells. c = 0 \<or> c = 1)"
  by (induction cells) auto

lemma push_configure_ok:
  assumes n: "n = opcode - opcode_expr (Push PUSH0)" and left: "left = code_length - ss_program_counter cur - 1"
  shows "cb_ok tb f l (push_configure (opcode, parts) is_push0 v is_pushed is_padding code_length out (cb_new cur succ r s)) \<longleftrightarrow>
     rqs_ok tb 1 (is_zero_construct n is_push0) \<and> list_all byte_cell v \<and> stack_row tb cur 0 True (- 1) (to_word v) \<and>
     (\<forall>c \<in> set is_pushed. c = 0 \<or> c = 1) \<and> (\<forall>c \<in> set is_padding. c = 0 \<or> c = 1) \<and>
     lookup_ok tb (LK_Bytecode (ss_code_hash cur) (of_nat (bytecode_field_tag_u64 BFT_Header)) 0 0 code_length) \<and>
     rqs_ok tb 1 (lt_construct left n out) \<and>
     (\<forall>idx < 32. push_byte_ok tb cur n idx (((1, 1) # zip is_pushed is_padding) ! idx) (zip is_pushed is_padding ! idx) (v ! idx)) \<and>
     sum_expr is_pushed = n \<and> sum_expr is_padding = select_expr (fst out) (n - left) 0 \<and>
     same_context_ok tb cur succ s opcode parts
       (transition_default\<lparr>st_rw_counter := Delta 1, st_program_counter := Delta (opcode - of_nat (unat (as_u64 (Push PUSH0)) - 1)),
          st_stack_pointer := Delta (- 1),
          st_gas_left := Delta (select_expr (is_zero_expression n is_push0) (- gas_expr (Push PUSH0)) (- gas_expr (Push PUSH1)))\<rparr>)"
  unfolding push_configure_def Let_def fst_conv n [symmetric]
  by (subst push_tail) (auto simp: gadget_simps query_bools_ok left Ball_def)


text \<open>Cells that are zero or one, start with ones and never go up again are ones as far as their sum.\<close>

lemma selectors_prefix:
  fixes cells :: "'f :: field list"
  assumes can: "canonical (repr :: 'f \<Rightarrow> nat)" and bool: "\<forall>c \<in> set cells. c = 0 \<or> c = 1"
    and mono: "\<forall>i < length cells. (1 # cells) ! i - cells ! i = 0 \<or> (1 # cells) ! i - cells ! i = 1"
    and total: "sum_expr cells = of_nat n" and n: "n < 2 ^ 253" "length cells < 2 ^ 253"
  shows "\<forall>i < length cells. cells ! i = of_bool (i < n)"
proof -
  have two: "- 1 \<noteq> (1 :: 'f)"
  proof
    assume "- 1 = (1 :: 'f)"
    then have "(1 :: 'f) + 1 = 0" by (metis add.left_inverse)
    then have "of_nat 2 = (of_nat 0 :: 'f)" by simp
    then show False using canonicalD [OF can, of 2 0] by simp
  qed
  obtain bs where bs: "cells = map of_bool bs" using of_bool_columns bool by metis
  have step: "bs ! Suc i \<Longrightarrow> bs ! i" if "Suc i < length bs" for i
  proof (rule ccontr)
    assume "bs ! Suc i" "\<not> bs ! i"
    moreover have "(1 # cells) ! Suc i - cells ! Suc i = 0 \<or> (1 # cells) ! Suc i - cells ! Suc i = 1" using mono that by (simp only: bs length_map)
    ultimately show False using that two by (simp add: bs)
  qed
  have down: "bs ! (i + d) \<Longrightarrow> i + d < length bs \<Longrightarrow> bs ! i" for i d by (induction d) (use step in auto)
  define k where "k = length (takeWhile (\<lambda>b. b) bs)"
  have k: "bs ! i \<longleftrightarrow> i < k" if "i < length bs" for i
  proof
    assume i: "bs ! i"
    show "i < k"
    proof (rule ccontr)
      assume "\<not> i < k"
      then have "k < length bs" "bs ! k" using that down [of k "i - k"] i by (auto simp: not_less)
      then show False unfolding k_def using nth_length_takeWhile by metis
    qed
  next
    assume "i < k"
    then show "bs ! i" unfolding k_def by (metis nth_mem set_takeWhileD takeWhile_nth)
  qed
  have "sum_list (map (\<lambda>i. of_bool (i < k)) [0..<m]) = (of_nat (min k m) :: 'f)" for m by (induction m) (auto simp: min_def le_less)
  moreover have "cells = map (\<lambda>i. of_bool (i < k)) [0..<length bs]" by (rule nth_equalityI) (simp_all add: bs k)
  moreover have "k \<le> length bs" unfolding k_def by (rule length_takeWhile_le)
  ultimately have "sum_expr cells = of_nat k" unfolding sum_expr_eq by (simp add: min_def)
  moreover have "k < 2 ^ 253" using n(2) length_takeWhile_le [of "\<lambda>b. b" bs] by (simp only: bs length_map k_def le_less_trans)
  ultimately have "k = n" using total canonicalD [OF can _ n(1)] by metis
  then show ?thesis using k by (simp add: bs)
qed

definition push_size :: "OpcodeId \<Rightarrow> nat" where
  "push_size op = unat (as_u8 op) - unat (as_u8 (Push PUSH0))"

lemma push_opcodes:
  "list_all (\<lambda>op. unat (as_u8 (Push PUSH0)) \<le> unat (as_u8 op) \<and> push_size op \<le> 32 \<and>
     constant_gas_cost op = constant_gas_cost (if push_size op = 0 then Push PUSH0 else Push PUSH1)) (op_state_opcodes St_PUSH)"
  by code_simp

text \<open>
  A step of \<open>PUSH\<close> at a program counter in the code pushes the word whose bytes are the \<open>n\<close> bytes behind the opcode, none of them
  an opcode, with zeros for those behind the end of the code.
\<close>

definition push_step :: "'f :: field Tables \<Rightarrow> 'f StepState \<Rightarrow> 'f StepState \<Rightarrow> nat \<Rightarrow> nat \<Rightarrow> OpcodeId \<Rightarrow> Word \<Rightarrow> bool" where
  "push_step tb cur succ pc len op w \<longleftrightarrow>
     (let n = push_size op; padding = n - (len - pc - 1)
      in same_context_step tb cur succ op 1 (of_nat (pc + n + 1)) (- 1) \<and> stack_row tb cur 0 True (- 1) (word_from_u256 w) \<and>
         (\<forall>i < 32. if padding \<le> i \<and> i < n then code_row tb cur (of_nat (pc + n - i)) (of_nat (unat (le_bytes 32 (unat w) ! i))) 0
           else le_bytes 32 (unat w) ! i = 0))"

lemma push_cells:
  assumes "length ps = 32" and "length qs = 32" and "i < 32"
  shows "zip ps qs ! i = (ps ! i, qs ! i)" and "((1, 1) # zip ps qs) ! i = ((1 # ps) ! i, (1 # qs) ! i)"
  using assms by (cases i; simp)+

lemma push_sound:
  fixes cur :: "'f :: field StepState"
  assumes can: "canonical (repr :: 'f \<Rightarrow> nat)"
    and lens: "length parts = 8" "length v = 32" "length is_pushed = 32" "length is_padding = 32" "length (snd out) = 8"
    and code: "\<forall>c. lookup_ok tb (LK_Bytecode (ss_code_hash cur) (of_nat (bytecode_field_tag_u64 BFT_Header)) 0 0 c) \<longrightarrow> c = of_nat len"
    and pc: "ss_program_counter cur = of_nat pc" "pc < len" "len < 2 ^ 64"
    and ok: "cb_ok tb f l (push_configure (opcode, parts) is_push0 v is_pushed is_padding code_length out (cb_new cur succ r (Opcode_State St_PUSH)))"
  shows "\<exists>op \<in> set (op_state_opcodes St_PUSH). \<exists>w. push_step tb cur succ pc len op w"
proof -
  note h = ok [unfolded push_configure_ok [OF refl refl]]
  have ctx: "code_row tb cur (ss_program_counter cur) opcode 1" "responsible_row tb (Opcode_State St_PUSH) opcode"
    "rqs_ok tb 1 (range_check_construct (ss_gas_left succ) parts)"
    and tr: "transition_ok (transition_default\<lparr>st_rw_counter := Delta 1, st_program_counter := Delta (opcode - of_nat (unat (as_u64 (Push PUSH0)) - 1)),
          st_stack_pointer := Delta (- 1), st_gas_left := Delta (select_expr (is_zero_expression (opcode - opcode_expr (Push PUSH0)) is_push0)
            (- gas_expr (Push PUSH0)) (- gas_expr (Push PUSH1)))\<rparr>) cur succ"
    using h by (simp_all only: same_context_ok_def simp_thms)
  obtain op where op: "op \<in> set (op_state_opcodes St_PUSH)" "opcode = opcode_expr op" using ctx(2) responsible_row_op [OF can] by blast
  define n where "n = push_size op"
  have facts: "unat (as_u8 (Push PUSH0)) \<le> unat (as_u8 op)" "n \<le> 32"
    "constant_gas_cost op = constant_gas_cost (if n = 0 then Push PUSH0 else Push PUSH1)"
    using push_opcodes op(1) by (simp_all add: list_all_iff n_def)
  have ne: "opcode - opcode_expr (Push PUSH0) = of_nat n"
    using facts(1) by (simp add: op(2) opcode_expr_def unat_as_u64 n_def push_size_def of_nat_diff del: of_nat_unat)
  have pe: "opcode - of_nat (unat (as_u64 (Push PUSH0)) - 1) = of_nat (n + 1)"
  proof -
    have "unat (as_u8 (Push PUSH0)) = 95" by (simp add: as_u8_def)
    then show ?thesis using ne by (simp add: opcode_expr_def unat_as_u64 algebra_simps del: of_nat_unat)
  qed
  note h = h [unfolded ne]
  have n0: "is_zero_expression (of_nat n) is_push0 = (of_bool (n = 0) :: 'f)"
    using h is_zero_construct_expr [of tb "of_nat n" is_push0] canonicalD [OF can, of n 0] facts(2) by simp
  have cl: "code_length = of_nat len" using h code by blast
  let ?left = "len - pc - 1"
  have left: "code_length - ss_program_counter cur - 1 = of_nat ?left" unfolding cl pc(1) using pc(2) by (simp add: of_nat_diff)
  have lt: "fst out = of_bool (?left < n)"
  proof (rule lt_construct_sound [OF can])
    show "rqs_ok tb 1 (lt_construct (of_nat ?left) (of_nat n) out)" using h unfolding left by (simp only: simp_thms)
    have "?left < 2 ^ 64" using pc(3) by linarith
    then show "length (snd out) \<le> 31" "?left < 256 ^ length (snd out)" "n < 256 ^ length (snd out)" using lens(5) facts(2) by simp_all
  qed
  have padding: "select_expr (fst out) (of_nat n - of_nat ?left) 0 = (of_nat (n - ?left) :: 'f)"
    unfolding lt by (cases "?left < n") (simp_all add: select_expr_def of_nat_diff)
  have pb: "push_byte_ok tb cur (of_nat n) i ((1 # is_pushed) ! i, (1 # is_padding) ! i) (is_pushed ! i, is_padding ! i) (v ! i)" if "i < 32" for i
  proof -
    have "\<forall>idx < 32. push_byte_ok tb cur (of_nat n) idx (((1, 1) # zip is_pushed is_padding) ! idx) (zip is_pushed is_padding ! idx) (v ! idx)"
      using h by blast
    then show ?thesis using that push_cells [OF lens(3,4) that] by metis
  qed
  have down: "(1 # is_pushed) ! i - is_pushed ! i = 0 \<or> (1 # is_pushed) ! i - is_pushed ! i = 1"
    "(1 # is_padding) ! i - is_padding ! i = 0 \<or> (1 # is_padding) ! i - is_padding ! i = 1" if "i < 32" for i
    using pb [OF that] unfolding push_byte_ok_def fst_conv snd_conv by blast+
  have bools: "\<forall>c \<in> set is_pushed. c = 0 \<or> c = 1" "\<forall>c \<in> set is_padding. c = 0 \<or> c = 1"
    and sums: "sum_expr is_pushed = of_nat n" "sum_expr is_padding = of_nat (n - ?left)"
    using h unfolding left padding by blast+
  have small: "n < 2 ^ 253" "n - ?left < 2 ^ 253" using facts(2) by simp_all
  have pushed: "\<forall>i < 32. is_pushed ! i = of_bool (i < n)"
    by (rule selectors_prefix [OF can bools(1) _ sums(1) small(1), unfolded lens]) (use down(1) in blast, simp)
  have padded: "\<forall>i < 32. is_padding ! i = of_bool (i < n - ?left)"
    by (rule selectors_prefix [OF can bools(2) _ sums(2) small(2), unfolded lens]) (use down(2) in blast, simp)
  have "list_all byte_cell v" using h by blast
  then obtain w where w: "v = assign_word32 w" using lens(2) by (rule word32_cells)
  have bytes: "if n - ?left \<le> i \<and> i < n then code_row tb cur (of_nat (pc + n - i)) (of_nat (unat (le_bytes 32 (unat w) ! i))) 0 else le_bytes 32 (unat w) ! i = 0"
    if i: "i < 32" for i
  proof -
    note b = pb [OF i, unfolded push_byte_ok_def fst_conv snd_conv pushed [rule_format, OF i] padded [rule_format, OF i]]
    show ?thesis
    proof (cases "n - ?left \<le> i \<and> i < n")
      case True
      then have "of_nat (pc + n - i) = ss_program_counter cur + of_nat n - (of_nat i :: 'f)" by (simp add: pc(1) of_nat_diff)
      then show ?thesis using True b by (simp add: code_row_def lookup_ok_conditional(1) w cells_nth [OF i] not_expr_def del: of_nat_unat of_nat_diff)
    next
      case False
      then have "v ! i = 0" using b by (auto simp: or_expr_def not_expr_def)
      moreover have "unat (le_bytes 32 (unat w) ! i) < 2 ^ 253" using unsigned_less [of "le_bytes 32 (unat w) ! i", where ?'a = nat] by simp
      ultimately have "unat (le_bytes 32 (unat w) ! i) = 0" 
        using canonicalD [OF can, of "unat (le_bytes 32 (unat w) ! i)" 0] by (simp add: w cells_nth [OF i] del: of_nat_unat)
      then have "le_bytes 32 (unat w) ! i = 0" by (simp add: unat_eq_0)
      then show ?thesis using False by (simp only: if_False)
    qed
  qed
  have gas: "ss_gas_left succ = ss_gas_left cur + - of_nat (unat (constant_gas_cost op))"
    using tr unfolding ne n0 facts(3) by (cases "n = 0") (simp_all add: transition_ok_simps select_expr_def gas_expr_def)
  then obtain g where g: "g < 2 ^ 64" "ss_gas_left succ = of_nat g" "ss_gas_left cur = of_nat (g + unat (constant_gas_cost op))"
    using gas_transition [OF lens(1)] ctx(3) by metis
  have "same_context_step tb cur succ op 1 (of_nat (pc + n + 1)) (- 1)"
    unfolding same_context_step_def using tr ctx(1) g op(2) unfolding pe by (auto simp: transition_ok_simps pc(1) prod_eq_iff)
  moreover have "stack_row tb cur 0 True (- 1) (to_word v)" using h by blast
  then have "stack_row tb cur 0 True (- 1) (word_from_u256 w)" by (simp add: w)
  ultimately have "push_step tb cur succ pc len op w" unfolding push_step_def Let_def n_def [symmetric] using bytes by blast
  then show ?thesis using op(1) by blast
qed

section \<open>Completeness\<close>

lemma sum_selectors: "sum_expr (map (\<lambda>i. of_bool (i < n)) [0..<m]) = (of_nat (min n m) :: 'f :: field)"
  unfolding sum_expr_eq by (induction m) (auto simp: min_def le_less)

text \<open>The cells of a selector go from one to zero only.\<close>

lemma selector_cells:
  assumes "i < 32"
  shows "(map (\<lambda>i. of_bool (i < n)) [0..<32] :: 'f :: field list) ! i = of_bool (i < n)"
    and "(1 # map (\<lambda>i. of_bool (i < n)) [0..<32]) ! i - of_bool (i < n) = (0 :: 'f) \<or>
      (1 # map (\<lambda>i. of_bool (i < n)) [0..<32]) ! i - of_bool (i < n) = (1 :: 'f)"
  using assms by (auto simp: nth_Cons split: nat.split)

lemma push_complete:
  fixes cur :: "'f :: field StepState"
  assumes can: "canonical (repr :: 'f \<Rightarrow> nat)" and tag: "FT_ResponsibleOpcode \<in> set (tb_fixed_tags tb)"
    and op: "op \<in> set (op_state_opcodes St_PUSH)" and n: "n = push_size op" and left: "left = len - pc - 1"
    and header: "lookup_ok tb (LK_Bytecode (ss_code_hash cur) (of_nat (bytecode_field_tag_u64 BFT_Header)) 0 0 (of_nat len))"
    and zero: "replicate 6 0 \<in> set (tb_bytecode tb)"
    and pc: "ss_program_counter cur = of_nat pc" "pc < len" "len < 2 ^ 64"
    and step: "push_step tb cur succ pc len op w"
  shows "cb_ok tb f l (push_configure (opcode_expr op, range_check_assign repr 8 (ss_gas_left succ)) (fst (is_zero_gadget_assign (of_nat n)))
    (assign_word32 w) (map (\<lambda>i. of_bool (i < n)) [0..<32]) (map (\<lambda>i. of_bool (i < n - left)) [0..<32]) (of_nat len)
    (fst (lt_gadget_assign repr 8 (of_nat left) (of_nat n))) (cb_new cur succ r (Opcode_State St_PUSH)))"
proof -
  have facts: "unat (as_u8 (Push PUSH0)) \<le> unat (as_u8 op)" "n \<le> 32"
    "constant_gas_cost op = constant_gas_cost (if n = 0 then Push PUSH0 else Push PUSH1)"
    using push_opcodes op by (simp_all add: list_all_iff n)
  have ne: "opcode_expr op - opcode_expr (Push PUSH0) = (of_nat n :: 'f)"
    using facts(1) by (simp add: opcode_expr_def unat_as_u64 n push_size_def of_nat_diff del: of_nat_unat)
  have pe: "opcode_expr op - of_nat (unat (as_u64 (Push PUSH0)) - 1) = (of_nat (n + 1) :: 'f)"
  proof -
    have "unat (as_u8 (Push PUSH0)) = 95" by (simp add: as_u8_def)
    then show ?thesis using ne by (simp add: opcode_expr_def unat_as_u64 algebra_simps del: of_nat_unat)
  qed
  have l: "of_nat len - ss_program_counter cur - 1 = (of_nat left :: 'f)" unfolding pc(1) left using pc(2) by (simp add: of_nat_diff)
  have small: "left < 256 ^ 8" "n < 256 ^ 8" using pc(3) facts(2) left by simp_all
  have z: "rqs_ok tb 1 (is_zero_construct (of_nat n) (fst (is_zero_gadget_assign (of_nat n :: 'f))))" by (simp add: is_zero_construct_ok)
  have n0: "is_zero_expression (of_nat n) (fst (is_zero_gadget_assign (of_nat n))) = (of_bool (n = 0) :: 'f)"
    using is_zero_construct_expr [OF z] canonicalD [OF can, of n 0] facts(2) by simp
  have lt: "rqs_ok tb 1 (lt_construct (of_nat left) (of_nat n :: 'f) (fst (lt_gadget_assign repr 8 (of_nat left) (of_nat n))))"
    "length (snd (fst (lt_gadget_assign repr 8 (of_nat left) (of_nat n :: 'f)))) = 8"
    using lt_construct_complete [OF can _ small] by simp_all
  have lt1: "fst (fst (lt_gadget_assign repr 8 (of_nat left) (of_nat n :: 'f))) = of_bool (left < n)"
    by (rule lt_construct_sound [OF can _ _ _ lt(1)]) (use small lt(2) in simp_all)
  have pad: "select_expr (of_bool (left < n)) (of_nat n - of_nat left) 0 = (of_nat (n - left) :: 'f)"
    by (cases "left < n") (simp_all add: select_expr_def of_nat_diff)
  have ctx: "same_context_step tb cur succ op 1 (of_nat (pc + n + 1)) (- 1)" and row: "stack_row tb cur 0 True (- 1) (word_from_u256 w)"
    and bytes: "\<And>i. i < 32 \<Longrightarrow> if n - left \<le> i \<and> i < n then code_row tb cur (of_nat (pc + n - i)) (of_nat (unat (le_bytes 32 (unat w) ! i))) 0
      else le_bytes 32 (unat w) ! i = 0"
    using step unfolding push_step_def Let_def n [symmetric] left [symmetric] by blast+
  have sums: "sum_expr (map (\<lambda>i. of_bool (i < n)) [0..<32]) = (of_nat n :: 'f)" "sum_expr (map (\<lambda>i. of_bool (i < n - left)) [0..<32]) = (of_nat (n - left) :: 'f)"
    using facts(2) sum_selectors [of n 32, where ?'f = 'f] sum_selectors [of "n - left" 32, where ?'f = 'f] by (simp_all add: min_absorb1)
  have pb: "push_byte_ok tb cur (of_nat n) i (((1, 1) # zip (map (\<lambda>i. of_bool (i < n)) [0..<32]) (map (\<lambda>i. of_bool (i < n - left)) [0..<32])) ! i)
      (zip (map (\<lambda>i. of_bool (i < n)) [0..<32]) (map (\<lambda>i. of_bool (i < n - left)) [0..<32]) ! i) (assign_word32 w ! i :: 'f)" if i: "i < 32" for i
  proof -
    note c = push_cells [where ps = "map (\<lambda>i. of_bool (i < n)) [0..<32] :: 'f list" and qs = "map (\<lambda>i. of_bool (i < n - left)) [0..<32] :: 'f list" and i = i]
    have len32: "length (map g [0..<32]) = 32" for g :: "nat \<Rightarrow> 'f" by simp
    have off: "lookup_ok tb (LK_Conditional 0 k)" if "length (input_exprs k) = 6" "lookup_table k = Table_Bytecode" for k :: "'f Lookup"
      using zero that by (simp add: lookup_ok_def table_rows_def map_replicate_const)
    show ?thesis
    proof (cases "n - left \<le> i \<and> i < n")
      case True
      then have "of_nat (pc + n - i) = ss_program_counter cur + of_nat n - (of_nat i :: 'f)" by (simp add: pc(1) of_nat_diff)
      then have "lookup_ok tb (LK_Conditional 1 (LK_Conditional (1 - ss_is_root cur * ss_is_create cur)
         (LK_Bytecode (ss_code_hash cur) (of_nat (bytecode_field_tag_u64 BFT_Byte)) (ss_program_counter cur + of_nat n - of_nat i) 0 (assign_word32 w ! i))))"
        using bytes [OF i] True by (simp add: code_row_def lookup_ok_conditional(1) cells_nth [OF i] del: of_nat_unat of_nat_diff)
      moreover have "or_expr [not_expr (of_bool (i < n)), of_bool (i < n - left)] = (0 :: 'f)" "and_expr [of_bool (i < n), not_expr (of_bool (i < n - left))] = (1 :: 'f)"
        using True by (simp_all add: or_expr_def and_expr_def not_expr_def)
      ultimately show ?thesis
        unfolding push_byte_ok_def c(1) [OF len32 len32 i] c(2) [OF len32 len32 i] fst_conv snd_conv selector_cells(1) [OF i]
        using selector_cells(2) [OF i] by metis
    next
      case False
      then have "le_bytes 32 (unat w) ! i = 0" using bytes [OF i] by (simp only: if_False)
      then have "(assign_word32 w ! i :: 'f) = 0" by (simp add: cells_nth [OF i])
      moreover have "and_expr [of_bool (i < n), not_expr (of_bool (i < n - left))] = (0 :: 'f)"
        using False by (auto simp: and_expr_def not_expr_def)
      moreover have off': "lookup_ok tb (LK_Conditional 0 (LK_Conditional (1 - ss_is_root cur * ss_is_create cur)
         (LK_Bytecode (ss_code_hash cur) (of_nat (bytecode_field_tag_u64 BFT_Byte)) (ss_program_counter cur + of_nat n - of_nat i) 0 (assign_word32 w ! i))))"
        by (rule off) simp_all
      ultimately show ?thesis
        unfolding push_byte_ok_def c(1) [OF len32 len32 i] c(2) [OF len32 len32 i] fst_conv snd_conv selector_cells(1) [OF i]
        using selector_cells(2) [OF i] by metis
    qed
  qed
  have gas: "ss_gas_left succ = ss_gas_left cur + select_expr (of_bool (n = 0)) (- gas_expr (Push PUSH0)) (- gas_expr (Push PUSH1))"
    using ctx facts(3) by (auto simp: same_context_step_def select_expr_def gas_expr_def)
  obtain g where g: "g < 2 ^ 64" "ss_gas_left succ = of_nat g" using ctx by (auto simp: same_context_step_def)
  have "rqs_ok tb 1 (range_check_construct (ss_gas_left succ) (range_check_assign repr 8 (ss_gas_left succ)))"
    unfolding g(2) using range_check_complete [OF can, of 8 g] g(1) by simp
  moreover have "responsible_row tb (Opcode_State St_PUSH) (opcode_expr op :: 'f)" using responsible_row_op [OF can] tag op by blast
  moreover have "transition_ok (transition_default\<lparr>st_rw_counter := Delta 1, st_program_counter := Delta (of_nat (n + 1)),
      st_stack_pointer := Delta (- 1), st_gas_left := Delta (select_expr (of_bool (n = 0)) (- gas_expr (Push PUSH0)) (- gas_expr (Push PUSH1)))\<rparr>) cur succ"
    using ctx gas by (simp add: same_context_step_def transition_ok_simps pc(1))
  moreover have "code_row tb cur (ss_program_counter cur) (opcode_expr op) 1" using ctx by (simp add: same_context_step_def)
  ultimately show ?thesis
    unfolding push_configure_ok [OF refl refl] ne pe n0 l lt1 pad sums same_context_ok_def
    using z row header lt(1) pb by (auto simp: to_word_word)
qed

end
