(* ===== verification/Step_Properties.thy ===== *)
theory Step_Properties
  imports Step_Complete Push_Gadget
begin

text \<open>
  Properties of the execution gadgets of the EVM circuit, with small tables over the rational numbers as examples. \<open>cb_ok tb f l\<close> says that the
  constraints and lookups collected by the constraint builder of a step hold in the tables \<open>tb\<close>, for a step that is or is not the first
  (\<open>f\<close>) or the last (\<open>l\<close>).
\<close>

section \<open>An example step\<close>

definition sample_step :: "ExecutionState \<Rightarrow> nat \<Rightarrow> rat StepState" where
  "sample_step s gas = \<lparr>ss_execution_state = selector_assign (length execution_states) (execution_state_u64 s), ss_rw_counter = 1, ss_call_id = 1,
     ss_is_root = 1, ss_is_create = 0, ss_code_hash = (5, 6), ss_program_counter = 0, ss_stack_pointer = 1020, ss_gas_left = of_nat gas,
     ss_memory_word_size = 0, ss_reversible_write_counter = 0, ss_log_id = 0\<rparr>"

definition sample_stack_row :: "rat \<Rightarrow> rat \<Rightarrow> rat \<Rightarrow> Word \<Rightarrow> rat list" where
  "sample_stack_row counter w sp v =
     input_exprs (LK_Rw counter w (of_nat (target_usize TStack)) (rw_values_new 1 sp 0 (0, 0) (word_from_u256 v) (0, 0) (0, 0)))"

definition sample_tables :: "rat list list \<Rightarrow> rat list list \<Rightarrow> rat Tables" where
  "sample_tables rws code = \<lparr>tb_fixed_tags = fixed_table_tags, tb_tx = [], tb_rw = rws, tb_bytecode = code, tb_block = [], tb_copy = [],
     tb_keccak = [], tb_exp = []\<rparr>"

text \<open>The tables and steps of an instruction of two operands.\<close>

definition alu2_tables :: "OpcodeId \<Rightarrow> Word \<Rightarrow> Word \<Rightarrow> rat Tables" where
  "alu2_tables op x y = sample_tables
     [sample_stack_row 1 0 1020 x, sample_stack_row 2 0 1021 y, sample_stack_row 3 1 1021 (alu2 op x y)]
     [input_exprs (LK_Bytecode (5, 6) (of_nat (bytecode_field_tag_u64 BFT_Byte)) 0 1 (opcode_expr op))]"

definition alu2_cur :: "OpcodeId \<Rightarrow> rat StepState" where
  "alu2_cur op = sample_step (Opcode_State St_STOP) (7 + unat (constant_gas_cost op))"

definition alu2_succ :: "rat StepState" where
  "alu2_succ = (sample_step (Opcode_State St_STOP) 7)\<lparr>ss_rw_counter := 4, ss_program_counter := 1, ss_stack_pointer := 1021\<rparr>"

definition alu2_rws :: "OpcodeId \<Rightarrow> Word \<Rightarrow> Word \<Rightarrow> RwMap" where
  "alu2_rws op x y = [TStack \<mapsto> [RwStack 1 False 1 1020 x, RwStack 2 False 1 1021 y, RwStack 3 True 1 1021 (alu2 op x y)]]"

definition alu2_exec :: "OpcodeId \<Rightarrow> ExecStep" where
  "alu2_exec op = exec_step_default\<lparr>es_exec_state := ES_Op op, es_gas_left := 7 + constant_gas_cost op, es_gas_cost := constant_gas_cost op,
     es_bus_mapping_instance := [(TStack, 0), (TStack, 1), (TStack, 2)]\<rparr>"

lemma fixed_tags_sample: "t \<in> set (tb_fixed_tags (sample_tables rws code))"
  by (cases t) (simp_all add: sample_tables_def fixed_table_tags_def)

lemma alu2_example:
  assumes "op \<in> {Arith ADD, Arith SUB, Arith MUL, Arith DIV, Arith MOD, Arith AND, Arith OR, Arith XOR}"
  shows "alu2_step (alu2_tables op x y) (alu2_cur op) alu2_succ op x y"
    and "step_rows (alu2_rws op x y) (alu2_exec op) op [x, y, alu2 op x y]"
    and "ss_gas_left alu2_succ = of_nat (unat (es_gas_left (alu2_exec op) - es_gas_cost (alu2_exec op)))"
proof -
  have code: "code_row (alu2_tables op x y) (alu2_cur op) 0 (opcode_expr op) 1"
    by (simp add: code_row_def lookup_ok_conditional lookup_ok_def table_rows_def alu2_tables_def sample_tables_def alu2_cur_def sample_step_def)
  have "same_context_step (alu2_tables op x y) (alu2_cur op) alu2_succ op 3 (ss_program_counter (alu2_cur op) + 1) 1"
    unfolding same_context_step_def
    using code by (auto simp: alu2_cur_def alu2_succ_def sample_step_def intro!: exI [of _ 7])
  then show "alu2_step (alu2_tables op x y) (alu2_cur op) alu2_succ op x y"
    by (simp add: alu2_step_def stack_row_def rw_row_def alu2_tables_def sample_tables_def sample_stack_row_def alu2_cur_def sample_step_def)
  show "step_rows (alu2_rws op x y) (alu2_exec op) op [x, y, alu2 op x y]"
    using assms by (auto simp: step_rows_def alu2_exec_def es_opcode_def rws_stack_value_def get_rws_def rw_index_def nth_opt_def ok_or_def
        alu2_rws_def rw_map_index_def constant_gas_cost_def GasCost_FASTEST_def GasCost_FAST_def exec_step_default_def)
  show "ss_gas_left alu2_succ = of_nat (unat (es_gas_left (alu2_exec op) - es_gas_cost (alu2_exec op)))"
    by (simp add: alu2_exec_def alu2_succ_def sample_step_def)
qed

lemma alu2_tags: "t \<in> set (tb_fixed_tags (alu2_tables op x y))"
  unfolding alu2_tables_def by (rule fixed_tags_sample)

section \<open>Properties\<close>

text \<open>
  C13: the gadget of \<open>ADD\<close> and \<open>SUB\<close>. Over a field that represents the numbers below \<open>2 ^ 253\<close>: if the cells of the gadget (8 cells of the
  gas range check, three words of 32 cells) satisfy its constraints and lookups in the step, then the step is one of \<open>ADD\<close> or \<open>SUB\<close> on
  some words \<open>x\<close> and \<open>y\<close>: the tables have the reads of \<open>x\<close> and \<open>y\<close> and the write of their sum or difference modulo \<open>2 ^ 256\<close>, the opcode is in the code at the
  program counter (the circuit disables this lookup for a root call that creates a contract), the gas left is the gas before less the cost
  and is below \<open>2 ^ 64\<close>, and counters and the rest of the state move as for one instruction. Conversely, for
  every such step, when the fixed table holds the responsible opcodes and the witness has the same words and gas, the assignment of the gadget succeeds and its cells
  satisfy all constraints and lookups.
\<close>

theorem add_sub_spec:
  fixes cur succ :: "'f :: field StepState"
  assumes "canonical (repr :: 'f \<Rightarrow> nat)"
  shows "(length parts = 8 \<and> length a = 32 \<and> length b = 32 \<and> length c = 32 \<and>
       cb_ok tb f l (add_sub_configure (opcode, parts) a b c add_words is_sub (cb_new cur succ r (Opcode_State St_ADD_SUB))) \<longrightarrow>
       (\<exists>op \<in> {Arith ADD, Arith SUB}. \<exists>x y. alu2_step tb cur succ op x y)) \<and>
     (op \<in> {Arith ADD, Arith SUB} \<and> alu2_step tb cur succ op x y \<and> FT_ResponsibleOpcode \<in> set (tb_fixed_tags tb) \<and>
       step_rows rws step op [x, y, alu2 op x y] \<and> ss_gas_left succ = of_nat (unat (es_gas_left step - es_gas_cost step)) \<longrightarrow>
       (\<exists>g a b c w i. add_sub_assign repr rws step = Inr (g, (a, b, c), w, i) \<and>
          cb_ok tb f l (add_sub_configure g a b c w i (cb_new cur succ r (Opcode_State St_ADD_SUB)))))"
  by (intro conjI impI; elim conjE; (rule add_sub_sound [OF assms] add_sub_assign_complete [OF assms]; assumption))

theorem add_sub_spec_witness:
  "\<exists>g a b c w i. add_sub_assign (\<lambda>x. nat \<lfloor>x\<rfloor>) (alu2_rws (Arith SUB) 3 5) (alu2_exec (Arith SUB)) = Inr (g, (a, b, c), w, i) \<and>
     cb_ok (alu2_tables (Arith SUB) 3 5) True True
       (add_sub_configure g a b c w i (cb_new (alu2_cur (Arith SUB)) alu2_succ 0 (Opcode_State St_ADD_SUB)))"
  by (rule mp [OF conjunct2 [OF add_sub_spec [OF canonical_rat, where op = "Arith SUB" and x = 3 and y = 5]]])
    (intro conjI alu2_example alu2_tags; simp)

text \<open>
  C14: the gadget of \<open>MUL\<close>, \<open>DIV\<close> and \<open>MOD\<close>, under the same conditions: cells that satisfy its constraints and lookups belong to a step of one of the three
  opcodes, whose result is the product modulo \<open>2 ^ 256\<close>, the quotient or the remainder, and zero for a divisor that is zero; and the assignment for such a step
  succeeds and satisfies them.
\<close>

theorem mul_div_mod_spec:
  fixes cur succ :: "'f :: field StepState"
  assumes "canonical (repr :: 'f \<Rightarrow> nat)"
  shows "(length parts = 8 \<and> length a = 32 \<and> length b = 32 \<and> length c = 32 \<and> length d = 32 \<and> length (fst mul_add) = 9 \<and> length (snd mul_add) = 9 \<and>
       length (snd (fst (fst lt_word))) = 16 \<and> length (snd (snd lt_word)) = 16 \<and>
       cb_ok tb f l (mul_div_mod_configure (opcode, parts) a b c d mul_add divisor_is_zero lt_word (cb_new cur succ r (Opcode_State St_MUL_DIV_MOD))) \<longrightarrow>
       (\<exists>op \<in> {Arith MUL, Arith DIV, Arith MOD}. \<exists>x y. alu2_step tb cur succ op x y)) \<and>
     (op \<in> {Arith MUL, Arith DIV, Arith MOD} \<and> alu2_step tb cur succ op x y \<and> FT_ResponsibleOpcode \<in> set (tb_fixed_tags tb) \<and>
       step_rows rws step op [x, y, alu2 op x y] \<and> ss_gas_left succ = of_nat (unat (es_gas_left step - es_gas_cost step)) \<longrightarrow>
       (\<exists>g a b c d m z t. mul_div_mod_assign repr rws step = Inr (g, (a, b, c, d), m, z, t) \<and>
          cb_ok tb f l (mul_div_mod_configure g a b c d m z t (cb_new cur succ r (Opcode_State St_MUL_DIV_MOD)))))"
  by (intro conjI impI; elim conjE; (rule mul_div_mod_sound [OF assms] mul_div_mod_complete [OF assms]; assumption))

theorem mul_div_mod_spec_witness:
  "\<exists>g a b c d m z t. mul_div_mod_assign (\<lambda>x. nat \<lfloor>x\<rfloor>) (alu2_rws (Arith MOD) 17 5) (alu2_exec (Arith MOD)) = Inr (g, (a, b, c, d), m, z, t) \<and>
     cb_ok (alu2_tables (Arith MOD) 17 5) True True
       (mul_div_mod_configure g a b c d m z t (cb_new (alu2_cur (Arith MOD)) alu2_succ 0 (Opcode_State St_MUL_DIV_MOD)))"
  by (rule mp [OF conjunct2 [OF mul_div_mod_spec [OF canonical_rat, where op = "Arith MOD" and x = 17 and y = 5]]])
    (intro conjI alu2_example alu2_tags; simp)

lemma bitwise_assign_complete:
  fixes cur :: "'f :: field StepState"
  assumes can: "canonical (repr :: 'f \<Rightarrow> nat)" and tag: "FT_ResponsibleOpcode \<in> set (tb_fixed_tags tb)" "bitwise_tag op \<in> set (tb_fixed_tags tb)"
    and op: "op \<in> {Arith AND, Arith OR, Arith XOR}"
    and rows: "step_rows rws step op [x, y, alu2 op x y]" and gas: "ss_gas_left succ = of_nat (unat (es_gas_left step - es_gas_cost step))"
    and step: "alu2_step tb cur succ op x y"
  shows "\<exists>g a b c. bitwise_assign repr rws step = Inr (g, a, b, c) \<and>
    cb_ok tb f l (bitwise_configure g a b c (cb_new cur succ r (Opcode_State St_BITWISE)))"
proof -
  have vs: "mapE (rws_stack_value rws step) [0, 1, 2] = Inr [x, y, alu2 op x y]" using rows by (simp add: step_rows_def numeral_2_eq_2)
  have assign: "bitwise_assign repr rws step = Inr ((opcode_expr op, range_check_assign repr 8 (ss_gas_left succ)),
      assign_word32 x, assign_word32 y, assign_word32 (alu2 op x y))"
    unfolding bitwise_assign_def same_context_assign_eq [OF rows] gas vs by simp
  have e: "of_nat (fixed_tag_u64 FT_BitwiseAnd) + (opcode_expr op - opcode_expr (Arith AND)) = (of_nat (fixed_tag_u64 (bitwise_tag op)) :: 'f)"
    using op by (auto simp: bitwise_tag_def fixed_tag_u64_def opcode_expr_def unat_as_u64 as_u8_def)
  have look: "lookup_ok tb (LK_Fixed (of_nat (fixed_tag_u64 (bitwise_tag op))) [assign_word32 x ! i, assign_word32 y ! i, assign_word32 (alu2 op x y) ! i :: 'f])"
    if "i < 32" for i
  proof -
    have "alu2 op x y = (if op = Arith AND then and x y else if op = Arith OR then or x y else xor x y)" using op by (auto simp: alu2_def)
    then show ?thesis
      using tag(2) unfolding cells_nth [OF that] bitwise_lookup [OF can op]
      by (simp only: if_distrib [of "\<lambda>w. le_bytes 32 (unat w) ! i"] bytes_and [OF that] simp_thms)
  qed
  have ctx: "same_context_ok tb cur succ (Opcode_State St_BITWISE) (opcode_expr op) (range_check_assign repr 8 (ss_gas_left succ)) (delta_step 3 1 1 (Arith AND))"
    using op step by (intro same_context_delta(2) [OF can _ _ tag(1)]) (auto simp: op_codes constant_gas_cost_def alu2_step_def)
  have "cb_ok tb f l (bitwise_configure (opcode_expr op, range_check_assign repr 8 (ss_gas_left succ)) (assign_word32 x) (assign_word32 y)
      (assign_word32 (alu2 op x y)) (cb_new cur succ r (Opcode_State St_BITWISE)))"
    unfolding bitwise_configure_ok [OF refl] e using step look ctx by (simp add: alu2_step_def)
  with assign show ?thesis by blast
qed

text \<open>
  C16: the gadget of \<open>AND\<close>, \<open>OR\<close> and \<open>XOR\<close>, under the same conditions: cells that satisfy its constraints and lookups belong to a step of one of
  the three opcodes, whose result is that of the opcode on the words, bit by bit; and the assignment for such a step succeeds and satisfies
  them when the fixed table holds the responsible opcodes and the rows of the operation.
\<close>

theorem bitwise_spec:
  fixes cur succ :: "'f :: field StepState"
  assumes "canonical (repr :: 'f \<Rightarrow> nat)"
  shows "(length parts = 8 \<and> length a = 32 \<and> length b = 32 \<and> length c = 32 \<and>
       cb_ok tb f l (bitwise_configure (opcode, parts) a b c (cb_new cur succ r (Opcode_State St_BITWISE))) \<longrightarrow>
       (\<exists>op \<in> {Arith AND, Arith OR, Arith XOR}. \<exists>x y. alu2_step tb cur succ op x y)) \<and>
     (op \<in> {Arith AND, Arith OR, Arith XOR} \<and> alu2_step tb cur succ op x y \<and> FT_ResponsibleOpcode \<in> set (tb_fixed_tags tb) \<and>
       bitwise_tag op \<in> set (tb_fixed_tags tb) \<and>
       step_rows rws step op [x, y, alu2 op x y] \<and> ss_gas_left succ = of_nat (unat (es_gas_left step - es_gas_cost step)) \<longrightarrow>
       (\<exists>g a b c. bitwise_assign repr rws step = Inr (g, a, b, c) \<and>
          cb_ok tb f l (bitwise_configure g a b c (cb_new cur succ r (Opcode_State St_BITWISE)))))"
  by (intro conjI impI; elim conjE; (rule bitwise_sound [OF assms] bitwise_assign_complete [OF assms]; assumption))

theorem bitwise_spec_witness:
  "\<exists>g a b c. bitwise_assign (\<lambda>x. nat \<lfloor>x\<rfloor>) (alu2_rws (Arith XOR) 12 10) (alu2_exec (Arith XOR)) = Inr (g, a, b, c) \<and>
     cb_ok (alu2_tables (Arith XOR) 12 10) True True
       (bitwise_configure g a b c (cb_new (alu2_cur (Arith XOR)) alu2_succ 0 (Opcode_State St_BITWISE)))"
  by (rule mp [OF conjunct2 [OF bitwise_spec [OF canonical_rat, where op = "Arith XOR" and x = 12 and y = 10]]])
    (intro conjI alu2_example alu2_tags; simp)

text \<open>The assignment of \<open>PUSH\<close>, for a step whose code is found and holds the program counter.\<close>

lemma push_numbers:
  "list_all (\<lambda>op. u64_sub (as_u64 op) (as_u64 (Push PUSH0)) = (Inr (of_nat (push_size op)) :: u64 res) \<and>
     postfix op = Some (of_nat (push_size op)) \<and> unat (of_nat (push_size op) :: u8) = push_size op \<and>
     unat (of_nat (push_size op) :: u64) = push_size op) (op_state_opcodes St_PUSH)"
  by code_simp

definition push_found :: "RwMap \<Rightarrow> CodeDB \<Rightarrow> Call \<Rightarrow> ExecStep \<Rightarrow> nat \<Rightarrow> nat \<Rightarrow> OpcodeId \<Rightarrow> Word \<Rightarrow> bool" where
  "push_found rws bytecodes call step pc len op w \<longleftrightarrow> step_rows rws step op [w] \<and>
     (\<exists>bytecode. get_from_h256 bytecodes (cl_code_hash call) = Some bytecode \<and> codesize bytecode = len) \<and> es_pc step = of_nat pc"

lemma push_assign_eq:
  assumes w: "push_found rws bytecodes call step pc len op w" and op: "op \<in> set (op_state_opcodes St_PUSH)" and pc: "pc < len" "len < 2 ^ 64"
    and gas: "gas = of_nat (unat (es_gas_left step - es_gas_cost step))"
  shows "push_assign repr rws bytecodes call step = Inr ((opcode_expr op, range_check_assign repr 8 gas),
    fst (is_zero_gadget_assign (of_nat (push_size op))), assign_word32 w, map (\<lambda>i. of_bool (i < push_size op)) [0..<32],
    map (\<lambda>i. of_bool (i < push_size op - (len - pc - 1))) [0..<32], of_nat len,
    fst (lt_gadget_assign repr 8 (of_nat (len - pc - 1)) (of_nat (push_size op))))"
proof -
  obtain bytecode where b: "get_from_h256 bytecodes (cl_code_hash call) = Some bytecode" "codesize bytecode = len"
    and rows: "step_rows rws step op [w]" and p: "es_pc step = of_nat pc" using w by (auto simp: push_found_def)
  have n: "u64_sub (as_u64 op) (as_u64 (Push PUSH0)) = (Inr (of_nat (push_size op)) :: u64 res)" "postfix op = Some (of_nat (push_size op))"
    "unat (of_nat (push_size op) :: u8) = push_size op" "unat (of_nat (push_size op) :: u64) = push_size op"
    using push_numbers op by (simp_all add: list_all_iff)
  have m: "push_size op < 256" using push_opcodes op by (fastforce simp: list_all_iff)
  have u: "unat (of_nat len :: u64) = len" "unat (of_nat pc :: u64) = pc" using pc by (simp_all add: unat_of_nat)
  have s1: "u64_sub (of_nat len) (of_nat pc) = (Inr (of_nat len - of_nat pc) :: u64 res)"
    using u pc(1) by (simp add: u64_sub_def word_le_nat_alt)
  have d: "unat (of_nat len - of_nat pc :: u64) = len - pc" using u pc(1) by (simp add: unat_sub word_le_nat_alt)
  have s2: "u64_sub (of_nat len - of_nat pc) 1 = (Inr (of_nat len - of_nat pc - 1) :: u64 res)"
    using d pc(1) by (simp add: u64_sub_def word_le_nat_alt)
  have l: "unat (of_nat len - of_nat pc - 1 :: u64) = len - pc - 1" using d pc(1) by (simp add: unat_sub word_le_nat_alt)
  have v: "rws_stack_value rws step 0 = Inr w" using rows by (simp add: step_rows_def)
  show ?thesis
    unfolding push_assign_def same_context_assign_eq [OF rows] b p v
    by (simp add: n b s1 s2 l u gas m Let_def ok_or_def del: of_nat_unat of_nat_diff)
qed

text \<open>
  C15: the gadget of \<open>PUSH0\<close> to \<open>PUSH32\<close>, over a field that represents the numbers below \<open>2 ^ 253\<close>, for a step whose code has one length \<open>len\<close> below
  \<open>2 ^ 64\<close> in the bytecode table and whose program counter \<open>pc\<close> is below it. If the cells of the gadget satisfy its constraints and lookups, the step is one of
  a push opcode of \<open>n\<close> bytes: it writes a word to the top of the stack whose bytes, from the least significant on, are those of the code at \<open>pc + n\<close> down to \<open>pc + 1\<close>, all marked as data, with
  zeros for those behind the end of the code and above the first \<open>n\<close>; the program counter moves by \<open>n + 1\<close>, and gas, counters and the rest of the state as for one instruction
  (for a root call that creates a contract the circuit disables the lookups of the code). Conversely, for every such step, when the fixed table holds the responsible opcodes, the bytecode table
  has the row of zeros of a disabled lookup and the witness has the same word, code length, program counter and gas, the assignment succeeds and its cells satisfy all constraints and lookups.
\<close>

theorem push_spec:
  fixes cur succ :: "'f :: field StepState"
  assumes "canonical (repr :: 'f \<Rightarrow> nat)"
    and "\<forall>c. lookup_ok tb (LK_Bytecode (ss_code_hash cur) (of_nat (bytecode_field_tag_u64 BFT_Header)) 0 0 c) \<longleftrightarrow> c = of_nat len"
    and "ss_program_counter cur = of_nat pc" and "pc < len" and "len < 2 ^ 64"
  shows "(length parts = 8 \<and> length v = 32 \<and> length is_pushed = 32 \<and> length is_padding = 32 \<and> length (snd out) = 8 \<and>
       cb_ok tb f l (push_configure (opcode, parts) is_push0 v is_pushed is_padding code_length out (cb_new cur succ r (Opcode_State St_PUSH))) \<longrightarrow>
       (\<exists>op \<in> set (op_state_opcodes St_PUSH). \<exists>w. push_step tb cur succ pc len op w)) \<and>
     (op \<in> set (op_state_opcodes St_PUSH) \<and> push_step tb cur succ pc len op w \<and> FT_ResponsibleOpcode \<in> set (tb_fixed_tags tb) \<and>
       replicate 6 0 \<in> set (tb_bytecode tb) \<and> push_found rws bytecodes call step pc len op w \<and>
       ss_gas_left succ = of_nat (unat (es_gas_left step - es_gas_cost step)) \<longrightarrow>
       (\<exists>g z v ps qs len' t. push_assign repr rws bytecodes call step = Inr (g, z, v, ps, qs, len', t) \<and>
          cb_ok tb f l (push_configure g z v ps qs len' t (cb_new cur succ r (Opcode_State St_PUSH)))))"
proof (intro conjI impI; elim conjE)
  assume "length parts = 8" "length v = 32" "length is_pushed = 32" "length is_padding = 32" "length (snd out) = 8"
    "cb_ok tb f l (push_configure (opcode, parts) is_push0 v is_pushed is_padding code_length out (cb_new cur succ r (Opcode_State St_PUSH)))"
  then show "\<exists>op \<in> set (op_state_opcodes St_PUSH). \<exists>w. push_step tb cur succ pc len op w"
    using push_sound [OF assms(1) _ _ _ _ _ _ assms(3-5)] assms(2) by blast
next
  assume h: "op \<in> set (op_state_opcodes St_PUSH)" "push_step tb cur succ pc len op w" "FT_ResponsibleOpcode \<in> set (tb_fixed_tags tb)"
    "replicate 6 0 \<in> set (tb_bytecode tb)" "push_found rws bytecodes call step pc len op w"
    "ss_gas_left succ = of_nat (unat (es_gas_left step - es_gas_cost step))"
  have "lookup_ok tb (LK_Bytecode (ss_code_hash cur) (of_nat (bytecode_field_tag_u64 BFT_Header)) 0 0 (of_nat len))" using assms(2) by blast
  from push_complete [OF assms(1) h(3,1) refl refl this h(4) assms(3-5) h(2)] push_assign_eq [OF h(5,1) assms(4,5) h(6)]
  show "\<exists>g z v ps qs len' t. push_assign repr rws bytecodes call step = Inr (g, z, v, ps, qs, len', t) \<and>
      cb_ok tb f l (push_configure g z v ps qs len' t (cb_new cur succ r (Opcode_State St_PUSH)))" by blast
qed

text \<open>The witness: \<open>PUSH2\<close> at the start of a code of two bytes, whose last byte is behind the end of the code.\<close>

definition push_tables :: "rat Tables" where
  "push_tables = sample_tables [sample_stack_row 1 1 1019 0x0700]
     [[5, 6, 0, 0, 0, 2], [5, 6, 1, 0, 1, opcode_expr (Push PUSH2)], [5, 6, 1, 1, 0, 7], replicate 6 0]"

definition push_cur :: "rat StepState" where
  "push_cur = sample_step (Opcode_State St_STOP) 10"

definition push_succ :: "rat StepState" where
  "push_succ = (sample_step (Opcode_State St_STOP) 7)\<lparr>ss_rw_counter := 2, ss_program_counter := 3, ss_stack_pointer := 1019\<rparr>"

definition push_rws :: RwMap where
  "push_rws = [TStack \<mapsto> [RwStack 1 True 1 1019 0x0700]]"

definition push_exec :: ExecStep where
  "push_exec = exec_step_default\<lparr>es_exec_state := ES_Op (Push PUSH2), es_gas_left := 10, es_gas_cost := 3, es_bus_mapping_instance := [(TStack, 0)]\<rparr>"

definition push_codes :: CodeDB where
  "push_codes = [(9, [0x61, 7])]"

lemma push_example:
  "\<forall>c. lookup_ok push_tables (LK_Bytecode (ss_code_hash push_cur) (of_nat (bytecode_field_tag_u64 BFT_Header)) 0 0 c) \<longleftrightarrow> c = of_nat 2"
  "push_step push_tables push_cur push_succ 0 2 (Push PUSH2) 0x0700" "replicate 6 0 \<in> set (tb_bytecode push_tables)"
  "push_found push_rws push_codes (call_default\<lparr>cl_code_hash := 9\<rparr>) push_exec 0 2 (Push PUSH2) 0x0700"
  "ss_gas_left push_succ = of_nat (unat (es_gas_left push_exec - es_gas_cost push_exec))" "ss_program_counter push_cur = of_nat 0"
proof -
  show "\<forall>c. lookup_ok push_tables (LK_Bytecode (ss_code_hash push_cur) (of_nat (bytecode_field_tag_u64 BFT_Header)) 0 0 c) \<longleftrightarrow> c = of_nat 2"
    by (auto simp: lookup_ok_def table_rows_def push_tables_def sample_tables_def push_cur_def sample_step_def bytecode_field_tag_u64_def numeral_eq_Suc)
  show "replicate 6 0 \<in> set (tb_bytecode push_tables)" by (simp add: push_tables_def sample_tables_def)
  have size: "push_size (Push PUSH2) = 2" by (simp add: push_size_def as_u8_def)
  have row: "code_row push_tables push_cur 0 (opcode_expr (Push PUSH2)) 1" "code_row push_tables push_cur 1 7 0"
    by (simp_all add: code_row_def lookup_ok_conditional lookup_ok_def table_rows_def push_tables_def sample_tables_def push_cur_def sample_step_def
        bytecode_field_tag_u64_def)
  have ctx: "same_context_step push_tables push_cur push_succ (Push PUSH2) 1 (of_nat 3) (- 1)"
    unfolding same_context_step_def using row(1)
    by (auto simp: push_cur_def push_succ_def sample_step_def constant_gas_cost_def GasCost_FASTEST_def intro!: exI [of _ 7])
  have stack: "stack_row push_tables push_cur 0 True (- 1) (word_from_u256 0x0700)"
    by (simp add: stack_row_def rw_row_def push_tables_def sample_tables_def sample_stack_row_def push_cur_def sample_step_def)
  have "replicate 30 0 = [0, 0, 0, 0, 0, 0, 0, 0, 0, 0, 0, 0, 0, 0, 0, 0, 0, 0, 0, 0, 0, 0, 0, 0, 0, 0, 0, 0, 0, 0 :: u8]" by (simp add: numeral_eq_Suc)
  then have bytes: "le_bytes 32 (unat (0x0700 :: Word)) = [0, 7] @ replicate 30 0" by (simp add: le_bytes_def upt_rec)
  have "\<forall>i < 32. if 2 - (2 - 0 - 1) \<le> i \<and> i < 2 then code_row push_tables push_cur (of_nat (0 + 2 - i)) (of_nat (unat (le_bytes 32 (unat (0x0700 :: Word)) ! i))) 0
      else le_bytes 32 (unat (0x0700 :: Word)) ! i = 0"
  proof (intro allI impI)
    fix i :: nat
    assume that: "i < 32"
    consider "i = 0" | "i = 1" | "2 \<le> i" by linarith
    then show "if 2 - (2 - 0 - 1) \<le> i \<and> i < 2 then code_row push_tables push_cur (of_nat (0 + 2 - i)) (of_nat (unat (le_bytes 32 (unat (0x0700 :: Word)) ! i))) 0
      else le_bytes 32 (unat (0x0700 :: Word)) ! i = 0"
      unfolding bytes using row(2) that by cases (auto simp: nth_append nth_Cons')
  qed
  then show "push_step push_tables push_cur push_succ 0 2 (Push PUSH2) 0x0700"
    unfolding push_step_def Let_def size using ctx stack by (intro conjI) simp_all
  show "push_found push_rws push_codes (call_default\<lparr>cl_code_hash := 9\<rparr>) push_exec 0 2 (Push PUSH2) 0x0700"
    by (simp add: push_found_def step_rows_def push_exec_def es_opcode_def rws_stack_value_def get_rws_def rw_index_def nth_opt_def ok_or_def
        push_rws_def rw_map_index_def exec_step_default_def push_codes_def get_from_h256_def codesize_def from_bytes_scan)
  show "ss_gas_left push_succ = of_nat (unat (es_gas_left push_exec - es_gas_cost push_exec))" "ss_program_counter push_cur = of_nat 0"
    by (simp_all add: push_exec_def push_succ_def push_cur_def sample_step_def)
qed

theorem push_spec_witness:
  "\<exists>g z v ps qs len' t. push_assign (\<lambda>x. nat \<lfloor>x\<rfloor>) push_rws push_codes (call_default\<lparr>cl_code_hash := 9\<rparr>) push_exec = Inr (g, z, v, ps, qs, len', t) \<and>
     cb_ok push_tables True True (push_configure g z v ps qs len' t (cb_new push_cur push_succ 0 (Opcode_State St_PUSH)))"
  by (rule mp [OF conjunct2 [OF push_spec [OF canonical_rat push_example(1,6), where op = "Push PUSH2" and w = "0x0700"]]])
    (use push_example fixed_tags_sample in \<open>auto simp: push_tables_def op_state_opcodes_def\<close>)

end
