(* ===== verification/Spec2Isabelle.thy ===== *)
theory Spec2Isabelle
  imports Block_Run Handler_Specs Exp_Circuit State_Properties Bytecode_Circuit Step_Properties
begin

text \<open>
  Verification of the zkEVM circuits repository: the bus mapping, which turns the trace of an Ethereum block into the witness of a
  proof, and circuits that check such a witness. The theories model the code under \<^verbatim>\<open>src/\<close>; every group of definitions keeps
  the names and the order of the code.

  \<^bold>\<open>How the program works.\<close> The crate \<^verbatim>\<open>bus-mapping\<close> replays the geth trace of a block. For every step of the trace a handler of
  the opcode pushes numbered read and write operations (stack, memory, storage, accounts, call contexts, access lists, refunds, logs,
  receipts) to a container, checks them against a state database, and keeps a stack of calls with the operations to undo when a
  call fails. At the end of a block the operations become the rows of the read-write table, sorted by key for the state circuit and looked
  up by counter from the EVM circuit. The state circuit checks that the sorted rows are consistent with each other, the bytecode and the
  exponentiation circuit check their own tables, and the EVM circuit checks each step of the execution against all the tables. The crates
  \<^verbatim>\<open>eth-types\<close> and \<^verbatim>\<open>gadgets\<close> hold the data and the small chips used everywhere.

  \<^bold>\<open>Vocabulary.\<close> \<open>Prelude\<close>: machine integers are words of their width and checked arithmetic panics; a fallible function returns
  \<open>Inl (Err e)\<close>, \<open>Inl (Panic m)\<close> or \<open>Inr x\<close>; words and bytes convert in both directions.

  \<^bold>\<open>eth-types.\<close>
  \<^item> \<open>Opcode_Ids\<close> (\<^verbatim>\<open>evm_types/opcode_ids.rs\<close>, \<^verbatim>\<open>evm_types.rs\<close>): opcodes, bytes, names, gas constants, stack ranges. Bytes and
    opcodes are mutually inverse.
  \<^item> \<open>Evm_Types\<close> (\<^verbatim>\<open>stack.rs\<close>, \<^verbatim>\<open>memory.rs\<close>, \<^verbatim>\<open>storage.rs\<close>, \<^verbatim>\<open>gas_utils.rs\<close>): stack queries, memory growth and copies, gas formulas;
    byte-exact specifications and the overflow boundary of the expansion gas.
  \<^item> \<open>Bytecode\<close> (\<^verbatim>\<open>bytecode.rs\<close>): assembler, reader, iterator, text form of entries, with their round trips, and exactly where
    they fail.

  \<^bold>\<open>bus-mapping.\<close>
  \<^item> \<open>Operation\<close> (\<^verbatim>\<open>operation.rs\<close>, \<^verbatim>\<open>operation/container.rs\<close>): the operations, their orders and the container. The locale \<open>rust_ord\<close>
    states the laws of Rust's \<open>Ord\<close> and is interpreted for every kind of operation; \<open>op_log\<close> is the contract of the container: an
    inserted operation is found under a fresh reference and older ones stay.
  \<^item> \<open>State_Db\<close> (\<^verbatim>\<open>state_db.rs\<close>): code database, accounts, storage, access lists, refund, end of a transaction.
  \<^item> \<open>Exec_Types\<close> (\<^verbatim>\<open>error.rs\<close> and \<^verbatim>\<open>circuit_input_builder/\<close>: \<^verbatim>\<open>execution.rs\<close>, \<^verbatim>\<open>call.rs\<close>, \<^verbatim>\<open>transaction.rs\<close>, \<^verbatim>\<open>block.rs\<close>): steps, calls, call
    contexts, reversion groups, copy and exponentiation events, transactions, blocks.
  \<^item> \<open>Input_State\<close> and \<open>Call_State\<close> (\<^verbatim>\<open>input_state_ref.rs\<close>): \<open>CircuitInputState\<close> is what a \<open>CircuitInputStateRef\<close> borrows; each method is a
    definition on it, in the error monad of \<open>Prelude\<close>.
  \<^item> \<open>Op_Handlers\<close>, \<open>Copy_Handlers\<close>, \<open>Call_Handlers\<close>, \<open>Tx_Handlers\<close> (\<^verbatim>\<open>evm/opcodes/\<close>): one definition for each \<open>gen_associated_ops\<close>, the
    beginning and the end of a transaction, the handlers of errors, the choice of the handler.
  \<^item> \<open>Builder\<close> (\<^verbatim>\<open>circuit_input_builder.rs\<close>): \<open>handle_tx\<close>, \<open>handle_block\<close>, parameters, padding, ends of reversion.
  \<^item> \<open>Call_Stack\<close>, \<open>Builder_Step\<close>: the builder as the step relation \<open>builder_step\<close>; every state reachable from the start of a transaction
    has counters without gaps, an aligned call stack and aligned reversion groups.
  \<^item> \<open>Handler_Steps\<close>, \<open>Tx_Run\<close>, \<open>Block_Run\<close>, \<open>Handler_Specs\<close>, \<open>Example_Block\<close>: the locales \<open>push_contract\<close>, \<open>step_contract\<close> and
    \<open>run_contract\<close> are what a property must satisfy to hold through every handler, a transaction and a block. Interpreted for
    reachability by \<open>builder_step\<close> and for the frame of a transaction they give the refinement of all handlers and the shape of
    a handled transaction and block.
  \<^item> \<open>Observation\<close>, \<open>Reversion\<close>: \<open>observe\<close> abstracts the database to what its queries return, \<open>spec_apply_op\<close> specifies an operation there, and
    \<open>check_apply_op\<close> refines it; the locale \<open>reversible_ops\<close> gives that \<open>handle_reversion\<close> restores the observation.
  \<^item> \<open>End_Block\<close>: the filling of the ends of reversion, padding, and the agreement of \<open>compute_params\<close> with \<open>set_end_block\<close>.

  \<^bold>\<open>gadgets.\<close> \<open>Field_Gadgets\<close> and \<open>Mul_Add\<close>: an expression is its value at a row, a gate is the list of the values of its polynomials, and it is
  satisfied when they are all zero. Each chip has its gates, its assignment, and a theorem that relates them to what the chip is for.

  \<^bold>\<open>zkevm-circuits.\<close> A region is a function from row numbers to cells; a lookup is the table with the values looked up there.
  \<^item> \<open>Rw_Table\<close> (\<^verbatim>\<open>witness/rw.rs\<close>, \<^verbatim>\<open>table.rs\<close>): the rows made from the operations, sorted by key and padded.
  \<^item> \<open>Constraint_Builder\<close> (\<^verbatim>\<open>evm_circuit/util/constraint_builder.rs\<close>): the base constraint builder.
  \<^item> \<open>State_Circuit\<close>, \<open>State_Order\<close>, \<open>State_Consistency\<close>, \<open>State_Properties\<close> (\<^verbatim>\<open>state_circuit/\<close>): every gate and lookup. The keys grow strictly from
    row to row for all but 496 challenges, the assignment of the order passes, a read returns the last value written to its key, and the root
    moves at the last access of a key by a row of the MPT table. The properties say which cells the gates leave open: the field tags of log
    and receipt rows, and the root at certain rows.
  \<^item> \<open>Bytecode_Circuit\<close> (\<^verbatim>\<open>bytecode_circuit/circuit.rs\<close>, \<^verbatim>\<open>table/bytecode_table.rs\<close>) and \<open>Exp_Circuit\<close> (\<^verbatim>\<open>exp_circuit.rs\<close>, \<^verbatim>\<open>table/exp_table.rs\<close>): all
    gates and the assignment, soundness and completeness, and a false power that the exponentiation gates accept.
  \<^item> \<open>Evm_Step\<close> (\<^verbatim>\<open>evm_circuit/step.rs\<close>): execution states, responsible opcodes, selector and cells of a step.
  \<^item> \<open>Evm_Builder\<close> (\<^verbatim>\<open>evm_circuit/table.rs\<close>, \<^verbatim>\<open>evm_circuit/util/constraint_builder.rs\<close>): the fixed tables, the lookups and \<open>EVMConstraintBuilder\<close>.
  \<^item> \<open>Math_Gadgets\<close>, \<open>Mul_Gadgets\<close> (\<^verbatim>\<open>evm_circuit/util/math_gadget/\<close>): zero and equality tests, comparisons, range check, division, byte size,
    sums and products of words.
  \<^item> \<open>Step_Gadgets\<close> (\<^verbatim>\<open>evm_circuit/util/common_gadget.rs\<close>, \<^verbatim>\<open>evm_circuit/execution/\<close>): gadgets of arithmetic, comparison, bitwise, stack, jump and
    environment opcodes. \<open>Step_Sound\<close>, \<open>Logic_Gadgets\<close>, \<open>Jump_Gadgets\<close>, \<open>Push_Gadget\<close> and \<open>Step_Complete\<close> show what their constraints say of a
    step and that assignments satisfy them; \<open>Step_Properties\<close> has the theorems for ADD/SUB, MUL/DIV/MOD, AND/OR/XOR and PUSH.

  \<^bold>\<open>Parameters.\<close> Third-party code is an argument: \<open>keccak256\<close>, address derivation, RLP and precompiled contracts (the record
  \<open>Externals\<close>), parsing and printing of decimal \<open>U256\<close> values, the order in which a hash map is enumerated, the keccak and MPT tables. The
  field is any type of class \<open>field\<close>, with the hypothesis \<open>canonical repr\<close> that numbers below \<open>2 ^ 253\<close> are told apart; the witnesses use
  the rational numbers. The challenges of the proof system are arguments, and where a statement can fail for some of them the
  exceptions are counted or excluded by a hypothesis. The random linear combination that compresses the columns of a lookup, the cell
  manager and the splitting of expressions of high degree are abstracted: a lookup is a lookup of the tuple of its columns.

  \<^bold>\<open>Termination.\<close> All definitions are total. Loops over lists are recursive on them, and the few other recursions (exponentiation
  by squaring, the reader and the iterator of bytecode) end by a measure, so that no fuel is used.

  \<^bold>\<open>Not modelled.\<close> The access-trace generator and RPC client (they feed each other over the network); mock data, benchmarks,
  test tools and Go code; signatures and hashing (wrappers of third-party cryptography); the copy, keccak, MPT, public-input and
  transaction circuits; the root and super circuits and the circuit tools (composition and layout inside the proof system); the
  EVM gadgets of memory, storage, calls, copies, logs, errors and transaction boundaries, the assignments of the environment
  gadgets, and the gates of \<^verbatim>\<open>evm_circuit/execution.rs\<close> that connect steps; the assignment of initial values and roots in the
  state circuit; logging, column annotations and serialisation.
\<close>

end
